(* ===== verification/Bm_Prelude.thy ===== *)
theory Bm_Prelude
  imports Main "HOL-Library.Word" "HOL-Library.Monad_Syntax"
begin

text \<open>
  Shared vocabulary of the development: the machine integers of the target (an
  STM32U5, little-endian, 32-bit), byte buffers with checked copies, the error
  monad in which the register-level drivers are written, and the generic lemmas on
  lists and words that the component theories use.
\<close>

unbundle bit_operations_syntax

named_theorems io_simps \<open>unfolding rules of the driver monad\<close>
named_theorems oa_simps \<open>unfolding rules of the OPEN Alliance bit-field layouts\<close>

type_synonym u8 = "8 word"
type_synonym u16 = "16 word"
type_synonym u32 = "32 word"
type_synonym u64 = "64 word"

section \<open>Checked byte copies\<close>

text \<open>
  A C buffer is the list of its bytes.  A copy that leaves the source or the
  destination object is undefined behaviour in C and \<open>None\<close> here, so that a
  theorem that an operation returns \<open>Some\<close> says that it touches no byte outside
  its buffers.
\<close>

definition mem_read :: "u8 list \<Rightarrow> nat \<Rightarrow> nat \<Rightarrow> u8 list option" where
  "mem_read src off n = (if off + n \<le> length src then Some (take n (drop off src)) else None)"

definition mem_write :: "u8 list \<Rightarrow> nat \<Rightarrow> u8 list \<Rightarrow> u8 list option" where
  "mem_write dst off bs =
     (if off + length bs \<le> length dst
      then Some (take off dst @ bs @ drop (off + length bs) dst) else None)"

lemma mem_read_Some [simp]:
  "mem_read src off n = Some bs \<longleftrightarrow> off + n \<le> length src \<and> bs = take n (drop off src)"
  by (auto simp: mem_read_def)

lemma mem_read_ok: "off + n \<le> length src \<Longrightarrow> mem_read src off n = Some (take n (drop off src))"
  by simp

lemma mem_read_length: "mem_read src off n = Some bs \<Longrightarrow> length bs = n"
  by auto

lemma mem_write_ok:
  "off + length bs \<le> length dst \<Longrightarrow>
   mem_write dst off bs = Some (take off dst @ bs @ drop (off + length bs) dst)"
  by (simp add: mem_write_def)

lemma mem_write_length: "mem_write dst off bs = Some dst' \<Longrightarrow> length dst' = length dst"
  by (auto simp: mem_write_def split: if_splits)

lemma mem_write_None: "mem_write dst off bs = None \<longleftrightarrow> length dst < off + length bs"
  by (auto simp: mem_write_def)

lemma mem_read_after_write:
  assumes "mem_write dst off bs = Some dst'"
  shows "mem_read dst' off (length bs) = Some bs"
  using assms by (auto simp: mem_write_def mem_read_def split: if_splits)

lemma mem_read_write_below:
  assumes "mem_write dst off bs = Some dst'" and "o2 + n \<le> off"
  shows "mem_read dst' o2 n = mem_read dst o2 n"
proof -
  have "take n (drop o2 (take off dst)) = take n (drop o2 dst)"
    using assms(2) by (simp add: take_drop min_def)
  then show ?thesis
    using assms by (auto simp: mem_write_def mem_read_def split: if_splits)
qed

lemma take_mem_write:
  assumes "mem_write dst off bs = Some dst'"
  shows "take (off + length bs) dst' = take off dst @ bs"
  using assms by (auto simp: mem_write_def split: if_splits)

lemma take_mem_write_below:
  assumes "mem_write dst off bs = Some dst'" and "n \<le> off"
  shows "take n dst' = take n dst"
  using assms by (auto simp: mem_write_def min_def split: if_splits)

lemma slice_write_same:
  assumes "mem_write dst off bs = Some dst'" and "n = length bs"
  shows "take n (drop off dst') = bs"
  using assms by (auto simp: mem_write_def split: if_splits)

lemma slice_write_other:
  assumes "mem_write dst off bs = Some dst'" and "o2 + n \<le> off \<or> off + length bs \<le> o2"
  shows "take n (drop o2 dst') = take n (drop o2 dst)"
proof -
  have le: "off + length bs \<le> length dst" and
    d: "dst' = take off dst @ bs @ drop (off + length bs) dst"
    using assms(1) by (auto simp: mem_write_def split: if_splits)
  show ?thesis
  proof (rule nth_equalityI)
    show "length (take n (drop o2 dst')) = length (take n (drop o2 dst))"
      using mem_write_length [OF assms(1)] by simp
  next
    fix i assume "i < length (take n (drop o2 dst'))"
    then have i: "i < n" "o2 + i < length dst'" by auto
    then have "dst' ! (o2 + i) = dst ! (o2 + i)"
      using assms(2) le unfolding d by (auto simp: nth_append)
    with i show "take n (drop o2 dst') ! i = take n (drop o2 dst) ! i"
      using mem_write_length [OF assms(1)] by simp
  qed
qed

section \<open>Unsigned 32-bit arithmetic on sizes\<close>

text \<open>
  Sizes, counts and buffer offsets are natural numbers.  Where the subtraction of the
  code can go below zero it is the wrap-around of \<open>uint32_t\<close>, written out.
\<close>

definition sub32 :: "nat \<Rightarrow> nat \<Rightarrow> nat" where
  "sub32 a b = (a + 2 ^ 32 - b) mod 2 ^ 32"

lemma sub32_le [simp]:
  assumes "b \<le> a" and "a < 2 ^ 32"
  shows "sub32 a b = a - b"
proof -
  have "a + 2 ^ 32 - b = (a - b) + 2 ^ 32" using assms(1) by simp
  then have "sub32 a b = (a - b) mod 2 ^ 32"
    by (simp only: sub32_def mod_add_self2)
  also have "\<dots> = a - b"
    using assms(2) by (intro mod_less) (rule le_less_trans [OF diff_le_self])
  finally show ?thesis .
qed

lemma sub32_wraps:
  assumes "a < b" and "b < 2 ^ 32"
  shows "sub32 a b = 2 ^ 32 - (b - a)"
  unfolding sub32_def using assms by (subst mod_less) linarith+

section \<open>Words as bytes\<close>

text \<open>
  The bytes a \<open>uint32_t\<close> occupies in the memory of the little-endian target, and the
  byte reversal \<open>__REV\<close> that \<open>HTON32\<close> expands to.
\<close>

definition le_bytes32 :: "u32 \<Rightarrow> u8 list" where
  "le_bytes32 w = [ucast w, ucast (drop_bit 8 w), ucast (drop_bit 16 w), ucast (drop_bit 24 w)]"

definition le_word32 :: "u8 list \<Rightarrow> u32" where
  "le_word32 bs = (ucast (bs ! 0) OR push_bit 8 (ucast (bs ! 1))
      OR push_bit 16 (ucast (bs ! 2)) OR push_bit 24 (ucast (bs ! 3)))"

definition HTON32 :: "u32 \<Rightarrow> u32" where
  "HTON32 w = (push_bit 24 (w AND 0xFF) OR push_bit 8 (w AND 0xFF00)
      OR (drop_bit 8 w AND 0xFF00) OR drop_bit 24 w)"

definition HTON16 :: "u16 \<Rightarrow> u16" where
  "HTON16 w = (push_bit 8 (w AND 0xFF) OR (drop_bit 8 w AND 0xFF))"

subsection \<open>Bitwise case analysis at a fixed width\<close>

lemma bit_word_ge: "LENGTH('a::len) \<le> n \<Longrightarrow> \<not> bit (w :: 'a word) n"
  by (auto dest: bit_imp_le_length)

lemma bits_eqI:
  assumes "list_all (\<lambda>n. bit a n = bit b n) [0..<LENGTH('a::len)]"
  shows "a = (b :: 'a word)"
  using assms by (intro bit_word_eqI) (auto simp: list_all_iff)

lemma take_bit_word_less:
  assumes "unat w < 2 ^ n"
  shows "take_bit n (w :: 'a::len word) = w"
  using assms
  by (intro word_unat_eq_iff [THEN iffD2]) (simp add: unsigned_take_bit_eq take_bit_nat_eq_self)

lemma upt_8: "[0..<8] =
      [0, 1, 2, 3, 4, 5, 6, 7]"
  by code_simp

lemma upt_16: "[0..<16] =
      [0, 1, 2, 3, 4, 5, 6, 7, 8, 9, 10, 11, 12, 13, 14, 15]"
  by code_simp

lemma upt_32: "[0..<32] =
      [0, 1, 2, 3, 4, 5, 6, 7, 8, 9, 10, 11, 12, 13, 14, 15, 16, 17, 18, 19, 20, 21, 
       22, 23, 24, 25, 26, 27, 28, 29, 30, 31]"
  by code_simp

lemmas bit_blast = bit_simps bit_word_ge upt_8 upt_16 upt_32 nth_append

lemma length_le_bytes32 [simp]: "length (le_bytes32 w) = 4"
  by (simp add: le_bytes32_def)

lemma le_bytes32_HTON32: "le_bytes32 (HTON32 w) = rev (le_bytes32 w)"
  by (simp add: HTON32_def le_bytes32_def, intro conjI; rule bits_eqI; simp add: bit_blast)

lemma le_word32_le_bytes32 [simp]: "le_word32 (le_bytes32 w @ bs) = w"
  unfolding le_word32_def le_bytes32_def
  by (rule bits_eqI) (simp add: bit_blast)

lemma le_word32_le_bytes32' [simp]: "le_word32 (le_bytes32 w) = w"
  using le_word32_le_bytes32 [of w "[]"] by simp

lemma HTON32_HTON32 [simp]: "HTON32 (HTON32 w) = w"
  unfolding HTON32_def
  by (rule bits_eqI) (simp add: bit_blast)

lemma HTON32_inject [simp]: "HTON32 v = HTON32 w \<longleftrightarrow> v = w"
  by (metis HTON32_HTON32)

lemma le_bytes32_inject [simp]: "le_bytes32 v = le_bytes32 w \<longleftrightarrow> v = w"
  by (metis le_word32_le_bytes32')

lemma le_bytes32_le_word32:
  assumes "length bs = 4"
  shows "le_bytes32 (le_word32 bs) = bs"
proof -
  obtain a b c d where "bs = [a, b, c, d]"
    using assms by (auto simp: length_Suc_conv numeral_eq_Suc)
  moreover have "le_bytes32 (le_word32 [a, b, c, d]) = [a, b, c, d]"
    by (simp add: le_bytes32_def le_word32_def, intro conjI; rule bits_eqI; simp add: bit_blast)
  ultimately show ?thesis by simp
qed

lemma le_word32_inject:
  "length as = 4 \<Longrightarrow> length bs = 4 \<Longrightarrow> le_word32 as = le_word32 bs \<longleftrightarrow> as = bs"
  by (metis le_bytes32_le_word32)

section \<open>Status codes and the driver monad\<close>

text \<open>
  \<open>adi_eth_Result_e\<close> of \<open>adi_eth_common.h\<close>.  A driver routine returns a status code
  and, through its out-parameters, a value.  It is a function from the state to
  \<open>None\<close> (undefined behaviour, or a loop that does not end) or the status with the
  new state: \<open>Inl e\<close> for a status other than \<open>ADI_ETH_SUCCESS\<close>, \<open>Inr x\<close> for success
  with the out-parameters \<open>x\<close>.  \<open>mbind\<close> is the \<open>if (result != ADI_ETH_SUCCESS) goto end;\<close>
  that follows almost every call of the C code.
\<close>

datatype adi_eth_Result_e =
    ADI_ETH_SUCCESS | ADI_ETH_MDIO_TIMEOUT | ADI_ETH_COMM_ERROR | ADI_ETH_COMM_ERROR_SECOND
  | ADI_ETH_COMM_TIMEOUT | ADI_ETH_UNSUPPORTED_DEVICE | ADI_ETH_DEVICE_UNINITIALIZED
  | ADI_ETH_HW_ERROR | ADI_ETH_INVALID_PARAM | ADI_ETH_PARAM_OUT_OF_RANGE
  | ADI_ETH_INVALID_HANDLE | ADI_ETH_IRQ_PENDING | ADI_ETH_READ_STATUS_TIMEOUT
  | ADI_ETH_INVALID_POWER_STATE | ADI_ETH_HAL_INIT_ERROR | ADI_ETH_INSUFFICIENT_FIFO_SPACE
  | ADI_ETH_CRC_ERROR | ADI_ETH_PROTECTION_ERROR | ADI_ETH_QUEUE_FULL | ADI_ETH_QUEUE_EMPTY
  | ADI_ETH_BUFFER_TOO_SMALL | ADI_ETH_INVALID_PORT | ADI_ETH_ADDRESS_FILTER_TABLE_FULL
  | ADI_ETH_MAC_BUSY | ADI_ETH_COMM_BUSY | ADI_ETH_SPI_ERROR | ADI_ETH_SW_RESET_TIMEOUT
  | ADI_ETH_CONFIG_SYNC_ERROR | ADI_ETH_VALUE_MISMATCH_ERROR | ADI_ETH_FIFO_SIZE_ERROR
  | ADI_ETH_TS_COUNTERS_DISABLED | ADI_ETH_NO_TS_FORMAT | ADI_ETH_NOT_IMPLEMENTED
  | ADI_ETH_NOT_IMPLEMENTED_SOFTWARE | ADI_ETH_UNSUPPORTED_FEATURE | ADI_ETH_PLACEHOLDER_ERROR

type_synonym ('w, 'a) io = "'w \<Rightarrow> ((adi_eth_Result_e + 'a) \<times> 'w) option"

definition mret :: "'a \<Rightarrow> ('w, 'a) io" where
  "mret x = (\<lambda>w. Some (Inr x, w))"

definition mfail :: "adi_eth_Result_e \<Rightarrow> ('w, 'a) io" where
  "mfail e = (\<lambda>w. Some (Inl e, w))"

definition mbind :: "('w, 'a) io \<Rightarrow> ('a \<Rightarrow> ('w, 'b) io) \<Rightarrow> ('w, 'b) io" where
  "mbind m f = (\<lambda>w. case m w of None \<Rightarrow> None
      | Some (Inl e, w') \<Rightarrow> Some (Inl e, w')
      | Some (Inr x, w') \<Rightarrow> f x w')"

definition mcatch :: "('w, 'a) io \<Rightarrow> (adi_eth_Result_e \<Rightarrow> ('w, 'b) io) \<Rightarrow> ('a \<Rightarrow> ('w, 'b) io) \<Rightarrow> ('w, 'b) io" where
  \<comment> \<open>a call whose failing status the caller handles itself\<close>
  "mcatch m h f = (\<lambda>w. case m w of None \<Rightarrow> None
      | Some (Inl e, w') \<Rightarrow> h e w'
      | Some (Inr x, w') \<Rightarrow> f x w')"

definition mget :: "('w \<Rightarrow> 'a) \<Rightarrow> ('w, 'a) io" where
  "mget f = (\<lambda>w. Some (Inr (f w), w))"

definition mupd :: "('w \<Rightarrow> 'w) \<Rightarrow> ('w, unit) io" where
  "mupd f = (\<lambda>w. Some (Inr (), f w))"

definition mwhen :: "bool \<Rightarrow> ('w, unit) io \<Rightarrow> ('w, unit) io" where
  "mwhen b m = (if b then m else mret ())"

lemma mret_run [io_simps]: "mret x w = Some (Inr x, w)"
  by (simp add: mret_def)

lemma mfail_run [io_simps]: "mfail e w = Some (Inl e, w)"
  by (simp add: mfail_def)

lemma mget_run [io_simps]: "mget f w = Some (Inr (f w), w)"
  by (simp add: mget_def)

lemma mupd_run [io_simps]: "mupd f w = Some (Inr (), f w)"
  by (simp add: mupd_def)

lemma mwhen_run [io_simps]: "mwhen b m w = (if b then m w else Some (Inr (), w))"
  by (simp add: mwhen_def mret_def)

lemma mbind_Inr [io_simps]: "m w = Some (Inr x, w') \<Longrightarrow> mbind m f w = f x w'"
  by (simp add: mbind_def)

lemma mbind_Inl [io_simps]: "m w = Some (Inl e, w') \<Longrightarrow> mbind m f w = Some (Inl e, w')"
  by (simp add: mbind_def)

lemma mcatch_Inr [io_simps]: "m w = Some (Inr x, w') \<Longrightarrow> mcatch m h f w = f x w'"
  by (simp add: mcatch_def)

lemma mcatch_Inl [io_simps]: "m w = Some (Inl e, w') \<Longrightarrow> mcatch m h f w = h e w'"
  by (simp add: mcatch_def)

lemma mbind_assoc: "mbind (mbind m f) g = mbind m (\<lambda>x. mbind (f x) g)"
  by (rule ext) (simp add: mbind_def split: option.splits sum.splits)

lemma mbind_Some_Inr:
  assumes "mbind m f w = Some (Inr y, w2)"
  obtains x w1 where "m w = Some (Inr x, w1)" and "f x w1 = Some (Inr y, w2)"
  using assms by (auto simp: mbind_def split: option.splits sum.splits)

end
