(* ===== verification/Mac_Queue.thy ===== *)
theory Mac_Queue
  imports Bm_Prelude
begin

text \<open>
  The frame queues of the MAC driver (\<open>adi_mac.c\<close>, \<open>adi_mac_Queue_t\<close>): a ring of
  \<open>numEntries\<close> slots of which one stays unused, so that \<open>head = tail\<close> means empty.
  The transmit queue has 4 + 1 slots and the receive queue 8 + 1.  The ring is shown
  to be a bounded first-in first-out queue: the interface \<open>fifo\<close> states what the
  driver relies on, and the ring operations of the code interpret it.
\<close>

section \<open>The interface: a bounded queue\<close>

datatype 'x fifo_op = Enqueue 'x | Dequeue

text \<open>
  A client's history: an enqueue is dropped when the queue is full (the driver returns
  \<open>ADI_ETH_QUEUE_FULL\<close>), a dequeue of an empty queue does nothing.  The history returns
  the final queue, the elements accepted and the elements taken out, oldest first.
\<close>

fun fifo_run ::
  "('q \<Rightarrow> 'x \<Rightarrow> 'q) \<Rightarrow> ('q \<Rightarrow> 'q) \<Rightarrow> ('q \<Rightarrow> bool) \<Rightarrow> ('q \<Rightarrow> bool) \<Rightarrow> ('q \<Rightarrow> 'x) \<Rightarrow>
   'q \<Rightarrow> 'x fifo_op list \<Rightarrow> 'q \<times> 'x list \<times> 'x list" where
  "fifo_run enq deq isfull isempty front q [] = (q, [], [])"
| "fifo_run enq deq isfull isempty front q (Enqueue x # ops) =
     (if isfull q then fifo_run enq deq isfull isempty front q ops
      else let (q', ins, outs) = fifo_run enq deq isfull isempty front (enq q x) ops
           in (q', x # ins, outs))"
| "fifo_run enq deq isfull isempty front q (Dequeue # ops) =
     (if isempty q then fifo_run enq deq isfull isempty front q ops
      else let (q', ins, outs) = fifo_run enq deq isfull isempty front (deq q) ops
           in (q', ins, front q # outs))"

locale fifo =
  fixes enq :: "'q \<Rightarrow> 'x \<Rightarrow> 'q"
    and deq :: "'q \<Rightarrow> 'q"
    and isfull :: "'q \<Rightarrow> bool"
    and isempty :: "'q \<Rightarrow> bool"
    and front :: "'q \<Rightarrow> 'x"
    and content :: "'q \<Rightarrow> 'x list"
    and capacity :: "'q \<Rightarrow> nat"
    and qinv :: "'q \<Rightarrow> bool"
  assumes inv_enq: "qinv q \<Longrightarrow> \<not> isfull q \<Longrightarrow> qinv (enq q x)"
    and inv_deq: "qinv q \<Longrightarrow> \<not> isempty q \<Longrightarrow> qinv (deq q)"
    and empty_iff: "qinv q \<Longrightarrow> isempty q \<longleftrightarrow> content q = []"
    and full_iff: "qinv q \<Longrightarrow> isfull q \<longleftrightarrow> length (content q) = capacity q"
    and content_bound: "qinv q \<Longrightarrow> length (content q) \<le> capacity q"
    and content_enq: "qinv q \<Longrightarrow> \<not> isfull q \<Longrightarrow> content (enq q x) = content q @ [x]"
    and content_deq: "qinv q \<Longrightarrow> \<not> isempty q \<Longrightarrow> content (deq q) = tl (content q)"
    and front_content: "qinv q \<Longrightarrow> \<not> isempty q \<Longrightarrow> front q = hd (content q)"
begin

abbreviation run :: "'q \<Rightarrow> 'x fifo_op list \<Rightarrow> 'q \<times> 'x list \<times> 'x list" where
  "run \<equiv> fifo_run enq deq isfull isempty front"

lemma run_fifo:
  assumes "qinv q" and "run q ops = (q', ins, outs)"
  shows "qinv q' \<and> content q @ ins = outs @ content q'"
  using assms
proof (induction ops arbitrary: q q' ins outs)
  case Nil
  then show ?case by simp
next
  case (Cons oper ops)
  show ?case
  proof (cases oper)
    case (Enqueue x)
    show ?thesis
    proof (cases "isfull q")
      case True
      with Enqueue Cons show ?thesis by simp
    next
      case False
      obtain q1 i1 o1 where r: "run (enq q x) ops = (q1, i1, o1)"
        by (cases "run (enq q x) ops")
      from Cons.IH [OF inv_enq [OF Cons.prems(1) False] r]
      have "qinv q1" "content q @ x # i1 = o1 @ content q1"
        using False Cons.prems(1) by (simp_all add: content_enq)
      with r False Enqueue Cons.prems(2) show ?thesis by auto
    qed
  next
    case Dequeue
    show ?thesis
    proof (cases "isempty q")
      case True
      with Dequeue Cons show ?thesis by simp
    next
      case False
      from False Cons.prems(1) have "content q = front q # content (deq q)"
        by (metis content_deq empty_iff front_content list.collapse)
      moreover obtain q1 i1 o1 where r: "run (deq q) ops = (q1, i1, o1)"
        by (cases "run (deq q) ops")
      moreover note Cons.IH [OF inv_deq [OF Cons.prems(1) False] r]
      ultimately show ?thesis using False Dequeue Cons.prems(2) by auto
    qed
  qed
qed

lemma run_accepts_until_full:
  assumes "qinv q" and "length (content q) + n \<le> capacity q"
    and cap: "\<And>q x. qinv q \<Longrightarrow> \<not> isfull q \<Longrightarrow> capacity (enq q x) = capacity q"
    and "length xs = n"
  shows "\<exists>q'. run q (map Enqueue xs) = (q', xs, []) \<and> content q' = content q @ xs"
  using assms(1,2,4)
proof (induction xs arbitrary: q n)
  case Nil
  then show ?case by simp
next
  case (Cons x xs)
  then have nf: "\<not> isfull q" by (auto simp: full_iff)
  with Cons.prems have "length (content (enq q x)) + length xs \<le> capacity (enq q x)"
    by (auto simp: content_enq cap)
  from Cons.IH [OF inv_enq [OF Cons.prems(1) nf] this refl] nf Cons.prems(1) show ?case
    by (auto simp: content_enq)
qed

end

section \<open>The ring of the driver\<close>

text \<open>
  A queue entry is a frame header and a pointer to a buffer descriptor: the descriptors
  are numbered and \<open>None\<close> is the null pointer.
\<close>

record adi_mac_FrameStruct_t =
  fs_header :: u16
  fs_pBufDesc :: "nat option"

record adi_mac_Queue_t =
  q_pEntries :: "adi_mac_FrameStruct_t list"
  q_numEntries :: nat
  q_head :: nat
  q_tail :: nat

definition TX_QUEUE_NUM_ENTRIES_RAW :: nat where "TX_QUEUE_NUM_ENTRIES_RAW = 5"

definition RX_QUEUE_NUM_ENTRIES_RAW :: nat where "RX_QUEUE_NUM_ENTRIES_RAW = 9"

definition PSEUDO_MODULO :: "nat \<Rightarrow> nat \<Rightarrow> nat" where
  "PSEUDO_MODULO n d = (if n < d then n else n - d)"

definition queueInit :: "nat \<Rightarrow> adi_mac_Queue_t" where
  "queueInit numEntries =
     \<lparr>q_pEntries = replicate numEntries \<lparr>fs_header = 0, fs_pBufDesc = None\<rparr>,
      q_numEntries = numEntries, q_head = 0, q_tail = 0\<rparr>"

definition queueCount :: "adi_mac_Queue_t \<Rightarrow> nat" where
  "queueCount q = PSEUDO_MODULO (q_head q + q_numEntries q - q_tail q) (q_numEntries q)"

definition queueAvailable :: "adi_mac_Queue_t \<Rightarrow> nat" where
  "queueAvailable q = (q_numEntries q - 1) - queueCount q"

definition queueIsFull :: "adi_mac_Queue_t \<Rightarrow> bool" where
  "queueIsFull q \<longleftrightarrow> q_numEntries q - 1 = queueCount q"

definition queueIsEmpty :: "adi_mac_Queue_t \<Rightarrow> bool" where
  "queueIsEmpty q \<longleftrightarrow> q_head q = q_tail q"

definition queueAdd :: "adi_mac_Queue_t \<Rightarrow> adi_mac_Queue_t" where
  "queueAdd q = q\<lparr>q_head := PSEUDO_MODULO (q_head q + 1) (q_numEntries q)\<rparr>"

definition queueRemove :: "adi_mac_Queue_t \<Rightarrow> adi_mac_Queue_t" where
  "queueRemove q = q\<lparr>q_tail := PSEUDO_MODULO (q_tail q + 1) (q_numEntries q)\<rparr>"

text \<open>Filling the slot at the head and advancing it, as the submit routines do.\<close>

definition queuePut :: "adi_mac_Queue_t \<Rightarrow> adi_mac_FrameStruct_t \<Rightarrow> adi_mac_Queue_t" where
  "queuePut q e = queueAdd (q\<lparr>q_pEntries := (q_pEntries q)[q_head q := e]\<rparr>)"

text \<open>The slot the tail points to.\<close>

definition queueFront :: "adi_mac_Queue_t \<Rightarrow> adi_mac_FrameStruct_t" where
  "queueFront q = q_pEntries q ! q_tail q"

section \<open>The ring as a list\<close>

definition queue_inv :: "adi_mac_Queue_t \<Rightarrow> bool" where
  "queue_inv q \<longleftrightarrow> 0 < q_numEntries q \<and> length (q_pEntries q) = q_numEntries q
      \<and> q_head q < q_numEntries q \<and> q_tail q < q_numEntries q"

definition queue_slot :: "adi_mac_Queue_t \<Rightarrow> nat \<Rightarrow> nat" where
  "queue_slot q i = (q_tail q + i) mod q_numEntries q"

definition queue_list :: "adi_mac_Queue_t \<Rightarrow> adi_mac_FrameStruct_t list" where
  "queue_list q = map (\<lambda>i. q_pEntries q ! queue_slot q i) [0..<queueCount q]"

definition queue_capacity :: "adi_mac_Queue_t \<Rightarrow> nat" where
  "queue_capacity q = q_numEntries q - 1"

lemma PSEUDO_MODULO_mod: "n < 2 * d \<Longrightarrow> PSEUDO_MODULO n d = n mod d"
  by (auto simp: PSEUDO_MODULO_def mod_if)

lemma queueCount_mod:
  assumes "queue_inv q"
  shows "queueCount q = (q_head q + q_numEntries q - q_tail q) mod q_numEntries q"
  using assms unfolding queueCount_def queue_inv_def by (intro PSEUDO_MODULO_mod) linarith

lemma queueCount_less: "queue_inv q \<Longrightarrow> queueCount q < q_numEntries q"
  by (simp add: queueCount_mod queue_inv_def)

lemma queue_slot_count:
  assumes "queue_inv q"
  shows "queue_slot q (queueCount q) = q_head q"
proof -
  have "(q_tail q + (q_head q + q_numEntries q - q_tail q)) mod q_numEntries q = q_head q"
    using assms by (auto simp: queue_inv_def)
  then show ?thesis
    using assms by (simp add: queue_slot_def queueCount_mod mod_add_right_eq)
qed

lemma queue_slot_inject:
  assumes "queue_inv q" "i < q_numEntries q" "j < q_numEntries q" "queue_slot q i = queue_slot q j"
  shows "i = j"
proof -
  have *: "i \<le> j \<Longrightarrow> queue_slot q i = queue_slot q j \<Longrightarrow> j < q_numEntries q \<Longrightarrow> i = j" for i j
    unfolding queue_slot_def
    by (metis add_diff_cancel_left add_le_cancel_left diff_is_0_eq' dvd_imp_le le_antisym
        less_imp_diff_less linorder_not_less mod_eq_dvd_iff_nat zero_less_diff)
  show ?thesis using assms * [of i j] * [of j i] by (cases "i \<le> j") auto
qed

lemma queue_slot_less: "queue_inv q \<Longrightarrow> queue_slot q i < q_numEntries q"
  by (simp add: queue_slot_def queue_inv_def)

lemma queueCount_queuePut:
  assumes "queue_inv q" "\<not> queueIsFull q"
  shows "queueCount (queuePut q e) = Suc (queueCount q)"
  using assms
  unfolding queueIsFull_def queueCount_def queuePut_def queueAdd_def queue_inv_def PSEUDO_MODULO_def
  by (auto split: if_splits)

lemma queueCount_queueRemove:
  assumes "queue_inv q" "\<not> queueIsEmpty q"
  shows "Suc (queueCount (queueRemove q)) = queueCount q"
  using assms
  unfolding queueIsEmpty_def queueCount_def queueRemove_def queue_inv_def PSEUDO_MODULO_def
  by (auto split: if_splits)

lemma queueCount_zero: "queue_inv q \<Longrightarrow> queueCount q = 0 \<longleftrightarrow> queueIsEmpty q"
  unfolding queueIsEmpty_def queueCount_def queue_inv_def PSEUDO_MODULO_def by auto

lemma queue_inv_queuePut: "queue_inv q \<Longrightarrow> queue_inv (queuePut q e)"
  by (auto simp: queue_inv_def queuePut_def queueAdd_def PSEUDO_MODULO_def)

lemma queue_inv_queueRemove: "queue_inv q \<Longrightarrow> queue_inv (queueRemove q)"
  by (auto simp: queue_inv_def queueRemove_def PSEUDO_MODULO_def)

lemma queue_inv_queueInit: "0 < n \<Longrightarrow> queue_inv (queueInit n)"
  by (simp add: queue_inv_def queueInit_def)

lemma queue_slot_Suc:
  "queue_inv q \<Longrightarrow> queue_slot (queueRemove q) i = queue_slot q (Suc i)"
  by (simp add: queue_slot_def queueRemove_def queue_inv_def PSEUDO_MODULO_mod mod_simps)

lemma queue_list_queuePut:
  assumes "queue_inv q" "\<not> queueIsFull q"
  shows "queue_list (queuePut q e) = queue_list q @ [e]"
proof -
  have slot: "queue_slot (queuePut q e) i = queue_slot q i" for i
    by (simp add: queue_slot_def queuePut_def queueAdd_def)
  have entry: "q_pEntries (queuePut q e) = (q_pEntries q)[q_head q := e]"
    by (simp add: queuePut_def queueAdd_def)
  have old: "q_head q \<noteq> queue_slot q i" if "i < queueCount q" for i
    using queue_slot_inject [OF assms(1), of i "queueCount q"] queueCount_less [OF assms(1)]
      queue_slot_count [OF assms(1)] that by auto
  show ?thesis
    using assms old queue_slot_count [OF assms(1)]
    by (auto simp: queue_list_def slot entry queueCount_queuePut queue_inv_def)
qed

lemma queue_list_queueRemove:
  assumes "queue_inv q" "\<not> queueIsEmpty q"
  shows "queue_list q = queueFront q # queue_list (queueRemove q)"
proof -
  have "queueCount q = Suc (queueCount (queueRemove q))"
    using queueCount_queueRemove [OF assms] by simp
  then have "[0..<queueCount q] = 0 # map Suc [0..<queueCount (queueRemove q)]"
    by (simp add: map_Suc_upt upt_conv_Cons)
  moreover have "queue_slot q 0 = q_tail q"
    using assms(1) by (simp add: queue_slot_def queue_inv_def)
  moreover have "q_pEntries (queueRemove q) = q_pEntries q"
    by (simp add: queueRemove_def)
  ultimately show ?thesis
    using assms(1) by (simp add: queue_list_def queueFront_def queue_slot_Suc comp_def)
qed

interpretation ring: fifo queuePut queueRemove queueIsFull queueIsEmpty queueFront
    queue_list queue_capacity queue_inv
proof unfold_locales
  fix q assume q: "queue_inv q"
  show "queueIsEmpty q \<longleftrightarrow> queue_list q = []"
    using queueCount_zero [OF q] by (simp add: queue_list_def)
  show "queueIsFull q \<longleftrightarrow> length (queue_list q) = queue_capacity q"
    by (auto simp: queue_list_def queueIsFull_def queue_capacity_def)
  show "length (queue_list q) \<le> queue_capacity q"
    using queueCount_less [OF q] by (simp add: queue_list_def queue_capacity_def)
next
  fix q assume "queue_inv q" "\<not> queueIsEmpty q"
  then show "queue_list (queueRemove q) = tl (queue_list q)" and "queueFront q = hd (queue_list q)"
    by (simp_all add: queue_list_queueRemove)
qed (simp_all add: queue_inv_queuePut queue_inv_queueRemove queue_list_queuePut)

lemma queueIsEmpty_queueInit: "queueIsEmpty (queueInit n)"
  by (simp add: queueIsEmpty_def queueInit_def)

lemma queue_list_queueInit: "0 < n \<Longrightarrow> queue_list (queueInit n) = []"
  using ring.empty_iff [OF queue_inv_queueInit] queueIsEmpty_queueInit by blast

lemma queueAvailable_list:
  assumes "queue_inv q"
  shows "queueAvailable q = queue_capacity q - length (queue_list q)"
  by (simp add: queueAvailable_def queue_capacity_def queue_list_def)

section \<open>Properties\<close>

text \<open>The history of a ring of the driver, with \<open>queuePut\<close> guarded by \<open>queueIsFull\<close>.\<close>

definition ring_run :: "adi_mac_Queue_t \<Rightarrow> adi_mac_FrameStruct_t fifo_op list \<Rightarrow>
    adi_mac_Queue_t \<times> adi_mac_FrameStruct_t list \<times> adi_mac_FrameStruct_t list" where
  "ring_run = fifo_run queuePut queueRemove queueIsFull queueIsEmpty queueFront"

text \<open>
  C9: whatever sequence of submissions and completions a ring of the driver goes through
  (a submission to a full ring is refused, a completion of an empty one does not happen),
  the frames come out in the order they were accepted, none lost, duplicated or reordered
  by the wrap of the indices, and the ring never holds more than \<open>numEntries - 1\<close>.
\<close>

theorem ring_is_fifo:
  assumes "0 < n" and "ring_run (queueInit n) ops = (q, accepted, taken)"
  shows "accepted = taken @ queue_list q \<and> length (queue_list q) \<le> n - 1 \<and>
     queueIsFull q = (length (queue_list q) = n - 1)"
proof -
  note init = queue_inv_queueInit [OF assms(1)]
  have run: "ring.run (queueInit n) ops = (q, accepted, taken)"
    using assms(2) by (simp only: ring_run_def)
  note f = ring.run_fifo [OF init run]
  have cap: "queue_capacity (fst (ring.run q0 ops)) = queue_capacity q0" for q0
    by (induction queuePut queueRemove queueIsFull queueIsEmpty queueFront q0 ops rule: fifo_run.induct)
      (auto simp: queue_capacity_def queuePut_def queueAdd_def queueRemove_def Let_def split: prod.splits)
  have "queue_capacity q = n - 1"
    using cap [of "queueInit n"] run by (simp add: queue_capacity_def queueInit_def)
  with f ring.content_bound [of q] ring.full_iff [of q] queue_list_queueInit [OF assms(1)]
  show ?thesis by simp
qed

theorem ring_is_fifo_witness:
  "\<exists>q taken. ring_run (queueInit 3)
     [Enqueue \<lparr>fs_header = 1, fs_pBufDesc = Some 7\<rparr>, Enqueue \<lparr>fs_header = 2, fs_pBufDesc = Some 8\<rparr>,
      Enqueue \<lparr>fs_header = 3, fs_pBufDesc = Some 9\<rparr>, Dequeue, Enqueue \<lparr>fs_header = 4, fs_pBufDesc = Some 9\<rparr>]
    = (q, taken @ queue_list q, taken) \<and> length (queue_list q) \<le> 2 \<and> taken \<noteq> []"
proof -
  let ?ops = "[Enqueue \<lparr>fs_header = 1, fs_pBufDesc = Some 7\<rparr>, Enqueue \<lparr>fs_header = 2, fs_pBufDesc = Some 8\<rparr>,
      Enqueue \<lparr>fs_header = 3, fs_pBufDesc = Some 9\<rparr>, Dequeue, Enqueue \<lparr>fs_header = 4, fs_pBufDesc = Some 9\<rparr>]
    :: adi_mac_FrameStruct_t fifo_op list"
  obtain q i t where r: "ring_run (queueInit 3) ?ops = (q, i, t)" by (cases "ring_run (queueInit 3) ?ops")
  have "snd (snd (ring_run (queueInit 3) ?ops)) \<noteq> []" by code_simp
  with r have "t \<noteq> []" by simp
  with ring_is_fifo [OF _ r] r show ?thesis by auto
qed

end
