(* ===== verification/Oa_Codec.thy ===== *)
theory Oa_Codec
  imports Bm_Prelude
begin

text \<open>
  The bit layouts of the OPEN Alliance serial protocol as the driver uses them
  (\<open>adi_spi_oa.h\<close>, \<open>adi_spi_oa.c\<close>): the parity of \<open>MAC_CalculateParity\<close>, the header
  of a transmit chunk, the footer of a receive chunk, the control command header and the
  protected control data.  A bit-field of width 1 is a \<open>bool\<close>, a wider one a word of
  its width, so that an assignment truncates as it does in C.
\<close>

section \<open>Parity\<close>

fun parity_fold :: "u8 list \<Rightarrow> u8 \<Rightarrow> u8" where
  "parity_fold [] parity = parity"
| "parity_fold (b # bs) parity = parity_fold bs (parity XOR b)"

fun parity_bits :: "nat \<Rightarrow> u8 \<Rightarrow> u8 \<Rightarrow> u8" where
  "parity_bits 0 parity prt = prt"
| "parity_bits (Suc n) parity prt =
     parity_bits n (drop_bit 1 parity) (prt XOR (parity AND 1))"

definition MAC_CalculateParity :: "u8 list \<Rightarrow> u8" where
  "MAC_CalculateParity p = (parity_bits 8 (parity_fold p 0) 0 AND 1)"

text \<open>The reference: the number of one bits.\<close>

primrec bits_below :: "nat \<Rightarrow> 'a::len word \<Rightarrow> nat" where
  "bits_below 0 w = 0"
| "bits_below (Suc n) w = of_bool (bit w n) + bits_below n w"

definition popcount :: "'a::len word \<Rightarrow> nat" where
  "popcount w = bits_below LENGTH('a) w"

definition popcounts :: "u8 list \<Rightarrow> nat" where
  "popcounts bs = sum_list (map popcount bs)"

lemma bits_below_Suc_shift:
  "bits_below (Suc n) w = of_bool (bit w 0) + bits_below n (drop_bit 1 w)"
proof (induction n)
  case (Suc n)
  have "bit (drop_bit 1 w) n = bit w (Suc n)" by (simp add: bit_drop_bit_eq)
  then show ?case using Suc by simp
qed simp

lemma parity_bits_odd:
  "bit (parity_bits n w prt) 0 \<longleftrightarrow> bit prt 0 \<noteq> odd (bits_below n w)"
proof (induction n arbitrary: w prt)
  case (Suc n)
  then show ?case
    by (simp only: parity_bits.simps bits_below_Suc_shift) (simp add: bit_simps, blast)
qed simp

lemma odd_bits_below_XOR:
  "odd (bits_below n (v XOR w)) \<longleftrightarrow> odd (bits_below n v) \<noteq> odd (bits_below n w)"
  by (induction n) (auto simp: bit_xor_iff)

lemma bits_below_add:
  "bits_below (m + n) w = bits_below m w + bits_below n (drop_bit m w)"
  by (induction n) (simp_all add: bit_drop_bit_eq)

lemma bits_below_ucast:
  "n \<le> LENGTH('b) \<Longrightarrow> bits_below n (ucast w :: 'b::len word) = bits_below n w"
  by (induction n) (simp_all add: bit_ucast_iff)

lemma odd_popcount_fold:
  "odd (popcount (parity_fold bs acc)) \<longleftrightarrow> odd (popcount acc) \<noteq> odd (popcounts bs)"
proof (induction bs arbitrary: acc)
  case (Cons b bs)
  then have "odd (popcount (parity_fold bs (acc XOR b))) \<longleftrightarrow>
      odd (popcount (acc XOR b)) \<noteq> odd (popcounts bs)" .
  also have "odd (popcount (acc XOR b)) \<longleftrightarrow> odd (popcount acc) \<noteq> odd (popcount b)"
    by (simp only: popcount_def odd_bits_below_XOR)
  finally show ?case by (simp add: popcounts_def) blast
qed (simp add: popcounts_def)

lemma bits_below_0_word [simp]: "bits_below n 0 = 0"
  by (induction n) auto

lemma word_AND_1: "w AND 1 = of_bool (bit w 0)" for w :: "'a::len word"
  by (simp add: and_one_eq mod_2_eq_odd bit_0)

lemma MAC_CalculateParity_odd:
  "MAC_CalculateParity p = of_bool (odd (popcounts p))"
proof -
  have "popcount (0 :: u8) = 0" by (simp add: popcount_def bits_below_0_word)
  moreover have "bits_below 8 w = popcount w" for w :: u8
    by (simp add: popcount_def)
  ultimately show ?thesis
    by (simp add: MAC_CalculateParity_def word_AND_1 parity_bits_odd odd_popcount_fold)
qed

lemma popcounts_le_bytes32: "popcounts (le_bytes32 w) = popcount w"
proof -
  have "bits_below 32 w = bits_below (8 + (8 + (8 + 8))) w" by simp
  also have "\<dots> = bits_below 8 w + (bits_below 8 (drop_bit 8 w)
      + (bits_below 8 (drop_bit 16 w) + bits_below 8 (drop_bit 24 w)))"
    by (simp only: bits_below_add drop_bit_drop_bit) simp
  finally show ?thesis
    by (simp add: popcounts_def le_bytes32_def popcount_def bits_below_ucast)
qed

lemma popcounts_append [simp]: "popcounts (xs @ ys) = popcounts xs + popcounts ys"
  by (simp add: popcounts_def)

lemma MAC_CalculateParity_word:
  "MAC_CalculateParity (le_bytes32 w) = of_bool (odd (popcount w))"
  by (simp add: MAC_CalculateParity_odd popcounts_le_bytes32)

lemma popcount_push_bit_1:
  "n < LENGTH('a) \<Longrightarrow> popcount (push_bit n 1 :: 'a::len word) = 1"
proof -
  have "bits_below m (push_bit n 1 :: 'a word) = of_bool (n < m)" if "m \<le> LENGTH('a)" for m
    using that by (induction m) (auto simp: bit_simps less_Suc_eq)
  then show "n < LENGTH('a) \<Longrightarrow> popcount (push_bit n 1 :: 'a::len word) = 1"
    by (simp add: popcount_def)
qed

lemma odd_popcount_flip:
  "n < LENGTH('a) \<Longrightarrow> odd (popcount (w XOR push_bit n 1)) \<longleftrightarrow> even (popcount w)"
  for w :: "'a::len word"
  using popcount_push_bit_1 [of n, where 'a = 'a]
  by (simp add: popcount_def odd_bits_below_XOR)

section \<open>Header of a transmit chunk\<close>

record adi_mac_OaTxHeader_t =
  th_P :: bool
  th_RSVD0 :: "5 word"
  th_TMSC :: "2 word"
  th_EBO :: "6 word"
  th_EV :: bool
  th_RSVD1 :: bool
  th_SWO :: "4 word"
  th_SV :: bool
  th_DV :: bool
  th_VS :: "2 word"
  th_RSVD2 :: "5 word"
  th_NORX :: bool
  th_SEQ :: bool
  th_DNC :: bool

definition th_VALUE32 :: "adi_mac_OaTxHeader_t \<Rightarrow> u32" where
  "th_VALUE32 h = (of_bool (th_P h) OR push_bit 1 (ucast (th_RSVD0 h)) OR
     push_bit 6 (ucast (th_TMSC h)) OR push_bit 8 (ucast (th_EBO h)) OR
     push_bit 14 (of_bool (th_EV h)) OR push_bit 15 (of_bool (th_RSVD1 h)) OR
     push_bit 16 (ucast (th_SWO h)) OR push_bit 20 (of_bool (th_SV h)) OR
     push_bit 21 (of_bool (th_DV h)) OR push_bit 22 (ucast (th_VS h)) OR
     push_bit 24 (ucast (th_RSVD2 h)) OR push_bit 29 (of_bool (th_NORX h)) OR
     push_bit 30 (of_bool (th_SEQ h)) OR push_bit 31 (of_bool (th_DNC h)))"

definition th_of_VALUE32 :: "u32 \<Rightarrow> adi_mac_OaTxHeader_t" where
  "th_of_VALUE32 v =
     \<lparr>th_P = bit v 0, th_RSVD0 = ucast (drop_bit 1 v), th_TMSC = ucast (drop_bit 6 v),
      th_EBO = ucast (drop_bit 8 v), th_EV = bit v 14, th_RSVD1 = bit v 15,
      th_SWO = ucast (drop_bit 16 v), th_SV = bit v 20, th_DV = bit v 21,
      th_VS = ucast (drop_bit 22 v), th_RSVD2 = ucast (drop_bit 24 v), th_NORX = bit v 29,
      th_SEQ = bit v 30, th_DNC = bit v 31\<rparr>"

lemma upt_small:
  "[0..<2] = [0, 1]" "[0..<4] = [0, 1, 2, 3]" "[0..<5] = [0, 1, 2, 3, 4]"
  "[0..<6] = [0, 1, 2, 3, 4, 5]" "[0..<7] = [0, 1, 2, 3, 4, 5, 6]"
  by code_simp+

lemmas bit_field_blast = bit_blast upt_small bit_of_bool_iff

lemma th_of_VALUE32_VALUE32 [simp]: "th_of_VALUE32 (th_VALUE32 h) = h"
proof -
  have "th_RSVD0 (th_of_VALUE32 (th_VALUE32 h)) = th_RSVD0 h"
    and "th_TMSC (th_of_VALUE32 (th_VALUE32 h)) = th_TMSC h"
    and "th_EBO (th_of_VALUE32 (th_VALUE32 h)) = th_EBO h"
    and "th_SWO (th_of_VALUE32 (th_VALUE32 h)) = th_SWO h"
    and "th_VS (th_of_VALUE32 (th_VALUE32 h)) = th_VS h"
    and "th_RSVD2 (th_of_VALUE32 (th_VALUE32 h)) = th_RSVD2 h"
    by (rule bits_eqI; simp add: th_of_VALUE32_def th_VALUE32_def bit_field_blast del: push_bit_Suc One_nat_def)+
  moreover have "th_P (th_of_VALUE32 (th_VALUE32 h)) = th_P h"
    and "th_EV (th_of_VALUE32 (th_VALUE32 h)) = th_EV h"
    and "th_RSVD1 (th_of_VALUE32 (th_VALUE32 h)) = th_RSVD1 h"
    and "th_SV (th_of_VALUE32 (th_VALUE32 h)) = th_SV h"
    and "th_DV (th_of_VALUE32 (th_VALUE32 h)) = th_DV h"
    and "th_NORX (th_of_VALUE32 (th_VALUE32 h)) = th_NORX h"
    and "th_SEQ (th_of_VALUE32 (th_VALUE32 h)) = th_SEQ h"
    and "th_DNC (th_of_VALUE32 (th_VALUE32 h)) = th_DNC h"
    by (simp_all add: th_of_VALUE32_def th_VALUE32_def bit_field_blast del: push_bit_Suc One_nat_def)
  ultimately show ?thesis by simp
qed

text \<open>
  \<open>header.P = 1; header.P = MAC_CalculateParity(...)\<close>: the parity bit is set so that the
  whole word has odd parity.
\<close>

definition th_set_P :: "adi_mac_OaTxHeader_t \<Rightarrow> adi_mac_OaTxHeader_t" where
  "th_set_P h =
     (let h1 = h\<lparr>th_P := True\<rparr>
      in h1\<lparr>th_P := (MAC_CalculateParity (le_bytes32 (th_VALUE32 h1)) = 1)\<rparr>)"

lemma popcount_add_P:
  "even (popcount (th_VALUE32 (h\<lparr>th_P := True\<rparr>))) \<longleftrightarrow>
   odd (popcount (th_VALUE32 (h\<lparr>th_P := False\<rparr>)))"
proof -
  have "th_VALUE32 (h\<lparr>th_P := True\<rparr>) = th_VALUE32 (h\<lparr>th_P := False\<rparr>) XOR push_bit 0 1"
    by (rule bits_eqI) (simp add: th_VALUE32_def bit_field_blast del: push_bit_Suc One_nat_def)
  then show ?thesis
    using odd_popcount_flip [of 0 "th_VALUE32 (h\<lparr>th_P := False\<rparr>)"] by auto
qed

lemma odd_popcount_th_set_P: "odd (popcount (th_VALUE32 (th_set_P h)))"
  using popcount_add_P [of h]
  by (cases "even (popcount (th_VALUE32 (h\<lparr>th_P := False\<rparr>)))")
    (simp_all add: th_set_P_def Let_def MAC_CalculateParity_word)

lemma th_set_P_fields [simp]:
  "th_TMSC (th_set_P h) = th_TMSC h" "th_EBO (th_set_P h) = th_EBO h"
  "th_EV (th_set_P h) = th_EV h" "th_SWO (th_set_P h) = th_SWO h"
  "th_SV (th_set_P h) = th_SV h" "th_DV (th_set_P h) = th_DV h"
  "th_VS (th_set_P h) = th_VS h" "th_NORX (th_set_P h) = th_NORX h"
  "th_DNC (th_set_P h) = th_DNC h"
  by (simp_all add: th_set_P_def Let_def)

section \<open>Footer of a receive chunk\<close>

record adi_mac_OaRxFooter_t =
  rf_P :: bool
  rf_TXC :: "5 word"
  rf_RTSP :: bool
  rf_RTSA :: bool
  rf_EBO :: "6 word"
  rf_EV :: bool
  rf_FD :: bool
  rf_SWO :: "4 word"
  rf_SV :: bool
  rf_DV :: bool
  rf_VS :: "2 word"
  rf_RCA :: "5 word"
  rf_SYNC :: bool
  rf_HDRB :: bool
  rf_EXST :: bool

definition rf_of_VALUE32 :: "u32 \<Rightarrow> adi_mac_OaRxFooter_t" where
  "rf_of_VALUE32 v =
     \<lparr>rf_P = bit v 0, rf_TXC = ucast (drop_bit 1 v), rf_RTSP = bit v 6, rf_RTSA = bit v 7,
      rf_EBO = ucast (drop_bit 8 v), rf_EV = bit v 14, rf_FD = bit v 15,
      rf_SWO = ucast (drop_bit 16 v), rf_SV = bit v 20, rf_DV = bit v 21,
      rf_VS = ucast (drop_bit 22 v), rf_RCA = ucast (drop_bit 24 v), rf_SYNC = bit v 29,
      rf_HDRB = bit v 30, rf_EXST = bit v 31\<rparr>"

definition rf_VALUE32 :: "adi_mac_OaRxFooter_t \<Rightarrow> u32" where
  "rf_VALUE32 f = (of_bool (rf_P f) OR push_bit 1 (ucast (rf_TXC f)) OR
     push_bit 6 (of_bool (rf_RTSP f)) OR push_bit 7 (of_bool (rf_RTSA f)) OR
     push_bit 8 (ucast (rf_EBO f)) OR push_bit 14 (of_bool (rf_EV f)) OR
     push_bit 15 (of_bool (rf_FD f)) OR push_bit 16 (ucast (rf_SWO f)) OR
     push_bit 20 (of_bool (rf_SV f)) OR push_bit 21 (of_bool (rf_DV f)) OR
     push_bit 22 (ucast (rf_VS f)) OR push_bit 24 (ucast (rf_RCA f)) OR
     push_bit 29 (of_bool (rf_SYNC f)) OR push_bit 30 (of_bool (rf_HDRB f)) OR
     push_bit 31 (of_bool (rf_EXST f)))"

lemma rf_of_VALUE32_VALUE32 [simp]: "rf_of_VALUE32 (rf_VALUE32 f) = f"
proof -
  have "rf_TXC (rf_of_VALUE32 (rf_VALUE32 f)) = rf_TXC f"
    and "rf_EBO (rf_of_VALUE32 (rf_VALUE32 f)) = rf_EBO f"
    and "rf_SWO (rf_of_VALUE32 (rf_VALUE32 f)) = rf_SWO f"
    and "rf_VS (rf_of_VALUE32 (rf_VALUE32 f)) = rf_VS f"
    and "rf_RCA (rf_of_VALUE32 (rf_VALUE32 f)) = rf_RCA f"
    by (rule bits_eqI;
      simp add: rf_of_VALUE32_def rf_VALUE32_def bit_field_blast del: push_bit_Suc One_nat_def)+
  moreover have "rf_P (rf_of_VALUE32 (rf_VALUE32 f)) = rf_P f"
    and "rf_RTSP (rf_of_VALUE32 (rf_VALUE32 f)) = rf_RTSP f"
    and "rf_RTSA (rf_of_VALUE32 (rf_VALUE32 f)) = rf_RTSA f"
    and "rf_EV (rf_of_VALUE32 (rf_VALUE32 f)) = rf_EV f"
    and "rf_FD (rf_of_VALUE32 (rf_VALUE32 f)) = rf_FD f"
    and "rf_SV (rf_of_VALUE32 (rf_VALUE32 f)) = rf_SV f"
    and "rf_DV (rf_of_VALUE32 (rf_VALUE32 f)) = rf_DV f"
    and "rf_SYNC (rf_of_VALUE32 (rf_VALUE32 f)) = rf_SYNC f"
    and "rf_HDRB (rf_of_VALUE32 (rf_VALUE32 f)) = rf_HDRB f"
    and "rf_EXST (rf_of_VALUE32 (rf_VALUE32 f)) = rf_EXST f"
    by (simp_all add: rf_of_VALUE32_def rf_VALUE32_def bit_field_blast
        del: push_bit_Suc One_nat_def)
  ultimately show ?thesis by simp
qed

section \<open>Control transactions\<close>

record adi_mac_OaCtrlCmdHeader_t =
  ch_P :: bool
  ch_LEN :: "7 word"
  ch_ADDR :: u16
  ch_MMS :: "4 word"
  ch_AID :: bool
  ch_WNR :: bool
  ch_HDRB :: bool
  ch_DNC :: bool

definition ch_VALUE32 :: "adi_mac_OaCtrlCmdHeader_t \<Rightarrow> u32" where
  "ch_VALUE32 h = (of_bool (ch_P h) OR push_bit 1 (ucast (ch_LEN h)) OR
     push_bit 8 (ucast (ch_ADDR h)) OR push_bit 24 (ucast (ch_MMS h)) OR
     push_bit 28 (of_bool (ch_AID h)) OR push_bit 29 (of_bool (ch_WNR h)) OR
     push_bit 30 (of_bool (ch_HDRB h)) OR push_bit 31 (of_bool (ch_DNC h)))"

definition ch_of_VALUE32 :: "u32 \<Rightarrow> adi_mac_OaCtrlCmdHeader_t" where
  "ch_of_VALUE32 v =
     \<lparr>ch_P = bit v 0, ch_LEN = ucast (drop_bit 1 v), ch_ADDR = ucast (drop_bit 8 v),
      ch_MMS = ucast (drop_bit 24 v), ch_AID = bit v 28, ch_WNR = bit v 29,
      ch_HDRB = bit v 30, ch_DNC = bit v 31\<rparr>"

lemma ch_of_VALUE32_VALUE32 [simp]: "ch_of_VALUE32 (ch_VALUE32 h) = h"
proof -
  have "ch_LEN (ch_of_VALUE32 (ch_VALUE32 h)) = ch_LEN h"
    and "ch_ADDR (ch_of_VALUE32 (ch_VALUE32 h)) = ch_ADDR h"
    and "ch_MMS (ch_of_VALUE32 (ch_VALUE32 h)) = ch_MMS h"
    by (rule bits_eqI;
      simp add: ch_of_VALUE32_def ch_VALUE32_def bit_field_blast del: push_bit_Suc One_nat_def)+
  moreover have "ch_P (ch_of_VALUE32 (ch_VALUE32 h)) = ch_P h"
    and "ch_AID (ch_of_VALUE32 (ch_VALUE32 h)) = ch_AID h"
    and "ch_WNR (ch_of_VALUE32 (ch_VALUE32 h)) = ch_WNR h"
    and "ch_HDRB (ch_of_VALUE32 (ch_VALUE32 h)) = ch_HDRB h"
    and "ch_DNC (ch_of_VALUE32 (ch_VALUE32 h)) = ch_DNC h"
    by (simp_all add: ch_of_VALUE32_def ch_VALUE32_def bit_field_blast
        del: push_bit_Suc One_nat_def)
  ultimately show ?thesis by simp
qed

definition ch_set_P :: "adi_mac_OaCtrlCmdHeader_t \<Rightarrow> adi_mac_OaCtrlCmdHeader_t" where
  "ch_set_P h =
     (let h1 = h\<lparr>ch_P := True\<rparr>
      in h1\<lparr>ch_P := (MAC_CalculateParity (le_bytes32 (ch_VALUE32 h1)) = 1)\<rparr>)"

lemma popcount_add_ch_P:
  "even (popcount (ch_VALUE32 (h\<lparr>ch_P := True\<rparr>))) \<longleftrightarrow>
   odd (popcount (ch_VALUE32 (h\<lparr>ch_P := False\<rparr>)))"
proof -
  have "ch_VALUE32 (h\<lparr>ch_P := True\<rparr>) = ch_VALUE32 (h\<lparr>ch_P := False\<rparr>) XOR push_bit 0 1"
    by (rule bits_eqI) (simp add: ch_VALUE32_def bit_field_blast del: push_bit_Suc One_nat_def)
  then show ?thesis
    using odd_popcount_flip [of 0 "ch_VALUE32 (h\<lparr>ch_P := False\<rparr>)"] by auto
qed

lemma odd_popcount_ch_set_P: "odd (popcount (ch_VALUE32 (ch_set_P h)))"
  using popcount_add_ch_P [of h]
  by (cases "even (popcount (ch_VALUE32 (h\<lparr>ch_P := False\<rparr>)))")
    (simp_all add: ch_set_P_def Let_def MAC_CalculateParity_word)

lemma ch_set_P_fields [simp]:
  "ch_LEN (ch_set_P h) = ch_LEN h" "ch_ADDR (ch_set_P h) = ch_ADDR h"
  "ch_MMS (ch_set_P h) = ch_MMS h" "ch_AID (ch_set_P h) = ch_AID h"
  "ch_WNR (ch_set_P h) = ch_WNR h" "ch_HDRB (ch_set_P h) = ch_HDRB h"
  "ch_DNC (ch_set_P h) = ch_DNC h"
  by (simp_all add: ch_set_P_def Let_def)

definition ADI_SPI_HEADER_SIZE :: nat where "ADI_SPI_HEADER_SIZE = 4"
definition ADI_MAC_SPI_ACCESS_SIZE :: nat where "ADI_MAC_SPI_ACCESS_SIZE = 4"
definition ADI_MAC_SPI_CTRL_BUF_SIZE :: nat where "ADI_MAC_SPI_CTRL_BUF_SIZE = 256"
definition ADI_MAC_SPI_READ :: u32 where "ADI_MAC_SPI_READ = 0"
definition ADI_MAC_SPI_WRITE :: u32 where "ADI_MAC_SPI_WRITE = 1"
definition ADDR_MAC_TX_FSIZE :: u32 where "ADDR_MAC_TX_FSIZE = 0x30"

lemmas oa_sizes = ADI_SPI_HEADER_SIZE_def ADI_MAC_SPI_ACCESS_SIZE_def ADI_MAC_SPI_CTRL_BUF_SIZE_def

text \<open>The four bytes that \<open>oaCtrlCmdHeader\<close> stores at its destination.\<close>

definition ctrl_header :: "u32 \<Rightarrow> u32 \<Rightarrow> nat \<Rightarrow> adi_mac_OaCtrlCmdHeader_t" where
  "ctrl_header wnr addr cnt =
     ch_set_P \<lparr>ch_P = False, ch_LEN = of_nat (sub32 cnt 1), ch_ADDR = ucast addr,
       ch_MMS = (if ADDR_MAC_TX_FSIZE \<le> addr then 1 else 0),
       ch_AID = False, ch_WNR = bit wnr 0, ch_HDRB = False, ch_DNC = False\<rparr>"

definition oaCtrlCmdHeader :: "u32 \<Rightarrow> u32 \<Rightarrow> nat \<Rightarrow> u8 list" where
  "oaCtrlCmdHeader wnr addr cnt = le_bytes32 (HTON32 (ch_VALUE32 (ctrl_header wnr addr cnt)))"

text \<open>
  With \<open>CONFIG_SPI_PROT_EN\<close> every register value is followed by its complement.
\<close>

fun oaCtrlCmdWriteData :: "u32 list \<Rightarrow> u8 list" where
  "oaCtrlCmdWriteData [] = []"
| "oaCtrlCmdWriteData (v # vs) =
     le_bytes32 (HTON32 v) @ le_bytes32 (HTON32 (NOT v)) @ oaCtrlCmdWriteData vs"

text \<open>
  The status and the words stored through \<open>dst\<close>: on a protection error the words before
  the failing one have been stored already.  \<open>None\<close> is a read outside \<open>src\<close>.
\<close>

fun oaCtrlCmdReadData :: "u8 list \<Rightarrow> nat \<Rightarrow> (adi_eth_Result_e \<times> u32 list) option" where
  "oaCtrlCmdReadData src 0 = Some (ADI_ETH_SUCCESS, [])"
| "oaCtrlCmdReadData src (Suc cnt) = do {
     b0 \<leftarrow> mem_read src 0 4;
     b1 \<leftarrow> mem_read src 4 4;
     if le_word32 b0 \<noteq> NOT (le_word32 b1) then Some (ADI_ETH_PROTECTION_ERROR, [])
     else do {
       (result, dst) \<leftarrow> oaCtrlCmdReadData (drop 8 src) cnt;
       Some (result, HTON32 (le_word32 b0) # dst)
     }
   }"

text \<open>
  The status, the transaction buffer and \<open>*pLen\<close> after the call; \<open>pRegData\<close> is the list
  of words the pointer addresses.
\<close>

definition oaCtrlSetup ::
  "u8 list \<Rightarrow> u32 \<Rightarrow> u32 \<Rightarrow> u32 list \<Rightarrow> nat \<Rightarrow> (adi_eth_Result_e \<times> u8 list \<times> nat) option" where
  "oaCtrlSetup pBuf wnr regAddr pRegData len =
     (let byteLen = (2 * ADI_SPI_HEADER_SIZE + ADI_MAC_SPI_ACCESS_SIZE * len
                      + ADI_MAC_SPI_ACCESS_SIZE * len) mod 2 ^ 32
      in if ADI_MAC_SPI_CTRL_BUF_SIZE - 2 < byteLen then Some (ADI_ETH_INVALID_PARAM, pBuf, len)
         else do {
           pBuf \<leftarrow> mem_write pBuf 0 (oaCtrlCmdHeader wnr regAddr len);
           pBuf \<leftarrow> (if wnr = ADI_MAC_SPI_WRITE
                    then if len \<le> length pRegData
                         then mem_write pBuf ADI_SPI_HEADER_SIZE (oaCtrlCmdWriteData (take len pRegData))
                         else None
                    else Some pBuf);
           Some (ADI_ETH_SUCCESS, pBuf, byteLen)
         })"

subsection \<open>Lemmas\<close>

lemma length_oaCtrlCmdHeader [simp]: "length (oaCtrlCmdHeader wnr addr cnt) = 4"
  by (simp add: oaCtrlCmdHeader_def)

lemma length_oaCtrlCmdWriteData [simp]: "length (oaCtrlCmdWriteData vs) = 8 * length vs"
  by (induction vs) simp_all

lemma HTON32_NOT: "HTON32 (NOT w) = NOT (HTON32 w)"
  unfolding HTON32_def by (rule bits_eqI) (simp add: bit_blast)

lemma oaCtrlCmdReadData_WriteData:
  "oaCtrlCmdReadData (oaCtrlCmdWriteData vs @ rest) (length vs) = Some (ADI_ETH_SUCCESS, vs)"
proof (induction vs)
  case (Cons v vs)
  then show ?case by (simp add: mem_read_def HTON32_NOT)
qed simp

text \<open>The data is accepted exactly when every word is followed by its complement.\<close>

definition protected_at :: "u8 list \<Rightarrow> nat \<Rightarrow> bool" where
  "protected_at src i \<longleftrightarrow>
     le_word32 (take 4 (drop (8 * i) src)) = NOT (le_word32 (take 4 (drop (8 * i + 4) src)))"

lemma protected_at_Suc: "protected_at src (Suc i) = protected_at (drop 8 src) i"
  by (simp add: protected_at_def add.commute)

lemma oaCtrlCmdReadData_Some:
  assumes "8 * cnt \<le> length src"
  shows "\<exists>result dst. oaCtrlCmdReadData src cnt = Some (result, dst) \<and>
    (result = ADI_ETH_SUCCESS \<longleftrightarrow> (\<forall>i < cnt. protected_at src i)) \<and>
    (result \<noteq> ADI_ETH_SUCCESS \<longrightarrow> result = ADI_ETH_PROTECTION_ERROR) \<and>
    (result = ADI_ETH_SUCCESS \<longrightarrow>
      dst = map (\<lambda>i. HTON32 (le_word32 (take 4 (drop (8 * i) src)))) [0..<cnt])"
  using assms
proof (induction cnt arbitrary: src)
  case (Suc cnt)
  then have "8 * cnt \<le> length (drop 8 src)" by simp
  from Suc.IH [OF this] obtain result dst where
    IH: "oaCtrlCmdReadData (drop 8 src) cnt = Some (result, dst)"
      "result = ADI_ETH_SUCCESS \<longleftrightarrow> (\<forall>i < cnt. protected_at (drop 8 src) i)"
      "result \<noteq> ADI_ETH_SUCCESS \<longrightarrow> result = ADI_ETH_PROTECTION_ERROR"
      "result = ADI_ETH_SUCCESS \<longrightarrow>
        dst = map (\<lambda>i. HTON32 (le_word32 (take 4 (drop (8 * i) (drop 8 src))))) [0..<cnt]"
    by blast
  have reads: "mem_read src 0 4 = Some (take 4 src)" "mem_read src 4 4 = Some (take 4 (drop 4 src))"
    using Suc.prems by simp_all
  have upt: "[0..<Suc cnt] = 0 # map Suc [0..<cnt]"
    by (simp add: map_Suc_upt upt_conv_Cons del: upt_Suc)
  have all: "(\<forall>i < Suc cnt. protected_at src i) \<longleftrightarrow>
      protected_at src 0 \<and> (\<forall>i < cnt. protected_at (drop 8 src) i)"
    by (simp add: All_less_Suc2 protected_at_Suc)
  show ?case
  proof (cases "protected_at src 0")
    case True
    then have "oaCtrlCmdReadData src (Suc cnt) =
        Some (result, HTON32 (le_word32 (take 4 src)) # dst)"
      by (simp add: reads IH(1) protected_at_def del: mem_read_Some)
    moreover have "map (\<lambda>i. HTON32 (le_word32 (take 4 (drop (8 * i) src)))) [0..<Suc cnt] =
        HTON32 (le_word32 (take 4 src)) #
        map (\<lambda>i. HTON32 (le_word32 (take 4 (drop (8 * i) (drop 8 src))))) [0..<cnt]"
      unfolding upt by (simp add: add.commute)
    ultimately show ?thesis using IH(2-4) True unfolding all by simp
  next
    case False
    then have "oaCtrlCmdReadData src (Suc cnt) = Some (ADI_ETH_PROTECTION_ERROR, [])"
      by (simp add: reads protected_at_def del: mem_read_Some)
    with False show ?thesis unfolding all by simp
  qed
qed simp

lemma oaCtrlSetup_too_long:
  assumes "31 \<le> len" and "len < 2 ^ 28"
  shows "oaCtrlSetup pBuf wnr regAddr pRegData len = Some (ADI_ETH_INVALID_PARAM, pBuf, len)"
  using assms by (simp add: oaCtrlSetup_def oa_sizes)

lemma oaCtrlSetup_read:
  assumes "length pBuf = 256" and "len \<le> 30"
  shows "\<exists>pBuf'. oaCtrlSetup pBuf ADI_MAC_SPI_READ regAddr pRegData len =
      Some (ADI_ETH_SUCCESS, pBuf', 8 + 8 * len) \<and> length pBuf' = 256 \<and>
      take 4 pBuf' = oaCtrlCmdHeader ADI_MAC_SPI_READ regAddr len"
  using assms
  by (simp add: oaCtrlSetup_def oa_sizes ADI_MAC_SPI_READ_def ADI_MAC_SPI_WRITE_def mem_write_ok)

lemma oaCtrlSetup_write:
  assumes "length pBuf = 256" and "len \<le> 30" and "len \<le> length pRegData"
  shows "\<exists>pBuf'. oaCtrlSetup pBuf ADI_MAC_SPI_WRITE regAddr pRegData len =
      Some (ADI_ETH_SUCCESS, pBuf', 8 + 8 * len) \<and> length pBuf' = 256 \<and>
      take (4 + 8 * len) pBuf' =
        oaCtrlCmdHeader ADI_MAC_SPI_WRITE regAddr len @ oaCtrlCmdWriteData (take len pRegData)"
  using assms
  by (simp add: oaCtrlSetup_def oa_sizes mem_write_ok min_absorb2)

text \<open>The header as the MAC decodes it.\<close>

definition ctrl_decode :: "u8 list \<Rightarrow> adi_mac_OaCtrlCmdHeader_t" where
  "ctrl_decode bs = ch_of_VALUE32 (HTON32 (le_word32 bs))"

lemma ctrl_decode_oaCtrlCmdHeader:
  "ctrl_decode (oaCtrlCmdHeader wnr addr cnt @ bs) = ctrl_header wnr addr cnt"
  by (simp add: ctrl_decode_def oaCtrlCmdHeader_def)

lemma ctrl_header_fields:
  assumes "0 < cnt" "cnt \<le> 128"
  shows "unat (ch_LEN (ctrl_header wnr addr cnt)) + 1 = cnt"
proof -
  obtain n where "cnt = Suc n" "n < 128" using assms by (cases cnt) auto
  then have "sub32 cnt 1 = n" by (subst sub32_le) auto
  then show ?thesis
    using \<open>cnt = Suc n\<close> \<open>n < 128\<close> by (simp add: ctrl_header_def unat_of_nat)
qed

section \<open>Properties\<close>

text \<open>
  The fold-and-shift loops of \<open>MAC_CalculateParity\<close> compute the parity of the
  number of one bits of the buffer, for a buffer of any length.
\<close>

theorem parity_is_popcount_parity:
  "MAC_CalculateParity p = of_bool (odd (popcounts p))"
  by (rule MAC_CalculateParity_odd)

text \<open>
  A receive footer with correct (odd) parity passes the check of the state machine,
  and no single flipped bit of it does.
\<close>

theorem footer_single_bit_error_detected:
  assumes "odd (popcount v)" and "n < 32"
  shows "MAC_CalculateParity (le_bytes32 v) = 1 \<and>
     MAC_CalculateParity (le_bytes32 (v XOR push_bit n 1)) = 0"
  using assms odd_popcount_flip [of n v] by (simp only: MAC_CalculateParity_word) simp

theorem footer_single_bit_error_detected_witness:
  "MAC_CalculateParity (le_bytes32 0x20000000) = 1 \<and>
     MAC_CalculateParity (le_bytes32 (0x20000000 XOR push_bit 7 1)) = 0"
  by (rule footer_single_bit_error_detected) (code_simp, simp)

text \<open>
  The control command header that \<open>oaCtrlCmdHeader\<close> puts on the wire decodes to the
  register address, the count and the direction it was built from, selects memory map 1
  exactly from \<open>ADDR_MAC_TX_FSIZE\<close> upwards, and has odd parity.
\<close>

theorem ctrl_header_roundtrip:
  assumes "0 < cnt" and "cnt \<le> 128" and "addr < 0x10000"
  shows "let h = ctrl_decode (oaCtrlCmdHeader wnr addr cnt) in
    unat (ch_LEN h) + 1 = cnt \<and> ucast (ch_ADDR h) = addr \<and> ch_WNR h = odd wnr \<and>
    ch_MMS h = (if addr < ADDR_MAC_TX_FSIZE then 0 else 1) \<and>
    \<not> ch_DNC h \<and> odd (popcount (ch_VALUE32 h))"
proof -
  have "ctrl_decode (oaCtrlCmdHeader wnr addr cnt) = ctrl_header wnr addr cnt"
    using ctrl_decode_oaCtrlCmdHeader [of wnr addr cnt "[]"] by simp
  moreover have "ucast (ucast addr :: u16) = addr"
    using take_bit_word_less [of addr 16] assms(3)
    by (simp add: word_less_nat_alt unsigned_ucast_eq)
  moreover note ctrl_header_fields [OF assms(1,2), of wnr addr]
  moreover have "odd (popcount (ch_VALUE32 (ctrl_header wnr addr cnt)))"
    unfolding ctrl_header_def by (rule odd_popcount_ch_set_P)
  ultimately show ?thesis
    by (auto simp: Let_def ctrl_header_def bit_0)
qed

theorem ctrl_header_roundtrip_witness:
  "unat (ch_LEN (ctrl_decode (oaCtrlCmdHeader 1 0x3E 2))) + 1 = 2"
  using ctrl_header_roundtrip [of 2 "0x3E" 1] by (simp add: Let_def)

text \<open>
  C12: a write transaction that \<open>oaCtrlSetup\<close> accepts carries the register values with
  their protection words: read back through \<open>oaCtrlCmdReadData\<close> they are the values
  written, and the transaction fits the control buffer.
\<close>

theorem protected_write_roundtrip:
  assumes "length pBuf = 256" and "len \<le> 30" and "len \<le> length pRegData"
  shows "\<exists>pBuf' n. oaCtrlSetup pBuf ADI_MAC_SPI_WRITE regAddr pRegData len =
      Some (ADI_ETH_SUCCESS, pBuf', n) \<and> n \<le> length pBuf' \<and>
      oaCtrlCmdReadData (drop 4 pBuf') len = Some (ADI_ETH_SUCCESS, take len pRegData)"
proof -
  obtain pBuf' where b: "oaCtrlSetup pBuf ADI_MAC_SPI_WRITE regAddr pRegData len =
      Some (ADI_ETH_SUCCESS, pBuf', 8 + 8 * len)" "length pBuf' = 256"
    "take (4 + 8 * len) pBuf' =
        oaCtrlCmdHeader ADI_MAC_SPI_WRITE regAddr len @ oaCtrlCmdWriteData (take len pRegData)"
    using oaCtrlSetup_write [OF assms] by blast
  have "drop 4 pBuf' = drop 4 (take (4 + 8 * len) pBuf' @ drop (4 + 8 * len) pBuf')"
    by (simp only: append_take_drop_id)
  also have "\<dots> = oaCtrlCmdWriteData (take len pRegData) @ drop (4 + 8 * len) pBuf'"
    by (simp only: b(3)) simp
  finally have "oaCtrlCmdReadData (drop 4 pBuf') len = Some (ADI_ETH_SUCCESS, take len pRegData)"
    using oaCtrlCmdReadData_WriteData [of "take len pRegData" "drop (4 + 8 * len) pBuf'"] assms(3)
    by (simp add: min_absorb2)
  with b assms(2) show ?thesis by simp
qed

theorem protected_write_roundtrip_witness:
  "\<exists>pBuf' n. oaCtrlSetup (replicate 256 0) ADI_MAC_SPI_WRITE 0x3E [0x2488, 7] 2 =
      Some (ADI_ETH_SUCCESS, pBuf', n) \<and> n \<le> length pBuf' \<and>
      oaCtrlCmdReadData (drop 4 pBuf') 2 = Some (ADI_ETH_SUCCESS, [0x2488, 7])"
  using protected_write_roundtrip [of "replicate 256 0" 2 "[0x2488, 7]" "0x3E"] by simp

lemma protected_at_corrupt:
  assumes "protected_at src i" and "8 * i + 8 \<le> length src"
    and "8 * i \<le> k" "k < 8 * i + 8" and "m \<noteq> 0"
  shows "\<not> protected_at (src[k := src ! k XOR m]) i"
proof -
  let ?s = "src[k := src ! k XOR m]"
  have neq: "src ! k XOR m \<noteq> src ! k"
  proof
    assume "src ! k XOR m = src ! k"
    then have "src ! k XOR (src ! k XOR m) = 0" by simp
    then have "(src ! k XOR src ! k) XOR m = 0" by (simp only: xor.assoc)
    with assms(5) show False by simp
  qed
  have changed: "take 4 (drop off ?s) \<noteq> take 4 (drop off src)"
    if "off \<le> k" "k < off + 4" "off + 4 \<le> length src" for off
  proof
    assume "take 4 (drop off ?s) = take 4 (drop off src)"
    then have "take 4 (drop off ?s) ! (k - off) = take 4 (drop off src) ! (k - off)" by simp
    with that neq show False by simp
  qed
  have same: "take 4 (drop off ?s) = take 4 (drop off src)" if "k < off \<or> off + 4 \<le> k" for off
    using that by (auto simp: drop_update_swap take_update_cancel)
  have len: "length (take 4 (drop off xs)) = 4" if "off + 4 \<le> length xs" for off and xs :: "u8 list"
    using that by simp
  show ?thesis
  proof (cases "k < 8 * i + 4")
    case True
    then have "take 4 (drop (8 * i + 4) ?s) = take 4 (drop (8 * i + 4) src)"
      by (intro same) simp
    moreover have "le_word32 (take 4 (drop (8 * i) ?s)) \<noteq> le_word32 (take 4 (drop (8 * i) src))"
      using True assms(2,3) changed [of "8 * i"] by (subst le_word32_inject) auto
    ultimately show ?thesis using assms(1) by (simp add: protected_at_def)
  next
    case False
    then have "take 4 (drop (8 * i) ?s) = take 4 (drop (8 * i) src)"
      by (intro same) simp
    moreover have "le_word32 (take 4 (drop (8 * i + 4) ?s)) \<noteq>
        le_word32 (take 4 (drop (8 * i + 4) src))"
      using False assms(2,4) changed [of "8 * i + 4"] by (subst le_word32_inject) auto
    ultimately show ?thesis using assms(1) unfolding protected_at_def by auto
  qed
qed

text \<open>
  C13: \<open>oaCtrlCmdReadData\<close> accepts data exactly when every word is followed by its
  complement, and any change of any single byte of accepted data makes it fail with
  \<open>ADI_ETH_PROTECTION_ERROR\<close>.
\<close>

theorem protected_read_detects_corruption:
  assumes "8 * cnt \<le> length src" and "k < 8 * cnt" and "m \<noteq> 0"
    and "oaCtrlCmdReadData src cnt = Some (ADI_ETH_SUCCESS, dst)"
  shows "\<exists>dst'. oaCtrlCmdReadData (src[k := src ! k XOR m]) cnt =
      Some (ADI_ETH_PROTECTION_ERROR, dst')"
proof -
  let ?s = "src[k := src ! k XOR m]" and ?i = "k div 8"
  have i: "?i < cnt" using assms(2) by auto
  then have i8: "8 * ?i + 8 \<le> length src" using assms(1) by linarith
  have "\<forall>i < cnt. protected_at src i"
    using oaCtrlCmdReadData_Some [OF assms(1)] assms(4) by auto
  then have "\<not> protected_at ?s ?i"
    using i i8 assms(3) by (intro protected_at_corrupt) auto
  moreover obtain result dst' where "oaCtrlCmdReadData ?s cnt = Some (result, dst')"
      "result = ADI_ETH_SUCCESS \<longleftrightarrow> (\<forall>i < cnt. protected_at ?s i)"
      "result \<noteq> ADI_ETH_SUCCESS \<longrightarrow> result = ADI_ETH_PROTECTION_ERROR"
    using oaCtrlCmdReadData_Some [of cnt ?s] assms(1) by auto
  ultimately show ?thesis using i by auto
qed

theorem protected_read_detects_corruption_witness:
  "\<exists>dst'. oaCtrlCmdReadData ((oaCtrlCmdWriteData [0x1234, 5]) [3 := 0x35]) 2 =
      Some (ADI_ETH_PROTECTION_ERROR, dst')"
proof -
  have "oaCtrlCmdReadData (oaCtrlCmdWriteData [0x1234, 5]) 2 = Some (ADI_ETH_SUCCESS, [0x1234, 5])"
    using oaCtrlCmdReadData_WriteData [of "[0x1234, 5]" "[]"]
    by (simp add: numeral_2_eq_2 del: oaCtrlCmdReadData.simps oaCtrlCmdWriteData.simps)
  moreover have "oaCtrlCmdWriteData [0x1234, 5] ! 3 XOR 1 = 0x35" by code_simp
  ultimately show ?thesis
    using protected_read_detects_corruption [of 2 "oaCtrlCmdWriteData [0x1234, 5]" 3 1] by simp
qed

end
