(* ===== verification/Mac_Types.thy ===== *)
theory Mac_Types
  imports Mac_Queue Oa_Codec
begin

text \<open>
  The data of the MAC driver (\<open>adi_mac.h\<close>): buffer descriptors, status registers, error
  counters and the device structure \<open>adi_mac_Device_t\<close>, extended by the objects that the
  driver reaches through pointers or keeps in static variables.
\<close>

section \<open>Enumerations\<close>

datatype adi_mac_State_e =
    ADI_MAC_STATE_UNINITIALIZED | ADI_MAC_STATE_INITIALIZED | ADI_MAC_STATE_READY
  | ADI_MAC_STATE_TX_FRAME | ADI_MAC_STATE_RX_FRAME
  | ADI_MAC_STATE_CONTROL_START | ADI_MAC_STATE_CONTROL_END
  | ADI_MAC_STATE_DATA_START | ADI_MAC_STATE_DATA_END | ADI_MAC_STATE_IRQ_START
  | ADI_MAC_STATE_DATA_READ_STATUS | ADI_MAC_STATE_DATA_READ_PHY_REGISTER

datatype adi_mac_SpiState_e =
    ADI_MAC_SPI_STATE_READY | ADI_MAC_SPI_STATE_RX | ADI_MAC_SPI_STATE_RX_FRAME
  | ADI_MAC_SPI_STATE_TX | ADI_MAC_SPI_STATE_TX_FRAME

datatype adi_mac_InterruptEvt_e =
    ADI_MAC_EVT_LINK_CHANGE | ADI_MAC_EVT_TX_RDY | ADI_MAC_EVT_P1_RX_RDY | ADI_MAC_EVT_STATUS
  | ADI_MAC_EVT_DYN_TBL_UPDATE | ADI_MAC_EVT_TIMESTAMP_RDY

datatype adi_mac_RxFifoPrio_e = ADI_MAC_RX_FIFO_PRIO_LOW | ADI_MAC_RX_FIFO_PRIO_HIGH

datatype adi_mac_TsFormat_e =
    ADI_MAC_TS_FORMAT_NONE | ADI_MAC_TS_FORMAT_32B_FREE
  | ADI_MAC_TS_FORMAT_32B_1588 | ADI_MAC_TS_FORMAT_64B_1588

datatype adi_mac_OaValidFlag_e =
    ADI_MAC_OA_VALID_FLAG_NONE | ADI_MAC_OA_VALID_FLAG_START | ADI_MAC_OA_VALID_FLAG_END

section \<open>Structures\<close>

text \<open>
  A frame buffer is owned by its descriptor; \<open>bd_bufSize\<close> is the size the application
  declares, the length of \<open>bd_pBuf\<close> the size the object has.  A callback is a number.
\<close>

record adi_eth_BufDesc_t =
  bd_pBuf :: "u8 list"
  bd_bufSize :: nat
  bd_trxSize :: nat
  bd_cbFunc :: "nat option"
  bd_prio :: adi_mac_RxFifoPrio_e
  bd_port :: nat
  bd_egressCapt :: "2 word"
  bd_timestampValid :: bool
  bd_timestamp :: u32
  bd_timestampExt :: u32
  bd_refCount :: nat

record adi_mac_OaErrorStats_t =
  es_fdCount :: u32
  es_invalidEvCount :: u32
  es_invalidSvCount :: u32
  es_ftrParityErrorCount :: u32
  es_hdrParityErrorCount :: u32
  es_syncErrorCount :: u32

record adi_mac_StatusRegisters_t =
  sr_status0Masked :: u32
  sr_status1Masked :: u32
  sr_status0 :: u32
  sr_status1 :: u32
  sr_p1StatusMasked :: u32
  sr_p1Status :: u32
  sr_p2StatusMasked :: u32
  sr_p2Status :: u32

text \<open>Where \<open>pRegData\<close> points: the caller's word, \<open>mdioCmd\<close> or \<open>statusRegisters\<close>.\<close>

datatype reg_ptr = RegNull | RegCaller | RegMdioCmd | RegStatus

record adi_mac_Device_t =
  m_state :: adi_mac_State_e
  m_spiState :: adi_mac_SpiState_e
  m_spiErr :: bool
  m_cbFunc :: "adi_mac_InterruptEvt_e \<Rightarrow> nat option"
  m_cbParam :: "adi_mac_InterruptEvt_e \<Rightarrow> nat"
  m_addrFilterActive :: u16
  m_irqMask0 :: u32
  m_irqMask1 :: u32
  m_txQueue :: adi_mac_Queue_t
  m_rxQueueLp :: adi_mac_Queue_t
  m_pendingCtrl :: bool
  m_configSync :: bool
  m_fcsCheckEn :: bool
  m_timestampFormat :: adi_mac_TsFormat_e
  m_statusRegisters :: adi_mac_StatusRegisters_t
  m_phyIrqMask :: u32
  m_oaTxc :: nat
  m_oaRca :: nat
  m_oaTxCurBufByteOffset :: nat
  m_oaRxCurBufByteOffset :: nat
  m_oaTxCurBufIdx :: nat
  m_oaRxCurBufIdx :: nat
  m_oaCps :: nat
  m_oaMaxChunkCount :: nat
  m_oaTrxSize :: nat
  m_oaTimestampSplit :: bool
  m_oaTimestampParity :: u8
  m_oaValidFlag :: adi_mac_OaValidFlag_e
  m_oaErrorStats :: adi_mac_OaErrorStats_t
  m_oaRxUseBackupBuf :: bool
  m_oaRxBufChunkStart :: nat
  m_oaRxBufTrxSize :: nat
  m_oaRxBackupBuf :: "u8 list"
  m_wnr :: u32
  m_regAddr :: u32
  m_pRegData :: reg_ptr
  m_cnt :: nat
  m_ctrlTxBuf :: "u8 list"
  m_ctrlRxBuf :: "u8 list"

text \<open>
  The calls the driver makes into the application, in order: the callback of a buffer
  descriptor with the status and the descriptor as it is at the call, the update of the
  dynamic forwarding table, and the status callbacks with their parameter.
\<close>

datatype mac_event =
    EvBufDesc nat u32 nat adi_eth_BufDesc_t
  | EvDynTblUpdate nat u32 nat adi_eth_BufDesc_t
  | EvTimestampRdy nat nat "bool list"
  | EvStatus nat nat adi_mac_StatusRegisters_t
  | EvLinkChange nat nat adi_mac_StatusRegisters_t

text \<open>
  What the driver reaches besides the device structure: the buffer descriptors, the two
  static SPI buffers, the static \<open>mdioCmd\<close>, the word of the caller that \<open>pRegData\<close> points
  to, the enable bit of the interrupt line, the calls made, and the indeterminate bytes
  that the automatic array \<open>timestampBytes\<close> holds when the state machine is entered.
\<close>

record mac_state = adi_mac_Device_t +
  s_bufs :: "nat \<Rightarrow> adi_eth_BufDesc_t"
  s_spiTxBuf :: "u8 list"
  s_spiRxBuf :: "u8 list"
  s_mdioCmd :: u32
  s_regCell :: u32
  s_irqEnabled :: bool
  s_events :: "mac_event list"
  s_stackBytes :: "u8 list"

definition BUFFERSIZE :: nat where "BUFFERSIZE = 2000"
definition MIN_FRAME_SIZE :: nat where "MIN_FRAME_SIZE = 60"
definition MAX_FRAME_SIZE :: nat where "MAX_FRAME_SIZE = 1518"
definition FCS_SIZE :: nat where "FCS_SIZE = 4"
definition ADI_OA_HEADER_BAD :: u32 where "ADI_OA_HEADER_BAD = 0x40000000"
definition ADI_OA_MAX_CHUNK64_COUNT :: nat where "ADI_OA_MAX_CHUNK64_COUNT = 16"
definition ADI_OA_MAX_CHUNK_COUNT :: nat where "ADI_OA_MAX_CHUNK_COUNT = 31"
definition ADI_OA_RX_BACKUP_BUF_CHUNK_COUNT :: nat where "ADI_OA_RX_BACKUP_BUF_CHUNK_COUNT = 1"

lemmas frame_sizes = MIN_FRAME_SIZE_def MAX_FRAME_SIZE_def FCS_SIZE_def

section \<open>Accessors\<close>

definition queue_entry :: "adi_mac_Queue_t \<Rightarrow> nat \<Rightarrow> adi_mac_FrameStruct_t option" where
  "queue_entry q i = (if i < length (q_pEntries q) then Some (q_pEntries q ! i) else None)"

text \<open>The descriptor a queue slot points to; a null pointer is undefined behaviour.\<close>

definition slot_desc :: "adi_mac_Queue_t \<Rightarrow> nat \<Rightarrow> nat option" where
  "slot_desc q i = do { e \<leftarrow> queue_entry q i; fs_pBufDesc e }"

definition upd_desc ::
  "nat \<Rightarrow> (adi_eth_BufDesc_t \<Rightarrow> adi_eth_BufDesc_t) \<Rightarrow> mac_state \<Rightarrow> mac_state" where
  "upd_desc d f s = s\<lparr>s_bufs := (s_bufs s)(d := f (s_bufs s d))\<rparr>"

definition upd_stats ::
  "(adi_mac_OaErrorStats_t \<Rightarrow> adi_mac_OaErrorStats_t) \<Rightarrow> mac_state \<Rightarrow> mac_state" where
  "upd_stats f s = s\<lparr>m_oaErrorStats := f (m_oaErrorStats s)\<rparr>"

definition emit :: "mac_event \<Rightarrow> mac_state \<Rightarrow> mac_state" where
  "emit e s = s\<lparr>s_events := s_events s @ [e]\<rparr>"

definition chunkSize :: "mac_state \<Rightarrow> nat" where
  "chunkSize s = 2 ^ m_oaCps s"

lemma slot_desc_Some:
  "slot_desc q i = Some d \<longleftrightarrow> i < length (q_pEntries q) \<and> fs_pBufDesc (q_pEntries q ! i) = Some d"
  by (simp add: slot_desc_def queue_entry_def)

section \<open>The initial device\<close>

definition ADI_MAC_PHY_STATUS_INIT_VAL :: u32 where
  "ADI_MAC_PHY_STATUS_INIT_VAL = 0x7FFF7FFF"

text \<open>
  The device structure as \<open>MAC_Init\<close> leaves it before it resets the chip: the memory
  cleared and the fields assigned.  What the driver reaches outside the structure is kept.
\<close>

definition device_init ::
  "bool \<Rightarrow> (nat \<Rightarrow> adi_eth_BufDesc_t) \<Rightarrow> u8 list \<Rightarrow> u8 list \<Rightarrow> u32 \<Rightarrow> u32 \<Rightarrow> bool \<Rightarrow>
   mac_event list \<Rightarrow> u8 list \<Rightarrow> mac_state" where
  "device_init fcsCheckEn bufs spiTxBuf spiRxBuf mdioCmd regCell irqEnabled events stackBytes =
     \<lparr>m_state = ADI_MAC_STATE_INITIALIZED, m_spiState = ADI_MAC_SPI_STATE_READY,
      m_spiErr = False, m_cbFunc = (\<lambda>_. None), m_cbParam = (\<lambda>_. 0),
      m_addrFilterActive = 0, m_irqMask0 = 0, m_irqMask1 = 0,
      m_txQueue = queueInit TX_QUEUE_NUM_ENTRIES_RAW,
      m_rxQueueLp = queueInit RX_QUEUE_NUM_ENTRIES_RAW,
      m_pendingCtrl = False, m_configSync = False, m_fcsCheckEn = fcsCheckEn,
      m_timestampFormat = ADI_MAC_TS_FORMAT_NONE,
      m_statusRegisters = \<lparr>sr_status0Masked = 0, sr_status1Masked = 0, sr_status0 = 0,
        sr_status1 = 0, sr_p1StatusMasked = ADI_MAC_PHY_STATUS_INIT_VAL,
        sr_p1Status = ADI_MAC_PHY_STATUS_INIT_VAL,
        sr_p2StatusMasked = ADI_MAC_PHY_STATUS_INIT_VAL,
        sr_p2Status = ADI_MAC_PHY_STATUS_INIT_VAL\<rparr>,
      m_phyIrqMask = 0, m_oaTxc = 31, m_oaRca = 0, m_oaTxCurBufByteOffset = 0,
      m_oaRxCurBufByteOffset = 0, m_oaTxCurBufIdx = 0, m_oaRxCurBufIdx = 0, m_oaCps = 6,
      m_oaMaxChunkCount = ADI_OA_MAX_CHUNK64_COUNT, m_oaTrxSize = 0,
      m_oaTimestampSplit = False, m_oaTimestampParity = 0,
      m_oaValidFlag = ADI_MAC_OA_VALID_FLAG_NONE,
      m_oaErrorStats = \<lparr>es_fdCount = 0, es_invalidEvCount = 0, es_invalidSvCount = 0,
        es_ftrParityErrorCount = 0, es_hdrParityErrorCount = 0, es_syncErrorCount = 0\<rparr>,
      m_oaRxUseBackupBuf = False, m_oaRxBufChunkStart = 0, m_oaRxBufTrxSize = 0,
      m_oaRxBackupBuf = replicate 68 0, m_wnr = 0, m_regAddr = 0, m_pRegData = RegNull,
      m_cnt = 0, m_ctrlTxBuf = replicate 256 0, m_ctrlRxBuf = replicate 256 0,
      s_bufs = bufs, s_spiTxBuf = spiTxBuf, s_spiRxBuf = spiRxBuf, s_mdioCmd = mdioCmd,
      s_regCell = regCell, s_irqEnabled = irqEnabled, s_events = events,
      s_stackBytes = stackBytes\<rparr>"

definition macDeviceInit :: "bool \<Rightarrow> mac_state \<Rightarrow> mac_state" where
  "macDeviceInit fcsCheckEn s =
     device_init fcsCheckEn (s_bufs s) (s_spiTxBuf s) (s_spiRxBuf s) (s_mdioCmd s) (s_regCell s)
       (s_irqEnabled s) (s_events s) (s_stackBytes s)"

text \<open>
  Concrete states for the witnesses: the device just initialised, with zeroed static memory
  and the given buffer descriptors.
\<close>

definition static_state :: "(nat \<Rightarrow> adi_eth_BufDesc_t) \<Rightarrow> mac_state" where
  "static_state bufs = device_init False bufs (replicate BUFFERSIZE 0) (replicate BUFFERSIZE 0)
     0 0 True [] (replicate 8 0)"

definition blank_desc :: adi_eth_BufDesc_t where
  "blank_desc = \<lparr>bd_pBuf = replicate 1530 0, bd_bufSize = 1530, bd_trxSize = 0, bd_cbFunc = Some 1,
     bd_prio = ADI_MAC_RX_FIFO_PRIO_LOW, bd_port = 0, bd_egressCapt = 0,
     bd_timestampValid = False, bd_timestamp = 0, bd_timestampExt = 0, bd_refCount = 1\<rparr>"

lemma static_state_simps [simp]:
  "m_state (static_state b) = ADI_MAC_STATE_INITIALIZED"
  "m_spiState (static_state b) = ADI_MAC_SPI_STATE_READY"
  "m_txQueue (static_state b) = queueInit TX_QUEUE_NUM_ENTRIES_RAW"
  "m_rxQueueLp (static_state b) = queueInit RX_QUEUE_NUM_ENTRIES_RAW"
  "m_oaTxc (static_state b) = 31" "m_oaRca (static_state b) = 0"
  "m_oaTxCurBufByteOffset (static_state b) = 0" "m_oaRxCurBufByteOffset (static_state b) = 0"
  "m_oaTxCurBufIdx (static_state b) = 0" "m_oaCps (static_state b) = 6"
  "m_oaMaxChunkCount (static_state b) = ADI_OA_MAX_CHUNK64_COUNT"
  "m_oaRxUseBackupBuf (static_state b) = False" "m_fcsCheckEn (static_state b) = False"
  "m_oaValidFlag (static_state b) = ADI_MAC_OA_VALID_FLAG_NONE"
  "m_oaTimestampSplit (static_state b) = False"
  "m_timestampFormat (static_state b) = ADI_MAC_TS_FORMAT_NONE"
  "m_cbFunc (static_state b) = (\<lambda>_. None)" "m_pendingCtrl (static_state b) = False"
  "m_addrFilterActive (static_state b) = 0" "m_spiErr (static_state b) = False"
  "s_bufs (static_state b) = b" "s_events (static_state b) = []"
  "s_irqEnabled (static_state b) = True"
  by (simp_all add: static_state_def device_init_def)

lemma static_state_buffers [simp]:
  "length (s_spiTxBuf (static_state b)) = BUFFERSIZE"
  "length (s_spiRxBuf (static_state b)) = BUFFERSIZE"
  "length (m_ctrlTxBuf (static_state b)) = 256" "length (m_ctrlRxBuf (static_state b)) = 256"
  by (simp_all add: static_state_def device_init_def)

lemma blank_desc_simps [simp]:
  "length (bd_pBuf blank_desc) = 1530" "bd_bufSize blank_desc = 1530"
  "bd_cbFunc blank_desc = Some 1" "bd_refCount blank_desc = 1" "bd_port blank_desc = 0"
  by (simp_all add: blank_desc_def)

end
