(* ===== verification/Oa_Protocol.thy ===== *)
theory Oa_Protocol
  imports Oa_Codec
begin

text \<open>
  The reference the two directions of the OPEN Alliance engine are proved against: how a
  stream of data chunks carries frames.  A chunk has the fields \<open>DV\<close>, \<open>SV\<close>, \<open>EV\<close>, \<open>SWO\<close> and
  \<open>EBO\<close>, in its header when the host sends it and in its footer when the MAC does.
\<close>

section \<open>Decoding a chunk\<close>

text \<open>
  The decoder keeps the frame under way and emits the completed ones.  Without \<open>DV\<close> the
  chunk carries nothing; a frame that starts at word \<open>SWO\<close> and ends at byte \<open>EBO\<close> behind
  it is whole; otherwise \<open>EV\<close> ends the frame under way at byte \<open>EBO\<close>, \<open>SV\<close> starts one that
  takes the rest of the chunk, and a chunk with neither continues the frame.  A start
  while a frame is under way, or data without a start, is a protocol error (\<open>None\<close>).
\<close>

definition oa_step ::
  "bool \<Rightarrow> bool \<Rightarrow> bool \<Rightarrow> nat \<Rightarrow> nat \<Rightarrow> u8 list \<Rightarrow> u8 list option \<Rightarrow>
   (u8 list option \<times> u8 list list) option" where
  "oa_step dv sv ev swo ebo payload cur =
     (if \<not> dv then Some (cur, [])
      else if sv \<and> ev \<and> swo \<le> ebo
      then (if cur = None then Some (None, [take (ebo + 1 - swo) (drop swo payload)]) else None)
      else do {
        (cur, out) \<leftarrow>
          (if ev then do { f \<leftarrow> cur; Some (None, [f @ take (ebo + 1) payload]) }
           else Some (cur, []));
        if sv then (if cur = None then Some (Some (drop swo payload), out) else None)
        else if ev then Some (cur, out)
        else do { f \<leftarrow> cur; Some (Some (f @ payload), out) }
      })"

text \<open>A chunk the host sends; the MAC drops a header of even parity.\<close>

definition oa_decode_chunk ::
  "u32 \<Rightarrow> u8 list \<Rightarrow> u8 list option \<Rightarrow> (u8 list option \<times> u8 list list) option" where
  "oa_decode_chunk v payload cur =
     (let h = th_of_VALUE32 v
      in if even (popcount v) then None
         else oa_step (th_DV h) (th_SV h) (th_EV h) (4 * unat (th_SWO h)) (unat (th_EBO h)) payload cur)"

fun oa_decode ::
  "nat \<Rightarrow> nat \<Rightarrow> u8 list \<Rightarrow> u8 list option \<Rightarrow> (u8 list option \<times> u8 list list) option" where
  "oa_decode 0 cs bs cur = Some (cur, [])"
| "oa_decode (Suc n) cs bs cur = do {
     (cur, out) \<leftarrow> oa_decode_chunk (HTON32 (le_word32 (take 4 bs))) (take cs (drop 4 bs)) cur;
     (cur, outs) \<leftarrow> oa_decode n cs (drop (4 + cs) bs) cur;
     Some (cur, out @ outs)
   }"

text \<open>The number of chunks of the transaction that end a frame.\<close>

definition header_ends :: "u8 list \<Rightarrow> bool" where
  "header_ends bs \<longleftrightarrow> th_EV (th_of_VALUE32 (HTON32 (le_word32 (take 4 bs))))"

fun tx_ends :: "nat \<Rightarrow> nat \<Rightarrow> u8 list \<Rightarrow> nat" where
  "tx_ends 0 cs bs = 0"
| "tx_ends (Suc n) cs bs = (if header_ends bs then 1 else 0) + tx_ends n cs (drop (4 + cs) bs)"

section \<open>Frames grow\<close>

text \<open>
  A frame under way stays the beginning of the next completed frame or, when none is
  completed, of the frame still under way.
\<close>

definition oa_extends :: "u8 list option \<Rightarrow> u8 list option \<Rightarrow> u8 list list \<Rightarrow> bool" where
  "oa_extends cur cur' outs \<longleftrightarrow>
     (case cur of None \<Rightarrow> True
      | Some f \<Rightarrow> (case outs of
          [] \<Rightarrow> (\<exists>rest. cur' = Some (f @ rest))
        | g # _ \<Rightarrow> (\<exists>rest. g = f @ rest)))"

lemma oa_step_extends:
  assumes "oa_step dv sv ev swo ebo payload cur = Some (cur', out)"
  shows "oa_extends cur cur' out"
  using assms
  by (cases cur) (auto simp: oa_step_def oa_extends_def split: if_splits)

lemma oa_extends_trans:
  assumes "oa_extends cur cur1 out" and "oa_extends cur1 cur2 outs"
  shows "oa_extends cur cur2 (out @ outs)"
  using assms
  by (cases cur; cases out; cases outs) (auto simp: oa_extends_def)

text \<open>The number of bytes of the frame under way, and what a step can add to it.\<close>

lemma oa_step_no_DV [simp]: "oa_step False sv ev swo ebo payload cur = Some (cur, [])"
  by (simp add: oa_step_def)

lemma oa_step_whole:
  "oa_step True True True swo ebo payload cur =
     (if swo \<le> ebo
      then (if cur = None then Some (None, [take (ebo + 1 - swo) (drop swo payload)]) else None)
      else (case cur of None \<Rightarrow> None
            | Some f \<Rightarrow> Some (Some (drop swo payload), [f @ take (ebo + 1) payload])))"
  by (cases cur) (simp_all add: oa_step_def)

lemma oa_step_start:
  "oa_step True True False swo ebo payload cur =
     (if cur = None then Some (Some (drop swo payload), []) else None)"
  by (simp add: oa_step_def)

lemma oa_step_end:
  "oa_step True False True swo ebo payload cur =
     (case cur of None \<Rightarrow> None | Some f \<Rightarrow> Some (None, [f @ take (ebo + 1) payload]))"
  by (cases cur) (simp_all add: oa_step_def)

lemma oa_step_middle:
  "oa_step True False False swo ebo payload cur =
     (case cur of None \<Rightarrow> None | Some f \<Rightarrow> Some (Some (f @ payload), []))"
  by (cases cur) (simp_all add: oa_step_def)

lemmas oa_steps = oa_step_whole oa_step_start oa_step_end oa_step_middle

end
