(* ===== verification/Adi_Hal.thy ===== *)
theory Adi_Hal
  imports Bm_Prelude
begin

text \<open>
  The hardware layer below the MAC driver: the frame check sequence of \<open>adi_hal.c\<close> and the
  SPI transaction of \<open>adi_bsp.c\<close>, which splits a transfer because the peripheral counts at
  most 1023 bytes.  The SPI peripheral itself is a parameter.
\<close>

section \<open>Frame check sequence\<close>

definition crc32_tab :: "u32 list" where
  "crc32_tab = [
     0x00000000, 0x77073096, 0xEE0E612C, 0x990951BA, 0x076DC419, 0x706AF48F,
     0xE963A535, 0x9E6495A3, 0x0EDB8832, 0x79DCB8A4, 0xE0D5E91E, 0x97D2D988,
     0x09B64C2B, 0x7EB17CBD, 0xE7B82D07, 0x90BF1D91, 0x1DB71064, 0x6AB020F2,
     0xF3B97148, 0x84BE41DE, 0x1ADAD47D, 0x6DDDE4EB, 0xF4D4B551, 0x83D385C7,
     0x136C9856, 0x646BA8C0, 0xFD62F97A, 0x8A65C9EC, 0x14015C4F, 0x63066CD9,
     0xFA0F3D63, 0x8D080DF5, 0x3B6E20C8, 0x4C69105E, 0xD56041E4, 0xA2677172,
     0x3C03E4D1, 0x4B04D447, 0xD20D85FD, 0xA50AB56B, 0x35B5A8FA, 0x42B2986C,
     0xDBBBC9D6, 0xACBCF940, 0x32D86CE3, 0x45DF5C75, 0xDCD60DCF, 0xABD13D59,
     0x26D930AC, 0x51DE003A, 0xC8D75180, 0xBFD06116, 0x21B4F4B5, 0x56B3C423,
     0xCFBA9599, 0xB8BDA50F, 0x2802B89E, 0x5F058808, 0xC60CD9B2, 0xB10BE924,
     0x2F6F7C87, 0x58684C11, 0xC1611DAB, 0xB6662D3D, 0x76DC4190, 0x01DB7106,
     0x98D220BC, 0xEFD5102A, 0x71B18589, 0x06B6B51F, 0x9FBFE4A5, 0xE8B8D433,
     0x7807C9A2, 0x0F00F934, 0x9609A88E, 0xE10E9818, 0x7F6A0DBB, 0x086D3D2D,
     0x91646C97, 0xE6635C01, 0x6B6B51F4, 0x1C6C6162, 0x856530D8, 0xF262004E,
     0x6C0695ED, 0x1B01A57B, 0x8208F4C1, 0xF50FC457, 0x65B0D9C6, 0x12B7E950,
     0x8BBEB8EA, 0xFCB9887C, 0x62DD1DDF, 0x15DA2D49, 0x8CD37CF3, 0xFBD44C65,
     0x4DB26158, 0x3AB551CE, 0xA3BC0074, 0xD4BB30E2, 0x4ADFA541, 0x3DD895D7,
     0xA4D1C46D, 0xD3D6F4FB, 0x4369E96A, 0x346ED9FC, 0xAD678846, 0xDA60B8D0,
     0x44042D73, 0x33031DE5, 0xAA0A4C5F, 0xDD0D7CC9, 0x5005713C, 0x270241AA,
     0xBE0B1010, 0xC90C2086, 0x5768B525, 0x206F85B3, 0xB966D409, 0xCE61E49F,
     0x5EDEF90E, 0x29D9C998, 0xB0D09822, 0xC7D7A8B4, 0x59B33D17, 0x2EB40D81,
     0xB7BD5C3B, 0xC0BA6CAD, 0xEDB88320, 0x9ABFB3B6, 0x03B6E20C, 0x74B1D29A,
     0xEAD54739, 0x9DD277AF, 0x04DB2615, 0x73DC1683, 0xE3630B12, 0x94643B84,
     0x0D6D6A3E, 0x7A6A5AA8, 0xE40ECF0B, 0x9309FF9D, 0x0A00AE27, 0x7D079EB1,
     0xF00F9344, 0x8708A3D2, 0x1E01F268, 0x6906C2FE, 0xF762575D, 0x806567CB,
     0x196C3671, 0x6E6B06E7, 0xFED41B76, 0x89D32BE0, 0x10DA7A5A, 0x67DD4ACC,
     0xF9B9DF6F, 0x8EBEEFF9, 0x17B7BE43, 0x60B08ED5, 0xD6D6A3E8, 0xA1D1937E,
     0x38D8C2C4, 0x4FDFF252, 0xD1BB67F1, 0xA6BC5767, 0x3FB506DD, 0x48B2364B,
     0xD80D2BDA, 0xAF0A1B4C, 0x36034AF6, 0x41047A60, 0xDF60EFC3, 0xA867DF55,
     0x316E8EEF, 0x4669BE79, 0xCB61B38C, 0xBC66831A, 0x256FD2A0, 0x5268E236,
     0xCC0C7795, 0xBB0B4703, 0x220216B9, 0x5505262F, 0xC5BA3BBE, 0xB2BD0B28,
     0x2BB45A92, 0x5CB36A04, 0xC2D7FFA7, 0xB5D0CF31, 0x2CD99E8B, 0x5BDEAE1D,
     0x9B64C2B0, 0xEC63F226, 0x756AA39C, 0x026D930A, 0x9C0906A9, 0xEB0E363F,
     0x72076785, 0x05005713, 0x95BF4A82, 0xE2B87A14, 0x7BB12BAE, 0x0CB61B38,
     0x92D28E9B, 0xE5D5BE0D, 0x7CDCEFB7, 0x0BDBDF21, 0x86D3D2D4, 0xF1D4E242,
     0x68DDB3F8, 0x1FDA836E, 0x81BE16CD, 0xF6B9265B, 0x6FB077E1, 0x18B74777,
     0x88085AE6, 0xFF0F6A70, 0x66063BCA, 0x11010B5C, 0x8F659EFF, 0xF862AE69,
     0x616BFFD3, 0x166CCF45, 0xA00AE278, 0xD70DD2EE, 0x4E048354, 0x3903B3C2,
     0xA7672661, 0xD06016F7, 0x4969474D, 0x3E6E77DB, 0xAED16A4A, 0xD9D65ADC,
     0x40DF0B66, 0x37D83BF0, 0xA9BCAE53, 0xDEBB9EC5, 0x47B2CF7F, 0x30B5FFE9,
     0xBDBDF21C, 0xCABAC28A, 0x53B39330, 0x24B4A3A6, 0xBAD03605, 0xCDD70693,
     0x54DE5729, 0x23D967BF, 0xB3667A2E, 0xC4614AB8, 0x5D681B02, 0x2A6F2B94,
     0xB40BBE37, 0xC30C8EA1, 0x5A05DF1B, 0x2D02EF8D]"

fun crc32_loop :: "u8 list \<Rightarrow> u32 \<Rightarrow> u32" where
  "crc32_loop [] crc = crc"
| "crc32_loop (b # bs) crc =
     crc32_loop bs (crc32_tab ! unat ((crc XOR ucast b) AND 0xFF) XOR drop_bit 8 crc)"

definition HAL_FcsCalculate :: "u8 list \<Rightarrow> u32" where
  "HAL_FcsCalculate pBuf = crc32_loop pBuf 0xFFFFFFFF XOR 0xFFFFFFFF"

text \<open>
  The reference is the division of IEEE 802.3: bit by bit, least significant bit first, by
  the reflected polynomial \<open>0xEDB88320\<close>.
\<close>

definition crc_shift :: "u32 \<Rightarrow> u32" where
  "crc_shift c = (if bit c 0 then drop_bit 1 c XOR 0xEDB88320 else drop_bit 1 c)"

definition crc_bitwise :: "u8 list \<Rightarrow> u32 \<Rightarrow> u32" where
  "crc_bitwise bs crc = fold (\<lambda>b c. (crc_shift ^^ 8) (c XOR ucast b)) bs crc"

lemma crc_shift_XOR: "crc_shift (a XOR b) = crc_shift a XOR crc_shift b"
  unfolding crc_shift_def
  by (cases "bit a 0"; cases "bit b 0") (simp_all add: bit_xor_iff drop_bit_xor xor.assoc xor.commute xor.left_commute)

lemma crc_shift_pow_XOR: "(crc_shift ^^ n) (a XOR b) = (crc_shift ^^ n) a XOR (crc_shift ^^ n) b"
  by (induction n) (simp_all add: crc_shift_XOR)

lemma crc_shift_pow_high:
  "(\<And>i. i < n \<Longrightarrow> \<not> bit c i) \<Longrightarrow> (crc_shift ^^ n) c = drop_bit n c"
proof (induction n)
  case (Suc n)
  then have "(crc_shift ^^ n) c = drop_bit n c" by simp
  moreover have "\<not> bit (drop_bit n c) 0" using Suc.prems by (simp add: bit_drop_bit_eq)
  ultimately show ?case
    by (simp only: funpow.simps o_apply) (simp add: crc_shift_def drop_bit_drop_bit)
qed simp

text \<open>
  The table is checked through its linearity: entry \<open>i XOR 2 ^ k\<close> is entry \<open>i\<close> XOR entry
  \<open>2 ^ k\<close>, so it is built from eight entries by doubling.
\<close>

definition crc_double :: "u32 list \<Rightarrow> u32 \<Rightarrow> u32 list" where
  "crc_double xs b = xs @ map (\<lambda>x. x XOR b) xs"

lemma of_nat_add_power_XOR:
  assumes "i < 2 ^ k"
  shows "(of_nat (i + 2 ^ k) :: u32) = of_nat i XOR 2 ^ k"
proof -
  have "of_nat i AND (2 ^ k :: u32) = 0"
  proof (rule bit_word_eqI)
    fix n assume "n < LENGTH(32)"
    have "\<not> bit i k" using assms by (simp add: bit_nat_iff bit_iff_odd)
    then show "bit (of_nat i AND (2 ^ k :: u32)) n = bit (0 :: u32) n"
      by (auto simp: bit_and_iff bit_exp_iff bit_of_nat_iff)
  qed
  then show ?thesis
    by (simp add: disjunctive_xor_eq_or disjunctive_add_eq_or)
qed

lemma crc_double_step:
  assumes "xs = map (\<lambda>n. (crc_shift ^^ 8) (of_nat n)) [0..<2 ^ k]"
    and "b = (crc_shift ^^ 8) (2 ^ k)"
  shows "crc_double xs b = map (\<lambda>n. (crc_shift ^^ 8) (of_nat n)) [0..<2 ^ Suc k]"
proof -
  have "[0..<2 ^ Suc k] = [0..<2 ^ k] @ map (\<lambda>i. i + 2 ^ k) [0..<2 ^ k]"
    by (simp add: map_add_upt mult_2 flip: upt_add_eq_append)
  moreover have "(crc_shift ^^ 8) (of_nat (i + 2 ^ k)) = (crc_shift ^^ 8) (of_nat i) XOR b"
    if "i < 2 ^ k" for i
    by (simp only: of_nat_add_power_XOR [OF that] crc_shift_pow_XOR assms(2))
  ultimately show ?thesis
    by (simp add: crc_double_def assms(1) comp_def)
qed

lemma crc_double_entries:
  "foldl crc_double [0] [0x77073096, 0xEE0E612C, 0x076DC419, 0x0EDB8832, 0x1DB71064, 0x3B6E20C8,
     0x76DC4190, 0xEDB88320] = map (\<lambda>n. (crc_shift ^^ 8) (of_nat n)) [0..<256]"
proof -
  define T where "T k = map (\<lambda>n. (crc_shift ^^ 8) (of_nat n)) [0..<2 ^ k]" for k :: nat
  have step: "crc_double (T k) ((crc_shift ^^ 8) (2 ^ k)) = T (Suc k)" for k
    unfolding T_def by (rule crc_double_step [OF refl refl])
  have pow: "(crc_shift ^^ 8) c = crc_shift (crc_shift (crc_shift (crc_shift
      (crc_shift (crc_shift (crc_shift (crc_shift c)))))))" for c
    by (simp add: numeral_eq_Suc)
  have base: "(crc_shift ^^ 8) (2 ^ 0) = 0x77073096" "(crc_shift ^^ 8) (2 ^ 1) = 0xEE0E612C"
    "(crc_shift ^^ 8) (2 ^ 2) = 0x076DC419" "(crc_shift ^^ 8) (2 ^ 3) = 0x0EDB8832"
    "(crc_shift ^^ 8) (2 ^ 4) = 0x1DB71064" "(crc_shift ^^ 8) (2 ^ 5) = 0x3B6E20C8"
    "(crc_shift ^^ 8) (2 ^ 6) = 0x76DC4190" "(crc_shift ^^ 8) (2 ^ 7) = 0xEDB88320"
    unfolding pow by (simp_all add: crc_shift_def)
  have "T 0 = [0]"
    unfolding T_def pow by (simp add: crc_shift_def)
  moreover have "foldl crc_double (T 0) [0x77073096, 0xEE0E612C, 0x076DC419, 0x0EDB8832,
      0x1DB71064, 0x3B6E20C8, 0x76DC4190, 0xEDB88320] = T (Suc 7)"
    unfolding foldl.simps
    using step [of 0] step [of 1] step [of 2] step [of 3] step [of 4] step [of 5] step [of 6]
      step [of 7] unfolding base by (simp flip: numeral_2_eq_2)
  moreover have "T (Suc 7) = map (\<lambda>n. (crc_shift ^^ 8) (of_nat n)) [0..<256]"
    by (simp add: T_def del: funpow.simps)
  ultimately show ?thesis by simp
qed

lemma crc32_tab_double:
  "crc32_tab = foldl crc_double [0] [0x77073096, 0xEE0E612C, 0x076DC419, 0x0EDB8832, 0x1DB71064,
     0x3B6E20C8, 0x76DC4190, 0xEDB88320]"
  by (simp add: crc_double_def crc32_tab_def)

lemma crc32_tab_nth: "i < 256 \<Longrightarrow> crc32_tab ! i = (crc_shift ^^ 8) (of_nat i)"
  unfolding crc32_tab_double crc_double_entries by simp

text \<open>One table step is eight shifts of the bitwise division.\<close>

lemma crc32_step:
  "crc32_tab ! unat ((crc XOR ucast b) AND 0xFF) XOR drop_bit 8 crc =
     (crc_shift ^^ 8) (crc XOR ucast (b :: u8))"
proof -
  let ?x = "crc XOR ucast b" and ?lo = "(crc XOR ucast b) AND (0xFF :: u32)"
  have "unat ?lo \<le> unat (0xFF :: u32)" by (rule word_le_nat_alt [THEN iffD1, OF word_and_le1])
  then have lo: "unat ?lo < 256" by simp
  have "?x = ?lo XOR (crc AND NOT 0xFF)"
    by (rule bits_eqI) (simp add: bit_blast)
  then have "(crc_shift ^^ 8) ?x = (crc_shift ^^ 8) ?lo XOR (crc_shift ^^ 8) (crc AND NOT 0xFF)"
    by (metis crc_shift_pow_XOR)
  also have "(crc_shift ^^ 8) (crc AND NOT 0xFF) = drop_bit 8 (crc AND NOT 0xFF)"
    by (rule crc_shift_pow_high) (auto simp: bit_simps less_Suc_eq numeral_eq_Suc)
  also have "drop_bit 8 (crc AND NOT 0xFF) = drop_bit 8 crc"
    by (rule bits_eqI) (simp add: bit_blast)
  also have "(crc_shift ^^ 8) ?lo = crc32_tab ! unat ?lo"
    using crc32_tab_nth [OF lo] by simp
  finally show ?thesis by simp
qed

lemma crc32_loop_bitwise: "crc32_loop bs crc = crc_bitwise bs crc"
  by (induction bs arbitrary: crc) (simp_all add: crc_bitwise_def crc32_step del: funpow.simps)

section \<open>The SPI transaction\<close>

text \<open>
  \<open>io_write v\<close> drives the chip select line, \<open>xfer dma bs\<close> is one call of \<open>spiTxRx\<close> or
  \<open>spiTxRxNonblocking\<close> that sends \<open>bs\<close>: the bytes received, or \<open>None\<close> for a status other
  than \<open>SPI_OK\<close>.  Both are parameters over the state \<open>'e\<close> of the hardware.
\<close>

definition SPI_MAX_TRANSFER :: nat where "SPI_MAX_TRANSFER = 1023"

datatype SPIResponse = SPI_OK | SPI_FAILED

text \<open>
  The loop \<open>for (idx = 0; idx < nBytes; idx += 1023)\<close>, left at the first failing transfer.
\<close>

function spi_transfers ::
  "(bool \<Rightarrow> u8 list \<Rightarrow> 'e \<Rightarrow> (u8 list \<times> 'e) option) \<Rightarrow> bool \<Rightarrow> nat \<Rightarrow> nat \<Rightarrow>
   u8 list \<Rightarrow> u8 list \<Rightarrow> 'e \<Rightarrow> (SPIResponse \<times> u8 list \<times> 'e) option" where
  "spi_transfers xfer useDma nBytes idx pBufferTx pBufferRx e =
     (if idx < nBytes
      then do {
        let bytesRemaining = nBytes - idx;
        let subNbytes = min bytesRemaining SPI_MAX_TRANSFER;
        tx \<leftarrow> mem_read pBufferTx idx subNbytes;
        (case xfer useDma tx e of
           None \<Rightarrow> Some (SPI_FAILED, pBufferRx, e)
         | Some (rx, e) \<Rightarrow> do {
             pBufferRx \<leftarrow> mem_write pBufferRx idx rx;
             spi_transfers xfer useDma nBytes (idx + SPI_MAX_TRANSFER) pBufferTx pBufferRx e
           })
      }
      else Some (SPI_OK, pBufferRx, e))"
  by pat_completeness auto

termination
  by (relation "measure (\<lambda>(xfer, useDma, nBytes, idx, tx, rx, e). nBytes - idx)")
    (auto simp: SPI_MAX_TRANSFER_def)

declare spi_transfers.simps [simp del]

text \<open>
  The result is the receive buffer and the hardware state with which the callback
  registered by the driver is then called.  A failing transfer runs into
  \<open>configASSERT(0)\<close>, and the callback is not called: \<open>None\<close>.
\<close>

definition adi_bsp_spi_write_and_read ::
  "(bool \<Rightarrow> 'e \<Rightarrow> 'e) \<Rightarrow> (bool \<Rightarrow> u8 list \<Rightarrow> 'e \<Rightarrow> (u8 list \<times> 'e) option) \<Rightarrow>
   u8 list \<Rightarrow> u8 list \<Rightarrow> nat \<Rightarrow> bool \<Rightarrow> 'e \<Rightarrow> (u8 list \<times> 'e) option" where
  "adi_bsp_spi_write_and_read io_write xfer pBufferTx pBufferRx nBytes useDma e = do {
     let e = io_write False e;
     (status, pBufferRx, e) \<leftarrow> spi_transfers xfer useDma nBytes 0 pBufferTx pBufferRx e;
     let e = io_write True e;
     if status = SPI_OK then Some (pBufferRx, e) else None
   }"

text \<open>
  What the driver relies on.  The device at the other end shifts one byte out for every byte
  shifted in: \<open>step\<close> is what it answers to a byte, and \<open>shift_bytes\<close> what it answers to
  all the bytes sent while chip select is low.  The SPI peripheral of the microcontroller
  carries out a transfer of 1 to 1023 bytes, with or without DMA, as that many steps.  Nothing
  is assumed of longer transfers, of which the comment in the code says that their counter
  wraps around.
\<close>

fun shift_bytes :: "(u8 \<Rightarrow> 'e \<Rightarrow> u8 \<times> 'e) \<Rightarrow> u8 list \<Rightarrow> 'e \<Rightarrow> u8 list \<times> 'e" where
  "shift_bytes step [] e = ([], e)"
| "shift_bytes step (b # bs) e =
     (let (r, e) = step b e; (rs, e) = shift_bytes step bs e in (r # rs, e))"

definition spi_counted ::
  "(u8 \<Rightarrow> 'e \<Rightarrow> u8 \<times> 'e) \<Rightarrow> (bool \<Rightarrow> u8 list \<Rightarrow> 'e \<Rightarrow> (u8 list \<times> 'e) option) \<Rightarrow> bool" where
  "spi_counted step xfer \<longleftrightarrow>
     (\<forall>dma bs e. 0 < length bs \<longrightarrow> length bs < 1024 \<longrightarrow> xfer dma bs e = Some (shift_bytes step bs e))"

lemma length_shift_bytes [simp]: "length (fst (shift_bytes step bs e)) = length bs"
  by (induction step bs e rule: shift_bytes.induct) (auto split: prod.splits)

lemma shift_bytes_append:
  "shift_bytes step (as @ bs) e =
     (let (ra, e) = shift_bytes step as e; (rb, e) = shift_bytes step bs e in (ra @ rb, e))"
  by (induction as arbitrary: e) (auto split: prod.splits)

lemma spi_transfers_whole:
  assumes st: "spi_counted step xfer" and "idx \<le> nBytes" and "nBytes \<le> length tx" and "nBytes \<le> length rx"
    and "shift_bytes step (drop idx (take nBytes tx)) e = (r, e')"
  shows "spi_transfers xfer dma nBytes idx tx rx e =
      Some (SPI_OK, take idx rx @ r @ drop nBytes rx, e')"
  using assms(2-5)
proof (induction "nBytes - idx" arbitrary: idx rx e r rule: less_induct)
  case less
  have len: "length r = nBytes - idx"
    using length_shift_bytes [of step "drop idx (take nBytes tx)" e] less.prems(2,4) by simp
  show ?case
  proof (cases "idx < nBytes")
    case False
    then have "idx = nBytes" using less.prems(1) by simp
    then show ?thesis using less.prems(4) by (subst spi_transfers.simps) simp
  next
    case True
    define k where "k = min (nBytes - idx) SPI_MAX_TRANSFER"
    have k: "0 < k" "idx + k \<le> nBytes" "k < 1024" using True by (auto simp: k_def SPI_MAX_TRANSFER_def)
    have split: "drop idx (take nBytes tx) = take k (drop idx tx) @ drop (idx + k) (take nBytes tx)"
    proof -
      have "take k (drop idx (take nBytes tx)) = take k (drop idx tx)"
        using k(2) by (simp add: drop_take min_def)
      then show ?thesis by (metis append_take_drop_id drop_drop add.commute)
    qed
    obtain ra e1 where a: "shift_bytes step (take k (drop idx tx)) e = (ra, e1)" by fastforce
    obtain rb e2 where b: "shift_bytes step (drop (idx + k) (take nBytes tx)) e1 = (rb, e2)" by fastforce
    have r: "r = ra @ rb" "e' = e2"
      using less.prems(4) a b by (simp_all add: split shift_bytes_append)
    have la: "length ra = k"
      using length_shift_bytes [of step "take k (drop idx tx)" e] a less.prems(2) k(2) by simp
    let ?rx = "take idx rx @ ra @ drop (idx + k) rx"
    have wr: "mem_write rx idx ra = Some ?rx"
      using la k(2) less.prems(3) by (simp add: mem_write_ok)
    have rd: "mem_read tx idx k = Some (take k (drop idx tx))"
      using k(2) less.prems(2) by simp
    have x: "xfer dma (take k (drop idx tx)) e = Some (ra, e1)"
      using st a k less.prems(2) by (simp add: spi_counted_def)
    have unfold: "spi_transfers xfer dma nBytes idx tx rx e =
        spi_transfers xfer dma nBytes (idx + SPI_MAX_TRANSFER) tx ?rx e1"
      using True rd x wr by (subst spi_transfers.simps) (simp add: Let_def flip: k_def del: mem_read_Some)
    show ?thesis
    proof (cases "idx + k = nBytes")
      case end1: True
      then have "rb = []" "e2 = e1" using b less.prems(2) by auto
      moreover have "\<not> idx + SPI_MAX_TRANSFER < nBytes" using end1 by (auto simp: k_def)
      ultimately show ?thesis
        unfolding unfold r using end1 by (subst spi_transfers.simps) simp
    next
      case False
      then have k': "k = SPI_MAX_TRANSFER" using True by (auto simp: k_def min_def split: if_splits)
      have "spi_transfers xfer dma nBytes (idx + k) tx ?rx e1 =
          Some (SPI_OK, take (idx + k) ?rx @ rb @ drop nBytes ?rx, e2)"
        using less.hyps [of "idx + k" ?rx e1 rb] k less.prems la b r(2) True by simp
      then show ?thesis
        unfolding unfold r k' [symmetric] using la k(2) less.prems(3) by simp
    qed
  qed
qed

lemma adi_bsp_spi_whole:
  assumes "spi_counted step xfer" and "nBytes \<le> length tx" and "nBytes \<le> length rx"
    and "shift_bytes step (take nBytes tx) (io_write False e) = (r, e')"
  shows "adi_bsp_spi_write_and_read io_write xfer tx rx nBytes dma e =
      Some (r @ drop nBytes rx, io_write True e')"
  using spi_transfers_whole [OF assms(1), of 0 nBytes tx rx "io_write False e" r e' dma] assms
  by (simp add: adi_bsp_spi_write_and_read_def)

section \<open>Properties\<close>

text \<open>
  C17: the table-driven \<open>HAL_FcsCalculate\<close> computes the CRC-32 of IEEE 802.3 (the bitwise
  division by the reflected polynomial) of a buffer of any length.
\<close>

theorem fcs_is_crc32:
  "HAL_FcsCalculate pBuf = crc_bitwise pBuf 0xFFFFFFFF XOR 0xFFFFFFFF"
  by (simp add: HAL_FcsCalculate_def crc32_loop_bitwise)

text \<open>
  C16: on a peripheral that carries out transfers of at most 1023 bytes, byte by byte,
  \<open>adi_bsp_spi_write_and_read\<close> puts all the bytes of a transaction, however many, in order
  before the device within one low phase of chip select, and gives back the byte the device
  answers to each of them; the receive buffer behind them is left alone.
\<close>

theorem bsp_transaction_is_one_exchange:
  assumes "spi_counted step xfer" and "nBytes \<le> length tx" and "nBytes \<le> length rx"
    and "shift_bytes step (take nBytes tx) (io_write False e) = (r, e')"
  shows "adi_bsp_spi_write_and_read io_write xfer tx rx nBytes dma e =
      Some (r @ drop nBytes rx, io_write True e')"
  using assms by (rule adi_bsp_spi_whole)

text \<open>
  A device that answers every byte with the one before it, behind a peripheral that fails
  when asked for more than its counter holds.
\<close>

definition echo_step :: "u8 \<Rightarrow> u8 \<Rightarrow> u8 \<times> u8" where
  "echo_step b e = (e, b)"

definition echo_xfer :: "bool \<Rightarrow> u8 list \<Rightarrow> u8 \<Rightarrow> (u8 list \<times> u8) option" where
  "echo_xfer dma bs e = (if length bs < 1024 then Some (shift_bytes echo_step bs e) else None)"

lemma shift_echo: "shift_bytes echo_step bs e = (if bs = [] then ([], e) else (e # butlast bs, last bs))"
  by (induction bs arbitrary: e) (auto simp: echo_step_def)

lemma echo_counted: "spi_counted echo_step echo_xfer"
  by (simp add: spi_counted_def echo_xfer_def)

theorem bsp_transaction_is_one_exchange_witness:
  "adi_bsp_spi_write_and_read (\<lambda>v e. e) echo_xfer (replicate 3000 7) (replicate 3000 0) 2500 True 9 =
   Some ((9 # replicate 2499 7) @ replicate 500 0, 7)"
proof -
  have "shift_bytes echo_step (replicate 2500 7) 9 = (9 # replicate 2499 7, 7)"
    by (simp add: shift_echo butlast_conv_take take_replicate last_replicate)
  moreover have "take 2500 (replicate 3000 (7 :: u8)) = replicate 2500 7"
      "drop 2500 (replicate 3000 (0 :: u8)) = replicate 500 0"
    by (simp_all add: take_replicate drop_replicate)
  ultimately show ?thesis
    using bsp_transaction_is_one_exchange [OF echo_counted, of 2500 "replicate 3000 7"
        "replicate 3000 0" "\<lambda>v e. e" 9 "9 # replicate 2499 7" 7 True]
    by simp
qed

end
