(* ===== verification/Oa_Tx.thy ===== *)
theory Oa_Tx
  imports Mac_Types Oa_Protocol
begin

text \<open>
  The transmit side of the OPEN Alliance engine: \<open>oaCreateNextChunk\<close> packs the queued
  frames into chunks and \<open>oaSpiProcess\<close> composes a transaction of them.  The chunks are
  decoded by a reference decoder that follows the protocol (\<open>SV\<close>, \<open>SWO\<close>, \<open>EV\<close>, \<open>EBO\<close>), and
  the bytes it recovers are the queued frames.
\<close>

section \<open>The code\<close>

definition th_zero :: adi_mac_OaTxHeader_t where
  "th_zero = \<lparr>th_P = False, th_RSVD0 = 0, th_TMSC = 0, th_EBO = 0, th_EV = False,
     th_RSVD1 = False, th_SWO = 0, th_SV = False, th_DV = False, th_VS = 0, th_RSVD2 = 0,
     th_NORX = False, th_SEQ = False, th_DNC = False\<rparr>"

definition TX_WRAP :: "nat \<Rightarrow> nat" where
  \<comment> \<open>\<open>oaTxCurBufIdx++; if (oaTxCurBufIdx == TX_QUEUE_NUM_ENTRIES_RAW) oaTxCurBufIdx = 0;\<close>\<close>
  "TX_WRAP i = (if i + 1 = TX_QUEUE_NUM_ENTRIES_RAW then 0 else i + 1)"

text \<open>
  The first part of the chunk: the next \<open>bsize\<close> bytes of the current frame, with \<open>SV\<close> if
  they are its first and \<open>EV\<close> if they are its last.  Returns the state, the buffer, the
  header and \<open>bsize\<close>.
\<close>

definition chunk_current_frame ::
  "mac_state \<Rightarrow> u8 list \<Rightarrow> nat \<Rightarrow> adi_mac_OaTxHeader_t \<Rightarrow>
   (mac_state \<times> u8 list \<times> adi_mac_OaTxHeader_t \<times> nat) option" where
  "chunk_current_frame s buf pBuf hdr = do {
     d \<leftarrow> slot_desc (m_txQueue s) (m_oaTxCurBufIdx s);
     let desc = s_bufs s d;
     let firstChunk = (m_oaTxCurBufByteOffset s = 0);
     let bytesRemaining = sub32 (bd_trxSize desc) (m_oaTxCurBufByteOffset s);
     let bsize = (if chunkSize s < bytesRemaining then chunkSize s else bytesRemaining);
     bytes \<leftarrow> mem_read (bd_pBuf desc) (m_oaTxCurBufByteOffset s) bsize;
     buf \<leftarrow> mem_write buf (pBuf + ADI_SPI_HEADER_SIZE) bytes;
     let s = s\<lparr>m_oaTxCurBufByteOffset := m_oaTxCurBufByteOffset s + bsize\<rparr>;
     let hdr = (if firstChunk
                then hdr\<lparr>th_SV := True, th_SWO := 0, th_TMSC := bd_egressCapt desc,
                         th_VS := of_nat (bd_port desc) AND 1\<rparr>
                else hdr);
     Some (if bytesRemaining - bsize = 0
           then (s\<lparr>m_oaTxCurBufIdx := TX_WRAP (m_oaTxCurBufIdx s), m_oaTxCurBufByteOffset := 0\<rparr>,
                 buf, hdr\<lparr>th_EV := True, th_EBO := of_nat (sub32 bsize 1)\<rparr>, bsize)
           else (s, buf, hdr, bsize))
   }"

text \<open>
  The second part: if a word of the chunk is left and the chunk has no \<open>SV\<close> yet, the next
  frame starts in it.
\<close>

definition chunk_next_frame ::
  "mac_state \<Rightarrow> u8 list \<Rightarrow> nat \<Rightarrow> adi_mac_OaTxHeader_t \<Rightarrow> nat \<Rightarrow>
   (mac_state \<times> u8 list \<times> adi_mac_OaTxHeader_t) option" where
  "chunk_next_frame s buf pBuf hdr bsize =
     (if 4 \<le> chunkSize s - bsize \<and> m_oaTxCurBufIdx s \<noteq> q_head (m_txQueue s) \<and> \<not> th_SV hdr
      then do {
        d \<leftarrow> slot_desc (m_txQueue s) (m_oaTxCurBufIdx s);
        let desc = s_bufs s d;
        let swo = (bsize + 3) div 4;
        let swo = (if th_EV hdr \<and> bd_trxSize desc + swo * 4 \<le> chunkSize s then swo + 1 else swo);
        let chunkBytesRemaining = sub32 (chunkSize s) (swo * 4);
        bytes \<leftarrow> mem_read (bd_pBuf desc) (m_oaTxCurBufByteOffset s) chunkBytesRemaining;
        buf \<leftarrow> mem_write buf (pBuf + ADI_SPI_HEADER_SIZE + swo * 4) bytes;
        Some (s\<lparr>m_oaTxCurBufByteOffset := m_oaTxCurBufByteOffset s + chunkBytesRemaining\<rparr>, buf,
              hdr\<lparr>th_SV := True, th_SWO := of_nat swo, th_TMSC := bd_egressCapt desc\<rparr>)
      }
      else Some (s, buf, hdr))"

text \<open>
  \<open>buf\<close> and \<open>pBuf\<close> are the buffer and the offset in it that the pointer argument denotes.
\<close>

definition oaCreateNextChunk ::
  "mac_state \<Rightarrow> u8 list \<Rightarrow> nat \<Rightarrow> bool \<Rightarrow> (mac_state \<times> u8 list) option" where
  "oaCreateNextChunk s buf pBuf txEn = do {
     let hdr = th_zero\<lparr>th_DNC := True,
                       th_NORX := (m_oaRxUseBackupBuf s \<or> queueIsEmpty (m_rxQueueLp s))\<rparr>;
     (s, buf, hdr) \<leftarrow>
       (if txEn \<and> (queueIsFull (m_txQueue s) \<or> m_oaTxCurBufIdx s \<noteq> q_head (m_txQueue s))
        then do {
          (s, buf, hdr, bsize) \<leftarrow> chunk_current_frame s buf pBuf (hdr\<lparr>th_DV := True\<rparr>);
          chunk_next_frame s buf pBuf hdr bsize
        }
        else Some (s, buf, hdr\<lparr>th_DV := False\<rparr>));
     let hdr = th_set_P hdr;
     buf \<leftarrow> mem_write buf pBuf (le_bytes32 (HTON32 (th_VALUE32 hdr)));
     Some (s, buf)
   }"

text \<open>
  The \<open>do ... while\<close> loop that adds up the queued bytes from \<open>txIdx\<close> to the head.  Its fuel
  is the number of slots, which is enough when both indices are slots of the queue.
\<close>

fun queued_bytes :: "nat \<Rightarrow> mac_state \<Rightarrow> nat \<Rightarrow> nat \<Rightarrow> nat option" where
  "queued_bytes 0 s txIdx queueByteCount = None"
| "queued_bytes (Suc fuel) s txIdx queueByteCount = do {
     d \<leftarrow> slot_desc (m_txQueue s) txIdx;
     let queueByteCount = queueByteCount + bd_trxSize (s_bufs s d);
     let txIdx = TX_WRAP txIdx;
     if txIdx \<noteq> q_head (m_txQueue s) then queued_bytes fuel s txIdx queueByteCount
     else Some queueByteCount
   }"

text \<open>The numbers of chunks of the transaction: all of them, and those with transmit data.\<close>

definition oaChunkCounts :: "mac_state \<Rightarrow> (nat \<times> nat) option" where
  "oaChunkCounts s = do {
     txChunkCount \<leftarrow>
       (if \<not> queueIsEmpty (m_txQueue s)
        then do {
          total \<leftarrow> queued_bytes TX_QUEUE_NUM_ENTRIES_RAW s (m_oaTxCurBufIdx s) 0;
          let queueByteCount = sub32 total (m_oaTxCurBufByteOffset s);
          let chunkCount = queueByteCount div chunkSize s
                + (if queueByteCount mod chunkSize s \<noteq> 0 then 1 else 0);
          Some (if m_oaTxc s < chunkCount then m_oaTxc s else chunkCount)
        }
        else Some 0);
     let chunkCount = (if txChunkCount < m_oaRca s then m_oaRca s else txChunkCount);
     let chunkCount = (if m_oaMaxChunkCount s < chunkCount then m_oaMaxChunkCount s else chunkCount);
     let chunkCount = (if m_oaRxUseBackupBuf s \<and> ADI_OA_RX_BACKUP_BUF_CHUNK_COUNT < chunkCount
                       then ADI_OA_RX_BACKUP_BUF_CHUNK_COUNT else chunkCount);
     let chunkCount = (if chunkCount = 0 \<and> m_state s = ADI_MAC_STATE_IRQ_START
                       then 1 else chunkCount);
     Some (chunkCount, txChunkCount)
   }"

text \<open>
  \<open>for (i = 0; i < chunkCount; i++)\<close>, with \<open>n\<close> chunks still to create; the transmit data
  goes into the first \<open>txChunkCount\<close> of them.
\<close>

fun create_chunks ::
  "nat \<Rightarrow> nat \<Rightarrow> nat \<Rightarrow> mac_state \<Rightarrow> u8 list \<Rightarrow> (mac_state \<times> u8 list) option" where
  "create_chunks 0 i txChunkCount s buf = Some (s, buf)"
| "create_chunks (Suc n) i txChunkCount s buf = do {
     let txEn = (if m_state s = ADI_MAC_STATE_IRQ_START then False else i < txChunkCount);
     (s, buf) \<leftarrow> oaCreateNextChunk s buf (m_oaTrxSize s) txEn;
     let s = s\<lparr>m_oaTrxSize := m_oaTrxSize s + ADI_SPI_HEADER_SIZE + chunkSize s\<rparr>;
     create_chunks n (i + 1) txChunkCount s buf
   }"

definition oaSpiProcess :: "mac_state \<Rightarrow> mac_state option" where
  "oaSpiProcess s = do {
     (chunkCount, txChunkCount) \<leftarrow> oaChunkCounts s;
     let s = s\<lparr>m_oaTrxSize := 0\<rparr>;
     if m_oaRxUseBackupBuf s
     then do {
       (s, buf) \<leftarrow> create_chunks chunkCount 0 txChunkCount s (m_oaRxBackupBuf s);
       Some (s\<lparr>m_oaRxBackupBuf := buf\<rparr>)
     }
     else do {
       (s, buf) \<leftarrow> create_chunks chunkCount 0 txChunkCount s (s_spiTxBuf s);
       Some (s\<lparr>s_spiTxBuf := buf\<rparr>)
     }
   }"

section \<open>The frames still to be sent\<close>

text \<open>The queue seen from \<open>oaTxCurBufIdx\<close> instead of from its tail.\<close>

definition tx_rest :: "mac_state \<Rightarrow> adi_mac_Queue_t" where
  "tx_rest s = (m_txQueue s)\<lparr>q_tail := m_oaTxCurBufIdx s\<rparr>"

definition frame_of :: "mac_state \<Rightarrow> adi_mac_FrameStruct_t \<Rightarrow> u8 list" where
  "frame_of s e = (let d = s_bufs s (the (fs_pBufDesc e)) in take (bd_trxSize d) (bd_pBuf d))"

definition tx_frames :: "mac_state \<Rightarrow> u8 list list" where
  "tx_frames s = map (frame_of s) (queue_list (tx_rest s))"

definition tx_partial :: "mac_state \<Rightarrow> u8 list option" where
  "tx_partial s = (if m_oaTxCurBufByteOffset s = 0 then None
                   else Some (take (m_oaTxCurBufByteOffset s) (hd (tx_frames s))))"

text \<open>What the submit routine guarantees of a queued frame.\<close>

definition frame_ok :: "mac_state \<Rightarrow> adi_mac_FrameStruct_t \<Rightarrow> bool" where
  "frame_ok s e \<longleftrightarrow> (case fs_pBufDesc e of None \<Rightarrow> False
     | Some d \<Rightarrow> MIN_FRAME_SIZE \<le> bd_trxSize (s_bufs s d)
               \<and> bd_trxSize (s_bufs s d) \<le> MAX_FRAME_SIZE + FCS_SIZE
               \<and> bd_trxSize (s_bufs s d) \<le> length (bd_pBuf (s_bufs s d)))"

definition tx_wf :: "mac_state \<Rightarrow> bool" where
  "tx_wf s \<longleftrightarrow> queue_inv (tx_rest s) \<and> q_numEntries (m_txQueue s) = TX_QUEUE_NUM_ENTRIES_RAW \<and>
     list_all (frame_ok s) (queue_list (tx_rest s)) \<and> m_oaCps s \<in> {3, 4, 5, 6} \<and>
     (case tx_frames s of [] \<Rightarrow> m_oaTxCurBufByteOffset s = 0
      | f # _ \<Rightarrow> m_oaTxCurBufByteOffset s < length f)"

lemma chunkSize_cases:
  assumes "tx_wf s"
  shows "chunkSize s \<in> {8, 16, 32, 64}"
  using assms by (auto simp: tx_wf_def chunkSize_def)

lemma tx_frames_empty:
  assumes "tx_wf s"
  shows "tx_frames s = [] \<longleftrightarrow> m_oaTxCurBufIdx s = q_head (m_txQueue s)"
proof -
  have "queueIsEmpty (tx_rest s) \<longleftrightarrow> queue_list (tx_rest s) = []"
    using assms by (intro ring.empty_iff) (simp add: tx_wf_def)
  then show ?thesis by (auto simp: tx_frames_def queueIsEmpty_def tx_rest_def)
qed

lemma frame_ok_length: "frame_ok s e \<Longrightarrow> frame_of s e \<noteq> []"
  by (auto simp: frame_ok_def frame_of_def Let_def frame_sizes split: option.splits)

text \<open>The descriptor of the frame under way.\<close>

lemma tx_head:
  assumes "tx_wf s" and "m_oaTxCurBufIdx s \<noteq> q_head (m_txQueue s)"
  obtains d where "slot_desc (m_txQueue s) (m_oaTxCurBufIdx s) = Some d"
    and "tx_frames s = take (bd_trxSize (s_bufs s d)) (bd_pBuf (s_bufs s d)) #
           tx_frames (s\<lparr>m_oaTxCurBufIdx := TX_WRAP (m_oaTxCurBufIdx s), m_oaTxCurBufByteOffset := 0\<rparr>)"
    and "60 \<le> bd_trxSize (s_bufs s d)" and "bd_trxSize (s_bufs s d) \<le> 1522"
    and "bd_trxSize (s_bufs s d) \<le> length (bd_pBuf (s_bufs s d))"
    and "m_oaTxCurBufByteOffset s < bd_trxSize (s_bufs s d)"
    and "tx_wf (s\<lparr>m_oaTxCurBufIdx := TX_WRAP (m_oaTxCurBufIdx s), m_oaTxCurBufByteOffset := 0\<rparr>)"
    and "tx_rest (s\<lparr>m_oaTxCurBufIdx := TX_WRAP (m_oaTxCurBufIdx s), m_oaTxCurBufByteOffset := 0\<rparr>) =
           queueRemove (tx_rest s)"
proof -
  let ?s = "s\<lparr>m_oaTxCurBufIdx := TX_WRAP (m_oaTxCurBufIdx s), m_oaTxCurBufByteOffset := 0\<rparr>"
  have inv: "queue_inv (tx_rest s)" and n: "q_numEntries (m_txQueue s) = 5"
    using assms(1) by (simp_all add: tx_wf_def TX_QUEUE_NUM_ENTRIES_RAW_def)
  have ne: "\<not> queueIsEmpty (tx_rest s)"
    using assms(2) by (auto simp: queueIsEmpty_def tx_rest_def)
  have idx: "m_oaTxCurBufIdx s < 5"
    using inv n by (simp add: queue_inv_def tx_rest_def)
  have rest: "tx_rest ?s = queueRemove (tx_rest s)"
    using idx n by (auto simp: tx_rest_def queueRemove_def PSEUDO_MODULO_def TX_WRAP_def
        TX_QUEUE_NUM_ENTRIES_RAW_def)
  let ?e = "queueFront (tx_rest s)"
  have list: "queue_list (tx_rest s) = ?e # queue_list (tx_rest ?s)"
    unfolding rest by (rule queue_list_queueRemove [OF inv ne])
  have e: "?e = q_pEntries (m_txQueue s) ! m_oaTxCurBufIdx s" "m_oaTxCurBufIdx s < length (q_pEntries (m_txQueue s))"
    using inv n idx by (simp_all add: queueFront_def tx_rest_def queue_inv_def)
  have "frame_ok s ?e" using assms(1) by (simp add: tx_wf_def list)
  then obtain d where d: "fs_pBufDesc ?e = Some d" "60 \<le> bd_trxSize (s_bufs s d)"
    "bd_trxSize (s_bufs s d) \<le> 1522" "bd_trxSize (s_bufs s d) \<le> length (bd_pBuf (s_bufs s d))"
    by (auto simp: frame_ok_def frame_sizes split: option.splits)
  have frame_eq: "frame_of ?s = frame_of s" by (rule ext) (simp add: frame_of_def)
  have frames: "tx_frames s = take (bd_trxSize (s_bufs s d)) (bd_pBuf (s_bufs s d)) # tx_frames ?s"
    by (simp add: tx_frames_def list frame_eq) (simp add: frame_of_def Let_def d(1))
  have ok_eq: "frame_ok ?s = frame_ok s" by (rule ext) (simp add: frame_ok_def cong: option.case_cong)
  have wf': "tx_wf ?s"
    using assms(1) inv ne list frame_eq ok_eq frame_ok_length
    by (auto simp: tx_wf_def rest tx_frames_def queue_inv_queueRemove split: list.splits)
  show ?thesis
    using that [OF _ frames d(2-4) _ wf' rest] d(1,4) e frames assms(1)
    by (simp add: slot_desc_Some tx_wf_def)
qed

section \<open>One chunk\<close>

lemma oa_decode_chunk_set_P:
  "oa_decode_chunk (th_VALUE32 (th_set_P h)) payload cur =
     oa_step (th_DV h) (th_SV h) (th_EV h) (4 * unat (th_SWO h)) (unat (th_EBO h)) payload cur"
  by (simp add: oa_decode_chunk_def odd_popcount_th_set_P Let_def)

text \<open>The step of the driver's position in the queue by one chunk.\<close>

definition tx_at :: "mac_state \<Rightarrow> nat \<Rightarrow> nat \<Rightarrow> mac_state" where
  "tx_at s idx off = s\<lparr>m_oaTxCurBufIdx := idx, m_oaTxCurBufByteOffset := off\<rparr>"

lemma tx_at_simps [simp]:
  "m_oaTxCurBufIdx (tx_at s i n) = i" "m_oaTxCurBufByteOffset (tx_at s i n) = n"
  "m_txQueue (tx_at s i n) = m_txQueue s" "s_bufs (tx_at s i n) = s_bufs s"
  "chunkSize (tx_at s i n) = chunkSize s" "m_state (tx_at s i n) = m_state s"
  "m_oaCps (tx_at s i n) = m_oaCps s" "m_rxQueueLp (tx_at s i n) = m_rxQueueLp s"
  "tx_at (tx_at s i n) j m = tx_at s j m" "frame_of (tx_at s i n) = frame_of s"
  by (simp_all add: tx_at_def chunkSize_def frame_of_def [abs_def])

lemma tx_frames_tx_at: "tx_frames (tx_at s i n) = tx_frames (tx_at s i m)"
  by (simp add: tx_frames_def tx_rest_def)

lemma tx_frames_at_idx [simp]: "tx_frames (tx_at s (m_oaTxCurBufIdx s) n) = tx_frames s"
  by (simp add: tx_frames_def tx_rest_def)

lemma frame_ok_tx_at [simp]: "frame_ok (tx_at s i n) = frame_ok s"
  by (rule ext) (simp add: frame_ok_def cong: option.case_cong)

lemma tx_rest_tx_at [simp]: "tx_rest (tx_at s (m_oaTxCurBufIdx s) n) = tx_rest s"
  by (simp add: tx_rest_def)

lemma tx_wf_at_idx:
  "tx_wf s \<Longrightarrow> tx_frames s = f # fs \<Longrightarrow> n < length f \<Longrightarrow> tx_wf (tx_at s (m_oaTxCurBufIdx s) n)"
  by (simp add: tx_wf_def)

lemma chunk_current_frame_eq:
  assumes d: "slot_desc (m_txQueue s) (m_oaTxCurBufIdx s) = Some d"
    and sz: "bd_trxSize (s_bufs s d) \<le> 1522" "bd_trxSize (s_bufs s d) \<le> length (bd_pBuf (s_bufs s d))"
    and off: "m_oaTxCurBufByteOffset s < bd_trxSize (s_bufs s d)"
    and room: "pBuf + 4 + chunkSize s \<le> length buf"
    and bs: "bsize = min (chunkSize s) (bd_trxSize (s_bufs s d) - m_oaTxCurBufByteOffset s)"
    and hdr1: "hdr1 = (if m_oaTxCurBufByteOffset s = 0
        then hdr\<lparr>th_SV := True, th_SWO := 0, th_TMSC := bd_egressCapt (s_bufs s d),
                 th_VS := of_nat (bd_port (s_bufs s d)) AND 1\<rparr> else hdr)"
  shows "\<exists>buf1. mem_write buf (pBuf + 4)
        (take bsize (drop (m_oaTxCurBufByteOffset s) (bd_pBuf (s_bufs s d)))) = Some buf1 \<and>
     chunk_current_frame s buf pBuf hdr = Some
      (if bd_trxSize (s_bufs s d) - m_oaTxCurBufByteOffset s \<le> chunkSize s
       then (tx_at s (TX_WRAP (m_oaTxCurBufIdx s)) 0, buf1,
             hdr1\<lparr>th_EV := True, th_EBO := of_nat (bsize - 1)\<rparr>, bsize)
       else (tx_at s (m_oaTxCurBufIdx s) (m_oaTxCurBufByteOffset s + chunkSize s), buf1, hdr1, bsize))"
proof -
  have sub: "sub32 (bd_trxSize (s_bufs s d)) (m_oaTxCurBufByteOffset s) =
      bd_trxSize (s_bufs s d) - m_oaTxCurBufByteOffset s"
    using off sz(1) by (intro sub32_le) auto
  have "0 < chunkSize s" by (simp add: chunkSize_def)
  then have b1: "1 \<le> bsize" "bsize \<le> 1522" "bsize \<le> chunkSize s" using off sz(1) by (auto simp: bs)
  then have sub1: "sub32 bsize 1 = bsize - 1" by (intro sub32_le) auto
  have rd: "mem_read (bd_pBuf (s_bufs s d)) (m_oaTxCurBufByteOffset s) bsize =
      Some (take bsize (drop (m_oaTxCurBufByteOffset s) (bd_pBuf (s_bufs s d))))"
    using sz(2) off by (intro mem_read_ok) (auto simp: bs)
  obtain buf1 where wr: "mem_write buf (pBuf + 4)
        (take bsize (drop (m_oaTxCurBufByteOffset s) (bd_pBuf (s_bufs s d)))) = Some buf1"
    using room b1(3) by (cases "mem_write buf (pBuf + 4)
        (take bsize (drop (m_oaTxCurBufByteOffset s) (bd_pBuf (s_bufs s d))))")
      (auto simp: mem_write_None)
  obtain r where r: "bd_trxSize (s_bufs s d) - m_oaTxCurBufByteOffset s = r" by simp
  have bs': "(if chunkSize s < r then chunkSize s else r) = bsize"
    using r by (auto simp: bs)
  have cond: "r \<le> bsize \<longleftrightarrow> r \<le> chunkSize s"
    using r by (auto simp: bs)
  have more: "bsize = chunkSize s" if "\<not> r \<le> chunkSize s"
    using that r by (auto simp: bs)
  note core = chunk_current_frame_def ADI_SPI_HEADER_SIZE_def d sub r Let_def bs' cond hdr1 tx_at_def
  have rd': "mem_read (bd_pBuf (s_bufs s d)) 0 bsize = Some (take bsize (bd_pBuf (s_bufs s d)))"
    if "m_oaTxCurBufByteOffset s = 0"
    using rd by (simp add: that)
  show ?thesis
  proof (cases "r \<le> chunkSize s")
    case True
    then have "bsize = r" using r by (simp add: bs)
    with True show ?thesis
      using wr sub1 rd rd' by (simp add: core del: mem_read_Some)
  next
    case False
    then show ?thesis
      using wr sub1 rd rd' more [OF False] by (simp add: core del: mem_read_Some)
  qed
qed

lemma chunk_next_frame_none:
  "\<not> (4 \<le> chunkSize s - bsize \<and> m_oaTxCurBufIdx s \<noteq> q_head (m_txQueue s) \<and> \<not> th_SV hdr) \<Longrightarrow>
   chunk_next_frame s buf pBuf hdr bsize = Some (s, buf, hdr)"
  by (simp only: chunk_next_frame_def if_False)

text \<open>
  The word at which the next frame starts lies behind the end of the current one, and the
  next frame does not end in the chunk.
\<close>

lemma next_swo_bounds:
  assumes "cs \<in> {8, 16, 32, 64}" and "1 \<le> bsize" and "4 \<le> cs - bsize" and "60 \<le> (trx :: nat)"
    and "swo = (if trx + (bsize + 3) div 4 * 4 \<le> cs then (bsize + 3) div 4 + 1 else (bsize + 3) div 4)"
  shows "bsize \<le> swo * 4" and "swo * 4 < cs" and "swo \<le> 15" and "cs - swo * 4 < trx"
proof -
  have *: "bsize \<le> (bsize + 3) div 4 * 4" "(bsize + 3) div 4 * 4 \<le> bsize + 3" by linarith+
  have dvd: "(bsize + 3) div 4 * 4 \<le> cs - 4"
  proof -
    have "(bsize + 3) div 4 \<le> (cs - 4 + 3) div 4" using assms(3) by (intro div_le_mono) linarith
    then show ?thesis using assms(1) by auto
  qed
  show "bsize \<le> swo * 4" using * assms(5) by (auto split: if_splits)
  show "swo * 4 < cs" "swo \<le> 15" "cs - swo * 4 < trx"
    using assms(1-4) * dvd unfolding assms(5) by (auto split: if_splits)
qed

lemma chunk_next_frame_eq:
  assumes wf: "tx_wf s" and idx: "m_oaTxCurBufIdx s \<noteq> q_head (m_txQueue s)"
    and off: "m_oaTxCurBufByteOffset s = 0" and hdr: "th_EV hdr" "\<not> th_SV hdr"
    and bs: "1 \<le> bsize" "4 \<le> chunkSize s - bsize"
    and room: "pBuf + 4 + chunkSize s \<le> length buf"
  shows "\<exists>swo buf2 tmsc. bsize \<le> swo * 4 \<and> swo * 4 < chunkSize s \<and> swo \<le> 15 \<and>
     chunkSize s - swo * 4 < length (hd (tx_frames s)) \<and>
     mem_write buf (pBuf + 4 + swo * 4) (take (chunkSize s - swo * 4) (hd (tx_frames s))) = Some buf2 \<and>
     chunk_next_frame s buf pBuf hdr bsize =
       Some (tx_at s (m_oaTxCurBufIdx s) (chunkSize s - swo * 4), buf2,
             hdr\<lparr>th_SV := True, th_SWO := of_nat swo, th_TMSC := tmsc\<rparr>)"
proof -
  from tx_head [OF wf idx] obtain d fs where
    d: "slot_desc (m_txQueue s) (m_oaTxCurBufIdx s) = Some d"
    and frames: "tx_frames s = take (bd_trxSize (s_bufs s d)) (bd_pBuf (s_bufs s d)) # fs"
    and sz: "60 \<le> bd_trxSize (s_bufs s d)" "bd_trxSize (s_bufs s d) \<le> length (bd_pBuf (s_bufs s d))"
    by metis
  define swo where "swo = (if bd_trxSize (s_bufs s d) + (bsize + 3) div 4 * 4 \<le> chunkSize s
      then (bsize + 3) div 4 + 1 else (bsize + 3) div 4)"
  note b = next_swo_bounds [OF chunkSize_cases [OF wf] bs sz(1) swo_def]
  have cs: "chunkSize s < 2 ^ 32" using chunkSize_cases [OF wf] by auto
  have sub: "sub32 (chunkSize s) (swo * 4) = chunkSize s - swo * 4"
    using b(2) cs by (intro sub32_le) auto
  let ?bytes = "take (chunkSize s - swo * 4) (bd_pBuf (s_bufs s d))"
  have hd: "take (chunkSize s - swo * 4) (hd (tx_frames s)) = ?bytes"
    using b(4) by (simp add: frames min_def)
  have rd: "mem_read (bd_pBuf (s_bufs s d)) 0 (chunkSize s - swo * 4) = Some ?bytes"
    using b(4) sz(2) by (subst mem_read_ok) auto
  have lb: "length ?bytes = chunkSize s - swo * 4" using b(4) sz(2) by simp
  have "mem_write buf (pBuf + 4 + swo * 4) ?bytes \<noteq> None"
    using room b(2) lb unfolding mem_write_None by linarith
  then obtain buf2 where wr: "mem_write buf (pBuf + 4 + swo * 4) ?bytes = Some buf2" by auto
  have "chunk_next_frame s buf pBuf hdr bsize =
       Some (tx_at s (m_oaTxCurBufIdx s) (chunkSize s - swo * 4), buf2,
             hdr\<lparr>th_SV := True, th_SWO := of_nat swo, th_TMSC := bd_egressCapt (s_bufs s d)\<rparr>)"
    using hdr bs idx wr rd off
    unfolding chunk_next_frame_def ADI_SPI_HEADER_SIZE_def
    by (simp add: d Let_def swo_def [symmetric] sub tx_at_def del: mem_read_Some)
  moreover have "chunkSize s - swo * 4 < length (hd (tx_frames s))"
    using b(4) sz(2) by (simp add: frames)
  moreover have "mem_write buf (pBuf + 4 + swo * 4)
      (take (chunkSize s - swo * 4) (hd (tx_frames s))) = Some buf2"
    unfolding hd by (rule wr)
  ultimately show ?thesis
    using b(1-3) by (intro exI [of _ swo] exI [of _ buf2] exI conjI)
qed

text \<open>
  What one chunk does: the decoder recovers from it exactly the bytes by which the driver
  advances, and at most \<open>chunkSize\<close> of them.
\<close>

definition tx_bytes :: "mac_state \<Rightarrow> nat" where
  "tx_bytes s = sum_list (map length (tx_frames s)) - m_oaTxCurBufByteOffset s"

definition chunk_step ::
  "mac_state \<Rightarrow> mac_state \<Rightarrow> u8 list \<Rightarrow> adi_mac_OaTxHeader_t \<Rightarrow> bool" where
  "chunk_step s s' payload hdr \<longleftrightarrow>
     tx_wf s' \<and> s' = tx_at s (m_oaTxCurBufIdx s') (m_oaTxCurBufByteOffset s') \<and>
     tx_bytes s \<le> tx_bytes s' + chunkSize s \<and>
     tx_bytes s' \<le> tx_bytes s \<and> (th_DV hdr \<longrightarrow> tx_bytes s' < tx_bytes s) \<and>
     (th_EV hdr \<longrightarrow> th_DV hdr) \<and>
     (\<exists>out. oa_decode_chunk (th_VALUE32 (th_set_P hdr)) payload (tx_partial s) =
              Some (tx_partial s', out) \<and> tx_frames s = out @ tx_frames s' \<and>
            length out = (if th_EV hdr then 1 else 0) \<and>
            tx_rest s' = (queueRemove ^^ length out) (tx_rest s))"

lemma chunk_step_current:
  assumes wf: "tx_wf s" and frames: "tx_frames s = f # fs" and lf: "length f \<le> 1522"
    and more: "chunkSize s < length f - m_oaTxCurBufByteOffset s"
    and hdr: "th_DV hdr" "\<not> th_EV hdr" "th_SV hdr \<longleftrightarrow> m_oaTxCurBufByteOffset s = 0" "th_SWO hdr = 0"
    and payload: "payload = take (chunkSize s) (drop (m_oaTxCurBufByteOffset s) f)"
  shows "chunk_step s (tx_at s (m_oaTxCurBufIdx s) (m_oaTxCurBufByteOffset s + chunkSize s)) payload hdr"
proof -
  let ?s = "tx_at s (m_oaTxCurBufIdx s) (m_oaTxCurBufByteOffset s + chunkSize s)"
  have pos: "0 < chunkSize s" by (simp add: chunkSize_def)
  have lp: "length payload = chunkSize s" using more by (simp add: payload)
  have wf': "tx_wf ?s" using wf frames more by (intro tx_wf_at_idx) auto
  have "tx_partial ?s = Some (take (m_oaTxCurBufByteOffset s) f @ payload)"
    using pos by (simp add: tx_partial_def frames payload take_add)
  moreover have "oa_decode_chunk (th_VALUE32 (th_set_P hdr)) payload (tx_partial s) =
      Some (Some (take (m_oaTxCurBufByteOffset s) f @ payload), [])"
    by (cases "m_oaTxCurBufByteOffset s = 0")
      (simp_all add: oa_decode_chunk_set_P oa_steps hdr tx_partial_def frames)
  moreover have "tx_bytes s \<le> tx_bytes ?s + chunkSize s"
    by (simp add: tx_bytes_def)
  moreover have "tx_bytes ?s < tx_bytes s"
    using pos more by (simp add: tx_bytes_def frames)
  ultimately show ?thesis
    using wf' hdr by (simp add: chunk_step_def)
qed

lemma unat_EBO: "1 \<le> n \<Longrightarrow> n \<le> 64 \<Longrightarrow> unat (of_nat (n - 1) :: 6 word) = n - 1"
  by (subst unat_of_nat) simp

lemma unat_SWO: "n \<le> 15 \<Longrightarrow> unat (of_nat n :: 4 word) = n"
  by (subst unat_of_nat) simp

lemma chunk_step_end:
  assumes wf: "tx_wf s'" and s': "s' = tx_at s (TX_WRAP (m_oaTxCurBufIdx s)) 0"
    and rest: "tx_rest s' = queueRemove (tx_rest s)"
    and frames: "tx_frames s = f # tx_frames s'"
    and off: "m_oaTxCurBufByteOffset s < length f"
    and bs: "bsize = length f - m_oaTxCurBufByteOffset s" "bsize \<le> chunkSize s" "chunkSize s \<le> 64"
    and hdr: "th_DV hdr" "th_EV hdr" "th_SV hdr \<longleftrightarrow> m_oaTxCurBufByteOffset s = 0" "th_SWO hdr = 0"
      "th_EBO hdr = of_nat (bsize - 1)"
    and payload: "take bsize payload = drop (m_oaTxCurBufByteOffset s) f"
  shows "chunk_step s s' payload hdr"
proof -
  have b: "1 \<le> bsize" "bsize \<le> 64" using off bs by auto
  have ebo: "unat (th_EBO hdr) = bsize - 1" using unat_EBO [OF b] hdr(5) by simp
  have take: "take (Suc (bsize - 1)) payload = drop (m_oaTxCurBufByteOffset s) f"
    using b payload by simp
  have "oa_decode_chunk (th_VALUE32 (th_set_P hdr)) payload (tx_partial s) = Some (None, [f])"
    using take
    by (cases "m_oaTxCurBufByteOffset s = 0")
      (simp_all add: oa_decode_chunk_set_P oa_steps hdr(1-4) ebo tx_partial_def frames)
  moreover have "tx_partial s' = None" by (simp add: s' tx_partial_def)
  moreover have "tx_bytes s \<le> tx_bytes s' + chunkSize s"
    using bs off by (simp add: tx_bytes_def frames) (simp add: s')
  moreover have "tx_bytes s' < tx_bytes s"
    using b bs off by (simp add: tx_bytes_def frames)
  ultimately show ?thesis
    using wf frames s' rest hdr by (simp add: chunk_step_def)
qed

lemma chunk_step_end_next:
  assumes wf: "tx_wf s1" and s1: "s1 = tx_at s (TX_WRAP (m_oaTxCurBufIdx s)) 0"
    and rest: "tx_rest s1 = queueRemove (tx_rest s)"
    and frames: "tx_frames s = f # tx_frames s1" "tx_frames s1 = g # gs"
    and off: "0 < m_oaTxCurBufByteOffset s" "m_oaTxCurBufByteOffset s < length f"
    and bs: "bsize = length f - m_oaTxCurBufByteOffset s" "bsize \<le> swo * 4"
    and swo: "swo \<le> 15" "swo * 4 < chunkSize s" "chunkSize s - swo * 4 < length g"
    and hdr: "th_DV hdr" "th_EV hdr" "th_SV hdr" "th_SWO hdr = of_nat swo"
      "th_EBO hdr = of_nat (bsize - 1)"
    and payload: "take bsize payload = drop (m_oaTxCurBufByteOffset s) f"
      "drop (swo * 4) payload = take (chunkSize s - swo * 4) g"
  shows "chunk_step s (tx_at s (TX_WRAP (m_oaTxCurBufIdx s)) (chunkSize s - swo * 4)) payload hdr"
proof -
  let ?s = "tx_at s (TX_WRAP (m_oaTxCurBufIdx s)) (chunkSize s - swo * 4)"
  have s2: "?s = tx_at s1 (m_oaTxCurBufIdx s1) (chunkSize s1 - swo * 4)" by (simp add: s1)
  have b: "1 \<le> bsize" "bsize \<le> 64" using off bs swo by auto
  have ebo: "unat (th_EBO hdr) = bsize - 1" using unat_EBO [OF b] hdr(5) by simp
  have take: "take (Suc (bsize - 1)) payload = drop (m_oaTxCurBufByteOffset s) f"
    using b payload by simp
  have frames': "tx_frames ?s = tx_frames s1" by (simp only: s2 tx_frames_at_idx)
  have wf': "tx_wf ?s"
    unfolding s2 using wf frames(2) swo(3) by (intro tx_wf_at_idx) (auto simp: s1)
  have "oa_decode_chunk (th_VALUE32 (th_set_P hdr)) payload (tx_partial s) =
      Some (Some (take (chunkSize s - swo * 4) g), [f])"
    using take bs(2) b(1) payload(2) off
    by (simp add: oa_decode_chunk_set_P oa_steps hdr(1-4) ebo unat_SWO [OF swo(1)] tx_partial_def
        frames mult.commute)
  moreover have "tx_partial ?s = Some (take (chunkSize s - swo * 4) g)"
    using swo(2) by (simp add: tx_partial_def frames' frames(2))
  moreover have "tx_bytes s \<le> tx_bytes ?s + chunkSize s"
    using bs off swo by (simp add: tx_bytes_def frames' frames)
  moreover have "tx_bytes ?s < tx_bytes s"
    using bs off swo by (simp add: tx_bytes_def frames' frames)
  moreover have "tx_rest ?s = queueRemove (tx_rest s)" unfolding s2 using rest by simp
  ultimately show ?thesis
    using wf' frames frames' hdr by (simp add: chunk_step_def)
qed

subsection \<open>The buffer\<close>

text \<open>Writing the header leaves the payload, and the chunk leaves the rest of the buffer.\<close>

lemma le_word32_slice:
  assumes "mem_write buf p (le_bytes32 w) = Some buf'"
  shows "le_word32 (take 4 (drop p buf')) = w"
  using slice_write_same [OF assms, of 4] by simp

lemma take_eq_of_slice: "take n xs = take n (drop 0 xs)"
  by simp

lemma mem_write_before:
  "mem_write dst off bs = Some dst' \<Longrightarrow> p \<le> off \<Longrightarrow> take p dst' = take p dst"
  by (rule take_mem_write_below)

text \<open>The header a chunk with data starts from, and the state behind the current frame.\<close>

definition data_header :: "mac_state \<Rightarrow> adi_mac_OaTxHeader_t" where
  "data_header s = th_zero\<lparr>th_DNC := True, th_NORX := (m_oaRxUseBackupBuf s \<or> queueIsEmpty (m_rxQueueLp s)), th_DV := True\<rparr>"

abbreviation behind_frame :: "mac_state \<Rightarrow> mac_state" where
  "behind_frame s \<equiv> tx_at s (TX_WRAP (m_oaTxCurBufIdx s)) 0"

text \<open>What \<open>chunk_current_frame\<close> does with the current frame \<open>f\<close>.\<close>

definition current_part ::
  "mac_state \<Rightarrow> u8 list \<Rightarrow> nat \<Rightarrow> u8 list \<Rightarrow> adi_mac_OaTxHeader_t \<Rightarrow> nat \<Rightarrow> u8 list \<Rightarrow> bool" where
  "current_part s buf pBuf f hdr1 bsize buf1 \<longleftrightarrow>
     tx_frames s = f # tx_frames (behind_frame s) \<and> length f \<le> 1522 \<and> m_oaTxCurBufByteOffset s < length f \<and>
     tx_wf (behind_frame s) \<and> tx_rest (behind_frame s) = queueRemove (tx_rest s) \<and>
     th_DV hdr1 \<and> \<not> th_EV hdr1 \<and> (th_SV hdr1 \<longleftrightarrow> m_oaTxCurBufByteOffset s = 0) \<and> th_SWO hdr1 = 0 \<and>
     bsize = min (chunkSize s) (length f - m_oaTxCurBufByteOffset s) \<and>
     mem_write buf (pBuf + 4) (take bsize (drop (m_oaTxCurBufByteOffset s) f)) = Some buf1 \<and>
     chunk_current_frame s buf pBuf (data_header s) = Some
       (if length f - m_oaTxCurBufByteOffset s \<le> chunkSize s
        then (behind_frame s, buf1, hdr1\<lparr>th_EV := True, th_EBO := of_nat (bsize - 1)\<rparr>, bsize)
        else (tx_at s (m_oaTxCurBufIdx s) (m_oaTxCurBufByteOffset s + chunkSize s), buf1, hdr1, bsize))"

lemma current_part_exists:
  assumes wf: "tx_wf s" and idx: "m_oaTxCurBufIdx s \<noteq> q_head (m_txQueue s)"
    and room: "pBuf + 4 + chunkSize s \<le> length buf"
  shows "\<exists>f hdr1 bsize buf1. current_part s buf pBuf f hdr1 bsize buf1"
proof -
  from tx_head [OF wf idx, folded tx_at_def] obtain d where
    d: "slot_desc (m_txQueue s) (m_oaTxCurBufIdx s) = Some d"
    and frames: "tx_frames s = take (bd_trxSize (s_bufs s d)) (bd_pBuf (s_bufs s d)) # tx_frames (behind_frame s)"
    and sz: "bd_trxSize (s_bufs s d) \<le> 1522" "bd_trxSize (s_bufs s d) \<le> length (bd_pBuf (s_bufs s d))"
    and off: "m_oaTxCurBufByteOffset s < bd_trxSize (s_bufs s d)"
    and behind: "tx_wf (behind_frame s)" "tx_rest (behind_frame s) = queueRemove (tx_rest s)"
    by blast
  define f where "f = take (bd_trxSize (s_bufs s d)) (bd_pBuf (s_bufs s d))"
  define bsize where "bsize = min (chunkSize s) (length f - m_oaTxCurBufByteOffset s)"
  have lf: "length f = bd_trxSize (s_bufs s d)" using sz by (simp add: f_def)
  have bytes: "take bsize (drop (m_oaTxCurBufByteOffset s) (bd_pBuf (s_bufs s d))) = take bsize (drop (m_oaTxCurBufByteOffset s) f)"
    by (simp add: f_def bsize_def lf drop_take min_def)
  define hdr1 where "hdr1 = (if m_oaTxCurBufByteOffset s = 0
    then (data_header s)\<lparr>th_SV := True, th_SWO := 0, th_TMSC := bd_egressCapt (s_bufs s d),
      th_VS := of_nat (bd_port (s_bufs s d)) AND 1\<rparr> else data_header s)"
  have "\<exists>buf1. current_part s buf pBuf f hdr1 bsize buf1"
    using chunk_current_frame_eq [OF d sz off room bsize_def [unfolded lf] hdr1_def] frames behind sz off
    unfolding current_part_def bytes lf bsize_def [symmetric, unfolded lf] f_def [symmetric]
    by (auto simp: hdr1_def data_header_def th_zero_def lf bsize_def)
  then show ?thesis by blast
qed

text \<open>It is enough to know what the two parts of the chunk compute.\<close>

lemma chunk_with_header:
  assumes "chunk_current_frame s buf pBuf (data_header s) = Some (sA, buf1, hdrA, bsize)"
    and "chunk_next_frame sA buf1 pBuf hdrA bsize = Some (s', buf2, hdr)"
    and "m_oaTxCurBufIdx s \<noteq> q_head (m_txQueue s)" and "pBuf + 4 + chunkSize s \<le> length buf"
    and b2: "length buf2 = length buf" "take pBuf buf2 = take pBuf buf" and dv: "th_DV hdr"
    and st: "chunk_step s s' (take (chunkSize s) (drop (pBuf + 4) buf2)) hdr"
  shows "\<exists>s' buf' hdr. oaCreateNextChunk s buf pBuf True = Some (s', buf') \<and>
      length buf' = length buf \<and> take pBuf buf' = take pBuf buf \<and>
      HTON32 (le_word32 (take 4 (drop pBuf buf'))) = th_VALUE32 (th_set_P hdr) \<and> th_DV hdr \<and>
      chunk_step s s' (take (chunkSize s) (drop (pBuf + 4) buf')) hdr"
proof -
  have "mem_write buf2 pBuf (le_bytes32 (HTON32 (th_VALUE32 (th_set_P hdr)))) \<noteq> None"
    using assms(4) b2(1) by (simp add: mem_write_None)
  then obtain buf' where w: "mem_write buf2 pBuf (le_bytes32 (HTON32 (th_VALUE32 (th_set_P hdr)))) = Some buf'"
    by auto
  have "oaCreateNextChunk s buf pBuf True = Some (s', buf')"
    using assms(1-3) w by (simp add: oaCreateNextChunk_def Let_def data_header_def)
  moreover have "length buf' = length buf" using mem_write_length [OF w] b2(1) by simp
  moreover have "take pBuf buf' = take pBuf buf" using mem_write_before [OF w] b2(2) by simp
  moreover have "take (chunkSize s) (drop (pBuf + 4) buf') = take (chunkSize s) (drop (pBuf + 4) buf2)"
    by (rule slice_write_other [OF w]) simp
  moreover note le_word32_slice [OF w]
  ultimately show ?thesis using st dv by auto
qed

text \<open>The three kinds of chunk: the frame goes on, it ends, or it ends and the next one starts.\<close>

lemma chunk_goes_on:
  assumes wf: "tx_wf s" and cur: "current_part s buf pBuf f hdr1 bsize buf1"
    and more: "\<not> length f - m_oaTxCurBufByteOffset s \<le> chunkSize s"
  defines "s' \<equiv> tx_at s (m_oaTxCurBufIdx s) (m_oaTxCurBufByteOffset s + chunkSize s)"
  shows "chunk_next_frame s' buf1 pBuf hdr1 bsize = Some (s', buf1, hdr1)"
    and "chunk_step s s' (take (chunkSize s) (drop (pBuf + 4) buf1)) hdr1"
proof -
  have b: "bsize = chunkSize s" using cur more by (simp add: current_part_def)
  show "chunk_next_frame s' buf1 pBuf hdr1 bsize = Some (s', buf1, hdr1)"
    by (rule chunk_next_frame_none) (simp add: b s'_def)
  have w: "mem_write buf (pBuf + 4) (take bsize (drop (m_oaTxCurBufByteOffset s) f)) = Some buf1"
    using cur unfolding current_part_def by blast
  show "chunk_step s s' (take (chunkSize s) (drop (pBuf + 4) buf1)) hdr1"
    unfolding s'_def using wf cur more slice_write_same [OF w, of "chunkSize s"]
    by (intro chunk_step_current [where f = f]) (auto simp: b current_part_def)
qed

text \<open>The header of a chunk in which the frame ends, and the bytes of the frame in the buffer.\<close>

definition end_header :: "adi_mac_OaTxHeader_t \<Rightarrow> nat \<Rightarrow> adi_mac_OaTxHeader_t" where
  "end_header hdr1 bsize = hdr1\<lparr>th_EV := True, th_EBO := of_nat (bsize - 1)\<rparr>"

lemma current_part_end:
  assumes cur: "current_part s buf pBuf f hdr1 bsize buf1" and le: "length f - m_oaTxCurBufByteOffset s \<le> chunkSize s"
  shows "bsize = length f - m_oaTxCurBufByteOffset s" "1 \<le> bsize" "bsize \<le> chunkSize s"
    and "chunk_current_frame s buf pBuf (data_header s) = Some (behind_frame s, buf1, end_header hdr1 bsize, bsize)"
    and "take bsize (drop (pBuf + 4) buf1) = drop (m_oaTxCurBufByteOffset s) f"
    and "th_DV (end_header hdr1 bsize)" "th_EV (end_header hdr1 bsize)"
      "th_SV (end_header hdr1 bsize) \<longleftrightarrow> m_oaTxCurBufByteOffset s = 0" "th_SWO (end_header hdr1 bsize) = 0"
      "th_EBO (end_header hdr1 bsize) = of_nat (bsize - 1)"
proof -
  have off: "m_oaTxCurBufByteOffset s < length f" using cur by (simp add: current_part_def)
  show b: "bsize = length f - m_oaTxCurBufByteOffset s" using cur le by (simp add: current_part_def)
  show "1 \<le> bsize" "bsize \<le> chunkSize s" using b off le by simp_all
  show "chunk_current_frame s buf pBuf (data_header s) = Some (behind_frame s, buf1, end_header hdr1 bsize, bsize)"
    using cur le by (simp add: current_part_def end_header_def)
  have w: "mem_write buf (pBuf + 4) (take bsize (drop (m_oaTxCurBufByteOffset s) f)) = Some buf1"
    using cur unfolding current_part_def by blast
  show "take bsize (drop (pBuf + 4) buf1) = drop (m_oaTxCurBufByteOffset s) f"
    using slice_write_same [OF w, of bsize] b by simp
qed (use cur in \<open>simp_all add: end_header_def current_part_def\<close>)

lemma chunk_ends:
  assumes cur: "current_part s buf pBuf f hdr1 bsize buf1" and le: "length f - m_oaTxCurBufByteOffset s \<le> chunkSize s"
    and cs: "chunkSize s \<le> 64"
  shows "chunk_step s (behind_frame s) (take (chunkSize s) (drop (pBuf + 4) buf1)) (end_header hdr1 bsize)"
proof -
  note e = current_part_end [OF cur le]
  have "take bsize (take (chunkSize s) (drop (pBuf + 4) buf1)) = drop (m_oaTxCurBufByteOffset s) f"
    using e(3,5) by (simp add: min_absorb1)
  then show ?thesis
    using cur cs e unfolding current_part_def
    by (intro chunk_step_end [where f = f and bsize = bsize]) auto
qed

lemma chunk_ends_and_next:
  assumes cur: "current_part s buf pBuf f hdr1 bsize buf1" and le: "length f - m_oaTxCurBufByteOffset s \<le> chunkSize s"
    and room: "pBuf + 4 + chunkSize s \<le> length buf1"
    and next2: "4 \<le> chunkSize s - bsize" "m_oaTxCurBufIdx (behind_frame s) \<noteq> q_head (m_txQueue s)"
      "\<not> th_SV (end_header hdr1 bsize)"
  shows "\<exists>s' buf2 hdr. chunk_next_frame (behind_frame s) buf1 pBuf (end_header hdr1 bsize) bsize = Some (s', buf2, hdr) \<and>
     length buf2 = length buf1 \<and> take pBuf buf2 = take pBuf buf1 \<and> th_DV hdr \<and>
     chunk_step s s' (take (chunkSize s) (drop (pBuf + 4) buf2)) hdr"
proof -
  let ?s1 = "behind_frame s" and ?hdrE = "end_header hdr1 bsize"
  note e = current_part_end [OF cur le]
  have wf1: "tx_wf ?s1" and behind: "tx_frames s = f # tx_frames ?s1" "tx_rest ?s1 = queueRemove (tx_rest s)"
      "m_oaTxCurBufByteOffset s < length f"
    using cur by (simp_all add: current_part_def)
  have "tx_frames ?s1 \<noteq> []" using tx_frames_empty [OF wf1] next2(2) by simp
  then obtain g gs where g: "tx_frames ?s1 = g # gs" by (cases "tx_frames ?s1") auto
  obtain swo buf2 tmsc where n: "bsize \<le> swo * 4" "swo * 4 < chunkSize s" "swo \<le> 15" "chunkSize s - swo * 4 < length g"
    and w2: "mem_write buf1 (pBuf + 4 + swo * 4) (take (chunkSize s - swo * 4) g) = Some buf2"
    and nx: "chunk_next_frame ?s1 buf1 pBuf ?hdrE bsize =
      Some (tx_at ?s1 (m_oaTxCurBufIdx ?s1) (chunkSize ?s1 - swo * 4), buf2,
        ?hdrE\<lparr>th_SV := True, th_SWO := of_nat swo, th_TMSC := tmsc\<rparr>)"
    using chunk_next_frame_eq [of ?s1 ?hdrE bsize pBuf buf1] next2 wf1 e room g by auto
  have l2: "length (take (chunkSize s - swo * 4) g) = chunkSize s - swo * 4" using n by simp
  have p1: "take bsize (take (chunkSize s) (drop (pBuf + 4) buf2)) = drop (m_oaTxCurBufByteOffset s) f"
    using slice_write_other [OF w2, of "pBuf + 4" bsize] n(1) e(3,5) by (simp add: min_absorb1)
  have p2: "drop (swo * 4) (take (chunkSize s) (drop (pBuf + 4) buf2)) = take (chunkSize s - swo * 4) g"
    using slice_write_same [OF w2 l2 [symmetric]] by (simp add: drop_take add.commute)
  have "chunk_step s (tx_at s (TX_WRAP (m_oaTxCurBufIdx s)) (chunkSize s - swo * 4))
      (take (chunkSize s) (drop (pBuf + 4) buf2)) (?hdrE\<lparr>th_SV := True, th_SWO := of_nat swo, th_TMSC := tmsc\<rparr>)"
    using wf1 behind g e n p1 p2 next2(3)
    by (intro chunk_step_end_next [where f = f and bsize = bsize and ?s1.0 = ?s1 and g = g and gs = gs]) auto
  then show ?thesis
    using nx mem_write_length [OF w2] mem_write_before [OF w2] e(6) by auto
qed

theorem oaCreateNextChunk_step:
  assumes wf: "tx_wf s" and idx: "m_oaTxCurBufIdx s \<noteq> q_head (m_txQueue s)"
    and room: "pBuf + 4 + chunkSize s \<le> length buf"
  shows "\<exists>s' buf' hdr. oaCreateNextChunk s buf pBuf True = Some (s', buf') \<and>
      length buf' = length buf \<and> take pBuf buf' = take pBuf buf \<and>
      HTON32 (le_word32 (take 4 (drop pBuf buf'))) = th_VALUE32 (th_set_P hdr) \<and> th_DV hdr \<and>
      chunk_step s s' (take (chunkSize s) (drop (pBuf + 4) buf')) hdr"
proof -
  obtain f hdr1 bsize buf1 where cur: "current_part s buf pBuf f hdr1 bsize buf1"
    using current_part_exists [OF wf idx room] by blast
  then have w1: "mem_write buf (pBuf + 4) (take bsize (drop (m_oaTxCurBufByteOffset s) f)) = Some buf1" and dv: "th_DV hdr1"
    unfolding current_part_def by blast+
  have l1: "length buf1 = length buf" "take pBuf buf1 = take pBuf buf"
    using mem_write_length [OF w1] mem_write_before [OF w1] by simp_all
  show ?thesis
  proof (cases "length f - m_oaTxCurBufByteOffset s \<le> chunkSize s")
    case False
    note on = chunk_goes_on [OF wf cur False]
    have "chunk_current_frame s buf pBuf (data_header s) =
        Some (tx_at s (m_oaTxCurBufIdx s) (m_oaTxCurBufByteOffset s + chunkSize s), buf1, hdr1, bsize)"
      using cur False by (simp add: current_part_def)
    from chunk_with_header [OF this on(1) idx room l1 dv on(2)] show ?thesis .
  next
    case le: True
    note e = current_part_end [OF cur le]
    show ?thesis
    proof (cases "4 \<le> chunkSize s - bsize \<and> m_oaTxCurBufIdx (behind_frame s) \<noteq> q_head (m_txQueue s) \<and>
        \<not> th_SV (end_header hdr1 bsize)")
      case False
      have "chunk_next_frame (behind_frame s) buf1 pBuf (end_header hdr1 bsize) bsize =
          Some (behind_frame s, buf1, end_header hdr1 bsize)"
        using False by (intro chunk_next_frame_none) simp
      moreover have "chunk_step s (behind_frame s) (take (chunkSize s) (drop (pBuf + 4) buf1)) (end_header hdr1 bsize)"
        using chunk_ends [OF cur le] chunkSize_cases [OF wf] by auto
      ultimately show ?thesis using chunk_with_header [OF e(4) _ idx room l1 e(6)] by blast
    next
      case True
      then obtain s' buf2 hdr where
        "chunk_next_frame (behind_frame s) buf1 pBuf (end_header hdr1 bsize) bsize = Some (s', buf2, hdr)"
        "length buf2 = length buf" "take pBuf buf2 = take pBuf buf" "th_DV hdr"
        "chunk_step s s' (take (chunkSize s) (drop (pBuf + 4) buf2)) hdr"
        using chunk_ends_and_next [OF cur le] room l1 by auto
      from chunk_with_header [OF e(4) this(1) idx room this(2-5)] show ?thesis .
    qed
  qed
qed

text \<open>A chunk without transmit data leaves the decoder where it is.\<close>

lemma oaCreateNextChunk_empty:
  assumes "tx_wf s" and "pBuf + 4 + chunkSize s \<le> length buf"
  shows "\<exists>buf' hdr. oaCreateNextChunk s buf pBuf False = Some (s, buf') \<and>
      length buf' = length buf \<and> take pBuf buf' = take pBuf buf \<and>
      HTON32 (le_word32 (take 4 (drop pBuf buf'))) = th_VALUE32 (th_set_P hdr) \<and> \<not> th_DV hdr \<and>
      chunk_step s s (take (chunkSize s) (drop (pBuf + 4) buf')) hdr"
proof -
  define hdr where "hdr = th_zero\<lparr>th_DNC := True, th_NORX :=
      (m_oaRxUseBackupBuf s \<or> queueIsEmpty (m_rxQueueLp s)), th_DV := False\<rparr>"
  have "mem_write buf pBuf (le_bytes32 (HTON32 (th_VALUE32 (th_set_P hdr)))) \<noteq> None"
    using assms(2) by (simp add: mem_write_None)
  then obtain buf' where w: "mem_write buf pBuf (le_bytes32 (HTON32 (th_VALUE32 (th_set_P hdr)))) = Some buf'"
    by auto
  have "oaCreateNextChunk s buf pBuf False = Some (s, buf')"
    using w by (simp add: oaCreateNextChunk_def Let_def hdr_def)
  moreover have dv: "\<not> th_DV hdr" "\<not> th_EV hdr" by (simp_all add: hdr_def th_zero_def)
  then have "chunk_step s s payload hdr" for payload
    using assms(1) by (simp add: chunk_step_def oa_decode_chunk_set_P Let_def tx_at_def)
  moreover note le_word32_slice [OF w] mem_write_length [OF w] mem_write_before [OF w]
  ultimately show ?thesis using dv by auto
qed

section \<open>A transaction\<close>

text \<open>The frames still to be sent depend on the queue, the position in it and the queued buffers.\<close>

lemma tx_cong:
  assumes "tx_rest t = tx_rest s" and "m_oaTxCurBufByteOffset t = m_oaTxCurBufByteOffset s"
    and "m_oaCps t = m_oaCps s"
    and "\<And>e. e \<in> set (queue_list (tx_rest s)) \<Longrightarrow> frame_of t e = frame_of s e \<and> frame_ok t e = frame_ok s e"
  shows "tx_frames t = tx_frames s" and "tx_wf t = tx_wf s" and "tx_partial t = tx_partial s"
    and "tx_bytes t = tx_bytes s"
proof -
  have n: "q_numEntries (m_txQueue t) = q_numEntries (m_txQueue s)"
    using arg_cong [where f = q_numEntries, OF assms(1)] by (simp add: tx_rest_def)
  show fr: "tx_frames t = tx_frames s" using assms(1,4) by (simp add: tx_frames_def)
  have "list_all (frame_ok t) (queue_list (tx_rest s)) = list_all (frame_ok s) (queue_list (tx_rest s))"
    using assms(4) by (simp add: list_all_iff)
  then show "tx_wf t = tx_wf s" unfolding tx_wf_def fr n assms(1-3) by simp
  show "tx_partial t = tx_partial s" "tx_bytes t = tx_bytes s"
    by (simp_all add: tx_partial_def tx_bytes_def fr assms(2))
qed

lemma frame_cong: "s_bufs t = s_bufs s \<Longrightarrow> frame_of t e = frame_of s e \<and> frame_ok t e = frame_ok s e"
  by (simp add: frame_of_def frame_ok_def cong: option.case_cong)

lemma tx_trx_simps [simp]:
  "tx_rest (s\<lparr>m_oaTrxSize := n\<rparr>) = tx_rest s" "chunkSize (s\<lparr>m_oaTrxSize := n\<rparr>) = chunkSize s"
  "tx_frames (s\<lparr>m_oaTrxSize := n\<rparr>) = tx_frames s" "tx_wf (s\<lparr>m_oaTrxSize := n\<rparr>) = tx_wf s"
  "tx_partial (s\<lparr>m_oaTrxSize := n\<rparr>) = tx_partial s" "tx_bytes (s\<lparr>m_oaTrxSize := n\<rparr>) = tx_bytes s"
proof -
  show "tx_rest (s\<lparr>m_oaTrxSize := n\<rparr>) = tx_rest s" "chunkSize (s\<lparr>m_oaTrxSize := n\<rparr>) = chunkSize s"
    by (simp_all add: tx_rest_def chunkSize_def)
qed (intro tx_cong frame_cong; simp add: tx_rest_def)+

lemma tx_buffer_simps [simp]:
  "tx_rest (s\<lparr>s_spiTxBuf := b\<rparr>) = tx_rest s" "tx_frames (s\<lparr>s_spiTxBuf := b\<rparr>) = tx_frames s"
  "tx_wf (s\<lparr>s_spiTxBuf := b\<rparr>) = tx_wf s" "tx_partial (s\<lparr>s_spiTxBuf := b\<rparr>) = tx_partial s"
  "tx_bytes (s\<lparr>s_spiTxBuf := b\<rparr>) = tx_bytes s"
proof -
  show "tx_rest (s\<lparr>s_spiTxBuf := b\<rparr>) = tx_rest s" by (simp add: tx_rest_def)
qed (intro tx_cong frame_cong; simp add: tx_rest_def)+

lemma slice_of_take_eq:
  assumes "take m xs = take m ys" and "off + k \<le> m"
  shows "take k (drop off xs) = take k (drop off ys)"
proof -
  have "take k (drop off (take m xs)) = take k (drop off (take m ys))" by (simp only: assms(1))
  then show ?thesis using assms(2) by (simp add: drop_take min_def split: if_splits)
qed

lemma tx_bytes_pos:
  assumes "tx_wf s" and "0 < tx_bytes s"
  shows "m_oaTxCurBufIdx s \<noteq> q_head (m_txQueue s)"
  using tx_frames_empty [OF assms(1)] assms(2) by (auto simp: tx_bytes_def)

text \<open>The number of chunks of the transaction that carry data, and so use a transmit credit.\<close>

fun tx_data_chunks :: "nat \<Rightarrow> nat \<Rightarrow> u8 list \<Rightarrow> nat" where
  "tx_data_chunks 0 cs bs = 0"
| "tx_data_chunks (Suc n) cs bs =
     (if th_DV (th_of_VALUE32 (HTON32 (le_word32 (take 4 bs)))) then 1 else 0)
     + tx_data_chunks n cs (drop (4 + cs) bs)"

text \<open>
  A run of chunks advances the driver from \<open>s\<close> to \<open>s'\<close>, and the decoder that has recovered
  what was sent before \<open>s\<close> recovers what was sent up to \<open>s'\<close>.
\<close>

definition tx_moves :: "mac_state \<Rightarrow> mac_state \<Rightarrow> bool" where
  "tx_moves s s' \<longleftrightarrow>
     s' = (tx_at s (m_oaTxCurBufIdx s') (m_oaTxCurBufByteOffset s'))\<lparr>m_oaTrxSize := m_oaTrxSize s'\<rparr>"

lemma tx_moves_step:
  assumes "s1 = tx_at s i n" and "tx_moves (s1\<lparr>m_oaTrxSize := k\<rparr>) s'"
  shows "tx_moves s s'"
  using assms(2) unfolding tx_moves_def assms(1) tx_at_def by simp

lemma oaCreateNextChunk_any:
  assumes wf: "tx_wf s" and data: "txEn \<Longrightarrow> 0 < tx_bytes s" and room: "pBuf + 4 + chunkSize s \<le> length buf"
  shows "\<exists>s' buf' hdr. oaCreateNextChunk s buf pBuf txEn = Some (s', buf') \<and>
      length buf' = length buf \<and> take pBuf buf' = take pBuf buf \<and>
      HTON32 (le_word32 (take 4 (drop pBuf buf'))) = th_VALUE32 (th_set_P hdr) \<and> (th_DV hdr \<longleftrightarrow> txEn) \<and>
      chunk_step s s' (take (chunkSize s) (drop (pBuf + 4) buf')) hdr"
proof (cases txEn)
  case True
  from oaCreateNextChunk_step [OF wf tx_bytes_pos [OF wf data [OF True]] room] True show ?thesis by simp
next
  case False
  with oaCreateNextChunk_empty [OF wf room] show ?thesis by (metis (full_types))
qed

text \<open>What later chunks leave of the first one decides how the decoder begins.\<close>

lemma decode_first_chunk:
  assumes same: "take (p + 4 + cs) buf' = take (p + 4 + cs) buf1"
    and h1: "HTON32 (le_word32 (take 4 (drop p buf1))) = th_VALUE32 (th_set_P hdr)"
    and dec1: "oa_decode_chunk (th_VALUE32 (th_set_P hdr)) (take cs (drop (p + 4) buf1)) partial0 = Some (partial1, out)"
    and ends: "length out = (if th_EV hdr then 1 else 0)"
  shows "oa_decode n cs (drop (p + 4 + cs) buf') partial1 = Some (partial2, outs) \<Longrightarrow>
      oa_decode (Suc n) cs (drop p buf') partial0 = Some (partial2, out @ outs)"
    and "tx_data_chunks (Suc n) cs (drop p buf') = of_bool (th_DV hdr) + tx_data_chunks n cs (drop (p + 4 + cs) buf')"
    and "tx_ends (Suc n) cs (drop p buf') = length out + tx_ends n cs (drop (p + 4 + cs) buf')"
proof -
  have first: "take 4 (drop p buf') = take 4 (drop p buf1)" "take cs (drop (p + 4) buf') = take cs (drop (p + 4) buf1)"
    by (rule slice_of_take_eq [OF same], simp)+
  show "oa_decode n cs (drop (p + 4 + cs) buf') partial1 = Some (partial2, outs) \<Longrightarrow>
      oa_decode (Suc n) cs (drop p buf') partial0 = Some (partial2, out @ outs)"
    using h1 dec1 first by (simp add: add.commute add.left_commute)
  show "tx_data_chunks (Suc n) cs (drop p buf') = of_bool (th_DV hdr) + tx_data_chunks n cs (drop (p + 4 + cs) buf')"
    using h1 first by (simp add: add.commute add.left_commute)
  have "header_ends (drop p buf') \<longleftrightarrow> th_EV hdr" using first(1) h1 by (simp add: header_ends_def)
  then show "tx_ends (Suc n) cs (drop p buf') = length out + tx_ends n cs (drop (p + 4 + cs) buf')"
    using ends by (simp add: add.commute add.left_commute)
qed

lemma create_chunks_decode:
  assumes "tx_wf s" and "m_oaTrxSize s + n * (4 + chunkSize s) \<le> length buf"
    and "\<And>j. j < n \<Longrightarrow> i + j < txc \<Longrightarrow> j * chunkSize s < tx_bytes s"
  shows "\<exists>s' buf' outs. create_chunks n i txc s buf = Some (s', buf') \<and>
     length buf' = length buf \<and> take (m_oaTrxSize s) buf' = take (m_oaTrxSize s) buf \<and>
     m_oaTrxSize s' = m_oaTrxSize s + n * (4 + chunkSize s) \<and>
     oa_decode n (chunkSize s) (drop (m_oaTrxSize s) buf') (tx_partial s) = Some (tx_partial s', outs) \<and>
     tx_frames s = outs @ tx_frames s' \<and> tx_wf s' \<and> tx_moves s s' \<and>
     tx_data_chunks n (chunkSize s) (drop (m_oaTrxSize s) buf') =
       (if m_state s = ADI_MAC_STATE_IRQ_START then 0 else min n (txc - i)) \<and>
     tx_bytes s' \<le> tx_bytes s \<and>
     (tx_data_chunks n (chunkSize s) (drop (m_oaTrxSize s) buf') \<noteq> 0 \<longrightarrow> tx_bytes s' < tx_bytes s) \<and>
     tx_ends n (chunkSize s) (drop (m_oaTrxSize s) buf') = length outs \<and>
     tx_rest s' = (queueRemove ^^ length outs) (tx_rest s)"
  using assms
proof (induction n arbitrary: i s buf)
  case 0
  then show ?case by (simp add: tx_moves_def tx_at_def)
next
  case (Suc n)
  let ?p = "m_oaTrxSize s" and ?cs = "chunkSize s"
  define txEn where "txEn = (if m_state s = ADI_MAC_STATE_IRQ_START then False else i < txc)"
  have room: "?p + 4 + ?cs \<le> length buf" using Suc.prems(2) by simp
  have data: "txEn \<Longrightarrow> 0 < tx_bytes s" using Suc.prems(3) [of 0] by (auto simp: txEn_def split: if_splits)
  obtain s1 buf1 hdr where c1: "oaCreateNextChunk s buf ?p txEn = Some (s1, buf1)"
    and l1: "length buf1 = length buf" and t1: "take ?p buf1 = take ?p buf"
    and h1: "HTON32 (le_word32 (take 4 (drop ?p buf1))) = th_VALUE32 (th_set_P hdr)"
    and st: "chunk_step s s1 (take ?cs (drop (?p + 4) buf1)) hdr" and dv: "th_DV hdr \<longleftrightarrow> txEn"
    using oaCreateNextChunk_any [OF Suc.prems(1) data room] by blast
  from st obtain out where wf1: "tx_wf s1" and at1: "s1 = tx_at s (m_oaTxCurBufIdx s1) (m_oaTxCurBufByteOffset s1)"
    and by1: "tx_bytes s \<le> tx_bytes s1 + ?cs" "tx_bytes s1 \<le> tx_bytes s" and less1: "th_DV hdr \<longrightarrow> tx_bytes s1 < tx_bytes s"
    and dec1: "oa_decode_chunk (th_VALUE32 (th_set_P hdr)) (take ?cs (drop (?p + 4) buf1)) (tx_partial s)
        = Some (tx_partial s1, out)"
    and fr1: "tx_frames s = out @ tx_frames s1" and out1: "length out = (if th_EV hdr then 1 else 0)"
    and rest1: "tx_rest s1 = (queueRemove ^^ length out) (tx_rest s)"
    unfolding chunk_step_def by blast
  have cs1: "chunkSize s1 = ?cs" and p1: "m_oaTrxSize s1 = ?p" and st1: "m_state s1 = m_state s"
    by (subst at1, simp add: tx_at_def chunkSize_def)+
  define s2 where "s2 = s1\<lparr>m_oaTrxSize := ?p + 4 + ?cs\<rparr>"
  have s2: "tx_wf s2" "chunkSize s2 = ?cs" "m_oaTrxSize s2 = ?p + 4 + ?cs" "tx_partial s2 = tx_partial s1"
      "tx_frames s2 = tx_frames s1" "tx_bytes s2 = tx_bytes s1" "tx_rest s2 = tx_rest s1"
    using wf1 cs1 by (simp_all add: s2_def)
  have room2: "m_oaTrxSize s2 + n * (4 + chunkSize s2) \<le> length buf1"
    using Suc.prems(2) l1 by (simp add: s2)
  have enough: "j * chunkSize s2 < tx_bytes s2" if "j < n" "i + 1 + j < txc" for j
    using Suc.prems(3) [of "Suc j"] that by1(1) by (simp add: s2)
  from Suc.IH [where i = "i + 1", OF s2(1) room2 enough] obtain s' buf' outs where
    IH: "create_chunks n (i + 1) txc s2 buf1 = Some (s', buf')" "length buf' = length buf1"
      "take (?p + 4 + ?cs) buf' = take (?p + 4 + ?cs) buf1"
      "m_oaTrxSize s' = ?p + 4 + ?cs + n * (4 + ?cs)"
      "oa_decode n ?cs (drop (?p + 4 + ?cs) buf') (tx_partial s1) = Some (tx_partial s', outs)"
      "tx_frames s1 = outs @ tx_frames s'" "tx_wf s'" "tx_moves s2 s'"
      "tx_data_chunks n ?cs (drop (?p + 4 + ?cs) buf') =
        (if m_state s2 = ADI_MAC_STATE_IRQ_START then 0 else min n (txc - (i + 1)))"
      "tx_bytes s' \<le> tx_bytes s1" "tx_ends n ?cs (drop (?p + 4 + ?cs) buf') = length outs"
      "tx_rest s' = (queueRemove ^^ length outs) (tx_rest s1)"
    unfolding s2(2-7) by blast
  note first = decode_first_chunk [OF IH(3) h1 dec1 out1, of n]
  have "create_chunks (Suc n) i txc s buf = Some (s', buf')"
    using c1 IH(1) cs1 p1
    by (simp add: txEn_def [symmetric] s2_def ADI_SPI_HEADER_SIZE_def add.assoc)
  moreover have "take ?p buf' = take ?p buf"
    using slice_of_take_eq [OF IH(3), of 0 ?p] t1 by simp
  moreover note first(1) [OF IH(5)]
  moreover have dcount: "tx_data_chunks (Suc n) ?cs (drop ?p buf') =
      (if m_state s = ADI_MAC_STATE_IRQ_START then 0 else min (Suc n) (txc - i))"
    unfolding first(2) IH(9) dv using st1 by (auto simp: txEn_def s2_def)
  moreover have "tx_ends (Suc n) ?cs (drop ?p buf') = length (out @ outs)" unfolding first(3) IH(11) by simp
  moreover have "tx_rest s' = (queueRemove ^^ length (out @ outs)) (tx_rest s)"
    unfolding IH(12) rest1 length_append add.commute [of "length out"] funpow_add by simp
  moreover have "tx_bytes s' \<le> tx_bytes s" using IH(10) by1(2) by simp
  moreover have "tx_bytes s' < tx_bytes s"
    if "tx_data_chunks (Suc n) ?cs (drop ?p buf') \<noteq> 0"
  proof -
    have txEn using that unfolding dcount txEn_def by (auto split: if_splits)
    then show ?thesis using dv less1 IH(10) by simp
  qed
  moreover have "tx_moves s s'" using tx_moves_step [OF at1] IH(8) by (simp add: s2_def)
  moreover have "m_oaTrxSize s' = ?p + Suc n * (4 + ?cs)" "length buf' = length buf"
      "tx_frames s = (out @ outs) @ tx_frames s'" "tx_wf s'"
    using IH(2,4,6,7) l1 fr1 by simp_all
  ultimately show ?case by (intro exI conjI impI)
qed

lemma queued_bytes_sum:
  assumes "tx_wf (tx_at s i 0)" and "i \<noteq> q_head (m_txQueue s)"
    and "length (tx_frames (tx_at s i 0)) \<le> fuel"
  shows "queued_bytes fuel s i acc = Some (acc + sum_list (map length (tx_frames (tx_at s i 0))))"
  using assms
proof (induction fuel arbitrary: i acc)
  case 0
  then show ?case using tx_frames_empty [OF 0(1)] by simp
next
  case (Suc fuel)
  let ?s = "tx_at s i 0" and ?s' = "tx_at s (TX_WRAP i) 0"
  from tx_head [OF Suc.prems(1), folded tx_at_def] Suc.prems(2) obtain d where
    d: "slot_desc (m_txQueue s) i = Some d"
      "tx_frames ?s = take (bd_trxSize (s_bufs s d)) (bd_pBuf (s_bufs s d)) # tx_frames ?s'"
      "bd_trxSize (s_bufs s d) \<le> length (bd_pBuf (s_bufs s d))" "tx_wf ?s'"
    by (auto simp: tx_at_simps)
  show ?case
  proof (cases "TX_WRAP i = q_head (m_txQueue s)")
    case True
    then have "tx_frames ?s' = []" using tx_frames_empty [OF d(4)] by simp
    then show ?thesis using d True by (simp add: Let_def)
  next
    case False
    from Suc.IH [OF d(4) False] Suc.prems(3) d show ?thesis
      using False by (simp add: Let_def)
  qed
qed

lemma tx_frames_le: "tx_wf s \<Longrightarrow> length (tx_frames s) \<le> TX_QUEUE_NUM_ENTRIES_RAW"
  using queueCount_less [of "tx_rest s"]
  by (auto simp: tx_frames_def queue_list_def tx_wf_def tx_rest_def)

text \<open>The count of chunks for \<open>n\<close> bytes is the quotient rounded up.\<close>

lemma round_up_less:
  assumes "j < n div cs + (if n mod cs \<noteq> 0 then 1 else 0)" and "0 < (cs :: nat)"
  shows "j * cs < n"
proof -
  have n: "n = cs * (n div cs) + n mod cs" by simp
  show ?thesis
  proof (cases "n mod cs = 0")
    case True
    with assms(1) have "j + 1 \<le> n div cs" by simp
    then have "cs * (j + 1) \<le> cs * (n div cs)" by (rule mult_le_mono2)
    with True n assms(2) show ?thesis by (simp add: mult.commute)
  next
    case False
    with assms(1) have "j \<le> n div cs" by simp
    then have "cs * j \<le> cs * (n div cs)" by (rule mult_le_mono2)
    with False n show ?thesis by (simp only: mult.commute)
  qed
qed

text \<open>
  At the start of a transaction everything put into chunks has left the queue, so the
  current index is the tail.
\<close>

definition tx_start :: "mac_state \<Rightarrow> bool" where
  "tx_start s \<longleftrightarrow> tx_wf s \<and> m_oaTxCurBufIdx s = q_tail (m_txQueue s) \<and>
     \<not> m_oaRxUseBackupBuf s \<and> length (s_spiTxBuf s) = BUFFERSIZE \<and>
     m_oaMaxChunkCount s * (4 + chunkSize s) \<le> BUFFERSIZE \<and>
     m_state s \<noteq> ADI_MAC_STATE_IRQ_START"

lemma tx_at_self: "tx_at s (m_oaTxCurBufIdx s) (m_oaTxCurBufByteOffset s) = s"
  by (simp add: tx_at_def)

text \<open>The queued bytes that are not yet in a chunk.\<close>

lemma queued_total:
  assumes wf: "tx_wf s" and ne: "tx_frames s \<noteq> []"
  shows "\<exists>tot. queued_bytes TX_QUEUE_NUM_ENTRIES_RAW s (m_oaTxCurBufIdx s) 0 = Some tot \<and>
    sub32 tot (m_oaTxCurBufByteOffset s) = tx_bytes s" and "0 < tx_bytes s"
proof -
  define tot where "tot = sum_list (map length (tx_frames s))"
  have "length f \<le> 1522" if "f \<in> set (tx_frames s)" for f
    using that wf by (auto simp: tx_frames_def tx_wf_def list_all_iff frame_ok_def frame_of_def
        Let_def frame_sizes split: option.splits)
  then have "tot \<le> length (tx_frames s) * 1522"
    unfolding tot_def using sum_list_mono [of "tx_frames s" length "\<lambda>_. 1522"] by (simp add: sum_list_triv)
  then have small: "tot \<le> 5 * 1522" using tx_frames_le [OF wf] by (simp add: TX_QUEUE_NUM_ENTRIES_RAW_def)
  have off: "m_oaTxCurBufByteOffset s < tot"
    using ne wf by (auto simp: tx_wf_def tot_def split: list.splits)
  let ?s = "tx_at s (m_oaTxCurBufIdx s) 0"
  obtain f fs where f: "tx_frames s = f # fs" using ne by (cases "tx_frames s") auto
  have "m_oaTxCurBufByteOffset s < length f" using wf f by (simp add: tx_wf_def)
  then have "tx_wf ?s" by (intro tx_wf_at_idx [OF wf f]) linarith
  then have "queued_bytes TX_QUEUE_NUM_ENTRIES_RAW s (m_oaTxCurBufIdx s) 0 = Some tot"
    using queued_bytes_sum [of s "m_oaTxCurBufIdx s"] ne tx_frames_empty [OF wf] tx_frames_le [OF wf]
    by (simp add: tot_def)
  moreover have "sub32 tot (m_oaTxCurBufByteOffset s) = tx_bytes s"
    using off small by (subst sub32_le) (auto simp: tx_bytes_def tot_def)
  ultimately show "\<exists>tot. queued_bytes TX_QUEUE_NUM_ENTRIES_RAW s (m_oaTxCurBufIdx s) 0 = Some tot \<and>
    sub32 tot (m_oaTxCurBufByteOffset s) = tx_bytes s" by blast
  show "0 < tx_bytes s" using off by (simp add: tx_bytes_def tot_def)
qed

text \<open>The reasons to compose a transaction: frames and credits to send, or frames to fetch.\<close>

definition tx_needed :: "mac_state \<Rightarrow> bool" where
  "tx_needed s \<longleftrightarrow> (tx_frames s \<noteq> [] \<and> 0 < m_oaTxc s) \<or> 0 < m_oaRca s"

lemma oaChunkCounts_eq:
  assumes "tx_start s"
  shows "\<exists>n txc. oaChunkCounts s = Some (n, txc) \<and> n \<le> m_oaMaxChunkCount s \<and> txc \<le> m_oaTxc s \<and>
      (\<forall>j < txc. j * chunkSize s < tx_bytes s) \<and>
      (tx_frames s \<noteq> [] \<and> 0 < m_oaTxc s \<longrightarrow> 0 < txc) \<and>
      (tx_needed s \<and> 0 < m_oaMaxChunkCount s \<longrightarrow> 0 < n)"
proof -
  have wf: "tx_wf s" and idx: "m_oaTxCurBufIdx s = q_tail (m_txQueue s)"
    and bk: "\<not> m_oaRxUseBackupBuf s" and st: "m_state s \<noteq> ADI_MAC_STATE_IRQ_START"
    using assms by (auto simp: tx_start_def)
  have em: "queueIsEmpty (m_txQueue s) \<longleftrightarrow> tx_frames s = []"
    using tx_frames_empty [OF wf] idx by (auto simp: queueIsEmpty_def)
  define cc where "cc = tx_bytes s div chunkSize s + (if tx_bytes s mod chunkSize s \<noteq> 0 then 1 else 0)"
  define txc where "txc = (if tx_frames s = [] then 0 else min (m_oaTxc s) cc)"
  have cs: "0 < chunkSize s" by (simp add: chunkSize_def)
  have counts: "oaChunkCounts s = Some (min (m_oaMaxChunkCount s) (max (m_oaRca s) txc), txc)"
  proof (cases "tx_frames s = []")
    case True
    then show ?thesis
      using em bk st by (auto simp: oaChunkCounts_def txc_def Let_def min_def max_def)
  next
    case False
    then show ?thesis
      using queued_total(1) [OF wf False] em bk st
      by (auto simp: oaChunkCounts_def txc_def cc_def Let_def min_def max_def)
  qed
  have "j * chunkSize s < tx_bytes s" if "j < txc" for j
    using that cs by (intro round_up_less) (auto simp: txc_def cc_def split: if_splits)
  moreover have "0 < txc" if "tx_frames s \<noteq> []" "0 < m_oaTxc s"
  proof -
    have "0 < cc" using queued_total(2) [OF wf that(1)] by (auto simp: cc_def intro: ccontr)
    then show ?thesis using that by (simp add: txc_def)
  qed
  ultimately show ?thesis using counts by (auto simp: txc_def tx_needed_def)
qed

text \<open>A composed transaction changes the position in the queue, the size and the buffer.\<close>

definition tx_composed :: "mac_state \<Rightarrow> mac_state \<Rightarrow> nat \<Rightarrow> u8 list list \<Rightarrow> bool" where
  "tx_composed s t n outs \<longleftrightarrow>
     t = s\<lparr>m_oaTxCurBufIdx := m_oaTxCurBufIdx t, m_oaTxCurBufByteOffset := m_oaTxCurBufByteOffset t,
           m_oaTrxSize := m_oaTrxSize t, s_spiTxBuf := s_spiTxBuf t\<rparr> \<and>
     m_oaTrxSize t = n * (4 + chunkSize s) \<and> m_oaTrxSize t \<le> BUFFERSIZE \<and>
     length (s_spiTxBuf t) = BUFFERSIZE \<and>
     tx_data_chunks n (chunkSize s) (s_spiTxBuf t) \<le> m_oaTxc s \<and>
     oa_decode n (chunkSize s) (s_spiTxBuf t) (tx_partial s) = Some (tx_partial t, outs) \<and>
     tx_frames s = outs @ tx_frames t \<and> tx_wf t \<and>
     (tx_needed s \<and> 0 < m_oaMaxChunkCount s \<longrightarrow> 0 < n) \<and>
     (tx_frames s \<noteq> [] \<and> 0 < m_oaTxc s \<and> 0 < m_oaMaxChunkCount s \<longrightarrow> tx_bytes t < tx_bytes s) \<and>
     tx_ends n (chunkSize s) (s_spiTxBuf t) = length outs \<and>
     tx_rest t = (queueRemove ^^ length outs) (m_txQueue s)"

lemma oaSpiProcess_facts:
  assumes "tx_start s"
  shows "\<exists>t n outs. oaSpiProcess s = Some t \<and> tx_composed s t n outs"
proof -
  from assms have wf: "tx_wf s" and bk: "\<not> m_oaRxUseBackupBuf s"
    and len: "length (s_spiTxBuf s) = BUFFERSIZE" and idx: "m_oaTxCurBufIdx s = q_tail (m_txQueue s)"
    and mx: "m_oaMaxChunkCount s * (4 + chunkSize s) \<le> BUFFERSIZE"
    and st: "m_state s \<noteq> ADI_MAC_STATE_IRQ_START"
    by (auto simp: tx_start_def)
  obtain n txc where cc: "oaChunkCounts s = Some (n, txc)" "n \<le> m_oaMaxChunkCount s"
    "txc \<le> m_oaTxc s" "\<And>j. j < txc \<Longrightarrow> j * chunkSize s < tx_bytes s"
    "tx_frames s \<noteq> [] \<and> 0 < m_oaTxc s \<longrightarrow> 0 < txc" "tx_needed s \<and> 0 < m_oaMaxChunkCount s \<longrightarrow> 0 < n"
    using oaChunkCounts_eq [OF assms] by blast
  let ?s = "s\<lparr>m_oaTrxSize := 0\<rparr>"
  have "n * (4 + chunkSize s) \<le> m_oaMaxChunkCount s * (4 + chunkSize s)"
    using cc(2) by (rule mult_le_mono1)
  then have fit: "n * (4 + chunkSize s) \<le> BUFFERSIZE" using mx by (rule le_trans)
  have pre: "tx_wf ?s" "m_oaTrxSize ?s + n * (4 + chunkSize ?s) \<le> length (s_spiTxBuf s)"
    "\<And>j. j < n \<Longrightarrow> 0 + j < txc \<Longrightarrow> j * chunkSize ?s < tx_bytes ?s"
    using wf fit len cc(4) by simp_all
  have rest: "tx_rest s = m_txQueue s" using idx by (simp add: tx_rest_def)
  obtain s' buf' outs where c: "create_chunks n 0 txc ?s (s_spiTxBuf s) = Some (s', buf')"
    "length buf' = BUFFERSIZE" "m_oaTrxSize s' = n * (4 + chunkSize s)"
    "oa_decode n (chunkSize s) buf' (tx_partial s) = Some (tx_partial s', outs)"
    "tx_frames s = outs @ tx_frames s'" "tx_wf s'" "tx_moves ?s s'"
    "tx_data_chunks n (chunkSize s) buf' = min n txc"
    "tx_data_chunks n (chunkSize s) buf' \<noteq> 0 \<longrightarrow> tx_bytes s' < tx_bytes s"
    "tx_ends n (chunkSize s) buf' = length outs"
    "tx_rest s' = (queueRemove ^^ length outs) (m_txQueue s)"
    using create_chunks_decode [where i = 0 and txc = txc, OF pre] st len rest
    by (auto simp: min_def split: if_splits)
  define t where "t = s'\<lparr>s_spiTxBuf := buf'\<rparr>"
  have t: "tx_frames t = tx_frames s'" "tx_wf t = tx_wf s'" "tx_partial t = tx_partial s'"
      "tx_bytes t = tx_bytes s'" "tx_rest t = tx_rest s'" "s_spiTxBuf t = buf'"
      "m_oaTrxSize t = n * (4 + chunkSize s)"
    using c(3) by (simp_all add: t_def)
  obtain i k where "s' = s\<lparr>m_oaTrxSize := 0, m_oaTxCurBufIdx := i, m_oaTxCurBufByteOffset := k,
      m_oaTrxSize := n * (4 + chunkSize s)\<rparr>"
    using c(7) unfolding tx_moves_def tx_at_def c(3) by blast
  then have "t = s\<lparr>m_oaTxCurBufIdx := m_oaTxCurBufIdx t, m_oaTxCurBufByteOffset := m_oaTxCurBufByteOffset t,
            m_oaTrxSize := m_oaTrxSize t, s_spiTxBuf := s_spiTxBuf t\<rparr>" by (simp add: t_def)
  moreover have "tx_frames s \<noteq> [] \<and> 0 < m_oaTxc s \<and> 0 < m_oaMaxChunkCount s \<longrightarrow> tx_bytes t < tx_bytes s"
    using c(8,9) cc(5,6) t(4) by (auto simp: min_def tx_needed_def split: if_splits)
  ultimately have "tx_composed s t n outs"
    unfolding tx_composed_def t using c(2,4-6,8,10,11) cc(3,6) fit by (intro conjI; simp)
  moreover have "oaSpiProcess s = Some t"
    using c(1) cc(1) bk by (simp add: oaSpiProcess_def t_def)
  ultimately show ?thesis by blast
qed

section \<open>Properties\<close>

text \<open>
  C4: a transaction that \<open>oaSpiProcess\<close> composes fits the SPI buffer, uses no more transmit
  credits than the MAC has granted, and carries the queued frames: a decoder of the OPEN
  Alliance protocol that has recovered what was sent before (\<open>tx_partial s\<close>) recovers from
  the new chunks whole frames \<open>outs\<close> and the beginning of the next one, which are exactly
  the bytes by which the driver advances, and it meets no malformed chunk.
\<close>

theorem oaSpiProcess_transmits:
  assumes "tx_start s"
  shows "\<exists>s' n outs. oaSpiProcess s = Some s' \<and>
     m_oaTrxSize s' = n * (4 + chunkSize s) \<and> m_oaTrxSize s' \<le> length (s_spiTxBuf s') \<and>
     tx_data_chunks n (chunkSize s) (s_spiTxBuf s') \<le> m_oaTxc s \<and>
     oa_decode n (chunkSize s) (s_spiTxBuf s') (tx_partial s) = Some (tx_partial s', outs) \<and>
     tx_frames s = outs @ tx_frames s' \<and> tx_wf s' \<and>
     (tx_frames s \<noteq> [] \<and> 0 < m_oaTxc s \<and> 0 < m_oaMaxChunkCount s \<longrightarrow> tx_bytes s' < tx_bytes s)"
  using oaSpiProcess_facts [OF assms] unfolding tx_composed_def
  by (elim exE conjE) (intro exI conjI, assumption+, simp, assumption+)

text \<open>Two frames of 100 and 60 bytes are queued.\<close>

definition tx_example :: mac_state where
  "tx_example = (static_state (\<lambda>d. blank_desc\<lparr>bd_trxSize := if d = 1 then 100 else 60, bd_port := 1\<rparr>))
     \<lparr>m_state := ADI_MAC_STATE_DATA_START,
      m_txQueue := queuePut (queuePut (queueInit TX_QUEUE_NUM_ENTRIES_RAW)
        \<lparr>fs_header = 0, fs_pBufDesc = Some 1\<rparr>) \<lparr>fs_header = 0, fs_pBufDesc = Some 2\<rparr>\<rparr>"

lemma tx_start_example: "tx_start tx_example"
proof -
  have q: "queue_list (tx_rest tx_example) =
      [\<lparr>fs_header = 0, fs_pBufDesc = Some 1\<rparr>, \<lparr>fs_header = 0, fs_pBufDesc = Some 2\<rparr>]"
    by (simp add: tx_example_def tx_rest_def queue_list_def queuePut_def queueAdd_def queueInit_def
        queueCount_def PSEUDO_MODULO_def queue_slot_def TX_QUEUE_NUM_ENTRIES_RAW_def upt_small)
  have "length (bd_pBuf (s_bufs tx_example d)) = 1530" and "60 \<le> bd_trxSize (s_bufs tx_example d)"
    and "bd_trxSize (s_bufs tx_example d) \<le> 100" for d
    by (simp_all add: tx_example_def)
  note d = this
  moreover have "frame_of tx_example e \<noteq> []" for e
    using d(1,2) [of "the (fs_pBufDesc e)"] by (auto simp: frame_of_def Let_def)
  moreover have "frame_ok tx_example \<lparr>fs_header = 0, fs_pBufDesc = Some i\<rparr>" for i
    using d(1-3) [of i] by (simp add: frame_ok_def frame_sizes)
  ultimately show ?thesis
    unfolding tx_start_def tx_wf_def tx_frames_def q
    by (simp add: tx_example_def tx_rest_def queuePut_def queueAdd_def queueInit_def
        PSEUDO_MODULO_def queue_inv_def TX_QUEUE_NUM_ENTRIES_RAW_def chunkSize_def BUFFERSIZE_def
        ADI_OA_MAX_CHUNK64_COUNT_def)
qed

theorem oaSpiProcess_transmits_witness:
  "\<exists>s' n outs. oaSpiProcess tx_example = Some s' \<and>
     m_oaTrxSize s' \<le> length (s_spiTxBuf s') \<and>
     oa_decode n (chunkSize tx_example) (s_spiTxBuf s') (tx_partial tx_example) =
       Some (tx_partial s', outs) \<and>
     tx_frames tx_example = outs @ tx_frames s'"
  using oaSpiProcess_transmits [OF tx_start_example] by blast

text \<open>
  C18: a frame that starts in the middle of a chunk, behind the end of the frame before it,
  is sent with \<open>VS = 0\<close>, that is to port 1, whatever port its descriptor names: the branch
  of \<open>oaCreateNextChunk\<close> that starts it sets \<open>TMSC\<close> but not \<open>VS\<close>.
\<close>

theorem mid_chunk_start_loses_port:
  assumes "m_oaTxCurBufByteOffset s \<noteq> 0"
    and "oaCreateNextChunk s buf pBuf txEn = Some (s', buf')"
  shows "th_VS (th_of_VALUE32 (HTON32 (le_word32 (take 4 (drop pBuf buf'))))) = 0"
proof -
  have cur: "th_VS h = th_VS hdr" if "chunk_current_frame s buf pBuf hdr = Some (s1, b1, h, n)" for hdr s1 b1 h n
    using that assms(1) unfolding chunk_current_frame_def Let_def bind_eq_Some_conv
    by (elim exE conjE) (auto split: if_splits)
  have next1: "th_VS h = th_VS hdr" if "chunk_next_frame s1 b1 pBuf hdr n = Some (s2, b2, h)" for s1 b1 hdr n s2 b2 h
  proof (cases "4 \<le> chunkSize s1 - n \<and> m_oaTxCurBufIdx s1 \<noteq> q_head (m_txQueue s1) \<and> \<not> th_SV hdr")
    case True
    from that show ?thesis
      unfolding chunk_next_frame_def Let_def bind_eq_Some_conv if_P [OF True]
      by (elim exE conjE) (simp only: option.inject prod.inject, elim conjE, hypsubst, simp)
  next
    case False
    from that chunk_next_frame_none [OF False] show ?thesis by simp
  qed
  define hdr0 where "hdr0 = th_zero\<lparr>th_DNC := True,
                       th_NORX := (m_oaRxUseBackupBuf s \<or> queueIsEmpty (m_rxQueueLp s))\<rparr>"
  have "th_VS (hdr0\<lparr>th_DV := b\<rparr>) = 0" for b by (simp add: hdr0_def th_zero_def)
  then have vs0: "th_VS hdr0 = 0" by simp
  let ?parts = "if txEn \<and> (queueIsFull (m_txQueue s) \<or> m_oaTxCurBufIdx s \<noteq> q_head (m_txQueue s))
        then do {
          (s, buf, hdr, bsize) \<leftarrow> chunk_current_frame s buf pBuf (hdr0\<lparr>th_DV := True\<rparr>);
          chunk_next_frame s buf pBuf hdr bsize
        }
        else Some (s, buf, hdr0\<lparr>th_DV := False\<rparr>)"
  from assms(2) obtain r where r: "?parts = Some r" and "(case r of (s, buf, hdr) \<Rightarrow>
      mem_write buf pBuf (le_bytes32 (HTON32 (th_VALUE32 (th_set_P hdr)))) \<bind> (\<lambda>buf. Some (s, buf))) = Some (s', buf')"
    unfolding oaCreateNextChunk_def Let_def hdr0_def [symmetric] by (subst (asm) bind_eq_Some_conv) blast
  moreover obtain s1 b1 h where "r = (s1, b1, h)" by (cases r)
  ultimately have parts: "?parts = Some (s1, b1, h)"
    and w: "mem_write b1 pBuf (le_bytes32 (HTON32 (th_VALUE32 (th_set_P h)))) = Some buf'"
    by (simp_all only: prod.case) (auto simp: bind_eq_Some_conv)
  have "th_VS h = 0"
  proof (cases "txEn \<and> (queueIsFull (m_txQueue s) \<or> m_oaTxCurBufIdx s \<noteq> q_head (m_txQueue s))")
    case True
    from parts obtain s2 b2 h2 n where "chunk_current_frame s buf pBuf (hdr0\<lparr>th_DV := True\<rparr>) = Some (s2, b2, h2, n)"
      and "chunk_next_frame s2 b2 pBuf h2 n = Some (s1, b1, h)"
      unfolding if_P [OF True] bind_eq_Some_conv by auto
    from cur [OF this(1)] next1 [OF this(2)] vs0 show ?thesis by simp
  next
    case False
    from parts vs0 show ?thesis unfolding if_not_P [OF False] by auto
  qed
  then show ?thesis using le_word32_slice [OF w] by simp
qed

text \<open>The second of two queued frames for port 2, started behind the end of the first.\<close>

theorem mid_chunk_start_loses_port_witness:
  "\<exists>s' buf'. let s = tx_at tx_example 0 64 in
     bd_port (s_bufs s 2) = 1 \<and>
     oaCreateNextChunk s (s_spiTxBuf s) 0 True = Some (s', buf') \<and>
     m_oaTxCurBufIdx s' = 1 \<and> m_oaTxCurBufByteOffset s' = 28 \<and>
     th_VS (th_of_VALUE32 (HTON32 (le_word32 (take 4 (drop 0 buf'))))) = 0"
proof -
  let ?s = "tx_at tx_example 0 64"
  have "\<exists>s' buf'. oaCreateNextChunk ?s (s_spiTxBuf ?s) 0 True = Some (s', buf') \<and>
     m_oaTxCurBufIdx s' = 1 \<and> m_oaTxCurBufByteOffset s' = 28"
    by (simp add: oaCreateNextChunk_def chunk_current_frame_def chunk_next_frame_def Let_def
        tx_example_def tx_at_def slot_desc_def queue_entry_def queuePut_def queueAdd_def queueInit_def
        PSEUDO_MODULO_def TX_QUEUE_NUM_ENTRIES_RAW_def chunkSize_def TX_WRAP_def mem_read_def
        mem_write_ok ADI_SPI_HEADER_SIZE_def th_zero_def BUFFERSIZE_def)
  then show ?thesis
    using mid_chunk_start_loses_port [of ?s "s_spiTxBuf ?s" 0 True]
    by (auto simp: Let_def tx_example_def)
qed

end
