(* ===== verification/Oa_Rx.thy ===== *)
theory Oa_Rx
  imports Mac_Types Oa_Protocol Adi_Hal
begin

text \<open>
  The receive side of the OPEN Alliance engine: the loop of \<open>ADI_MAC_STATE_DATA_END\<close> in
  \<open>oaStateMachine\<close>, which takes the chunks of a finished transaction out of \<open>spiRxBuf\<close>,
  reassembles the received frames in the buffers of the receive queue and confirms the
  transmitted frames.  The definitions follow the branches of the loop from the inside
  out; the reassembly is proved against the protocol decoder of \<open>Oa_Protocol\<close>.
\<close>

section \<open>The code\<close>

definition ADI_MAC_CALLBACK_STATUS_OK :: u32 where "ADI_MAC_CALLBACK_STATUS_OK = 0"
definition ADI_MAC_CALLBACK_STATUS_FCS_ERROR :: u32 where "ADI_MAC_CALLBACK_STATUS_FCS_ERROR = 1"
definition ADI_MAC_CALLBACK_STATUS_RX_BUF_OVF :: u32 where "ADI_MAC_CALLBACK_STATUS_RX_BUF_OVF = 2"

text \<open>
  The automatic variables that live across the iterations: \<open>exst\<close>, \<open>Event\<close>, the array
  \<open>timestampBytes\<close> and the last \<open>oaRxFooter\<close> (\<open>None\<close> while indeterminate).
\<close>

record rx_vars =
  v_exst :: bool
  v_Event :: u32
  v_timestampBytes :: "u8 list"
  v_footer :: "adi_mac_OaRxFooter_t option"

type_synonym rx_state = "rx_vars \<times> mac_state"

text \<open>\<open>pRxQueue->pEntries[pRxQueue->tail].pBufDesc\<close>\<close>

definition rx_desc :: "mac_state \<Rightarrow> nat option" where
  "rx_desc s = slot_desc (m_rxQueueLp s) (q_tail (m_rxQueueLp s))"

text \<open>\<open>memcpy(&pRxBuf[dst], &spiRxBuf[src], n)\<close>\<close>

definition copy_rx :: "nat \<Rightarrow> nat \<Rightarrow> nat \<Rightarrow> nat \<Rightarrow> mac_state \<Rightarrow> mac_state option" where
  "copy_rx d dst src n s = do {
     bs \<leftarrow> mem_read (s_spiRxBuf s) src n;
     buf \<leftarrow> mem_write (bd_pBuf (s_bufs s d)) dst bs;
     Some (upd_desc d (\<lambda>b. b\<lparr>bd_pBuf := buf\<rparr>) s)
   }"

text \<open>\<open>memcpy(&timestampBytes[dst], &spiRxBuf[src], 4)\<close>, with the word the bytes form\<close>

definition copy_ts :: "nat \<Rightarrow> nat \<Rightarrow> mac_state \<Rightarrow> u8 list \<Rightarrow> (u32 \<times> u8 list) option" where
  "copy_ts dst src s ts = do {
     bs \<leftarrow> mem_read (s_spiRxBuf s) src 4;
     ts \<leftarrow> mem_write ts dst bs;
     Some (HTON32 (le_word32 bs), ts)
   }"

text \<open>The check of the frame check sequence behind the frame in the receive buffer.\<close>

definition rx_fcs_check :: "nat \<Rightarrow> rx_state \<Rightarrow> rx_state option" where
  "rx_fcs_check d = (\<lambda>(v, s).
     if m_fcsCheckEn s
     then do {
       let desc = s_bufs s d;
       actual \<leftarrow> mem_read (bd_pBuf desc) (bd_trxSize desc) FCS_SIZE;
       frame \<leftarrow> mem_read (bd_pBuf desc) 0 (bd_trxSize desc);
       Some (if HAL_FcsCalculate frame \<noteq> le_word32 actual
             then (v\<lparr>v_Event := v_Event v OR ADI_MAC_CALLBACK_STATUS_FCS_ERROR\<rparr>, s)
             else (v, s))
     }
     else Some (v, s))"

text \<open>
  A finished frame leaves the queue; the forwarding table is updated and the callback of
  the descriptor is called.  \<open>cbFunc(adinDevice, Event, pBufDesc)\<close> is called with the
  descriptor as it is at that point.
\<close>

definition call_buf_desc :: "u32 \<Rightarrow> nat \<Rightarrow> mac_state \<Rightarrow> mac_state" where
  "call_buf_desc Event d s =
     (case bd_cbFunc (s_bufs s d) of None \<Rightarrow> s
      | Some cb \<Rightarrow> emit (EvBufDesc cb Event d (s_bufs s d)) s)"

definition rx_remove :: "mac_state \<Rightarrow> mac_state" where
  "rx_remove s = s\<lparr>m_rxQueueLp := queueRemove (m_rxQueueLp s)\<rparr>"

definition rx_deliver :: "u32 \<Rightarrow> nat \<Rightarrow> mac_state \<Rightarrow> mac_state" where
  "rx_deliver Event d s =
     (let s = rx_remove s;
          s = (case m_cbFunc s ADI_MAC_EVT_DYN_TBL_UPDATE of None \<Rightarrow> s
               | Some cb \<Rightarrow> emit (EvDynTblUpdate cb Event d (s_bufs s d)) s);
          s = call_buf_desc Event d s
      in s\<lparr>m_oaRxCurBufByteOffset := 0\<rparr>)"

text \<open>The remaining word of a timestamp that was split over two chunks; returns \<open>byteOffset\<close>.\<close>

definition rx_split_timestamp :: "nat \<Rightarrow> nat \<Rightarrow> rx_state \<Rightarrow> (nat \<times> rx_state) option" where
  "rx_split_timestamp d chunkStart = (\<lambda>(v, s).
     if m_oaTimestampSplit s
     then do {
       (w, ts) \<leftarrow> copy_ts 0 chunkStart s (v_timestampBytes v);
       let valid = (MAC_CalculateParity ts \<noteq> m_oaTimestampParity s);
       let s = upd_desc d (\<lambda>b. b\<lparr>bd_timestamp := w, bd_timestampValid := valid\<rparr>)
                 (s\<lparr>m_oaTimestampSplit := False\<rparr>);
       Some (4, (v\<lparr>v_timestampBytes := ts\<rparr>, s))
     }
     else Some (0, (v, s)))"

text \<open>\<open>EV = 1\<close>: the end of the frame under way.\<close>

definition rx_end_of_frame ::
  "adi_mac_OaRxFooter_t \<Rightarrow> nat \<Rightarrow> nat \<Rightarrow> rx_state \<Rightarrow> rx_state option" where
  "rx_end_of_frame f d chunkStart = (\<lambda>(v, s).
     if rf_FD f
     then Some (v, upd_stats (\<lambda>e. e\<lparr>es_fdCount := es_fdCount e + 1\<rparr>) (s\<lparr>m_oaRxCurBufByteOffset := 0\<rparr>))
     else let ebo = unat (rf_EBO f); sbo = unat (rf_SWO f) * 4 in
     if rf_SV f \<and> sbo < ebo then Some (v, s)
     else do {
       (v, s) \<leftarrow>
         (if m_oaValidFlag s \<noteq> ADI_MAC_OA_VALID_FLAG_START
          then Some (v, upd_stats (\<lambda>e. e\<lparr>es_invalidEvCount := es_invalidEvCount e + 1\<rparr>)
                          (s\<lparr>m_oaRxCurBufByteOffset := 0\<rparr>))
          else do {
            (v, s) \<leftarrow>
              (if bd_bufSize (s_bufs s d) < m_oaRxCurBufByteOffset s + ebo + 1
               then Some (v\<lparr>v_Event := v_Event v OR ADI_MAC_CALLBACK_STATUS_RX_BUF_OVF\<rparr>, s)
               else do {
                 s \<leftarrow> copy_rx d (m_oaRxCurBufByteOffset s) chunkStart (ebo + 1) s;
                 let size = sub32 (m_oaRxCurBufByteOffset s + ebo + 1) FCS_SIZE;
                 rx_fcs_check d (v, upd_desc d (\<lambda>b. b\<lparr>bd_trxSize := size\<rparr>) s)
               });
            Some (v, rx_deliver (v_Event v) d s)
          });
       Some (v, s\<lparr>m_oaValidFlag := ADI_MAC_OA_VALID_FLAG_END\<rparr>)
     })"

text \<open>
  The timestamp at the start of a frame (\<open>RTSA = 1\<close>); returns the new \<open>byteOffset\<close>.
\<close>

definition rx_start_timestamp ::
  "adi_mac_OaRxFooter_t \<Rightarrow> nat \<Rightarrow> nat \<Rightarrow> nat \<Rightarrow> rx_state \<Rightarrow> (nat \<times> rx_state) option" where
  "rx_start_timestamp f d chunkStart byteOffset = (\<lambda>(v, s).
     if \<not> rf_RTSA f
     then Some (byteOffset, (v, upd_desc d (\<lambda>b. b\<lparr>bd_timestampValid := False\<rparr>) s))
     else do {
       let s = s\<lparr>m_oaTimestampParity := of_bool (rf_RTSP f)\<rparr>;
       if m_timestampFormat s = ADI_MAC_TS_FORMAT_64B_1588
       then do {
         (ext, ts) \<leftarrow> copy_ts 4 (chunkStart + byteOffset) s (v_timestampBytes v);
         let s = upd_desc d (\<lambda>b. b\<lparr>bd_timestampExt := ext\<rparr>) s;
         let byteOffset = byteOffset + 4;
         if chunkStart + chunkSize s < chunkStart + byteOffset + 4
         then Some (byteOffset, (v\<lparr>v_timestampBytes := ts\<rparr>, s\<lparr>m_oaTimestampSplit := True\<rparr>))
         else do {
           (w, ts) \<leftarrow> copy_ts 0 (chunkStart + byteOffset) s ts;
           let valid = (MAC_CalculateParity ts \<noteq> m_oaTimestampParity s);
           Some (byteOffset + 4, (v\<lparr>v_timestampBytes := ts\<rparr>,
             upd_desc d (\<lambda>b. b\<lparr>bd_timestamp := w, bd_timestampValid := valid\<rparr>)
               (s\<lparr>m_oaTimestampSplit := False\<rparr>)))
         }
       }
       else do {
         (w, ts) \<leftarrow> copy_ts 0 (chunkStart + byteOffset) s (v_timestampBytes v);
         let valid = (MAC_CalculateParity (take 4 ts) \<noteq> m_oaTimestampParity s);
         Some (byteOffset + 4, (v\<lparr>v_timestampBytes := ts\<rparr>,
           upd_desc d (\<lambda>b. b\<lparr>bd_timestampExt := 0, bd_timestamp := w, bd_timestampValid := valid\<rparr>) s))
       }
     })"

text \<open>\<open>(adi_mac_RxFifoPrio_e)((vs & 0x2) >> 1)\<close>\<close>

definition rx_prio :: "adi_mac_OaRxFooter_t \<Rightarrow> adi_mac_RxFifoPrio_e" where
  "rx_prio f = (if bit (rf_VS f) 1 then ADI_MAC_RX_FIFO_PRIO_HIGH else ADI_MAC_RX_FIFO_PRIO_LOW)"

text \<open>\<open>SV = 1\<close>: the start of a frame, or a whole frame.\<close>

definition rx_start_of_frame :: "adi_mac_OaRxFooter_t \<Rightarrow> nat \<Rightarrow> rx_state \<Rightarrow> rx_state option" where
  "rx_start_of_frame f chunkStart = (\<lambda>(v, s). do {
     let s = (if m_oaValidFlag s \<noteq> ADI_MAC_OA_VALID_FLAG_NONE
                 \<and> m_oaValidFlag s \<noteq> ADI_MAC_OA_VALID_FLAG_END
              then upd_stats (\<lambda>e. e\<lparr>es_invalidSvCount := es_invalidSvCount e + 1\<rparr>) s else s);
     let prio = rx_prio f;
     if queueIsEmpty (m_rxQueueLp s) \<and> \<not> m_oaRxUseBackupBuf s
     then Some (v, s\<lparr>m_oaRxUseBackupBuf := False, m_oaRxBufChunkStart := chunkStart,
                      m_oaRxBufTrxSize := m_oaTrxSize s\<rparr>)
     else do {
       d \<leftarrow> rx_desc s;
       let s = upd_desc d (\<lambda>b. b\<lparr>bd_prio := prio, bd_port := unat (rf_VS f AND 1)\<rparr>) s;
       let s = s\<lparr>m_oaRxCurBufByteOffset := 0\<rparr>;
       (byteOffset, (v, s)) \<leftarrow> rx_start_timestamp f d chunkStart (unat (rf_SWO f) * 4) (v, s);
       let rest = sub32 (chunkSize s) byteOffset;
       s \<leftarrow> (if rest \<noteq> 0
             then do {
               s \<leftarrow> copy_rx d 0 (chunkStart + byteOffset) rest s;
               Some (s\<lparr>m_oaRxCurBufByteOffset := m_oaRxCurBufByteOffset s + rest\<rparr>)
             }
             else Some s);
       let ebo = unat (rf_EBO f);
       let sbo = unat (rf_SWO f) * 4;
       if rf_EV f \<and> sbo < ebo
       then do {
         (v, s) \<leftarrow> rx_fcs_check d
           (v, upd_desc d (\<lambda>b. b\<lparr>bd_trxSize := sub32 (sub32 (ebo + 1) sbo) FCS_SIZE\<rparr>) s);
         Some (v, (rx_deliver (v_Event v) d s)\<lparr>m_oaValidFlag := ADI_MAC_OA_VALID_FLAG_END\<rparr>)
       }
       else Some (v, s\<lparr>m_oaValidFlag := ADI_MAC_OA_VALID_FLAG_START\<rparr>)
     }
   })"

text \<open>Neither: the chunk continues the frame under way.\<close>

definition rx_middle ::
  "adi_mac_OaRxFooter_t \<Rightarrow> nat \<Rightarrow> nat \<Rightarrow> nat \<Rightarrow> rx_state \<Rightarrow> rx_state option" where
  "rx_middle f d chunkStart byteOffset = (\<lambda>(v, s).
     if \<not> rf_EV f \<and> m_oaValidFlag s = ADI_MAC_OA_VALID_FLAG_START
     then if bd_bufSize (s_bufs s d) < m_oaRxCurBufByteOffset s + chunkSize s
          then let v = v\<lparr>v_Event := v_Event v OR ADI_MAC_CALLBACK_STATUS_RX_BUF_OVF\<rparr>
               in Some (v, (call_buf_desc (v_Event v) d (rx_remove s))\<lparr>m_oaRxCurBufByteOffset := 0\<rparr>)
          else do {
            let n = sub32 (chunkSize s) byteOffset;
            s \<leftarrow> copy_rx d (m_oaRxCurBufByteOffset s) (chunkStart + byteOffset) n s;
            Some (v, s\<lparr>m_oaRxCurBufByteOffset := m_oaRxCurBufByteOffset s + n\<rparr>)
          }
     else Some (v, s))"

text \<open>The data of a chunk with \<open>DV = 1\<close>.\<close>

definition rx_data ::
  "adi_mac_OaRxFooter_t \<Rightarrow> nat \<Rightarrow> rx_state \<Rightarrow> rx_state option" where
  "rx_data f chunkStart = (\<lambda>(v, s). do {
     d \<leftarrow> rx_desc s;
     (byteOffset, (v, s)) \<leftarrow> rx_split_timestamp d chunkStart (v, s);
     (v, s) \<leftarrow> (if rf_EV f then rx_end_of_frame f d chunkStart (v, s) else Some (v, s));
     if rf_SV f then rx_start_of_frame f chunkStart (v, s)
     else rx_middle f d chunkStart byteOffset (v, s)
   })"

text \<open>
  The confirmation of the transmitted chunk: the header that was sent in this place is
  still in \<open>spiTxBuf\<close>, and if it ended a frame the frame leaves the transmit queue.
\<close>

definition tx_confirm :: "nat \<Rightarrow> rx_state \<Rightarrow> rx_state option" where
  "tx_confirm chunkStart = (\<lambda>(v, s). do {
     bs \<leftarrow> mem_read (s_spiTxBuf s) chunkStart 4;
     let h = th_of_VALUE32 (HTON32 (le_word32 bs));
     if th_EV h
     then do {
       d \<leftarrow> slot_desc (m_txQueue s) (q_tail (m_txQueue s));
       let s = s\<lparr>m_txQueue := queueRemove (m_txQueue s)\<rparr>;
       let s = upd_desc d (\<lambda>b. b\<lparr>bd_refCount := sub32 (bd_refCount b) 1\<rparr>) s;
       Some (v, if bd_refCount (s_bufs s d) = 0 then call_buf_desc (v_Event v) d s else s)
     }
     else Some (v, s)
   })"

definition rx_chunk :: "nat \<Rightarrow> rx_state \<Rightarrow> rx_state option" where
  "rx_chunk chunkStart = (\<lambda>(v, s). do {
     bs \<leftarrow> mem_read (s_spiRxBuf s) (chunkStart + chunkSize s) 4;
     let w = HTON32 (le_word32 bs);
     let f = rf_of_VALUE32 w;
     let v = v\<lparr>v_footer := Some f\<rparr>;
     if w = ADI_OA_HEADER_BAD
     then Some (v, upd_stats (\<lambda>e. e\<lparr>es_hdrParityErrorCount := es_hdrParityErrorCount e + 1\<rparr>) s)
     else if MAC_CalculateParity (le_bytes32 w) = 0
     then Some (v, upd_stats (\<lambda>e. e\<lparr>es_ftrParityErrorCount := es_ftrParityErrorCount e + 1\<rparr>) s)
     else if \<not> rf_SYNC f
     then Some (v, upd_stats (\<lambda>e. e\<lparr>es_syncErrorCount := es_syncErrorCount e + 1\<rparr>) s)
     else do {
       let v = v\<lparr>v_exst := v_exst v \<or> rf_EXST f\<rparr>;
       let s = s\<lparr>m_oaTxc := unat (rf_TXC f), m_oaRca := unat (rf_RCA f)\<rparr>;
       (v, s) \<leftarrow> (if rf_DV f \<and> \<not> m_oaRxUseBackupBuf s then rx_data f chunkStart (v, s)
                 else Some (v, s));
       tx_confirm chunkStart (v, s)
     }
   })"

text \<open>
  \<open>for (chunkStart = 0; chunkStart < oaTrxSize; chunkStart += ADI_SPI_HEADER_SIZE + chunkSize)\<close>;
  no statement of the body writes \<open>oaTrxSize\<close> (\<open>trx\<close>), and \<open>cs\<close> is the automatic variable
  \<open>chunkSize\<close>.
\<close>

function rx_chunks :: "nat \<Rightarrow> nat \<Rightarrow> nat \<Rightarrow> rx_state \<Rightarrow> rx_state option" where
  "rx_chunks trx cs chunkStart vs =
     (if chunkStart < trx
      then do {
        vs \<leftarrow> rx_chunk chunkStart vs;
        rx_chunks trx cs (chunkStart + ADI_SPI_HEADER_SIZE + cs) vs
      }
      else Some vs)"
  by pat_completeness auto

termination
  by (relation "measure (\<lambda>(trx, cs, chunkStart, vs). trx - chunkStart)")
    (auto simp: ADI_SPI_HEADER_SIZE_def)

declare rx_chunks.simps [simp del]

section \<open>What the protocol says\<close>

text \<open>
  The chunks of the receive buffer, the payload before the footer, under the decoder of
  \<open>Oa_Protocol\<close>.
\<close>

definition footer_at :: "nat \<Rightarrow> u8 list \<Rightarrow> u32" where
  "footer_at cs bs = HTON32 (le_word32 (take 4 (drop cs bs)))"

definition footer_step ::
  "adi_mac_OaRxFooter_t \<Rightarrow> u8 list \<Rightarrow> u8 list option \<Rightarrow> (u8 list option \<times> u8 list list) option" where
  "footer_step f payload cur =
     oa_step (rf_DV f) (rf_SV f) (rf_EV f) (4 * unat (rf_SWO f)) (unat (rf_EBO f)) payload cur"

fun oa_rx_decode ::
  "nat \<Rightarrow> nat \<Rightarrow> u8 list \<Rightarrow> u8 list option \<Rightarrow> (u8 list option \<times> u8 list list) option" where
  "oa_rx_decode 0 cs bs cur = Some (cur, [])"
| "oa_rx_decode (Suc n) cs bs cur = do {
     (cur, out) \<leftarrow> footer_step (rf_of_VALUE32 (footer_at cs bs)) (take cs bs) cur;
     (cur, outs) \<leftarrow> oa_rx_decode n cs (drop (4 + cs) bs) cur;
     Some (cur, out @ outs)
   }"

text \<open>
  A footer of a good transfer: its parity is odd, the MAC is configured (\<open>SYNC\<close>), the
  frame is not to be dropped, no timestamp is added and the offsets lie in the chunk.
\<close>

definition clean_footer :: "nat \<Rightarrow> u32 \<Rightarrow> bool" where
  "clean_footer cs w \<longleftrightarrow> odd (popcount w) \<and>
     (let f = rf_of_VALUE32 w in rf_SYNC f \<and> \<not> rf_FD f \<and> \<not> rf_RTSA f \<and>
        4 * unat (rf_SWO f) < cs \<and> unat (rf_EBO f) < cs)"

section \<open>The receive buffers\<close>

definition rx_ids :: "mac_state \<Rightarrow> nat list" where
  "rx_ids s = map (\<lambda>e. the (fs_pBufDesc e)) (queue_list (m_rxQueueLp s))"

definition rx_buf_ok :: "nat \<Rightarrow> adi_eth_BufDesc_t \<Rightarrow> bool" where
  "rx_buf_ok B b \<longleftrightarrow> B \<le> bd_bufSize b \<and> bd_bufSize b \<le> length (bd_pBuf b) \<and> bd_cbFunc b \<noteq> None"

text \<open>
  Well-formedness of the receive side: the queued descriptors are distinct, have a callback
  and room for a frame of \<open>B\<close> bytes, and while a frame is under way there is one.
\<close>

definition rx_wf :: "nat \<Rightarrow> mac_state \<Rightarrow> bool" where
  "rx_wf B s \<longleftrightarrow> queue_inv (m_rxQueueLp s) \<and>
     list_all (\<lambda>e. fs_pBufDesc e \<noteq> None) (queue_list (m_rxQueueLp s)) \<and> distinct (rx_ids s) \<and>
     list_all (\<lambda>d. rx_buf_ok B (s_bufs s d)) (rx_ids s) \<and>
     \<not> m_oaRxUseBackupBuf s \<and> \<not> m_oaTimestampSplit s \<and> \<not> m_fcsCheckEn s \<and>
     m_oaCps s \<in> {3, 4, 5, 6} \<and> 64 \<le> B \<and> B < 2 ^ 16 \<and>
     (m_oaValidFlag s = ADI_MAC_OA_VALID_FLAG_START \<longrightarrow>
       rx_ids s \<noteq> [] \<and> m_oaRxCurBufByteOffset s \<le> B)"

text \<open>The bytes of the frame under way.\<close>

definition rx_partial :: "mac_state \<Rightarrow> u8 list option" where
  "rx_partial s = (if m_oaValidFlag s = ADI_MAC_OA_VALID_FLAG_START
     then Some (take (m_oaRxCurBufByteOffset s) (bd_pBuf (s_bufs s (hd (rx_ids s))))) else None)"

text \<open>The frames handed to the application, with their descriptor and status.\<close>

fun frame_event :: "mac_event \<Rightarrow> (nat \<times> u32 \<times> u8 list) list" where
  "frame_event (EvBufDesc cb st d b) = [(d, st, take (bd_trxSize b) (bd_pBuf b))]"
| "frame_event _ = []"

definition delivered :: "mac_event list \<Rightarrow> (nat \<times> u32 \<times> u8 list) list" where
  "delivered evs = concat (map frame_event evs)"

lemma delivered_simps [simp]:
  "delivered [] = []" "delivered (es @ fs) = delivered es @ delivered fs"
  "delivered (e # es) = frame_event e @ delivered es"
  by (simp_all add: delivered_def)

text \<open>The part of the state that receiving a chunk does not touch.\<close>

definition rx_same :: "mac_state \<Rightarrow> mac_state \<Rightarrow> bool" where
  "rx_same s s' \<longleftrightarrow> s' = s\<lparr>m_rxQueueLp := m_rxQueueLp s', m_oaValidFlag := m_oaValidFlag s',
     m_oaRxCurBufByteOffset := m_oaRxCurBufByteOffset s', s_bufs := s_bufs s', s_events := s_events s'\<rparr> \<and>
     (\<forall>d. d \<notin> set (rx_ids s) \<longrightarrow> s_bufs s' d = s_bufs s d)"

text \<open>
  A step of the receive side: the frames \<open>out\<close> have been delivered, in order, in the first
  descriptors of the queue, without their frame check sequence and with status \<open>st\<close>.
\<close>

definition rx_delivers :: "nat \<Rightarrow> u32 \<Rightarrow> mac_state \<Rightarrow> mac_state \<Rightarrow> u8 list option \<Rightarrow> u8 list list \<Rightarrow> bool" where
  "rx_delivers B st s s' cur out \<longleftrightarrow> rx_wf B s' \<and> rx_partial s' = cur \<and> rx_same s s' \<and>
     rx_ids s' = drop (length out) (rx_ids s) \<and>
     (\<exists>evs. s_events s' = s_events s @ evs \<and>
        delivered evs = map2 (\<lambda>d f. (d, st, take (length f - 4) f)) (take (length out) (rx_ids s)) out)"

section \<open>One chunk\<close>

lemma rx_ids_cong: "m_rxQueueLp s = m_rxQueueLp t \<Longrightarrow> rx_ids s = rx_ids t"
  by (simp add: rx_ids_def)

lemma rx_ids_upd [simp]:
  "rx_ids (upd_desc d f s) = rx_ids s" "rx_ids (s\<lparr>m_oaRxCurBufByteOffset := n\<rparr>) = rx_ids s"
  "rx_ids (s\<lparr>m_oaValidFlag := x\<rparr>) = rx_ids s" "rx_ids (s\<lparr>s_events := es\<rparr>) = rx_ids s"
  "rx_ids (s\<lparr>s_bufs := bs\<rparr>) = rx_ids s"
  by (simp_all add: rx_ids_def upd_desc_def)

lemma rx_head:
  assumes "rx_wf B s" and "rx_ids s \<noteq> []"
  shows "rx_desc s = Some (hd (rx_ids s))" and "\<not> queueIsEmpty (m_rxQueueLp s)"
    and "rx_ids (rx_remove s) = tl (rx_ids s)" and "queue_inv (m_rxQueueLp (rx_remove s))"
    and "list_all (\<lambda>e. fs_pBufDesc e \<noteq> None) (queue_list (m_rxQueueLp (rx_remove s)))"
    and "rx_buf_ok B (s_bufs s (hd (rx_ids s)))"
proof -
  let ?q = "m_rxQueueLp s"
  have inv: "queue_inv ?q" and ne: "queue_list ?q \<noteq> []"
    using assms by (auto simp: rx_wf_def rx_ids_def)
  show nempty: "\<not> queueIsEmpty ?q" using ring.empty_iff [OF inv] ne by simp
  have list: "queue_list ?q = queueFront ?q # queue_list (queueRemove ?q)"
    by (rule queue_list_queueRemove [OF inv nempty])
  have "fs_pBufDesc (queueFront ?q) \<noteq> None" using assms(1) list by (auto simp: rx_wf_def list_all_iff)
  moreover have "q_tail ?q < length (q_pEntries ?q)" using inv by (simp add: queue_inv_def)
  ultimately show "rx_desc s = Some (hd (rx_ids s))"
    by (auto simp: rx_desc_def slot_desc_Some rx_ids_def list queueFront_def)
  show "rx_ids (rx_remove s) = tl (rx_ids s)" by (simp add: rx_ids_def list rx_remove_def)
  show "queue_inv (m_rxQueueLp (rx_remove s))"
    using queue_inv_queueRemove [OF inv] by (simp add: rx_remove_def)
  show "list_all (\<lambda>e. fs_pBufDesc e \<noteq> None) (queue_list (m_rxQueueLp (rx_remove s)))"
    using assms(1) list by (auto simp: rx_wf_def list_all_iff rx_remove_def)
  show "rx_buf_ok B (s_bufs s (hd (rx_ids s)))"
    using assms by (auto simp: rx_wf_def list_all_iff)
qed

lemma rx_deliver_simps [simp]:
  "m_rxQueueLp (rx_deliver E d s) = queueRemove (m_rxQueueLp s)"
  "s_bufs (rx_deliver E d s) = s_bufs s" "m_oaValidFlag (rx_deliver E d s) = m_oaValidFlag s"
  "m_oaRxCurBufByteOffset (rx_deliver E d s) = 0"
  "rx_ids (rx_deliver E d s) = rx_ids (rx_remove s)"
  by (simp_all add: rx_deliver_def Let_def call_buf_desc_def emit_def rx_remove_def rx_ids_def
      split: option.splits)

lemma rx_deliver_eq:
  assumes "bd_cbFunc (s_bufs s d) = Some cb"
  shows "\<exists>evs. rx_deliver E d s = s\<lparr>m_rxQueueLp := queueRemove (m_rxQueueLp s),
      m_oaRxCurBufByteOffset := 0, s_events := s_events s @ evs\<rparr> \<and>
      delivered evs = [(d, E, take (bd_trxSize (s_bufs s d)) (bd_pBuf (s_bufs s d)))]"
proof (cases "m_cbFunc s ADI_MAC_EVT_DYN_TBL_UPDATE")
  case None
  with assms show ?thesis
    by (intro exI [of _ "[EvBufDesc cb E d (s_bufs s d)]"])
      (simp add: rx_deliver_def Let_def call_buf_desc_def emit_def rx_remove_def)
next
  case (Some k)
  with assms show ?thesis
    by (intro exI [of _ "[EvDynTblUpdate k E d (s_bufs s d), EvBufDesc cb E d (s_bufs s d)]"])
      (simp add: rx_deliver_def Let_def call_buf_desc_def emit_def rx_remove_def)
qed

lemma copy_rx_eq:
  assumes "src + n \<le> length (s_spiRxBuf s)" and "dst + n \<le> length (bd_pBuf (s_bufs s d))"
  shows "copy_rx d dst src n s = Some (upd_desc d (\<lambda>b. b\<lparr>bd_pBuf :=
      take dst (bd_pBuf b) @ take n (drop src (s_spiRxBuf s)) @ drop (dst + n) (bd_pBuf b)\<rparr>) s)"
proof -
  have "length (take n (drop src (s_spiRxBuf s))) = n" using assms(1) by simp
  then show ?thesis
    using assms mem_write_ok [of dst "take n (drop src (s_spiRxBuf s))" "bd_pBuf (s_bufs s d)"]
    by (simp add: copy_rx_def mem_read_ok upd_desc_def)
qed

lemma upd_desc_simps [simp]:
  "s_bufs (upd_desc d f s) d = f (s_bufs s d)" "e \<noteq> d \<Longrightarrow> s_bufs (upd_desc d f s) e = s_bufs s e"
  "m_rxQueueLp (upd_desc d f s) = m_rxQueueLp s" "m_oaValidFlag (upd_desc d f s) = m_oaValidFlag s"
  "m_oaRxCurBufByteOffset (upd_desc d f s) = m_oaRxCurBufByteOffset s"
  "m_fcsCheckEn (upd_desc d f s) = m_fcsCheckEn s" "m_txQueue (upd_desc d f s) = m_txQueue s"
  "s_spiRxBuf (upd_desc d f s) = s_spiRxBuf s" "s_spiTxBuf (upd_desc d f s) = s_spiTxBuf s"
  "m_oaRxUseBackupBuf (upd_desc d f s) = m_oaRxUseBackupBuf s" "m_oaCps (upd_desc d f s) = m_oaCps s"
  "m_oaTimestampSplit (upd_desc d f s) = m_oaTimestampSplit s"
  "chunkSize (upd_desc d f s) = chunkSize s" "s_events (upd_desc d f s) = s_events s"
  "upd_desc d f (upd_desc d g s) = upd_desc d (f \<circ> g) s"
  by (simp_all add: upd_desc_def chunkSize_def)

text \<open>Changes of the descriptor in use that keep its sizes and callback keep well-formedness.\<close>

lemma rx_same_alt:
  "rx_same s s' \<longleftrightarrow> (\<exists>a b c d e. s' = s\<lparr>m_rxQueueLp := a, m_oaValidFlag := b,
     m_oaRxCurBufByteOffset := c, s_bufs := d, s_events := e\<rparr>) \<and>
     (\<forall>d. d \<notin> set (rx_ids s) \<longrightarrow> s_bufs s' d = s_bufs s d)"
proof
  assume "rx_same s s'"
  then have eq: "s' = s\<lparr>m_rxQueueLp := m_rxQueueLp s', m_oaValidFlag := m_oaValidFlag s',
     m_oaRxCurBufByteOffset := m_oaRxCurBufByteOffset s', s_bufs := s_bufs s', s_events := s_events s'\<rparr>"
    and rest: "\<forall>d. d \<notin> set (rx_ids s) \<longrightarrow> s_bufs s' d = s_bufs s d"
    unfolding rx_same_def by (rule conjunct1, rule conjunct2)
  show "(\<exists>a b c d e. s' = s\<lparr>m_rxQueueLp := a, m_oaValidFlag := b,
     m_oaRxCurBufByteOffset := c, s_bufs := d, s_events := e\<rparr>) \<and>
     (\<forall>d. d \<notin> set (rx_ids s) \<longrightarrow> s_bufs s' d = s_bufs s d)"
    by (rule conjI [OF _ rest]) (rule exI, rule exI, rule exI, rule exI, rule exI, rule eq)
next
  assume h: "(\<exists>a b c d e. s' = s\<lparr>m_rxQueueLp := a, m_oaValidFlag := b,
     m_oaRxCurBufByteOffset := c, s_bufs := d, s_events := e\<rparr>) \<and>
     (\<forall>d. d \<notin> set (rx_ids s) \<longrightarrow> s_bufs s' d = s_bufs s d)"
  then obtain a b c d e where eq: "s' = s\<lparr>m_rxQueueLp := a, m_oaValidFlag := b,
     m_oaRxCurBufByteOffset := c, s_bufs := d, s_events := e\<rparr>" by blast
  show "rx_same s s'"
    unfolding rx_same_def by (rule conjI [OF _ conjunct2 [OF h]]) (simp add: eq)
qed

lemma rx_same_trans:
  assumes "rx_same s t" and "rx_same t u" and "set (rx_ids t) \<subseteq> set (rx_ids s)"
  shows "rx_same s u"
proof -
  from assms(1) obtain a b c d e where t: "t = s\<lparr>m_rxQueueLp := a, m_oaValidFlag := b,
     m_oaRxCurBufByteOffset := c, s_bufs := d, s_events := e\<rparr>"
    and bt: "\<And>i. i \<notin> set (rx_ids s) \<Longrightarrow> s_bufs t i = s_bufs s i"
    unfolding rx_same_alt by blast
  from assms(2) obtain a' b' c' d' e' where u: "u = t\<lparr>m_rxQueueLp := a', m_oaValidFlag := b',
     m_oaRxCurBufByteOffset := c', s_bufs := d', s_events := e'\<rparr>"
    and bu: "\<And>i. i \<notin> set (rx_ids t) \<Longrightarrow> s_bufs u i = s_bufs t i"
    unfolding rx_same_alt by blast
  have "s_bufs u i = s_bufs s i" if "i \<notin> set (rx_ids s)" for i
    using that assms(3) bt [of i] bu [of i] by auto
  moreover have "u = s\<lparr>m_rxQueueLp := a', m_oaValidFlag := b',
     m_oaRxCurBufByteOffset := c', s_bufs := d', s_events := e'\<rparr>"
    by (simp add: u t)
  ultimately show ?thesis unfolding rx_same_alt by blast
qed

lemma rx_same_flag: "rx_same s t \<Longrightarrow> rx_same s (t\<lparr>m_oaValidFlag := x\<rparr>)"
proof -
  assume "rx_same s t"
  then obtain a b c d e where t: "t = s\<lparr>m_rxQueueLp := a, m_oaValidFlag := b,
     m_oaRxCurBufByteOffset := c, s_bufs := d, s_events := e\<rparr>"
    and bt: "\<forall>i. i \<notin> set (rx_ids s) \<longrightarrow> s_bufs t i = s_bufs s i"
    unfolding rx_same_alt by blast
  from t have "t\<lparr>m_oaValidFlag := x\<rparr> = s\<lparr>m_rxQueueLp := a, m_oaValidFlag := x,
     m_oaRxCurBufByteOffset := c, s_bufs := d, s_events := e\<rparr>" by simp
  moreover from bt have "\<forall>i. i \<notin> set (rx_ids s) \<longrightarrow> s_bufs (t\<lparr>m_oaValidFlag := x\<rparr>) i = s_bufs s i"
    by simp
  ultimately show ?thesis unfolding rx_same_alt by blast
qed

lemma rx_same_fields:
  assumes "rx_same s s'"
  shows "m_oaRxUseBackupBuf s' = m_oaRxUseBackupBuf s" "m_oaTimestampSplit s' = m_oaTimestampSplit s"
    "m_fcsCheckEn s' = m_fcsCheckEn s" "m_oaCps s' = m_oaCps s" "m_txQueue s' = m_txQueue s"
    "s_spiRxBuf s' = s_spiRxBuf s" "s_spiTxBuf s' = s_spiTxBuf s" "m_oaTrxSize s' = m_oaTrxSize s"
    "chunkSize s' = chunkSize s" "m_oaTxc s' = m_oaTxc s" "m_oaRca s' = m_oaRca s"
proof -
  from assms obtain a b c d e where "s' = s\<lparr>m_rxQueueLp := a, m_oaValidFlag := b,
     m_oaRxCurBufByteOffset := c, s_bufs := d, s_events := e\<rparr>"
    unfolding rx_same_def by blast
  then show "m_oaRxUseBackupBuf s' = m_oaRxUseBackupBuf s" "m_oaTimestampSplit s' = m_oaTimestampSplit s"
    "m_fcsCheckEn s' = m_fcsCheckEn s" "m_oaCps s' = m_oaCps s" "m_txQueue s' = m_txQueue s"
    "s_spiRxBuf s' = s_spiRxBuf s" "s_spiTxBuf s' = s_spiTxBuf s" "m_oaTrxSize s' = m_oaTrxSize s"
    "chunkSize s' = chunkSize s" "m_oaTxc s' = m_oaTxc s" "m_oaRca s' = m_oaRca s"
    by (simp_all add: chunkSize_def)
qed

lemma rx_wf_step:
  assumes wf: "rx_wf B s" and same: "rx_same s s'" and q: "queue_inv (m_rxQueueLp s')"
    "list_all (\<lambda>e. fs_pBufDesc e \<noteq> None) (queue_list (m_rxQueueLp s'))"
    and ids: "rx_ids s' = drop k (rx_ids s)"
    and bufs: "\<And>d. d \<in> set (rx_ids s) \<Longrightarrow> rx_buf_ok B (s_bufs s' d)"
    and start: "m_oaValidFlag s' = ADI_MAC_OA_VALID_FLAG_START \<Longrightarrow>
      rx_ids s' \<noteq> [] \<and> m_oaRxCurBufByteOffset s' \<le> B"
  shows "rx_wf B s'"
proof -
  note rx_same_fields [OF same]
  moreover have "list_all (\<lambda>d. rx_buf_ok B (s_bufs s' d)) (rx_ids s')"
    using bufs unfolding ids by (auto simp: list_all_iff dest: in_set_dropD)
  moreover have "distinct (rx_ids s')" using wf unfolding ids by (simp add: rx_wf_def distinct_drop)
  ultimately show ?thesis using wf q start by (simp add: rx_wf_def)
qed

lemma rx_partial_Some:
  assumes "rx_wf B s" and "rx_partial s = Some g"
  shows "m_oaValidFlag s = ADI_MAC_OA_VALID_FLAG_START" and "rx_ids s \<noteq> []"
    and "m_oaRxCurBufByteOffset s = length g"
    and "g = take (length g) (bd_pBuf (s_bufs s (hd (rx_ids s))))"
    and "length g \<le> B"
proof -
  show st: "m_oaValidFlag s = ADI_MAC_OA_VALID_FLAG_START"
    using assms(2) by (auto simp: rx_partial_def split: if_splits)
  then show ne: "rx_ids s \<noteq> []" and "length g \<le> B"
    using assms by (auto simp: rx_wf_def rx_partial_def)
  have "B \<le> length (bd_pBuf (s_bufs s (hd (rx_ids s))))"
    using rx_head(6) [OF assms(1) ne] by (simp add: rx_buf_ok_def)
  moreover have "m_oaRxCurBufByteOffset s \<le> B" using st assms(1) by (simp add: rx_wf_def)
  ultimately show off: "m_oaRxCurBufByteOffset s = length g"
    using assms(2) st by (auto simp: rx_partial_def)
  show "g = take (length g) (bd_pBuf (s_bufs s (hd (rx_ids s))))"
    using assms(2) st off by (auto simp: rx_partial_def)
qed

lemma rx_same_upd_desc:
  assumes "rx_same s t" and "d \<in> set (rx_ids s)"
  shows "rx_same s (upd_desc d u t)"
proof -
  from assms(1) obtain a b c e g where teq: "t = s\<lparr>m_rxQueueLp := a, m_oaValidFlag := b,
     m_oaRxCurBufByteOffset := c, s_bufs := e, s_events := g\<rparr>"
    unfolding rx_same_alt by blast
  have "\<forall>i. i \<notin> set (rx_ids s) \<longrightarrow> s_bufs (upd_desc d u t) i = s_bufs s i"
    using assms by (auto simp: rx_same_alt upd_desc_def)
  then show ?thesis unfolding rx_same_def by (simp add: upd_desc_def teq)
qed

text \<open>Delivery of a frame that lies complete in the first descriptor of the queue.\<close>

lemma deliver_filled:
  fixes E :: u32
  assumes wf: "rx_wf B s" and ne: "rx_ids s \<noteq> []" and d: "d = hd (rx_ids s)"
    and t: "rx_same s t" "m_rxQueueLp t = m_rxQueueLp s" "s_events t = s_events s"
      "\<And>i. i \<noteq> d \<Longrightarrow> s_bufs t i = s_bufs s i" "rx_buf_ok B (s_bufs t d)"
    and frame: "take (bd_trxSize (s_bufs t d)) (bd_pBuf (s_bufs t d)) = take (length h - 4) h"
  defines "s' \<equiv> (rx_deliver E d t)\<lparr>m_oaValidFlag := ADI_MAC_OA_VALID_FLAG_END\<rparr>"
  shows "rx_delivers B E s s' None [h] \<and> m_oaValidFlag s' = ADI_MAC_OA_VALID_FLAG_END"
proof -
  note hd = rx_head [OF wf ne]
  obtain cb where "bd_cbFunc (s_bufs t d) = Some cb" using t(5) by (auto simp: rx_buf_ok_def)
  from rx_deliver_eq [OF this, of E] obtain evs where
    s': "s' = t\<lparr>m_rxQueueLp := queueRemove (m_rxQueueLp s), m_oaRxCurBufByteOffset := 0,
        s_events := s_events s @ evs, m_oaValidFlag := ADI_MAC_OA_VALID_FLAG_END\<rparr>"
    and evs: "delivered evs = [(d, E, take (length h - 4) h)]"
    using t(2,3) frame by (auto simp: s'_def)
  have "rx_ids s' = rx_ids (rx_remove s)" by (rule rx_ids_cong) (simp add: s' rx_remove_def)
  then have ids: "rx_ids s' = drop 1 (rx_ids s)" by (simp add: hd(3) drop_Suc)
  from t(1) obtain a b c e g where teq: "t = s\<lparr>m_rxQueueLp := a, m_oaValidFlag := b,
     m_oaRxCurBufByteOffset := c, s_bufs := e, s_events := g\<rparr>"
    unfolding rx_same_alt by blast
  have din: "d \<in> set (rx_ids s)" using ne by (simp add: d)
  have bufs': "s_bufs s' = s_bufs t" by (simp add: s')
  have same: "rx_same s s'"
    unfolding rx_same_def
  proof
    show "\<forall>i. i \<notin> set (rx_ids s) \<longrightarrow> s_bufs s' i = s_bufs s i"
      using t(1) by (simp add: rx_same_alt bufs')
  qed (simp add: s' teq)
  have wf': "rx_wf B s'"
  proof (rule rx_wf_step [OF wf same _ _ ids])
    show "queue_inv (m_rxQueueLp s')" "list_all (\<lambda>e. fs_pBufDesc e \<noteq> None) (queue_list (m_rxQueueLp s'))"
      using hd(4,5) by (simp_all add: s' rx_remove_def)
    show "rx_buf_ok B (s_bufs s' i)" if "i \<in> set (rx_ids s)" for i
      using that wf t(4) [of i] t(5) bufs' by (cases "i = d") (simp_all add: rx_wf_def list_all_iff)
  qed (simp add: s')
  have "delivered evs = map2 (\<lambda>d f. (d, E, take (length f - 4) f)) (take 1 (rx_ids s)) [h]"
    using evs ne by (cases "rx_ids s") (simp_all add: d)
  then show ?thesis
    using wf' same ids unfolding rx_delivers_def by (auto simp: s' rx_partial_def t(3))
qed

lemma rx_end_of_frame_sim:
  assumes wf: "rx_wf B s" and p: "rx_partial s = Some g"
    and f: "\<not> rf_FD f" "\<not> (rf_SV f \<and> unat (rf_SWO f) * 4 < unat (rf_EBO f))"
    and room: "chunkStart + chunkSize s \<le> length (s_spiRxBuf s)" "unat (rf_EBO f) < chunkSize s"
    and out: "h = g @ take (unat (rf_EBO f) + 1) (drop chunkStart (s_spiRxBuf s))"
    and len: "5 \<le> length h" "length h \<le> B"
  shows "\<exists>s'. rx_end_of_frame f (hd (rx_ids s)) chunkStart (v, s) = Some (v, s') \<and>
     rx_delivers B (v_Event v) s s' None [h] \<and> m_oaValidFlag s' = ADI_MAC_OA_VALID_FLAG_END"
proof -
  note ps = rx_partial_Some [OF wf p]
  note hd = rx_head [OF wf ps(2)]
  define d where "d = hd (rx_ids s)"
  define n where "n = unat (rf_EBO f) + 1"
  define buf where "buf = take (length g) (bd_pBuf (s_bufs s d)) @
      take n (drop chunkStart (s_spiRxBuf s)) @ drop (length g + n) (bd_pBuf (s_bufs s d))"
  have okb: "B \<le> bd_bufSize (s_bufs s d)" "bd_bufSize (s_bufs s d) \<le> length (bd_pBuf (s_bufs s d))"
    "bd_cbFunc (s_bufs s d) \<noteq> None"
    using hd(6) by (auto simp: rx_buf_ok_def d_def)
  have ln: "length (take n (drop chunkStart (s_spiRxBuf s))) = n" using room by (simp add: n_def)
  have lh: "length h = length g + n" using out ln by (simp add: n_def)
  have fit: "length g + n \<le> B" using lh len(2) by simp
  have hbuf: "take (length h) buf = h" using ps(4) out ln by (simp add: buf_def d_def lh n_def)
  have lbuf: "length buf = length (bd_pBuf (s_bufs s d))" using ln fit okb by (simp add: buf_def)
  let ?u = "\<lambda>b. b\<lparr>bd_pBuf := buf, bd_trxSize := length h - 4\<rparr>"
  define s1 where "s1 = upd_desc d ?u s"
  have copy: "copy_rx d (length g) chunkStart n s = Some (upd_desc d (\<lambda>b. b\<lparr>bd_pBuf := buf\<rparr>) s)"
    using copy_rx_eq [of chunkStart n s "length g" d] room fit okb
    by (simp add: buf_def n_def upd_desc_def)
  have size: "sub32 (length g + n) FCS_SIZE = length h - 4"
    using len lh wf by (subst sub32_le) (auto simp: FCS_SIZE_def rx_wf_def)
  have fcs: "rx_fcs_check d (v, s1) = Some (v, s1)"
    using wf by (simp add: rx_fcs_check_def s1_def rx_wf_def)
  define s' where "s' = (rx_deliver (v_Event v) d s1)\<lparr>m_oaValidFlag := ADI_MAC_OA_VALID_FLAG_END\<rparr>"
  have "rx_end_of_frame f d chunkStart (v, s) = Some (v, s')"
    using f(1) ps(1,3) copy size fcs fit okb unfolding rx_end_of_frame_def Let_def if_not_P [OF f(2)]
    by (simp add: n_def s'_def s1_def comp_def add.assoc)
  moreover have "take (length h - 4) buf = take (length h - 4) h"
    using arg_cong [OF hbuf, of "take (length h - 4)"] by (simp add: min_def)
  then have "rx_delivers B (v_Event v) s s' None [h] \<and> m_oaValidFlag s' = ADI_MAC_OA_VALID_FLAG_END"
    unfolding s'_def using ps(2) okb lbuf
    by (intro deliver_filled [OF wf ps(2) d_def]) (auto simp: s1_def upd_desc_def rx_same_def rx_buf_ok_def d_def)
  ultimately show ?thesis by (simp add: d_def)
qed

text \<open>
  The common part of a frame start: the descriptor is prepared and the rest of the chunk
  copied to its beginning.
\<close>

definition rx_started :: "adi_mac_OaRxFooter_t \<Rightarrow> nat \<Rightarrow> nat \<Rightarrow> mac_state \<Rightarrow> mac_state" where
  "rx_started f chunkStart d s =
     (let swo = unat (rf_SWO f) * 4; n = chunkSize s - swo
      in (upd_desc d (\<lambda>b. b\<lparr>bd_prio := rx_prio f,
              bd_port := unat (rf_VS f AND 1), bd_timestampValid := False,
              bd_pBuf := take n (drop (chunkStart + swo) (s_spiRxBuf s)) @ drop n (bd_pBuf b)\<rparr>) s)
         \<lparr>m_oaRxCurBufByteOffset := n\<rparr>)"

lemma rx_start_of_frame_eq:
  assumes wf: "rx_wf B s" and ne: "rx_ids s \<noteq> []" and d: "d = hd (rx_ids s)"
    and flag: "m_oaValidFlag s \<noteq> ADI_MAC_OA_VALID_FLAG_START" and f: "\<not> rf_RTSA f"
    and room: "chunkStart + chunkSize s \<le> length (s_spiRxBuf s)" "unat (rf_SWO f) * 4 < chunkSize s"
  shows "rx_start_of_frame f chunkStart (v, s) =
     (if rf_EV f \<and> unat (rf_SWO f) * 4 < unat (rf_EBO f)
      then Some (v, (rx_deliver (v_Event v) d (upd_desc d (\<lambda>b. b\<lparr>bd_trxSize :=
               sub32 (sub32 (unat (rf_EBO f) + 1) (unat (rf_SWO f) * 4)) FCS_SIZE\<rparr>)
               (rx_started f chunkStart d s)))\<lparr>m_oaValidFlag := ADI_MAC_OA_VALID_FLAG_END\<rparr>)
      else Some (v, (rx_started f chunkStart d s)\<lparr>m_oaValidFlag := ADI_MAC_OA_VALID_FLAG_START\<rparr>))"
proof -
  note hd = rx_head [OF wf ne]
  have cs: "chunkSize s \<le> 64" using wf by (auto simp: rx_wf_def chunkSize_def)
  define n where "n = chunkSize s - unat (rf_SWO f) * 4"
  have n: "sub32 (chunkSize s) (unat (rf_SWO f) * 4) = n" "n \<noteq> 0" "n \<le> 64"
    using room(2) cs by (auto simp: n_def sub32_le)
  have okb: "B \<le> bd_bufSize (s_bufs s d)" "bd_bufSize (s_bufs s d) \<le> length (bd_pBuf (s_bufs s d))" "64 \<le> B"
    using hd(6) wf by (auto simp: rx_buf_ok_def d rx_wf_def)
  define s1 where "s1 = (upd_desc d (\<lambda>b. b\<lparr>bd_prio := rx_prio f, bd_port := unat (rf_VS f AND 1),
      bd_timestampValid := False\<rparr>) s)\<lparr>m_oaRxCurBufByteOffset := 0\<rparr>"
  have ts: "rx_start_timestamp f d chunkStart (unat (rf_SWO f) * 4)
      (v, (upd_desc d (\<lambda>b. b\<lparr>bd_prio := rx_prio f, bd_port := unat (rf_VS f AND 1)\<rparr>) s)\<lparr>m_oaRxCurBufByteOffset := 0\<rparr>)
      = Some (unat (rf_SWO f) * 4, (v, s1))"
    using f by (simp add: rx_start_timestamp_def s1_def upd_desc_def)
  have copy: "copy_rx d 0 (chunkStart + unat (rf_SWO f) * 4) n s1 = Some (upd_desc d (\<lambda>b. b\<lparr>bd_pBuf :=
      take n (drop (chunkStart + unat (rf_SWO f) * 4) (s_spiRxBuf s)) @ drop n (bd_pBuf b)\<rparr>) s1)"
    using room okb n(3) by (subst copy_rx_eq) (auto simp: s1_def n_def upd_desc_def)
  have started: "(upd_desc d (\<lambda>b. b\<lparr>bd_pBuf :=
      take n (drop (chunkStart + unat (rf_SWO f) * 4) (s_spiRxBuf s)) @ drop n (bd_pBuf b)\<rparr>) s1)
      \<lparr>m_oaRxCurBufByteOffset := n\<rparr> = rx_started f chunkStart d s"
    by (simp add: rx_started_def s1_def n_def Let_def upd_desc_def)
  have inval: "(m_oaValidFlag s \<noteq> ADI_MAC_OA_VALID_FLAG_NONE \<and>
      m_oaValidFlag s \<noteq> ADI_MAC_OA_VALID_FLAG_END) = False"
    using flag by (cases "m_oaValidFlag s") auto
  have fcs: "rx_fcs_check d (v, t) = Some (v, t)" if "m_fcsCheckEn t = m_fcsCheckEn s" for t
    using wf that by (simp add: rx_fcs_check_def rx_wf_def)
  have fields: "m_fcsCheckEn (rx_started f chunkStart d s) = m_fcsCheckEn s" "chunkSize s1 = chunkSize s"
    "m_oaRxCurBufByteOffset s1 = 0"
    by (simp_all add: rx_started_def Let_def upd_desc_def s1_def chunkSize_def)
  show ?thesis
    unfolding rx_start_of_frame_def Let_def prod.case inval if_False
    using hd(1,2) [folded d]
    by (simp add: ts [simplified] copy fields n started fcs)
qed

lemma rx_started_facts:
  assumes wf: "rx_wf B s" and ne: "rx_ids s \<noteq> []" and d: "d = hd (rx_ids s)"
    and room: "chunkStart + chunkSize s \<le> length (s_spiRxBuf s)" "unat (rf_SWO f) * 4 < chunkSize s"
  defines "n \<equiv> chunkSize s - unat (rf_SWO f) * 4"
    and "t \<equiv> rx_started f chunkStart d s"
  shows "rx_same s t" and "rx_ids t = rx_ids s" and "m_rxQueueLp t = m_rxQueueLp s"
    and "rx_buf_ok B (s_bufs t d)" and "m_oaRxCurBufByteOffset t = n" and "s_events t = s_events s"
    and "take n (bd_pBuf (s_bufs t d)) =
      drop (unat (rf_SWO f) * 4) (take (chunkSize s) (drop chunkStart (s_spiRxBuf s)))"
    and "\<And>i. i \<noteq> d \<Longrightarrow> s_bufs t i = s_bufs s i"
    and "length (bd_pBuf (s_bufs t d)) = length (bd_pBuf (s_bufs s d))"
proof -
  have cs: "chunkSize s \<le> 64" using wf by (auto simp: rx_wf_def chunkSize_def)
  then have n64: "n \<le> 64" by (simp add: n_def)
  have okb: "rx_buf_ok B (s_bufs s d)" "64 \<le> B" "64 \<le> length (bd_pBuf (s_bufs s d))"
    using rx_head(6) [OF wf ne] wf by (auto simp: rx_buf_ok_def d rx_wf_def)
  have slice: "take n (drop (chunkStart + unat (rf_SWO f) * 4) (s_spiRxBuf s)) =
      drop (unat (rf_SWO f) * 4) (take (chunkSize s) (drop chunkStart (s_spiRxBuf s)))"
    by (simp add: n_def drop_take add.commute)
  have ln: "length (take n (drop (chunkStart + unat (rf_SWO f) * 4) (s_spiRxBuf s))) = n"
    using room by (simp add: n_def)
  show "rx_same s t"
    using ne unfolding rx_same_def t_def rx_started_def Let_def upd_desc_def d by auto
  show "rx_ids t = rx_ids s" "m_rxQueueLp t = m_rxQueueLp s" "m_oaRxCurBufByteOffset t = n"
      "s_events t = s_events s"
    by (simp_all add: t_def rx_started_def Let_def n_def)
  show lt: "length (bd_pBuf (s_bufs t d)) = length (bd_pBuf (s_bufs s d))"
    using ln n64 okb(3) by (simp add: t_def rx_started_def Let_def n_def upd_desc_def)
  have "bd_bufSize (s_bufs t d) = bd_bufSize (s_bufs s d)" "bd_cbFunc (s_bufs t d) = bd_cbFunc (s_bufs s d)"
    by (simp_all add: t_def rx_started_def Let_def upd_desc_def)
  with okb(1) lt show "rx_buf_ok B (s_bufs t d)" by (simp add: rx_buf_ok_def)
  have "bd_pBuf (s_bufs t d) = take n (drop (chunkStart + unat (rf_SWO f) * 4) (s_spiRxBuf s)) @
      drop n (bd_pBuf (s_bufs s d))"
    by (simp add: t_def rx_started_def Let_def upd_desc_def n_def)
  then show "take n (bd_pBuf (s_bufs t d)) =
      drop (unat (rf_SWO f) * 4) (take (chunkSize s) (drop chunkStart (s_spiRxBuf s)))"
    using ln slice by simp
  show "\<And>i. i \<noteq> d \<Longrightarrow> s_bufs t i = s_bufs s i"
    by (simp add: t_def rx_started_def Let_def upd_desc_def)
qed

lemma rx_start_sim:
  assumes wf: "rx_wf B s" and ne: "rx_ids s \<noteq> []"
    and flag: "m_oaValidFlag s \<noteq> ADI_MAC_OA_VALID_FLAG_START" and f: "\<not> rf_RTSA f"
      "\<not> (rf_EV f \<and> unat (rf_SWO f) * 4 < unat (rf_EBO f))"
    and room: "chunkStart + chunkSize s \<le> length (s_spiRxBuf s)" "unat (rf_SWO f) * 4 < chunkSize s"
  shows "\<exists>s'. rx_start_of_frame f chunkStart (v, s) = Some (v, s') \<and>
     rx_delivers B (v_Event v) s s' (Some (drop (unat (rf_SWO f) * 4)
        (take (chunkSize s) (drop chunkStart (s_spiRxBuf s))))) []"
proof -
  let ?d = "hd (rx_ids s)" and ?t = "rx_started f chunkStart (hd (rx_ids s)) s"
  note ft = rx_started_facts [OF wf ne refl room]
  define s' where "s' = ?t\<lparr>m_oaValidFlag := ADI_MAC_OA_VALID_FLAG_START\<rparr>"
  have "rx_start_of_frame f chunkStart (v, s) = Some (v, s')"
    using rx_start_of_frame_eq [OF wf ne refl flag f(1) room] unfolding if_not_P [OF f(2)] s'_def .
  moreover have same: "rx_same s s'" using ft(1) by (simp add: rx_same_flag s'_def)
  moreover have ids: "rx_ids s' = drop 0 (rx_ids s)" using ft(2) by (simp add: s'_def)
  have wf': "rx_wf B s'"
  proof (rule rx_wf_step [OF wf same])
    show "rx_ids s' = drop 0 (rx_ids s)" by (rule ids)
    show "queue_inv (m_rxQueueLp s')" "list_all (\<lambda>e. fs_pBufDesc e \<noteq> None) (queue_list (m_rxQueueLp s'))"
      using wf ft(3) by (simp_all add: s'_def rx_wf_def)
    show "rx_buf_ok B (s_bufs s' d)" if "d \<in> set (rx_ids s)" for d
      using that wf ft(4) ft(8) [of d] by (cases "d = ?d") (auto simp: s'_def rx_wf_def list_all_iff)
    show "rx_ids s' \<noteq> [] \<and> m_oaRxCurBufByteOffset s' \<le> B"
      using ne ft(2,5) wf by (auto simp: s'_def rx_wf_def chunkSize_def)
  qed
  moreover have "rx_partial s' = Some (drop (unat (rf_SWO f) * 4)
        (take (chunkSize s) (drop chunkStart (s_spiRxBuf s))))"
    using ft(2,5,7) by (simp add: rx_partial_def s'_def)
  ultimately show ?thesis
    using ids ft(6) by (auto simp: rx_delivers_def s'_def)
qed

lemma rx_whole_sim:
  assumes wf: "rx_wf B s" and ne: "rx_ids s \<noteq> []"
    and flag: "m_oaValidFlag s \<noteq> ADI_MAC_OA_VALID_FLAG_START" and f: "\<not> rf_RTSA f"
      "rf_EV f \<and> unat (rf_SWO f) * 4 < unat (rf_EBO f)"
    and room: "chunkStart + chunkSize s \<le> length (s_spiRxBuf s)" "unat (rf_SWO f) * 4 < chunkSize s"
      "unat (rf_EBO f) < chunkSize s"
    and h: "h = take (unat (rf_EBO f) + 1 - unat (rf_SWO f) * 4) (drop (unat (rf_SWO f) * 4)
        (take (chunkSize s) (drop chunkStart (s_spiRxBuf s))))" "5 \<le> length h"
  shows "\<exists>s'. rx_start_of_frame f chunkStart (v, s) = Some (v, s') \<and>
     rx_delivers B (v_Event v) s s' None [h]"
proof -
  define d where "d = hd (rx_ids s)"
  define t where "t = rx_started f chunkStart d s"
  define swo where "swo = unat (rf_SWO f) * 4"
  define n where "n = chunkSize s - swo"
  note ft = rx_started_facts [OF wf ne d_def room(1,2), folded t_def swo_def, folded n_def]
  note hd = rx_head [OF wf ne]
  have cs: "chunkSize s \<le> 64" using wf by (auto simp: rx_wf_def chunkSize_def)
  have lh: "length h = unat (rf_EBO f) + 1 - swo" "length h \<le> n"
    using h(1) room f(2) by (auto simp: n_def swo_def)
  have ebo: "unat (rf_EBO f) < 64" using room(3) cs by simp
  have size: "sub32 (sub32 (unat (rf_EBO f) + 1) swo) FCS_SIZE = length h - 4"
    using lh h(2) ebo f(2) by (simp add: FCS_SIZE_def swo_def)
  define t1 where "t1 = upd_desc d (\<lambda>b. b\<lparr>bd_trxSize := length h - 4\<rparr>) t"
  define s' where "s' = (rx_deliver (v_Event v) d t1)\<lparr>m_oaValidFlag := ADI_MAC_OA_VALID_FLAG_END\<rparr>"
  have start: "rx_start_of_frame f chunkStart (v, s) = Some (v, s')"
    using rx_start_of_frame_eq [OF wf ne d_def flag f(1) room(1,2), of v] f(2)
    unfolding size [unfolded swo_def] by (simp add: s'_def t1_def t_def)
  have "take (length h - 4) (bd_pBuf (s_bufs t d)) = take (length h - 4) h"
  proof -
    have "take (length h) (bd_pBuf (s_bufs t d)) = take (length h) (take n (bd_pBuf (s_bufs t d)))"
      using lh(2) by (simp add: min_def)
    also have "\<dots> = h" using ft(7) h(1) lh(1) by (simp add: swo_def)
    finally show ?thesis using arg_cong [of _ _ "take (length h - 4)"] by (metis min.absorb1 diff_le_self take_take)
  qed
  moreover have "rx_same s t1"
    unfolding t1_def using ne by (intro rx_same_upd_desc [OF ft(1)]) (simp add: d_def)
  ultimately have "rx_delivers B (v_Event v) s s' None [h]"
    unfolding s'_def using ft(3,4,6,8)
    by (intro conjunct1 [OF deliver_filled [OF wf ne d_def]]) (auto simp: t1_def upd_desc_def rx_buf_ok_def)
  with start show ?thesis by blast
qed

lemma rx_middle_sim:
  assumes wf: "rx_wf B s" and p: "rx_partial s = Some g" and f: "\<not> rf_EV f"
    and room: "chunkStart + chunkSize s \<le> length (s_spiRxBuf s)"
    and h: "h = g @ take (chunkSize s) (drop chunkStart (s_spiRxBuf s))" "length h \<le> B"
  shows "\<exists>s'. rx_middle f (hd (rx_ids s)) chunkStart 0 (v, s) = Some (v, s') \<and>
     rx_delivers B (v_Event v) s s' (Some h) []"
proof -
  note ps = rx_partial_Some [OF wf p]
  note hd = rx_head [OF wf ps(2)]
  define d where "d = hd (rx_ids s)"
  define n where "n = chunkSize s"
  define buf where "buf = take (length g) (bd_pBuf (s_bufs s d)) @
      take n (drop chunkStart (s_spiRxBuf s)) @ drop (length g + n) (bd_pBuf (s_bufs s d))"
  have okb: "B \<le> bd_bufSize (s_bufs s d)" "bd_bufSize (s_bufs s d) \<le> length (bd_pBuf (s_bufs s d))"
    "bd_cbFunc (s_bufs s d) \<noteq> None"
    using hd(6) by (auto simp: rx_buf_ok_def d_def)
  have ln: "length (take n (drop chunkStart (s_spiRxBuf s))) = n" using room by (simp add: n_def)
  have lh: "length h = length g + n" using h(1) ln by (simp add: n_def)
  have hbuf: "take (length h) buf = h" using ps(4) h(1) ln by (simp add: buf_def d_def lh n_def)
  have lbuf: "length buf = length (bd_pBuf (s_bufs s d))" using ln lh h(2) okb by (simp add: buf_def)
  have copy: "copy_rx d (length g) chunkStart n s = Some (upd_desc d (\<lambda>b. b\<lparr>bd_pBuf := buf\<rparr>) s)"
    using copy_rx_eq [of chunkStart n s "length g" d] room lh h(2) okb
    by (simp add: buf_def n_def upd_desc_def)
  define s' where "s' = (upd_desc d (\<lambda>b. b\<lparr>bd_pBuf := buf\<rparr>) s)\<lparr>m_oaRxCurBufByteOffset := length g + n\<rparr>"
  have "chunkSize s < 2 ^ 32" using wf by (auto simp: rx_wf_def chunkSize_def)
  then have mid: "rx_middle f d chunkStart 0 (v, s) = Some (v, s')"
    using f ps(1,3) copy lh h(2) okb by (simp add: rx_middle_def n_def s'_def Let_def)
  have same: "rx_same s s'"
    using ps(2) unfolding rx_same_def s'_def upd_desc_def d_def by auto
  have ids: "rx_ids s' = drop 0 (rx_ids s)" by (simp add: s'_def)
  have wf': "rx_wf B s'"
    using wf ps(2) okb lbuf lh h(2)
    by (intro rx_wf_step [OF wf same _ _ ids])
      (auto simp: s'_def rx_wf_def list_all_iff rx_buf_ok_def upd_desc_def)
  have "rx_partial s' = Some h"
    using hbuf ps(1) lh by (simp add: rx_partial_def s'_def d_def)
  then have "rx_delivers B (v_Event v) s s' (Some h) []"
    using wf' same ids unfolding rx_delivers_def by (auto simp: s'_def)
  with mid show ?thesis by (auto simp: d_def)
qed

text \<open>Deliveries compose.\<close>

lemma rx_delivers_trans:
  assumes "rx_delivers B st s t c out" and "rx_delivers B st t u c' outs"
    and "length out + length outs \<le> length (rx_ids s)"
  shows "rx_delivers B st s u c' (out @ outs)"
proof -
  from assms(1) obtain e1 where a: "rx_wf B t" "rx_same s t" "rx_ids t = drop (length out) (rx_ids s)"
    "s_events t = s_events s @ e1"
    "delivered e1 = map2 (\<lambda>d f. (d, st, take (length f - 4) f)) (take (length out) (rx_ids s)) out"
    unfolding rx_delivers_def by blast
  from assms(2) obtain e2 where b: "rx_wf B u" "rx_partial u = c'" "rx_same t u"
    "rx_ids u = drop (length outs) (rx_ids t)" "s_events u = s_events t @ e2"
    "delivered e2 = map2 (\<lambda>d f. (d, st, take (length f - 4) f)) (take (length outs) (rx_ids t)) outs"
    unfolding rx_delivers_def by blast
  have "rx_same s u"
    by (rule rx_same_trans [OF a(2) b(3)]) (use a(3) in \<open>auto dest: in_set_dropD\<close>)
  moreover have "rx_ids u = drop (length (out @ outs)) (rx_ids s)"
    using b(4) a(3) by (simp add: add.commute)
  moreover have "delivered (e1 @ e2) =
      map2 (\<lambda>d f. (d, st, take (length f - 4) f)) (take (length (out @ outs)) (rx_ids s)) (out @ outs)"
    using a(3,5) b(6) assms(3) by (simp add: take_add)
  ultimately show ?thesis
    using b(1,2,5) a(4) unfolding rx_delivers_def by (intro conjI exI [of _ "e1 @ e2"]) simp_all
qed

text \<open>
  A chunk that continues what the decoder has: without timestamp or dropped frame, within the buffer,
  with frames that fit the receive buffers and buffers enough.
\<close>

definition rx_continues ::
  "nat \<Rightarrow> mac_state \<Rightarrow> adi_mac_OaRxFooter_t \<Rightarrow> nat \<Rightarrow> u8 list option \<Rightarrow> u8 list list \<Rightarrow> bool" where
  "rx_continues B s f chunkStart cur out \<longleftrightarrow>
     rx_wf B s \<and> \<not> rf_FD f \<and> \<not> rf_RTSA f \<and> chunkStart + chunkSize s \<le> length (s_spiRxBuf s) \<and>
     unat (rf_SWO f) * 4 < chunkSize s \<and> unat (rf_EBO f) < chunkSize s \<and>
     oa_step True (rf_SV f) (rf_EV f) (4 * unat (rf_SWO f)) (unat (rf_EBO f))
       (take (chunkSize s) (drop chunkStart (s_spiRxBuf s))) (rx_partial s) = Some (cur, out) \<and>
     (\<forall>h \<in> set out. 5 \<le> length h \<and> length h \<le> B) \<and> (\<forall>h. cur = Some h \<longrightarrow> length h \<le> B) \<and>
     length out + (if cur = None then 0 else 1) \<le> length (rx_ids s)"

lemma rx_continues_facts:
  assumes "rx_continues B s f chunkStart cur out"
  shows "rx_wf B s" "\<not> rf_FD f" "\<not> rf_RTSA f" "chunkStart + chunkSize s \<le> length (s_spiRxBuf s)"
    "unat (rf_SWO f) * 4 < chunkSize s" "unat (rf_EBO f) < chunkSize s"
    "oa_step True (rf_SV f) (rf_EV f) (4 * unat (rf_SWO f)) (unat (rf_EBO f))
       (take (chunkSize s) (drop chunkStart (s_spiRxBuf s))) (rx_partial s) = Some (cur, out)"
    "\<forall>h \<in> set out. 5 \<le> length h \<and> length h \<le> B" "\<forall>h. cur = Some h \<longrightarrow> length h \<le> B"
    "length out + (if cur = None then 0 else 1) \<le> length (rx_ids s)"
  using assms unfolding rx_continues_def by blast+

lemma rx_continues_head:
  assumes "rx_continues B s f chunkStart cur out"
  shows "rx_ids s \<noteq> []" and "rx_desc s = Some (hd (rx_ids s))"
    and "rx_split_timestamp d chunkStart (v, s) = Some (0, v, s)"
proof -
  note c = rx_continues_facts [OF assms]
  show ne: "rx_ids s \<noteq> []"
    using c(7,10) by (cases cur; cases out; cases "rx_partial s") (auto simp: oa_step_def split: if_splits)
  show "rx_desc s = Some (hd (rx_ids s))" by (rule rx_head(1) [OF c(1) ne])
  show "rx_split_timestamp d chunkStart (v, s) = Some (0, v, s)"
    using c(1) by (simp add: rx_split_timestamp_def rx_wf_def)
qed

lemma rx_nothing_started: "rx_partial s = None \<Longrightarrow> m_oaValidFlag s \<noteq> ADI_MAC_OA_VALID_FLAG_START"
  by (auto simp: rx_partial_def split: if_splits)

lemma rx_data_whole:
  assumes c: "rx_continues B s f chunkStart cur out" and whole: "rf_SV f" "rf_EV f" "unat (rf_SWO f) * 4 \<le> unat (rf_EBO f)"
  shows "\<exists>s'. rx_data f chunkStart (v, s) = Some (v, s') \<and> rx_delivers B (v_Event v) s s' cur out"
proof -
  let ?p = "take (chunkSize s) (drop chunkStart (s_spiRxBuf s))"
  let ?swo = "unat (rf_SWO f) * 4" and ?ebo = "unat (rf_EBO f)"
  note k = rx_continues_facts [OF c] and hd = rx_continues_head [OF c]
  from k(7) whole have p: "rx_partial s = None" and cur: "cur = None"
    and o: "out = [take (?ebo + 1 - ?swo) (drop ?swo ?p)]"
    by (auto simp: oa_steps mult.commute split: if_splits)
  let ?h = "take (?ebo + 1 - ?swo) (drop ?swo ?p)"
  have lh: "5 \<le> length ?h" using k(8) o by simp
  then have lt: "?swo < ?ebo" by (simp add: min_def split: if_splits)
  have "rx_end_of_frame f (hd (rx_ids s)) chunkStart (v, s) = Some (v, s)"
    using k(2) lt whole by (simp add: rx_end_of_frame_def Let_def)
  with rx_whole_sim [OF k(1) hd(1) rx_nothing_started [OF p] k(3) _ k(4-6) refl lh, of v] lt whole cur o show ?thesis
    by (auto simp: rx_data_def hd)
qed

text \<open>A chunk with the end of the frame under way, which may be followed by the start of the next one.\<close>

lemma rx_data_ends:
  assumes c: "rx_continues B s f chunkStart cur out" and "rf_EV f"
    and nf: "\<not> (rf_SV f \<and> unat (rf_SWO f) * 4 \<le> unat (rf_EBO f))"
  obtains h s1 where "out = [h]" and "rx_end_of_frame f (hd (rx_ids s)) chunkStart (v, s) = Some (v, s1)"
    and "rx_delivers B (v_Event v) s s1 None [h]" and "m_oaValidFlag s1 = ADI_MAC_OA_VALID_FLAG_END"
    and "cur = (if rf_SV f then Some (drop (unat (rf_SWO f) * 4) (take (chunkSize s) (drop chunkStart (s_spiRxBuf s)))) else None)"
proof -
  let ?p = "take (chunkSize s) (drop chunkStart (s_spiRxBuf s))" and ?ebo = "unat (rf_EBO f)"
  note k = rx_continues_facts [OF c]
  from k(7) assms(2) nf obtain g where p: "rx_partial s = Some g" and o: "out = [g @ take (?ebo + 1) ?p]"
    and cur: "cur = (if rf_SV f then Some (drop (unat (rf_SWO f) * 4) ?p) else None)"
    by (cases "rf_SV f") (auto simp: oa_steps mult.commute split: if_splits option.splits)
  have "take (?ebo + 1) ?p = take (?ebo + 1) (drop chunkStart (s_spiRxBuf s))" using k(6) by (simp add: min_def)
  with o have oh: "out = [g @ take (?ebo + 1) (drop chunkStart (s_spiRxBuf s))]" by simp
  have nf': "\<not> (rf_SV f \<and> unat (rf_SWO f) * 4 < ?ebo)" using nf by auto
  show ?thesis
    using rx_end_of_frame_sim [OF k(1) p k(2) nf' k(4,6) refl, of v] k(8) oh cur assms(2) by (auto intro: that)
qed

lemma rx_data_both:
  assumes c: "rx_continues B s f chunkStart cur out" and both: "rf_SV f" "rf_EV f" "unat (rf_EBO f) < unat (rf_SWO f) * 4"
  shows "\<exists>s'. rx_data f chunkStart (v, s) = Some (v, s') \<and> rx_delivers B (v_Event v) s s' cur out"
proof -
  note k = rx_continues_facts [OF c] and hd = rx_continues_head [OF c]
  have nf: "\<not> (rf_SV f \<and> unat (rf_SWO f) * 4 \<le> unat (rf_EBO f))" "\<not> (rf_EV f \<and> unat (rf_SWO f) * 4 < unat (rf_EBO f))"
    using both by auto
  obtain h s1 where e: "out = [h]" "rx_end_of_frame f (hd (rx_ids s)) chunkStart (v, s) = Some (v, s1)"
    "rx_delivers B (v_Event v) s s1 None [h]" "m_oaValidFlag s1 = ADI_MAC_OA_VALID_FLAG_END"
    "cur = Some (drop (unat (rf_SWO f) * 4) (take (chunkSize s) (drop chunkStart (s_spiRxBuf s))))"
    using rx_data_ends [OF c both(2) nf(1), where v = v] both(1) by auto
  have s1: "rx_wf B s1" "rx_same s s1" "rx_ids s1 = drop 1 (rx_ids s)" using e(3) by (simp_all add: rx_delivers_def)
  have ne1: "rx_ids s1 \<noteq> []" using s1(3) k(10) e(1,5) by auto
  obtain s2 where st: "rx_start_of_frame f chunkStart (v, s1) = Some (v, s2)" "rx_delivers B (v_Event v) s1 s2 cur []"
    using rx_start_sim [OF s1(1) ne1 _ k(3) nf(2), of chunkStart v] e(4,5) k(4,5) rx_same_fields [OF s1(2)] by auto
  have "rx_delivers B (v_Event v) s s2 cur ([h] @ [])"
    by (rule rx_delivers_trans [OF e(3) st(2)]) (use k(10) e(1) in simp)
  then show ?thesis using e(1,2) st(1) both by (auto simp: rx_data_def hd)
qed

lemma rx_data_ending:
  assumes c: "rx_continues B s f chunkStart cur out" and ending: "\<not> rf_SV f" "rf_EV f"
  shows "\<exists>s'. rx_data f chunkStart (v, s) = Some (v, s') \<and> rx_delivers B (v_Event v) s s' cur out"
proof -
  note hd = rx_continues_head [OF c]
  obtain h s1 where e: "out = [h]" "rx_end_of_frame f (hd (rx_ids s)) chunkStart (v, s) = Some (v, s1)"
    "rx_delivers B (v_Event v) s s1 None [h]" "cur = None"
    by (rule rx_data_ends [OF c ending(2), where v = v]) (use ending(1) in auto)
  have "rx_middle f d chunkStart 0 (v, s1) = Some (v, s1)" for d using ending by (simp add: rx_middle_def)
  then show ?thesis using e ending by (auto simp: rx_data_def hd)
qed

lemma rx_data_sim:
  assumes c: "rx_continues B s f chunkStart cur out"
  shows "\<exists>s'. rx_data f chunkStart (v, s) = Some (v, s') \<and> rx_delivers B (v_Event v) s s' cur out"
proof -
  note k = rx_continues_facts [OF c] and hd = rx_continues_head [OF c]
  consider "rf_SV f" "rf_EV f" "unat (rf_SWO f) * 4 \<le> unat (rf_EBO f)" | "rf_SV f" "rf_EV f" "unat (rf_EBO f) < unat (rf_SWO f) * 4"
    | (start) "rf_SV f" "\<not> rf_EV f" | "\<not> rf_SV f" "rf_EV f" | (middle) "\<not> rf_SV f" "\<not> rf_EV f"
    by linarith
  then show ?thesis
  proof cases
    case start
    with k(7) have p: "rx_partial s = None" and o: "out = []"
      and cur: "cur = Some (drop (unat (rf_SWO f) * 4) (take (chunkSize s) (drop chunkStart (s_spiRxBuf s))))"
      by (auto simp: oa_steps mult.commute split: if_splits)
    have nf: "\<not> (rf_EV f \<and> unat (rf_SWO f) * 4 < unat (rf_EBO f))" using start by simp
    show ?thesis
      using rx_start_sim [OF k(1) hd(1) rx_nothing_started [OF p] k(3) nf k(4,5), of v] start cur o
      by (auto simp: rx_data_def hd)
  next
    case middle
    then obtain g where p: "rx_partial s = Some g" and o: "out = []"
      and cur: "cur = Some (g @ take (chunkSize s) (drop chunkStart (s_spiRxBuf s)))"
      using k(7) by (auto simp: oa_steps split: option.splits)
    show ?thesis
      using rx_middle_sim [OF k(1) p middle(2) k(4) refl, of v] k(9) middle cur o
      by (auto simp: rx_data_def hd)
  qed (use rx_data_whole [OF c] rx_data_both [OF c] rx_data_ending [OF c] in blast)+
qed

end
