(* ===== verification/Oa_Rx_Loop.thy ===== *)
theory Oa_Rx_Loop
  imports Oa_Rx
begin

text \<open>
  The loop of \<open>ADI_MAC_STATE_DATA_END\<close> over a whole transaction: every chunk delivers the
  frames it completes and confirms the transmitted frame it ended, so the loop delivers what
  the protocol decoder of \<open>Oa_Protocol\<close> recovers and takes the sent frames off the queue.
\<close>

section \<open>The loop over the chunks\<close>

text \<open>
  The transmit queue as the confirmation sees it: the frames are in well-formed slots and
  their descriptors are not receive descriptors (\<open>R\<close>).
\<close>

definition txq_ok :: "nat set \<Rightarrow> mac_state \<Rightarrow> bool" where
  "txq_ok R s \<longleftrightarrow> queue_inv (m_txQueue s) \<and>
     list_all (\<lambda>e. \<exists>d. fs_pBufDesc e = Some d \<and> d \<notin> R) (queue_list (m_txQueue s))"

definition delivered_in :: "nat set \<Rightarrow> mac_event list \<Rightarrow> (nat \<times> u32 \<times> u8 list) list" where
  "delivered_in R evs = filter (\<lambda>(d, _). d \<in> R) (delivered evs)"

lemma delivered_in_simps [simp]:
  "delivered_in R [] = []" "delivered_in R (es @ fs) = delivered_in R es @ delivered_in R fs"
  by (simp_all add: delivered_in_def)

text \<open>
  What the loop leaves alone: everything but the queues, the receive position, the credits
  and, outside the receive buffers, the reference counts.
\<close>

definition rx_frame :: "nat set \<Rightarrow> mac_state \<Rightarrow> mac_state \<Rightarrow> bool" where
  "rx_frame R s s' \<longleftrightarrow> (\<exists>rq tq vf off a b bufs evs.
     s' = s\<lparr>m_rxQueueLp := rq, m_txQueue := tq, m_oaValidFlag := vf, m_oaRxCurBufByteOffset := off,
        m_oaTxc := a, m_oaRca := b, s_bufs := bufs, s_events := evs\<rparr> \<and>
     (\<forall>d. d \<notin> R \<longrightarrow> (\<exists>rc. bufs d = (s_bufs s d)\<lparr>bd_refCount := rc\<rparr>)))"

lemma refcount_exI:
  "\<exists>rc. (b::adi_eth_BufDesc_t) = b\<lparr>bd_refCount := rc\<rparr>"
  "\<exists>rc. b\<lparr>bd_refCount := n\<rparr> = b\<lparr>bd_refCount := rc\<rparr>"
  by (intro exI [of _ "bd_refCount b"]; simp) blast

lemma rx_frame_refl [simp]: "rx_frame R s s"
  unfolding rx_frame_def
  by (intro exI [of _ "m_rxQueueLp s"] exI [of _ "m_txQueue s"] exI [of _ "m_oaValidFlag s"]
      exI [of _ "m_oaRxCurBufByteOffset s"] exI [of _ "m_oaTxc s"] exI [of _ "m_oaRca s"]
      exI [of _ "s_bufs s"] exI [of _ "s_events s"] conjI allI impI refcount_exI) simp

lemma rx_frame_trans:
  assumes "rx_frame R s t" and "rx_frame R t u"
  shows "rx_frame R s u"
proof -
  from assms(1) obtain rq tq vf off a b bufs evs where 1:
    "t = s\<lparr>m_rxQueueLp := rq, m_txQueue := tq, m_oaValidFlag := vf, m_oaRxCurBufByteOffset := off,
        m_oaTxc := a, m_oaRca := b, s_bufs := bufs, s_events := evs\<rparr>"
    "\<forall>d. d \<notin> R \<longrightarrow> (\<exists>rc. bufs d = (s_bufs s d)\<lparr>bd_refCount := rc\<rparr>)"
    unfolding rx_frame_def by blast
  from assms(2) obtain rq' tq' vf' off' a' b' bufs' evs' where 2:
    "u = t\<lparr>m_rxQueueLp := rq', m_txQueue := tq', m_oaValidFlag := vf', m_oaRxCurBufByteOffset := off',
        m_oaTxc := a', m_oaRca := b', s_bufs := bufs', s_events := evs'\<rparr>"
    "\<forall>d. d \<notin> R \<longrightarrow> (\<exists>rc. bufs' d = (s_bufs t d)\<lparr>bd_refCount := rc\<rparr>)"
    unfolding rx_frame_def by blast
  have "\<exists>rc. bufs' d = (s_bufs s d)\<lparr>bd_refCount := rc\<rparr>" if "d \<notin> R" for d
  proof -
    from 1(2) that obtain rc where "bufs d = (s_bufs s d)\<lparr>bd_refCount := rc\<rparr>" by blast
    moreover from 2(2) that obtain rc' where "bufs' d = (s_bufs t d)\<lparr>bd_refCount := rc'\<rparr>" by blast
    ultimately show ?thesis by (intro exI [of _ rc']) (simp add: 1(1))
  qed
  then show ?thesis unfolding rx_frame_def
    by (intro exI [of _ rq'] exI [of _ tq'] exI [of _ vf'] exI [of _ off'] exI [of _ a'] exI [of _ b']
        exI [of _ bufs'] exI [of _ evs'] conjI) (simp_all add: 1(1) 2(1))
qed

lemma rx_frame_fields:
  assumes "rx_frame R s s'"
  shows "s_spiRxBuf s' = s_spiRxBuf s" "s_spiTxBuf s' = s_spiTxBuf s" "m_oaCps s' = m_oaCps s"
    "m_oaTrxSize s' = m_oaTrxSize s" "m_oaTxCurBufIdx s' = m_oaTxCurBufIdx s"
    "m_oaTxCurBufByteOffset s' = m_oaTxCurBufByteOffset s" "m_oaMaxChunkCount s' = m_oaMaxChunkCount s"
    "m_state s' = m_state s" "m_pendingCtrl s' = m_pendingCtrl s"
    "d \<notin> R \<Longrightarrow> \<exists>rc. s_bufs s' d = (s_bufs s d)\<lparr>bd_refCount := rc\<rparr>"
proof -
  from assms obtain rq tq vf off a b bufs evs where 1:
    "s' = s\<lparr>m_rxQueueLp := rq, m_txQueue := tq, m_oaValidFlag := vf, m_oaRxCurBufByteOffset := off,
        m_oaTxc := a, m_oaRca := b, s_bufs := bufs, s_events := evs\<rparr>"
    "\<forall>d. d \<notin> R \<longrightarrow> (\<exists>rc. bufs d = (s_bufs s d)\<lparr>bd_refCount := rc\<rparr>)"
    unfolding rx_frame_def by blast
  show "s_spiRxBuf s' = s_spiRxBuf s" "s_spiTxBuf s' = s_spiTxBuf s" "m_oaCps s' = m_oaCps s"
    "m_oaTrxSize s' = m_oaTrxSize s" "m_oaTxCurBufIdx s' = m_oaTxCurBufIdx s"
    "m_oaTxCurBufByteOffset s' = m_oaTxCurBufByteOffset s" "m_oaMaxChunkCount s' = m_oaMaxChunkCount s"
    "m_state s' = m_state s" "m_pendingCtrl s' = m_pendingCtrl s"
    by (simp_all add: 1(1))
  show "\<exists>rc. s_bufs s' d = (s_bufs s d)\<lparr>bd_refCount := rc\<rparr>" if "d \<notin> R"
    using 1(2) that by (simp add: 1(1))
qed

text \<open>One or more chunks: \<open>out\<close> received, \<open>k\<close> transmitted frames confirmed.\<close>

definition rx_step ::
  "nat set \<Rightarrow> nat \<Rightarrow> u32 \<Rightarrow> mac_state \<Rightarrow> mac_state \<Rightarrow> u8 list option \<Rightarrow> u8 list list \<Rightarrow> nat \<Rightarrow> bool" where
  "rx_step R B st s s' cur out k \<longleftrightarrow>
     rx_wf B s' \<and> rx_partial s' = cur \<and> rx_ids s' = drop (length out) (rx_ids s) \<and>
     rx_frame R s s' \<and>
     txq_ok R s' \<and> m_txQueue s' = (queueRemove ^^ k) (m_txQueue s) \<and>
     queue_list (m_txQueue s') = drop k (queue_list (m_txQueue s)) \<and>
     (\<exists>evs. s_events s' = s_events s @ evs \<and>
        delivered_in R evs = map2 (\<lambda>d f. (d, st, take (length f - 4) f)) (take (length out) (rx_ids s)) out)"

text \<open>The transmit queue loses its first frame, whose buffer is returned when it was the last reference.\<close>

lemma tx_confirm_retires:
  assumes tx: "txq_ok R s" and room: "chunkStart + 4 \<le> length (s_spiTxBuf s)"
    and ends: "header_ends (drop chunkStart (s_spiTxBuf s))" and ne: "queue_list (m_txQueue s) \<noteq> []"
  shows "\<exists>d evs. d \<notin> R \<and> delivered_in R evs = [] \<and>
     queue_list (m_txQueue s) = queueFront (m_txQueue s) # queue_list (queueRemove (m_txQueue s)) \<and>
     tx_confirm chunkStart (v, s) = Some (v, (upd_desc d (\<lambda>b. b\<lparr>bd_refCount := sub32 (bd_refCount b) 1\<rparr>)
       (s\<lparr>m_txQueue := queueRemove (m_txQueue s)\<rparr>))\<lparr>s_events := s_events s @ evs\<rparr>)"
proof -
  let ?q = "m_txQueue s"
  have inv: "queue_inv ?q" using tx by (simp add: txq_ok_def)
  have nempty: "\<not> queueIsEmpty ?q" using ring.empty_iff [OF inv] ne by simp
  have list: "queue_list ?q = queueFront ?q # queue_list (queueRemove ?q)"
    by (rule queue_list_queueRemove [OF inv nempty])
  then obtain d where d: "fs_pBufDesc (queueFront ?q) = Some d" "d \<notin> R"
    using tx by (auto simp: txq_ok_def list_all_iff)
  have slot: "slot_desc ?q (q_tail ?q) = Some d"
    using inv d by (simp add: slot_desc_Some queueFront_def queue_inv_def)
  define s1 where "s1 = upd_desc d (\<lambda>b. b\<lparr>bd_refCount := sub32 (bd_refCount b) 1\<rparr>) (s\<lparr>m_txQueue := queueRemove ?q\<rparr>)"
  define s' where "s' = (if bd_refCount (s_bufs s1 d) = 0 then call_buf_desc (v_Event v) d s1 else s1)"
  have step: "tx_confirm chunkStart (v, s) = Some (v, s')"
    using ends slot room
    by (simp add: tx_confirm_def header_ends_def mem_read_ok s'_def s1_def Let_def del: mem_read_Some)
  have ev1: "s_events s1 = s_events s" by (simp add: s1_def upd_desc_def)
  define evs where "evs = (if bd_refCount (s_bufs s1 d) = 0
    then case bd_cbFunc (s_bufs s1 d) of None \<Rightarrow> [] | Some cb \<Rightarrow> [EvBufDesc cb (v_Event v) d (s_bufs s1 d)] else [])"
  have "s' = s1\<lparr>s_events := s_events s @ evs\<rparr>"
    by (simp add: s'_def evs_def call_buf_desc_def emit_def ev1 split: option.split)
  moreover have "delivered_in R evs = []"
    using d(2) by (simp add: evs_def delivered_in_def split: option.split)
  ultimately show ?thesis using d(2) list step unfolding s1_def by blast
qed

lemma tx_confirm_sim:
  assumes wf: "rx_wf B s" and ids: "set (rx_ids s) \<subseteq> R" and tx: "txq_ok R s"
    and room: "chunkStart + 4 \<le> length (s_spiTxBuf s)"
    and k: "k = (if header_ends (drop chunkStart (s_spiTxBuf s)) then 1 else 0)"
      "k \<le> length (queue_list (m_txQueue s))"
  shows "\<exists>s'. tx_confirm chunkStart (v, s) = Some (v, s') \<and> rx_step R B (v_Event v) s s' (rx_partial s) [] k \<and>
     m_oaTxc s' = m_oaTxc s \<and> m_oaRca s' = m_oaRca s"
proof (cases "header_ends (drop chunkStart (s_spiTxBuf s))")
  case False
  then show ?thesis
    using wf tx k room by (simp add: tx_confirm_def header_ends_def mem_read_ok rx_step_def del: mem_read_Some)
next
  case True
  let ?q = "m_txQueue s"
  from True k have k1: "k = 1" "queue_list ?q \<noteq> []" by auto
  have inv: "queue_inv ?q" using tx by (simp add: txq_ok_def)
  obtain d evs where d: "d \<notin> R" "delivered_in R evs = []" and list: "queue_list ?q = queueFront ?q # queue_list (queueRemove ?q)"
    and step: "tx_confirm chunkStart (v, s) = Some (v, (upd_desc d (\<lambda>b. b\<lparr>bd_refCount := sub32 (bd_refCount b) 1\<rparr>)
       (s\<lparr>m_txQueue := queueRemove ?q\<rparr>))\<lparr>s_events := s_events s @ evs\<rparr>)"
    using tx_confirm_retires [OF tx room True k1(2), of v] by blast
  define s1 where "s1 = upd_desc d (\<lambda>b. b\<lparr>bd_refCount := sub32 (bd_refCount b) 1\<rparr>) (s\<lparr>m_txQueue := queueRemove ?q\<rparr>)"
  define s' where "s' = s1\<lparr>s_events := s_events s @ evs\<rparr>"
  note step = step [folded s1_def, folded s'_def]
  have s': "s' = s1\<lparr>s_events := s_events s @ evs\<rparr>" "delivered_in R evs = []" using d(2) by (simp_all add: s'_def)
  have ids': "rx_ids s' = rx_ids s" by (rule rx_ids_cong) (simp add: s' s1_def)
  have bufs: "s_bufs s' i = s_bufs s i" if "i \<in> R" for i
    using that d(1) by (auto simp: s' s1_def upd_desc_def)
  have "list_all (\<lambda>d. rx_buf_ok B (s_bufs s' d)) (rx_ids s')"
    using wf ids bufs by (auto simp: ids' rx_wf_def list_all_iff)
  then have wf': "rx_wf B s'"
    using wf ids' by (simp add: rx_wf_def) (simp add: s' s1_def upd_desc_def)
  have "rx_partial s' = rx_partial s"
  proof (cases "rx_ids s = []")
    case True
    with wf wf' ids' show ?thesis by (auto simp: rx_partial_def rx_wf_def)
  next
    case False
    then have "hd (rx_ids s) \<in> R" using ids by auto
    then show ?thesis using bufs [of "hd (rx_ids s)"] ids'
      by (simp add: rx_partial_def) (simp add: s' s1_def upd_desc_def)
  qed
  moreover have "txq_ok R s'"
    using tx list queue_inv_queueRemove [OF inv] by (simp add: txq_ok_def s' s1_def upd_desc_def)
  moreover have "rx_frame R s s'"
    unfolding rx_frame_def
    by (intro exI [of _ "m_rxQueueLp s"] exI [of _ "queueRemove ?q"] exI [of _ "m_oaValidFlag s"]
        exI [of _ "m_oaRxCurBufByteOffset s"] exI [of _ "m_oaTxc s"] exI [of _ "m_oaRca s"]
        exI [of _ "s_bufs s'"] exI [of _ "s_events s'"] conjI)
      (simp_all add: s' s1_def upd_desc_def refcount_exI)
  ultimately show ?thesis
    using step wf' ids' list s'(2) k1
    by (auto simp: rx_step_def s'(1)) (simp_all add: s1_def upd_desc_def)
qed


lemma delivered_in_map2:
  assumes "set ids \<subseteq> R" and "delivered evs = map2 (\<lambda>d f. (d, g f)) ids out"
  shows "delivered_in R evs = map2 (\<lambda>d f. (d, g f)) ids out"
proof -
  have "\<forall>x \<in> set (map2 (\<lambda>d f. (d, g f)) ids out). case x of (d, _) \<Rightarrow> d \<in> R"
    using assms(1) by (auto dest: set_zip_leftD)
  then show ?thesis unfolding delivered_in_def assms(2) by (rule filter_True)
qed

lemma rx_delivers_step:
  assumes "rx_delivers B st (s\<lparr>m_oaTxc := a, m_oaRca := b\<rparr>) t cur out"
    and "set (rx_ids s) \<subseteq> R" and "txq_ok R s"
  shows "rx_step R B st s t cur out 0"
proof -
  let ?s = "s\<lparr>m_oaTxc := a, m_oaRca := b\<rparr>"
  have ids: "rx_ids ?s = rx_ids s" by (rule rx_ids_cong) simp
  from assms(1) obtain evs where t: "rx_wf B t" "rx_partial t = cur" "rx_same ?s t"
    "rx_ids t = drop (length out) (rx_ids s)" "s_events t = s_events s @ evs"
    "delivered evs = map2 (\<lambda>d f. (d, st, take (length f - 4) f)) (take (length out) (rx_ids s)) out"
    unfolding rx_delivers_def ids by auto
  have "set (take (length out) (rx_ids s)) \<subseteq> R" using assms(2) by (auto dest: in_set_takeD)
  from delivered_in_map2 [OF this, where g = "\<lambda>f. (st, take (length f - 4) f)"] t(6)
  have d: "delivered_in R evs = map2 (\<lambda>d f. (d, st, take (length f - 4) f)) (take (length out) (rx_ids s)) out"
    by simp
  obtain q vf off bufs evs' where u: "t = ?s\<lparr>m_rxQueueLp := q, m_oaValidFlag := vf,
     m_oaRxCurBufByteOffset := off, s_bufs := bufs, s_events := evs'\<rparr>"
    using t(3) unfolding rx_same_def by blast
  have "txq_ok R t" using assms(3) by (simp add: u txq_ok_def)
  moreover have "s_bufs t d = s_bufs s d" if "d \<notin> R" for d
    using t(3) ids assms(2) that by (auto simp: rx_same_def)
  then have "rx_frame R s t" unfolding rx_frame_def
    by (intro exI [of _ q] exI [of _ "m_txQueue s"] exI [of _ vf] exI [of _ off] exI [of _ a] exI [of _ b]
        exI [of _ bufs] exI [of _ evs'] conjI) (simp_all add: u refcount_exI)
  ultimately show ?thesis using t(1,2,4,5) d
    by (auto simp: rx_step_def) (simp_all add: u)
qed

lemma rx_step_trans:
  assumes "rx_step R B st s t c out k" and "rx_step R B st t u c' outs l"
    and "length out + length outs \<le> length (rx_ids s)"
  shows "rx_step R B st s u c' (out @ outs) (k + l)"
proof -
  from assms(1) obtain e1 where a: "rx_ids t = drop (length out) (rx_ids s)" "s_events t = s_events s @ e1"
    "delivered_in R e1 = map2 (\<lambda>d f. (d, st, take (length f - 4) f)) (take (length out) (rx_ids s)) out"
    unfolding rx_step_def by blast
  from assms(2) obtain e2 where b: "rx_ids u = drop (length outs) (rx_ids t)" "s_events u = s_events t @ e2"
    "delivered_in R e2 = map2 (\<lambda>d f. (d, st, take (length f - 4) f)) (take (length outs) (rx_ids t)) outs"
    unfolding rx_step_def by blast
  have "delivered_in R (e1 @ e2) =
      map2 (\<lambda>d f. (d, st, take (length f - 4) f)) (take (length (out @ outs)) (rx_ids s)) (out @ outs)"
    using a(1,3) b(3) assms(3) by (simp add: take_add)
  moreover have "s_events u = s_events s @ (e1 @ e2)" using a(2) b(2) by simp
  moreover have "rx_ids u = drop (length (out @ outs)) (rx_ids s)" using a(1) b(1) by (simp add: add.commute)
  moreover have "(queueRemove ^^ l) ((queueRemove ^^ k) q) = (queueRemove ^^ (k + l)) q" for q
    by (metis add.commute comp_apply funpow_add)
  moreover have "rx_frame R s u"
    using rx_frame_trans [of R s t u] assms(1,2) unfolding rx_step_def by blast
  ultimately show ?thesis
    using assms(1,2) unfolding rx_step_def by (auto simp: add.commute)
qed

text \<open>The data of a chunk with a good footer, whose credits the driver has taken.\<close>

lemma rx_credits_fields:
  fixes s :: mac_state and n m :: nat
  defines "t \<equiv> s\<lparr>m_oaTxc := n, m_oaRca := m\<rparr>"
  shows "rx_ids t = rx_ids s" "rx_wf B t \<longleftrightarrow> rx_wf B s" "rx_partial t = rx_partial s" "chunkSize t = chunkSize s"
proof -
  show i: "rx_ids t = rx_ids s" unfolding t_def by (rule rx_ids_cong) simp
  show "rx_wf B t \<longleftrightarrow> rx_wf B s" unfolding rx_wf_def i by (simp add: t_def)
  show "rx_partial t = rx_partial s" unfolding rx_partial_def i by (simp add: t_def)
  show "chunkSize t = chunkSize s" by (simp add: chunkSize_def t_def)
qed

lemma rx_chunk_data:
  assumes wf: "rx_wf B s" and ids: "set (rx_ids s) \<subseteq> R" and tx: "txq_ok R s"
    and room: "chunkStart + chunkSize s + 4 \<le> length (s_spiRxBuf s)"
    and f: "\<not> rf_FD f" "\<not> rf_RTSA f" "4 * unat (rf_SWO f) < chunkSize s" "unat (rf_EBO f) < chunkSize s"
    and dec: "footer_step f (take (chunkSize s) (drop chunkStart (s_spiRxBuf s))) (rx_partial s) = Some (cur, out)"
    and len: "\<forall>h \<in> set out. 5 \<le> length h \<and> length h \<le> B" "\<forall>h. cur = Some h \<longrightarrow> length h \<le> B"
    and enough: "length out + (if cur = None then 0 else 1) \<le> length (rx_ids s)"
  defines "s1 \<equiv> s\<lparr>m_oaTxc := unat (rf_TXC f), m_oaRca := unat (rf_RCA f)\<rparr>"
  shows "\<exists>t. (if rf_DV f \<and> \<not> m_oaRxUseBackupBuf s1 then rx_data f chunkStart (v, s1) else Some (v, s1)) = Some (v, t) \<and>
     rx_step R B (v_Event v) s t cur out 0 \<and> m_oaTxc t = m_oaTxc s1 \<and> m_oaRca t = m_oaRca s1"
proof -
  note same = rx_credits_fields [where s = s and n = "unat (rf_TXC f)" and m = "unat (rf_RCA f)", folded s1_def]
  show ?thesis
  proof (cases "rf_DV f")
    case True
    have "rx_continues B s1 f chunkStart cur out"
      using wf f room dec len enough True same by (simp add: rx_continues_def footer_step_def s1_def mult.commute)
    from rx_data_sim [OF this, of v] obtain t where
      t: "rx_data f chunkStart (v, s1) = Some (v, t)" "rx_delivers B (v_Event v) s1 t cur out" by blast
    have "rx_same s1 t" using t(2) by (simp add: rx_delivers_def)
    then have "m_oaTxc t = m_oaTxc s1" "m_oaRca t = m_oaRca s1" by (simp_all add: rx_same_fields)
    moreover have "rx_step R B (v_Event v) s t cur out 0"
      using rx_delivers_step [OF t(2) [unfolded s1_def] ids tx] by simp
    moreover have "\<not> m_oaRxUseBackupBuf s" using wf by (simp add: rx_wf_def)
    ultimately show ?thesis using t(1) True by (simp add: s1_def)
  next
    case False
    then have c: "cur = rx_partial s" "out = []" using dec by (simp_all add: footer_step_def)
    have "rx_delivers B (v_Event v) s1 s1 (rx_partial s) []"
      using wf same by (auto simp: rx_delivers_def rx_same_def)
    from rx_delivers_step [OF this [unfolded s1_def] ids tx] False c show ?thesis by (simp add: s1_def)
  qed
qed

text \<open>A chunk with a good footer.\<close>

lemma rx_chunk_sim:
  assumes wf: "rx_wf B s" and ids: "set (rx_ids s) \<subseteq> R" and tx: "txq_ok R s"
    and room: "chunkStart + chunkSize s + 4 \<le> length (s_spiRxBuf s)"
      "chunkStart + 4 \<le> length (s_spiTxBuf s)"
    and w: "w = footer_at (chunkSize s) (drop chunkStart (s_spiRxBuf s))" "clean_footer (chunkSize s) w"
    and dec: "footer_step (rf_of_VALUE32 w) (take (chunkSize s) (drop chunkStart (s_spiRxBuf s)))
       (rx_partial s) = Some (cur, out)"
    and len: "\<forall>h \<in> set out. 5 \<le> length h \<and> length h \<le> B" "\<forall>h. cur = Some h \<longrightarrow> length h \<le> B"
    and enough: "length out + (if cur = None then 0 else 1) \<le> length (rx_ids s)"
    and k: "k = (if header_ends (drop chunkStart (s_spiTxBuf s)) then 1 else 0)"
      "k \<le> length (queue_list (m_txQueue s))"
  shows "\<exists>v' s'. rx_chunk chunkStart (v, s) = Some (v', s') \<and> v_Event v' = v_Event v \<and>
     v_footer v' = Some (rf_of_VALUE32 w) \<and> rx_step R B (v_Event v) s s' cur out k \<and>
     v_exst v' = (v_exst v \<or> rf_EXST (rf_of_VALUE32 w)) \<and>
     m_oaTxc s' = unat (rf_TXC (rf_of_VALUE32 w)) \<and> m_oaRca s' = unat (rf_RCA (rf_of_VALUE32 w))"
proof -
  define f where "f = rf_of_VALUE32 w"
  let ?v = "v\<lparr>v_footer := Some f, v_exst := v_exst v \<or> rf_EXST f\<rparr>"
  let ?s = "s\<lparr>m_oaTxc := unat (rf_TXC f), m_oaRca := unat (rf_RCA f)\<rparr>"
  have cl: "odd (popcount w)" "rf_SYNC f" "\<not> rf_FD f" "\<not> rf_RTSA f"
    "4 * unat (rf_SWO f) < chunkSize s" "unat (rf_EBO f) < chunkSize s"
    using w(2) by (simp_all add: clean_footer_def f_def Let_def)
  have bad: "w \<noteq> ADI_OA_HEADER_BAD"
    using cl(2) by (auto simp: f_def rf_of_VALUE32_def ADI_OA_HEADER_BAD_def)
  have par: "MAC_CalculateParity (le_bytes32 w) \<noteq> 0"
    using cl(1) by (simp add: MAC_CalculateParity_word)
  have rd: "mem_read (s_spiRxBuf s) (chunkStart + chunkSize s) 4 =
      Some (take 4 (drop (chunkSize s) (drop chunkStart (s_spiRxBuf s))))"
    using room(1) by (simp add: mem_read_ok add.commute)
  obtain t where t: "(if rf_DV f \<and> \<not> m_oaRxUseBackupBuf ?s then rx_data f chunkStart (?v, ?s)
        else Some (?v, ?s)) = Some (?v, t)" "rx_step R B (v_Event v) s t cur out 0"
    "m_oaTxc t = m_oaTxc ?s" "m_oaRca t = m_oaRca ?s"
    using rx_chunk_data [OF wf ids tx room(1) cl(3-6) dec [folded f_def] len enough, of ?v] by auto
  have t': "rx_wf B t" "rx_partial t = cur" "set (rx_ids t) \<subseteq> R" "txq_ok R t" "s_spiTxBuf t = s_spiTxBuf s"
    "m_txQueue t = m_txQueue s"
    using t(2) ids rx_frame_fields [of R s t] by (auto simp: rx_step_def dest: in_set_dropD)
  obtain u where u: "tx_confirm chunkStart (?v, t) = Some (?v, u)"
    "rx_step R B (v_Event ?v) t u (rx_partial t) [] k" "m_oaTxc u = m_oaTxc t" "m_oaRca u = m_oaRca t"
    using tx_confirm_sim [OF t'(1,3,4), of chunkStart k ?v] room(2) k t'(5,6) by auto
  have "rx_step R B (v_Event v) s u cur (out @ []) (0 + k)"
    by (rule rx_step_trans [OF t(2)]) (use u(2) t'(2) enough in simp_all)
  moreover have wd: "HTON32 (le_word32 (take 4 (drop (chunkSize s) (drop chunkStart (s_spiRxBuf s))))) = w"
    using w(1) by (simp only: footer_at_def)
  then have "rx_chunk chunkStart (v, s) = Some (?v, u)"
    unfolding rx_chunk_def prod.case rd Let_def Option.bind.bind_lunit wd
    using bad par cl(2) t(1) u(1) by (simp flip: f_def) (auto split: if_splits)
  ultimately show ?thesis using u(3,4) t(3,4) by (auto simp: f_def)
qed


text \<open>The chunks of a transaction.\<close>

fun clean_footers :: "nat \<Rightarrow> nat \<Rightarrow> u8 list \<Rightarrow> bool" where
  "clean_footers 0 cs bs = True"
| "clean_footers (Suc n) cs bs =
     (clean_footer cs (footer_at cs bs) \<and> clean_footers n cs (drop (4 + cs) bs))"

fun some_exst :: "nat \<Rightarrow> nat \<Rightarrow> u8 list \<Rightarrow> bool" where
  "some_exst 0 cs bs = False"
| "some_exst (Suc n) cs bs =
     (rf_EXST (rf_of_VALUE32 (footer_at cs bs)) \<or> some_exst n cs (drop (4 + cs) bs))"

definition last_footer :: "nat \<Rightarrow> nat \<Rightarrow> u8 list \<Rightarrow> adi_mac_OaRxFooter_t" where
  "last_footer n cs bs = rf_of_VALUE32 (footer_at cs (drop ((n - 1) * (4 + cs)) bs))"

lemma oa_rx_decode_extends:
  "oa_rx_decode n cs bs cur = Some (cur', outs) \<Longrightarrow> oa_extends cur cur' outs"
proof (induction n arbitrary: bs cur outs)
  case 0
  then show ?case by (auto simp: oa_extends_def split: option.splits)
next
  case (Suc n)
  then obtain c1 o1 o2 where
    a: "footer_step (rf_of_VALUE32 (footer_at cs bs)) (take cs bs) cur = Some (c1, o1)" and
    b: "oa_rx_decode n cs (drop (4 + cs) bs) c1 = Some (cur', o2)" and c: "outs = o1 @ o2"
    by (auto simp: bind_eq_Some_conv)
  from a have "oa_extends cur c1 o1" unfolding footer_step_def by (rule oa_step_extends)
  from oa_extends_trans [OF this Suc.IH [OF b]] show ?case by (simp add: c)
qed

lemma rx_chunks_sim:
  assumes "rx_wf B s" and "set (rx_ids s) \<subseteq> R" and "txq_ok R s" and "cs = chunkSize s"
    and "chunkStart + n * (4 + cs) = trx" and "trx \<le> length (s_spiRxBuf s)" and "trx \<le> length (s_spiTxBuf s)"
    and "clean_footers n cs (drop chunkStart (s_spiRxBuf s))"
    and "oa_rx_decode n cs (drop chunkStart (s_spiRxBuf s)) (rx_partial s) = Some (cur, outs)"
    and "\<forall>h \<in> set outs. 5 \<le> length h \<and> length h \<le> B" and "\<forall>h. cur = Some h \<longrightarrow> length h \<le> B"
    and "length outs + (if cur = None then 0 else 1) \<le> length (rx_ids s)"
    and "tx_ends n cs (drop chunkStart (s_spiTxBuf s)) \<le> length (queue_list (m_txQueue s))"
  shows "\<exists>v' s'. rx_chunks trx cs chunkStart (v, s) = Some (v', s') \<and> v_Event v' = v_Event v \<and>
     rx_step R B (v_Event v) s s' cur outs (tx_ends n cs (drop chunkStart (s_spiTxBuf s))) \<and>
     v_exst v' = (v_exst v \<or> some_exst n cs (drop chunkStart (s_spiRxBuf s))) \<and>
     (0 < n \<longrightarrow> (let f = last_footer n cs (drop chunkStart (s_spiRxBuf s)) in
        v_footer v' = Some f \<and> rf_SYNC f \<and> m_oaTxc s' = unat (rf_TXC f) \<and> m_oaRca s' = unat (rf_RCA f)))"
  using assms
proof (induction n arbitrary: chunkStart v s outs)
  case 0
  then have "rx_chunks trx cs chunkStart (v, s) = Some (v, s)" by (simp add: rx_chunks.simps)
  moreover have "rx_step R B (v_Event v) s s cur outs 0"
    using 0 by (auto simp: rx_step_def intro!: exI [of _ "[]"])
  ultimately show ?case using 0 by simp
next
  case (Suc n)
  let ?rx = "drop chunkStart (s_spiRxBuf s)" and ?tx = "drop chunkStart (s_spiTxBuf s)"
  let ?next = "chunkStart + 4 + cs"
  define w where "w = footer_at cs ?rx"
  obtain c1 o1 o2 where a: "footer_step (rf_of_VALUE32 w) (take cs ?rx) (rx_partial s) = Some (c1, o1)"
    and b: "oa_rx_decode n cs (drop (4 + cs) ?rx) c1 = Some (cur, o2)" and outs: "outs = o1 @ o2"
    using Suc.prems(9) by (auto simp: bind_eq_Some_conv w_def)
  note ext = oa_rx_decode_extends [OF b]
  have l1: "\<forall>h \<in> set o1. 5 \<le> length h \<and> length h \<le> B" and l2: "\<forall>h \<in> set o2. 5 \<le> length h \<and> length h \<le> B"
    using Suc.prems(10) outs by auto
  have c1: "\<forall>h. c1 = Some h \<longrightarrow> length h \<le> B"
    using ext l2 Suc.prems(11) by (cases o2) (auto simp: oa_extends_def)
  have en: "length o1 + (if c1 = None then 0 else 1) \<le> length (rx_ids s)"
    using ext Suc.prems(12) outs by (cases o2) (auto simp: oa_extends_def split: option.splits if_splits)
  define k where "k = (if header_ends ?tx then 1 else 0 :: nat)"
  let ?l = "tx_ends n cs (drop (4 + cs) ?tx)"
  have ends: "tx_ends (Suc n) cs ?tx = k + ?l" by (simp add: k_def)
  have room: "chunkStart + chunkSize s + 4 \<le> length (s_spiRxBuf s)" "chunkStart + 4 \<le> length (s_spiTxBuf s)"
    and lt: "chunkStart < trx"
    using Suc.prems(4-7) by auto
  obtain v1 s1 where one: "rx_chunk chunkStart (v, s) = Some (v1, s1)" "v_Event v1 = v_Event v"
    "v_footer v1 = Some (rf_of_VALUE32 w)" "rx_step R B (v_Event v) s s1 c1 o1 k"
    "v_exst v1 = (v_exst v \<or> rf_EXST (rf_of_VALUE32 w))"
    "m_oaTxc s1 = unat (rf_TXC (rf_of_VALUE32 w))" "m_oaRca s1 = unat (rf_RCA (rf_of_VALUE32 w))"
    using rx_chunk_sim [OF Suc.prems(1-3) room, of w c1 o1 k v] Suc.prems(4,8,13) a l1 c1 en ends
    by (auto simp: w_def k_def)
  have s1: "rx_wf B s1" "rx_partial s1 = c1" "rx_ids s1 = drop (length o1) (rx_ids s)"
    "s_spiRxBuf s1 = s_spiRxBuf s" "s_spiTxBuf s1 = s_spiTxBuf s" "m_oaCps s1 = m_oaCps s" "txq_ok R s1"
    "queue_list (m_txQueue s1) = drop k (queue_list (m_txQueue s))"
    using one(4) rx_frame_fields [of R s s1] unfolding rx_step_def by - (elim conjE, simp only:)+
  have ids1: "set (rx_ids s1) \<subseteq> R" using Suc.prems(2) s1(3) by (auto dest: in_set_dropD)
  have dr: "drop (4 + cs) (drop chunkStart xs) = drop ?next xs" for xs :: "u8 list"
    by (simp add: add.commute add.left_commute)
  have csz: "chunkSize s1 = cs" using Suc.prems(4) s1(6) by (simp add: chunkSize_def)
  have prems: "cs = chunkSize s1" "?next + n * (4 + cs) = trx" "trx \<le> length (s_spiRxBuf s1)"
    "trx \<le> length (s_spiTxBuf s1)" "clean_footers n cs (drop ?next (s_spiRxBuf s1))"
    "oa_rx_decode n cs (drop ?next (s_spiRxBuf s1)) (rx_partial s1) = Some (cur, o2)"
    "length o2 + (if cur = None then 0 else 1) \<le> length (rx_ids s1)"
    "tx_ends n cs (drop ?next (s_spiTxBuf s1)) \<le> length (queue_list (m_txQueue s1))"
    using csz Suc.prems(5-8,12,13) s1(2-5,8) b outs ends by (simp_all add: ac_simps)
  obtain v2 s2 where two: "rx_chunks trx cs ?next (v1, s1) = Some (v2, s2)" "v_Event v2 = v_Event v1"
    "rx_step R B (v_Event v1) s1 s2 cur o2 ?l"
    "v_exst v2 = (v_exst v1 \<or> some_exst n cs (drop (4 + cs) ?rx))"
    "0 < n \<longrightarrow> (let f = last_footer n cs (drop (4 + cs) ?rx) in
        v_footer v2 = Some f \<and> rf_SYNC f \<and> m_oaTxc s2 = unat (rf_TXC f) \<and> m_oaRca s2 = unat (rf_RCA f))"
    using Suc.IH [OF s1(1) ids1 s1(7) prems(1-6) l2 Suc.prems(11) prems(7,8), of v1]
    unfolding s1(4,5) dr by blast
  have "rx_chunks trx cs chunkStart (v, s) = Some (v2, s2)"
    using lt one(1) two(1) by (simp add: rx_chunks.simps [of trx cs chunkStart] ADI_SPI_HEADER_SIZE_def)
  moreover have "rx_step R B (v_Event v) s s2 cur outs (tx_ends (Suc n) cs ?tx)"
    unfolding outs ends
    by (rule rx_step_trans [OF one(4)]) (use two(3) one(2) Suc.prems(12) outs in auto)
  moreover have "last_footer (Suc n) cs ?rx = (if n = 0 then rf_of_VALUE32 w else last_footer n cs (drop (4 + cs) ?rx))"
    by (cases n) (simp_all add: last_footer_def w_def ac_simps)
  moreover have "n = 0 \<Longrightarrow> v2 = v1 \<and> s2 = s1"
    using two(1) prems(2) by (simp add: rx_chunks.simps)
  moreover have "rf_SYNC (rf_of_VALUE32 w)"
    using Suc.prems(8) by (simp add: w_def clean_footer_def Let_def)
  ultimately show ?case
    using two one by (cases "n = 0") (auto simp: w_def)
qed

section \<open>The receive path delivers\<close>

text \<open>
  C5: for a transaction whose footers are free of errors and whose frames do not outnumber the
  receive buffers queued, the loop of \<open>ADI_MAC_STATE_DATA_END\<close> returns, and hands the application exactly the
  frames the protocol decoder recovers from the chunks of the transaction, in order, without
  their frame check sequence, each in the next queued buffer; the frame still incomplete is
  kept, the frames whose transmission ended are taken off the transmit queue, and the credits
  are those of the last footer.
\<close>

theorem receive_delivers_decoded_frames:
  assumes "rx_wf B s" and "set (rx_ids s) \<subseteq> R" and "txq_ok R s" and "0 < n"
    and "trx = n * (4 + chunkSize s)" and "trx \<le> length (s_spiRxBuf s)" and "trx \<le> length (s_spiTxBuf s)"
    and "clean_footers n (chunkSize s) (s_spiRxBuf s)"
    and "oa_rx_decode n (chunkSize s) (s_spiRxBuf s) (rx_partial s) = Some (cur, outs)"
    and "\<forall>h \<in> set outs. 5 \<le> length h \<and> length h \<le> B" and "\<forall>h. cur = Some h \<longrightarrow> length h \<le> B"
    and "length outs + (if cur = None then 0 else 1) \<le> length (rx_ids s)"
    and "tx_ends n (chunkSize s) (s_spiTxBuf s) \<le> length (queue_list (m_txQueue s))"
  shows "\<exists>v' s' evs. rx_chunks trx (chunkSize s) 0 (v, s) = Some (v', s') \<and>
     s_events s' = s_events s @ evs \<and>
     delivered_in R evs =
       map2 (\<lambda>d f. (d, v_Event v, take (length f - 4) f)) (take (length outs) (rx_ids s)) outs \<and>
     rx_partial s' = cur \<and> rx_ids s' = drop (length outs) (rx_ids s) \<and> rx_wf B s' \<and>
     queue_list (m_txQueue s') =
       drop (tx_ends n (chunkSize s) (s_spiTxBuf s)) (queue_list (m_txQueue s)) \<and>
     (let f = last_footer n (chunkSize s) (s_spiRxBuf s) in
        m_oaTxc s' = unat (rf_TXC f) \<and> m_oaRca s' = unat (rf_RCA f))"
  using rx_chunks_sim [OF assms(1-3) refl, of 0 n trx cur outs v] assms(4-13)
  by (fastforce simp: rx_step_def Let_def)

text \<open>A frame of 12 bytes in two chunks of 8, received into descriptor 7.\<close>

definition rx_example :: mac_state where
  "rx_example = (static_state (\<lambda>d. blank_desc))
     \<lparr>m_oaCps := 3, s_spiTxBuf := replicate 24 0,
      s_spiRxBuf := [1, 2, 3, 4, 5, 6, 7, 8, 0x20, 0x30, 0, 0, 9, 10, 11, 12, 0, 0, 0, 0, 0x20, 0x20, 0x43, 0],
      m_rxQueueLp := queuePut (queueInit RX_QUEUE_NUM_ENTRIES_RAW) \<lparr>fs_header = 0, fs_pBufDesc = Some 7\<rparr>\<rparr>"

lemma rx_example_ids: "rx_ids rx_example = [7]"
  by (simp add: rx_example_def rx_ids_def queue_list_def queuePut_def queueAdd_def queueInit_def
      queueCount_def PSEUDO_MODULO_def queue_slot_def RX_QUEUE_NUM_ENTRIES_RAW_def upt_small)

lemma rx_example_footers:
  "footer_at 8 (s_spiRxBuf rx_example) = 0x20300000"
  "footer_at 8 (drop 12 (s_spiRxBuf rx_example)) = 0x20204300"
  by (simp_all add: rx_example_def footer_at_def HTON32_def le_word32_def)

lemma rx_example_fields:
  "rf_of_VALUE32 0x20300000 = \<lparr>rf_P = False, rf_TXC = 0, rf_RTSP = False, rf_RTSA = False, rf_EBO = 0,
     rf_EV = False, rf_FD = False, rf_SWO = 0, rf_SV = True, rf_DV = True, rf_VS = 0, rf_RCA = 0,
     rf_SYNC = True, rf_HDRB = False, rf_EXST = False\<rparr>"
  "rf_of_VALUE32 0x20204300 = \<lparr>rf_P = False, rf_TXC = 0, rf_RTSP = False, rf_RTSA = False, rf_EBO = 3,
     rf_EV = True, rf_FD = False, rf_SWO = 0, rf_SV = False, rf_DV = True, rf_VS = 0, rf_RCA = 0,
     rf_SYNC = True, rf_HDRB = False, rf_EXST = False\<rparr>"
  by code_simp+

lemma rx_example_decode:
  "oa_rx_decode 2 8 (s_spiRxBuf rx_example) None = Some (None, [[1, 2, 3, 4, 5, 6, 7, 8, 9, 10, 11, 12]])"
proof -
  have "unat (3 :: 6 word) = 3" by simp
  with rx_example_footers show ?thesis
    by (simp add: numeral_2_eq_2 footer_step_def oa_step_def rx_example_fields rx_example_def
        del: unat_numeral)
qed

lemma rx_example_clean: "clean_footers 2 8 (s_spiRxBuf rx_example)"
proof -
  have "odd (popcount (0x20300000 :: u32))" "odd (popcount (0x20204300 :: u32))" by code_simp+
  moreover have "unat (3 :: 6 word) = 3" by simp
  ultimately show ?thesis
    using rx_example_footers
    by (simp add: numeral_2_eq_2 clean_footer_def rx_example_fields Let_def del: unat_numeral)
qed

theorem receive_delivers_decoded_frames_witness:
  "\<exists>v' s' evs.
     rx_chunks 24 8 0 (\<lparr>v_exst = False, v_Event = 0, v_timestampBytes = [], v_footer = None\<rparr>, rx_example) =
       Some (v', s') \<and> s_events s' = evs \<and> delivered_in {7} evs = [(7, 0, [1, 2, 3, 4, 5, 6, 7, 8])] \<and>
     rx_partial s' = None \<and> rx_ids s' = []"
proof -
  have cs: "chunkSize rx_example = 8" and len: "length (s_spiRxBuf rx_example) = 24"
    "length (s_spiTxBuf rx_example) = 24" and ev: "s_events rx_example = []"
    and p: "rx_partial rx_example = None"
    by (simp_all add: rx_example_def chunkSize_def rx_partial_def)
  have wf: "rx_wf 1530 rx_example" and tq: "txq_ok {7} rx_example"
    using rx_example_ids
    by (simp_all add: rx_wf_def txq_ok_def rx_example_def rx_buf_ok_def queue_inv_def queue_list_def
        queuePut_def queueAdd_def queueInit_def queueCount_def PSEUDO_MODULO_def queue_slot_def
        RX_QUEUE_NUM_ENTRIES_RAW_def TX_QUEUE_NUM_ENTRIES_RAW_def upt_small)
  have te: "tx_ends 2 8 (s_spiTxBuf rx_example) = 0"
    by (simp add: rx_example_def numeral_2_eq_2 header_ends_def HTON32_def le_word32_def th_of_VALUE32_def)
  show ?thesis
    using receive_delivers_decoded_frames [OF wf _ tq, of 2 24 None
        "[[1, 2, 3, 4, 5, 6, 7, 8, 9, 10, 11, 12]]"
        "\<lparr>v_exst = False, v_Event = 0, v_timestampBytes = [], v_footer = None\<rparr>"]
      cs len p rx_example_ids rx_example_clean rx_example_decode te ev
    by fastforce
qed

end
