(* ===== verification/Adin_Regs.thy ===== *)
theory Adin_Regs
  imports Bm_Prelude
begin

text \<open>
  The registers of the ADIN2111 that the driver names (\<open>ADIN2111_mac_addr_rdef.h\<close> and
  \<open>ADIN2111_phy_addr_rdef.h\<close>): addresses, bit masks and enumeration values, as words,
  and the bit positions.
  \<open>mac_regs\<close> and \<open>phy_regs\<close> collect their values.
\<close>

section \<open>MAC registers\<close>

definition ADDR_MAC_PHYID :: u32 where "ADDR_MAC_PHYID = 0x1"
definition ADDR_MAC_RESET :: u32 where "ADDR_MAC_RESET = 0x3"
definition ADDR_MAC_CONFIG0 :: u32 where "ADDR_MAC_CONFIG0 = 0x4"
definition ADDR_MAC_CONFIG2 :: u32 where "ADDR_MAC_CONFIG2 = 0x6"
definition ADDR_MAC_STATUS0 :: u32 where "ADDR_MAC_STATUS0 = 0x8"
definition ADDR_MAC_STATUS1 :: u32 where "ADDR_MAC_STATUS1 = 0x9"
definition ADDR_MAC_IMASK0 :: u32 where "ADDR_MAC_IMASK0 = 0xc"
definition ADDR_MAC_IMASK1 :: u32 where "ADDR_MAC_IMASK1 = 0xd"
definition ADDR_MAC_TTSCAH :: u32 where "ADDR_MAC_TTSCAH = 0x10"
definition ADDR_MAC_TTSCAL :: u32 where "ADDR_MAC_TTSCAL = 0x11"
definition ADDR_MAC_TTSCBH :: u32 where "ADDR_MAC_TTSCBH = 0x12"
definition ADDR_MAC_TTSCBL :: u32 where "ADDR_MAC_TTSCBL = 0x13"
definition ADDR_MAC_TTSCCH :: u32 where "ADDR_MAC_TTSCCH = 0x14"
definition ADDR_MAC_TTSCCL :: u32 where "ADDR_MAC_TTSCCL = 0x15"
definition ADDR_MAC_MDIOACC_0 :: u32 where "ADDR_MAC_MDIOACC_0 = 0x20"
definition ADDR_MAC_MDIOACC_1 :: u32 where "ADDR_MAC_MDIOACC_1 = 0x21"
definition ADDR_MAC_FIFO_CLR :: u32 where "ADDR_MAC_FIFO_CLR = 0x36"
definition ADDR_MAC_SOFT_RST :: u32 where "ADDR_MAC_SOFT_RST = 0x3c"
definition ADDR_MAC_FIFO_SIZE :: u32 where "ADDR_MAC_FIFO_SIZE = 0x3e"
definition ADDR_MAC_ADDR_FILT_UPR_0 :: u32 where "ADDR_MAC_ADDR_FILT_UPR_0 = 0x50"
definition ADDR_MAC_ADDR_FILT_UPR_1 :: u32 where "ADDR_MAC_ADDR_FILT_UPR_1 = 0x52"
definition ADDR_MAC_ADDR_FILT_LWR_0 :: u32 where "ADDR_MAC_ADDR_FILT_LWR_0 = 0x51"
definition ADDR_MAC_ADDR_MSK_UPR_0 :: u32 where "ADDR_MAC_ADDR_MSK_UPR_0 = 0x70"
definition ADDR_MAC_ADDR_MSK_LWR_0 :: u32 where "ADDR_MAC_ADDR_MSK_LWR_0 = 0x71"
definition ADDR_MAC_TS_ADDEND :: u32 where "ADDR_MAC_TS_ADDEND = 0x80"
definition ADDR_MAC_TS_SEC_CNT :: u32 where "ADDR_MAC_TS_SEC_CNT = 0x82"
definition ADDR_MAC_TS_NS_CNT :: u32 where "ADDR_MAC_TS_NS_CNT = 0x83"
definition ADDR_MAC_TS_CFG :: u32 where "ADDR_MAC_TS_CFG = 0x84"
definition ADDR_MAC_TS_TIMER_HI :: u32 where "ADDR_MAC_TS_TIMER_HI = 0x85"
definition ADDR_MAC_TS_TIMER_LO :: u32 where "ADDR_MAC_TS_TIMER_LO = 0x86"
definition ADDR_MAC_TS_TIMER_QE_CORR :: u32 where "ADDR_MAC_TS_TIMER_QE_CORR = 0x87"
definition ADDR_MAC_TS_TIMER_START :: u32 where "ADDR_MAC_TS_TIMER_START = 0x88"
definition ADDR_MAC_TS_EXT_CAPT0 :: u32 where "ADDR_MAC_TS_EXT_CAPT0 = 0x89"
definition ADDR_MAC_TS_EXT_CAPT1 :: u32 where "ADDR_MAC_TS_EXT_CAPT1 = 0x8a"
definition ADDR_MAC_TS_FREECNT_CAPT :: u32 where "ADDR_MAC_TS_FREECNT_CAPT = 0x8b"
definition ADDR_MAC_P1_RX_FRM_CNT :: u32 where "ADDR_MAC_P1_RX_FRM_CNT = 0xa0"
definition ADDR_MAC_P1_RX_BCAST_CNT :: u32 where "ADDR_MAC_P1_RX_BCAST_CNT = 0xa1"
definition ADDR_MAC_P1_RX_MCAST_CNT :: u32 where "ADDR_MAC_P1_RX_MCAST_CNT = 0xa2"
definition ADDR_MAC_P1_RX_UCAST_CNT :: u32 where "ADDR_MAC_P1_RX_UCAST_CNT = 0xa3"
definition ADDR_MAC_P1_RX_CRC_ERR_CNT :: u32 where "ADDR_MAC_P1_RX_CRC_ERR_CNT = 0xa4"
definition ADDR_MAC_P1_RX_ALGN_ERR_CNT :: u32 where "ADDR_MAC_P1_RX_ALGN_ERR_CNT = 0xa5"
definition ADDR_MAC_P1_RX_LS_ERR_CNT :: u32 where "ADDR_MAC_P1_RX_LS_ERR_CNT = 0xa6"
definition ADDR_MAC_P1_RX_PHY_ERR_CNT :: u32 where "ADDR_MAC_P1_RX_PHY_ERR_CNT = 0xa7"
definition ADDR_MAC_P1_TX_FRM_CNT :: u32 where "ADDR_MAC_P1_TX_FRM_CNT = 0xa8"
definition ADDR_MAC_P1_TX_BCAST_CNT :: u32 where "ADDR_MAC_P1_TX_BCAST_CNT = 0xa9"
definition ADDR_MAC_P1_TX_MCAST_CNT :: u32 where "ADDR_MAC_P1_TX_MCAST_CNT = 0xaa"
definition ADDR_MAC_P1_TX_UCAST_CNT :: u32 where "ADDR_MAC_P1_TX_UCAST_CNT = 0xab"
definition ADDR_MAC_P1_RX_DROP_FULL_CNT :: u32 where "ADDR_MAC_P1_RX_DROP_FULL_CNT = 0xac"
definition ADDR_MAC_P1_RX_DROP_FILT_CNT :: u32 where "ADDR_MAC_P1_RX_DROP_FILT_CNT = 0xad"
definition ADDR_MAC_P2_RX_FRM_CNT :: u32 where "ADDR_MAC_P2_RX_FRM_CNT = 0xd0"
definition RSTVAL_MAC_PHYID :: u32 where "RSTVAL_MAC_PHYID = 0x283bca1"
definition BITM_MAC_CONFIG0_CPS :: u32 where "BITM_MAC_CONFIG0_CPS = 0x7"
definition BITM_MAC_CONFIG0_FTSS :: u32 where "BITM_MAC_CONFIG0_FTSS = 0x40"
definition BITM_MAC_CONFIG0_FTSE :: u32 where "BITM_MAC_CONFIG0_FTSE = 0x80"
definition BITM_MAC_CONFIG0_RXCTE :: u32 where "BITM_MAC_CONFIG0_RXCTE = 0x100"
definition BITM_MAC_CONFIG0_TXCTE :: u32 where "BITM_MAC_CONFIG0_TXCTE = 0x200"
definition BITM_MAC_CONFIG0_TXFCSVE :: u32 where "BITM_MAC_CONFIG0_TXFCSVE = 0x4000"
definition BITM_MAC_CONFIG0_SYNC :: u32 where "BITM_MAC_CONFIG0_SYNC = 0x8000"
definition BITM_MAC_CONFIG2_P1_FWD_UNK2HOST :: u32 where "BITM_MAC_CONFIG2_P1_FWD_UNK2HOST = 0x4"
definition BITM_MAC_CONFIG2_CRC_APPEND :: u32 where "BITM_MAC_CONFIG2_CRC_APPEND = 0x20"
definition BITM_MAC_CONFIG2_PORT_CUT_THRU_EN :: u32 where "BITM_MAC_CONFIG2_PORT_CUT_THRU_EN = 0x800"
definition BITM_MAC_CONFIG2_P2_FWD_UNK2HOST :: u32 where "BITM_MAC_CONFIG2_P2_FWD_UNK2HOST = 0x1000"
definition BITM_MAC_CONFIG2_P1_FWD_UNK2P2 :: u32 where "BITM_MAC_CONFIG2_P1_FWD_UNK2P2 = 0x2000"
definition BITM_MAC_CONFIG2_P2_FWD_UNK2P1 :: u32 where "BITM_MAC_CONFIG2_P2_FWD_UNK2P1 = 0x4000"
definition BITM_MAC_STATUS0_RESETC :: u32 where "BITM_MAC_STATUS0_RESETC = 0x40"
definition BITM_MAC_STATUS0_PHYINT :: u32 where "BITM_MAC_STATUS0_PHYINT = 0x80"
definition BITM_MAC_STATUS1_P2_PHYINT :: u32 where "BITM_MAC_STATUS1_P2_PHYINT = 0x80000"
definition BITM_MAC_IMASK0_TXPEM :: u32 where "BITM_MAC_IMASK0_TXPEM = 0x1"
definition BITM_MAC_IMASK0_TXBOEM :: u32 where "BITM_MAC_IMASK0_TXBOEM = 0x2"
definition BITM_MAC_IMASK0_TXBUEM :: u32 where "BITM_MAC_IMASK0_TXBUEM = 0x4"
definition BITM_MAC_IMASK0_RXBOEM :: u32 where "BITM_MAC_IMASK0_RXBOEM = 0x8"
definition BITM_MAC_IMASK0_LOFEM :: u32 where "BITM_MAC_IMASK0_LOFEM = 0x10"
definition BITM_MAC_IMASK0_HDREM :: u32 where "BITM_MAC_IMASK0_HDREM = 0x20"
definition BITM_MAC_IMASK0_RESETCM :: u32 where "BITM_MAC_IMASK0_RESETCM = 0x40"
definition BITM_MAC_IMASK0_PHYINTM :: u32 where "BITM_MAC_IMASK0_PHYINTM = 0x80"
definition BITM_MAC_IMASK0_TTSCAAM :: u32 where "BITM_MAC_IMASK0_TTSCAAM = 0x100"
definition BITM_MAC_IMASK0_TTSCABM :: u32 where "BITM_MAC_IMASK0_TTSCABM = 0x200"
definition BITM_MAC_IMASK0_TTSCACM :: u32 where "BITM_MAC_IMASK0_TTSCACM = 0x400"
definition BITM_MAC_IMASK0_TXFCSEM :: u32 where "BITM_MAC_IMASK0_TXFCSEM = 0x800"
definition BITM_MAC_IMASK0_CDPEM :: u32 where "BITM_MAC_IMASK0_CDPEM = 0x1000"
definition BITM_MAC_IMASK1_LINK_CHANGE_MASK :: u32 where "BITM_MAC_IMASK1_LINK_CHANGE_MASK = 0x2"
definition BITM_MAC_IMASK1_TX_RDY_MASK :: u32 where "BITM_MAC_IMASK1_TX_RDY_MASK = 0x8"
definition BITM_MAC_IMASK1_P1_RX_RDY_MASK :: u32 where "BITM_MAC_IMASK1_P1_RX_RDY_MASK = 0x10"
definition BITM_MAC_IMASK1_P1_RX_IFG_ERR_MASK :: u32 where "BITM_MAC_IMASK1_P1_RX_IFG_ERR_MASK = 0x100"
definition BITM_MAC_IMASK1_SPI_ERR_MASK :: u32 where "BITM_MAC_IMASK1_SPI_ERR_MASK = 0x400"
definition BITM_MAC_IMASK1_RX_ECC_ERR_MASK :: u32 where "BITM_MAC_IMASK1_RX_ECC_ERR_MASK = 0x800"
definition BITM_MAC_IMASK1_TX_ECC_ERR_MASK :: u32 where "BITM_MAC_IMASK1_TX_ECC_ERR_MASK = 0x1000"
definition BITM_MAC_IMASK1_P2_RX_RDY_MASK :: u32 where "BITM_MAC_IMASK1_P2_RX_RDY_MASK = 0x20000"
definition BITM_MAC_IMASK1_P2_PHYINT_MASK :: u32 where "BITM_MAC_IMASK1_P2_PHYINT_MASK = 0x80000"
definition BITM_MAC_IMASK1_P2_TTSCAAM :: u32 where "BITM_MAC_IMASK1_P2_TTSCAAM = 0x100000"
definition BITM_MAC_IMASK1_P2_TTSCABM :: u32 where "BITM_MAC_IMASK1_P2_TTSCABM = 0x200000"
definition BITM_MAC_IMASK1_P2_TTSCACM :: u32 where "BITM_MAC_IMASK1_P2_TTSCACM = 0x400000"
definition BITM_MAC_IMASK1_P2_TXFCSEM :: u32 where "BITM_MAC_IMASK1_P2_TXFCSEM = 0x1000000"
definition BITM_MAC_MDIOACC_N__MDIO_TRDONE :: u32 where "BITM_MAC_MDIOACC_N__MDIO_TRDONE = 0x80000000"
definition ENUM_MAC_MDIOACC_N__MDIO_ST_CLAUSE45 :: u32 where "ENUM_MAC_MDIOACC_N__MDIO_ST_CLAUSE45 = 0x0"
definition ENUM_MAC_MDIOACC_N__MDIO_OP_MD_ADDR :: u32 where "ENUM_MAC_MDIOACC_N__MDIO_OP_MD_ADDR = 0x0"
definition ENUM_MAC_MDIOACC_N__MDIO_OP_MD_WR :: u32 where "ENUM_MAC_MDIOACC_N__MDIO_OP_MD_WR = 0x1"
definition ENUM_MAC_MDIOACC_N__MDIO_OP_MD_RD :: u32 where "ENUM_MAC_MDIOACC_N__MDIO_OP_MD_RD = 0x3"
definition BITM_MAC_FIFO_SIZE_HTX_SIZE :: u32 where "BITM_MAC_FIFO_SIZE_HTX_SIZE = 0xf"
definition BITM_MAC_FIFO_SIZE_P1_RX_LO_SIZE :: u32 where "BITM_MAC_FIFO_SIZE_P1_RX_LO_SIZE = 0xf0"
definition BITM_MAC_FIFO_SIZE_P1_RX_HI_SIZE :: u32 where "BITM_MAC_FIFO_SIZE_P1_RX_HI_SIZE = 0xf00"
definition BITM_MAC_FIFO_SIZE_P2_RX_LO_SIZE :: u32 where "BITM_MAC_FIFO_SIZE_P2_RX_LO_SIZE = 0xf000"
definition BITM_MAC_FIFO_SIZE_P2_RX_HI_SIZE :: u32 where "BITM_MAC_FIFO_SIZE_P2_RX_HI_SIZE = 0xf0000"
definition BITM_MAC_FIFO_SIZE_P1_TX_SIZE :: u32 where "BITM_MAC_FIFO_SIZE_P1_TX_SIZE = 0xf00000"
definition BITM_MAC_FIFO_SIZE_P2_TX_SIZE :: u32 where "BITM_MAC_FIFO_SIZE_P2_TX_SIZE = 0xf000000"
definition BITM_MAC_TS_CFG_TS_EN :: u32 where "BITM_MAC_TS_CFG_TS_EN = 0x1"
definition BITM_MAC_TS_CFG_TS_CLR :: u32 where "BITM_MAC_TS_CFG_TS_CLR = 0x2"
definition BITM_MAC_TS_CFG_TS_TIMER_DEF :: u32 where "BITM_MAC_TS_CFG_TS_TIMER_DEF = 0x4"
definition BITM_MAC_TS_CFG_TS_TIMER_STOP :: u32 where "BITM_MAC_TS_CFG_TS_TIMER_STOP = 0x8"
definition BITM_MAC_TS_CFG_TS_CAPT_FREE_CNT :: u32 where "BITM_MAC_TS_CFG_TS_CAPT_FREE_CNT = 0x10"
definition BITP_MAC_RESET_SWRESET :: nat where "BITP_MAC_RESET_SWRESET = 0"
definition BITP_MAC_CONFIG0_RXCTE :: nat where "BITP_MAC_CONFIG0_RXCTE = 8"
definition BITP_MAC_CONFIG0_TXCTE :: nat where "BITP_MAC_CONFIG0_TXCTE = 9"
definition BITP_MAC_CONFIG2_P1_FWD_UNK2HOST :: nat where "BITP_MAC_CONFIG2_P1_FWD_UNK2HOST = 2"
definition BITP_MAC_CONFIG2_PORT_CUT_THRU_EN :: nat where "BITP_MAC_CONFIG2_PORT_CUT_THRU_EN = 11"
definition BITP_MAC_CONFIG2_P2_FWD_UNK2HOST :: nat where "BITP_MAC_CONFIG2_P2_FWD_UNK2HOST = 12"
definition BITP_MAC_CONFIG2_P1_FWD_UNK2P2 :: nat where "BITP_MAC_CONFIG2_P1_FWD_UNK2P2 = 13"
definition BITP_MAC_CONFIG2_P2_FWD_UNK2P1 :: nat where "BITP_MAC_CONFIG2_P2_FWD_UNK2P1 = 14"
definition BITP_MAC_IMASK1_P1_RX_RDY_MASK :: nat where "BITP_MAC_IMASK1_P1_RX_RDY_MASK = 4"
definition BITP_MAC_IMASK1_P2_RX_RDY_MASK :: nat where "BITP_MAC_IMASK1_P2_RX_RDY_MASK = 17"
definition BITP_MAC_FIFO_SIZE_HTX_SIZE :: nat where "BITP_MAC_FIFO_SIZE_HTX_SIZE = 0"
definition BITP_MAC_FIFO_SIZE_P1_RX_LO_SIZE :: nat where "BITP_MAC_FIFO_SIZE_P1_RX_LO_SIZE = 4"
definition BITP_MAC_FIFO_SIZE_P1_RX_HI_SIZE :: nat where "BITP_MAC_FIFO_SIZE_P1_RX_HI_SIZE = 8"
definition BITP_MAC_FIFO_SIZE_P2_RX_LO_SIZE :: nat where "BITP_MAC_FIFO_SIZE_P2_RX_LO_SIZE = 12"
definition BITP_MAC_FIFO_SIZE_P2_RX_HI_SIZE :: nat where "BITP_MAC_FIFO_SIZE_P2_RX_HI_SIZE = 16"
definition BITP_MAC_FIFO_SIZE_P1_TX_SIZE :: nat where "BITP_MAC_FIFO_SIZE_P1_TX_SIZE = 20"
definition BITP_MAC_FIFO_SIZE_P2_TX_SIZE :: nat where "BITP_MAC_FIFO_SIZE_P2_TX_SIZE = 24"
definition BITP_MAC_TS_CFG_TS_TIMER_DEF :: nat where "BITP_MAC_TS_CFG_TS_TIMER_DEF = 2"

lemmas mac_regs =
  ADDR_MAC_PHYID_def
  ADDR_MAC_RESET_def
  ADDR_MAC_CONFIG0_def
  ADDR_MAC_CONFIG2_def
  ADDR_MAC_STATUS0_def
  ADDR_MAC_STATUS1_def
  ADDR_MAC_IMASK0_def
  ADDR_MAC_IMASK1_def
  ADDR_MAC_TTSCAH_def
  ADDR_MAC_TTSCAL_def
  ADDR_MAC_TTSCBH_def
  ADDR_MAC_TTSCBL_def
  ADDR_MAC_TTSCCH_def
  ADDR_MAC_TTSCCL_def
  ADDR_MAC_MDIOACC_0_def
  ADDR_MAC_MDIOACC_1_def
  ADDR_MAC_FIFO_CLR_def
  ADDR_MAC_SOFT_RST_def
  ADDR_MAC_FIFO_SIZE_def
  ADDR_MAC_ADDR_FILT_UPR_0_def
  ADDR_MAC_ADDR_FILT_UPR_1_def
  ADDR_MAC_ADDR_FILT_LWR_0_def
  ADDR_MAC_ADDR_MSK_UPR_0_def
  ADDR_MAC_ADDR_MSK_LWR_0_def
  ADDR_MAC_TS_ADDEND_def
  ADDR_MAC_TS_SEC_CNT_def
  ADDR_MAC_TS_NS_CNT_def
  ADDR_MAC_TS_CFG_def
  ADDR_MAC_TS_TIMER_HI_def
  ADDR_MAC_TS_TIMER_LO_def
  ADDR_MAC_TS_TIMER_QE_CORR_def
  ADDR_MAC_TS_TIMER_START_def
  ADDR_MAC_TS_EXT_CAPT0_def
  ADDR_MAC_TS_EXT_CAPT1_def
  ADDR_MAC_TS_FREECNT_CAPT_def
  ADDR_MAC_P1_RX_FRM_CNT_def
  ADDR_MAC_P1_RX_BCAST_CNT_def
  ADDR_MAC_P1_RX_MCAST_CNT_def
  ADDR_MAC_P1_RX_UCAST_CNT_def
  ADDR_MAC_P1_RX_CRC_ERR_CNT_def
  ADDR_MAC_P1_RX_ALGN_ERR_CNT_def
  ADDR_MAC_P1_RX_LS_ERR_CNT_def
  ADDR_MAC_P1_RX_PHY_ERR_CNT_def
  ADDR_MAC_P1_TX_FRM_CNT_def
  ADDR_MAC_P1_TX_BCAST_CNT_def
  ADDR_MAC_P1_TX_MCAST_CNT_def
  ADDR_MAC_P1_TX_UCAST_CNT_def
  ADDR_MAC_P1_RX_DROP_FULL_CNT_def
  ADDR_MAC_P1_RX_DROP_FILT_CNT_def
  ADDR_MAC_P2_RX_FRM_CNT_def
  RSTVAL_MAC_PHYID_def
  BITM_MAC_CONFIG0_CPS_def
  BITM_MAC_CONFIG0_FTSS_def
  BITM_MAC_CONFIG0_FTSE_def
  BITM_MAC_CONFIG0_RXCTE_def
  BITM_MAC_CONFIG0_TXCTE_def
  BITM_MAC_CONFIG0_TXFCSVE_def
  BITM_MAC_CONFIG0_SYNC_def
  BITM_MAC_CONFIG2_P1_FWD_UNK2HOST_def
  BITM_MAC_CONFIG2_CRC_APPEND_def
  BITM_MAC_CONFIG2_PORT_CUT_THRU_EN_def
  BITM_MAC_CONFIG2_P2_FWD_UNK2HOST_def
  BITM_MAC_CONFIG2_P1_FWD_UNK2P2_def
  BITM_MAC_CONFIG2_P2_FWD_UNK2P1_def
  BITM_MAC_STATUS0_RESETC_def
  BITM_MAC_STATUS0_PHYINT_def
  BITM_MAC_STATUS1_P2_PHYINT_def
  BITM_MAC_IMASK0_TXPEM_def
  BITM_MAC_IMASK0_TXBOEM_def
  BITM_MAC_IMASK0_TXBUEM_def
  BITM_MAC_IMASK0_RXBOEM_def
  BITM_MAC_IMASK0_LOFEM_def
  BITM_MAC_IMASK0_HDREM_def
  BITM_MAC_IMASK0_RESETCM_def
  BITM_MAC_IMASK0_PHYINTM_def
  BITM_MAC_IMASK0_TTSCAAM_def
  BITM_MAC_IMASK0_TTSCABM_def
  BITM_MAC_IMASK0_TTSCACM_def
  BITM_MAC_IMASK0_TXFCSEM_def
  BITM_MAC_IMASK0_CDPEM_def
  BITM_MAC_IMASK1_LINK_CHANGE_MASK_def
  BITM_MAC_IMASK1_TX_RDY_MASK_def
  BITM_MAC_IMASK1_P1_RX_RDY_MASK_def
  BITM_MAC_IMASK1_P1_RX_IFG_ERR_MASK_def
  BITM_MAC_IMASK1_SPI_ERR_MASK_def
  BITM_MAC_IMASK1_RX_ECC_ERR_MASK_def
  BITM_MAC_IMASK1_TX_ECC_ERR_MASK_def
  BITM_MAC_IMASK1_P2_RX_RDY_MASK_def
  BITM_MAC_IMASK1_P2_PHYINT_MASK_def
  BITM_MAC_IMASK1_P2_TTSCAAM_def
  BITM_MAC_IMASK1_P2_TTSCABM_def
  BITM_MAC_IMASK1_P2_TTSCACM_def
  BITM_MAC_IMASK1_P2_TXFCSEM_def
  BITM_MAC_MDIOACC_N__MDIO_TRDONE_def
  ENUM_MAC_MDIOACC_N__MDIO_ST_CLAUSE45_def
  ENUM_MAC_MDIOACC_N__MDIO_OP_MD_ADDR_def
  ENUM_MAC_MDIOACC_N__MDIO_OP_MD_WR_def
  ENUM_MAC_MDIOACC_N__MDIO_OP_MD_RD_def
  BITM_MAC_FIFO_SIZE_HTX_SIZE_def
  BITM_MAC_FIFO_SIZE_P1_RX_LO_SIZE_def
  BITM_MAC_FIFO_SIZE_P1_RX_HI_SIZE_def
  BITM_MAC_FIFO_SIZE_P2_RX_LO_SIZE_def
  BITM_MAC_FIFO_SIZE_P2_RX_HI_SIZE_def
  BITM_MAC_FIFO_SIZE_P1_TX_SIZE_def
  BITM_MAC_FIFO_SIZE_P2_TX_SIZE_def
  BITM_MAC_TS_CFG_TS_EN_def
  BITM_MAC_TS_CFG_TS_CLR_def
  BITM_MAC_TS_CFG_TS_TIMER_DEF_def
  BITM_MAC_TS_CFG_TS_TIMER_STOP_def
  BITM_MAC_TS_CFG_TS_CAPT_FREE_CNT_def
  BITP_MAC_RESET_SWRESET_def
  BITP_MAC_CONFIG0_RXCTE_def
  BITP_MAC_CONFIG0_TXCTE_def
  BITP_MAC_CONFIG2_P1_FWD_UNK2HOST_def
  BITP_MAC_CONFIG2_PORT_CUT_THRU_EN_def
  BITP_MAC_CONFIG2_P2_FWD_UNK2HOST_def
  BITP_MAC_CONFIG2_P1_FWD_UNK2P2_def
  BITP_MAC_CONFIG2_P2_FWD_UNK2P1_def
  BITP_MAC_IMASK1_P1_RX_RDY_MASK_def
  BITP_MAC_IMASK1_P2_RX_RDY_MASK_def
  BITP_MAC_FIFO_SIZE_HTX_SIZE_def
  BITP_MAC_FIFO_SIZE_P1_RX_LO_SIZE_def
  BITP_MAC_FIFO_SIZE_P1_RX_HI_SIZE_def
  BITP_MAC_FIFO_SIZE_P2_RX_LO_SIZE_def
  BITP_MAC_FIFO_SIZE_P2_RX_HI_SIZE_def
  BITP_MAC_FIFO_SIZE_P1_TX_SIZE_def
  BITP_MAC_FIFO_SIZE_P2_TX_SIZE_def
  BITP_MAC_TS_CFG_TS_TIMER_DEF_def

section \<open>PHY registers\<close>

definition ADDR_B10L_PMA_CNTRL :: u32 where "ADDR_B10L_PMA_CNTRL = 0x108f6"
definition ADDR_B10L_PMA_STAT :: u32 where "ADDR_B10L_PMA_STAT = 0x108f7"
definition ADDR_B10L_TEST_MODE_CNTRL :: u32 where "ADDR_B10L_TEST_MODE_CNTRL = 0x108f8"
definition ADDR_MSE_VAL :: u32 where "ADDR_MSE_VAL = 0x1830b"
definition ADDR_B10L_PCS_CNTRL :: u32 where "ADDR_B10L_PCS_CNTRL = 0x308e6"
definition ADDR_AN_CONTROL :: u32 where "ADDR_AN_CONTROL = 0x70200"
definition ADDR_AN_STATUS :: u32 where "ADDR_AN_STATUS = 0x70201"
definition ADDR_AN_ADV_ABILITY_L :: u32 where "ADDR_AN_ADV_ABILITY_L = 0x70202"
definition ADDR_AN_ADV_ABILITY_M :: u32 where "ADDR_AN_ADV_ABILITY_M = 0x70203"
definition ADDR_AN_ADV_ABILITY_H :: u32 where "ADDR_AN_ADV_ABILITY_H = 0x70204"
definition ADDR_AN_FRC_MODE_EN :: u32 where "ADDR_AN_FRC_MODE_EN = 0x78000"
definition ADDR_AN_STATUS_EXTRA :: u32 where "ADDR_AN_STATUS_EXTRA = 0x78001"
definition ADDR_MMD1_DEV_ID1 :: u32 where "ADDR_MMD1_DEV_ID1 = 0x1e0002"
definition ADDR_MMD1_DEV_ID2 :: u32 where "ADDR_MMD1_DEV_ID2 = 0x1e0003"
definition ADDR_CRSM_IRQ_STATUS :: u32 where "ADDR_CRSM_IRQ_STATUS = 0x1e0010"
definition ADDR_CRSM_IRQ_MASK :: u32 where "ADDR_CRSM_IRQ_MASK = 0x1e0020"
definition ADDR_CRSM_SFT_RST :: u32 where "ADDR_CRSM_SFT_RST = 0x1e8810"
definition ADDR_CRSM_SFT_PD_CNTRL :: u32 where "ADDR_CRSM_SFT_PD_CNTRL = 0x1e8812"
definition ADDR_CRSM_STAT :: u32 where "ADDR_CRSM_STAT = 0x1e8818"
definition ADDR_MGMT_PRT_PKG :: u32 where "ADDR_MGMT_PRT_PKG = 0x1e8c22"
definition ADDR_DIGIO_PINMUX :: u32 where "ADDR_DIGIO_PINMUX = 0x1e8c56"
definition ADDR_LED0_BLINK_TIME_CNTRL :: u32 where "ADDR_LED0_BLINK_TIME_CNTRL = 0x1e8c80"
definition ADDR_LED1_BLINK_TIME_CNTRL :: u32 where "ADDR_LED1_BLINK_TIME_CNTRL = 0x1e8c81"
definition ADDR_LED_CNTRL :: u32 where "ADDR_LED_CNTRL = 0x1e8c82"
definition ADDR_PHY_SUBSYS_IRQ_STATUS :: u32 where "ADDR_PHY_SUBSYS_IRQ_STATUS = 0x1f0011"
definition ADDR_PHY_SUBSYS_IRQ_MASK :: u32 where "ADDR_PHY_SUBSYS_IRQ_MASK = 0x1f0021"
definition ADDR_FC_EN :: u32 where "ADDR_FC_EN = 0x1f8001"
definition ADDR_FC_TX_SEL :: u32 where "ADDR_FC_TX_SEL = 0x1f8005"
definition ADDR_RX_ERR_CNT :: u32 where "ADDR_RX_ERR_CNT = 0x1f8008"
definition ADDR_FC_FRM_CNT_H :: u32 where "ADDR_FC_FRM_CNT_H = 0x1f8009"
definition ADDR_FC_FRM_CNT_L :: u32 where "ADDR_FC_FRM_CNT_L = 0x1f800a"
definition ADDR_FC_LEN_ERR_CNT :: u32 where "ADDR_FC_LEN_ERR_CNT = 0x1f800b"
definition ADDR_FC_ALGN_ERR_CNT :: u32 where "ADDR_FC_ALGN_ERR_CNT = 0x1f800c"
definition ADDR_FC_SYMB_ERR_CNT :: u32 where "ADDR_FC_SYMB_ERR_CNT = 0x1f800d"
definition ADDR_FC_OSZ_CNT :: u32 where "ADDR_FC_OSZ_CNT = 0x1f800e"
definition ADDR_FC_USZ_CNT :: u32 where "ADDR_FC_USZ_CNT = 0x1f800f"
definition ADDR_FC_ODD_CNT :: u32 where "ADDR_FC_ODD_CNT = 0x1f8010"
definition ADDR_FC_ODD_PRE_CNT :: u32 where "ADDR_FC_ODD_PRE_CNT = 0x1f8011"
definition ADDR_FC_FALSE_CARRIER_CNT :: u32 where "ADDR_FC_FALSE_CARRIER_CNT = 0x1f8013"
definition ADDR_FG_EN :: u32 where "ADDR_FG_EN = 0x1f8020"
definition ADDR_FG_CNTRL_RSTRT :: u32 where "ADDR_FG_CNTRL_RSTRT = 0x1f8021"
definition ADDR_FG_CONT_MODE_EN :: u32 where "ADDR_FG_CONT_MODE_EN = 0x1f8022"
definition ADDR_FG_FRM_LEN :: u32 where "ADDR_FG_FRM_LEN = 0x1f8025"
definition ADDR_FG_IFG_LEN :: u32 where "ADDR_FG_IFG_LEN = 0x1f8026"
definition ADDR_FG_NFRM_H :: u32 where "ADDR_FG_NFRM_H = 0x1f8027"
definition ADDR_FG_NFRM_L :: u32 where "ADDR_FG_NFRM_L = 0x1f8028"
definition ADDR_FG_DONE :: u32 where "ADDR_FG_DONE = 0x1f8029"
definition ADDR_MAC_IF_LOOPBACK :: u32 where "ADDR_MAC_IF_LOOPBACK = 0x1f8055"
definition BITM_B10L_PMA_CNTRL_B10L_LB_PMA_LOC_EN :: u32 where "BITM_B10L_PMA_CNTRL_B10L_LB_PMA_LOC_EN = 0x1"
definition BITM_B10L_PMA_CNTRL_B10L_TX_DIS_MODE_EN :: u32 where "BITM_B10L_PMA_CNTRL_B10L_TX_DIS_MODE_EN = 0x4000"
definition BITM_B10L_PMA_STAT_B10L_TX_LVL_HI_ABLE :: u32 where "BITM_B10L_PMA_STAT_B10L_TX_LVL_HI_ABLE = 0x1000"
definition BITM_B10L_PMA_STAT_B10L_LB_PMA_LOC_ABLE :: u32 where "BITM_B10L_PMA_STAT_B10L_LB_PMA_LOC_ABLE = 0x2000"
definition ENUM_B10L_TEST_MODE_CNTRL_B10L_TX_TEST_MODE_IEEE_TX_TM_NONE :: u32 where "ENUM_B10L_TEST_MODE_CNTRL_B10L_TX_TEST_MODE_IEEE_TX_TM_NONE = 0x0"
definition ENUM_B10L_TEST_MODE_CNTRL_B10L_TX_TEST_MODE_IEEE_TX_TM_JITTER :: u32 where "ENUM_B10L_TEST_MODE_CNTRL_B10L_TX_TEST_MODE_IEEE_TX_TM_JITTER = 0x1"
definition ENUM_B10L_TEST_MODE_CNTRL_B10L_TX_TEST_MODE_IEEE_TX_TM_DROOP :: u32 where "ENUM_B10L_TEST_MODE_CNTRL_B10L_TX_TEST_MODE_IEEE_TX_TM_DROOP = 0x2"
definition ENUM_B10L_TEST_MODE_CNTRL_B10L_TX_TEST_MODE_IEEE_TX_TM_IDLE :: u32 where "ENUM_B10L_TEST_MODE_CNTRL_B10L_TX_TEST_MODE_IEEE_TX_TM_IDLE = 0x3"
definition BITM_B10L_PCS_CNTRL_B10L_LB_PCS_EN :: u32 where "BITM_B10L_PCS_CNTRL_B10L_LB_PCS_EN = 0x4000"
definition BITM_AN_STATUS_AN_LINK_STATUS :: u32 where "BITM_AN_STATUS_AN_LINK_STATUS = 0x4"
definition BITM_AN_STATUS_AN_COMPLETE :: u32 where "BITM_AN_STATUS_AN_COMPLETE = 0x20"
definition BITM_AN_ADV_ABILITY_L_AN_ADV_FORCE_MS :: u32 where "BITM_AN_ADV_ABILITY_L_AN_ADV_FORCE_MS = 0x1000"
definition BITM_AN_ADV_ABILITY_M_AN_ADV_MST :: u32 where "BITM_AN_ADV_ABILITY_M_AN_ADV_MST = 0x10"
definition BITM_AN_ADV_ABILITY_H_AN_ADV_B10L_TX_LVL_HI_REQ :: u32 where "BITM_AN_ADV_ABILITY_H_AN_ADV_B10L_TX_LVL_HI_REQ = 0x1000"
definition BITM_AN_ADV_ABILITY_H_AN_ADV_B10L_TX_LVL_HI_ABL :: u32 where "BITM_AN_ADV_ABILITY_H_AN_ADV_B10L_TX_LVL_HI_ABL = 0x2000"
definition BITM_AN_STATUS_EXTRA_AN_MS_CONFIG_RSLTN :: u32 where "BITM_AN_STATUS_EXTRA_AN_MS_CONFIG_RSLTN = 0x60"
definition BITM_AN_STATUS_EXTRA_AN_TX_LVL_RSLTN :: u32 where "BITM_AN_STATUS_EXTRA_AN_TX_LVL_RSLTN = 0x180"
definition BITM_MMD1_DEV_ID2_MMD1_REV_NUM :: u32 where "BITM_MMD1_DEV_ID2_MMD1_REV_NUM = 0xf"
definition BITM_MMD1_DEV_ID2_MMD1_MODEL_NUM :: u32 where "BITM_MMD1_DEV_ID2_MMD1_MODEL_NUM = 0x3f0"
definition BITM_MMD1_DEV_ID2_MMD1_DEV_ID2_OUI :: u32 where "BITM_MMD1_DEV_ID2_MMD1_DEV_ID2_OUI = 0xfc00"
definition BITM_CRSM_IRQ_MASK_CRSM_HRD_RST_IRQ_EN :: u32 where "BITM_CRSM_IRQ_MASK_CRSM_HRD_RST_IRQ_EN = 0x1000"
definition BITM_CRSM_STAT_CRSM_SFT_PD_RDY :: u32 where "BITM_CRSM_STAT_CRSM_SFT_PD_RDY = 0x2"
definition BITM_DIGIO_PINMUX_DIGIO_TSCAPT_PINMUX :: u32 where "BITM_DIGIO_PINMUX_DIGIO_TSCAPT_PINMUX = 0x30"
definition BITM_DIGIO_PINMUX_DIGIO_TSTIMER_PINMUX :: u32 where "BITM_DIGIO_PINMUX_DIGIO_TSTIMER_PINMUX = 0xc0"
definition BITM_LED_CNTRL_LED0_EN :: u32 where "BITM_LED_CNTRL_LED0_EN = 0x80"
definition BITM_LED_CNTRL_LED1_EN :: u32 where "BITM_LED_CNTRL_LED1_EN = 0x8000"
definition BITM_PHY_SUBSYS_IRQ_MASK_LINK_STAT_CHNG_IRQ_EN :: u32 where "BITM_PHY_SUBSYS_IRQ_MASK_LINK_STAT_CHNG_IRQ_EN = 0x2"
definition BITM_FG_DONE_FG_DONE :: u32 where "BITM_FG_DONE_FG_DONE = 0x1"
definition BITP_B10L_PMA_CNTRL_B10L_LB_PMA_LOC_EN :: nat where "BITP_B10L_PMA_CNTRL_B10L_LB_PMA_LOC_EN = 0"
definition BITP_B10L_TEST_MODE_CNTRL_B10L_TX_TEST_MODE :: nat where "BITP_B10L_TEST_MODE_CNTRL_B10L_TX_TEST_MODE = 13"
definition BITP_B10L_PCS_CNTRL_B10L_LB_PCS_EN :: nat where "BITP_B10L_PCS_CNTRL_B10L_LB_PCS_EN = 14"
definition BITP_AN_CONTROL_AN_RESTART :: nat where "BITP_AN_CONTROL_AN_RESTART = 9"
definition BITP_AN_CONTROL_AN_EN :: nat where "BITP_AN_CONTROL_AN_EN = 12"
definition BITP_AN_STATUS_AN_COMPLETE :: nat where "BITP_AN_STATUS_AN_COMPLETE = 5"
definition BITP_AN_ADV_ABILITY_L_AN_ADV_FORCE_MS :: nat where "BITP_AN_ADV_ABILITY_L_AN_ADV_FORCE_MS = 12"
definition BITP_AN_ADV_ABILITY_M_AN_ADV_MST :: nat where "BITP_AN_ADV_ABILITY_M_AN_ADV_MST = 4"
definition BITP_AN_ADV_ABILITY_H_AN_ADV_B10L_TX_LVL_HI_REQ :: nat where "BITP_AN_ADV_ABILITY_H_AN_ADV_B10L_TX_LVL_HI_REQ = 12"
definition BITP_AN_ADV_ABILITY_H_AN_ADV_B10L_TX_LVL_HI_ABL :: nat where "BITP_AN_ADV_ABILITY_H_AN_ADV_B10L_TX_LVL_HI_ABL = 13"
definition BITP_AN_STATUS_EXTRA_AN_MS_CONFIG_RSLTN :: nat where "BITP_AN_STATUS_EXTRA_AN_MS_CONFIG_RSLTN = 5"
definition BITP_AN_STATUS_EXTRA_AN_TX_LVL_RSLTN :: nat where "BITP_AN_STATUS_EXTRA_AN_TX_LVL_RSLTN = 7"
definition BITP_MMD1_DEV_ID2_MMD1_REV_NUM :: nat where "BITP_MMD1_DEV_ID2_MMD1_REV_NUM = 0"
definition BITP_MMD1_DEV_ID2_MMD1_MODEL_NUM :: nat where "BITP_MMD1_DEV_ID2_MMD1_MODEL_NUM = 4"
definition BITP_MMD1_DEV_ID2_MMD1_DEV_ID2_OUI :: nat where "BITP_MMD1_DEV_ID2_MMD1_DEV_ID2_OUI = 10"
definition BITP_CRSM_SFT_RST_CRSM_SFT_RST :: nat where "BITP_CRSM_SFT_RST_CRSM_SFT_RST = 0"
definition BITP_CRSM_SFT_PD_CNTRL_CRSM_SFT_PD :: nat where "BITP_CRSM_SFT_PD_CNTRL_CRSM_SFT_PD = 0"
definition BITP_CRSM_STAT_CRSM_SFT_PD_RDY :: nat where "BITP_CRSM_STAT_CRSM_SFT_PD_RDY = 1"
definition BITP_DIGIO_PINMUX_DIGIO_TSCAPT_PINMUX :: nat where "BITP_DIGIO_PINMUX_DIGIO_TSCAPT_PINMUX = 4"
definition BITP_DIGIO_PINMUX_DIGIO_TSTIMER_PINMUX :: nat where "BITP_DIGIO_PINMUX_DIGIO_TSTIMER_PINMUX = 6"
definition BITP_LED0_BLINK_TIME_CNTRL_LED0_OFF_N4MS :: nat where "BITP_LED0_BLINK_TIME_CNTRL_LED0_OFF_N4MS = 0"
definition BITP_LED0_BLINK_TIME_CNTRL_LED0_ON_N4MS :: nat where "BITP_LED0_BLINK_TIME_CNTRL_LED0_ON_N4MS = 8"
definition BITP_LED1_BLINK_TIME_CNTRL_LED1_OFF_N4MS :: nat where "BITP_LED1_BLINK_TIME_CNTRL_LED1_OFF_N4MS = 0"
definition BITP_LED1_BLINK_TIME_CNTRL_LED1_ON_N4MS :: nat where "BITP_LED1_BLINK_TIME_CNTRL_LED1_ON_N4MS = 8"
definition BITP_LED_CNTRL_LED0_EN :: nat where "BITP_LED_CNTRL_LED0_EN = 7"
definition BITP_LED_CNTRL_LED1_EN :: nat where "BITP_LED_CNTRL_LED1_EN = 15"
definition BITP_FC_EN_FC_EN :: nat where "BITP_FC_EN_FC_EN = 0"
definition BITP_FC_TX_SEL_FC_TX_SEL :: nat where "BITP_FC_TX_SEL_FC_TX_SEL = 0"
definition BITP_FG_EN_FG_EN :: nat where "BITP_FG_EN_FG_EN = 0"
definition BITP_FG_CNTRL_RSTRT_FG_CNTRL :: nat where "BITP_FG_CNTRL_RSTRT_FG_CNTRL = 0"
definition BITP_FG_CNTRL_RSTRT_FG_RSTRT :: nat where "BITP_FG_CNTRL_RSTRT_FG_RSTRT = 3"
definition BITP_FG_CONT_MODE_EN_FG_CONT_MODE_EN :: nat where "BITP_FG_CONT_MODE_EN_FG_CONT_MODE_EN = 0"
definition BITP_FG_FRM_LEN_FG_FRM_LEN :: nat where "BITP_FG_FRM_LEN_FG_FRM_LEN = 0"
definition BITP_MAC_IF_LOOPBACK_MAC_IF_LB_EN :: nat where "BITP_MAC_IF_LOOPBACK_MAC_IF_LB_EN = 0"
definition BITP_MAC_IF_LOOPBACK_MAC_IF_LB_TX_SUP_EN :: nat where "BITP_MAC_IF_LOOPBACK_MAC_IF_LB_TX_SUP_EN = 1"
definition BITP_MAC_IF_LOOPBACK_MAC_IF_REM_LB_EN :: nat where "BITP_MAC_IF_LOOPBACK_MAC_IF_REM_LB_EN = 2"
definition BITP_MAC_IF_LOOPBACK_MAC_IF_REM_LB_RX_SUP_EN :: nat where "BITP_MAC_IF_LOOPBACK_MAC_IF_REM_LB_RX_SUP_EN = 3"

lemmas phy_regs =
  ADDR_B10L_PMA_CNTRL_def
  ADDR_B10L_PMA_STAT_def
  ADDR_B10L_TEST_MODE_CNTRL_def
  ADDR_MSE_VAL_def
  ADDR_B10L_PCS_CNTRL_def
  ADDR_AN_CONTROL_def
  ADDR_AN_STATUS_def
  ADDR_AN_ADV_ABILITY_L_def
  ADDR_AN_ADV_ABILITY_M_def
  ADDR_AN_ADV_ABILITY_H_def
  ADDR_AN_FRC_MODE_EN_def
  ADDR_AN_STATUS_EXTRA_def
  ADDR_MMD1_DEV_ID1_def
  ADDR_MMD1_DEV_ID2_def
  ADDR_CRSM_IRQ_STATUS_def
  ADDR_CRSM_IRQ_MASK_def
  ADDR_CRSM_SFT_RST_def
  ADDR_CRSM_SFT_PD_CNTRL_def
  ADDR_CRSM_STAT_def
  ADDR_MGMT_PRT_PKG_def
  ADDR_DIGIO_PINMUX_def
  ADDR_LED0_BLINK_TIME_CNTRL_def
  ADDR_LED1_BLINK_TIME_CNTRL_def
  ADDR_LED_CNTRL_def
  ADDR_PHY_SUBSYS_IRQ_STATUS_def
  ADDR_PHY_SUBSYS_IRQ_MASK_def
  ADDR_FC_EN_def
  ADDR_FC_TX_SEL_def
  ADDR_RX_ERR_CNT_def
  ADDR_FC_FRM_CNT_H_def
  ADDR_FC_FRM_CNT_L_def
  ADDR_FC_LEN_ERR_CNT_def
  ADDR_FC_ALGN_ERR_CNT_def
  ADDR_FC_SYMB_ERR_CNT_def
  ADDR_FC_OSZ_CNT_def
  ADDR_FC_USZ_CNT_def
  ADDR_FC_ODD_CNT_def
  ADDR_FC_ODD_PRE_CNT_def
  ADDR_FC_FALSE_CARRIER_CNT_def
  ADDR_FG_EN_def
  ADDR_FG_CNTRL_RSTRT_def
  ADDR_FG_CONT_MODE_EN_def
  ADDR_FG_FRM_LEN_def
  ADDR_FG_IFG_LEN_def
  ADDR_FG_NFRM_H_def
  ADDR_FG_NFRM_L_def
  ADDR_FG_DONE_def
  ADDR_MAC_IF_LOOPBACK_def
  BITM_B10L_PMA_CNTRL_B10L_LB_PMA_LOC_EN_def
  BITM_B10L_PMA_CNTRL_B10L_TX_DIS_MODE_EN_def
  BITM_B10L_PMA_STAT_B10L_TX_LVL_HI_ABLE_def
  BITM_B10L_PMA_STAT_B10L_LB_PMA_LOC_ABLE_def
  ENUM_B10L_TEST_MODE_CNTRL_B10L_TX_TEST_MODE_IEEE_TX_TM_NONE_def
  ENUM_B10L_TEST_MODE_CNTRL_B10L_TX_TEST_MODE_IEEE_TX_TM_JITTER_def
  ENUM_B10L_TEST_MODE_CNTRL_B10L_TX_TEST_MODE_IEEE_TX_TM_DROOP_def
  ENUM_B10L_TEST_MODE_CNTRL_B10L_TX_TEST_MODE_IEEE_TX_TM_IDLE_def
  BITM_B10L_PCS_CNTRL_B10L_LB_PCS_EN_def
  BITM_AN_STATUS_AN_LINK_STATUS_def
  BITM_AN_STATUS_AN_COMPLETE_def
  BITM_AN_ADV_ABILITY_L_AN_ADV_FORCE_MS_def
  BITM_AN_ADV_ABILITY_M_AN_ADV_MST_def
  BITM_AN_ADV_ABILITY_H_AN_ADV_B10L_TX_LVL_HI_REQ_def
  BITM_AN_ADV_ABILITY_H_AN_ADV_B10L_TX_LVL_HI_ABL_def
  BITM_AN_STATUS_EXTRA_AN_MS_CONFIG_RSLTN_def
  BITM_AN_STATUS_EXTRA_AN_TX_LVL_RSLTN_def
  BITM_MMD1_DEV_ID2_MMD1_REV_NUM_def
  BITM_MMD1_DEV_ID2_MMD1_MODEL_NUM_def
  BITM_MMD1_DEV_ID2_MMD1_DEV_ID2_OUI_def
  BITM_CRSM_IRQ_MASK_CRSM_HRD_RST_IRQ_EN_def
  BITM_CRSM_STAT_CRSM_SFT_PD_RDY_def
  BITM_DIGIO_PINMUX_DIGIO_TSCAPT_PINMUX_def
  BITM_DIGIO_PINMUX_DIGIO_TSTIMER_PINMUX_def
  BITM_LED_CNTRL_LED0_EN_def
  BITM_LED_CNTRL_LED1_EN_def
  BITM_PHY_SUBSYS_IRQ_MASK_LINK_STAT_CHNG_IRQ_EN_def
  BITM_FG_DONE_FG_DONE_def
  BITP_B10L_PMA_CNTRL_B10L_LB_PMA_LOC_EN_def
  BITP_B10L_TEST_MODE_CNTRL_B10L_TX_TEST_MODE_def
  BITP_B10L_PCS_CNTRL_B10L_LB_PCS_EN_def
  BITP_AN_CONTROL_AN_RESTART_def
  BITP_AN_CONTROL_AN_EN_def
  BITP_AN_STATUS_AN_COMPLETE_def
  BITP_AN_ADV_ABILITY_L_AN_ADV_FORCE_MS_def
  BITP_AN_ADV_ABILITY_M_AN_ADV_MST_def
  BITP_AN_ADV_ABILITY_H_AN_ADV_B10L_TX_LVL_HI_REQ_def
  BITP_AN_ADV_ABILITY_H_AN_ADV_B10L_TX_LVL_HI_ABL_def
  BITP_AN_STATUS_EXTRA_AN_MS_CONFIG_RSLTN_def
  BITP_AN_STATUS_EXTRA_AN_TX_LVL_RSLTN_def
  BITP_MMD1_DEV_ID2_MMD1_REV_NUM_def
  BITP_MMD1_DEV_ID2_MMD1_MODEL_NUM_def
  BITP_MMD1_DEV_ID2_MMD1_DEV_ID2_OUI_def
  BITP_CRSM_SFT_RST_CRSM_SFT_RST_def
  BITP_CRSM_SFT_PD_CNTRL_CRSM_SFT_PD_def
  BITP_CRSM_STAT_CRSM_SFT_PD_RDY_def
  BITP_DIGIO_PINMUX_DIGIO_TSCAPT_PINMUX_def
  BITP_DIGIO_PINMUX_DIGIO_TSTIMER_PINMUX_def
  BITP_LED0_BLINK_TIME_CNTRL_LED0_OFF_N4MS_def
  BITP_LED0_BLINK_TIME_CNTRL_LED0_ON_N4MS_def
  BITP_LED1_BLINK_TIME_CNTRL_LED1_OFF_N4MS_def
  BITP_LED1_BLINK_TIME_CNTRL_LED1_ON_N4MS_def
  BITP_LED_CNTRL_LED0_EN_def
  BITP_LED_CNTRL_LED1_EN_def
  BITP_FC_EN_FC_EN_def
  BITP_FC_TX_SEL_FC_TX_SEL_def
  BITP_FG_EN_FG_EN_def
  BITP_FG_CNTRL_RSTRT_FG_CNTRL_def
  BITP_FG_CNTRL_RSTRT_FG_RSTRT_def
  BITP_FG_CONT_MODE_EN_FG_CONT_MODE_EN_def
  BITP_FG_FRM_LEN_FG_FRM_LEN_def
  BITP_MAC_IF_LOOPBACK_MAC_IF_LB_EN_def
  BITP_MAC_IF_LOOPBACK_MAC_IF_LB_TX_SUP_EN_def
  BITP_MAC_IF_LOOPBACK_MAC_IF_REM_LB_EN_def
  BITP_MAC_IF_LOOPBACK_MAC_IF_REM_LB_RX_SUP_EN_def

end
