(* ===== verification/Oa_Machine.thy ===== *)
theory Oa_Machine
  imports Oa_Tx Oa_Rx_Loop Adin_Regs
begin

text \<open>
  The OPEN Alliance SPI state machine (\<open>oaStateMachine\<close> in \<open>adi_spi_oa.c\<close>) with the routines
  it calls for PHY registers and status handling.  Every state is a definition that returns
  the status, the new state and, where the branch ends in \<open>ADI_HAL_SPI_READ_WRITE\<close>, the SPI
  transaction it starts.  \<open>adi_bsp_spi_write_and_read\<close> calls \<open>spiCallback\<close>, which enters the
  state machine again, before it returns; the call is the last statement of its branch in
  every state, so the machine runs one step after the other, and the status of the call is
  the status of its first step.
\<close>

section \<open>MDIO commands\<close>

record ADI_MAC_MDIOACC_0_t =
  md_DATA :: u16
  md_DEVAD :: "5 word"
  md_PRTAD :: "5 word"
  md_OP :: "2 word"
  md_ST :: "2 word"
  md_TAERR :: bool
  md_TRDONE :: bool

definition md_VALUE32 :: "ADI_MAC_MDIOACC_0_t \<Rightarrow> u32" where
  "md_VALUE32 c = (ucast (md_DATA c) OR push_bit 16 (ucast (md_DEVAD c)) OR
     push_bit 21 (ucast (md_PRTAD c)) OR push_bit 26 (ucast (md_OP c)) OR
     push_bit 28 (ucast (md_ST c)) OR push_bit 30 (of_bool (md_TAERR c)) OR
     push_bit 31 (of_bool (md_TRDONE c)))"

definition md_of_VALUE32 :: "u32 \<Rightarrow> ADI_MAC_MDIOACC_0_t" where
  "md_of_VALUE32 v =
     \<lparr>md_DATA = ucast v, md_DEVAD = ucast (drop_bit 16 v), md_PRTAD = ucast (drop_bit 21 v),
      md_OP = ucast (drop_bit 26 v), md_ST = ucast (drop_bit 28 v),
      md_TAERR = bit v 30, md_TRDONE = bit v 31\<rparr>"

text \<open>\<open>DEVTYPE\<close> and \<open>REGADDR\<close> of a 32-bit PHY register address.\<close>

definition DEVTYPE :: "u32 \<Rightarrow> u32" where "DEVTYPE a = drop_bit 16 a"
definition REGADDR :: "u32 \<Rightarrow> u32" where "REGADDR a = a AND 0xFFFF"

section \<open>Control transactions\<close>

datatype spi_request = SpiCtrl nat | SpiData nat

type_synonym oa_result = "adi_eth_Result_e \<times> mac_state \<times> spi_request option"

definition sr_words :: "adi_mac_StatusRegisters_t \<Rightarrow> u32 list" where
  "sr_words r = [sr_status0Masked r, sr_status1Masked r, sr_status0 r, sr_status1 r,
     sr_p1StatusMasked r, sr_p1Status r, sr_p2StatusMasked r, sr_p2Status r]"

text \<open>The words \<open>pRegData\<close> points to, and storing the words read through it.\<close>

definition reg_words :: "mac_state \<Rightarrow> u32 list" where
  "reg_words s = (case m_pRegData s of RegNull \<Rightarrow> [] | RegCaller \<Rightarrow> [s_regCell s]
     | RegMdioCmd \<Rightarrow> [s_mdioCmd s] | RegStatus \<Rightarrow> sr_words (m_statusRegisters s))"

definition reg_store :: "u32 list \<Rightarrow> mac_state \<Rightarrow> mac_state option" where
  "reg_store dst s = (case dst of [] \<Rightarrow> Some s
     | [w] \<Rightarrow> (case m_pRegData s of RegNull \<Rightarrow> None
          | RegCaller \<Rightarrow> Some (s\<lparr>s_regCell := w\<rparr>)
          | RegMdioCmd \<Rightarrow> Some (s\<lparr>s_mdioCmd := w\<rparr>)
          | RegStatus \<Rightarrow> Some (s\<lparr>m_statusRegisters := (m_statusRegisters s)\<lparr>sr_status0Masked := w\<rparr>\<rparr>))
     | _ \<Rightarrow> None)"

text \<open>\<open>oaCtrlSetup(&ctrlTxBuf[0], wnr, regAddr, pRegData, &len)\<close>\<close>

definition ctrl_setup :: "u32 \<Rightarrow> u32 \<Rightarrow> nat \<Rightarrow> mac_state \<Rightarrow> (adi_eth_Result_e \<times> nat \<times> mac_state) option" where
  "ctrl_setup wnr regAddr len s = do {
     (result, buf, len) \<leftarrow> oaCtrlSetup (m_ctrlTxBuf s) wnr regAddr (reg_words s) len;
     Some (result, len, s\<lparr>m_ctrlTxBuf := buf\<rparr>)
   }"

definition oa_control_start :: "mac_state \<Rightarrow> oa_result option" where
  "oa_control_start s = do {
     (result, len, s) \<leftarrow> ctrl_setup (m_wnr s) (m_regAddr s) (m_cnt s) s;
     Some (result, s\<lparr>m_state := ADI_MAC_STATE_CONTROL_END, m_spiState := ADI_MAC_SPI_STATE_RX\<rparr>,
       Some (SpiCtrl len))
   }"

definition oa_control_end :: "mac_state \<Rightarrow> oa_result option" where
  "oa_control_end s = do {
     cHdr \<leftarrow> mem_read (m_ctrlTxBuf s) 0 4;
     eHdr \<leftarrow> mem_read (m_ctrlRxBuf s) ADI_SPI_HEADER_SIZE 4;
     (result, s) \<leftarrow>
       (if cHdr \<noteq> eHdr then Some (ADI_ETH_SUCCESS, s\<lparr>m_spiErr := True\<rparr>)
        else let s = s\<lparr>m_spiErr := False\<rparr> in
          if m_wnr s = ADI_MAC_SPI_READ
          then do {
            (result, dst) \<leftarrow> oaCtrlCmdReadData (drop (2 * ADI_SPI_HEADER_SIZE) (m_ctrlRxBuf s)) (m_cnt s);
            s \<leftarrow> reg_store dst s;
            Some (result, s)
          }
          else Some (ADI_ETH_SUCCESS, s));
     Some (result, s\<lparr>m_spiState := ADI_MAC_SPI_STATE_READY, m_state := ADI_MAC_STATE_READY\<rparr>, None)
   }"

section \<open>Data transactions\<close>

text \<open>Back to ready; the interrupt is enabled unless a control transaction is pending.\<close>

definition oa_ready :: "mac_state \<Rightarrow> mac_state" where
  "oa_ready s =
     (let s = s\<lparr>m_state := ADI_MAC_STATE_READY, m_spiState := ADI_MAC_SPI_STATE_READY\<rparr>
      in if m_pendingCtrl s then s else s\<lparr>s_irqEnabled := True\<rparr>)"

definition oa_data_start :: "mac_state \<Rightarrow> oa_result option" where
  "oa_data_start s = do {
     s \<leftarrow> oaSpiProcess s;
     if m_oaTrxSize s \<noteq> 0
     then Some (ADI_ETH_SUCCESS,
       s\<lparr>m_state := ADI_MAC_STATE_DATA_END, m_spiState := ADI_MAC_SPI_STATE_TX_FRAME\<rparr>,
       Some (SpiData (m_oaTrxSize s)))
     else Some (ADI_ETH_SUCCESS, oa_ready s, None)
   }"

definition rx_vars_init :: "mac_state \<Rightarrow> rx_vars" where
  "rx_vars_init s = \<lparr>v_exst = False, v_Event = ADI_MAC_CALLBACK_STATUS_OK,
     v_timestampBytes = s_stackBytes s, v_footer = None\<rparr>"

text \<open>Behind the loop of \<open>ADI_MAC_STATE_DATA_END\<close>.\<close>

definition oa_data_tail :: "bool \<Rightarrow> mac_state \<Rightarrow> oa_result option" where
  "oa_data_tail readStatus s =
     (if readStatus
      then do {
        (result, len, s) \<leftarrow> ctrl_setup ADI_MAC_SPI_READ ADDR_MAC_STATUS0 2 s;
        Some (result,
          s\<lparr>m_state := ADI_MAC_STATE_DATA_READ_STATUS, m_spiState := ADI_MAC_SPI_STATE_RX\<rparr>,
          Some (SpiCtrl len))
      }
      else if (\<not> queueIsEmpty (m_txQueue s) \<and> m_oaTxc s \<noteq> 0)
              \<or> (\<not> queueIsEmpty (m_rxQueueLp s) \<and> m_oaRca s \<noteq> 0)
      then do {
        s \<leftarrow> oaSpiProcess s;
        Some (ADI_ETH_SUCCESS,
          s\<lparr>m_state := ADI_MAC_STATE_DATA_END, m_spiState := ADI_MAC_SPI_STATE_RX_FRAME\<rparr>,
          Some (SpiData (m_oaTrxSize s)))
      }
      else Some (ADI_ETH_SUCCESS, oa_ready s, None))"

definition oa_data_end :: "mac_state \<Rightarrow> oa_result option" where
  "oa_data_end s = do {
     (v, s) \<leftarrow> rx_chunks (m_oaTrxSize s) (chunkSize s) 0 (rx_vars_init s, s);
     readStatus \<leftarrow> (if v_exst v then Some True
                    else do { f \<leftarrow> v_footer v; Some (\<not> rf_SYNC f) });
     oa_data_tail readStatus s
   }"

section \<open>Interrupt and status\<close>

text \<open>The loop that folds the bits of \<open>VALUE32 >> 1\<close> into \<open>P\<close>.\<close>

fun irq_parity :: "nat \<Rightarrow> u32 \<Rightarrow> bool \<Rightarrow> bool" where
  "irq_parity 0 val32 p = p"
| "irq_parity (Suc n) val32 p = irq_parity n (drop_bit 1 val32) (p \<noteq> bit val32 0)"

definition irq_header :: adi_mac_OaTxHeader_t where
  "irq_header =
     (let h = (th_of_VALUE32 0)\<lparr>th_DNC := True, th_NORX := True, th_P := True\<rparr>
      in h\<lparr>th_P := irq_parity 31 (drop_bit 1 (th_VALUE32 h)) True\<rparr>)"

definition oa_irq_start :: "mac_state \<Rightarrow> oa_result option" where
  "oa_irq_start s = do {
     buf \<leftarrow> mem_write (s_spiTxBuf s) 0 (le_bytes32 (HTON32 (th_VALUE32 irq_header)));
     let s = s\<lparr>s_spiTxBuf := buf, m_oaTrxSize := ADI_SPI_HEADER_SIZE + chunkSize s,
               m_state := ADI_MAC_STATE_DATA_END, m_spiState := ADI_MAC_SPI_STATE_RX\<rparr>;
     Some (ADI_ETH_SUCCESS, s, Some (SpiData (m_oaTrxSize s)))
   }"

definition oaPhyRegReadStart :: "u32 \<Rightarrow> u32 \<Rightarrow> mac_state \<Rightarrow> oa_result option" where
  "oaPhyRegReadStart prtad regAddr s = do {
     let cmd = (md_of_VALUE32 0)\<lparr>md_DEVAD := ucast (DEVTYPE regAddr),
           md_ST := ucast ENUM_MAC_MDIOACC_N__MDIO_ST_CLAUSE45, md_PRTAD := ucast prtad,
           md_OP := ucast ENUM_MAC_MDIOACC_N__MDIO_OP_MD_ADDR, md_DATA := ucast (REGADDR regAddr)\<rparr>;
     let s = s\<lparr>s_mdioCmd := md_VALUE32 cmd, m_wnr := ADI_MAC_SPI_WRITE,
               m_regAddr := ADDR_MAC_MDIOACC_0, m_pRegData := RegMdioCmd, m_cnt := 1\<rparr>;
     (result, len, s) \<leftarrow> ctrl_setup (m_wnr s) (m_regAddr s) (m_cnt s) s;
     if result \<noteq> ADI_ETH_SUCCESS then Some (result, s, None)
     else Some (result,
       s\<lparr>m_state := ADI_MAC_STATE_DATA_READ_PHY_REGISTER, m_spiState := ADI_MAC_SPI_STATE_RX\<rparr>,
       Some (SpiCtrl len))
   }"

definition oaPhyRegReadStep :: "mac_state \<Rightarrow> oa_result option" where
  "oaPhyRegReadStep s = do {
     let cmd = (md_of_VALUE32 (s_mdioCmd s))\<lparr>md_OP := ucast ENUM_MAC_MDIOACC_N__MDIO_OP_MD_RD,
           md_DATA := 0, md_TRDONE := False\<rparr>;
     let s = s\<lparr>s_mdioCmd := md_VALUE32 cmd, m_regAddr := ADDR_MAC_MDIOACC_1,
               m_pRegData := RegMdioCmd, m_cnt := 1\<rparr>;
     (result, len, s) \<leftarrow> ctrl_setup (m_wnr s) (m_regAddr s) (m_cnt s) s;
     if result \<noteq> ADI_ETH_SUCCESS then Some (result, s, None)
     else Some (result,
       s\<lparr>m_state := ADI_MAC_STATE_DATA_READ_PHY_REGISTER, m_spiState := ADI_MAC_SPI_STATE_RX\<rparr>,
       Some (SpiCtrl len))
   }"

text \<open>
  The application callbacks of \<open>oaSpiIntHandle\<close>: egress timestamps (bits 8 to 10 of
  \<open>STATUS0\<close>, 20 to 22 of \<open>STATUS1\<close>), the general status, and a change of the link.
\<close>

definition sr_link_change :: "adi_mac_StatusRegisters_t \<Rightarrow> bool" where
  "sr_link_change r \<longleftrightarrow>
     (bit (sr_status0Masked r) 7 \<and> sr_p1StatusMasked r \<noteq> ADI_MAC_PHY_STATUS_INIT_VAL \<and>
        sr_p1StatusMasked r AND push_bit 16 BITM_PHY_SUBSYS_IRQ_MASK_LINK_STAT_CHNG_IRQ_EN \<noteq> 0) \<or>
     (bit (sr_status1Masked r) 19 \<and> sr_p2StatusMasked r \<noteq> ADI_MAC_PHY_STATUS_INIT_VAL \<and>
        sr_p2StatusMasked r AND push_bit 16 BITM_PHY_SUBSYS_IRQ_MASK_LINK_STAT_CHNG_IRQ_EN \<noteq> 0)"

definition oa_status_callbacks :: "mac_state \<Rightarrow> mac_state" where
  "oa_status_callbacks s =
     (let r = m_statusRegisters s;
          ready = [bit (sr_status0Masked r) 8, bit (sr_status0Masked r) 9, bit (sr_status0Masked r) 10,
                   bit (sr_status1Masked r) 20, bit (sr_status1Masked r) 21, bit (sr_status1Masked r) 22];
          s = (if True \<in> set ready
               then (case m_cbFunc s ADI_MAC_EVT_TIMESTAMP_RDY of None \<Rightarrow> s
                     | Some cb \<Rightarrow> emit (EvTimestampRdy cb (m_cbParam s ADI_MAC_EVT_TIMESTAMP_RDY) ready) s)
               else s)
      in if sr_status0Masked r \<noteq> 0 \<or> sr_status1Masked r \<noteq> 0
         then (let s = (case m_cbFunc s ADI_MAC_EVT_STATUS of None \<Rightarrow> s
                        | Some cb \<Rightarrow> emit (EvStatus cb (m_cbParam s ADI_MAC_EVT_STATUS) r) s)
               in if sr_link_change r
                  then (case m_cbFunc s ADI_MAC_EVT_LINK_CHANGE of None \<Rightarrow> s
                        | Some cb \<Rightarrow> emit (EvLinkChange cb (m_cbParam s ADI_MAC_EVT_LINK_CHANGE) r) s)
                  else s)
         else s)"

definition oaSpiIntHandle :: "mac_state \<Rightarrow> oa_result option" where
  "oaSpiIntHandle s = do {
     let s = (oa_status_callbacks s)\<lparr>m_wnr := ADI_MAC_SPI_WRITE, m_regAddr := ADDR_MAC_STATUS0,
               m_pRegData := RegStatus, m_cnt := 2\<rparr>;
     (result, len, s) \<leftarrow> ctrl_setup (m_wnr s) (m_regAddr s) (m_cnt s) s;
     let s = s\<lparr>m_cnt := len\<rparr>;
     if result \<noteq> ADI_ETH_SUCCESS then Some (result, s, None)
     else Some (result,
       s\<lparr>m_state := ADI_MAC_STATE_DATA_START, m_spiState := ADI_MAC_SPI_STATE_RX\<rparr>,
       Some (SpiCtrl (m_cnt s)))
   }"

text \<open>\<open>result\<close> stays that of the enclosing state when these are called.\<close>

definition with_result :: "adi_eth_Result_e \<Rightarrow> oa_result option \<Rightarrow> oa_result option" where
  "with_result r m = do { (_, s, req) \<leftarrow> m; Some (r, s, req) }"

definition P1_PHYINT :: "adi_mac_StatusRegisters_t \<Rightarrow> bool" where
  "P1_PHYINT r \<longleftrightarrow> sr_status0Masked r AND BITM_MAC_STATUS0_PHYINT \<noteq> 0"

definition P2_PHYINT :: "adi_mac_StatusRegisters_t \<Rightarrow> bool" where
  "P2_PHYINT r \<longleftrightarrow> sr_status1Masked r AND BITM_MAC_STATUS1_P2_PHYINT \<noteq> 0"

text \<open>
  \<open>oaCtrlCmdReadData\<close> into \<open>statusRegisters.status0\<close> and \<open>.status1\<close>: on a protection error
  in the second word only the first is stored.
\<close>

definition store_status :: "u32 list \<Rightarrow> adi_mac_StatusRegisters_t \<Rightarrow> adi_mac_StatusRegisters_t" where
  "store_status dst r = (case dst of [] \<Rightarrow> r | [a] \<Rightarrow> r\<lparr>sr_status0 := a\<rparr>
     | a # b # _ \<Rightarrow> r\<lparr>sr_status0 := a, sr_status1 := b\<rparr>)"

definition oa_read_status :: "mac_state \<Rightarrow> oa_result option" where
  "oa_read_status s = do {
     (result, dst) \<leftarrow> oaCtrlCmdReadData (drop (2 * ADI_SPI_HEADER_SIZE) (m_ctrlRxBuf s)) 2;
     let r = store_status dst (m_statusRegisters s);
     let r = r\<lparr>sr_status0Masked := sr_status0 r AND NOT (m_irqMask0 s),
               sr_status1Masked := sr_status1 r AND NOT (m_irqMask1 s),
               sr_p1StatusMasked := ADI_MAC_PHY_STATUS_INIT_VAL, sr_p1Status := ADI_MAC_PHY_STATUS_INIT_VAL,
               sr_p2StatusMasked := ADI_MAC_PHY_STATUS_INIT_VAL, sr_p2Status := ADI_MAC_PHY_STATUS_INIT_VAL\<rparr>;
     let s = s\<lparr>m_statusRegisters := r\<rparr>;
     with_result result
       (if P1_PHYINT r \<or> P2_PHYINT r
        then oaPhyRegReadStart (if P1_PHYINT r then 1 else 2) ADDR_CRSM_IRQ_STATUS s
        else oaSpiIntHandle s)
   }"

section \<open>The PHY interrupt registers\<close>

definition HI16 :: u32 where "HI16 = 0xFFFF0000"
definition LO16 :: u32 where "LO16 = 0x0000FFFF"

text \<open>
  \<open>p1Status\<close>/\<open>p1StatusMasked\<close> and \<open>p2Status\<close>/\<open>p2StatusMasked\<close> are updated the same way: the
  status and the masked status of a port after \<open>CRSM_IRQ_STATUS\<close> and after
  \<open>PHY_SUBSYS_IRQ_STATUS\<close> has been read.
\<close>

definition record_crsm :: "u32 \<Rightarrow> u32 \<Rightarrow> u32 \<times> u32 \<Rightarrow> u32 \<times> u32" where
  "record_crsm phyIrqMask data = (\<lambda>(status, masked).
     (let status = (status AND HI16) OR (data AND LO16)
      in (status, (masked AND HI16) OR (status AND phyIrqMask AND LO16))))"

definition record_subsys :: "u32 \<Rightarrow> u32 \<Rightarrow> u32 \<times> u32 \<Rightarrow> u32 \<times> u32" where
  "record_subsys phyIrqMask data = (\<lambda>(status, masked).
     (let status = (status AND LO16) OR (push_bit 16 data AND HI16)
      in (status, (masked AND LO16) OR (status AND phyIrqMask AND HI16))))"

definition upd_p1 :: "(u32 \<times> u32 \<Rightarrow> u32 \<times> u32) \<Rightarrow> mac_state \<Rightarrow> mac_state" where
  "upd_p1 f s = (let r = m_statusRegisters s; (st, m) = f (sr_p1Status r, sr_p1StatusMasked r)
     in s\<lparr>m_statusRegisters := r\<lparr>sr_p1Status := st, sr_p1StatusMasked := m\<rparr>\<rparr>)"

definition upd_p2 :: "(u32 \<times> u32 \<Rightarrow> u32 \<times> u32) \<Rightarrow> mac_state \<Rightarrow> mac_state" where
  "upd_p2 f s = (let r = m_statusRegisters s; (st, m) = f (sr_p2Status r, sr_p2StatusMasked r)
     in s\<lparr>m_statusRegisters := r\<lparr>sr_p2Status := st, sr_p2StatusMasked := m\<rparr>\<rparr>)"

text \<open>Which registers of a port are still at their initial value.\<close>

definition subsys_unread :: "u32 \<Rightarrow> bool" where
  "subsys_unread status \<longleftrightarrow> status AND HI16 = ADI_MAC_PHY_STATUS_INIT_VAL AND HI16"

definition crsm_unread :: "u32 \<Rightarrow> bool" where
  "crsm_unread masked \<longleftrightarrow> masked AND LO16 = ADI_MAC_PHY_STATUS_INIT_VAL AND LO16"

definition oa_phy_p1 :: "u32 \<Rightarrow> mac_state \<Rightarrow> oa_result option" where
  "oa_phy_p1 data s =
     (if crsm_unread (sr_p1StatusMasked (m_statusRegisters s))
      then oaPhyRegReadStart 1 ADDR_PHY_SUBSYS_IRQ_STATUS (upd_p1 (record_crsm (m_phyIrqMask s) data) s)
      else let s = upd_p1 (record_subsys (m_phyIrqMask s) data) s in
        if P2_PHYINT (m_statusRegisters s) then oaPhyRegReadStart 2 ADDR_CRSM_IRQ_STATUS s
        else oaSpiIntHandle s)"

definition oa_phy_p2 :: "u32 \<Rightarrow> mac_state \<Rightarrow> oa_result option" where
  "oa_phy_p2 data s =
     (if crsm_unread (sr_p2StatusMasked (m_statusRegisters s))
      then oaPhyRegReadStart 2 ADDR_PHY_SUBSYS_IRQ_STATUS (upd_p2 (record_crsm (m_phyIrqMask s) data) s)
      else oaSpiIntHandle (upd_p2 (record_subsys (m_phyIrqMask s) data) s))"

text \<open>
  Behind a successful read: with neither port left to read the branch does nothing, and no
  transaction follows.
\<close>

definition oa_phy_record :: "mac_state \<Rightarrow> oa_result option" where
  "oa_phy_record s =
     (let r = m_statusRegisters s in
      case reg_words s of [] \<Rightarrow> None
      | data # _ \<Rightarrow>
        if P1_PHYINT r \<and> subsys_unread (sr_p1Status r) then oa_phy_p1 data s
        else if P2_PHYINT r \<and> subsys_unread (sr_p2Status r) then oa_phy_p2 data s
        else Some (ADI_ETH_SUCCESS, s, None))"

text \<open>Poll until \<open>TRDONE\<close> is set.\<close>

definition oa_phy_poll :: "mac_state \<Rightarrow> oa_result option" where
  "oa_phy_poll s = do {
     (result, dst) \<leftarrow> oaCtrlCmdReadData (drop (2 * ADI_SPI_HEADER_SIZE) (m_ctrlRxBuf s)) (m_cnt s);
     s \<leftarrow> reg_store dst s;
     w \<leftarrow> (case reg_words s of [] \<Rightarrow> None | w # _ \<Rightarrow> Some w);
     with_result result
       (if w AND BITM_MAC_MDIOACC_N__MDIO_TRDONE \<noteq> 0 then oa_phy_record s
        else oaPhyRegReadStep (s\<lparr>m_wnr := ADI_MAC_SPI_READ\<rparr>))
   }"

definition oa_read_phy :: "mac_state \<Rightarrow> oa_result option" where
  "oa_read_phy s = do {
     cHdr \<leftarrow> mem_read (m_ctrlTxBuf s) 0 4;
     eHdr \<leftarrow> mem_read (m_ctrlRxBuf s) ADI_SPI_HEADER_SIZE 4;
     if cHdr \<noteq> eHdr
     then with_result ADI_ETH_SUCCESS (oaSpiIntHandle (s\<lparr>m_spiErr := True\<rparr>))
     else if m_regAddr s = ADDR_MAC_MDIOACC_0
     then with_result ADI_ETH_SUCCESS
       (oaPhyRegReadStep (s\<lparr>m_spiErr := False, m_wnr := ADI_MAC_SPI_WRITE\<rparr>))
     else if m_wnr s = ADI_MAC_SPI_WRITE
     then with_result ADI_ETH_SUCCESS
       (oaPhyRegReadStep (s\<lparr>m_spiErr := False, m_wnr := ADI_MAC_SPI_READ\<rparr>))
     else oa_phy_poll (s\<lparr>m_spiErr := False\<rparr>)
   }"

section \<open>The machine\<close>

text \<open>One pass through the \<open>switch\<close>.\<close>

definition oa_dispatch :: "mac_state \<Rightarrow> oa_result option" where
  "oa_dispatch s = (case m_state s of
       ADI_MAC_STATE_CONTROL_START \<Rightarrow> oa_control_start s
     | ADI_MAC_STATE_CONTROL_END \<Rightarrow> oa_control_end s
     | ADI_MAC_STATE_DATA_START \<Rightarrow> oa_data_start s
     | ADI_MAC_STATE_DATA_END \<Rightarrow> oa_data_end s
     | ADI_MAC_STATE_IRQ_START \<Rightarrow> oa_irq_start s
     | ADI_MAC_STATE_DATA_READ_STATUS \<Rightarrow> oa_read_status s
     | ADI_MAC_STATE_DATA_READ_PHY_REGISTER \<Rightarrow> oa_read_phy s
     | _ \<Rightarrow> Some (ADI_ETH_SUCCESS,
         s\<lparr>m_state := ADI_MAC_STATE_READY, m_spiState := ADI_MAC_SPI_STATE_READY, s_irqEnabled := True\<rparr>,
         None))"

text \<open>The hardware below the driver: chip select and SPI transfers.\<close>

record 'e adi_hal =
  h_io_write :: "bool \<Rightarrow> 'e \<Rightarrow> 'e"
  h_xfer :: "bool \<Rightarrow> u8 list \<Rightarrow> 'e \<Rightarrow> (u8 list \<times> 'e) option"

definition MIN_SIZE_FOR_DMA :: nat where "MIN_SIZE_FOR_DMA = 16"

fun spi_exchange :: "'e adi_hal \<Rightarrow> spi_request \<Rightarrow> mac_state \<times> 'e \<Rightarrow> (mac_state \<times> 'e) option" where
  "spi_exchange h (SpiCtrl len) (s, e) = do {
     (rx, e) \<leftarrow> adi_bsp_spi_write_and_read (h_io_write h) (h_xfer h) (m_ctrlTxBuf s) (m_ctrlRxBuf s)
        len (MIN_SIZE_FOR_DMA \<le> len) e;
     Some (s\<lparr>m_ctrlRxBuf := rx\<rparr>, e)
   }"
| "spi_exchange h (SpiData len) (s, e) = do {
     (rx, e) \<leftarrow> adi_bsp_spi_write_and_read (h_io_write h) (h_xfer h) (s_spiTxBuf s) (s_spiRxBuf s)
        len (MIN_SIZE_FOR_DMA \<le> len) e;
     Some (s\<lparr>s_spiRxBuf := rx\<rparr>, e)
   }"

text \<open>
  The exchange ends with the call of \<open>spiCallback\<close>, that is of \<open>oaStateMachine\<close>, whose status
  is dropped.  \<open>None\<close> is a failed transfer, undefined behaviour or a machine that goes on
  for ever.
\<close>

partial_function (option) oaStateMachine ::
  "'e adi_hal \<Rightarrow> mac_state \<times> 'e \<Rightarrow> (adi_eth_Result_e \<times> mac_state \<times> 'e) option" where
  "oaStateMachine h w = do {
     (result, s, req) \<leftarrow> oa_dispatch (fst w);
     case req of None \<Rightarrow> Some (result, s, snd w)
     | Some rq \<Rightarrow> do {
         w \<leftarrow> spi_exchange h rq (s, snd w);
         (_, w) \<leftarrow> oaStateMachine h w;
         Some (result, w)
       }
   }"

definition spiCallback :: "'e adi_hal \<Rightarrow> mac_state \<times> 'e \<Rightarrow> (mac_state \<times> 'e) option" where
  "spiCallback h w = do { (_, w) \<leftarrow> oaStateMachine h w; Some w }"

definition oaIrqHandler :: "'e adi_hal \<Rightarrow> mac_state \<times> 'e \<Rightarrow> (mac_state \<times> 'e) option" where
  "oaIrqHandler h = (\<lambda>(s, e).
     if m_spiState s = ADI_MAC_SPI_STATE_READY
     then do {
       let s = s\<lparr>s_irqEnabled := False, m_state := ADI_MAC_STATE_IRQ_START\<rparr>;
       (_, w) \<leftarrow> oaStateMachine h (s, e);
       Some w
     }
     else Some (s, e))"

definition MAC_SendFrame :: "'e adi_hal \<Rightarrow> mac_state \<times> 'e \<Rightarrow> (adi_eth_Result_e \<times> mac_state \<times> 'e) option" where
  "MAC_SendFrame h = (\<lambda>(s, e). oaStateMachine h (s\<lparr>m_state := ADI_MAC_STATE_DATA_START\<rparr>, e))"

end
