(* ===== verification/Oa_Run.thy ===== *)
theory Oa_Run
  imports Oa_Machine "HOL-Library.Monad_Syntax"
begin

text \<open>
  Runs of the state machine: an invariant of the states it passes through, and what holds
  when it returns.  Reading the PHY interrupt registers is the delicate part: the machine
  goes on only while a port is left to read.
\<close>

section \<open>The invariant\<close>

definition phy_pending :: "adi_mac_StatusRegisters_t \<Rightarrow> bool" where
  "phy_pending r \<longleftrightarrow>
     (P1_PHYINT r \<and> subsys_unread (sr_p1Status r) \<and> (P2_PHYINT r \<longrightarrow> subsys_unread (sr_p2Status r))) \<or>
     (P2_PHYINT r \<and> subsys_unread (sr_p2Status r))"

definition oa_inv :: "mac_state \<Rightarrow> bool" where
  "oa_inv s \<longleftrightarrow> length (m_ctrlTxBuf s) = 256 \<and> length (m_ctrlRxBuf s) = 256 \<and>
     (m_state s = ADI_MAC_STATE_DATA_READ_PHY_REGISTER \<longrightarrow>
        phy_pending (m_statusRegisters s) \<and> m_pRegData s = RegMdioCmd \<and> m_cnt s = 1)"

definition control_state :: "mac_state \<Rightarrow> bool" where
  "control_state s \<longleftrightarrow> m_state s \<in> {ADI_MAC_STATE_CONTROL_START, ADI_MAC_STATE_CONTROL_END}"

definition oa_is_ready :: "mac_state \<Rightarrow> bool" where
  "oa_is_ready s \<longleftrightarrow> m_state s = ADI_MAC_STATE_READY \<and> m_spiState s = ADI_MAC_SPI_STATE_READY"

text \<open>What a pass through the \<open>switch\<close> guarantees.\<close>

definition oa_step_ok :: "bool \<Rightarrow> oa_result option \<Rightarrow> bool" where
  "oa_step_ok ctrl m \<longleftrightarrow> (case m of None \<Rightarrow> True
     | Some (r, s, None) \<Rightarrow> oa_is_ready s \<and> (\<not> ctrl \<longrightarrow> m_pendingCtrl s \<or> s_irqEnabled s)
     | Some (r, s, Some rq) \<Rightarrow> oa_inv s \<and> control_state s = ctrl)"

lemma oa_step_ok_None [simp]: "oa_step_ok c None"
  by (simp add: oa_step_ok_def)

lemma oa_step_ok_with_result [simp]: "oa_step_ok c (with_result r m) = oa_step_ok c m"
  by (cases m) (auto simp: oa_step_ok_def with_result_def split: prod.splits)

section \<open>The PHY registers\<close>

lemma oa_step_ok_bind: "(\<And>x. m = Some x \<Longrightarrow> oa_step_ok c (f x)) \<Longrightarrow> oa_step_ok c (m \<bind> f)"
  by (cases m) simp_all

lemma subsys_unread_init [simp]: "subsys_unread ADI_MAC_PHY_STATUS_INIT_VAL"
  by (simp add: subsys_unread_def)

lemma HI16_mask: "HI16 = push_bit 16 (mask 16)" and LO16_mask: "LO16 = mask 16"
  by (simp_all add: HI16_def LO16_def mask_eq_exp_minus_1 push_bit_eq_mult)

lemma subsys_unread_crsm: "subsys_unread ((st AND HI16) OR (data AND LO16)) = subsys_unread st"
proof -
  have "((st AND HI16) OR (data AND LO16)) AND HI16 = st AND HI16"
    unfolding HI16_mask LO16_mask by (rule bit_word_eqI) (auto simp: bit_simps)
  then show ?thesis by (simp add: subsys_unread_def)
qed

section \<open>Control transactions\<close>

lemma ctrl_setup_frame:
  assumes "ctrl_setup wnr regAddr len s = Some (result, len', t)"
  obtains buf where "t = s\<lparr>m_ctrlTxBuf := buf\<rparr>" and "length buf = length (m_ctrlTxBuf s)"
proof -
  obtain buf where b: "oaCtrlSetup (m_ctrlTxBuf s) wnr regAddr (reg_words s) len = Some (result, buf, len')"
    and t: "t = s\<lparr>m_ctrlTxBuf := buf\<rparr>"
    using assms by (auto simp: ctrl_setup_def bind_eq_Some_conv)
  have "length buf = length (m_ctrlTxBuf s)"
    using b by (auto simp: oaCtrlSetup_def Let_def bind_eq_Some_conv split: if_splits dest!: mem_write_length)
  with t that show ?thesis by blast
qed

lemma small_setup:
  assumes "ctrl_setup wnr regAddr len s = Some (result, len', t)" and "len \<le> 2"
  obtains buf where "result = ADI_ETH_SUCCESS" and "t = s\<lparr>m_ctrlTxBuf := buf\<rparr>"
    and "length buf = length (m_ctrlTxBuf s)"
proof -
  have "result = ADI_ETH_SUCCESS"
    using assms
    by (auto simp: ctrl_setup_def oaCtrlSetup_def Let_def bind_eq_Some_conv oa_sizes split: if_splits)
  with ctrl_setup_frame [OF assms(1)] that show thesis by blast
qed

lemma oaPhyRegReadStart_ok:
  assumes "length (m_ctrlTxBuf s) = 256" "length (m_ctrlRxBuf s) = 256" "phy_pending (m_statusRegisters s)"
  shows "oa_step_ok False (oaPhyRegReadStart prtad regAddr s)"
  using assms unfolding oaPhyRegReadStart_def Let_def
  by (auto simp: oa_step_ok_def oa_inv_def control_state_def bind_eq_Some_conv
      split: option.splits elim!: small_setup)

lemma oaPhyRegReadStep_ok:
  assumes "length (m_ctrlTxBuf s) = 256" "length (m_ctrlRxBuf s) = 256" "phy_pending (m_statusRegisters s)"
  shows "oa_step_ok False (oaPhyRegReadStep s)"
  using assms unfolding oaPhyRegReadStep_def Let_def
  by (auto simp: oa_step_ok_def oa_inv_def control_state_def bind_eq_Some_conv
      split: option.splits elim!: small_setup)

text \<open>The callbacks only append events.\<close>

definition appends :: "mac_state \<Rightarrow> mac_state \<Rightarrow> bool" where
  "appends s t \<longleftrightarrow> (\<exists>evs. t = s\<lparr>s_events := s_events s @ evs\<rparr>)"

lemma appends_refl [simp]: "appends s s"
  unfolding appends_def by (intro exI [of _ "[]"]) simp

lemma appends_emit: "appends s t \<Longrightarrow> appends s (emit e t)"
  unfolding appends_def emit_def by (elim exE) (auto intro: exI [of _ "_ @ [e]"])

lemma oa_status_callbacks_frame: "appends s (oa_status_callbacks s)"
  by (auto simp: oa_status_callbacks_def Let_def appends_emit split: option.split)

lemma oaSpiIntHandle_ok:
  assumes "length (m_ctrlTxBuf s) = 256" "length (m_ctrlRxBuf s) = 256"
  shows "oa_step_ok False (oaSpiIntHandle s)"
proof -
  obtain evs where e: "oa_status_callbacks s = s\<lparr>s_events := s_events s @ evs\<rparr>"
    using oa_status_callbacks_frame [of s] by (auto simp: appends_def)
  show ?thesis
    using assms unfolding oaSpiIntHandle_def Let_def e
    by (auto simp: oa_step_ok_def oa_inv_def control_state_def bind_eq_Some_conv
        split: option.splits elim!: small_setup)
qed

section \<open>Data transactions leave the control buffers and the chunk size alone\<close>

definition ctl :: "mac_state \<Rightarrow> u8 list \<times> u8 list \<times> bool \<times> nat" where
  "ctl s = (m_ctrlTxBuf s, m_ctrlRxBuf s, m_pendingCtrl s, m_oaCps s)"

lemma ctl_upd [simp]:
  "ctl (upd_desc d f s) = ctl s" "ctl (upd_stats g s) = ctl s" "ctl (emit e s) = ctl s"
  "ctl (s\<lparr>m_oaRxCurBufByteOffset := n\<rparr>) = ctl s" "ctl (s\<lparr>m_oaValidFlag := x\<rparr>) = ctl s"
  "ctl (s\<lparr>m_oaTimestampSplit := b\<rparr>) = ctl s" "ctl (s\<lparr>m_oaTimestampParity := y\<rparr>) = ctl s"
  "ctl (s\<lparr>m_oaTxc := n\<rparr>) = ctl s" "ctl (s\<lparr>m_oaRca := n\<rparr>) = ctl s"
  "ctl (s\<lparr>m_rxQueueLp := q\<rparr>) = ctl s" "ctl (s\<lparr>m_txQueue := q\<rparr>) = ctl s"
  "ctl (s\<lparr>m_oaRxUseBackupBuf := b\<rparr>) = ctl s" "ctl (s\<lparr>m_oaRxBufChunkStart := n\<rparr>) = ctl s"
  "ctl (s\<lparr>m_oaRxBufTrxSize := n\<rparr>) = ctl s" "ctl (s\<lparr>m_oaTrxSize := n\<rparr>) = ctl s"
  "ctl (s\<lparr>m_oaTxCurBufByteOffset := n\<rparr>) = ctl s" "ctl (s\<lparr>m_oaTxCurBufIdx := n\<rparr>) = ctl s"
  "ctl (s\<lparr>s_spiTxBuf := buf\<rparr>) = ctl s" "ctl (s\<lparr>m_oaRxBackupBuf := buf\<rparr>) = ctl s"
  by (simp_all add: ctl_def upd_desc_def upd_stats_def emit_def)

lemma ctl_call [simp]: "ctl (call_buf_desc ev d s) = ctl s" "ctl (rx_remove s) = ctl s"
  by (simp_all add: call_buf_desc_def rx_remove_def split: option.split)

lemma ctl_deliver [simp]: "ctl (rx_deliver ev d s) = ctl s"
  by (simp add: rx_deliver_def Let_def split: option.split)

lemma copy_rx_ctl: "copy_rx d dst src n s = Some s' \<Longrightarrow> ctl s' = ctl s"
  by (auto simp: copy_rx_def bind_eq_Some_conv)

lemma rx_fcs_check_ctl: "rx_fcs_check d (v, s) = Some (v', s') \<Longrightarrow> s' = s"
  by (auto simp: rx_fcs_check_def Let_def bind_eq_Some_conv split: if_splits)

lemma rx_split_timestamp_ctl: "rx_split_timestamp d c (v, s) = Some (b, v', s') \<Longrightarrow> ctl s' = ctl s"
  by (auto simp: rx_split_timestamp_def Let_def bind_eq_Some_conv split: if_splits)

lemma rx_end_of_frame_ctl: "rx_end_of_frame f d c (v, s) = Some (v', s') \<Longrightarrow> ctl s' = ctl s"
  by (auto simp: rx_end_of_frame_def Let_def bind_eq_Some_conv split: if_splits
      dest!: copy_rx_ctl rx_fcs_check_ctl)

lemma rx_start_timestamp_ctl: "rx_start_timestamp f d c b (v, s) = Some (b', v', s') \<Longrightarrow> ctl s' = ctl s"
  by (auto simp: rx_start_timestamp_def Let_def bind_eq_Some_conv split: if_splits)

lemma rx_start_of_frame_ctl: "rx_start_of_frame f c (v, s) = Some (v', s') \<Longrightarrow> ctl s' = ctl s"
  unfolding rx_start_of_frame_def Let_def prod.case
  by (auto simp: bind_eq_Some_conv split: if_splits
      dest!: copy_rx_ctl rx_fcs_check_ctl rx_start_timestamp_ctl)

lemma rx_middle_ctl: "rx_middle f d c b (v, s) = Some (v', s') \<Longrightarrow> ctl s' = ctl s"
  by (auto simp: rx_middle_def Let_def bind_eq_Some_conv split: if_splits dest!: copy_rx_ctl)

lemma rx_data_ctl: "rx_data f c (v, s) = Some (v', s') \<Longrightarrow> ctl s' = ctl s"
  by (auto simp: rx_data_def bind_eq_Some_conv split: if_splits
      dest!: rx_split_timestamp_ctl rx_end_of_frame_ctl rx_start_of_frame_ctl rx_middle_ctl)

lemma tx_confirm_ctl: "tx_confirm c (v, s) = Some (v', s') \<Longrightarrow> ctl s' = ctl s"
  by (auto simp: tx_confirm_def Let_def bind_eq_Some_conv split: if_splits)

lemma rx_chunk_ctl: "rx_chunk c (v, s) = Some (v', s') \<Longrightarrow> ctl s' = ctl s"
  by (auto simp: rx_chunk_def Let_def bind_eq_Some_conv split: if_splits
      dest!: rx_data_ctl tx_confirm_ctl)

lemma rx_chunks_ctl: "rx_chunks trx cs c vs = Some vs' \<Longrightarrow> ctl (snd vs') = ctl (snd vs)"
proof (induction trx cs c vs rule: rx_chunks.induct)
  case (1 trx cs c vs)
  show ?case
  proof (cases "c < trx")
    case True
    with "1.prems" obtain v1 s1 where one: "rx_chunk c vs = Some (v1, s1)"
      "rx_chunks trx cs (c + ADI_SPI_HEADER_SIZE + cs) (v1, s1) = Some vs'"
      by (auto simp: rx_chunks.simps [of trx cs c] bind_eq_Some_conv)
    from "1.IH" [OF True one] rx_chunk_ctl [of c "fst vs" "snd vs"] one(1) show ?thesis by simp
  next
    case False
    with "1.prems" show ?thesis by (simp add: rx_chunks.simps [of trx cs c])
  qed
qed

lemma chunk_current_frame_ctl:
  "chunk_current_frame s buf p h = Some (s', b', h', n) \<Longrightarrow> ctl s' = ctl s"
  unfolding chunk_current_frame_def Let_def bind_eq_Some_conv
  by (elim exE conjE) (auto split: if_splits)

lemma chunk_next_frame_ctl:
  assumes "chunk_next_frame s buf p h n = Some (s', b', h')"
  shows "ctl s' = ctl s"
proof (cases "4 \<le> chunkSize s - n \<and> m_oaTxCurBufIdx s \<noteq> q_head (m_txQueue s) \<and> \<not> th_SV h")
  case True
  from assms show ?thesis
    unfolding chunk_next_frame_def Let_def bind_eq_Some_conv if_P [OF True]
    by (elim exE conjE) (simp only: option.inject prod.inject, elim conjE, hypsubst, simp)
next
  case False
  from assms show ?thesis unfolding chunk_next_frame_def if_not_P [OF False] by simp
qed

lemma oaCreateNextChunk_ctl:
  assumes "oaCreateNextChunk s buf p en = Some (s', buf')"
  shows "ctl s' = ctl s"
  using assms
  by (simp add: oaCreateNextChunk_def Let_def bind_eq_Some_conv)
    (auto simp: bind_eq_Some_conv split: if_splits dest!: chunk_current_frame_ctl chunk_next_frame_ctl)

lemma create_chunks_ctl: "create_chunks n i k s buf = Some (s', buf') \<Longrightarrow> ctl s' = ctl s"
  by (induction n arbitrary: i s buf)
    (auto simp: Let_def bind_eq_Some_conv split: if_splits dest!: oaCreateNextChunk_ctl)

lemma oaSpiProcess_ctl: "oaSpiProcess s = Some s' \<Longrightarrow> ctl s' = ctl s"
  by (auto simp: oaSpiProcess_def Let_def bind_eq_Some_conv split: if_splits dest!: create_chunks_ctl)

section \<open>The states\<close>

lemma oa_ready_ok: "oa_is_ready (oa_ready s) \<and> (m_pendingCtrl (oa_ready s) \<or> s_irqEnabled (oa_ready s))"
  by (simp add: oa_ready_def oa_is_ready_def Let_def)

lemma oa_control_start_ok: "oa_inv s \<Longrightarrow> oa_step_ok True (oa_control_start s)"
  unfolding oa_control_start_def
  by (auto simp: oa_step_ok_def oa_inv_def control_state_def bind_eq_Some_conv
      split: option.splits elim!: ctrl_setup_frame)

lemma oa_control_end_ok: "oa_step_ok True (oa_control_end s)"
  unfolding oa_control_end_def Let_def
  by (auto simp: oa_step_ok_def oa_is_ready_def bind_eq_Some_conv split: option.splits)

lemma oa_data_start_ok: "oa_inv s \<Longrightarrow> oa_step_ok False (oa_data_start s)"
  using oa_ready_ok unfolding oa_data_start_def Let_def
  by (auto simp: oa_step_ok_def oa_inv_def control_state_def bind_eq_Some_conv ctl_def
      split: option.splits if_splits dest!: oaSpiProcess_ctl)

lemma oa_data_tail_ok:
  assumes "length (m_ctrlTxBuf s) = 256" "length (m_ctrlRxBuf s) = 256"
  shows "oa_step_ok False (oa_data_tail b s)"
  using assms oa_ready_ok unfolding oa_data_tail_def
  by (auto simp: oa_step_ok_def oa_inv_def control_state_def bind_eq_Some_conv ctl_def
      split: option.splits if_splits dest!: oaSpiProcess_ctl elim!: small_setup)

lemma oa_data_end_ok: "oa_inv s \<Longrightarrow> oa_step_ok False (oa_data_end s)"
proof (cases "rx_chunks (m_oaTrxSize s) (chunkSize s) 0 (rx_vars_init s, s)")
  case (Some vs)
  assume inv: "oa_inv s"
  obtain v t where vs: "vs = (v, t)" by (cases vs)
  from Some inv have "length (m_ctrlTxBuf t) = 256" "length (m_ctrlRxBuf t) = 256"
    by (auto simp: ctl_def oa_inv_def vs dest!: rx_chunks_ctl)
  then show ?thesis using oa_data_tail_ok [of t]
    by (cases "v_footer v") (auto simp: oa_data_end_def Some vs)
qed (simp add: oa_data_end_def)

lemma oa_irq_start_ok: "oa_inv s \<Longrightarrow> oa_step_ok False (oa_irq_start s)"
  by (auto simp: oa_irq_start_def Let_def oa_step_ok_def oa_inv_def control_state_def bind_eq_Some_conv
      split: option.splits)

lemma oa_read_branch_ok:
  assumes "length (m_ctrlTxBuf s) = 256" "length (m_ctrlRxBuf s) = 256"
    and "r = m_statusRegisters s" "sr_p1Status r = ADI_MAC_PHY_STATUS_INIT_VAL"
      "sr_p2Status r = ADI_MAC_PHY_STATUS_INIT_VAL"
  shows "oa_step_ok False (if P1_PHYINT r \<or> P2_PHYINT r then oaPhyRegReadStart n a s else oaSpiIntHandle s)"
  using assms oaPhyRegReadStart_ok [of s n a] oaSpiIntHandle_ok [of s] by (simp add: phy_pending_def)

lemma oa_read_status_ok: "oa_inv s \<Longrightarrow> oa_step_ok False (oa_read_status s)"
proof (cases "oaCtrlCmdReadData (drop (2 * ADI_SPI_HEADER_SIZE) (m_ctrlRxBuf s)) 2")
  case (Some x)
  assume "oa_inv s"
  then show ?thesis
    by (cases x) (simp only: oa_read_status_def Some Let_def prod.case Option.bind.bind_lunit
        oa_step_ok_with_result, rule oa_read_branch_ok, simp_all add: oa_inv_def)
qed (simp add: oa_read_status_def)

lemma upd_p1_simps [simp]:
  "m_ctrlTxBuf (upd_p1 f s) = m_ctrlTxBuf s" "m_ctrlRxBuf (upd_p1 f s) = m_ctrlRxBuf s"
  "P1_PHYINT (m_statusRegisters (upd_p1 f s)) = P1_PHYINT (m_statusRegisters s)"
  "P2_PHYINT (m_statusRegisters (upd_p1 f s)) = P2_PHYINT (m_statusRegisters s)"
  "sr_p2Status (m_statusRegisters (upd_p1 f s)) = sr_p2Status (m_statusRegisters s)"
  by (simp_all add: upd_p1_def Let_def P1_PHYINT_def P2_PHYINT_def split: prod.split)

lemma upd_p2_simps [simp]:
  "m_ctrlTxBuf (upd_p2 f s) = m_ctrlTxBuf s" "m_ctrlRxBuf (upd_p2 f s) = m_ctrlRxBuf s"
  "P1_PHYINT (m_statusRegisters (upd_p2 f s)) = P1_PHYINT (m_statusRegisters s)"
  "P2_PHYINT (m_statusRegisters (upd_p2 f s)) = P2_PHYINT (m_statusRegisters s)"
  by (simp_all add: upd_p2_def Let_def P1_PHYINT_def P2_PHYINT_def split: prod.split)

lemma upd_crsm_subsys [simp]:
  "subsys_unread (sr_p1Status (m_statusRegisters (upd_p1 (record_crsm m d) s))) =
     subsys_unread (sr_p1Status (m_statusRegisters s))"
  "subsys_unread (sr_p2Status (m_statusRegisters (upd_p2 (record_crsm m d) s))) =
     subsys_unread (sr_p2Status (m_statusRegisters s))"
  by (simp_all add: upd_p1_def upd_p2_def record_crsm_def Let_def subsys_unread_crsm)

lemma oa_phy_record_ok:
  assumes "length (m_ctrlTxBuf s) = 256" "length (m_ctrlRxBuf s) = 256" "phy_pending (m_statusRegisters s)"
  shows "oa_step_ok False (oa_phy_record s)"
  using assms unfolding oa_phy_record_def oa_phy_p1_def oa_phy_p2_def Let_def
  by (auto simp: phy_pending_def intro!: oaPhyRegReadStart_ok oaSpiIntHandle_ok split: list.split)

lemma reg_store_mdio:
  assumes "reg_store dst s = Some t" and "m_pRegData s = RegMdioCmd"
  obtains w where "t = s\<lparr>s_mdioCmd := w\<rparr>"
proof -
  have "t = s\<lparr>s_mdioCmd := s_mdioCmd t\<rparr>"
    using assms by (auto simp: reg_store_def split: list.splits)
  with that show ?thesis by blast
qed

lemma oa_phy_poll_ok:
  assumes "length (m_ctrlTxBuf s) = 256" "length (m_ctrlRxBuf s) = 256" "phy_pending (m_statusRegisters s)"
    and "m_pRegData s = RegMdioCmd"
  shows "oa_step_ok False (oa_phy_poll s)"
  unfolding oa_phy_poll_def
proof (intro oa_step_ok_bind, clarify, intro oa_step_ok_bind)
  fix r dst t w assume "reg_store dst s = Some t"
  then obtain x where t: "t = s\<lparr>s_mdioCmd := x\<rparr>" using assms(4) by (rule reg_store_mdio)
  show "oa_step_ok False (with_result r (if w AND BITM_MAC_MDIOACC_N__MDIO_TRDONE \<noteq> 0
      then oa_phy_record t else oaPhyRegReadStep (t\<lparr>m_wnr := ADI_MAC_SPI_READ\<rparr>)))"
    using assms oa_phy_record_ok [of t] oaPhyRegReadStep_ok [of "t\<lparr>m_wnr := ADI_MAC_SPI_READ\<rparr>"]
    by (simp add: t)
qed

lemma oa_read_phy_ok:
  assumes "oa_inv s" and "m_state s = ADI_MAC_STATE_DATA_READ_PHY_REGISTER"
  shows "oa_step_ok False (oa_read_phy s)"
  unfolding oa_read_phy_def
proof (intro oa_step_ok_bind)
  fix c d :: "u8 list"
  have i: "length (m_ctrlTxBuf s) = 256" "length (m_ctrlRxBuf s) = 256" "phy_pending (m_statusRegisters s)"
    "m_pRegData s = RegMdioCmd"
    using assms by (simp_all add: oa_inv_def)
  show "oa_step_ok False
     (if c \<noteq> d then with_result ADI_ETH_SUCCESS (oaSpiIntHandle (s\<lparr>m_spiErr := True\<rparr>))
     else if m_regAddr s = ADDR_MAC_MDIOACC_0
     then with_result ADI_ETH_SUCCESS (oaPhyRegReadStep (s\<lparr>m_spiErr := False, m_wnr := ADI_MAC_SPI_WRITE\<rparr>))
     else if m_wnr s = ADI_MAC_SPI_WRITE
     then with_result ADI_ETH_SUCCESS (oaPhyRegReadStep (s\<lparr>m_spiErr := False, m_wnr := ADI_MAC_SPI_READ\<rparr>))
     else oa_phy_poll (s\<lparr>m_spiErr := False\<rparr>))"
    using i by (auto intro!: oaPhyRegReadStep_ok oaSpiIntHandle_ok oa_phy_poll_ok)
qed

lemma oa_dispatch_ok:
  assumes "oa_inv s"
  shows "oa_step_ok (control_state s) (oa_dispatch s)"
  using assms oa_control_start_ok [of s] oa_control_end_ok [of s] oa_data_start_ok [of s]
    oa_data_end_ok [of s] oa_irq_start_ok [of s] oa_read_status_ok [of s] oa_read_phy_ok [of s]
  by (cases "m_state s")
    (simp_all add: oa_dispatch_def control_state_def, simp_all add: oa_step_ok_def oa_is_ready_def)

section \<open>Runs\<close>

lemma spi_transfers_length:
  "spi_transfers xfer dma n idx tx rx e = Some (st, rx', e') \<Longrightarrow> length rx' = length rx"
proof (induction xfer dma n idx tx rx e rule: spi_transfers.induct)
  case (1 xfer dma n idx tx rx e)
  show ?case
  proof (cases "idx < n")
    case True
    from "1.prems" obtain b where b: "mem_read tx idx (min (n - idx) SPI_MAX_TRANSFER) = Some b"
      by (auto simp: spi_transfers.simps [of xfer dma n idx] Let_def bind_eq_Some_conv True)
    show ?thesis
    proof (cases "xfer dma b e")
      case None
      with "1.prems" True b show ?thesis
        by (simp add: spi_transfers.simps [of xfer dma n idx] Let_def del: mem_read_Some)
    next
      case (Some y)
      then obtain r e1 where y: "xfer dma b e = Some (r, e1)" by (cases y) auto
      with "1.prems" True b obtain rx1 where rx1: "mem_write rx idx r = Some rx1"
        "spi_transfers xfer dma n (idx + SPI_MAX_TRANSFER) tx rx1 e1 = Some (st, rx', e')"
        by (auto simp: spi_transfers.simps [of xfer dma n idx] Let_def bind_eq_Some_conv simp del: mem_read_Some)
      from "1.IH" [OF True refl refl b y refl rx1] mem_write_length [OF rx1(1)] show ?thesis by simp
    qed
  next
    case False
    with "1.prems" show ?thesis by (simp add: spi_transfers.simps [of xfer dma n idx])
  qed
qed

lemma bsp_length:
  "adi_bsp_spi_write_and_read iow xfer tx rx n dma e = Some (rx', e') \<Longrightarrow> length rx' = length rx"
  by (auto simp: adi_bsp_spi_write_and_read_def Let_def bind_eq_Some_conv split: if_splits
      dest!: spi_transfers_length)

lemma spi_exchange_keeps:
  assumes "spi_exchange h rq (s, e) = Some (t, e')" and "oa_inv s"
  shows "oa_inv t \<and> control_state t = control_state s"
  using assms
  by (cases rq) (auto simp: bind_eq_Some_conv oa_inv_def control_state_def dest!: bsp_length)

definition returns_ready :: "mac_state \<times> 'e \<Rightarrow> adi_eth_Result_e \<times> mac_state \<times> 'e \<Rightarrow> bool" where
  "returns_ready w y \<longleftrightarrow> (oa_inv (fst w) \<longrightarrow> oa_is_ready (fst (snd y)) \<and>
    (control_state (fst w) \<or> m_pendingCtrl (fst (snd y)) \<or> s_irqEnabled (fst (snd y))))"

lemma oaStateMachine_ready:
  assumes "oaStateMachine h w = Some y"
  shows "returns_ready w y"
proof (rule oaStateMachine.raw_induct [OF _ assms, of "\<lambda>h. returns_ready"])
  fix f :: "'a adi_hal \<Rightarrow> mac_state \<times> 'a \<Rightarrow> (adi_eth_Result_e \<times> mac_state \<times> 'a) option"
    and h w y
  assume IH: "\<And>h w y. f h w = Some y \<Longrightarrow> returns_ready w y"
    and run: "(do {
        (result, s, req) \<leftarrow> oa_dispatch (fst w);
        case req of None \<Rightarrow> Some (result, s, snd w)
        | Some rq \<Rightarrow> do { w \<leftarrow> spi_exchange h rq (s, snd w); (_, w) \<leftarrow> f h w; Some (result, w) }
      }) = Some y"
  obtain r s req where d: "oa_dispatch (fst w) = Some (r, s, req)"
    using run by (auto simp: bind_eq_Some_conv)
  show "returns_ready w y"
    unfolding returns_ready_def
  proof
    assume inv: "oa_inv (fst w)"
    note ok = oa_dispatch_ok [OF inv, unfolded d]
    show "oa_is_ready (fst (snd y)) \<and>
      (control_state (fst w) \<or> m_pendingCtrl (fst (snd y)) \<or> s_irqEnabled (fst (snd y)))"
    proof (cases req)
      case None
      with run d ok show ?thesis by (auto simp: oa_step_ok_def)
    next
      case (Some rq)
      with run d obtain w1 r2 w2 where e: "spi_exchange h rq (s, snd w) = Some w1"
        "f h w1 = Some (r2, w2)" "y = (r, w2)"
        by (auto simp: bind_eq_Some_conv)
      have "oa_inv s" "control_state s = control_state (fst w)"
        using ok Some by (simp_all add: oa_step_ok_def)
      then have "oa_inv (fst w1)" "control_state (fst w1) = control_state (fst w)"
        using spi_exchange_keeps [of h rq s "snd w" "fst w1" "snd w1"] e(1) by auto
      with IH [OF e(2)] e(3) show ?thesis by (simp add: returns_ready_def)
    qed
  qed
qed

end
