(* ===== verification/Mac_Regs.thy ===== *)
theory Mac_Regs
  imports Oa_Run
begin

text \<open>
  Register access of the MAC driver (\<open>adi_mac.c\<close>): single registers through control
  transactions of the state machine, PHY registers through the MDIO bridge, and waiting for
  the device.  A routine is in the driver monad over the driver state and the hardware
  (\<open>'e\<close>); \<open>regData\<close> is the word \<open>s_regCell\<close> that \<open>pRegData\<close> points to, so it keeps its old
  content when the transaction stores nothing.  A null handle is not modelled.
\<close>

section \<open>Single registers\<close>

type_synonym ('e, 'a) mac_io = "(mac_state \<times> 'e, 'a) io"

definition ADI_SPI_TIMEOUT :: nat where "ADI_SPI_TIMEOUT = 100000"
definition ADI_MAC_MDIO_MAX_RETRIES :: nat where "ADI_MAC_MDIO_MAX_RETRIES = 10"
definition ADI_MAC_INIT_MAX_RETRIES :: nat where "ADI_MAC_INIT_MAX_RETRIES = 25000"
definition ADI_MAC_IF_UP_MAX_RETRIES :: nat where "ADI_MAC_IF_UP_MAX_RETRIES = 25000"

text \<open>The conversion of a register address to the \<open>uint16_t\<close> parameter.\<close>

definition U16 :: "u32 \<Rightarrow> u32" where "U16 a = ucast (ucast a :: u16)"

text \<open>
  \<open>while (timeout && spiState != READY) timeout--;\<close>: the SPI driver of the board returns
  only when a transaction has ended, so nothing changes \<open>spiState\<close> meanwhile.
\<close>

fun spi_wait :: "nat \<Rightarrow> mac_state \<Rightarrow> nat" where
  "spi_wait 0 s = 0"
| "spi_wait (Suc timeout) s =
     (if m_spiState s \<noteq> ADI_MAC_SPI_STATE_READY then spi_wait timeout s else Suc timeout)"

text \<open>\<open>end: pendingCtrl = false; if (backup) ADI_HAL_ENABLE_IRQ\<close>\<close>

definition control_done :: "bool \<Rightarrow> mac_state \<Rightarrow> mac_state" where
  "control_done backup s = (let s = s\<lparr>m_pendingCtrl := False\<rparr>
     in if backup then s\<lparr>s_irqEnabled := True\<rparr> else s)"

definition irq_backup :: "mac_state \<Rightarrow> bool" where
  "irq_backup s = (if m_spiState s \<noteq> ADI_MAC_SPI_STATE_READY then True else s_irqEnabled s)"

text \<open>
  \<open>old\<close> is what the word that \<open>regData\<close> points to holds before the call; it is still there
  when the transaction stores nothing, for instance after a protection error.
\<close>

definition MAC_ReadRegister_into :: "'e adi_hal \<Rightarrow> u32 \<Rightarrow> u32 \<Rightarrow> ('e, u32) mac_io" where
  "MAC_ReadRegister_into h regAddr old = (\<lambda>(s, e). let s = s\<lparr>s_regCell := old\<rparr> in
     if m_state s = ADI_MAC_STATE_UNINITIALIZED
     then Some (Inl ADI_ETH_DEVICE_UNINITIALIZED, control_done False s, e)
     else
       let backup = irq_backup s;
           s = s\<lparr>s_irqEnabled := False, m_pendingCtrl := True\<rparr>
       in if spi_wait ADI_SPI_TIMEOUT s = 0
       then Some (Inl ADI_ETH_COMM_TIMEOUT, control_done backup s, e)
       else do {
         let s = s\<lparr>m_wnr := ADI_MAC_SPI_READ, m_regAddr := U16 regAddr, m_pRegData := RegCaller,
                   m_cnt := 1, m_state := ADI_MAC_STATE_CONTROL_START\<rparr>;
         (_, s, e) \<leftarrow> oaStateMachine h (s, e);
         Some (if m_spiErr s then Inl ADI_ETH_SPI_ERROR else Inr (s_regCell s), control_done backup s, e)
       })"

text \<open>A word the caller has not initialised holds what the stack left in it.\<close>

definition MAC_ReadRegister :: "'e adi_hal \<Rightarrow> u32 \<Rightarrow> ('e, u32) mac_io" where
  "MAC_ReadRegister h regAddr = (\<lambda>(s, e). MAC_ReadRegister_into h regAddr (s_regCell s) (s, e))"

definition MAC_WriteRegister :: "'e adi_hal \<Rightarrow> u32 \<Rightarrow> u32 \<Rightarrow> ('e, unit) mac_io" where
  "MAC_WriteRegister h regAddr regData = (\<lambda>(s, e).
     if m_state s = ADI_MAC_STATE_UNINITIALIZED
     then Some (Inl ADI_ETH_DEVICE_UNINITIALIZED, control_done False s, e)
     else
       let backup = irq_backup s;
           s = s\<lparr>s_irqEnabled := False, m_pendingCtrl := True\<rparr>
       in if spi_wait ADI_SPI_TIMEOUT s = 0
       then Some (Inl ADI_ETH_COMM_TIMEOUT, control_done backup s, e)
       else do {
         let s = s\<lparr>m_wnr := ADI_MAC_SPI_WRITE, m_regAddr := U16 regAddr, m_pRegData := RegCaller,
                   s_regCell := regData, m_cnt := 1, m_state := ADI_MAC_STATE_CONTROL_START\<rparr>;
         (_, s, e) \<leftarrow> oaStateMachine h (s, e);
         Some (if m_spiErr s then Inl ADI_ETH_SPI_ERROR else Inr (), control_done backup s, e)
       })"

section \<open>The MDIO bridge\<close>

text \<open>
  The loop of \<open>waitMdioReady\<close>: one read and, while the bit is not set and \<open>retryCount\<close> has
  not reached the maximum, another.  Any failure ends as \<open>ADI_ETH_MDIO_TIMEOUT\<close>.
\<close>

fun mdio_poll :: "'e adi_hal \<Rightarrow> u32 \<Rightarrow> nat \<Rightarrow> ('e, unit) mac_io" where
  "mdio_poll h addr retries =
     mcatch (MAC_ReadRegister h addr) (\<lambda>_. mfail ADI_ETH_MDIO_TIMEOUT)
       (\<lambda>v. if md_TRDONE (md_of_VALUE32 v) then mret ()
            else case retries of 0 \<Rightarrow> mfail ADI_ETH_MDIO_TIMEOUT | Suc n \<Rightarrow> mdio_poll h addr n)"

definition waitMdioReady :: "'e adi_hal \<Rightarrow> u32 \<Rightarrow> ('e, unit) mac_io" where
  "waitMdioReady h addrOffset = mdio_poll h addrOffset ADI_MAC_MDIO_MAX_RETRIES"

text \<open>
  The commands: \<open>mdioCmd\<close> is automatic and only some of its fields are assigned, so the
  \<open>TAERR\<close> bit is whatever its storage (\<open>junk\<close>) holds.
\<close>

definition mdio_address :: "u32 \<Rightarrow> u8 \<Rightarrow> u32 \<Rightarrow> ADI_MAC_MDIOACC_0_t" where
  "mdio_address junk hwAddr regAddr =
     (md_of_VALUE32 junk)\<lparr>md_DEVAD := ucast (DEVTYPE regAddr),
        md_ST := ucast ENUM_MAC_MDIOACC_N__MDIO_ST_CLAUSE45, md_PRTAD := ucast hwAddr,
        md_OP := ucast ENUM_MAC_MDIOACC_N__MDIO_OP_MD_ADDR, md_DATA := ucast (REGADDR regAddr),
        md_TRDONE := False\<rparr>"

text \<open>
  The status and what \<open>*regData\<close> holds afterwards (\<open>old\<close> before): it is assigned after the last
  register access, whatever the status of that.
\<close>

definition MAC_PhyRead_into ::
  "'e adi_hal \<Rightarrow> u8 \<Rightarrow> u32 \<Rightarrow> u16 \<Rightarrow> ('e, adi_eth_Result_e \<times> u16) mac_io" where
  "MAC_PhyRead_into h hwAddr regAddr old =
     mbind (mget (\<lambda>w. mdio_address (s_regCell (fst w)) hwAddr regAddr)) (\<lambda>mdioCmd.
     mcatch (MAC_WriteRegister h ADDR_MAC_MDIOACC_0 (md_VALUE32 mdioCmd)) (\<lambda>err. mret (err, old)) (\<lambda>_.
     let mdioCmd = mdioCmd\<lparr>md_OP := ucast ENUM_MAC_MDIOACC_N__MDIO_OP_MD_RD, md_DATA := 0,
                           md_TRDONE := False\<rparr> in
     mcatch (MAC_WriteRegister h ADDR_MAC_MDIOACC_1 (md_VALUE32 mdioCmd)) (\<lambda>err. mret (err, old)) (\<lambda>_.
     mcatch (waitMdioReady h ADDR_MAC_MDIOACC_1) (\<lambda>err. mret (err, old)) (\<lambda>_.
     mcatch (MAC_ReadRegister_into h ADDR_MAC_MDIOACC_1 (md_VALUE32 mdioCmd))
       (\<lambda>err. mget (\<lambda>w. (err, md_DATA (md_of_VALUE32 (s_regCell (fst w))))))
       (\<lambda>v. mret (ADI_ETH_SUCCESS, md_DATA (md_of_VALUE32 v)))))))"

definition MAC_PhyRead :: "'e adi_hal \<Rightarrow> u8 \<Rightarrow> u32 \<Rightarrow> ('e, u16) mac_io" where
  "MAC_PhyRead h hwAddr regAddr =
     mbind (MAC_PhyRead_into h hwAddr regAddr 0) (\<lambda>(result, data).
     if result = ADI_ETH_SUCCESS then mret data else mfail result)"

definition MAC_PhyWrite :: "'e adi_hal \<Rightarrow> u8 \<Rightarrow> u32 \<Rightarrow> u16 \<Rightarrow> ('e, unit) mac_io" where
  "MAC_PhyWrite h hwAddr regAddr data =
     mbind (mget (\<lambda>w. mdio_address (s_regCell (fst w)) hwAddr regAddr)) (\<lambda>mdioCmd.
     mbind (MAC_WriteRegister h ADDR_MAC_MDIOACC_0 (md_VALUE32 mdioCmd)) (\<lambda>_.
     let mdioCmd = mdioCmd\<lparr>md_OP := ucast ENUM_MAC_MDIOACC_N__MDIO_OP_MD_WR, md_DATA := data,
                           md_TRDONE := False\<rparr> in
     mbind (MAC_WriteRegister h ADDR_MAC_MDIOACC_1 (md_VALUE32 mdioCmd)) (\<lambda>_.
     waitMdioReady h ADDR_MAC_MDIOACC_1)))"

section \<open>Waiting for the device\<close>

text \<open>
  The two loops of \<open>waitDeviceReady\<close>, with the number of attempts left; \<open>retryCount\<close> goes on
  counting in the second, up to a limit of its own.  The first returns whether the \<open>PHYID\<close> was read and how many
  attempts are left.
\<close>

fun poll_phyid :: "'e adi_hal \<Rightarrow> nat \<Rightarrow> mac_state \<times> 'e \<Rightarrow> ((bool \<times> nat) \<times> mac_state \<times> 'e) option" where
  "poll_phyid h 0 w = Some ((False, 0), w)"
| "poll_phyid h (Suc n) w = do {
     (r, w) \<leftarrow> MAC_ReadRegister h ADDR_MAC_PHYID w;
     if r = Inr RSTVAL_MAC_PHYID then Some ((True, n), w) else poll_phyid h n w
   }"

text \<open>Whether the loop saw \<open>RESETC\<close>, and the status \<open>result\<close> it left.\<close>

fun poll_resetc :: "'e adi_hal \<Rightarrow> nat \<Rightarrow> mac_state \<times> 'e \<Rightarrow>
    ((bool \<times> (adi_eth_Result_e + unit)) \<times> mac_state \<times> 'e) option" where
  "poll_resetc h 0 w = Some ((False, Inr ()), w)"
| "poll_resetc h (Suc n) w = do {
     (r, w) \<leftarrow> MAC_ReadRegister h ADDR_MAC_STATUS0 w;
     case r of Inl _ \<Rightarrow> poll_resetc h n w
     | Inr status0 \<Rightarrow>
        if status0 AND BITM_MAC_STATUS0_RESETC = BITM_MAC_STATUS0_RESETC
        then do {
          (r, w) \<leftarrow> MAC_WriteRegister h ADDR_MAC_STATUS0 BITM_MAC_STATUS0_RESETC w;
          Some ((True, r), w)
        }
        else poll_resetc h n w
   }"

lemma attempts_left [simp]: "n + ADI_MAC_IF_UP_MAX_RETRIES - ADI_MAC_INIT_MAX_RETRIES = n"
  by (simp add: ADI_MAC_INIT_MAX_RETRIES_def ADI_MAC_IF_UP_MAX_RETRIES_def)

definition waitDeviceReady :: "'e adi_hal \<Rightarrow> ('e, unit) mac_io" where
  "waitDeviceReady h w = do {
     ((commOk, left), w) \<leftarrow> poll_phyid h ADI_MAC_INIT_MAX_RETRIES w;
     if \<not> commOk then Some (Inl ADI_ETH_COMM_TIMEOUT, w)
     else do {
       ((resetDone, r), w) \<leftarrow>
         poll_resetc h (left + ADI_MAC_IF_UP_MAX_RETRIES - ADI_MAC_INIT_MAX_RETRIES) w;
       Some (if resetDone then r else Inl ADI_ETH_SW_RESET_TIMEOUT, w)
     }
   }"

end
