(* ===== verification/Mac_Api.thy ===== *)
theory Mac_Api
  imports Mac_Regs
begin

text \<open>
  The application interface of the MAC driver (\<open>adi_mac.c\<close>, the entries of
  \<open>macDriverEntry\<close>): initialisation and reset, callbacks, buffers, address filters, counters,
  configuration registers and timestamps.  A null handle is not modelled.
\<close>

section \<open>Initialisation\<close>

datatype adi_eth_ResetType_e = ADI_ETH_RESET_TYPE_MAC_ONLY | ADI_ETH_RESET_TYPE_MAC_PHY

definition RST_MAC_ONLY_KEY1 :: u32 where "RST_MAC_ONLY_KEY1 = 0x4F1C"
definition RST_MAC_ONLY_KEY2 :: u32 where "RST_MAC_ONLY_KEY2 = 0xC1F4"

text \<open>A call whose status is overwritten or not looked at.\<close>

definition mignore :: "('w, 'a) io \<Rightarrow> ('w, 'b) io \<Rightarrow> ('w, 'b) io" where
  "mignore m k = mcatch m (\<lambda>_. k) (\<lambda>_. k)"

definition mupd_s :: "(mac_state \<Rightarrow> mac_state) \<Rightarrow> ('e, unit) mac_io" where
  "mupd_s f = mupd (\<lambda>(s, e). (f s, e))"

definition mget_s :: "(mac_state \<Rightarrow> 'a) \<Rightarrow> ('e, 'a) mac_io" where
  "mget_s f = mget (\<lambda>(s, e). f s)"

definition irqMask0_init :: u32 where
  "irqMask0_init = 0xFFFFFFFF AND NOT (BITM_MAC_IMASK0_TXPEM OR BITM_MAC_IMASK0_TXBOEM OR
     BITM_MAC_IMASK0_TXBUEM OR BITM_MAC_IMASK0_RXBOEM OR BITM_MAC_IMASK0_LOFEM OR
     BITM_MAC_IMASK0_HDREM OR BITM_MAC_IMASK0_RESETCM OR BITM_MAC_IMASK0_TXFCSEM OR
     BITM_MAC_IMASK0_CDPEM)"

definition irqMask1_init :: u32 where
  "irqMask1_init = 0xFFFFFFFF AND NOT (BITM_MAC_IMASK1_P1_RX_IFG_ERR_MASK OR
     BITM_MAC_IMASK1_SPI_ERR_MASK OR BITM_MAC_IMASK1_RX_ECC_ERR_MASK OR
     BITM_MAC_IMASK1_TX_ECC_ERR_MASK OR BITM_MAC_IMASK1_P2_TXFCSEM)"

text \<open>
  The status of the first write is overwritten by the second; registering the interrupt
  callback and \<open>HAL_FcsInit\<close> always succeed.
\<close>

definition macInit :: "'e adi_hal \<Rightarrow> ('e, unit) mac_io" where
  "macInit h =
     mbind (mupd_s (\<lambda>s. s\<lparr>m_irqMask0 := irqMask0_init\<rparr>)) (\<lambda>_.
     mignore (MAC_WriteRegister h ADDR_MAC_IMASK0 irqMask0_init) (
     mbind (mupd_s (\<lambda>s. s\<lparr>m_irqMask1 := irqMask1_init\<rparr>)) (\<lambda>_.
     mbind (MAC_WriteRegister h ADDR_MAC_IMASK1 irqMask1_init) (\<lambda>_.
     mbind (MAC_ReadRegister h ADDR_MAC_STATUS0) (\<lambda>_.
     mbind (MAC_ReadRegister h ADDR_MAC_STATUS1) (\<lambda>_.
     mbind (mget_s m_fcsCheckEn) (\<lambda>fcsCheckEn.
     mbind (MAC_ReadRegister h ADDR_MAC_CONFIG0) (\<lambda>val32.
     let val32 = (if fcsCheckEn then val32 OR BITM_MAC_CONFIG0_TXFCSVE
                  else val32 AND NOT BITM_MAC_CONFIG0_TXFCSVE) in
     mbind (MAC_WriteRegister h ADDR_MAC_CONFIG0 val32) (\<lambda>_.
     mbind (MAC_ReadRegister h ADDR_MAC_CONFIG2) (\<lambda>val32.
     let val32 = (if fcsCheckEn then val32 AND NOT BITM_MAC_CONFIG2_CRC_APPEND
                  else val32 OR BITM_MAC_CONFIG2_CRC_APPEND) in
     MAC_WriteRegister h ADDR_MAC_CONFIG2 val32))))))))))"

definition reset_request :: "'e adi_hal \<Rightarrow> adi_eth_ResetType_e \<Rightarrow> ('e, unit) mac_io" where
  "reset_request h resetType = (case resetType of
       ADI_ETH_RESET_TYPE_MAC_ONLY \<Rightarrow>
         mbind (MAC_WriteRegister h ADDR_MAC_SOFT_RST RST_MAC_ONLY_KEY1) (\<lambda>_.
         MAC_WriteRegister h ADDR_MAC_SOFT_RST RST_MAC_ONLY_KEY2)
     | ADI_ETH_RESET_TYPE_MAC_PHY \<Rightarrow> MAC_WriteRegister h ADDR_MAC_RESET (push_bit BITP_MAC_RESET_SWRESET 1))"

text \<open>\<open>do ... while ((result != ADI_ETH_SUCCESS) && (retryCount++ < MAX))\<close>\<close>

fun reset_attempts :: "'e adi_hal \<Rightarrow> adi_eth_ResetType_e \<Rightarrow> nat \<Rightarrow> ('e, unit) mac_io" where
  "reset_attempts h resetType retries =
     mcatch (reset_request h resetType)
       (\<lambda>_. case retries of 0 \<Rightarrow> mfail ADI_ETH_SW_RESET_TIMEOUT
            | Suc n \<Rightarrow> reset_attempts h resetType n)
       (\<lambda>_. mret ())"

text \<open>The status of \<open>macInit\<close> is not looked at.\<close>

definition MAC_Reset :: "'e adi_hal \<Rightarrow> adi_eth_ResetType_e \<Rightarrow> ('e, unit) mac_io" where
  "MAC_Reset h resetType =
     mbind (mget_s m_state) (\<lambda>state.
     if state = ADI_MAC_STATE_UNINITIALIZED then mfail ADI_ETH_DEVICE_UNINITIALIZED
     else
     mbind (mupd_s (\<lambda>s. s\<lparr>s_irqEnabled := False\<rparr>)) (\<lambda>_.
     mbind (reset_attempts h resetType ADI_MAC_IF_UP_MAX_RETRIES) (\<lambda>_.
     mbind (waitDeviceReady h) (\<lambda>_.
     mbind (mupd_s (\<lambda>s. s\<lparr>m_configSync := False\<rparr>)) (\<lambda>_.
     mignore (macInit h) (mret ()))))))"

definition MAC_Init :: "'e adi_hal \<Rightarrow> nat \<Rightarrow> nat \<Rightarrow> bool \<Rightarrow> ('e, unit) mac_io" where
  \<comment> \<open>\<open>sizeofDevice\<close> is \<open>sizeof(adi_mac_Device_t)\<close>\<close>
  "MAC_Init h sizeofDevice devMemSize fcsCheckEn =
     (if devMemSize < sizeofDevice then mfail ADI_ETH_INVALID_PARAM
      else
      mbind (mupd_s (\<lambda>s. macDeviceInit fcsCheckEn (s\<lparr>s_irqEnabled := False\<rparr>))) (\<lambda>_.
      mbind (MAC_Reset h ADI_ETH_RESET_TYPE_MAC_PHY) (\<lambda>_.
      mupd_s (\<lambda>s. s\<lparr>m_state := ADI_MAC_STATE_READY\<rparr>))))"

definition MAC_UnInit :: "('e, unit) mac_io" where
  "MAC_UnInit = mupd_s (\<lambda>s. s\<lparr>s_irqEnabled := False, m_state := ADI_MAC_STATE_UNINITIALIZED\<rparr>)"

definition macCallback :: "'e adi_hal \<Rightarrow> mac_state \<times> 'e \<Rightarrow> (mac_state \<times> 'e) option" where
  "macCallback h w = oaIrqHandler h w"

definition MAC_SyncConfig :: "'e adi_hal \<Rightarrow> ('e, unit) mac_io" where
  "MAC_SyncConfig h =
     mbind (MAC_ReadRegister h ADDR_MAC_CONFIG0) (\<lambda>val32.
     mbind (MAC_WriteRegister h ADDR_MAC_CONFIG0 (val32 OR BITM_MAC_CONFIG0_SYNC)) (\<lambda>_.
     mupd_s (\<lambda>s. s\<lparr>s_irqEnabled := True, m_configSync := True\<rparr>)))"

section \<open>Callbacks\<close>

definition TTSCA_MASK1 :: u32 where
  "TTSCA_MASK1 = BITM_MAC_IMASK1_P2_TTSCAAM OR BITM_MAC_IMASK1_P2_TTSCABM OR BITM_MAC_IMASK1_P2_TTSCACM"

definition TTSCA_MASK0 :: u32 where
  "TTSCA_MASK0 = BITM_MAC_IMASK0_TTSCAAM OR BITM_MAC_IMASK0_TTSCABM OR BITM_MAC_IMASK0_TTSCACM"

definition write_irq_masks :: "'e adi_hal \<Rightarrow> ('e, unit) mac_io" where
  "write_irq_masks h =
     mbind (mget_s m_irqMask0) (\<lambda>irqMask0.
     mbind (MAC_WriteRegister h ADDR_MAC_IMASK0 irqMask0) (\<lambda>_.
     mbind (mget_s m_irqMask1) (\<lambda>irqMask1.
     MAC_WriteRegister h ADDR_MAC_IMASK1 irqMask1)))"

definition MAC_RegisterCallback ::
  "'e adi_hal \<Rightarrow> nat option \<Rightarrow> adi_mac_InterruptEvt_e \<Rightarrow> nat \<Rightarrow> ('e, unit) mac_io" where
  "MAC_RegisterCallback h cbFunc cbEvent cbParam =
     mbind (mupd_s (\<lambda>s. s\<lparr>m_cbFunc := (m_cbFunc s)(cbEvent := cbFunc),
                          m_cbParam := (m_cbParam s)(cbEvent := cbParam)\<rparr>)) (\<lambda>_.
     if cbEvent = ADI_MAC_EVT_TIMESTAMP_RDY
     then mbind (mget_s (\<lambda>s. (m_timestampFormat s, m_irqMask0 s, m_irqMask1 s))) (\<lambda>(fmt, m0, m1).
          if fmt = ADI_MAC_TS_FORMAT_NONE then mfail ADI_ETH_NO_TS_FORMAT
          else
          mbind (mwhen (m1 AND TTSCA_MASK1 \<noteq> 0)
            (mupd_s (\<lambda>s. s\<lparr>m_irqMask1 := m1 AND NOT TTSCA_MASK1\<rparr>))) (\<lambda>_.
          mbind (mwhen (m0 AND TTSCA_MASK0 \<noteq> 0)
            (mupd_s (\<lambda>s. s\<lparr>m_irqMask0 := m0 AND NOT TTSCA_MASK0\<rparr>))) (\<lambda>_.
          mwhen (m1 AND TTSCA_MASK1 \<noteq> 0 \<or> m0 AND TTSCA_MASK0 \<noteq> 0) (write_irq_masks h))))
     else mret ())"

section \<open>Buffers\<close>

text \<open>A status as the outcome of a routine without out-parameters; an undefined step.\<close>

definition of_status :: "adi_eth_Result_e \<Rightarrow> adi_eth_Result_e + unit" where
  "of_status r = (if r = ADI_ETH_SUCCESS then Inr () else Inl r)"

definition mopt :: "'a option \<Rightarrow> ('w, 'a) io" where
  "mopt x = (\<lambda>w. case x of None \<Rightarrow> None | Some y \<Rightarrow> Some (Inr y, w))"

definition MAC_ProcessTxQueue :: "'e adi_hal \<Rightarrow> ('e, unit) mac_io" where
  "MAC_ProcessTxQueue h = (\<lambda>(s, e).
     let backup = s_irqEnabled s;
         s = s\<lparr>s_irqEnabled := False\<rparr>
     in if \<not> queueIsEmpty (m_txQueue s)
     then do {
       (result, s, e) \<leftarrow> (if m_state s = ADI_MAC_STATE_READY then MAC_SendFrame h (s, e)
                          else Some (ADI_ETH_SUCCESS, s, e));
       let s = (if result \<noteq> ADI_ETH_SUCCESS then s\<lparr>s_irqEnabled := True\<rparr> else s);
       Some (of_status result, s, e)
     }
     else Some (Inr (), if backup then s\<lparr>s_irqEnabled := True\<rparr> else s, e))"

text \<open>
  The checks of \<open>MAC_SubmitTxBuffer\<close> in their order.  The sizes are \<open>uint32_t\<close> and the
  difference is taken only when it does not wrap.
\<close>

definition submit_tx_check :: "nat option \<Rightarrow> mac_state \<Rightarrow> adi_eth_Result_e + nat" where
  "submit_tx_check pBufDesc s =
     (if m_state s = ADI_MAC_STATE_UNINITIALIZED then Inl ADI_ETH_DEVICE_UNINITIALIZED
      else case pBufDesc of None \<Rightarrow> Inl ADI_ETH_INVALID_PARAM
      | Some d \<Rightarrow> let b = s_bufs s d in
         if bd_trxSize b < MIN_FRAME_SIZE \<or> bd_trxSize b > MAX_FRAME_SIZE
         then Inl ADI_ETH_PARAM_OUT_OF_RANGE
         else if m_fcsCheckEn s \<and>
           (bd_bufSize b < bd_trxSize b \<or> bd_bufSize b - bd_trxSize b < FCS_SIZE)
         then Inl ADI_ETH_PARAM_OUT_OF_RANGE
         else if queueIsFull (m_txQueue s) then Inl ADI_ETH_QUEUE_FULL
         else Inr d)"

text \<open>The frame check sequence behind the frame, when the host computes it.\<close>

definition append_fcs :: "nat \<Rightarrow> mac_state \<Rightarrow> mac_state option" where
  "append_fcs d s = (if m_fcsCheckEn s then do {
       let n = bd_trxSize (s_bufs s d);
       frame \<leftarrow> mem_read (bd_pBuf (s_bufs s d)) 0 n;
       buf \<leftarrow> mem_write (bd_pBuf (s_bufs s d)) n (le_bytes32 (HAL_FcsCalculate frame));
       Some (upd_desc d (\<lambda>b. b\<lparr>bd_pBuf := buf, bd_trxSize := n + FCS_SIZE\<rparr>) s)
     } else Some s)"

definition enqueue_tx :: "u16 \<Rightarrow> nat \<Rightarrow> mac_state \<Rightarrow> mac_state option" where
  "enqueue_tx header d s = do {
     s \<leftarrow> append_fcs d s;
     Some (s\<lparr>m_txQueue := queuePut (m_txQueue s) \<lparr>fs_header = header, fs_pBufDesc = Some d\<rparr>\<rparr>)
   }"

text \<open>
  The label \<open>end\<close> of the routine is reached from the checks too, so a rejected submission
  still starts the transmission of what is queued; its status is dropped.
\<close>

definition MAC_SubmitTxBuffer :: "'e adi_hal \<Rightarrow> u16 \<Rightarrow> nat option \<Rightarrow> ('e, unit) mac_io" where
  "MAC_SubmitTxBuffer h header pBufDesc = (\<lambda>(s, e). do {
     (result, s) \<leftarrow> (case submit_tx_check pBufDesc s of
         Inl err \<Rightarrow> Some (Inl err, s)
       | Inr d \<Rightarrow> do { s \<leftarrow> enqueue_tx header d s; Some (Inr (), s) });
     if \<not> queueIsEmpty (m_txQueue s) \<and> m_state s = ADI_MAC_STATE_READY
     then do { (_, w) \<leftarrow> MAC_ProcessTxQueue h (s, e); Some (result, w) }
     else Some (result, s, e)
   })"

text \<open>The descriptor is dereferenced without a check: a null pointer is undefined behaviour.\<close>

definition MAC_SubmitRxBuffer :: "'e adi_hal \<Rightarrow> nat option \<Rightarrow> ('e, unit) mac_io" where
  "MAC_SubmitRxBuffer h pBufDesc = (\<lambda>(s, e).
     if m_state s = ADI_MAC_STATE_UNINITIALIZED then Some (Inl ADI_ETH_DEVICE_UNINITIALIZED, s, e)
     else do {
       d \<leftarrow> pBufDesc;
       if bd_bufSize (s_bufs s d) < MIN_FRAME_SIZE + FCS_SIZE
       then Some (Inl ADI_ETH_PARAM_OUT_OF_RANGE, s, e)
       else if queueIsFull (m_rxQueueLp s) then Some (Inl ADI_ETH_QUEUE_FULL, s, e)
       else let s = s\<lparr>m_rxQueueLp := queuePut (m_rxQueueLp s) \<lparr>fs_header = 0, fs_pBufDesc = Some d\<rparr>\<rparr>
         in if m_state s = ADI_MAC_STATE_READY
         then do {
           (result, s, e) \<leftarrow> oaStateMachine h (s\<lparr>m_state := ADI_MAC_STATE_DATA_START\<rparr>, e);
           Some (of_status result, s, e)
         }
         else Some (Inr (), s, e)
     })"

end
