(* ===== verification/Mac_Config.thy ===== *)
theory Mac_Config
  imports Mac_Api
begin

text \<open>
  Configuration entries of the MAC driver (\<open>adi_mac.c\<close>): statistics counters, the address
  filter table, the chunk size and the cut-through, FIFO and forwarding configuration.
  Each is a sequence of register accesses; what an out-parameter holds after a failure is
  not modelled.
\<close>

section \<open>Statistics counters\<close>

record adi_eth_MacStatCounters_t =
  RX_FRM_CNT :: u32
  RX_BCAST_CNT :: u32
  RX_MCAST_CNT :: u32
  RX_UCAST_CNT :: u32
  RX_CRC_ERR_CNT :: u32
  RX_ALGN_ERR_CNT :: u32
  RX_LS_ERR_CNT :: u32
  RX_PHY_ERR_CNT :: u32
  TX_FRM_CNT :: u32
  TX_BCAST_CNT :: u32
  TX_MCAST_CNT :: u32
  TX_UCAST_CNT :: u32
  RX_DROP_FULL_CNT :: u32
  RX_DROP_FILT_CNT :: u32

definition stat_base :: "u32 \<Rightarrow> u32" where
  "stat_base port = (if port \<noteq> 0 then U16 (ADDR_MAC_P2_RX_FRM_CNT - ADDR_MAC_P1_RX_FRM_CNT) else 0)"

definition MAC_GetStatCounters :: "'e adi_hal \<Rightarrow> u32 \<Rightarrow> ('e, adi_eth_MacStatCounters_t) mac_io" where
  "MAC_GetStatCounters h port =
     mbind (mget_s m_state) (\<lambda>state.
     if state = ADI_MAC_STATE_UNINITIALIZED then mfail ADI_ETH_DEVICE_UNINITIALIZED
     else let baseAddr = stat_base port in
     mbind (MAC_ReadRegister h (baseAddr + ADDR_MAC_P1_RX_FRM_CNT)) (\<lambda>rx_frm.
     mbind (MAC_ReadRegister h (baseAddr + ADDR_MAC_P1_RX_BCAST_CNT)) (\<lambda>rx_bcast.
     mbind (MAC_ReadRegister h (baseAddr + ADDR_MAC_P1_RX_MCAST_CNT)) (\<lambda>rx_mcast.
     mbind (MAC_ReadRegister h (baseAddr + ADDR_MAC_P1_RX_UCAST_CNT)) (\<lambda>rx_ucast.
     mbind (MAC_ReadRegister h (baseAddr + ADDR_MAC_P1_RX_CRC_ERR_CNT)) (\<lambda>rx_crc_err.
     mbind (MAC_ReadRegister h (baseAddr + ADDR_MAC_P1_RX_ALGN_ERR_CNT)) (\<lambda>rx_algn_err.
     mbind (MAC_ReadRegister h (baseAddr + ADDR_MAC_P1_RX_LS_ERR_CNT)) (\<lambda>rx_ls_err.
     mbind (MAC_ReadRegister h (baseAddr + ADDR_MAC_P1_RX_PHY_ERR_CNT)) (\<lambda>rx_phy_err.
     mbind (MAC_ReadRegister h (baseAddr + ADDR_MAC_P1_TX_FRM_CNT)) (\<lambda>tx_frm.
     mbind (MAC_ReadRegister h (baseAddr + ADDR_MAC_P1_TX_BCAST_CNT)) (\<lambda>tx_bcast.
     mbind (MAC_ReadRegister h (baseAddr + ADDR_MAC_P1_TX_MCAST_CNT)) (\<lambda>tx_mcast.
     mbind (MAC_ReadRegister h (baseAddr + ADDR_MAC_P1_TX_UCAST_CNT)) (\<lambda>tx_ucast.
     mbind (MAC_ReadRegister h (baseAddr + ADDR_MAC_P1_RX_DROP_FULL_CNT)) (\<lambda>rx_drop_full.
     mbind (MAC_ReadRegister h (baseAddr + ADDR_MAC_P1_RX_DROP_FILT_CNT)) (\<lambda>rx_drop_filt.
     mret \<lparr>RX_FRM_CNT = rx_frm, RX_BCAST_CNT = rx_bcast, RX_MCAST_CNT = rx_mcast,
       RX_UCAST_CNT = rx_ucast, RX_CRC_ERR_CNT = rx_crc_err, RX_ALGN_ERR_CNT = rx_algn_err,
       RX_LS_ERR_CNT = rx_ls_err, RX_PHY_ERR_CNT = rx_phy_err, TX_FRM_CNT = tx_frm,
       TX_BCAST_CNT = tx_bcast, TX_MCAST_CNT = tx_mcast, TX_UCAST_CNT = tx_ucast,
       RX_DROP_FULL_CNT = rx_drop_full, RX_DROP_FILT_CNT = rx_drop_filt\<rparr>)))))))))))))))"

section \<open>Address filters\<close>

definition ADI_MAC_ADDR_NUM_ENTRIES :: nat where "ADI_MAC_ADDR_NUM_ENTRIES = 16"
definition ADI_MAC_ADDR_MASK_MAX :: nat where "ADI_MAC_ADDR_MASK_MAX = 2"

text \<open>
  \<open>for (i = 0; i < maxAddrIndex; i++) if (!(addrFilterActive & (1 << i))) ...\<close>: the first
  free entry; \<open>addrIndex\<close> keeps its initial value when there is none.
\<close>

fun first_free :: "u16 \<Rightarrow> nat \<Rightarrow> nat list \<Rightarrow> nat" where
  "first_free active addrIndex [] = addrIndex"
| "first_free active addrIndex (i # is) =
     (if \<not> bit active i then i else first_free active addrIndex is)"

text \<open>
  The words of an address and of a mask; an array of fewer than six bytes is undefined
  behaviour.  The shifts are done in \<open>int\<close>, which wraps here as on the target.
\<close>

definition mac_upr :: "u8 list \<Rightarrow> u32" where
  "mac_upr a = push_bit 8 (ucast (a ! 0)) OR ucast (a ! 1)"

definition mac_lwr :: "u8 list \<Rightarrow> u32" where
  "mac_lwr a = push_bit 24 (ucast (a ! 2)) OR push_bit 16 (ucast (a ! 3))
     OR push_bit 8 (ucast (a ! 4)) OR ucast (a ! 5)"

definition filter_offset :: "nat \<Rightarrow> u32" where
  "filter_offset addrIndex =
     U16 (of_nat addrIndex * (ADDR_MAC_ADDR_FILT_UPR_1 - ADDR_MAC_ADDR_FILT_UPR_0))"

definition set_active :: "nat \<Rightarrow> bool \<Rightarrow> mac_state \<Rightarrow> mac_state" where
  "set_active addrIndex b s = s\<lparr>m_addrFilterActive :=
     (if b then m_addrFilterActive s OR ucast (push_bit addrIndex (1 :: u32))
      else m_addrFilterActive s AND NOT (ucast (push_bit addrIndex (1 :: u32))))\<rparr>"

definition filter_index :: "bool \<Rightarrow> u16 \<Rightarrow> nat \<times> nat" where
  "filter_index masked active =
     (let maxAddrIndex = (if masked then ADI_MAC_ADDR_MASK_MAX else ADI_MAC_ADDR_NUM_ENTRIES)
      in (first_free active ADI_MAC_ADDR_NUM_ENTRIES [0..<maxAddrIndex], maxAddrIndex))"

definition MAC_AddAddressFilter ::
  "'e adi_hal \<Rightarrow> u8 list \<Rightarrow> u8 list option \<Rightarrow> u16 \<Rightarrow> ('e, unit) mac_io" where
  "MAC_AddAddressFilter h macAddr macAddrMask addrRule =
     mbind (mget_s (\<lambda>s. (m_state s, m_addrFilterActive s))) (\<lambda>(state, active).
     if state = ADI_MAC_STATE_UNINITIALIZED then mfail ADI_ETH_DEVICE_UNINITIALIZED
     else let (addrIndex, maxAddrIndex) = filter_index (macAddrMask \<noteq> None) active in
     if addrIndex = maxAddrIndex then mfail ADI_ETH_ADDRESS_FILTER_TABLE_FULL
     else let addrOffset = filter_offset addrIndex in
     mbind (mopt (mem_read macAddr 0 6)) (\<lambda>a.
     mbind (MAC_WriteRegister h (addrOffset + ADDR_MAC_ADDR_FILT_UPR_0)
       (push_bit 16 (ucast addrRule) OR mac_upr a)) (\<lambda>_.
     mbind (MAC_WriteRegister h (addrOffset + ADDR_MAC_ADDR_FILT_LWR_0) (mac_lwr a)) (\<lambda>_.
     mbind (case macAddrMask of None \<Rightarrow> mret (0xFFFF, 0xFFFFFFFF)
       | Some m \<Rightarrow> mbind (mopt (mem_read m 0 6)) (\<lambda>m. mret (mac_upr m, mac_lwr m))) (\<lambda>(upr, lwr).
     mbind (MAC_WriteRegister h (addrOffset + ADDR_MAC_ADDR_MSK_UPR_0) upr) (\<lambda>_.
     mbind (MAC_WriteRegister h (addrOffset + ADDR_MAC_ADDR_MSK_LWR_0) lwr) (\<lambda>_.
     mupd_s (set_active addrIndex True))))))))"

definition MAC_ClearAddressFilter :: "'e adi_hal \<Rightarrow> u32 \<Rightarrow> ('e, unit) mac_io" where
  "MAC_ClearAddressFilter h addrIndex =
     mbind (mget_s m_state) (\<lambda>state.
     if state = ADI_MAC_STATE_UNINITIALIZED then mfail ADI_ETH_DEVICE_UNINITIALIZED
     else if ADI_MAC_ADDR_NUM_ENTRIES \<le> unat addrIndex then mfail ADI_ETH_PARAM_OUT_OF_RANGE
     else
     mbind (MAC_WriteRegister h (filter_offset (unat addrIndex) + ADDR_MAC_ADDR_FILT_UPR_0) 0) (\<lambda>_.
     mupd_s (set_active (unat addrIndex) False)))"

text \<open>The link status of the ADIN2111 is read from the PHY registers.\<close>

definition MAC_GetLinkStatus :: "'e adi_hal \<Rightarrow> u32 \<Rightarrow> ('e, unit) mac_io" where
  "MAC_GetLinkStatus h port = mfail ADI_ETH_NOT_IMPLEMENTED"

section \<open>Configuration before the device is synchronised\<close>

datatype adi_mac_OaCps_e =
  ADI_MAC_OA_CPS_8BYTE | ADI_MAC_OA_CPS_16BYTE | ADI_MAC_OA_CPS_32BYTE | ADI_MAC_OA_CPS_64BYTE

definition cps_value :: "adi_mac_OaCps_e \<Rightarrow> nat" where
  "cps_value cps = (case cps of ADI_MAC_OA_CPS_8BYTE \<Rightarrow> 3 | ADI_MAC_OA_CPS_16BYTE \<Rightarrow> 4
     | ADI_MAC_OA_CPS_32BYTE \<Rightarrow> 5 | ADI_MAC_OA_CPS_64BYTE \<Rightarrow> 6)"

definition unless_synced :: "('e, 'a) mac_io \<Rightarrow> ('e, 'a) mac_io" where
  "unless_synced m = mbind (mget_s m_configSync) (\<lambda>configSync.
     if configSync then mfail ADI_ETH_CONFIG_SYNC_ERROR else m)"

definition MAC_SetChunkSize :: "'e adi_hal \<Rightarrow> adi_mac_OaCps_e \<Rightarrow> ('e, unit) mac_io" where
  "MAC_SetChunkSize h cps = unless_synced (
     mbind (MAC_ReadRegister h ADDR_MAC_CONFIG0) (\<lambda>val.
     mbind (MAC_WriteRegister h ADDR_MAC_CONFIG0
       ((val AND NOT BITM_MAC_CONFIG0_CPS) OR (of_nat (cps_value cps) AND BITM_MAC_CONFIG0_CPS))) (\<lambda>_.
     mupd_s (\<lambda>s. s\<lparr>m_oaMaxChunkCount := (if cps = ADI_MAC_OA_CPS_64BYTE
         then ADI_OA_MAX_CHUNK64_COUNT else ADI_OA_MAX_CHUNK_COUNT),
       m_oaCps := cps_value cps\<rparr>))))"

text \<open>The value is returned with the status; an enumeration holds any integer in C.\<close>

definition MAC_GetChunkSize :: "'e adi_hal \<Rightarrow> ('e, u32) mac_io" where
  "MAC_GetChunkSize h =
     mbind (MAC_ReadRegister h ADDR_MAC_CONFIG0) (\<lambda>val.
     let val = val AND BITM_MAC_CONFIG0_CPS in
     mbind (mget_s m_oaCps) (\<lambda>oaCps.
     if unat val \<noteq> oaCps then mfail ADI_ETH_VALUE_MISMATCH_ERROR else mret val))"

definition bool_bit :: "nat \<Rightarrow> bool \<Rightarrow> u32" where
  "bool_bit n b = push_bit n (of_bool b)"

definition MAC_SetCutThroughMode :: "'e adi_hal \<Rightarrow> bool \<Rightarrow> bool \<Rightarrow> ('e, unit) mac_io" where
  "MAC_SetCutThroughMode h txcte rxcte =
     (let setMask = bool_bit BITP_MAC_CONFIG0_RXCTE rxcte OR bool_bit BITP_MAC_CONFIG0_TXCTE txcte;
          clearMask = BITM_MAC_CONFIG0_RXCTE OR BITM_MAC_CONFIG0_TXCTE
      in unless_synced (
     mbind (MAC_ReadRegister h ADDR_MAC_CONFIG0) (\<lambda>val.
     MAC_WriteRegister h ADDR_MAC_CONFIG0 ((val AND NOT clearMask) OR setMask))))"

text \<open>Returns \<open>*pTxcte\<close> and \<open>*pRxcte\<close>.\<close>

definition MAC_GetCutThroughMode :: "'e adi_hal \<Rightarrow> ('e, bool \<times> bool) mac_io" where
  "MAC_GetCutThroughMode h =
     mbind (MAC_ReadRegister h ADDR_MAC_CONFIG0) (\<lambda>val.
     mret (val AND BITM_MAC_CONFIG0_TXCTE \<noteq> 0, val AND BITM_MAC_CONFIG0_RXCTE \<noteq> 0))"

definition MAC_SetFifoSizes :: "'e adi_hal \<Rightarrow> u32 \<Rightarrow> ('e, unit) mac_io" where
  "MAC_SetFifoSizes h writeVal = unless_synced (MAC_WriteRegister h ADDR_MAC_FIFO_SIZE writeVal)"

definition MAC_GetFifoSizes :: "'e adi_hal \<Rightarrow> ('e, u32) mac_io" where
  "MAC_GetFifoSizes h = MAC_ReadRegister h ADDR_MAC_FIFO_SIZE"

datatype adi_mac_FifoClrMode_e =
  ADI_MAC_CLEAR_ALL_FIFOS | ADI_MAC_CLEAR_P2P_FIFOS | ADI_MAC_CLEAR_RX_FIFO

definition clr_value :: "adi_mac_FifoClrMode_e \<Rightarrow> u32" where
  "clr_value m = (case m of ADI_MAC_CLEAR_ALL_FIFOS \<Rightarrow> 4
     | ADI_MAC_CLEAR_P2P_FIFOS \<Rightarrow> 8 | ADI_MAC_CLEAR_RX_FIFO \<Rightarrow> 1)"

definition MAC_ClearFifos :: "'e adi_hal \<Rightarrow> adi_mac_FifoClrMode_e \<Rightarrow> ('e, unit) mac_io" where
  "MAC_ClearFifos h clearMode = MAC_WriteRegister h ADDR_MAC_FIFO_CLR (clr_value clearMode)"

section \<open>Forwarding\<close>

record adi_mac_ForwardMode_t =
  P1_FWD_UNK_TO_HOST :: bool
  P2_FWD_UNK_TO_HOST :: bool
  P1_FWD_UNK_TO_P2 :: bool
  P2_FWD_UNK_TO_P1 :: bool

definition forward_bits :: "adi_mac_ForwardMode_t \<Rightarrow> u32" where
  "forward_bits mode = bool_bit BITP_MAC_CONFIG2_P1_FWD_UNK2HOST (P1_FWD_UNK_TO_HOST mode) OR
     (bool_bit BITP_MAC_CONFIG2_P2_FWD_UNK2HOST (P2_FWD_UNK_TO_HOST mode) OR bool_bit BITP_MAC_CONFIG2_P1_FWD_UNK2P2 (P1_FWD_UNK_TO_P2 mode)
       OR bool_bit BITP_MAC_CONFIG2_P2_FWD_UNK2P1 (P2_FWD_UNK_TO_P1 mode))"

definition MAC_SetForwardMode :: "'e adi_hal \<Rightarrow> adi_mac_ForwardMode_t \<Rightarrow> u32 \<Rightarrow> ('e, unit) mac_io" where
  "MAC_SetForwardMode h mode msk =
     mbind (MAC_ReadRegister h ADDR_MAC_CONFIG2) (\<lambda>val.
     MAC_WriteRegister h ADDR_MAC_CONFIG2 ((val AND NOT msk) OR (forward_bits mode AND msk)))"

definition MAC_GetForwardMode :: "'e adi_hal \<Rightarrow> ('e, adi_mac_ForwardMode_t) mac_io" where
  "MAC_GetForwardMode h =
     mbind (MAC_ReadRegister h ADDR_MAC_CONFIG2) (\<lambda>val.
     mret \<lparr>P1_FWD_UNK_TO_HOST = val AND BITM_MAC_CONFIG2_P1_FWD_UNK2HOST \<noteq> 0,
       P2_FWD_UNK_TO_HOST = val AND BITM_MAC_CONFIG2_P2_FWD_UNK2HOST \<noteq> 0,
       P1_FWD_UNK_TO_P2 = val AND BITM_MAC_CONFIG2_P1_FWD_UNK2P2 \<noteq> 0,
       P2_FWD_UNK_TO_P1 = val AND BITM_MAC_CONFIG2_P2_FWD_UNK2P1 \<noteq> 0\<rparr>)"

end
