(* ===== verification/Mac_Time.thy ===== *)
theory Mac_Time
  imports Mac_Api "HOL-Library.Signed_Division"
begin

text \<open>
  The timestamp entries of the MAC driver (\<open>adi_mac.c\<close>): the counters, the \<open>TS_TIMER\<close>
  waveform, the conversion of captured timestamps and the adjustment of the clock.  Floating
  point values are parameters.
\<close>

section \<open>Constants and structures\<close>

definition ADI_MAC_TS_QE_MASK :: u32 where "ADI_MAC_TS_QE_MASK = 0xF"
definition ADI_MAC_TS_MIN_NS :: u32 where "ADI_MAC_TS_MIN_NS = 16"
definition ADI_MAC_TS_ONE_SECOND_IN_NS :: nat where "ADI_MAC_TS_ONE_SECOND_IN_NS = 1000000000"
definition ADI_MAC_TS_1588_NS_MASK :: u32 where "ADI_MAC_TS_1588_NS_MASK = 0x3FFFFFFF"
definition ADI_MAC_TS_1588_SEC_MASK :: u32 where "ADI_MAC_TS_1588_SEC_MASK = 0xC0000000"
definition ADI_MAC_TS_1588_SEC_POS :: nat where "ADI_MAC_TS_1588_SEC_POS = 28"

text \<open>\<open>ts_scale\<close> is the product of a number of nanoseconds with the \<open>float dutyCycle\<close>,
  converted to \<open>uint32_t\<close>.\<close>

record adi_mac_TsTimerConfig_t =
  ts_periodNs :: u32
  ts_scale :: "u32 \<Rightarrow> u32"
  ts_idleState :: bool
  ts_startTimeNs :: u32

record adi_mac_TsTimespec_t =
  tv_sec :: u32
  tv_nsec :: u32

datatype adi_mac_EgressCapture_e =
    ADI_MAC_EGRESS_CAPTURE_NONE | ADI_MAC_EGRESS_CAPTURE_A
  | ADI_MAC_EGRESS_CAPTURE_B | ADI_MAC_EGRESS_CAPTURE_C

section \<open>Counters and waveform\<close>

definition ts_config0 :: "adi_mac_TsFormat_e \<Rightarrow> u32 \<Rightarrow> u32" where
  "ts_config0 format config0 =
     (let config0 = config0 OR BITM_MAC_CONFIG0_FTSE in case format of
       ADI_MAC_TS_FORMAT_NONE \<Rightarrow> config0 AND NOT BITM_MAC_CONFIG0_FTSE
     | ADI_MAC_TS_FORMAT_32B_FREE \<Rightarrow> config0 AND NOT BITM_MAC_CONFIG0_FTSS
     | ADI_MAC_TS_FORMAT_32B_1588 \<Rightarrow> config0 AND NOT BITM_MAC_CONFIG0_FTSS
     | ADI_MAC_TS_FORMAT_64B_1588 \<Rightarrow> config0 OR BITM_MAC_CONFIG0_FTSS)"

definition ts_cfg :: "adi_mac_TsFormat_e \<Rightarrow> u32 \<Rightarrow> u32" where
  "ts_cfg format tsCfg = (case format of
       ADI_MAC_TS_FORMAT_32B_FREE \<Rightarrow> tsCfg OR BITM_MAC_TS_CFG_TS_CAPT_FREE_CNT
     | _ \<Rightarrow> tsCfg AND NOT BITM_MAC_TS_CFG_TS_CAPT_FREE_CNT)"

definition MAC_TsEnable :: "'e adi_hal \<Rightarrow> adi_mac_TsFormat_e \<Rightarrow> ('e, unit) mac_io" where
  "MAC_TsEnable h format =
     mbind (mget_s m_configSync) (\<lambda>configSync.
     if configSync then mfail ADI_ETH_CONFIG_SYNC_ERROR
     else
     mbind (MAC_ReadRegister h ADDR_MAC_TS_CFG) (\<lambda>tsCfg.
     mbind (MAC_ReadRegister h ADDR_MAC_CONFIG0) (\<lambda>config0.
     mbind (MAC_WriteRegister h ADDR_MAC_CONFIG0 (ts_config0 format config0)) (\<lambda>_.
     mbind (MAC_WriteRegister h ADDR_MAC_TS_CFG (ts_cfg format tsCfg OR BITM_MAC_TS_CFG_TS_EN)) (\<lambda>_.
     mupd_s (\<lambda>s. s\<lparr>m_timestampFormat := format\<rparr>))))))"

definition MAC_TsClear :: "'e adi_hal \<Rightarrow> ('e, unit) mac_io" where
  "MAC_TsClear h =
     mbind (MAC_ReadRegister h ADDR_MAC_TS_CFG) (\<lambda>tsCfg.
     MAC_WriteRegister h ADDR_MAC_TS_CFG (tsCfg OR BITM_MAC_TS_CFG_TS_CLR))"

text \<open>The configuration is clamped in place; the clamped one is returned with the status.\<close>

definition ts_clamp :: "adi_mac_TsTimerConfig_t \<Rightarrow> adi_mac_TsTimerConfig_t" where
  "ts_clamp c =
     (let c = (if ts_startTimeNs c < ADI_MAC_TS_MIN_NS
               then c\<lparr>ts_startTimeNs := ADDR_MAC_TS_NS_CNT\<rparr> else c)
      in if ts_periodNs c < 2 * ADI_MAC_TS_MIN_NS
         then c\<lparr>ts_periodNs := 2 * ADI_MAC_TS_MIN_NS\<rparr> else c)"

definition ts_high :: "adi_mac_TsTimerConfig_t \<Rightarrow> u32" where
  "ts_high c = ts_scale c (ts_periodNs c AND NOT ADI_MAC_TS_QE_MASK)"

definition ts_low :: "adi_mac_TsTimerConfig_t \<Rightarrow> u32" where
  "ts_low c = (ts_periodNs c AND NOT ADI_MAC_TS_QE_MASK) - ts_high c"

definition ts_idle :: "bool \<Rightarrow> u32 \<Rightarrow> u32" where
  "ts_idle idleState tsCfg =
     (tsCfg AND NOT BITM_MAC_TS_CFG_TS_TIMER_DEF) OR push_bit BITP_MAC_TS_CFG_TS_TIMER_DEF (of_bool idleState)"

definition MAC_TsTimerStart :: "'e adi_hal \<Rightarrow> adi_mac_TsTimerConfig_t \<Rightarrow> ('e, adi_mac_TsTimerConfig_t) mac_io" where
  "MAC_TsTimerStart h pTimerConfig =
     (let c = ts_clamp pTimerConfig; remainder16 = ts_periodNs c AND ADI_MAC_TS_QE_MASK in
     mbind (MAC_ReadRegister h ADDR_MAC_TS_CFG) (\<lambda>tsCfg.
     if tsCfg AND BITM_MAC_TS_CFG_TS_EN = 0 then mfail ADI_ETH_TS_COUNTERS_DISABLED
     else
     mbind (MAC_WriteRegister h ADDR_MAC_TS_CFG (ts_idle (ts_idleState c) tsCfg)) (\<lambda>_.
     mbind (mwhen (remainder16 \<noteq> 0) (MAC_WriteRegister h ADDR_MAC_TS_TIMER_QE_CORR remainder16)) (\<lambda>_.
     mbind (MAC_WriteRegister h ADDR_MAC_TS_TIMER_HI (ts_high c AND NOT ADI_MAC_TS_QE_MASK)) (\<lambda>_.
     mbind (MAC_WriteRegister h ADDR_MAC_TS_TIMER_LO (ts_low c AND NOT ADI_MAC_TS_QE_MASK)) (\<lambda>_.
     mbind (MAC_WriteRegister h ADDR_MAC_TS_TIMER_START (ts_startTimeNs c)) (\<lambda>_. mret c)))))))"

definition MAC_TsTimerStop :: "'e adi_hal \<Rightarrow> ('e, unit) mac_io" where
  "MAC_TsTimerStop h =
     mbind (MAC_ReadRegister h ADDR_MAC_TS_CFG) (\<lambda>val32.
     MAC_WriteRegister h ADDR_MAC_TS_CFG (val32 OR BITM_MAC_TS_CFG_TS_TIMER_STOP))"

section \<open>Captured timestamps\<close>

text \<open>
  \<open>freeCnt\<close> is the conversion of a free-running count to whole seconds and nanoseconds,
  which the code does in double precision.
\<close>

definition MAC_TsConvert :: "(u32 \<Rightarrow> adi_mac_TsTimespec_t) \<Rightarrow> u32 \<Rightarrow> u32 \<Rightarrow> adi_mac_TsFormat_e \<Rightarrow>
    adi_eth_Result_e + adi_mac_TsTimespec_t" where
  "MAC_TsConvert freeCnt timestampLowWord timestampHighWord format = (case format of
       ADI_MAC_TS_FORMAT_32B_FREE \<Rightarrow> Inr (freeCnt timestampLowWord)
     | ADI_MAC_TS_FORMAT_32B_1588 \<Rightarrow> Inr
         \<lparr>tv_sec = drop_bit ADI_MAC_TS_1588_SEC_POS (timestampLowWord AND ADI_MAC_TS_1588_SEC_MASK),
          tv_nsec = timestampLowWord AND ADI_MAC_TS_1588_NS_MASK\<rparr>
     | ADI_MAC_TS_FORMAT_64B_1588 \<Rightarrow> Inr
         \<lparr>tv_sec = timestampHighWord, tv_nsec = timestampLowWord AND ADI_MAC_TS_1588_NS_MASK\<rparr>
     | ADI_MAC_TS_FORMAT_NONE \<Rightarrow> Inl ADI_ETH_NO_TS_FORMAT)"

definition msum :: "adi_eth_Result_e + 'a \<Rightarrow> ('w, 'a) io" where
  "msum r = (\<lambda>w. Some (r, w))"

definition MAC_TsGetExtCaptTimestamp ::
  "'e adi_hal \<Rightarrow> (u32 \<Rightarrow> adi_mac_TsTimespec_t) \<Rightarrow> ('e, adi_mac_TsTimespec_t) mac_io" where
  "MAC_TsGetExtCaptTimestamp h freeCnt =
     mbind (mget_s m_timestampFormat) (\<lambda>format.
     if format = ADI_MAC_TS_FORMAT_32B_1588 \<or> format = ADI_MAC_TS_FORMAT_64B_1588
     then
       mbind (MAC_ReadRegister h ADDR_MAC_TS_EXT_CAPT0) (\<lambda>timestampLowWord.
       mbind (MAC_ReadRegister h ADDR_MAC_TS_EXT_CAPT1) (\<lambda>timestampHighWord.
       msum (MAC_TsConvert freeCnt timestampLowWord timestampHighWord ADI_MAC_TS_FORMAT_64B_1588)))
     else if format = ADI_MAC_TS_FORMAT_32B_FREE
     then
       mbind (MAC_ReadRegister h ADDR_MAC_TS_FREECNT_CAPT) (\<lambda>timestampLowWord.
       msum (MAC_TsConvert freeCnt timestampLowWord 0 format))
     else mfail ADI_ETH_NO_TS_FORMAT)"

definition egress_regs :: "adi_mac_EgressCapture_e \<Rightarrow> (u32 \<times> u32) option" where
  "egress_regs egressReg = (case egressReg of
       ADI_MAC_EGRESS_CAPTURE_A \<Rightarrow> Some (ADDR_MAC_TTSCAL, ADDR_MAC_TTSCAH)
     | ADI_MAC_EGRESS_CAPTURE_B \<Rightarrow> Some (ADDR_MAC_TTSCBL, ADDR_MAC_TTSCBH)
     | ADI_MAC_EGRESS_CAPTURE_C \<Rightarrow> Some (ADDR_MAC_TTSCCL, ADDR_MAC_TTSCCH)
     | ADI_MAC_EGRESS_CAPTURE_NONE \<Rightarrow> None)"

definition MAC_TsGetEgressTimestamp ::
  "'e adi_hal \<Rightarrow> (u32 \<Rightarrow> adi_mac_TsTimespec_t) \<Rightarrow> adi_mac_EgressCapture_e \<Rightarrow> ('e, adi_mac_TsTimespec_t) mac_io" where
  "MAC_TsGetEgressTimestamp h freeCnt egressReg = (case egress_regs egressReg of
       None \<Rightarrow> mfail ADI_ETH_NO_TS_FORMAT
     | Some (regAddrL, regAddrH) \<Rightarrow>
         mbind (MAC_ReadRegister h regAddrL) (\<lambda>timestampLowWord.
         mbind (MAC_ReadRegister h regAddrH) (\<lambda>timestampHighWord.
         mbind (mget_s m_timestampFormat) (\<lambda>format.
         msum (MAC_TsConvert freeCnt timestampLowWord timestampHighWord format)))))"

section \<open>The clock\<close>

definition ts_coerce_ns :: "u32 \<Rightarrow> u32" where
  "ts_coerce_ns nanoseconds =
     (let nanoseconds = (if nanoseconds < ADI_MAC_TS_MIN_NS then ADI_MAC_TS_MIN_NS else nanoseconds)
      in if ADI_MAC_TS_ONE_SECOND_IN_NS \<le> unat nanoseconds
         then of_nat (ADI_MAC_TS_ONE_SECOND_IN_NS - 1) else nanoseconds)"

definition MAC_TsSetTimerAbsolute :: "'e adi_hal \<Rightarrow> u32 \<Rightarrow> u32 \<Rightarrow> ('e, unit) mac_io" where
  "MAC_TsSetTimerAbsolute h seconds nanoseconds =
     mbind (MAC_ReadRegister h ADDR_MAC_TS_ADDEND) (\<lambda>addend.
     mbind (MAC_WriteRegister h ADDR_MAC_TS_ADDEND 0) (\<lambda>_.
     mbind (MAC_WriteRegister h ADDR_MAC_TS_SEC_CNT seconds) (\<lambda>_.
     mbind (MAC_WriteRegister h ADDR_MAC_TS_NS_CNT
       (ts_coerce_ns nanoseconds AND NOT ADI_MAC_TS_QE_MASK)) (\<lambda>_.
     MAC_WriteRegister h ADDR_MAC_TS_ADDEND addend))))"

text \<open>
  Signed 64-bit values are integers with the range written out; an overflow is undefined
  behaviour.  The shifts right are arithmetic.
\<close>

definition int64 :: "int \<Rightarrow> int option" where
  "int64 x = (if - (2 ^ 63) \<le> x \<and> x < 2 ^ 63 then Some x else None)"

function ts_halve :: "int \<Rightarrow> int \<Rightarrow> int \<times> int" where
  "ts_halve referenceNsDiff localNsDiff =
     (if referenceNsDiff > 0x7FFFFFFF then ts_halve (referenceNsDiff div 2) (localNsDiff div 2)
      else (referenceNsDiff, localNsDiff))"
  by auto
termination by (relation "measure (\<lambda>(r, l). nat r)") auto

definition ts_addend :: "int \<Rightarrow> u64 \<Rightarrow> u64 \<Rightarrow> u32 \<Rightarrow> u32 option" where
  "ts_addend tError referenceTimeNsDiff localTimeNsDiff addend = do {
     let (referenceNsDiff, localNsDiff) = ts_halve (sint referenceTimeNsDiff) (sint localTimeNsDiff);
     let val64 = uint addend;
     val64 \<leftarrow> (if referenceNsDiff \<noteq> 0 \<and> localNsDiff \<noteq> 0
              then do { p \<leftarrow> int64 (referenceNsDiff * val64); int64 (p sdiv localNsDiff) }
              else Some val64);
     val64 \<leftarrow> int64 (val64 + tError);
     Some (word_of_int val64)
   }"

definition MAC_TsSyncClock :: "'e adi_hal \<Rightarrow> int \<Rightarrow> u64 \<Rightarrow> u64 \<Rightarrow> ('e, unit) mac_io" where
  "MAC_TsSyncClock h tError referenceTimeNsDiff localTimeNsDiff =
     mbind (MAC_ReadRegister h ADDR_MAC_TS_ADDEND) (\<lambda>addend.
     mbind (mopt (ts_addend tError referenceTimeNsDiff localTimeNsDiff addend)) (\<lambda>addend.
     MAC_WriteRegister h ADDR_MAC_TS_ADDEND addend))"

text \<open>The multiplication is unsigned, its conversion back to \<open>int64_t\<close> never out of range.\<close>

definition ts_ns :: "adi_mac_TsTimespec_t \<Rightarrow> int" where
  "ts_ns t = sint (ucast (tv_sec t) * of_nat ADI_MAC_TS_ONE_SECOND_IN_NS + ucast (tv_nsec t) :: u64)"

definition MAC_TsSubtract :: "adi_mac_TsTimespec_t \<Rightarrow> adi_mac_TsTimespec_t \<Rightarrow> int option" where
  "MAC_TsSubtract pTsA pTsB = int64 (ts_ns pTsA - ts_ns pTsB)"

end
