(* ===== verification/Phy.thy ===== *)
theory Phy
  imports Adin_Regs
begin

text \<open>
  The driver of a 10BASE-T1L PHY (\<open>adi_phy.c\<close>).  It reaches its registers through the two
  functions it is initialised with and switches the interrupt line of the host off meanwhile;
  both are the fields of a \<open>phy_bus\<close> over the state \<open>'w\<close> of what is below.  A null handle
  and the values of an enumeration other than its constants are not modelled.
\<close>

section \<open>Data\<close>

datatype adi_phy_State_e =
    ADI_PHY_STATE_UNINITIALIZED | ADI_PHY_STATE_HW_RESET | ADI_PHY_STATE_SOFTWARE_POWERDOWN
  | ADI_PHY_STATE_OPERATION | ADI_PHY_STATE_DIAGNOSTIC | ADI_PHY_STATE_ERROR

datatype adi_phy_AnAdvTxMode_e =
    ADI_PHY_AN_ADV_TX_REQ_1P0V | ADI_PHY_AN_ADV_TX_REQ_2P4V | ADI_PHY_AN_ADV_TX_REQ_1P0V_ABLE_2P4V

datatype adi_phy_AnTxMode_e =
    ADI_PHY_AN_TX_LEVEL_RESOLUTION_NOT_RUN | ADI_PHY_AN_TX_LEVEL_RESERVED
  | ADI_PHY_AN_TX_LEVEL_1P0V | ADI_PHY_AN_TX_LEVEL_2P4V

datatype adi_phy_AnAdvMasterSlaveCfg_e =
    ADI_PHY_AN_ADV_FORCED_MASTER | ADI_PHY_AN_ADV_FORCED_SLAVE
  | ADI_PHY_AN_ADV_PREFFERED_MASTER | ADI_PHY_AN_ADV_PREFFERED_SLAVE

datatype adi_phy_AnMsResolution_e =
    ADI_PHY_AN_MS_RESOLUTION_NOT_RUN | ADI_PHY_AN_MS_RESOLUTION_FAULT
  | ADI_PHY_AN_MS_RESOLUTION_SLAVE | ADI_PHY_AN_MS_RESOLUTION_MASTER

datatype adi_phy_ResetType_e = ADI_PHY_RESET_TYPE_SW | ADI_PHY_RESET_TYPE_HW

datatype adi_phy_LinkStatus_e = ADI_PHY_LINK_STATUS_DOWN | ADI_PHY_LINK_STATUS_UP

datatype adi_phy_LoopbackMode_e =
    ADI_PHY_LOOPBACK_NONE | ADI_PHY_LOOPBACK_PCS | ADI_PHY_LOOPBACK_PMA | ADI_PHY_LOOPBACK_MACIF
  | ADI_PHY_LOOPBACK_MACIF_SUPPRESS_TX | ADI_PHY_LOOPBACK_MACIF_REMOTE
  | ADI_PHY_LOOPBACK_MACIF_REMOTE_SUPPRESS_RX

datatype adi_phy_TestMode_e =
    ADI_PHY_TEST_MODE_NONE | ADI_PHY_TEST_MODE_1 | ADI_PHY_TEST_MODE_2 | ADI_PHY_TEST_MODE_3
  | ADI_PHY_TEST_MODE_TX_DISABLE

datatype adi_phy_LinkQuality_e =
  ADI_PHY_LINK_QUALITY_POOR | ADI_PHY_LINK_QUALITY_MARGINAL | ADI_PHY_LINK_QUALITY_GOOD

datatype adi_phy_LedPort_e = ADI_PHY_LED_0 | ADI_PHY_LED_1

datatype adi_phy_FrameGenMode_e = ADI_PHY_FRAME_GEN_MODE_BURST | ADI_PHY_FRAME_GEN_MODE_CONT

datatype adi_phy_FrameGenPayload_e =
    ADI_PHY_FRAME_GEN_PAYLOAD_NONE | ADI_PHY_FRAME_GEN_PAYLOAD_RANDOM
  | ADI_PHY_FRAME_GEN_PAYLOAD_0X00 | ADI_PHY_FRAME_GEN_PAYLOAD_0XFF
  | ADI_PHY_FRAME_GEN_PAYLOAD_0x55 | ADI_PHY_FRAME_GEN_PAYLOAD_DECR

datatype adi_phy_FrameChkSource_e = ADI_PHY_FRAME_CHK_SOURCE_PHY | ADI_PHY_FRAME_CHK_SOURCE_MAC

record adi_phy_MseLinkQuality_t =
  mse_mseVal :: u16
  mse_linkQuality :: adi_phy_LinkQuality_e
  mse_sqi :: nat

record adi_phy_FrameChkErrorCounters_t =
  LEN_ERR_CNT :: u16
  ALGN_ERR_CNT :: u16
  SYMB_ERR_CNT :: u16
  OSZ_CNT :: u16
  USZ_CNT :: u16
  ODD_CNT :: u16
  ODD_PRE_CNT :: u16
  FALSE_CARRIER_CNT :: u16

text \<open>What auto-negotiation resolved; the fields are assigned only when it is complete.\<close>

record adi_phy_AnStatus_t =
  an_LinkStatus :: adi_phy_LinkStatus_e
  an_MsResolution :: adi_phy_AnMsResolution_e
  an_TxMode :: adi_phy_AnTxMode_e

record adi_phy_Device_t =
  ph_phyAddr :: u32
  ph_state :: adi_phy_State_e
  ph_cbFunc :: "nat option"
  ph_cbEvents :: u32
  ph_cbParam :: nat
  ph_irqPending :: bool
  ph_linkDropped :: u32

definition ADI_PHY_DEVID1 :: u16 where "ADI_PHY_DEVID1 = 0x0283"
definition ADI_PHY_DEVID2_OUI :: u16 where "ADI_PHY_DEVID2_OUI = 0x2F"
definition ADI_PHY_CRSM_HW_ERROR :: u32 where "ADI_PHY_CRSM_HW_ERROR = 0x2BFF"
definition ADI_PHY_CAP_NONE :: u16 where "ADI_PHY_CAP_NONE = 0"
definition ADI_PHY_CAP_TX_HIGH_LEVEL :: u16 where "ADI_PHY_CAP_TX_HIGH_LEVEL = 2"
definition ADI_PHY_CAP_PMA_LOCAL_LOOPBACK :: u16 where "ADI_PHY_CAP_PMA_LOCAL_LOOPBACK = 4"
definition ADI_PHY_SYS_RDY_ITER :: nat where "ADI_PHY_SYS_RDY_ITER = 700 * 1000 div 1250"
definition ADI_PHY_SOFT_PD_ITER :: nat where "ADI_PHY_SOFT_PD_ITER = 10"
definition ADI_PHY_LINK_QUALITY_THR_POOR :: u16 where "ADI_PHY_LINK_QUALITY_THR_POOR = 0x0766"
definition ADI_PHY_LINK_QUALITY_THR_MARGINAL :: u16 where "ADI_PHY_LINK_QUALITY_THR_MARGINAL = 0x05E1"

definition convMseToSqi :: "u16 list" where
  "convMseToSqi = [0x0A74, 0x084E, 0x0698, 0x053D, 0x0429, 0x034E, 0x02A0]"

section \<open>Register access\<close>

text \<open>
  \<open>readFn\<close> returns a status and what its out-parameter holds afterwards, given what it held
  before; \<open>writeFn\<close> a status.
\<close>

record 'w phy_bus =
  pb_readFn :: "u8 \<Rightarrow> u32 \<Rightarrow> u16 \<Rightarrow> 'w \<Rightarrow> ((adi_eth_Result_e \<times> u16) \<times> 'w) option"
  pb_writeFn :: "u8 \<Rightarrow> u32 \<Rightarrow> u16 \<Rightarrow> 'w \<Rightarrow> (adi_eth_Result_e \<times> 'w) option"
  pb_getIrq :: "'w \<Rightarrow> bool"
  pb_setIrq :: "bool \<Rightarrow> 'w \<Rightarrow> 'w"
  pb_registerCallback :: "'w \<Rightarrow> 'w"

type_synonym ('w, 'a) phy_io = "(adi_phy_Device_t \<times> 'w, 'a) io"

definition PHY_Write :: "'w phy_bus \<Rightarrow> u32 \<Rightarrow> u16 \<Rightarrow> ('w, unit) phy_io" where
  "PHY_Write b regAddr data = (\<lambda>(d, w). do {
     let backup = pb_getIrq b w;
     (r, w) \<leftarrow> pb_writeFn b (ucast (ph_phyAddr d)) regAddr data (pb_setIrq b False w);
     Some (if r \<noteq> ADI_ETH_SUCCESS then Inl ADI_ETH_COMM_ERROR else Inr (), d,
       if backup then pb_setIrq b True w else w)
   })"

definition PHY_Read_into :: "'w phy_bus \<Rightarrow> u32 \<Rightarrow> u16 \<Rightarrow> ('w, adi_eth_Result_e \<times> u16) phy_io" where
  "PHY_Read_into b regAddr old = (\<lambda>(d, w). do {
     let backup = pb_getIrq b w;
     ((r, data), w) \<leftarrow> pb_readFn b (ucast (ph_phyAddr d)) regAddr old (pb_setIrq b False w);
     Some (Inr (if r \<noteq> ADI_ETH_SUCCESS then ADI_ETH_COMM_ERROR else ADI_ETH_SUCCESS, data), d,
       if backup then pb_setIrq b True w else w)
   })"

definition PHY_Read :: "'w phy_bus \<Rightarrow> u32 \<Rightarrow> ('w, u16) phy_io" where
  "PHY_Read b regAddr =
     mbind (PHY_Read_into b regAddr 0) (\<lambda>(result, data).
     if result = ADI_ETH_SUCCESS then mret data else mfail result)"

definition phy_get :: "(adi_phy_Device_t \<Rightarrow> 'a) \<Rightarrow> ('w, 'a) phy_io" where
  "phy_get f = mget (\<lambda>(d, w). f d)"

definition phy_upd :: "(adi_phy_Device_t \<Rightarrow> adi_phy_Device_t) \<Rightarrow> ('w, unit) phy_io" where
  "phy_upd f = mupd (\<lambda>(d, w). (f d, w))"

text \<open>\<open>if (hDevice->irqPending) { result = ADI_ETH_IRQ_PENDING; goto end; }\<close>\<close>

definition unless_pending :: "('w, 'a) phy_io \<Rightarrow> ('w, 'a) phy_io" where
  "unless_pending m = mbind (phy_get ph_irqPending) (\<lambda>irqPending.
     if irqPending then mfail ADI_ETH_IRQ_PENDING else m)"

definition bit16 :: "nat \<Rightarrow> u16" where
  "bit16 n = push_bit n 1"

section \<open>Power and reset\<close>

definition PHY_GetSoftwarePowerdown :: "'w phy_bus \<Rightarrow> ('w, bool) phy_io" where
  "PHY_GetSoftwarePowerdown b = unless_pending (
     mcatch (PHY_Read b ADDR_CRSM_STAT) (\<lambda>_. mfail ADI_ETH_COMM_ERROR) (\<lambda>val16.
     mret (val16 AND ucast BITM_CRSM_STAT_CRSM_SFT_PD_RDY = bit16 BITP_CRSM_STAT_CRSM_SFT_PD_RDY)))"

text \<open>
  The loop of \<open>setSoftwarePowerdown\<close> with the number of tries left: \<open>swpd\<close> keeps its value
  when a read fails.  It returns whether the state was seen, with the status of the last read.
\<close>

fun pd_wait :: "'w phy_bus \<Rightarrow> bool \<Rightarrow> bool \<Rightarrow> nat \<Rightarrow> adi_phy_Device_t \<times> 'w \<Rightarrow>
    ((bool \<times> (adi_eth_Result_e + unit)) \<times> adi_phy_Device_t \<times> 'w) option" where
  "pd_wait b target swpd 0 w = Some ((False, Inr ()), w)"
| "pd_wait b target swpd (Suc n) w = do {
     (r, w) \<leftarrow> PHY_GetSoftwarePowerdown b w;
     let swpd = (case r of Inl _ \<Rightarrow> swpd | Inr x \<Rightarrow> x);
     if target = swpd then Some ((True, case r of Inl e \<Rightarrow> Inl e | Inr _ \<Rightarrow> Inr ()), w)
     else pd_wait b target swpd n w
   }"

definition setSoftwarePowerdown :: "'w phy_bus \<Rightarrow> bool \<Rightarrow> ('w, unit) phy_io" where
  "setSoftwarePowerdown b enable = unless_pending (
     mbind (PHY_Write b ADDR_CRSM_SFT_PD_CNTRL
       (push_bit BITP_CRSM_SFT_PD_CNTRL_CRSM_SFT_PD (of_bool enable))) (\<lambda>_ w. do {
     ((done, result), d, w) \<leftarrow> pd_wait b enable False ADI_PHY_SOFT_PD_ITER w;
     if \<not> done then Some (Inl ADI_ETH_READ_STATUS_TIMEOUT, d, w)
     else Some (result, d\<lparr>ph_state := (if enable then ADI_PHY_STATE_SOFTWARE_POWERDOWN
                                     else ADI_PHY_STATE_OPERATION)\<rparr>, w)
   }))"

definition PHY_EnterSoftwarePowerdown :: "'w phy_bus \<Rightarrow> ('w, unit) phy_io" where
  "PHY_EnterSoftwarePowerdown b = setSoftwarePowerdown b True"

definition PHY_ExitSoftwarePowerdown :: "'w phy_bus \<Rightarrow> ('w, unit) phy_io" where
  "PHY_ExitSoftwarePowerdown b = setSoftwarePowerdown b False"

text \<open>The model number and the revision.\<close>

definition checkIdentity :: "'w phy_bus \<Rightarrow> ('w, u16 \<times> u16) phy_io" where
  "checkIdentity b =
     mbind (PHY_Read b ADDR_MMD1_DEV_ID1) (\<lambda>val16.
     if val16 \<noteq> ADI_PHY_DEVID1 then mfail ADI_ETH_UNSUPPORTED_DEVICE
     else
     mbind (PHY_Read b ADDR_MMD1_DEV_ID2) (\<lambda>val16.
     if val16 AND ucast BITM_MMD1_DEV_ID2_MMD1_DEV_ID2_OUI
       \<noteq> push_bit BITP_MMD1_DEV_ID2_MMD1_DEV_ID2_OUI ADI_PHY_DEVID2_OUI
     then mfail ADI_ETH_UNSUPPORTED_DEVICE
     else mret
       (drop_bit BITP_MMD1_DEV_ID2_MMD1_MODEL_NUM (val16 AND ucast BITM_MMD1_DEV_ID2_MMD1_MODEL_NUM),
        drop_bit BITP_MMD1_DEV_ID2_MMD1_REV_NUM (val16 AND ucast BITM_MMD1_DEV_ID2_MMD1_REV_NUM))))"

fun write_list :: "'w phy_bus \<Rightarrow> (u32 \<times> u16) list \<Rightarrow> ('w, unit) phy_io" where
  "write_list b [] = mret ()"
| "write_list b ((regAddr, data) # ws) = mbind (PHY_Write b regAddr data) (\<lambda>_. write_list b ws)"

definition static_config :: "u16 \<Rightarrow> (u32 \<times> u16) list" where
  "static_config modelNum =
     [(0x1E8C81, 0x0001), (0x1E8C80, if modelNum = 10 then 0x0001 else 0x3636), (0x1E881F, 0x0000),
      (0x018154, 0x00F9), (0x1E8C40, 0x000B), (0x018008, 0x0003), (0x018009, 0x0008),
      (0x018167, 0x2000), (0x018168, 0x0008), (0x01816B, 0x0400), (0x0181BD, 0x2000),
      (0x0181BE, 0x0008), (0x0181C2, 0x0400), (0x0181DB, 0x0400), (0x0181E1, 0x0400),
      (0x0181E7, 0x0400), (0x0181EB, 0x0400), (0x018143, 0x0400)] @
     (if modelNum = 10 then [(0x1EA400, 0x0001), (0x1EA407, 0x0001)] else [])"

definition phyStaticConfig :: "'w phy_bus \<Rightarrow> u16 \<Rightarrow> u16 \<Rightarrow> ('w, unit) phy_io" where
  "phyStaticConfig b modelNum revNum =
     (if revNum = 0 then write_list b (static_config modelNum) else mret ())"

definition PHY_AnEnable :: "'w phy_bus \<Rightarrow> bool \<Rightarrow> ('w, unit) phy_io" where
  "PHY_AnEnable b enable = unless_pending (
     PHY_Write b ADDR_AN_CONTROL (push_bit BITP_AN_CONTROL_AN_EN (of_bool enable)))"

text \<open>
  \<open>do ... while (!flag && (--iter));\<close>: the number of reads left.  Running out of them is no error.
\<close>

fun pd_poll :: "'w phy_bus \<Rightarrow> nat \<Rightarrow> ('w, unit) phy_io" where
  "pd_poll b 0 = mret ()"
| "pd_poll b (Suc n) = mbind (PHY_GetSoftwarePowerdown b) (\<lambda>flag. if flag then mret () else pd_poll b n)"

definition phy_irqMask :: "u32 \<Rightarrow> u32" where
  "phy_irqMask cbEvents =
     ADI_PHY_CRSM_HW_ERROR OR BITM_CRSM_IRQ_MASK_CRSM_HRD_RST_IRQ_EN OR cbEvents"

definition write_irqMask :: "'w phy_bus \<Rightarrow> u32 \<Rightarrow> ('w, unit) phy_io" where
  "write_irqMask b irqMask =
     mbind (PHY_Write b ADDR_CRSM_IRQ_MASK (ucast (irqMask AND 0xFFFF))) (\<lambda>_.
     PHY_Write b ADDR_PHY_SUBSYS_IRQ_MASK (ucast (drop_bit 16 irqMask AND 0xFFFF)))"

definition phyInit :: "'w phy_bus \<Rightarrow> ('w, unit) phy_io" where
  "phyInit b =
     mbind (phy_upd (\<lambda>d. d\<lparr>ph_state := ADI_PHY_STATE_UNINITIALIZED\<rparr>)) (\<lambda>_.
     mbind (mcatch (checkIdentity b)
       (\<lambda>err. mbind (phy_upd (\<lambda>d. d\<lparr>ph_state := ADI_PHY_STATE_ERROR\<rparr>)) (\<lambda>_. mfail err)) mret)
       (\<lambda>(modelNum, revNum).
     mbind (PHY_Write b ADDR_CRSM_SFT_PD_CNTRL (bit16 BITP_CRSM_SFT_PD_CNTRL_CRSM_SFT_PD)) (\<lambda>_.
     mbind (pd_poll b ADI_PHY_SYS_RDY_ITER) (\<lambda>_.
     mbind (phy_get ph_cbEvents) (\<lambda>cbEvents.
     mbind (write_irqMask b (phy_irqMask cbEvents)) (\<lambda>_.
     mbind (PHY_Read b ADDR_CRSM_IRQ_STATUS) (\<lambda>val16.
     if val16 AND ucast ADI_PHY_CRSM_HW_ERROR \<noteq> 0 then mfail ADI_ETH_HW_ERROR
     else
     mbind (PHY_Read b ADDR_PHY_SUBSYS_IRQ_STATUS) (\<lambda>_.
     mbind (phy_upd (\<lambda>d. d\<lparr>ph_irqPending := False\<rparr>)) (\<lambda>_.
     mbind (mcatch (phyStaticConfig b modelNum revNum) (\<lambda>_. mfail ADI_ETH_PLACEHOLDER_ERROR) mret) (\<lambda>_.
     mbind (PHY_AnEnable b True) (\<lambda>_.
     phy_upd (\<lambda>d. d\<lparr>ph_state := ADI_PHY_STATE_SOFTWARE_POWERDOWN\<rparr>))))))))))))"

text \<open>
  The device memory is cleared and filled; \<open>sizeofDevice\<close> is \<open>sizeof(adi_phy_Device_t)\<close>.
\<close>

definition phy_device :: "u32 \<Rightarrow> adi_phy_Device_t" where
  "phy_device addr = \<lparr>ph_phyAddr = addr, ph_state = ADI_PHY_STATE_UNINITIALIZED, ph_cbFunc = None,
     ph_cbEvents = 0, ph_cbParam = 0, ph_irqPending = False, ph_linkDropped = 0\<rparr>"

definition PHY_Init :: "'w phy_bus \<Rightarrow> nat \<Rightarrow> nat \<Rightarrow> u32 \<Rightarrow> bool \<Rightarrow> ('w, unit) phy_io" where
  "PHY_Init b sizeofDevice devMemSize addr enableIrq =
     (if devMemSize < sizeofDevice then mfail ADI_ETH_INVALID_PARAM
      else
      mbind (mupd (\<lambda>(d, w). (phy_device addr, pb_setIrq b False w))) (\<lambda>_.
      mbind (mwhen enableIrq (mupd (\<lambda>(d, w). (d, pb_registerCallback b w)))) (\<lambda>_.
      mbind (mcatch (phyInit b)
        (\<lambda>err. mbind (phy_upd (\<lambda>d. d\<lparr>ph_state := ADI_PHY_STATE_ERROR\<rparr>)) (\<lambda>_. mfail err)) mret) (\<lambda>_.
      mwhen enableIrq (mupd (\<lambda>(d, w). (d\<lparr>ph_irqPending := False\<rparr>, pb_setIrq b True w)))))))"

definition PHY_UnInit :: "'w phy_bus \<Rightarrow> ('w, unit) phy_io" where
  "PHY_UnInit b = mupd (\<lambda>(d, w). (d\<lparr>ph_state := ADI_PHY_STATE_UNINITIALIZED\<rparr>, pb_setIrq b False w))"

definition PHY_ReInitPhy :: "'w phy_bus \<Rightarrow> ('w, unit) phy_io" where
  "PHY_ReInitPhy b = phyInit b"

definition PHY_Reset :: "'w phy_bus \<Rightarrow> adi_phy_ResetType_e \<Rightarrow> ('w, unit) phy_io" where
  "PHY_Reset b resetType = unless_pending (case resetType of
       ADI_PHY_RESET_TYPE_SW \<Rightarrow>
         mcatch (PHY_Write b ADDR_CRSM_SFT_RST (bit16 BITP_CRSM_SFT_RST_CRSM_SFT_RST))
           (\<lambda>_. mfail ADI_ETH_COMM_ERROR) (\<lambda>_. phyInit b)
     | ADI_PHY_RESET_TYPE_HW \<Rightarrow> mfail ADI_ETH_UNSUPPORTED_FEATURE)"

section \<open>Interrupts\<close>

definition PHY_RegisterCallback :: "'w phy_bus \<Rightarrow> nat option \<Rightarrow> u32 \<Rightarrow> nat \<Rightarrow> ('w, unit) phy_io" where
  "PHY_RegisterCallback b cbFunc cbEvents cbParam =
     mbind (phy_upd (\<lambda>d. d\<lparr>ph_cbFunc := cbFunc, ph_cbEvents := cbEvents, ph_cbParam := cbParam\<rparr>)) (\<lambda>_.
     write_irqMask b (phy_irqMask cbEvents))"

text \<open>The interrupt callback: the new device and the call it makes, if any.\<close>

definition irqCb :: "adi_phy_Device_t \<Rightarrow> adi_phy_Device_t \<times> (nat \<times> nat) option" where
  "irqCb d = (d\<lparr>ph_irqPending := True\<rparr>, map_option (\<lambda>f. (f, ph_cbParam d)) (ph_cbFunc d))"

text \<open>The status and \<open>*status\<close>; \<open>val16\<close> keeps the first value when the second read fails.\<close>

definition PHY_ReadIrqStatus :: "'w phy_bus \<Rightarrow> ('w, adi_eth_Result_e \<times> u32) phy_io" where
  "PHY_ReadIrqStatus b =
     mcatch (PHY_Read b ADDR_CRSM_IRQ_STATUS) (\<lambda>err. mret (err, 0)) (\<lambda>crsm.
     mbind (PHY_Read_into b ADDR_PHY_SUBSYS_IRQ_STATUS crsm) (\<lambda>(result, val16).
     let result = (if result \<noteq> ADI_ETH_SUCCESS then ADI_ETH_COMM_ERROR_SECOND else result) in
     mbind (phy_upd (\<lambda>d. d\<lparr>ph_irqPending := False\<rparr>)) (\<lambda>_.
     mret (result, ucast crsm OR push_bit 16 (ucast val16)))))"

section \<open>Auto-negotiation and link\<close>

definition tx_mode_bits :: "adi_phy_AnAdvTxMode_e \<Rightarrow> u16 \<Rightarrow> u16" where
  "tx_mode_bits txMode val16 =
     (let val16 = val16 AND NOT (ucast BITM_AN_ADV_ABILITY_H_AN_ADV_B10L_TX_LVL_HI_REQ OR
                                 ucast BITM_AN_ADV_ABILITY_H_AN_ADV_B10L_TX_LVL_HI_ABL);
          val16 = (if txMode = ADI_PHY_AN_ADV_TX_REQ_2P4V \<or> txMode = ADI_PHY_AN_ADV_TX_REQ_1P0V_ABLE_2P4V
                   then val16 OR bit16 BITP_AN_ADV_ABILITY_H_AN_ADV_B10L_TX_LVL_HI_ABL else val16)
      in if txMode = ADI_PHY_AN_ADV_TX_REQ_2P4V
         then val16 OR bit16 BITP_AN_ADV_ABILITY_H_AN_ADV_B10L_TX_LVL_HI_REQ else val16)"

definition PHY_AnAdvTxMode :: "'w phy_bus \<Rightarrow> adi_phy_AnAdvTxMode_e \<Rightarrow> ('w, unit) phy_io" where
  "PHY_AnAdvTxMode b txMode = unless_pending (
     mbind (PHY_Read b ADDR_AN_ADV_ABILITY_H) (\<lambda>val16.
     PHY_Write b ADDR_AN_ADV_ABILITY_H (tx_mode_bits txMode val16)))"

definition force_ms_bits :: "adi_phy_AnAdvMasterSlaveCfg_e \<Rightarrow> u16 \<Rightarrow> u16" where
  "force_ms_bits msCfg val16 =
     (let val16 = val16 AND NOT (ucast BITM_AN_ADV_ABILITY_L_AN_ADV_FORCE_MS)
      in if msCfg = ADI_PHY_AN_ADV_FORCED_MASTER \<or> msCfg = ADI_PHY_AN_ADV_FORCED_SLAVE
         then val16 OR bit16 BITP_AN_ADV_ABILITY_L_AN_ADV_FORCE_MS else val16)"

definition mst_bits :: "adi_phy_AnAdvMasterSlaveCfg_e \<Rightarrow> u16 \<Rightarrow> u16" where
  "mst_bits msCfg val16 =
     (let val16 = val16 AND NOT (ucast BITM_AN_ADV_ABILITY_M_AN_ADV_MST)
      in if msCfg = ADI_PHY_AN_ADV_FORCED_MASTER \<or> msCfg = ADI_PHY_AN_ADV_PREFFERED_MASTER
         then val16 OR bit16 BITP_AN_ADV_ABILITY_M_AN_ADV_MST else val16)"

definition PHY_AnAdvMstSlvCfg :: "'w phy_bus \<Rightarrow> adi_phy_AnAdvMasterSlaveCfg_e \<Rightarrow> ('w, unit) phy_io" where
  "PHY_AnAdvMstSlvCfg b msCfg = unless_pending (
     mbind (PHY_Read b ADDR_AN_ADV_ABILITY_L) (\<lambda>val16.
     mbind (PHY_Write b ADDR_AN_ADV_ABILITY_L (force_ms_bits msCfg val16)) (\<lambda>_.
     mbind (PHY_Read b ADDR_AN_ADV_ABILITY_M) (\<lambda>val16.
     PHY_Write b ADDR_AN_ADV_ABILITY_M (mst_bits msCfg val16)))))"

definition PHY_Renegotiate :: "'w phy_bus \<Rightarrow> ('w, unit) phy_io" where
  "PHY_Renegotiate b = unless_pending (
     PHY_Write b ADDR_AN_CONTROL (bit16 BITP_AN_CONTROL_AN_EN OR bit16 BITP_AN_CONTROL_AN_RESTART))"

definition ms_resolution :: "u16 \<Rightarrow> adi_phy_AnMsResolution_e" where
  "ms_resolution val16 =
     (let r = drop_bit BITP_AN_STATUS_EXTRA_AN_MS_CONFIG_RSLTN
                (val16 AND ucast BITM_AN_STATUS_EXTRA_AN_MS_CONFIG_RSLTN)
      in if r = 0 then ADI_PHY_AN_MS_RESOLUTION_NOT_RUN
         else if r = 1 then ADI_PHY_AN_MS_RESOLUTION_FAULT
         else if r = 2 then ADI_PHY_AN_MS_RESOLUTION_SLAVE else ADI_PHY_AN_MS_RESOLUTION_MASTER)"

definition tx_resolution :: "u16 \<Rightarrow> adi_phy_AnTxMode_e" where
  "tx_resolution val16 =
     (let r = drop_bit BITP_AN_STATUS_EXTRA_AN_TX_LVL_RSLTN
                (val16 AND ucast BITM_AN_STATUS_EXTRA_AN_TX_LVL_RSLTN)
      in if r = 0 then ADI_PHY_AN_TX_LEVEL_RESOLUTION_NOT_RUN
         else if r = 1 then ADI_PHY_AN_TX_LEVEL_RESERVED
         else if r = 2 then ADI_PHY_AN_TX_LEVEL_1P0V else ADI_PHY_AN_TX_LEVEL_2P4V)"

definition link_of :: "u16 \<Rightarrow> adi_phy_LinkStatus_e" where
  "link_of val16 = (if val16 AND ucast BITM_AN_STATUS_AN_LINK_STATUS \<noteq> 0
     then ADI_PHY_LINK_STATUS_UP else ADI_PHY_LINK_STATUS_DOWN)"

text \<open>\<open>None\<close> when \<open>anComplete\<close> is false.\<close>

definition PHY_GetAnStatus :: "'w phy_bus \<Rightarrow> ('w, adi_phy_AnStatus_t option) phy_io" where
  "PHY_GetAnStatus b =
     mbind (PHY_Read b ADDR_AN_STATUS) (\<lambda>status.
     if drop_bit BITP_AN_STATUS_AN_COMPLETE (status AND ucast BITM_AN_STATUS_AN_COMPLETE) = 0
     then mret None
     else
     mbind (PHY_Read b ADDR_AN_STATUS_EXTRA) (\<lambda>extra.
     mret (Some \<lparr>an_LinkStatus = link_of status, an_MsResolution = ms_resolution extra,
       an_TxMode = tx_resolution extra\<rparr>)))"

text \<open>\<open>*capabilities\<close> is assigned before the read, whose failure is returned with it.\<close>

definition PHY_GetCapabilities :: "'w phy_bus \<Rightarrow> ('w, adi_eth_Result_e \<times> u16) phy_io" where
  "PHY_GetCapabilities b = unless_pending (
     mcatch (PHY_Read b ADDR_B10L_PMA_STAT) (\<lambda>err. mret (err, ADI_PHY_CAP_NONE)) (\<lambda>val16.
     mret (ADI_ETH_SUCCESS,
       (let c = ADI_PHY_CAP_NONE;
            c = (if val16 AND ucast BITM_B10L_PMA_STAT_B10L_TX_LVL_HI_ABLE \<noteq> 0
                 then c OR ADI_PHY_CAP_TX_HIGH_LEVEL else c)
        in if val16 AND ucast BITM_B10L_PMA_STAT_B10L_LB_PMA_LOC_ABLE \<noteq> 0
           then c OR ADI_PHY_CAP_PMA_LOCAL_LOOPBACK else c))))"

text \<open>The status with \<open>*status\<close>, which is down after a failure.\<close>

definition PHY_GetLinkStatus :: "'w phy_bus \<Rightarrow> ('w, adi_eth_Result_e \<times> adi_phy_LinkStatus_e) phy_io" where
  "PHY_GetLinkStatus b = unless_pending (
     mcatch (PHY_Read b ADDR_AN_STATUS) (\<lambda>err. mret (err, ADI_PHY_LINK_STATUS_DOWN)) (\<lambda>val16.
     if val16 AND ucast BITM_AN_STATUS_AN_LINK_STATUS \<noteq> 0
     then mret (ADI_ETH_SUCCESS, ADI_PHY_LINK_STATUS_UP)
     else
     mbind (phy_upd (\<lambda>d. d\<lparr>ph_linkDropped := ph_linkDropped d + 1\<rparr>)) (\<lambda>_.
     mcatch (PHY_Read b ADDR_AN_STATUS) (\<lambda>err. mret (err, ADI_PHY_LINK_STATUS_DOWN)) (\<lambda>val16.
     mret (ADI_ETH_SUCCESS, link_of val16)))))"

end
