(* ===== verification/Phy_Diag.thy ===== *)
theory Phy_Diag
  imports Phy
begin

text \<open>
  The diagnostics of the PHY driver (\<open>adi_phy.c\<close>): loopback and test modes, LEDs, link quality,
  the frame generator and the frame checker.
\<close>

section \<open>Loopback\<close>

definition lb_stop_macif :: "u16 \<Rightarrow> u16" where
  "lb_stop_macif v = v AND NOT (bit16 BITP_MAC_IF_LOOPBACK_MAC_IF_LB_EN OR
     bit16 BITP_MAC_IF_LOOPBACK_MAC_IF_REM_LB_EN)"

definition lb_stop_pcs :: "u16 \<Rightarrow> u16" where
  "lb_stop_pcs v = v AND NOT (bit16 BITP_B10L_PCS_CNTRL_B10L_LB_PCS_EN)"

definition lb_stop_pma :: "u16 \<Rightarrow> u16" where
  "lb_stop_pma v = v AND NOT (bit16 BITP_B10L_PMA_CNTRL_B10L_LB_PMA_LOC_EN)"

text \<open>The three register values for a mode, from those with loopback off.\<close>

definition lb_start :: "adi_phy_LoopbackMode_e \<Rightarrow> u16 \<times> u16 \<times> u16 \<Rightarrow> u16 \<times> u16 \<times> u16" where
  "lb_start loopbackMode = (\<lambda>(valMacIf, valPcs, valPma). case loopbackMode of
       ADI_PHY_LOOPBACK_NONE \<Rightarrow> (valMacIf, valPcs, valPma)
     | ADI_PHY_LOOPBACK_PCS \<Rightarrow> (valMacIf, valPcs OR bit16 BITP_B10L_PCS_CNTRL_B10L_LB_PCS_EN, valPma)
     | ADI_PHY_LOOPBACK_PMA \<Rightarrow> (valMacIf, valPcs, valPma OR bit16 BITP_B10L_PMA_CNTRL_B10L_LB_PMA_LOC_EN)
     | ADI_PHY_LOOPBACK_MACIF \<Rightarrow> (valMacIf OR bit16 BITP_MAC_IF_LOOPBACK_MAC_IF_LB_EN, valPcs, valPma)
     | ADI_PHY_LOOPBACK_MACIF_SUPPRESS_TX \<Rightarrow>
         (valMacIf OR (bit16 BITP_MAC_IF_LOOPBACK_MAC_IF_LB_EN OR
                       bit16 BITP_MAC_IF_LOOPBACK_MAC_IF_LB_TX_SUP_EN), valPcs, valPma)
     | ADI_PHY_LOOPBACK_MACIF_REMOTE \<Rightarrow>
         (valMacIf OR bit16 BITP_MAC_IF_LOOPBACK_MAC_IF_REM_LB_EN, valPcs, valPma)
     | ADI_PHY_LOOPBACK_MACIF_REMOTE_SUPPRESS_RX \<Rightarrow>
         (valMacIf OR (bit16 BITP_MAC_IF_LOOPBACK_MAC_IF_REM_LB_EN OR
                       bit16 BITP_MAC_IF_LOOPBACK_MAC_IF_REM_LB_RX_SUP_EN), valPcs, valPma))"

definition lb_in_phy :: "adi_phy_LoopbackMode_e \<Rightarrow> bool" where
  "lb_in_phy loopbackMode \<longleftrightarrow> loopbackMode = ADI_PHY_LOOPBACK_PCS \<or> loopbackMode = ADI_PHY_LOOPBACK_PMA"

definition PHY_SetLoopbackMode :: "'w phy_bus \<Rightarrow> adi_phy_LoopbackMode_e \<Rightarrow> ('w, unit) phy_io" where
  "PHY_SetLoopbackMode b loopbackMode =
     mbind (PHY_Read b ADDR_MAC_IF_LOOPBACK) (\<lambda>macIf.
     mbind (PHY_Read b ADDR_B10L_PCS_CNTRL) (\<lambda>pcs.
     mbind (PHY_Read b ADDR_B10L_PMA_CNTRL) (\<lambda>pma.
     let prevModePmaPcs = (pcs AND ucast BITM_B10L_PCS_CNTRL_B10L_LB_PCS_EN \<noteq> 0 \<or>
                           pma AND ucast BITM_B10L_PMA_CNTRL_B10L_LB_PMA_LOC_EN \<noteq> 0) in
     mbind (mwhen (prevModePmaPcs \<or> lb_in_phy loopbackMode) (
       mbind (PHY_EnterSoftwarePowerdown b) (\<lambda>_.
       if lb_in_phy loopbackMode
       then mbind (PHY_Write b ADDR_AN_CONTROL 0) (\<lambda>_. PHY_Write b ADDR_AN_FRC_MODE_EN 1)
       else mbind (PHY_Write b ADDR_AN_FRC_MODE_EN 0) (\<lambda>_. PHY_Write b ADDR_AN_CONTROL 1)))) (\<lambda>_.
     let (macIf, pcs, pma) = lb_start loopbackMode (lb_stop_macif macIf, lb_stop_pcs pcs, lb_stop_pma pma) in
     mbind (PHY_Write b ADDR_MAC_IF_LOOPBACK macIf) (\<lambda>_.
     mbind (PHY_Write b ADDR_B10L_PCS_CNTRL pcs) (\<lambda>_.
     mbind (PHY_Write b ADDR_B10L_PMA_CNTRL pma) (\<lambda>_.
     mwhen (prevModePmaPcs \<or> lb_in_phy loopbackMode) (PHY_ExitSoftwarePowerdown b))))))))"

section \<open>Test modes\<close>

definition test_mode_value :: "adi_phy_TestMode_e \<Rightarrow> u16" where
  "test_mode_value testMode = push_bit BITP_B10L_TEST_MODE_CNTRL_B10L_TX_TEST_MODE (ucast (case testMode of
       ADI_PHY_TEST_MODE_1 \<Rightarrow> ENUM_B10L_TEST_MODE_CNTRL_B10L_TX_TEST_MODE_IEEE_TX_TM_JITTER
     | ADI_PHY_TEST_MODE_2 \<Rightarrow> ENUM_B10L_TEST_MODE_CNTRL_B10L_TX_TEST_MODE_IEEE_TX_TM_DROOP
     | ADI_PHY_TEST_MODE_3 \<Rightarrow> ENUM_B10L_TEST_MODE_CNTRL_B10L_TX_TEST_MODE_IEEE_TX_TM_IDLE
     | _ \<Rightarrow> 0))"

definition PHY_SetTestMode :: "'w phy_bus \<Rightarrow> adi_phy_TestMode_e \<Rightarrow> ('w, unit) phy_io" where
  "PHY_SetTestMode b testMode =
     mbind (PHY_EnterSoftwarePowerdown b) (\<lambda>_.
     mbind (PHY_Read b ADDR_B10L_PMA_CNTRL) (\<lambda>b10lPmaCntrl.
     let b10lPmaCntrl = b10lPmaCntrl AND NOT (ucast BITM_B10L_PMA_CNTRL_B10L_TX_DIS_MODE_EN) in
     mbind (if testMode = ADI_PHY_TEST_MODE_NONE
       then
         mbind (PHY_Write b ADDR_B10L_TEST_MODE_CNTRL
           (ucast ENUM_B10L_TEST_MODE_CNTRL_B10L_TX_TEST_MODE_IEEE_TX_TM_NONE)) (\<lambda>_.
         mbind (PHY_Write b ADDR_AN_FRC_MODE_EN 0) (\<lambda>_.
         mbind (PHY_Write b ADDR_AN_CONTROL 1) (\<lambda>_. mret b10lPmaCntrl)))
       else
         mbind (PHY_Write b ADDR_AN_CONTROL 0) (\<lambda>_.
         mbind (PHY_Write b ADDR_AN_FRC_MODE_EN 1) (\<lambda>_.
         if testMode = ADI_PHY_TEST_MODE_TX_DISABLE
         then mret (b10lPmaCntrl OR ucast BITM_B10L_PMA_CNTRL_B10L_TX_DIS_MODE_EN)
         else mbind (PHY_Write b ADDR_B10L_TEST_MODE_CNTRL (test_mode_value testMode))
           (\<lambda>_. mret b10lPmaCntrl)))) (\<lambda>b10lPmaCntrl.
     mbind (PHY_Write b ADDR_B10L_PMA_CNTRL b10lPmaCntrl) (\<lambda>_.
     PHY_ExitSoftwarePowerdown b))))"

section \<open>LEDs\<close>

text \<open>The status of the read is not looked at; \<open>junk\<close> is what \<open>val16\<close> holds before it.\<close>

definition PHY_LedEn :: "'w phy_bus \<Rightarrow> u16 \<Rightarrow> adi_phy_LedPort_e \<Rightarrow> bool \<Rightarrow> ('w, unit) phy_io" where
  "PHY_LedEn b junk ledSel enable =
     mbind (PHY_Read_into b ADDR_LED_CNTRL junk) (\<lambda>(_, val16).
     PHY_Write b ADDR_LED_CNTRL (case ledSel of
         ADI_PHY_LED_0 \<Rightarrow> (val16 AND NOT (ucast BITM_LED_CNTRL_LED0_EN)) OR
           push_bit BITP_LED_CNTRL_LED0_EN (of_bool enable)
       | ADI_PHY_LED_1 \<Rightarrow> (val16 AND NOT (ucast BITM_LED_CNTRL_LED1_EN)) OR
           push_bit BITP_LED_CNTRL_LED1_EN (of_bool enable)))"

text \<open>Both conditions of the code test for \<open>ADI_PHY_LED_0\<close>; the second status overwrites the first.\<close>

definition write_led1 :: "'w phy_bus \<Rightarrow> u32 \<Rightarrow> u32 \<Rightarrow> ('w, unit) phy_io" where
  "write_led1 b blinkOn blinkOff = PHY_Write b ADDR_LED1_BLINK_TIME_CNTRL
     (ucast (push_bit BITP_LED1_BLINK_TIME_CNTRL_LED1_ON_N4MS blinkOn OR
             push_bit BITP_LED1_BLINK_TIME_CNTRL_LED1_OFF_N4MS blinkOff))"

definition PHY_LedBlinkTime :: "'w phy_bus \<Rightarrow> adi_phy_LedPort_e \<Rightarrow> u32 \<Rightarrow> u32 \<Rightarrow> ('w, unit) phy_io" where
  "PHY_LedBlinkTime b ledSel blinkOn blinkOff =
     (if 255 < blinkOn \<or> 255 < blinkOff then mfail ADI_ETH_INVALID_PARAM
      else if ledSel = ADI_PHY_LED_0
      then
        mcatch (PHY_Write b ADDR_LED0_BLINK_TIME_CNTRL
            (ucast (push_bit BITP_LED0_BLINK_TIME_CNTRL_LED0_ON_N4MS blinkOn OR
                    push_bit BITP_LED0_BLINK_TIME_CNTRL_LED0_OFF_N4MS blinkOff)))
          (\<lambda>_. write_led1 b blinkOn blinkOff) (\<lambda>_. write_led1 b blinkOn blinkOff)
      else mret ())"

section \<open>Link quality\<close>

definition link_quality :: "u16 \<Rightarrow> adi_phy_LinkQuality_e" where
  "link_quality mseVal =
     (if mseVal > ADI_PHY_LINK_QUALITY_THR_POOR then ADI_PHY_LINK_QUALITY_POOR
      else if mseVal > ADI_PHY_LINK_QUALITY_THR_MARGINAL then ADI_PHY_LINK_QUALITY_MARGINAL
      else ADI_PHY_LINK_QUALITY_GOOD)"

fun sqi_scan :: "u16 \<Rightarrow> nat \<Rightarrow> u16 list \<Rightarrow> nat" where
  "sqi_scan mseVal sqi [] = sqi"
| "sqi_scan mseVal sqi (c # cs) = (if mseVal > c then sqi else sqi_scan mseVal (Suc sqi) cs)"

definition PHY_GetMseLinkQuality :: "'w phy_bus \<Rightarrow> ('w, adi_phy_MseLinkQuality_t) phy_io" where
  "PHY_GetMseLinkQuality b =
     mbind (PHY_Read b ADDR_MSE_VAL) (\<lambda>mseVal.
     mret \<lparr>mse_mseVal = mseVal, mse_linkQuality = link_quality mseVal,
           mse_sqi = sqi_scan mseVal 0 convMseToSqi\<rparr>)"

section \<open>Frame generator\<close>

definition PHY_FrameGenSetFrameCnt :: "'w phy_bus \<Rightarrow> u32 \<Rightarrow> ('w, unit) phy_io" where
  "PHY_FrameGenSetFrameCnt b frameCnt =
     mbind (PHY_Write b ADDR_FG_NFRM_H (ucast (drop_bit 16 frameCnt AND 0xFFFF))) (\<lambda>_.
     PHY_Write b ADDR_FG_NFRM_L (ucast (frameCnt AND 0xFFFF)))"

definition payload_value :: "adi_phy_FrameGenPayload_e \<Rightarrow> u16" where
  "payload_value payload = (case payload of ADI_PHY_FRAME_GEN_PAYLOAD_NONE \<Rightarrow> 0
     | ADI_PHY_FRAME_GEN_PAYLOAD_RANDOM \<Rightarrow> 1 | ADI_PHY_FRAME_GEN_PAYLOAD_0X00 \<Rightarrow> 2
     | ADI_PHY_FRAME_GEN_PAYLOAD_0XFF \<Rightarrow> 3 | ADI_PHY_FRAME_GEN_PAYLOAD_0x55 \<Rightarrow> 4
     | ADI_PHY_FRAME_GEN_PAYLOAD_DECR \<Rightarrow> 5)"

definition PHY_FrameGenSetFramePayload :: "'w phy_bus \<Rightarrow> adi_phy_FrameGenPayload_e \<Rightarrow> ('w, unit) phy_io" where
  "PHY_FrameGenSetFramePayload b payload =
     PHY_Write b ADDR_FG_CNTRL_RSTRT (push_bit BITP_FG_CNTRL_RSTRT_FG_CNTRL (payload_value payload))"

definition PHY_FrameGenEn :: "'w phy_bus \<Rightarrow> bool \<Rightarrow> ('w, unit) phy_io" where
  "PHY_FrameGenEn b enable =
     (if enable
      then mbind (PHY_FrameGenSetFrameCnt b 0) (\<lambda>_. PHY_Write b ADDR_FG_EN (bit16 BITP_FG_EN_FG_EN))
      else
        mbind (PHY_Read b ADDR_FG_CNTRL_RSTRT) (\<lambda>frameCntrl.
        mbind (PHY_FrameGenSetFramePayload b ADI_PHY_FRAME_GEN_PAYLOAD_NONE) (\<lambda>_.
        mbind (PHY_Write b ADDR_FG_EN 0) (\<lambda>_.
        PHY_Write b ADDR_FG_CNTRL_RSTRT frameCntrl))))"

definition PHY_FrameGenSetMode :: "'w phy_bus \<Rightarrow> adi_phy_FrameGenMode_e \<Rightarrow> ('w, unit) phy_io" where
  "PHY_FrameGenSetMode b mode = PHY_Write b ADDR_FG_CONT_MODE_EN
     (push_bit BITP_FG_CONT_MODE_EN_FG_CONT_MODE_EN (of_bool (mode = ADI_PHY_FRAME_GEN_MODE_CONT)))"

definition PHY_FrameGenSetFrameLen :: "'w phy_bus \<Rightarrow> u16 \<Rightarrow> ('w, unit) phy_io" where
  "PHY_FrameGenSetFrameLen b frameLen =
     PHY_Write b ADDR_FG_FRM_LEN (push_bit BITP_FG_FRM_LEN_FG_FRM_LEN frameLen)"

definition PHY_FrameGenSetIfgLen :: "'w phy_bus \<Rightarrow> u16 \<Rightarrow> ('w, unit) phy_io" where
  "PHY_FrameGenSetIfgLen b ifgLen = PHY_Write b ADDR_FG_IFG_LEN ifgLen"

definition PHY_FrameGenDone :: "'w phy_bus \<Rightarrow> ('w, bool) phy_io" where
  "PHY_FrameGenDone b =
     mbind (PHY_Read b ADDR_FG_DONE) (\<lambda>val16. mret (ucast BITM_FG_DONE_FG_DONE AND val16 \<noteq> 0))"

definition PHY_FrameGenRestart :: "'w phy_bus \<Rightarrow> ('w, unit) phy_io" where
  "PHY_FrameGenRestart b =
     mbind (PHY_FrameGenDone b) (\<lambda>_.
     mbind (PHY_Read b ADDR_FG_CNTRL_RSTRT) (\<lambda>frameCntrl.
     PHY_Write b ADDR_FG_CNTRL_RSTRT (frameCntrl OR bit16 BITP_FG_CNTRL_RSTRT_FG_RSTRT)))"

section \<open>Frame checker\<close>

definition PHY_FrameChkEn :: "'w phy_bus \<Rightarrow> bool \<Rightarrow> ('w, unit) phy_io" where
  "PHY_FrameChkEn b enable = PHY_Write b ADDR_FC_EN (push_bit BITP_FC_EN_FC_EN (of_bool enable))"

definition PHY_FrameChkSourceSelect :: "'w phy_bus \<Rightarrow> adi_phy_FrameChkSource_e \<Rightarrow> ('w, unit) phy_io" where
  "PHY_FrameChkSourceSelect b source = PHY_Write b ADDR_FC_TX_SEL
     (push_bit BITP_FC_TX_SEL_FC_TX_SEL (of_bool (source = ADI_PHY_FRAME_CHK_SOURCE_MAC)))"

definition PHY_FrameChkReadFrameCnt :: "'w phy_bus \<Rightarrow> ('w, u32) phy_io" where
  "PHY_FrameChkReadFrameCnt b =
     mbind (PHY_Read b ADDR_FC_FRM_CNT_H) (\<lambda>hi.
     mbind (PHY_Read b ADDR_FC_FRM_CNT_L) (\<lambda>lo.
     mret (push_bit 16 (ucast hi) OR ucast lo)))"

definition PHY_FrameChkReadRxErrCnt :: "'w phy_bus \<Rightarrow> ('w, u16) phy_io" where
  "PHY_FrameChkReadRxErrCnt b = PHY_Read b ADDR_RX_ERR_CNT"

definition PHY_FrameChkReadErrorCnt :: "'w phy_bus \<Rightarrow> ('w, adi_phy_FrameChkErrorCounters_t) phy_io" where
  "PHY_FrameChkReadErrorCnt b =
     mbind (PHY_Read b ADDR_FC_LEN_ERR_CNT) (\<lambda>len_err.
     mbind (PHY_Read b ADDR_FC_ALGN_ERR_CNT) (\<lambda>algn_err.
     mbind (PHY_Read b ADDR_FC_SYMB_ERR_CNT) (\<lambda>symb_err.
     mbind (PHY_Read b ADDR_FC_OSZ_CNT) (\<lambda>osz.
     mbind (PHY_Read b ADDR_FC_USZ_CNT) (\<lambda>usz.
     mbind (PHY_Read b ADDR_FC_ODD_CNT) (\<lambda>odd_cnt.
     mbind (PHY_Read b ADDR_FC_ODD_PRE_CNT) (\<lambda>odd_pre.
     mbind (PHY_Read b ADDR_FC_FALSE_CARRIER_CNT) (\<lambda>false_carrier.
     mret \<lparr>LEN_ERR_CNT = len_err, ALGN_ERR_CNT = algn_err, SYMB_ERR_CNT = symb_err, OSZ_CNT = osz,
       USZ_CNT = usz, ODD_CNT = odd_cnt, ODD_PRE_CNT = odd_pre, FALSE_CARRIER_CNT = false_carrier\<rparr>))))))))"

end
