(* ===== verification/Dyn_Table.thy ===== *)
theory Dyn_Table
  imports Bm_Prelude
begin

text \<open>
  The dynamic forwarding table of the switch driver (\<open>adin2111.c\<close>): on which port a MAC
  address was last seen as a source.  An entry with \<open>age\<close> 0 is free.  \<open>adin2111_AgeTick\<close>
  ages the entries, a frame from the address in between renews them, and when no entry is
  free the next one in turn is replaced.
\<close>

section \<open>The code\<close>

record adin2111_DynamicTableEntry_t =
  de_age :: u8
  de_fromPort :: nat
  de_macAddress :: "u8 list"
  de_refresh :: bool

record dyn_table =
  dt_dynamicTable :: "adin2111_DynamicTableEntry_t list"
  dt_dynamicTableReplaceLoc :: nat

definition ADIN2111_DYNAMIC_TABLE_SIZE :: nat where "ADIN2111_DYNAMIC_TABLE_SIZE = 16"
definition ADIN2111_DYNAMIC_TABLE_MAX_AGE :: u8 where "ADIN2111_DYNAMIC_TABLE_MAX_AGE = 16"
definition ADIN2111_TX_PORT_FLOOD :: nat where "ADIN2111_TX_PORT_FLOOD = 3"

text \<open>The loop of \<open>macAddrCompare\<close> from index \<open>i\<close>.\<close>

function compare_from :: "nat \<Rightarrow> u8 list \<Rightarrow> u8 list \<Rightarrow> bool" where
  "compare_from i leftAddr rightAddr =
     (if i < 6 then if leftAddr ! i \<noteq> rightAddr ! i then False else compare_from (Suc i) leftAddr rightAddr
      else True)"
  by auto
termination by (relation "measure (\<lambda>(i, _). 6 - i)") auto

declare compare_from.simps [simp del]

definition macAddrCompare :: "u8 list \<Rightarrow> u8 list \<Rightarrow> bool" where
  "macAddrCompare leftAddr rightAddr = compare_from 0 leftAddr rightAddr"

fun lookup_from :: "adin2111_DynamicTableEntry_t list \<Rightarrow> u8 list \<Rightarrow> nat" where
  "lookup_from [] macAddress = ADIN2111_TX_PORT_FLOOD"
| "lookup_from (e # es) macAddress =
     (if de_age e \<noteq> 0 \<and> macAddrCompare (de_macAddress e) macAddress then de_fromPort e
      else lookup_from es macAddress)"

definition dynamicTableLookup :: "dyn_table \<Rightarrow> u8 list \<Rightarrow> nat" where
  "dynamicTableLookup t macAddress = lookup_from (dt_dynamicTable t) macAddress"

text \<open>
  The loop of \<open>dynamicTableLearn\<close> from index \<open>i\<close>: \<open>Inl\<close> the entry of the address, or \<open>Inr\<close>
  \<open>firstEmpty\<close>, where \<open>None\<close> is -1.
\<close>

fun learn_scan :: "adin2111_DynamicTableEntry_t list \<Rightarrow> nat \<Rightarrow> nat option \<Rightarrow> u8 list \<Rightarrow> nat + nat option" where
  "learn_scan [] i firstEmpty macAddress = Inr firstEmpty"
| "learn_scan (e # es) i firstEmpty macAddress =
     (if de_age e \<noteq> 0
      then if macAddrCompare (de_macAddress e) macAddress then Inl i
           else learn_scan es (Suc i) firstEmpty macAddress
      else learn_scan es (Suc i) (if firstEmpty = None then Some i else firstEmpty) macAddress)"

definition set_entry :: "nat \<Rightarrow> adin2111_DynamicTableEntry_t \<Rightarrow> dyn_table \<Rightarrow> dyn_table" where
  "set_entry i e t = t\<lparr>dt_dynamicTable := (dt_dynamicTable t)[i := e]\<rparr>"

definition next_replace :: "nat \<Rightarrow> nat" where
  "next_replace loc = (if ADIN2111_DYNAMIC_TABLE_SIZE \<le> loc + 1 then 0 else loc + 1)"

definition fresh_entry :: "nat \<Rightarrow> u8 list \<Rightarrow> adin2111_DynamicTableEntry_t" where
  "fresh_entry port macAddress = \<lparr>de_age = ADIN2111_DYNAMIC_TABLE_MAX_AGE, de_fromPort = port,
     de_macAddress = take 6 macAddress, de_refresh = False\<rparr>"

definition dynamicTableLearn :: "nat \<Rightarrow> u8 list \<Rightarrow> dyn_table \<Rightarrow> dyn_table" where
  "dynamicTableLearn port macAddress t = (case learn_scan (dt_dynamicTable t) 0 None macAddress of
       Inl i \<Rightarrow> set_entry i ((dt_dynamicTable t ! i)\<lparr>de_fromPort := port, de_refresh := True\<rparr>) t
     | Inr (Some i) \<Rightarrow> set_entry i (fresh_entry port macAddress) t
     | Inr None \<Rightarrow> set_entry (dt_dynamicTableReplaceLoc t) (fresh_entry port macAddress)
         (t\<lparr>dt_dynamicTableReplaceLoc := next_replace (dt_dynamicTableReplaceLoc t)\<rparr>))"

definition age_entry :: "adin2111_DynamicTableEntry_t \<Rightarrow> adin2111_DynamicTableEntry_t" where
  "age_entry e = (if de_refresh e then e\<lparr>de_age := ADIN2111_DYNAMIC_TABLE_MAX_AGE, de_refresh := False\<rparr>
     else if de_age e > 0 then e\<lparr>de_age := de_age e - 1\<rparr> else e)"

definition adin2111_AgeTick :: "dyn_table \<Rightarrow> dyn_table" where
  "adin2111_AgeTick t = t\<lparr>dt_dynamicTable := map age_entry (dt_dynamicTable t)\<rparr>"

definition adin2111_ClearDynamicTable :: "dyn_table \<Rightarrow> dyn_table" where
  "adin2111_ClearDynamicTable t =
     t\<lparr>dt_dynamicTable := map (\<lambda>e. e\<lparr>de_age := 0, de_refresh := False\<rparr>) (dt_dynamicTable t)\<rparr>"

section \<open>Invariant\<close>

text \<open>
  No two valid entries are for the same address, only valid entries are marked for renewal,
  and the entry to replace is in the table.
\<close>

definition live :: "adin2111_DynamicTableEntry_t \<Rightarrow> bool" where
  "live e \<longleftrightarrow> de_age e \<noteq> 0"

definition entry_inv :: "adin2111_DynamicTableEntry_t \<Rightarrow> bool" where
  "entry_inv e \<longleftrightarrow> length (de_macAddress e) = 6 \<and> de_age e \<le> ADIN2111_DYNAMIC_TABLE_MAX_AGE \<and>
     (de_refresh e \<longrightarrow> live e)"

definition unique_live :: "adin2111_DynamicTableEntry_t list \<Rightarrow> bool" where
  "unique_live es \<longleftrightarrow> (\<forall>i j. i < length es \<and> j < length es \<and> live (es ! i) \<and> live (es ! j) \<and>
     de_macAddress (es ! i) = de_macAddress (es ! j) \<longrightarrow> i = j)"

definition table_inv :: "dyn_table \<Rightarrow> bool" where
  "table_inv t \<longleftrightarrow> length (dt_dynamicTable t) = ADIN2111_DYNAMIC_TABLE_SIZE \<and>
     dt_dynamicTableReplaceLoc t < ADIN2111_DYNAMIC_TABLE_SIZE \<and>
     (\<forall>e \<in> set (dt_dynamicTable t). entry_inv e) \<and> unique_live (dt_dynamicTable t)"

lemma compare_from_eq:
  "length a = 6 \<Longrightarrow> length b = 6 \<Longrightarrow> compare_from i a b \<longleftrightarrow> drop i a = drop i b"
proof (induction i a b rule: compare_from.induct)
  case (1 i a b)
  show ?case
  proof (cases "i < 6")
    case True
    with 1 show ?thesis
      by (subst compare_from.simps) (auto simp: Cons_nth_drop_Suc [symmetric])
  next
    case False
    with 1 show ?thesis by (subst compare_from.simps) simp
  qed
qed

lemma macAddrCompare_eq [simp]:
  "length a = 6 \<Longrightarrow> length b = 6 \<Longrightarrow> macAddrCompare a b \<longleftrightarrow> a = b"
  by (simp add: macAddrCompare_def compare_from_eq)

lemma option_eqI: "(\<And>x. a = Some x \<longleftrightarrow> b = Some x) \<Longrightarrow> a = b"
  by (cases a; cases b) auto

section \<open>The valid entry of an address\<close>

definition entry_of :: "dyn_table \<Rightarrow> u8 list \<Rightarrow> adin2111_DynamicTableEntry_t option" where
  "entry_of t m = find (\<lambda>e. live e \<and> de_macAddress e = m) (dt_dynamicTable t)"

lemma entry_of_SomeD:
  assumes "entry_of t m = Some e"
  shows "\<exists>i < length (dt_dynamicTable t). dt_dynamicTable t ! i = e \<and> live e \<and> de_macAddress e = m"
  using assms unfolding entry_of_def find_Some_iff by auto

lemma entry_of_SomeI:
  assumes "table_inv t" "i < length (dt_dynamicTable t)" "live (dt_dynamicTable t ! i)"
  shows "entry_of t (de_macAddress (dt_dynamicTable t ! i)) = Some (dt_dynamicTable t ! i)"
proof -
  have "j < i \<Longrightarrow> \<not> (live (dt_dynamicTable t ! j) \<and>
      de_macAddress (dt_dynamicTable t ! j) = de_macAddress (dt_dynamicTable t ! i))" for j
    using assms unfolding table_inv_def unique_live_def by (metis less_trans nat_neq_iff)
  with assms show ?thesis unfolding entry_of_def find_Some_iff by blast
qed

lemma entry_of_Some:
  assumes "table_inv t"
  shows "entry_of t m = Some e \<longleftrightarrow>
    (\<exists>i < length (dt_dynamicTable t). dt_dynamicTable t ! i = e \<and> live e \<and> de_macAddress e = m)"
  using entry_of_SomeI [OF assms] entry_of_SomeD [of t m e] by blast

lemma entry_of_None:
  "entry_of t m = None \<longleftrightarrow>
    (\<forall>i < length (dt_dynamicTable t). live (dt_dynamicTable t ! i) \<longrightarrow> de_macAddress (dt_dynamicTable t ! i) \<noteq> m)"
  unfolding entry_of_def find_None_iff by (auto simp: set_conv_nth)

lemma lookup_from_find:
  assumes "\<forall>e \<in> set es. length (de_macAddress e) = 6" and "length m = 6"
  shows "lookup_from es m = (case find (\<lambda>e. live e \<and> de_macAddress e = m) es of
    None \<Rightarrow> ADIN2111_TX_PORT_FLOOD | Some e \<Rightarrow> de_fromPort e)"
  using assms by (induction es) (auto simp: live_def)

definition entry_port :: "adin2111_DynamicTableEntry_t option \<Rightarrow> nat" where
  "entry_port eo = (case eo of None \<Rightarrow> ADIN2111_TX_PORT_FLOOD | Some e \<Rightarrow> de_fromPort e)"

lemma dynamicTableLookup_entry:
  assumes "table_inv t" and "length m = 6"
  shows "dynamicTableLookup t m = entry_port (entry_of t m)"
  unfolding dynamicTableLookup_def entry_of_def entry_port_def
  using assms by (intro lookup_from_find) (auto simp: table_inv_def entry_inv_def)

text \<open>What the scan of \<open>dynamicTableLearn\<close> finds.\<close>

lemma learn_scan_spec:
  assumes "\<forall>e \<in> set es. length (de_macAddress e) = 6" and "length m = 6"
  shows "case learn_scan es k fe m of
      Inl i \<Rightarrow> k \<le> i \<and> i - k < length es \<and> live (es ! (i - k)) \<and> de_macAddress (es ! (i - k)) = m
    | Inr fe' \<Rightarrow> (\<forall>e \<in> set es. live e \<longrightarrow> de_macAddress e \<noteq> m) \<and>
        (case fe' of None \<Rightarrow> fe = None \<and> (\<forall>e \<in> set es. live e)
         | Some i \<Rightarrow> fe = Some i \<or> fe = None \<and> k \<le> i \<and> i - k < length es \<and> \<not> live (es ! (i - k)))"
  using assms
proof (induction es arbitrary: k fe)
  case (Cons e es)
  then have IH: "\<And>k fe. case learn_scan es k fe m of
      Inl i \<Rightarrow> k \<le> i \<and> i - k < length es \<and> live (es ! (i - k)) \<and> de_macAddress (es ! (i - k)) = m
    | Inr fe' \<Rightarrow> (\<forall>e \<in> set es. live e \<longrightarrow> de_macAddress e \<noteq> m) \<and>
        (case fe' of None \<Rightarrow> fe = None \<and> (\<forall>e \<in> set es. live e)
         | Some i \<Rightarrow> fe = Some i \<or> fe = None \<and> k \<le> i \<and> i - k < length es \<and> \<not> live (es ! (i - k)))"
    by simp
  have s: "Suc k \<le> i \<Longrightarrow> i - k = Suc (i - Suc k)" for i by simp
  show ?case
  proof (cases "live e")
    case True
    show ?thesis
    proof (cases "de_macAddress e = m")
      case False
      with True Cons.prems IH [of "Suc k" fe] show ?thesis
        by (auto simp: live_def s split: sum.splits option.splits)
    qed (use True Cons.prems in \<open>auto simp: live_def\<close>)
  next
    case False
    with Cons.prems IH [of "Suc k" "if fe = None then Some k else fe"] show ?thesis
      by (auto simp: live_def s split: sum.splits option.splits if_splits)
  qed
qed (auto split: option.split)

section \<open>The operations on entries\<close>

lemma set_entry_effect:
  assumes inv: "table_inv t" and i: "i < ADIN2111_DYNAMIC_TABLE_SIZE" and e: "entry_inv e" "live e"
    and new: "\<forall>j < ADIN2111_DYNAMIC_TABLE_SIZE. j \<noteq> i \<and> live (dt_dynamicTable t ! j) \<longrightarrow>
      de_macAddress (dt_dynamicTable t ! j) \<noteq> de_macAddress e"
  shows "table_inv (set_entry i e t)"
    and "entry_of (set_entry i e t) m = (if m = de_macAddress e then Some e
      else if live (dt_dynamicTable t ! i) \<and> de_macAddress (dt_dynamicTable t ! i) = m then None
      else entry_of t m)"
proof -
  have len: "length (dt_dynamicTable t) = ADIN2111_DYNAMIC_TABLE_SIZE" using inv by (simp add: table_inv_def)
  have nth: "dt_dynamicTable (set_entry i e t) ! j = (if j = i then e else dt_dynamicTable t ! j)"
    if "j < ADIN2111_DYNAMIC_TABLE_SIZE" for j
    using that len by (simp add: set_entry_def)
  have len': "length (dt_dynamicTable (set_entry i e t)) = ADIN2111_DYNAMIC_TABLE_SIZE"
    using len by (simp add: set_entry_def)
  have "unique_live (dt_dynamicTable (set_entry i e t))"
    unfolding unique_live_def len'
  proof (intro allI impI, elim conjE)
    fix j k assume jk: "j < ADIN2111_DYNAMIC_TABLE_SIZE" "k < ADIN2111_DYNAMIC_TABLE_SIZE"
      "live (dt_dynamicTable (set_entry i e t) ! j)" "live (dt_dynamicTable (set_entry i e t) ! k)"
      "de_macAddress (dt_dynamicTable (set_entry i e t) ! j) =
       de_macAddress (dt_dynamicTable (set_entry i e t) ! k)"
    with new inv len show "j = k"
      by (cases "j = i"; cases "k = i") (auto simp: nth table_inv_def unique_live_def)
  qed
  moreover have "\<forall>x \<in> set (dt_dynamicTable (set_entry i e t)). entry_inv x"
    using inv e(1) set_update_subset_insert [of "dt_dynamicTable t" i e]
    by (auto simp: table_inv_def set_entry_def)
  ultimately show inv': "table_inv (set_entry i e t)"
    using inv len' by (simp add: table_inv_def set_entry_def)
  show "entry_of (set_entry i e t) m = (if m = de_macAddress e then Some e
      else if live (dt_dynamicTable t ! i) \<and> de_macAddress (dt_dynamicTable t ! i) = m then None
      else entry_of t m)" (is "_ = ?r")
  proof (cases "m = de_macAddress e")
    case True
    with entry_of_SomeI [OF inv', of i] i e(2) nth [of i] len' show ?thesis by simp
  next
    case False
    have "entry_of (set_entry i e t) m = Some x \<longleftrightarrow> ?r = Some x" for x
    proof -
      have u: "\<forall>j < ADIN2111_DYNAMIC_TABLE_SIZE. live (dt_dynamicTable t ! i) \<and> live (dt_dynamicTable t ! j) \<and>
          de_macAddress (dt_dynamicTable t ! i) = de_macAddress (dt_dynamicTable t ! j) \<longrightarrow> i = j"
        using inv i len by (auto simp: table_inv_def unique_live_def)
      show ?thesis
        unfolding entry_of_Some [OF inv'] len'
        using False i nth u by (auto simp: entry_of_Some [OF inv] len split: if_splits)
    qed
    then show ?thesis by (rule option_eqI)
  qed
qed

lemma fresh_entry_simps [simp]:
  "de_age (fresh_entry p m) = ADIN2111_DYNAMIC_TABLE_MAX_AGE" "de_fromPort (fresh_entry p m) = p"
  "de_macAddress (fresh_entry p m) = take 6 m" "\<not> de_refresh (fresh_entry p m)"
  "live (fresh_entry p m)"
  by (simp_all add: fresh_entry_def live_def ADIN2111_DYNAMIC_TABLE_MAX_AGE_def)

lemma entry_inv_fresh: "length m = 6 \<Longrightarrow> entry_inv (fresh_entry p m)"
  by (simp add: entry_inv_def)

text \<open>The address a new one takes the place of, when no entry is free.\<close>

definition victim :: "dyn_table \<Rightarrow> u8 list \<Rightarrow> u8 list option" where
  "victim t m = (if entry_of t m = None \<and> (\<forall>e \<in> set (dt_dynamicTable t). live e)
     then Some (de_macAddress (dt_dynamicTable t ! dt_dynamicTableReplaceLoc t)) else None)"

text \<open>What \<open>m'\<close> resolves to after \<open>m\<close> was heard on port \<open>p\<close>.\<close>

definition learned :: "nat \<Rightarrow> u8 list \<Rightarrow> dyn_table \<Rightarrow> u8 list \<Rightarrow> adin2111_DynamicTableEntry_t option" where
  "learned p m t m' =
     (if m' = m then Some (case entry_of t m of None \<Rightarrow> fresh_entry p m
        | Some e \<Rightarrow> e\<lparr>de_fromPort := p, de_refresh := True\<rparr>)
      else if victim t m = Some m' then None else entry_of t m')"

lemma learn_known:
  assumes inv: "table_inv t" and m: "length m = 6" and scan: "learn_scan (dt_dynamicTable t) 0 None m = Inl i"
  shows "table_inv (dynamicTableLearn p m t) \<and> entry_of (dynamicTableLearn p m t) m' = learned p m t m'"
proof -
  let ?es = "dt_dynamicTable t" and ?e = "(dt_dynamicTable t ! i)\<lparr>de_fromPort := p, de_refresh := True\<rparr>"
  have len: "length ?es = ADIN2111_DYNAMIC_TABLE_SIZE" and ei: "\<forall>e \<in> set ?es. entry_inv e"
    using inv by (auto simp: table_inv_def)
  have l6: "\<forall>e \<in> set ?es. length (de_macAddress e) = 6" using ei by (auto simp: entry_inv_def)
  have i: "i < ADIN2111_DYNAMIC_TABLE_SIZE" "live (?es ! i)" "de_macAddress (?es ! i) = m"
    using learn_scan_spec [OF l6 m, of 0 None] scan len by auto
  have old: "entry_of t m = Some (?es ! i)" using entry_of_SomeI [OF inv, of i] i len by simp
  have e: "entry_inv ?e" "live ?e" using ei i len by (auto simp: entry_inv_def live_def)
  have new: "\<forall>j < ADIN2111_DYNAMIC_TABLE_SIZE. j \<noteq> i \<and> live (?es ! j) \<longrightarrow> de_macAddress (?es ! j) \<noteq> de_macAddress ?e"
    using inv i len by (auto simp: table_inv_def unique_live_def)
  show ?thesis
    using set_entry_effect(1) [OF inv i(1) e new] set_entry_effect(2) [OF inv i(1) e new, of m'] i(3) old
    by (auto simp: dynamicTableLearn_def scan victim_def learned_def)
qed

lemma learn_new:
  assumes inv: "table_inv t" and m: "length m = 6" and scan: "learn_scan (dt_dynamicTable t) 0 None m = Inr fe"
  shows "table_inv (dynamicTableLearn p m t) \<and> entry_of (dynamicTableLearn p m t) m' = learned p m t m'"
proof -
  let ?es = "dt_dynamicTable t"
  have len: "length ?es = ADIN2111_DYNAMIC_TABLE_SIZE" and ei: "\<forall>e \<in> set ?es. entry_inv e"
    and loc: "dt_dynamicTableReplaceLoc t < ADIN2111_DYNAMIC_TABLE_SIZE"
    using inv by (auto simp: table_inv_def)
  have l6: "\<forall>e \<in> set ?es. length (de_macAddress e) = 6" using ei by (auto simp: entry_inv_def)
  note spec = learn_scan_spec [OF l6 m, of 0 None]
  have absent: "\<forall>e \<in> set ?es. live e \<longrightarrow> de_macAddress e \<noteq> m" using spec scan by simp
  then have old: "entry_of t m = None" using len by (auto simp: entry_of_None)
  have e: "entry_inv (fresh_entry p m)" using m by (rule entry_inv_fresh)
  have new: "\<forall>j < ADIN2111_DYNAMIC_TABLE_SIZE. j \<noteq> i \<and> live (?es ! j) \<longrightarrow>
      de_macAddress (?es ! j) \<noteq> de_macAddress (fresh_entry p m)" for i
    using absent len m by auto
  show ?thesis
  proof (cases fe)
    case (Some i)
    then have i: "i < ADIN2111_DYNAMIC_TABLE_SIZE" "\<not> live (?es ! i)" using spec scan len by auto
    then have "victim t m = None" using len by (auto simp: victim_def)
    with set_entry_effect(1) [OF inv i(1) e fresh_entry_simps(5) new]
      set_entry_effect(2) [OF inv i(1) e fresh_entry_simps(5) new, of m'] i(2) m old scan Some
    show ?thesis by (auto simp: dynamicTableLearn_def learned_def)
  next
    case None
    let ?t = "t\<lparr>dt_dynamicTableReplaceLoc := next_replace (dt_dynamicTableReplaceLoc t)\<rparr>"
    have all: "\<forall>e \<in> set ?es. live e" using spec scan None by simp
    have inv': "table_inv ?t"
      using inv by (auto simp: table_inv_def next_replace_def ADIN2111_DYNAMIC_TABLE_SIZE_def)
    have same: "entry_of ?t = entry_of t" by (simp add: entry_of_def fun_eq_iff)
    have vic: "victim t m = Some (de_macAddress (?es ! dt_dynamicTableReplaceLoc t))"
      using old all by (simp add: victim_def)
    have new': "\<forall>j < ADIN2111_DYNAMIC_TABLE_SIZE. j \<noteq> dt_dynamicTableReplaceLoc t \<and> live (dt_dynamicTable ?t ! j) \<longrightarrow>
        de_macAddress (dt_dynamicTable ?t ! j) \<noteq> de_macAddress (fresh_entry p m)"
      using new by simp
    from set_entry_effect(1) [OF inv' loc e fresh_entry_simps(5) new']
      set_entry_effect(2) [OF inv' loc e fresh_entry_simps(5) new', of m'] m old scan None vic all loc len
    show ?thesis by (auto simp: dynamicTableLearn_def same learned_def)
  qed
qed

lemma learn_effect:
  assumes inv: "table_inv t" and m: "length m = 6"
  shows "table_inv (dynamicTableLearn p m t)"
    and "entry_of (dynamicTableLearn p m t) m' =
      (if m' = m then Some (case entry_of t m of None \<Rightarrow> fresh_entry p m
         | Some e \<Rightarrow> e\<lparr>de_fromPort := p, de_refresh := True\<rparr>)
       else if victim t m = Some m' then None else entry_of t m')"
  using learn_known [OF assms, of _ p m'] learn_new [OF assms, of _ p m']
  by (cases "learn_scan (dt_dynamicTable t) 0 None m"; simp add: learned_def)+

text \<open>A change of every entry that keeps its address and revives none.\<close>

lemma map_effect:
  assumes inv: "table_inv t" and keep: "\<And>e. entry_inv e \<Longrightarrow> entry_inv (f e)"
    "\<And>e. de_macAddress (f e) = de_macAddress e" "\<And>e. entry_inv e \<Longrightarrow> live (f e) \<Longrightarrow> live e"
  shows "table_inv (t\<lparr>dt_dynamicTable := map f (dt_dynamicTable t)\<rparr>)"
    and "entry_of (t\<lparr>dt_dynamicTable := map f (dt_dynamicTable t)\<rparr>) m = (case entry_of t m of
      None \<Rightarrow> None | Some e \<Rightarrow> if live (f e) then Some (f e) else None)"
proof -
  let ?t = "t\<lparr>dt_dynamicTable := map f (dt_dynamicTable t)\<rparr>" and ?es = "dt_dynamicTable t"
  have ei: "i < length ?es \<Longrightarrow> entry_inv (?es ! i)" for i using inv by (auto simp: table_inv_def)
  have "unique_live (map f ?es)"
    using inv keep(2) keep(3) [OF ei] by (auto simp: table_inv_def unique_live_def)
  then show inv': "table_inv ?t" using inv keep(1) by (auto simp: table_inv_def)
  have "entry_of ?t m = Some x \<longleftrightarrow> (case entry_of t m of
      None \<Rightarrow> None | Some e \<Rightarrow> if live (f e) then Some (f e) else None) = Some x" for x
  proof -
    have c: "(case entry_of t m of None \<Rightarrow> None | Some e \<Rightarrow> if live (f e) then Some (f e) else None) = Some x
      \<longleftrightarrow> (\<exists>e. entry_of t m = Some e \<and> live (f e) \<and> x = f e)"
      by (auto split: option.split)
    have es: "dt_dynamicTable ?t = map f ?es" by simp
    have l: "entry_of ?t m = Some x \<longleftrightarrow>
        (\<exists>i < length (map f ?es). map f ?es ! i = x \<and> live x \<and> de_macAddress x = m)"
      using entry_of_Some [OF inv', of m x] unfolding es .
    have lr: "(\<exists>i < length (map f ?es). map f ?es ! i = x \<and> live x \<and> de_macAddress x = m) \<longleftrightarrow>
        (\<exists>i < length ?es. live (?es ! i) \<and> de_macAddress (?es ! i) = m \<and> live (f (?es ! i)) \<and> x = f (?es ! i))"
      using keep(2) keep(3) [OF ei] by (intro ex_cong1) auto
    have r: "(\<exists>e. entry_of t m = Some e \<and> live (f e) \<and> x = f e) \<longleftrightarrow>
        (\<exists>i < length ?es. live (?es ! i) \<and> de_macAddress (?es ! i) = m \<and> live (f (?es ! i)) \<and> x = f (?es ! i))"
      unfolding entry_of_Some [OF inv] by blast
    show ?thesis by (rule trans [OF l trans [OF lr trans [OF r [symmetric] c [symmetric]]]])
  qed
  then show "entry_of ?t m = (case entry_of t m of
      None \<Rightarrow> None | Some e \<Rightarrow> if live (f e) then Some (f e) else None)"
    by (rule option_eqI)
qed

lemma age_entry_keeps:
  "entry_inv e \<Longrightarrow> entry_inv (age_entry e)" "de_macAddress (age_entry e) = de_macAddress e"
  "entry_inv e \<Longrightarrow> live (age_entry e) \<Longrightarrow> live e"
  by (auto simp: age_entry_def entry_inv_def live_def ADIN2111_DYNAMIC_TABLE_MAX_AGE_def word_le_nat_alt
      word_less_nat_alt unat_sub_if_size word_unat_eq_iff split: if_splits)

lemma tick_effect:
  assumes "table_inv t"
  shows "table_inv (adin2111_AgeTick t)"
    and "entry_of (adin2111_AgeTick t) m = (case entry_of t m of None \<Rightarrow> None
      | Some e \<Rightarrow> if live (age_entry e) then Some (age_entry e) else None)"
  unfolding adin2111_AgeTick_def by (rule map_effect [OF assms age_entry_keeps], assumption+)+

lemma clear_keeps:
  "entry_inv e \<Longrightarrow> entry_inv (e\<lparr>de_age := 0, de_refresh := False\<rparr>)"
  "de_macAddress (e\<lparr>de_age := 0, de_refresh := False\<rparr>) = de_macAddress e"
  "entry_inv e \<Longrightarrow> live (e\<lparr>de_age := 0, de_refresh := False\<rparr>) \<Longrightarrow> live e"
  by (auto simp: entry_inv_def live_def)

lemma clear_effect:
  assumes "table_inv t"
  shows "table_inv (adin2111_ClearDynamicTable t)" and "entry_of (adin2111_ClearDynamicTable t) m = None"
proof -
  note eff = map_effect [OF assms clear_keeps]
  show "table_inv (adin2111_ClearDynamicTable t)"
    unfolding adin2111_ClearDynamicTable_def by (rule eff) assumption+
  show "entry_of (adin2111_ClearDynamicTable t) m = None"
    unfolding adin2111_ClearDynamicTable_def by (subst eff) (auto simp: live_def split: option.split)
qed

section \<open>Histories\<close>

datatype dt_op = Learn nat "u8 list" | AgeTick | ClearTable

fun dt_step :: "dyn_table \<Rightarrow> dt_op \<Rightarrow> dyn_table" where
  "dt_step t (Learn p m) = dynamicTableLearn p m t"
| "dt_step t AgeTick = adin2111_AgeTick t"
| "dt_step t ClearTable = adin2111_ClearDynamicTable t"

definition dt_run :: "dyn_table \<Rightarrow> dt_op list \<Rightarrow> dyn_table" where
  "dt_run t ops = foldl dt_step t ops"

fun op_address :: "dt_op \<Rightarrow> u8 list option" where
  "op_address (Learn p m) = Some m" | "op_address _ = None"

definition addresses :: "dt_op list \<Rightarrow> u8 list set" where
  "addresses ops = {m. \<exists>op \<in> set ops. op_address op = Some m}"

text \<open>The port an address was last heard on since the table was cleared, and how many ticks ago.\<close>

fun heard :: "u8 list \<Rightarrow> (nat \<times> nat) option \<Rightarrow> dt_op \<Rightarrow> (nat \<times> nat) option" where
  "heard m h (Learn p m') = (if m' = m then Some (p, 0) else h)"
| "heard m h AgeTick = map_option (\<lambda>(p, n). (p, Suc n)) h"
| "heard m h ClearTable = None"

definition last_heard :: "u8 list \<Rightarrow> dt_op list \<Rightarrow> (nat \<times> nat) option" where
  "last_heard m ops = foldl (heard m) None ops"

text \<open>
  How an entry follows the history: a renewal takes effect at the next tick, so that an entry
  lives for 16 or 17 ticks of silence.
\<close>

definition tracks :: "(nat \<times> nat) option \<Rightarrow> adin2111_DynamicTableEntry_t option \<Rightarrow> bool" where
  "tracks h eo \<longleftrightarrow> (case h of None \<Rightarrow> eo = None
     | Some (p, n) \<Rightarrow> (case eo of None \<Rightarrow> 16 \<le> n
        | Some e \<Rightarrow> de_fromPort e = p \<and> live e \<and>
            (if de_refresh e then n = 0 else unat (de_age e) + n \<in> {16, 17})))"

lemma tracks_lookup:
  assumes "tracks (Some (p, n)) eo"
  shows "n < 16 \<Longrightarrow> \<exists>e. eo = Some e \<and> de_fromPort e = p" and "16 < n \<Longrightarrow> eo = None"
proof -
  have "live e \<Longrightarrow> 0 < unat (de_age e)" for e by (simp add: live_def unat_gt_0)
  then show "16 < n \<Longrightarrow> eo = None"
    using assms by (cases eo) (fastforce simp: tracks_def split: if_splits)+
  show "n < 16 \<Longrightarrow> \<exists>e. eo = Some e \<and> de_fromPort e = p"
    using assms by (cases eo) (auto simp: tracks_def)
qed

lemma tracks_answer:
  assumes "tracks h eo"
  shows "case h of None \<Rightarrow> entry_port eo = ADIN2111_TX_PORT_FLOOD
    | Some (p, n) \<Rightarrow> (n < 16 \<longrightarrow> entry_port eo = p) \<and> (16 < n \<longrightarrow> entry_port eo = ADIN2111_TX_PORT_FLOOD)"
proof (cases h)
  case (Some a)
  obtain p n where "a = (p, n)" by (cases a)
  with assms Some tracks_lookup [of p n eo] show ?thesis by (auto simp: entry_port_def)
qed (use assms in \<open>simp add: tracks_def entry_port_def\<close>)

lemma tracks_tick:
  assumes "tracks h eo" and "\<And>e. eo = Some e \<Longrightarrow> entry_inv e"
  shows "tracks (heard m h AgeTick) (case eo of None \<Rightarrow> None
    | Some e \<Rightarrow> if live (age_entry e) then Some (age_entry e) else None)"
proof (cases eo)
  case (Some e)
  have "de_age e \<noteq> 0 \<Longrightarrow> unat (de_age e - 1) = unat (de_age e) - 1"
    by (metis unat_minus_one)
  moreover have "de_age e \<noteq> 0 \<Longrightarrow> 0 < de_age e" by (simp add: word_neq_0_conv)
  ultimately show ?thesis
    using assms Some
    by (auto simp: tracks_def age_entry_def live_def ADIN2111_DYNAMIC_TABLE_MAX_AGE_def unat_eq_zero
        split: option.splits if_splits dest: arg_cong [of _ _ unat])
qed (use assms in \<open>auto simp: tracks_def split: option.splits\<close>)

lemma victim_none:
  assumes inv: "table_inv t" and sub: "\<And>m. entry_of t m \<noteq> None \<Longrightarrow> m \<in> S"
    and S: "finite S" "card S \<le> ADIN2111_DYNAMIC_TABLE_SIZE" "m \<in> S"
  shows "victim t m = None"
proof (rule ccontr)
  let ?es = "dt_dynamicTable t" and ?I = "{..<ADIN2111_DYNAMIC_TABLE_SIZE}"
  assume "victim t m \<noteq> None"
  then have none: "entry_of t m = None" and all: "\<forall>e \<in> set ?es. live e"
    by (auto simp: victim_def split: if_splits)
  have len: "length ?es = ADIN2111_DYNAMIC_TABLE_SIZE" using inv by (simp add: table_inv_def)
  have "inj_on (\<lambda>i. de_macAddress (?es ! i)) ?I"
    using inv all len by (auto simp: inj_on_def table_inv_def unique_live_def)
  moreover have "(\<lambda>i. de_macAddress (?es ! i)) ` ?I \<subseteq> S - {m}"
    using sub entry_of_SomeI [OF inv] all len none by fastforce
  ultimately have "card ?I \<le> card (S - {m})"
    using S(1) by (metis card_image card_mono finite_Diff)
  with S show False by (simp add: ADIN2111_DYNAMIC_TABLE_SIZE_def card_Diff_singleton)
qed

lemma entry_of_inv: "table_inv t \<Longrightarrow> entry_of t m = Some e \<Longrightarrow> entry_inv e"
  using entry_of_SomeD [of t m e] by (auto simp: table_inv_def)

lemma dt_run_tracks:
  assumes "table_inv t" "\<And>m. entry_of t m = None"
    and "\<forall>m \<in> addresses ops. length m = 6" "card (addresses ops) \<le> ADIN2111_DYNAMIC_TABLE_SIZE"
  shows "table_inv (dt_run t ops) \<and> (\<forall>m. entry_of (dt_run t ops) m \<noteq> None \<longrightarrow> m \<in> addresses ops) \<and>
    (\<forall>m. tracks (last_heard m ops) (entry_of (dt_run t ops) m))"
  using assms(3,4)
proof (induction ops rule: rev_induct)
  case Nil
  then show ?case using assms(1,2) by (simp add: dt_run_def last_heard_def tracks_def)
next
  case (snoc op ops)
  have sub: "addresses ops \<subseteq> addresses (ops @ [op])" by (auto simp: addresses_def)
  have fin: "finite (addresses (ops @ [op]))"
  proof -
    have "Some ` addresses (ops @ [op]) \<subseteq> op_address ` set (ops @ [op])"
      unfolding addresses_def by (clarsimp simp del: set_append) (metis imageI)
    then have "finite (Some ` addresses (ops @ [op]))" by (rule finite_subset) simp
    then show ?thesis by (rule finite_imageD) simp
  qed
  have "card (addresses ops) \<le> ADIN2111_DYNAMIC_TABLE_SIZE"
    using card_mono [OF fin sub] snoc.prems(2) by simp
  with snoc.IH snoc.prems(1) sub have inv: "table_inv (dt_run t ops)"
    and known: "\<And>m. entry_of (dt_run t ops) m \<noteq> None \<Longrightarrow> m \<in> addresses (ops @ [op])"
    and tr: "\<And>m. tracks (last_heard m ops) (entry_of (dt_run t ops) m)"
    by blast+
  have step: "dt_run t (ops @ [x]) = dt_step (dt_run t ops) x"
    "last_heard m (ops @ [x]) = heard m (last_heard m ops) x" for m x
    by (simp_all add: dt_run_def last_heard_def)
  show ?case
  proof (cases op)
    case (Learn p m')
    then have m': "m' \<in> addresses (ops @ [op])" "length m' = 6" using snoc.prems(1) by (auto simp: addresses_def)
    have v: "victim (dt_run t ops) m' = None"
      by (rule victim_none [OF inv known fin snoc.prems(2) m'(1)])
    note eff = learn_effect [OF inv m'(2), of p]
    have "tracks (heard m (last_heard m ops) op) (entry_of (dynamicTableLearn p m' (dt_run t ops)) m)" for m
      using tr [of m] Learn v
      by (auto simp: eff tracks_def ADIN2111_DYNAMIC_TABLE_MAX_AGE_def live_def split: option.splits if_splits)
    then show ?thesis using eff v known m' by (auto simp: step Learn)
  next
    case AgeTick
    note eff = tick_effect [OF inv]
    have "tracks (heard m (last_heard m ops) op) (entry_of (adin2111_AgeTick (dt_run t ops)) m)" for m
      unfolding eff AgeTick using tr entry_of_inv [OF inv] by (rule tracks_tick)
    then show ?thesis using eff known by (auto simp: step AgeTick split: option.splits if_splits)
  next
    case ClearTable
    note eff = clear_effect [OF inv]
    show ?thesis using eff by (auto simp: step ClearTable tracks_def)
  qed
qed

section \<open>Properties\<close>

text \<open>
  C14: \<open>dynamicTableLearn\<close> keeps the invariant of the table (one valid entry per address, ages and
  replacement index in range), makes \<open>dynamicTableLookup\<close> answer the port the address was heard
  on, and changes the answer for no other address, except that a new address in a full table
  takes the place of the entry whose turn it is, which floods from then on.
\<close>

theorem learn_updates_one_address:
  assumes "table_inv t" and "length m = 6" and "length m' = 6"
  shows "table_inv (dynamicTableLearn p m t) \<and>
    dynamicTableLookup (dynamicTableLearn p m t) m' =
      (if m' = m then p else if victim t m = Some m' then ADIN2111_TX_PORT_FLOOD
       else dynamicTableLookup t m')"
  using learn_effect [OF assms(1,2), of p] assms
  by (auto simp: dynamicTableLookup_entry entry_port_def split: option.split)

text \<open>A full table of addresses 0 to 15, for the witnesses.\<close>

definition full_table :: dyn_table where
  "full_table = \<lparr>dt_dynamicTable = map (\<lambda>i. fresh_entry 0 [of_nat i, 0, 0, 0, 0, 0]) [0..<16],
     dt_dynamicTableReplaceLoc = 3\<rparr>"

lemma of_nat_u8_inject: "i < 256 \<Longrightarrow> j < 256 \<Longrightarrow> (of_nat i :: u8) = of_nat j \<longleftrightarrow> i = j"
  by (simp add: word_of_nat_eq_iff take_bit_nat_eq_self)

lemma full_table_inv: "table_inv full_table"
  by (auto simp: table_inv_def full_table_def entry_inv_fresh unique_live_def
      ADIN2111_DYNAMIC_TABLE_SIZE_def of_nat_u8_inject)

theorem learn_updates_one_address_witness:
  "dynamicTableLookup (dynamicTableLearn 1 [77, 0, 0, 0, 0, 0] full_table) [77, 0, 0, 0, 0, 0] = 1 \<and>
   dynamicTableLookup (dynamicTableLearn 1 [77, 0, 0, 0, 0, 0] full_table) [3, 0, 0, 0, 0, 0] = ADIN2111_TX_PORT_FLOOD \<and>
   dynamicTableLookup (dynamicTableLearn 1 [77, 0, 0, 0, 0, 0] full_table) [4, 0, 0, 0, 0, 0] = 0"
proof -
  have v: "victim full_table [77, 0, 0, 0, 0, 0] = Some [3, 0, 0, 0, 0, 0]" by code_simp
  have l: "dynamicTableLookup full_table [4, 0, 0, 0, 0, 0] = 0" by code_simp
  show ?thesis
    using learn_updates_one_address [OF full_table_inv, of "[77, 0, 0, 0, 0, 0]" "[77, 0, 0, 0, 0, 0]" 1]
      learn_updates_one_address [OF full_table_inv, of "[77, 0, 0, 0, 0, 0]" "[3, 0, 0, 0, 0, 0]" 1]
      learn_updates_one_address [OF full_table_inv, of "[77, 0, 0, 0, 0, 0]" "[4, 0, 0, 0, 0, 0]" 1]
    by (simp add: v l)
qed

text \<open>
  C8: the table of a switch that hears at most sixteen addresses answers the port an address was
  last heard on for at least fifteen calls of \<open>adin2111_AgeTick\<close> without a frame from it, and
  floods to it after seventeen, or when it was never heard since the table was cleared.
\<close>

theorem table_tracks_hosts:
  assumes "length (dt_dynamicTable t) = ADIN2111_DYNAMIC_TABLE_SIZE"
    and "\<forall>e \<in> set (dt_dynamicTable t). length (de_macAddress e) = 6"
    and "dt_dynamicTableReplaceLoc t < ADIN2111_DYNAMIC_TABLE_SIZE"
    and "\<forall>m \<in> addresses ops. length m = 6" and "card (addresses ops) \<le> ADIN2111_DYNAMIC_TABLE_SIZE"
    and "length m = 6"
  shows "case last_heard m ops of
      None \<Rightarrow> dynamicTableLookup (dt_run (adin2111_ClearDynamicTable t) ops) m = ADIN2111_TX_PORT_FLOOD
    | Some (p, n) \<Rightarrow>
        (n < 16 \<longrightarrow> dynamicTableLookup (dt_run (adin2111_ClearDynamicTable t) ops) m = p) \<and>
        (16 < n \<longrightarrow> dynamicTableLookup (dt_run (adin2111_ClearDynamicTable t) ops) m = ADIN2111_TX_PORT_FLOOD)"
proof -
  let ?t = "adin2111_ClearDynamicTable t"
  have inv: "table_inv ?t"
    using assms(1-3) by (auto simp: table_inv_def adin2111_ClearDynamicTable_def entry_inv_def unique_live_def live_def)
  have none: "entry_of ?t m = None" for m
    using assms(1) by (simp add: entry_of_None adin2111_ClearDynamicTable_def live_def)
  from dt_run_tracks [OF inv none assms(4,5)]
  have run: "table_inv (dt_run ?t ops)" "tracks (last_heard m ops) (entry_of (dt_run ?t ops) m)" by blast+
  show ?thesis
    using tracks_answer [OF run(2)] unfolding dynamicTableLookup_entry [OF run(1) assms(6)] .
qed

theorem table_tracks_hosts_witness:
  "dynamicTableLookup (dt_run (adin2111_ClearDynamicTable full_table)
     ([Learn 0 [1, 2, 3, 4, 5, 6], AgeTick, Learn 1 [1, 2, 3, 4, 5, 6]] @ replicate 15 AgeTick)) [1, 2, 3, 4, 5, 6] = 1 \<and>
   dynamicTableLookup (dt_run (adin2111_ClearDynamicTable full_table)
     ([Learn 0 [1, 2, 3, 4, 5, 6]] @ replicate 17 AgeTick)) [1, 2, 3, 4, 5, 6] = ADIN2111_TX_PORT_FLOOD"
proof -
  have ok: "length (dt_dynamicTable full_table) = ADIN2111_DYNAMIC_TABLE_SIZE"
    "\<forall>e \<in> set (dt_dynamicTable full_table). length (de_macAddress e) = 6"
    "dt_dynamicTableReplaceLoc full_table < ADIN2111_DYNAMIC_TABLE_SIZE"
    using full_table_inv by (auto simp: table_inv_def entry_inv_def)
  let ?m = "[1, 2, 3, 4, 5, 6] :: u8 list"
  let ?ops1 = "[Learn 0 ?m, AgeTick, Learn 1 ?m] @ replicate 15 AgeTick"
  let ?ops2 = "[Learn 0 ?m] @ replicate 17 AgeTick"
  have h: "last_heard ?m ?ops1 = Some (1, 15)" "last_heard ?m ?ops2 = Some (0, 17)"
    by code_simp+
  have ad: "addresses ?ops1 = {?m}" "addresses ?ops2 = {?m}" by (auto simp: addresses_def)
  have "\<forall>m \<in> {?m}. length m = 6" "card {?m} \<le> ADIN2111_DYNAMIC_TABLE_SIZE" "length ?m = 6"
    by (simp_all add: ADIN2111_DYNAMIC_TABLE_SIZE_def)
  with table_tracks_hosts [OF ok, of ?ops1 ?m] table_tracks_hosts [OF ok, of ?ops2 ?m]
  show ?thesis unfolding h ad option.case prod.case by linarith
qed

end
