(* ===== verification/Adin2111.thy ===== *)
theory Adin2111
  imports Mac_Config Mac_Time Phy_Diag Dyn_Table
begin

text \<open>
  The driver of the ADIN2111 switch (\<open>adin2111.c\<close>), on the MAC driver and two PHY drivers: its
  device structure, initialisation and reset, submission of frames to one port, to both or to
  the port the forwarding table names, and the entries that pass a port on to its PHY driver.
\<close>

section \<open>The device\<close>

text \<open>A port is a number, and a pin assignment the value of its enumeration.\<close>

record adin2111_dev =
  ad_phy1 :: adi_phy_Device_t
  ad_phy2 :: adi_phy_Device_t
  ad_table :: dyn_table
  ad_portEnabled1 :: bool
  ad_portEnabled2 :: bool
  ad_tsTimerPin :: u16
  ad_tsCaptPin :: u16

definition ADIN2111_PORT_1 :: nat where "ADIN2111_PORT_1 = 0"
definition ADIN2111_PORT_2 :: nat where "ADIN2111_PORT_2 = 1"
definition ADIN2111_TX_PORT_1 :: nat where "ADIN2111_TX_PORT_1 = 0"
definition ADIN2111_TX_PORT_2 :: nat where "ADIN2111_TX_PORT_2 = 1"
definition ADIN2111_TX_PORT_AUTO :: nat where "ADIN2111_TX_PORT_AUTO = 2"
definition ADIN2111_PHY_POWERUP_MAX_RETRIES :: nat where "ADIN2111_PHY_POWERUP_MAX_RETRIES = 200"

lemmas adin_ports = ADIN2111_PORT_1_def ADIN2111_PORT_2_def ADIN2111_TX_PORT_1_def
  ADIN2111_TX_PORT_2_def ADIN2111_TX_PORT_AUTO_def ADIN2111_TX_PORT_FLOOD_def

type_synonym ('e, 'a) adin_io = "(adin2111_dev \<times> mac_state \<times> 'e, 'a) io"

text \<open>\<open>cbRx\<close>, the callback registered for the frames received, under a number of its own.\<close>

definition CB_RX :: nat where "CB_RX = 0"

definition cbRx :: "adi_eth_BufDesc_t \<Rightarrow> dyn_table \<Rightarrow> dyn_table option" where
  "cbRx pBufDesc t = do {
     source \<leftarrow> mem_read (bd_pBuf pBufDesc) 6 6;
     Some (dynamicTableLearn (bd_port pBufDesc) source t)
   }"

text \<open>
  The MAC driver records the calls it makes.  The forwarding table is read between calls of
  the MAC driver only, so \<open>cbRx\<close> runs here when one returns, for the frames it received.
\<close>

fun learn_events :: "mac_event list \<Rightarrow> dyn_table \<Rightarrow> dyn_table option" where
  "learn_events [] t = Some t"
| "learn_events (EvDynTblUpdate cb Event d pBufDesc # evs) t = do {
     t \<leftarrow> (if cb = CB_RX then cbRx pBufDesc t else Some t);
     learn_events evs t
   }"
| "learn_events (_ # evs) t = learn_events evs t"

definition absorb :: "nat \<Rightarrow> adin2111_dev \<Rightarrow> mac_state \<Rightarrow> adin2111_dev option" where
  "absorb n a s = do {
     t \<leftarrow> learn_events (drop n (s_events s)) (ad_table a);
     Some (a\<lparr>ad_table := t\<rparr>)
   }"

definition on_mac :: "('e, 'a) mac_io \<Rightarrow> ('e, 'a) adin_io" where
  "on_mac m = (\<lambda>(a, s, e). do {
     (r, s', e) \<leftarrow> m (s, e);
     a \<leftarrow> absorb (length (s_events s)) a s';
     Some (r, a, s', e)
   })"

definition phy_of :: "nat \<Rightarrow> adin2111_dev \<Rightarrow> adi_phy_Device_t option" where
  "phy_of port a = (if port = ADIN2111_PORT_1 then Some (ad_phy1 a)
     else if port = ADIN2111_PORT_2 then Some (ad_phy2 a) else None)"

definition set_phy :: "nat \<Rightarrow> adi_phy_Device_t \<Rightarrow> adin2111_dev \<Rightarrow> adin2111_dev" where
  "set_phy port d a = (if port = ADIN2111_PORT_1 then a\<lparr>ad_phy1 := d\<rparr> else a\<lparr>ad_phy2 := d\<rparr>)"

text \<open>\<open>PhyRead\<close> and \<open>PhyWrite\<close>, the functions the PHY drivers are given.\<close>

definition PhyRead ::
  "'e adi_hal \<Rightarrow> u8 \<Rightarrow> u32 \<Rightarrow> u16 \<Rightarrow> mac_state \<times> 'e \<Rightarrow> ((adi_eth_Result_e \<times> u16) \<times> mac_state \<times> 'e) option" where
  "PhyRead h hwAddr regAddr old w = do {
     (r, w) \<leftarrow> MAC_PhyRead_into h hwAddr regAddr old w;
     Some (case r of Inl err \<Rightarrow> (err, old) | Inr x \<Rightarrow> x, w)
   }"

definition PhyWrite ::
  "'e adi_hal \<Rightarrow> u8 \<Rightarrow> u32 \<Rightarrow> u16 \<Rightarrow> mac_state \<times> 'e \<Rightarrow> (adi_eth_Result_e \<times> mac_state \<times> 'e) option" where
  "PhyWrite h hwAddr regAddr data w = do {
     (r, w) \<leftarrow> MAC_PhyWrite h hwAddr regAddr data w;
     Some (case r of Inl err \<Rightarrow> err | Inr _ \<Rightarrow> ADI_ETH_SUCCESS, w)
   }"

definition mac_bus :: "'e adi_hal \<Rightarrow> (mac_state \<times> 'e) phy_bus" where
  "mac_bus h = \<lparr>pb_readFn = PhyRead h, pb_writeFn = PhyWrite h,
     pb_getIrq = (\<lambda>(s, e). s_irqEnabled s), pb_setIrq = (\<lambda>b (s, e). (s\<lparr>s_irqEnabled := b\<rparr>, e)),
     pb_registerCallback = (\<lambda>w. w)\<rparr>"

definition on_phy :: "nat \<Rightarrow> (mac_state \<times> 'e, 'a) phy_io \<Rightarrow> ('e, 'a) adin_io" where
  "on_phy port m = (\<lambda>(a, s, e). do {
     d \<leftarrow> phy_of port a;
     (r, d, s', e) \<leftarrow> m (d, s, e);
     a \<leftarrow> absorb (length (s_events s)) a s';
     Some (r, set_phy port d a, s', e)
   })"

definition ad_upd :: "(adin2111_dev \<Rightarrow> adin2111_dev) \<Rightarrow> ('e, unit) adin_io" where
  "ad_upd f = mupd (\<lambda>(a, w). (f a, w))"

definition ad_get :: "(adin2111_dev \<Rightarrow> 'a) \<Rightarrow> ('e, 'a) adin_io" where
  "ad_get f = mget (\<lambda>(a, w). f a)"

text \<open>\<open>if ((port != ADIN2111_PORT_1) && (port != ADIN2111_PORT_2)) result = ADI_ETH_INVALID_PORT;\<close>\<close>

definition with_port :: "nat \<Rightarrow> ('e, 'a) adin_io \<Rightarrow> ('e, 'a) adin_io" where
  "with_port port m = (if port \<noteq> ADIN2111_PORT_1 \<and> port \<noteq> ADIN2111_PORT_2
     then mfail ADI_ETH_INVALID_PORT else m)"

section \<open>Registers\<close>

definition adin2111_WriteRegister :: "'e adi_hal \<Rightarrow> u32 \<Rightarrow> u32 \<Rightarrow> ('e, unit) adin_io" where
  "adin2111_WriteRegister h regAddr regData = on_mac (MAC_WriteRegister h (U16 regAddr) regData)"

definition adin2111_ReadRegister :: "'e adi_hal \<Rightarrow> u32 \<Rightarrow> ('e, u32) adin_io" where
  "adin2111_ReadRegister h regAddr = on_mac (MAC_ReadRegister h (U16 regAddr))"

definition port_addr :: "nat \<Rightarrow> adin2111_dev \<Rightarrow> u8" where
  "port_addr port a = ucast (ph_phyAddr (if port = ADIN2111_PORT_1 then ad_phy1 a else ad_phy2 a))"

definition adin2111_PhyWrite :: "'e adi_hal \<Rightarrow> nat \<Rightarrow> u32 \<Rightarrow> u16 \<Rightarrow> ('e, unit) adin_io" where
  "adin2111_PhyWrite h port regAddr regData = with_port port (
     mbind (ad_get (port_addr port)) (\<lambda>hwAddr. on_mac (MAC_PhyWrite h hwAddr regAddr regData)))"

definition adin2111_PhyRead :: "'e adi_hal \<Rightarrow> nat \<Rightarrow> u32 \<Rightarrow> ('e, u16) adin_io" where
  "adin2111_PhyRead h port regAddr = with_port port (
     mbind (ad_get (port_addr port)) (\<lambda>hwAddr. on_mac (MAC_PhyRead h hwAddr regAddr)))"

section \<open>Initialisation\<close>

text \<open>An assignment out of range is rejected; the enumerations start at 1 and end at 3.\<close>

definition ts_pin_bits :: "u16 \<Rightarrow> u16 \<Rightarrow> u16 \<Rightarrow> u16" where
  "ts_pin_bits tsTimerPin tsCaptPin val =
     (let msk = ucast BITM_DIGIO_PINMUX_DIGIO_TSTIMER_PINMUX OR ucast BITM_DIGIO_PINMUX_DIGIO_TSCAPT_PINMUX
      in (val AND NOT msk) OR
         ((push_bit BITP_DIGIO_PINMUX_DIGIO_TSTIMER_PINMUX tsTimerPin OR
           push_bit BITP_DIGIO_PINMUX_DIGIO_TSCAPT_PINMUX tsCaptPin) AND msk))"

definition configureTsPins :: "'e adi_hal \<Rightarrow> ('e, unit) adin_io" where
  "configureTsPins h =
     mbind (ad_get (\<lambda>a. (ad_tsTimerPin a, ad_tsCaptPin a))) (\<lambda>(tsTimerPin, tsCaptPin).
     if tsTimerPin < 1 \<or> 3 < tsTimerPin \<or> tsCaptPin < 1 \<or> 3 < tsCaptPin
     then mfail ADI_ETH_INVALID_PARAM
     else
     mbind (adin2111_PhyRead h ADIN2111_PORT_1 ADDR_DIGIO_PINMUX) (\<lambda>val.
     adin2111_PhyWrite h ADIN2111_PORT_1 ADDR_DIGIO_PINMUX (ts_pin_bits tsTimerPin tsCaptPin val)))"

text \<open>
  The loop that waits for the PHY of port 2, with the number of reads left.  A value read by
  the last attempt still counts as a failure.
\<close>

fun phy2_powerup :: "'e adi_hal \<Rightarrow> nat \<Rightarrow> ('e, unit) mac_io" where
  "phy2_powerup h 0 = mfail ADI_ETH_COMM_ERROR"
| "phy2_powerup h (Suc n) =
     mcatch (MAC_PhyRead h 2 ADDR_CRSM_IRQ_MASK) (\<lambda>_. phy2_powerup h n)
       (\<lambda>phyRegData. if phyRegData = 0 then phy2_powerup h n
                     else if n = 0 then mfail ADI_ETH_COMM_ERROR else mret ())"

text \<open>The sizes of the structures and of the memory set aside for them.\<close>

record device_sizes =
  sz_ADIN2111_DEVICE_SIZE :: nat
  sz_ADI_MAC_DEVICE_SIZE :: nat
  sz_ADI_PHY_DEVICE_SIZE :: nat
  sz_mac :: nat
  sz_phy :: nat

definition unmask_irq :: "'e adi_hal \<Rightarrow> ('e, unit) adin_io" where
  "unmask_irq h =
     mbind (on_mac (mupd_s (\<lambda>s. s\<lparr>m_irqMask0 := m_irqMask0 s AND NOT BITM_MAC_IMASK0_PHYINTM\<rparr>))) (\<lambda>_.
     mbind (on_mac (mget_s m_irqMask0)) (\<lambda>irqMask0.
     mbind (adin2111_WriteRegister h ADDR_MAC_IMASK0 irqMask0) (\<lambda>_.
     mbind (on_mac (mupd_s (\<lambda>s. s\<lparr>m_irqMask1 := m_irqMask1 s AND NOT BITM_MAC_IMASK1_P2_PHYINT_MASK\<rparr>))) (\<lambda>_.
     mbind (on_mac (mget_s m_irqMask1)) (\<lambda>irqMask1.
     adin2111_WriteRegister h ADDR_MAC_IMASK1 irqMask1)))))"

definition adin2111_Init :: "'e adi_hal \<Rightarrow> device_sizes \<Rightarrow> nat \<Rightarrow> bool \<Rightarrow> u16 \<Rightarrow> u16 \<Rightarrow> ('e, unit) adin_io" where
  "adin2111_Init h sz devMemSize fcsCheckEn tsTimerPin tsCaptPin =
     (if devMemSize < sz_ADIN2111_DEVICE_SIZE sz then mfail ADI_ETH_INVALID_PARAM
      else
      mbind (ad_upd (\<lambda>a. a\<lparr>ad_tsTimerPin := tsTimerPin, ad_tsCaptPin := tsCaptPin\<rparr>)) (\<lambda>_.
      mbind (on_mac (MAC_Init h (sz_mac sz) (sz_ADI_MAC_DEVICE_SIZE sz) fcsCheckEn)) (\<lambda>_.
      mbind (on_mac (MAC_RegisterCallback h (Some CB_RX) ADI_MAC_EVT_DYN_TBL_UPDATE 0)) (\<lambda>_.
      mbind (ad_upd (\<lambda>a. a\<lparr>ad_table := (adin2111_ClearDynamicTable (ad_table a))
                             \<lparr>dt_dynamicTableReplaceLoc := 0\<rparr>,
                           ad_portEnabled1 := False, ad_portEnabled2 := False\<rparr>)) (\<lambda>_.
      mbind (adin2111_ReadRegister h ADDR_MAC_CONFIG2) (\<lambda>macConfig2.
      mbind (adin2111_WriteRegister h ADDR_MAC_CONFIG2
        ((macConfig2 OR BITM_MAC_CONFIG2_P1_FWD_UNK2HOST OR BITM_MAC_CONFIG2_P2_FWD_UNK2HOST)
          AND NOT BITM_MAC_CONFIG2_PORT_CUT_THRU_EN)) (\<lambda>_.
      mbind (on_mac (phy2_powerup h ADIN2111_PHY_POWERUP_MAX_RETRIES)) (\<lambda>_.
      mbind (on_phy ADIN2111_PORT_1 (PHY_Init (mac_bus h) (sz_phy sz) (sz_ADI_PHY_DEVICE_SIZE sz) 1 False)) (\<lambda>_.
      mbind (on_phy ADIN2111_PORT_2 (PHY_Init (mac_bus h) (sz_phy sz) (sz_ADI_PHY_DEVICE_SIZE sz) 2 False)) (\<lambda>_.
      mbind (unmask_irq h) (\<lambda>_.
      mbind (on_mac (mupd_s (\<lambda>s. s\<lparr>m_phyIrqMask :=
        ADI_PHY_CRSM_HW_ERROR OR BITM_CRSM_IRQ_MASK_CRSM_HRD_RST_IRQ_EN\<rparr>))) (\<lambda>_.
      mcatch (configureTsPins h) (\<lambda>_. mret ()) mret))))))))))))"

text \<open>The device is not used after it: the pointers it clears are not modelled.\<close>

definition adin2111_UnInit :: "'e adi_hal \<Rightarrow> ('e, unit) adin_io" where
  "adin2111_UnInit h =
     mbind (on_phy ADIN2111_PORT_1 (PHY_UnInit (mac_bus h))) (\<lambda>_.
     mbind (on_phy ADIN2111_PORT_2 (PHY_UnInit (mac_bus h))) (\<lambda>_.
     on_mac MAC_UnInit))"

definition set_enabled :: "nat \<Rightarrow> bool \<Rightarrow> adin2111_dev \<Rightarrow> adin2111_dev" where
  "set_enabled port b a = (if port = ADIN2111_PORT_1 then a\<lparr>ad_portEnabled1 := b\<rparr>
     else a\<lparr>ad_portEnabled2 := b\<rparr>)"

definition adin2111_EnablePort :: "'e adi_hal \<Rightarrow> nat \<Rightarrow> ('e, unit) adin_io" where
  "adin2111_EnablePort h port =
     mbind (on_phy port (PHY_ExitSoftwarePowerdown (mac_bus h))) (\<lambda>_. ad_upd (set_enabled port True))"

definition adin2111_Enable :: "'e adi_hal \<Rightarrow> ('e, unit) adin_io" where
  "adin2111_Enable h = mbind (adin2111_EnablePort h ADIN2111_PORT_1) (\<lambda>_. adin2111_EnablePort h ADIN2111_PORT_2)"

definition adin2111_DisablePort :: "'e adi_hal \<Rightarrow> nat \<Rightarrow> ('e, unit) adin_io" where
  "adin2111_DisablePort h port =
     mbind (on_phy port (PHY_EnterSoftwarePowerdown (mac_bus h))) (\<lambda>_. ad_upd (set_enabled port False))"

definition adin2111_Disable :: "'e adi_hal \<Rightarrow> ('e, unit) adin_io" where
  "adin2111_Disable h = mbind (adin2111_DisablePort h ADIN2111_PORT_1) (\<lambda>_. adin2111_DisablePort h ADIN2111_PORT_2)"

record adin2111_DeviceId_t =
  id_phyId :: u32
  id_digRevNum :: u16
  id_pkgType :: u8

definition adin2111_GetDeviceId :: "'e adi_hal \<Rightarrow> ('e, adin2111_DeviceId_t) adin_io" where
  "adin2111_GetDeviceId h =
     mbind (adin2111_PhyRead h ADIN2111_PORT_1 ADDR_MMD1_DEV_ID1) (\<lambda>id1.
     mbind (adin2111_PhyRead h ADIN2111_PORT_1 ADDR_MMD1_DEV_ID2) (\<lambda>id2.
     mbind (adin2111_PhyRead h ADIN2111_PORT_1 ADDR_MGMT_PRT_PKG) (\<lambda>pkg.
     mbind (adin2111_PhyRead h ADIN2111_PORT_1 0x1E900E) (\<lambda>rev.
     mret \<lparr>id_phyId = push_bit 16 (ucast id1) OR ucast id2, id_digRevNum = rev AND 0xFF,
       id_pkgType = ucast pkg\<rparr>))))"

definition adin2111_Reset :: "'e adi_hal \<Rightarrow> adi_eth_ResetType_e \<Rightarrow> ('e, unit) adin_io" where
  "adin2111_Reset h resetType = (case resetType of
       ADI_ETH_RESET_TYPE_MAC_ONLY \<Rightarrow> on_mac (MAC_Reset h ADI_ETH_RESET_TYPE_MAC_ONLY)
     | ADI_ETH_RESET_TYPE_MAC_PHY \<Rightarrow>
         mbind (on_phy ADIN2111_PORT_1 (PHY_Reset (mac_bus h) ADI_PHY_RESET_TYPE_SW)) (\<lambda>_.
         mbind (on_phy ADIN2111_PORT_2 (PHY_Reset (mac_bus h) ADI_PHY_RESET_TYPE_SW)) (\<lambda>_.
         mbind (on_mac (MAC_Reset h ADI_ETH_RESET_TYPE_MAC_ONLY)) (\<lambda>_.
         mbind (on_phy ADIN2111_PORT_1 (PHY_ReInitPhy (mac_bus h))) (\<lambda>_.
         mbind (on_phy ADIN2111_PORT_2 (PHY_ReInitPhy (mac_bus h))) (\<lambda>_.
         configureTsPins h))))))"

definition adin2111_SyncConfig :: "'e adi_hal \<Rightarrow> ('e, unit) adin_io" where
  "adin2111_SyncConfig h = on_mac (MAC_SyncConfig h)"

definition enable_link_irq :: "'e adi_hal \<Rightarrow> nat \<Rightarrow> ('e, unit) adin_io" where
  "enable_link_irq h port =
     mbind (adin2111_PhyRead h port ADDR_PHY_SUBSYS_IRQ_MASK) (\<lambda>val16.
     adin2111_PhyWrite h port ADDR_PHY_SUBSYS_IRQ_MASK
       (val16 OR ucast BITM_PHY_SUBSYS_IRQ_MASK_LINK_STAT_CHNG_IRQ_EN))"

definition adin2111_RegisterCallback ::
  "'e adi_hal \<Rightarrow> nat option \<Rightarrow> adi_mac_InterruptEvt_e \<Rightarrow> ('e, unit) adin_io" where
  "adin2111_RegisterCallback h cbFunc cbEvent =
     mbind (mwhen (cbEvent = ADI_MAC_EVT_LINK_CHANGE) (
       mbind (enable_link_irq h ADIN2111_PORT_1) (\<lambda>_.
       mbind (enable_link_irq h ADIN2111_PORT_2) (\<lambda>_.
       on_mac (mupd_s (\<lambda>s. s\<lparr>m_phyIrqMask := m_phyIrqMask s OR
         push_bit 16 BITM_PHY_SUBSYS_IRQ_MASK_LINK_STAT_CHNG_IRQ_EN\<rparr>)))))) (\<lambda>_.
     on_mac (MAC_RegisterCallback h cbFunc cbEvent 0))"

section \<open>Frames\<close>

text \<open>The header word: \<open>PORT\<close> in bit 0 and \<open>EGRESS_CAPTURE\<close> in bits 6 and 7.\<close>

definition frame_header :: "2 word \<Rightarrow> nat \<Rightarrow> u16" where
  "frame_header egressCapt port = push_bit 6 (ucast egressCapt) OR of_nat (port mod 2)"

text \<open>One submission of the descriptor \<open>d\<close> to \<open>port\<close>.\<close>

definition submit_port :: "'e adi_hal \<Rightarrow> nat \<Rightarrow> nat \<Rightarrow> ('e, unit) adin_io" where
  "submit_port h d port =
     mbind (on_mac (mupd_s (upd_desc d (\<lambda>b. b\<lparr>bd_port := port\<rparr>)))) (\<lambda>_.
     mbind (on_mac (mget_s (\<lambda>s. bd_egressCapt (s_bufs s d)))) (\<lambda>egressCapt.
     on_mac (MAC_SubmitTxBuffer h (frame_header egressCapt port) (Some d))))"

text \<open>The port of a frame: the one specified, or that of its destination address.\<close>

definition tx_port :: "nat \<Rightarrow> nat \<Rightarrow> dyn_table \<Rightarrow> mac_state \<Rightarrow> nat option" where
  "tx_port port d t s =
     (if port = ADIN2111_TX_PORT_1 \<or> port = ADIN2111_TX_PORT_2 then Some port
      else do {
        dest \<leftarrow> mem_read (bd_pBuf (s_bufs s d)) 0 6;
        Some (if dest ! 0 AND 1 \<noteq> 0 then ADIN2111_TX_PORT_FLOOD else dynamicTableLookup t dest)
      })"

definition submit_flood :: "'e adi_hal \<Rightarrow> nat \<Rightarrow> ('e, unit) adin_io" where
  "submit_flood h d =
     mbind (on_mac (mget_s (\<lambda>s. queueAvailable (m_txQueue s)))) (\<lambda>available.
     if available < 2 then mfail ADI_ETH_QUEUE_FULL
     else
     mbind (ad_get (\<lambda>a. (ad_portEnabled1 a, ad_portEnabled2 a))) (\<lambda>(enabled1, enabled2).
     mbind (mwhen (enabled1 \<and> enabled2) (on_mac (mupd_s (upd_desc d (\<lambda>b. b\<lparr>bd_refCount := 2\<rparr>))))) (\<lambda>_.
     mbind (mwhen enabled1 (submit_port h d ADIN2111_TX_PORT_1)) (\<lambda>_.
     mwhen enabled2 (submit_port h d ADIN2111_TX_PORT_2)))))"

text \<open>\<open>header.EGRESS_CAPTURE\<close> is read first; nothing in between changes it.\<close>

definition adin2111_SubmitTxBuffer :: "'e adi_hal \<Rightarrow> nat \<Rightarrow> nat \<Rightarrow> ('e, unit) adin_io" where
  "adin2111_SubmitTxBuffer h port d =
     mbind (on_mac (mupd_s (upd_desc d (\<lambda>b. b\<lparr>bd_refCount := 1\<rparr>)))) (\<lambda>_.
     mbind (mget (\<lambda>(a, s, e). tx_port port d (ad_table a) s)) (\<lambda>txPort.
     mbind (mopt txPort) (\<lambda>txPort.
     if txPort = ADIN2111_TX_PORT_FLOOD then submit_flood h d else submit_port h d txPort)))"

definition adin2111_SubmitRxBuffer :: "'e adi_hal \<Rightarrow> nat option \<Rightarrow> ('e, unit) adin_io" where
  "adin2111_SubmitRxBuffer h pBufDesc = on_mac (MAC_SubmitRxBuffer h pBufDesc)"

end
