(* ===== verification/Adin2111_Ctl.thy ===== *)
theory Adin2111_Ctl
  imports Adin2111
begin

text \<open>
  The control entries of the switch driver (\<open>adin2111.c\<close>): configuration of the MAC, timestamps,
  and the functions of a port's PHY.  Most of them check the port and pass the call on.
\<close>

section \<open>Configuration of the MAC\<close>

definition adin2111_GetLinkStatus :: "'e adi_hal \<Rightarrow> nat \<Rightarrow> ('e, adi_eth_Result_e \<times> adi_phy_LinkStatus_e) adin_io" where
  "adin2111_GetLinkStatus h port = on_phy port (PHY_GetLinkStatus (mac_bus h))"

definition adin2111_GetStatCounters :: "'e adi_hal \<Rightarrow> nat \<Rightarrow> ('e, adi_eth_MacStatCounters_t) adin_io" where
  "adin2111_GetStatCounters h port = on_mac (MAC_GetStatCounters h (of_nat port))"

definition adin2111_AddAddressFilter :: "'e adi_hal \<Rightarrow> u8 list \<Rightarrow> u8 list option \<Rightarrow> u16 \<Rightarrow> ('e, unit) adin_io" where
  "adin2111_AddAddressFilter h macAddr macAddrMask addrRule =
     on_mac (MAC_AddAddressFilter h macAddr macAddrMask addrRule)"

definition adin2111_ClearAddressFilter :: "'e adi_hal \<Rightarrow> u32 \<Rightarrow> ('e, unit) adin_io" where
  "adin2111_ClearAddressFilter h addrIndex = on_mac (MAC_ClearAddressFilter h addrIndex)"

definition adin2111_SetChunkSize :: "'e adi_hal \<Rightarrow> adi_mac_OaCps_e \<Rightarrow> ('e, unit) adin_io" where
  "adin2111_SetChunkSize h cps = on_mac (MAC_SetChunkSize h cps)"

definition adin2111_GetChunkSize :: "'e adi_hal \<Rightarrow> ('e, u32) adin_io" where
  "adin2111_GetChunkSize h = on_mac (MAC_GetChunkSize h)"

definition adin2111_SetCutThroughMode :: "'e adi_hal \<Rightarrow> bool \<Rightarrow> bool \<Rightarrow> bool \<Rightarrow> ('e, unit) adin_io" where
  "adin2111_SetCutThroughMode h txcte rxcte p2pcte =
     mbind (on_mac (MAC_SetCutThroughMode h txcte rxcte)) (\<lambda>_.
     mbind (adin2111_ReadRegister h ADDR_MAC_CONFIG2) (\<lambda>val.
     on_mac (MAC_WriteRegister h ADDR_MAC_CONFIG2
       ((val AND NOT BITM_MAC_CONFIG2_PORT_CUT_THRU_EN) OR
        bool_bit BITP_MAC_CONFIG2_PORT_CUT_THRU_EN p2pcte))))"

text \<open>Returns \<open>*pTxcte\<close>, \<open>*pRxcte\<close> and \<open>*pP2pcte\<close>.\<close>

definition adin2111_GetCutThroughMode :: "'e adi_hal \<Rightarrow> ('e, bool \<times> bool \<times> bool) adin_io" where
  "adin2111_GetCutThroughMode h =
     mbind (on_mac (MAC_GetCutThroughMode h)) (\<lambda>(txcte, rxcte).
     mbind (on_mac (MAC_ReadRegister h ADDR_MAC_CONFIG2)) (\<lambda>val.
     mret (txcte, rxcte, val AND BITM_MAC_CONFIG2_PORT_CUT_THRU_EN \<noteq> 0)))"

text \<open>FIFO sizes in units of 2 kB, the values of the enumerations.\<close>

record adi_mac_FifoSizes_t =
  htxSize :: u32
  p1RxLoSize :: u32
  p1RxHiSize :: u32
  p2RxLoSize :: u32
  p2RxHiSize :: u32
  p1TxSize :: u32
  p2TxSize :: u32

definition ADI_MAC_FIFO_MAX_SIZE :: u32 where "ADI_MAC_FIFO_MAX_SIZE = 28"

definition fifo_total :: "adi_mac_FifoSizes_t \<Rightarrow> u32" where
  "fifo_total f = 2 * htxSize f + 2 * p1RxLoSize f + 2 * p1RxHiSize f + 2 * p2RxLoSize f
     + 2 * p2RxHiSize f + 2 * p1TxSize f + 2 * p2TxSize f"

definition fifo_word :: "adi_mac_FifoSizes_t \<Rightarrow> u32" where
  "fifo_word f = push_bit BITP_MAC_FIFO_SIZE_HTX_SIZE (htxSize f)
     OR push_bit BITP_MAC_FIFO_SIZE_P1_RX_LO_SIZE (p1RxLoSize f)
     OR push_bit BITP_MAC_FIFO_SIZE_P1_RX_HI_SIZE (p1RxHiSize f)
     OR push_bit BITP_MAC_FIFO_SIZE_P2_RX_LO_SIZE (p2RxLoSize f)
     OR push_bit BITP_MAC_FIFO_SIZE_P2_RX_HI_SIZE (p2RxHiSize f)
     OR push_bit BITP_MAC_FIFO_SIZE_P1_TX_SIZE (p1TxSize f)
     OR push_bit BITP_MAC_FIFO_SIZE_P2_TX_SIZE (p2TxSize f)"

definition fifo_of_word :: "u32 \<Rightarrow> adi_mac_FifoSizes_t" where
  "fifo_of_word v =
     \<lparr>htxSize = drop_bit BITP_MAC_FIFO_SIZE_HTX_SIZE (v AND BITM_MAC_FIFO_SIZE_HTX_SIZE),
      p1RxLoSize = drop_bit BITP_MAC_FIFO_SIZE_P1_RX_LO_SIZE (v AND BITM_MAC_FIFO_SIZE_P1_RX_LO_SIZE),
      p1RxHiSize = drop_bit BITP_MAC_FIFO_SIZE_P1_RX_HI_SIZE (v AND BITM_MAC_FIFO_SIZE_P1_RX_HI_SIZE),
      p2RxLoSize = drop_bit BITP_MAC_FIFO_SIZE_P2_RX_LO_SIZE (v AND BITM_MAC_FIFO_SIZE_P2_RX_LO_SIZE),
      p2RxHiSize = drop_bit BITP_MAC_FIFO_SIZE_P2_RX_HI_SIZE (v AND BITM_MAC_FIFO_SIZE_P2_RX_HI_SIZE),
      p1TxSize = drop_bit BITP_MAC_FIFO_SIZE_P1_TX_SIZE (v AND BITM_MAC_FIFO_SIZE_P1_TX_SIZE),
      p2TxSize = drop_bit BITP_MAC_FIFO_SIZE_P2_TX_SIZE (v AND BITM_MAC_FIFO_SIZE_P2_TX_SIZE)\<rparr>"

definition adin2111_SetFifoSizes :: "'e adi_hal \<Rightarrow> adi_mac_FifoSizes_t \<Rightarrow> ('e, unit) adin_io" where
  "adin2111_SetFifoSizes h fifoSizes =
     (if fifo_total fifoSizes > ADI_MAC_FIFO_MAX_SIZE then mfail ADI_ETH_FIFO_SIZE_ERROR
      else on_mac (MAC_SetFifoSizes h (fifo_word fifoSizes)))"

definition adin2111_GetFifoSizes :: "'e adi_hal \<Rightarrow> ('e, adi_mac_FifoSizes_t) adin_io" where
  "adin2111_GetFifoSizes h =
     mbind (on_mac (MAC_GetFifoSizes h)) (\<lambda>readVal. mret (fifo_of_word readVal))"

definition adin2111_ClearFifos :: "'e adi_hal \<Rightarrow> adi_mac_FifoClrMode_e \<Rightarrow> ('e, unit) adin_io" where
  "adin2111_ClearFifos h clearMode = on_mac (MAC_ClearFifos h clearMode)"

text \<open>The fields of \<open>mode\<close> that are not assigned are masked out.\<close>

definition no_forward :: adi_mac_ForwardMode_t where
  "no_forward = \<lparr>P1_FWD_UNK_TO_HOST = False, P2_FWD_UNK_TO_HOST = False,
     P1_FWD_UNK_TO_P2 = False, P2_FWD_UNK_TO_P1 = False\<rparr>"

definition adin2111_SetPromiscuousMode :: "'e adi_hal \<Rightarrow> nat \<Rightarrow> bool \<Rightarrow> ('e, unit) adin_io" where
  "adin2111_SetPromiscuousMode h port bFlag = with_port port (
     if port = ADIN2111_PORT_1
     then on_mac (MAC_SetForwardMode h (no_forward\<lparr>P1_FWD_UNK_TO_HOST := bFlag\<rparr>)
       BITM_MAC_CONFIG2_P1_FWD_UNK2HOST)
     else on_mac (MAC_SetForwardMode h (no_forward\<lparr>P2_FWD_UNK_TO_HOST := bFlag\<rparr>)
       BITM_MAC_CONFIG2_P2_FWD_UNK2HOST))"

definition adin2111_GetPromiscuousMode :: "'e adi_hal \<Rightarrow> nat \<Rightarrow> ('e, bool) adin_io" where
  "adin2111_GetPromiscuousMode h port = with_port port (
     mbind (on_mac (MAC_GetForwardMode h)) (\<lambda>mode.
     mret (if port = ADIN2111_PORT_1 then P1_FWD_UNK_TO_HOST mode else P2_FWD_UNK_TO_HOST mode)))"

definition adin2111_SetPortForwardMode :: "'e adi_hal \<Rightarrow> nat \<Rightarrow> bool \<Rightarrow> ('e, unit) adin_io" where
  "adin2111_SetPortForwardMode h port bFlag = with_port port (
     if port = ADIN2111_PORT_1
     then on_mac (MAC_SetForwardMode h (no_forward\<lparr>P1_FWD_UNK_TO_P2 := bFlag\<rparr>)
       BITM_MAC_CONFIG2_P1_FWD_UNK2P2)
     else on_mac (MAC_SetForwardMode h (no_forward\<lparr>P2_FWD_UNK_TO_P1 := bFlag\<rparr>)
       BITM_MAC_CONFIG2_P2_FWD_UNK2P1))"

definition adin2111_GetPortForwardMode :: "'e adi_hal \<Rightarrow> nat \<Rightarrow> ('e, bool) adin_io" where
  "adin2111_GetPortForwardMode h port = with_port port (
     mbind (on_mac (MAC_GetForwardMode h)) (\<lambda>mode.
     mret (if port = ADIN2111_PORT_1 then P1_FWD_UNK_TO_P2 mode else P2_FWD_UNK_TO_P1 mode)))"

section \<open>Timestamps\<close>

definition adin2111_TsEnable :: "'e adi_hal \<Rightarrow> adi_mac_TsFormat_e \<Rightarrow> ('e, unit) adin_io" where
  "adin2111_TsEnable h format = on_mac (MAC_TsEnable h format)"

definition adin2111_TsClear :: "'e adi_hal \<Rightarrow> ('e, unit) adin_io" where
  "adin2111_TsClear h = on_mac (MAC_TsClear h)"

definition adin2111_TsTimerStart ::
  "'e adi_hal \<Rightarrow> adi_mac_TsTimerConfig_t \<Rightarrow> ('e, adi_mac_TsTimerConfig_t) adin_io" where
  "adin2111_TsTimerStart h pTimerConfig = on_mac (MAC_TsTimerStart h pTimerConfig)"

definition adin2111_TsTimerStop :: "'e adi_hal \<Rightarrow> ('e, unit) adin_io" where
  "adin2111_TsTimerStop h = on_mac (MAC_TsTimerStop h)"

definition adin2111_TsSetTimerAbsolute :: "'e adi_hal \<Rightarrow> u32 \<Rightarrow> u32 \<Rightarrow> ('e, unit) adin_io" where
  "adin2111_TsSetTimerAbsolute h seconds nanoseconds = on_mac (MAC_TsSetTimerAbsolute h seconds nanoseconds)"

definition adin2111_TsSyncClock :: "'e adi_hal \<Rightarrow> int \<Rightarrow> u64 \<Rightarrow> u64 \<Rightarrow> ('e, unit) adin_io" where
  "adin2111_TsSyncClock h tError referenceTimeNsDiff localTimeNsDiff =
     on_mac (MAC_TsSyncClock h tError referenceTimeNsDiff localTimeNsDiff)"

definition adin2111_TsGetEgressTimestamp ::
  "'e adi_hal \<Rightarrow> (u32 \<Rightarrow> adi_mac_TsTimespec_t) \<Rightarrow> adi_mac_EgressCapture_e \<Rightarrow> ('e, adi_mac_TsTimespec_t) adin_io" where
  "adin2111_TsGetEgressTimestamp h freeCnt egressReg = on_mac (MAC_TsGetEgressTimestamp h freeCnt egressReg)"

definition adin2111_TsConvert ::
  "(u32 \<Rightarrow> adi_mac_TsTimespec_t) \<Rightarrow> u32 \<Rightarrow> u32 \<Rightarrow> adi_mac_TsFormat_e \<Rightarrow> adi_eth_Result_e + adi_mac_TsTimespec_t" where
  "adin2111_TsConvert freeCnt timestampLowWord timestampHighWord format =
     MAC_TsConvert freeCnt timestampLowWord timestampHighWord format"

definition adin2111_TsSubtract :: "adi_mac_TsTimespec_t \<Rightarrow> adi_mac_TsTimespec_t \<Rightarrow> int option" where
  "adin2111_TsSubtract pTsA pTsB = MAC_TsSubtract pTsA pTsB"

section \<open>The PHY of a port\<close>

definition adin2111_LedEn :: "'e adi_hal \<Rightarrow> u16 \<Rightarrow> nat \<Rightarrow> bool \<Rightarrow> ('e, unit) adin_io" where
  "adin2111_LedEn h junk port enable =
     with_port port (on_phy port (PHY_LedEn (mac_bus h) junk ADI_PHY_LED_0 enable))"

definition adin2111_SetLoopbackMode :: "'e adi_hal \<Rightarrow> nat \<Rightarrow> adi_phy_LoopbackMode_e \<Rightarrow> ('e, unit) adin_io" where
  "adin2111_SetLoopbackMode h port loopbackMode =
     with_port port (on_phy port (PHY_SetLoopbackMode (mac_bus h) loopbackMode))"

definition adin2111_SetTestMode :: "'e adi_hal \<Rightarrow> nat \<Rightarrow> adi_phy_TestMode_e \<Rightarrow> ('e, unit) adin_io" where
  "adin2111_SetTestMode h port testMode =
     with_port port (on_phy port (PHY_SetTestMode (mac_bus h) testMode))"

definition adin2111_GetMseLinkQuality :: "'e adi_hal \<Rightarrow> nat \<Rightarrow> ('e, adi_phy_MseLinkQuality_t) adin_io" where
  "adin2111_GetMseLinkQuality h port = with_port port (on_phy port (PHY_GetMseLinkQuality (mac_bus h)))"

definition adin2111_FrameGenEn :: "'e adi_hal \<Rightarrow> nat \<Rightarrow> bool \<Rightarrow> ('e, unit) adin_io" where
  "adin2111_FrameGenEn h port enable = with_port port (on_phy port (PHY_FrameGenEn (mac_bus h) enable))"

definition adin2111_FrameGenSetMode :: "'e adi_hal \<Rightarrow> nat \<Rightarrow> adi_phy_FrameGenMode_e \<Rightarrow> ('e, unit) adin_io" where
  "adin2111_FrameGenSetMode h port mode = with_port port (on_phy port (PHY_FrameGenSetMode (mac_bus h) mode))"

definition adin2111_FrameGenSetFrameCnt :: "'e adi_hal \<Rightarrow> nat \<Rightarrow> u32 \<Rightarrow> ('e, unit) adin_io" where
  "adin2111_FrameGenSetFrameCnt h port frameCnt =
     with_port port (on_phy port (PHY_FrameGenSetFrameCnt (mac_bus h) frameCnt))"

definition adin2111_FrameGenSetFramePayload ::
  "'e adi_hal \<Rightarrow> nat \<Rightarrow> adi_phy_FrameGenPayload_e \<Rightarrow> ('e, unit) adin_io" where
  "adin2111_FrameGenSetFramePayload h port payload =
     with_port port (on_phy port (PHY_FrameGenSetFramePayload (mac_bus h) payload))"

definition adin2111_FrameGenSetFrameLen :: "'e adi_hal \<Rightarrow> nat \<Rightarrow> u16 \<Rightarrow> ('e, unit) adin_io" where
  "adin2111_FrameGenSetFrameLen h port frameLen =
     with_port port (on_phy port (PHY_FrameGenSetFrameLen (mac_bus h) frameLen))"

definition adin2111_FrameGenSetIfgLen :: "'e adi_hal \<Rightarrow> nat \<Rightarrow> u16 \<Rightarrow> ('e, unit) adin_io" where
  "adin2111_FrameGenSetIfgLen h port ifgLen =
     with_port port (on_phy port (PHY_FrameGenSetIfgLen (mac_bus h) ifgLen))"

definition adin2111_FrameGenRestart :: "'e adi_hal \<Rightarrow> nat \<Rightarrow> ('e, unit) adin_io" where
  "adin2111_FrameGenRestart h port = with_port port (on_phy port (PHY_FrameGenRestart (mac_bus h)))"

definition adin2111_FrameGenDone :: "'e adi_hal \<Rightarrow> nat \<Rightarrow> ('e, bool) adin_io" where
  "adin2111_FrameGenDone h port = with_port port (on_phy port (PHY_FrameGenDone (mac_bus h)))"

definition adin2111_FrameChkEn :: "'e adi_hal \<Rightarrow> nat \<Rightarrow> bool \<Rightarrow> ('e, unit) adin_io" where
  "adin2111_FrameChkEn h port enable = with_port port (on_phy port (PHY_FrameChkEn (mac_bus h) enable))"

definition adin2111_FrameChkSourceSelect :: "'e adi_hal \<Rightarrow> nat \<Rightarrow> adi_phy_FrameChkSource_e \<Rightarrow> ('e, unit) adin_io" where
  "adin2111_FrameChkSourceSelect h port source =
     with_port port (on_phy port (PHY_FrameChkSourceSelect (mac_bus h) source))"

definition adin2111_FrameChkReadFrameCnt :: "'e adi_hal \<Rightarrow> nat \<Rightarrow> ('e, u32) adin_io" where
  "adin2111_FrameChkReadFrameCnt h port = with_port port (on_phy port (PHY_FrameChkReadFrameCnt (mac_bus h)))"

definition adin2111_FrameChkReadRxErrCnt :: "'e adi_hal \<Rightarrow> nat \<Rightarrow> ('e, u16) adin_io" where
  "adin2111_FrameChkReadRxErrCnt h port = with_port port (on_phy port (PHY_FrameChkReadRxErrCnt (mac_bus h)))"

definition adin2111_FrameChkReadErrorCnt :: "'e adi_hal \<Rightarrow> nat \<Rightarrow> ('e, adi_phy_FrameChkErrorCounters_t) adin_io" where
  "adin2111_FrameChkReadErrorCnt h port = with_port port (on_phy port (PHY_FrameChkReadErrorCnt (mac_bus h)))"

end
