(* ===== verification/Oa_Device.thy ===== *)
theory Oa_Device
  imports Mac_Api
begin

text \<open>
  The register interface of the MAC driver over a device that answers control transactions.
  \<open>mac_call\<close> is a total-correctness triple for routines that use the driver state only as
  scratch space; the locale \<open>oa_device\<close> states what a device answers to a control
  transaction of one register, as the OPEN Alliance specification documents it, and the
  register accesses of the driver are proved to read and write its registers.
\<close>

section \<open>Triples\<close>

text \<open>
  The driver can access registers, and the fields it uses for an access, at a fixed value.
\<close>

definition can_access :: "mac_state \<Rightarrow> bool" where
  "can_access s \<longleftrightarrow> m_state s \<in> {ADI_MAC_STATE_INITIALIZED, ADI_MAC_STATE_READY} \<and>
     m_spiState s = ADI_MAC_SPI_STATE_READY \<and> length (m_ctrlTxBuf s) = 256 \<and> length (m_ctrlRxBuf s) = 256"

definition scratch :: "mac_state \<Rightarrow> mac_state" where
  "scratch s = s\<lparr>m_state := ADI_MAC_STATE_READY, m_spiState := ADI_MAC_SPI_STATE_READY, m_spiErr := False, m_pendingCtrl := False, m_wnr := 0,
     m_regAddr := 0, m_pRegData := RegNull, m_cnt := 0, m_ctrlTxBuf := [], m_ctrlRxBuf := [], s_regCell := 0\<rparr>"

text \<open>
  From every state that is \<open>t\<close> but for the scratch fields, with the device in state \<open>e\<close>, the
  routine returns \<open>r\<close>, leaving a state that is, in this sense, \<open>t'\<close> and the device in state \<open>e'\<close>.
\<close>

definition mac_call :: "('e, 'a) mac_io \<Rightarrow> mac_state \<Rightarrow> 'e \<Rightarrow> adi_eth_Result_e + 'a \<Rightarrow> mac_state \<Rightarrow> 'e \<Rightarrow> bool" where
  "mac_call m t e r t' e' \<longleftrightarrow> (\<forall>s. can_access s \<and> scratch s = scratch t \<longrightarrow>
     (\<exists>s'. m (s, e) = Some (r, s', e') \<and> can_access s' \<and> scratch s' = scratch t'))"

named_theorems mac_calls \<open>triples of driver routines\<close>

lemma mac_callI:
  assumes "\<And>s. can_access s \<Longrightarrow> scratch s = scratch t \<Longrightarrow>
     \<exists>s'. m (s, e) = Some (r, s', e') \<and> can_access s' \<and> scratch s' = scratch t'"
  shows "mac_call m t e r t' e'"
  using assms by (simp add: mac_call_def)

lemma mac_callE:
  assumes "mac_call m t e r t' e'" and "can_access s" and "scratch s = scratch t"
  obtains s' where "m (s, e) = Some (r, s', e')" and "can_access s'" and "scratch s' = scratch t'"
  using assms unfolding mac_call_def by blast

lemma mac_call_bind:
  assumes "mac_call m t e (Inr x) t1 e1" and "mac_call (f x) t1 e1 r t2 e2"
  shows "mac_call (mbind m f) t e r t2 e2"
proof (rule mac_callI)
  fix s assume "can_access s" "scratch s = scratch t"
  then obtain s1 where "m (s, e) = Some (Inr x, s1, e1)" and s1: "can_access s1" "scratch s1 = scratch t1"
    by (rule mac_callE [OF assms(1)])
  moreover obtain s2 where "f x (s1, e1) = Some (r, s2, e2)" "can_access s2" "scratch s2 = scratch t2"
    by (rule mac_callE [OF assms(2) s1])
  ultimately show "\<exists>s'. mbind m f (s, e) = Some (r, s', e2) \<and> can_access s' \<and> scratch s' = scratch t2"
    by (simp add: mbind_def)
qed

lemma mac_call_bind_err:
  assumes "mac_call m t e (Inl err) t1 e1"
  shows "mac_call (mbind m f) t e (Inl err) t1 e1"
  using assms unfolding mac_call_def mbind_def by fastforce

lemma mac_call_catch:
  assumes "mac_call m t e (Inr x) t1 e1" and "mac_call (f x) t1 e1 r t2 e2"
  shows "mac_call (mcatch m k f) t e r t2 e2"
proof (rule mac_callI)
  fix s assume "can_access s" "scratch s = scratch t"
  then obtain s1 where "m (s, e) = Some (Inr x, s1, e1)" and s1: "can_access s1" "scratch s1 = scratch t1"
    by (rule mac_callE [OF assms(1)])
  moreover obtain s2 where "f x (s1, e1) = Some (r, s2, e2)" "can_access s2" "scratch s2 = scratch t2"
    by (rule mac_callE [OF assms(2) s1])
  ultimately show "\<exists>s'. mcatch m k f (s, e) = Some (r, s', e2) \<and> can_access s' \<and> scratch s' = scratch t2"
    by (simp add: mcatch_def)
qed

lemma mac_call_ignore:
  assumes "mac_call m t e r1 t1 e1" and "mac_call k t1 e1 r t2 e2"
  shows "mac_call (mignore m k) t e r t2 e2"
proof (rule mac_callI)
  fix s assume "can_access s" "scratch s = scratch t"
  then obtain s1 where "m (s, e) = Some (r1, s1, e1)" and s1: "can_access s1" "scratch s1 = scratch t1"
    by (rule mac_callE [OF assms(1)])
  moreover obtain s2 where "k (s1, e1) = Some (r, s2, e2)" "can_access s2" "scratch s2 = scratch t2"
    by (rule mac_callE [OF assms(2) s1])
  ultimately show "\<exists>s'. mignore m k (s, e) = Some (r, s', e2) \<and> can_access s' \<and> scratch s' = scratch t2"
    by (cases r1) (simp_all add: mignore_def mcatch_def)
qed

lemma mac_call_ret: "mac_call (mret x) t e (Inr x) t e"
  by (simp add: mac_call_def mret_def)

lemma mac_call_fail: "mac_call (mfail err) t e (Inl err) t e"
  by (simp add: mac_call_def mfail_def)

lemma mac_call_when:
  assumes "b \<Longrightarrow> mac_call m t e (Inr ()) t' e'" and "\<not> b \<Longrightarrow> t' = t \<and> e' = e"
  shows "mac_call (mwhen b m) t e (Inr ()) t' e'"
  using assms by (cases b) (simp_all add: mwhen_def mac_call_ret)

lemma scratch_fields:
  assumes "scratch s = scratch t"
  shows "m_configSync s = m_configSync t" "m_fcsCheckEn s = m_fcsCheckEn t" "m_oaCps s = m_oaCps t"
    "m_irqMask0 s = m_irqMask0 t" "m_irqMask1 s = m_irqMask1 t" "m_addrFilterActive s = m_addrFilterActive t"
    "m_timestampFormat s = m_timestampFormat t" "m_txQueue s = m_txQueue t" "s_bufs s = s_bufs t"
    "s_irqEnabled s = s_irqEnabled t" "s_events s = s_events t" "m_cbFunc s = m_cbFunc t"
    "m_phyIrqMask s = m_phyIrqMask t" "m_rxQueueLp s = m_rxQueueLp t" "m_oaMaxChunkCount s = m_oaMaxChunkCount t"
proof -
  note c = arg_cong [OF assms]
  show "m_configSync s = m_configSync t" "m_fcsCheckEn s = m_fcsCheckEn t" "m_oaCps s = m_oaCps t"
    "m_irqMask0 s = m_irqMask0 t" "m_irqMask1 s = m_irqMask1 t" "m_addrFilterActive s = m_addrFilterActive t"
    "m_timestampFormat s = m_timestampFormat t" "m_txQueue s = m_txQueue t" "s_bufs s = s_bufs t"
    "s_irqEnabled s = s_irqEnabled t" "s_events s = s_events t" "m_cbFunc s = m_cbFunc t"
    "m_phyIrqMask s = m_phyIrqMask t" "m_rxQueueLp s = m_rxQueueLp t" "m_oaMaxChunkCount s = m_oaMaxChunkCount t"
    using c [of m_configSync] c [of m_fcsCheckEn] c [of m_oaCps] c [of m_irqMask0]
      c [of m_irqMask1] c [of m_addrFilterActive] c [of m_timestampFormat] c [of m_txQueue]
      c [of s_bufs] c [of s_irqEnabled] c [of s_events] c [of m_cbFunc]
      c [of m_phyIrqMask] c [of m_rxQueueLp] c [of m_oaMaxChunkCount]
    by (simp_all add: scratch_def)
qed

text \<open>Updates of the other fields go through.\<close>

lemma scratch_upd [simp]:
  "scratch (s\<lparr>m_irqMask0 := x0\<rparr>) = (scratch s)\<lparr>m_irqMask0 := x0\<rparr>"
  "scratch (s\<lparr>m_irqMask1 := x1\<rparr>) = (scratch s)\<lparr>m_irqMask1 := x1\<rparr>"
  "scratch (s\<lparr>m_configSync := x2\<rparr>) = (scratch s)\<lparr>m_configSync := x2\<rparr>"
  "scratch (s\<lparr>s_irqEnabled := x3\<rparr>) = (scratch s)\<lparr>s_irqEnabled := x3\<rparr>"
  "scratch (s\<lparr>m_oaCps := x4\<rparr>) = (scratch s)\<lparr>m_oaCps := x4\<rparr>"
  "scratch (s\<lparr>m_oaMaxChunkCount := x5\<rparr>) = (scratch s)\<lparr>m_oaMaxChunkCount := x5\<rparr>"
  "scratch (s\<lparr>m_addrFilterActive := x6\<rparr>) = (scratch s)\<lparr>m_addrFilterActive := x6\<rparr>"
  "scratch (s\<lparr>m_timestampFormat := x7\<rparr>) = (scratch s)\<lparr>m_timestampFormat := x7\<rparr>"
  "scratch (s\<lparr>m_phyIrqMask := x8\<rparr>) = (scratch s)\<lparr>m_phyIrqMask := x8\<rparr>"
  "scratch (s\<lparr>s_bufs := x9\<rparr>) = (scratch s)\<lparr>s_bufs := x9\<rparr>"
  "scratch (s\<lparr>m_txQueue := x10\<rparr>) = (scratch s)\<lparr>m_txQueue := x10\<rparr>"
  "scratch (s\<lparr>m_rxQueueLp := x11\<rparr>) = (scratch s)\<lparr>m_rxQueueLp := x11\<rparr>"
  "scratch (s\<lparr>m_cbFunc := x12\<rparr>) = (scratch s)\<lparr>m_cbFunc := x12\<rparr>"
  "scratch (s\<lparr>m_cbParam := x13\<rparr>) = (scratch s)\<lparr>m_cbParam := x13\<rparr>"
  by (simp_all add: scratch_def)

lemma can_access_upd [simp]:
  "can_access (s\<lparr>m_irqMask0 := x0\<rparr>) = can_access s"
  "can_access (s\<lparr>m_irqMask1 := x1\<rparr>) = can_access s"
  "can_access (s\<lparr>m_configSync := x2\<rparr>) = can_access s"
  "can_access (s\<lparr>s_irqEnabled := x3\<rparr>) = can_access s"
  "can_access (s\<lparr>m_oaCps := x4\<rparr>) = can_access s"
  "can_access (s\<lparr>m_oaMaxChunkCount := x5\<rparr>) = can_access s"
  "can_access (s\<lparr>m_addrFilterActive := x6\<rparr>) = can_access s"
  "can_access (s\<lparr>m_timestampFormat := x7\<rparr>) = can_access s"
  "can_access (s\<lparr>m_phyIrqMask := x8\<rparr>) = can_access s"
  "can_access (s\<lparr>s_bufs := x9\<rparr>) = can_access s"
  "can_access (s\<lparr>m_txQueue := x10\<rparr>) = can_access s"
  "can_access (s\<lparr>m_rxQueueLp := x11\<rparr>) = can_access s"
  "can_access (s\<lparr>m_cbFunc := x12\<rparr>) = can_access s"
  "can_access (s\<lparr>m_cbParam := x13\<rparr>) = can_access s"
  by (simp_all add: can_access_def)

lemma mac_call_get:
  assumes "\<And>s. scratch s = scratch t \<Longrightarrow> f s = f t"
  shows "mac_call (mget_s f) t e (Inr (f t)) t e"
  unfolding mac_call_def mget_s_def mget_def by (auto dest: assms)

lemma mac_call_upd:
  assumes "\<And>s. can_access s \<Longrightarrow> can_access (g s)"
    and "\<And>s. scratch s = scratch t \<Longrightarrow> scratch (g s) = scratch (g t)"
  shows "mac_call (mupd_s g) t e (Inr ()) (g t) e"
  unfolding mac_call_def mupd_s_def mupd_def by (auto intro: assms)

lemma mac_call_unless_uninitialized:
  assumes "mac_call m t e r t' e'"
  shows "mac_call (mbind (mget_s m_state)
     (\<lambda>state. if state = ADI_MAC_STATE_UNINITIALIZED then k else m)) t e r t' e'"
proof (rule mac_callI)
  fix s assume s: "can_access s" "scratch s = scratch t"
  then have "m_state s \<noteq> ADI_MAC_STATE_UNINITIALIZED" by (auto simp: can_access_def)
  then show "\<exists>s'. mbind (mget_s m_state) (\<lambda>state. if state = ADI_MAC_STATE_UNINITIALIZED then k else m) (s, e) =
      Some (r, s', e') \<and> can_access s' \<and> scratch s' = scratch t'"
    using assms s by (simp add: mac_call_def mbind_def mget_s_def mget_def)
qed

lemma mac_call_if:
  assumes "b \<Longrightarrow> mac_call m t e r t' e'" and "\<not> b \<Longrightarrow> mac_call k t e r t' e'"
  shows "mac_call (if b then m else k) t e r t' e'"
  using assms by simp

section \<open>A control transaction of one register\<close>

text \<open>A transaction of at most 1023 bytes is a single transfer.\<close>

lemma bsp_single_transfer:
  assumes "0 < n" "n \<le> SPI_MAX_TRANSFER" "n \<le> length tx" "n \<le> length rx" "length r = n"
    and "xfer dma (take n tx) (io_write False e) = Some (r, e1)"
  shows "adi_bsp_spi_write_and_read io_write xfer tx rx n dma e = Some (r @ drop n rx, io_write True e1)"
proof -
  have "spi_transfers xfer dma n 0 tx rx (io_write False e) = Some (SPI_OK, r @ drop n rx, e1)"
    using assms
    by (subst spi_transfers.simps)
      (simp add: Let_def min_def mem_read_ok mem_write_ok spi_transfers.simps [of _ _ _ SPI_MAX_TRANSFER]
        del: mem_read_Some)
  then show ?thesis by (simp add: adi_bsp_spi_write_and_read_def)
qed

text \<open>The state machine runs through the two control states.\<close>

lemma control_run:
  assumes "m_state s = ADI_MAC_STATE_CONTROL_START"
    and "ctrl_setup (m_wnr s) (m_regAddr s) (m_cnt s) s = Some (result, len, s1)"
    and "spi_exchange h (SpiCtrl len)
       (s1\<lparr>m_state := ADI_MAC_STATE_CONTROL_END, m_spiState := ADI_MAC_SPI_STATE_RX\<rparr>, e) = Some (s2, e2)"
    and "m_state s2 = ADI_MAC_STATE_CONTROL_END" and "oa_control_end s2 = Some (result', s3, None)"
  shows "oaStateMachine h (s, e) = Some (result, s3, e2)"
  using assms
  by (subst oaStateMachine.simps, simp add: oa_dispatch_def oa_control_start_def,
      subst oaStateMachine.simps, simp add: oa_dispatch_def)

lemma spi_wait_ready: "m_spiState s = ADI_MAC_SPI_STATE_READY \<Longrightarrow> spi_wait ADI_SPI_TIMEOUT s \<noteq> 0"
proof -
  assume "m_spiState s = ADI_MAC_SPI_STATE_READY"
  then have "spi_wait (Suc n) s = Suc n" for n by simp
  moreover have "ADI_SPI_TIMEOUT = Suc 99999" by (simp add: ADI_SPI_TIMEOUT_def)
  ultimately show ?thesis by (metis nat.distinct(1))
qed

lemma U16_less: "U16 a < 0x10000"
  using take_bit_nat_less_exp [of 16 "unat a"]
  by (simp add: U16_def word_less_nat_alt unsigned_ucast_eq unsigned_take_bit_eq)

lemma irq_same: "s\<lparr>s_irqEnabled := s_irqEnabled s\<rparr> = s"
  by (cases s) simp

text \<open>
  The device: \<open>reg e a\<close> is what register \<open>a\<close> reads as, \<open>on_read a\<close> and \<open>on_write a v\<close> are
  what a read and a write do to it.  It echoes the header behind four bytes of its own and,
  on a read, sends the value with its complement.
\<close>

locale oa_device =
  fixes h :: "'e adi_hal" and reg :: "'e \<Rightarrow> u32 \<Rightarrow> u32"
    and on_read :: "u32 \<Rightarrow> 'e \<Rightarrow> 'e" and on_write :: "u32 \<Rightarrow> u32 \<Rightarrow> 'e \<Rightarrow> 'e"
  assumes read_exchange: "\<lbrakk>a < 0x10000; length tx = 16; take 4 tx = oaCtrlCmdHeader ADI_MAC_SPI_READ a 1\<rbrakk> \<Longrightarrow>
      \<exists>pre e1. length pre = 4 \<and>
        h_xfer h True tx (h_io_write h False e) = Some (pre @ take 4 tx @ oaCtrlCmdWriteData [reg e a], e1) \<and>
        h_io_write h True e1 = on_read a e"
    and write_exchange: "\<lbrakk>a < 0x10000; length tx = 16;
        take 12 tx = oaCtrlCmdHeader ADI_MAC_SPI_WRITE a 1 @ oaCtrlCmdWriteData [v]\<rbrakk> \<Longrightarrow>
      \<exists>pre post e1. length pre = 4 \<and> length post = 8 \<and>
        h_xfer h True tx (h_io_write h False e) = Some (pre @ take 4 tx @ post, e1) \<and>
        h_io_write h True e1 = on_write a v e"
begin

lemma read_transaction:
  assumes s: "m_wnr s = ADI_MAC_SPI_READ" "m_regAddr s = a" "a < 0x10000" "m_cnt s = 1"
      "m_pRegData s = RegCaller" "m_state s = ADI_MAC_STATE_CONTROL_START"
    and len: "length (m_ctrlTxBuf s) = 256" "length (m_ctrlRxBuf s) = 256"
  shows "\<exists>result tx rx. length tx = 256 \<and> length rx = 256 \<and>
     oaStateMachine h (s, e) = Some (result, s\<lparr>m_state := ADI_MAC_STATE_READY,
       m_spiState := ADI_MAC_SPI_STATE_READY, m_spiErr := False, m_ctrlTxBuf := tx, m_ctrlRxBuf := rx,
       s_regCell := reg e a\<rparr>, on_read a e)"
proof -
  obtain tx where su: "oaCtrlSetup (m_ctrlTxBuf s) ADI_MAC_SPI_READ a (reg_words s) 1 = Some (ADI_ETH_SUCCESS, tx, 16)"
    and tx: "length tx = 256" "take 4 tx = oaCtrlCmdHeader ADI_MAC_SPI_READ a 1"
    using oaCtrlSetup_read [OF len(1), of 1 a "reg_words s"] by auto
  obtain pre e1 where x: "length pre = 4"
      "h_xfer h True (take 16 tx) (h_io_write h False e) =
        Some (pre @ take 4 (take 16 tx) @ oaCtrlCmdWriteData [reg e a], e1)"
      "h_io_write h True e1 = on_read a e"
    using read_exchange [OF s(3), of "take 16 tx" e] tx by (auto simp: min_def)
  define rx where "rx = (pre @ take 4 tx @ oaCtrlCmdWriteData [reg e a]) @ drop 16 (m_ctrlRxBuf s)"
  have bsp: "adi_bsp_spi_write_and_read (h_io_write h) (h_xfer h) tx (m_ctrlRxBuf s) 16 True e =
      Some (rx, on_read a e)"
    unfolding rx_def x(3) [symmetric]
    by (rule bsp_single_transfer) (use x tx len in \<open>simp_all add: SPI_MAX_TRANSFER_def min_def\<close>)
  have lrx: "length rx = 256" using x(1) tx len by (simp add: rx_def)
  have hdr: "mem_read tx 0 4 = mem_read rx 4 4"
    using x(1) tx by (simp add: mem_read_def rx_def min_def)
  have dat: "oaCtrlCmdReadData (drop 8 rx) 1 = Some (ADI_ETH_SUCCESS, [reg e a])"
    using oaCtrlCmdReadData_WriteData [of "[reg e a]" "drop 16 (m_ctrlRxBuf s)"] x(1) tx
    by (simp add: rx_def min_def del: oaCtrlCmdReadData.simps oaCtrlCmdWriteData.simps)
  let ?s1 = "s\<lparr>m_ctrlTxBuf := tx\<rparr>"
  let ?s2 = "?s1\<lparr>m_state := ADI_MAC_STATE_CONTROL_END, m_spiState := ADI_MAC_SPI_STATE_RX, m_ctrlRxBuf := rx\<rparr>"
  let ?s3 = "?s2\<lparr>m_spiErr := False, s_regCell := reg e a, m_spiState := ADI_MAC_SPI_STATE_READY,
     m_state := ADI_MAC_STATE_READY\<rparr>"
  have "oaStateMachine h (s, e) = Some (ADI_ETH_SUCCESS, ?s3, on_read a e)"
  proof (rule control_run)
    show "ctrl_setup (m_wnr s) (m_regAddr s) (m_cnt s) s = Some (ADI_ETH_SUCCESS, 16, ?s1)"
      by (simp add: ctrl_setup_def s su del: One_nat_def)
    show "spi_exchange h (SpiCtrl 16)
       (?s1\<lparr>m_state := ADI_MAC_STATE_CONTROL_END, m_spiState := ADI_MAC_SPI_STATE_RX\<rparr>, e) =
       Some (?s2, on_read a e)"
      using bsp by (simp add: MIN_SIZE_FOR_DMA_def)
    show "oa_control_end ?s2 = Some (ADI_ETH_SUCCESS, ?s3, None)"
      using hdr dat tx lrx
      by (simp add: oa_control_end_def reg_store_def s oa_sizes mem_read_def del: oaCtrlCmdReadData.simps)
  qed (simp_all add: s)
  then show ?thesis using tx lrx by (intro exI [of _ ADI_ETH_SUCCESS] exI [of _ tx] exI [of _ rx]) simp
qed

lemma write_transaction:
  assumes s: "m_wnr s = ADI_MAC_SPI_WRITE" "m_regAddr s = a" "a < 0x10000" "m_cnt s = 1"
      "m_pRegData s = RegCaller" "m_state s = ADI_MAC_STATE_CONTROL_START" "s_regCell s = v"
    and len: "length (m_ctrlTxBuf s) = 256" "length (m_ctrlRxBuf s) = 256"
  shows "\<exists>result tx rx. length tx = 256 \<and> length rx = 256 \<and>
     oaStateMachine h (s, e) = Some (result, s\<lparr>m_state := ADI_MAC_STATE_READY,
       m_spiState := ADI_MAC_SPI_STATE_READY, m_spiErr := False, m_ctrlTxBuf := tx, m_ctrlRxBuf := rx\<rparr>,
       on_write a v e)"
proof -
  have words: "reg_words s = [v]" using s by (simp add: reg_words_def)
  obtain tx where su: "oaCtrlSetup (m_ctrlTxBuf s) ADI_MAC_SPI_WRITE a [v] 1 = Some (ADI_ETH_SUCCESS, tx, 16)"
    and tx: "length tx = 256"
      "take 12 tx = oaCtrlCmdHeader ADI_MAC_SPI_WRITE a 1 @ oaCtrlCmdWriteData [v]"
    using oaCtrlSetup_write [OF len(1), of 1 "[v]" a] by auto
  obtain pre post e1 where x: "length pre = 4" "length post = 8"
      "h_xfer h True (take 16 tx) (h_io_write h False e) = Some (pre @ take 4 (take 16 tx) @ post, e1)"
      "h_io_write h True e1 = on_write a v e"
    using write_exchange [OF s(3), of "take 16 tx" v e] tx by (auto simp: min_def)
  define rx where "rx = (pre @ take 4 tx @ post) @ drop 16 (m_ctrlRxBuf s)"
  have bsp: "adi_bsp_spi_write_and_read (h_io_write h) (h_xfer h) tx (m_ctrlRxBuf s) 16 True e =
      Some (rx, on_write a v e)"
    unfolding rx_def x(4) [symmetric]
    by (rule bsp_single_transfer) (use x tx len in \<open>simp_all add: SPI_MAX_TRANSFER_def min_def\<close>)
  have lrx: "length rx = 256" using x(1,2) tx len by (simp add: rx_def)
  have hdr: "mem_read tx 0 4 = mem_read rx 4 4"
    using x(1) tx by (simp add: mem_read_def rx_def min_def)
  let ?s1 = "s\<lparr>m_ctrlTxBuf := tx\<rparr>"
  let ?s2 = "?s1\<lparr>m_state := ADI_MAC_STATE_CONTROL_END, m_spiState := ADI_MAC_SPI_STATE_RX, m_ctrlRxBuf := rx\<rparr>"
  let ?s3 = "?s2\<lparr>m_spiErr := False, m_spiState := ADI_MAC_SPI_STATE_READY, m_state := ADI_MAC_STATE_READY\<rparr>"
  have "oaStateMachine h (s, e) = Some (ADI_ETH_SUCCESS, ?s3, on_write a v e)"
  proof (rule control_run)
    show "ctrl_setup (m_wnr s) (m_regAddr s) (m_cnt s) s = Some (ADI_ETH_SUCCESS, 16, ?s1)"
      by (simp add: ctrl_setup_def s su words del: One_nat_def)
    show "spi_exchange h (SpiCtrl 16)
       (?s1\<lparr>m_state := ADI_MAC_STATE_CONTROL_END, m_spiState := ADI_MAC_SPI_STATE_RX\<rparr>, e) =
       Some (?s2, on_write a v e)"
      using bsp by (simp add: MIN_SIZE_FOR_DMA_def)
    show "oa_control_end ?s2 = Some (ADI_ETH_SUCCESS, ?s3, None)"
      using hdr tx lrx
      by (simp add: oa_control_end_def s oa_sizes mem_read_def ADI_MAC_SPI_READ_def ADI_MAC_SPI_WRITE_def)
  qed (simp_all add: s)
  then show ?thesis using tx lrx by (intro exI [of _ ADI_ETH_SUCCESS] exI [of _ tx] exI [of _ rx]) simp
qed

lemma read_register_into:
  "mac_call (MAC_ReadRegister_into h a old) t e (Inr (reg e (U16 a))) t (on_read (U16 a) e)"
proof (rule mac_callI)
  fix s assume acc: "can_access s" and t: "scratch s = scratch t"
  let ?s = "s\<lparr>s_regCell := old, s_irqEnabled := False, m_pendingCtrl := True, m_wnr := ADI_MAC_SPI_READ,
     m_regAddr := U16 a, m_pRegData := RegCaller, m_cnt := 1, m_state := ADI_MAC_STATE_CONTROL_START\<rparr>"
  have "\<exists>result tx rx. length tx = 256 \<and> length rx = 256 \<and>
     oaStateMachine h (?s, e) = Some (result, ?s\<lparr>m_state := ADI_MAC_STATE_READY,
       m_spiState := ADI_MAC_SPI_STATE_READY, m_spiErr := False, m_ctrlTxBuf := tx, m_ctrlRxBuf := rx,
       s_regCell := reg e (U16 a)\<rparr>, on_read (U16 a) e)"
    by (rule read_transaction) (use acc U16_less in \<open>simp_all add: can_access_def\<close>)
  then obtain result tx rx where o: "length tx = 256" "length rx = 256"
      "oaStateMachine h (?s, e) = Some (result, ?s\<lparr>m_state := ADI_MAC_STATE_READY,
       m_spiState := ADI_MAC_SPI_STATE_READY, m_spiErr := False, m_ctrlTxBuf := tx, m_ctrlRxBuf := rx,
       s_regCell := reg e (U16 a)\<rparr>, on_read (U16 a) e)"
    by blast
  have w: "spi_wait ADI_SPI_TIMEOUT u \<noteq> 0" if "m_spiState u = ADI_MAC_SPI_STATE_READY" for u
    using that by (rule spi_wait_ready)
  have "\<exists>s'. MAC_ReadRegister_into h a old (s, e) = Some (Inr (reg e (U16 a)), s', on_read (U16 a) e) \<and>
      can_access s' \<and> scratch s' = scratch s"
    using acc o w irq_same [of s]
    by (auto simp: MAC_ReadRegister_into_def Let_def can_access_def irq_backup_def control_done_def scratch_def)
  with t show "\<exists>s'. MAC_ReadRegister_into h a old (s, e) = Some (Inr (reg e (U16 a)), s', on_read (U16 a) e) \<and>
      can_access s' \<and> scratch s' = scratch t" by simp
qed

lemma read_register:
  "mac_call (MAC_ReadRegister h a) t e (Inr (reg e (U16 a))) t (on_read (U16 a) e)"
  using read_register_into unfolding mac_call_def MAC_ReadRegister_def by simp

lemma write_register:
  "mac_call (MAC_WriteRegister h a v) t e (Inr ()) t (on_write (U16 a) v e)"
proof (rule mac_callI)
  fix s assume acc: "can_access s" and t: "scratch s = scratch t"
  let ?s = "s\<lparr>s_irqEnabled := False, m_pendingCtrl := True, m_wnr := ADI_MAC_SPI_WRITE,
     m_regAddr := U16 a, m_pRegData := RegCaller, s_regCell := v, m_cnt := 1,
     m_state := ADI_MAC_STATE_CONTROL_START\<rparr>"
  have "\<exists>result tx rx. length tx = 256 \<and> length rx = 256 \<and>
     oaStateMachine h (?s, e) = Some (result, ?s\<lparr>m_state := ADI_MAC_STATE_READY,
       m_spiState := ADI_MAC_SPI_STATE_READY, m_spiErr := False, m_ctrlTxBuf := tx, m_ctrlRxBuf := rx\<rparr>,
       on_write (U16 a) v e)"
    by (rule write_transaction) (use acc U16_less in \<open>simp_all add: can_access_def\<close>)
  then obtain result tx rx where o: "length tx = 256" "length rx = 256"
      "oaStateMachine h (?s, e) = Some (result, ?s\<lparr>m_state := ADI_MAC_STATE_READY,
       m_spiState := ADI_MAC_SPI_STATE_READY, m_spiErr := False, m_ctrlTxBuf := tx, m_ctrlRxBuf := rx\<rparr>,
       on_write (U16 a) v e)"
    by blast
  have w: "spi_wait ADI_SPI_TIMEOUT u \<noteq> 0" if "m_spiState u = ADI_MAC_SPI_STATE_READY" for u
    using that by (rule spi_wait_ready)
  have "\<exists>s'. MAC_WriteRegister h a v (s, e) = Some (Inr (), s', on_write (U16 a) v e) \<and>
      can_access s' \<and> scratch s' = scratch s"
    using acc o w irq_same [of s]
    by (auto simp: MAC_WriteRegister_def Let_def can_access_def irq_backup_def control_done_def scratch_def)
  with t show "\<exists>s'. MAC_WriteRegister h a v (s, e) = Some (Inr (), s', on_write (U16 a) v e) \<and>
      can_access s' \<and> scratch s' = scratch t" by simp
qed

text \<open>Sequences of accesses.\<close>

lemma then_read:
  assumes "mac_call (f (reg e (U16 a))) t (on_read (U16 a) e) r t' e'"
  shows "mac_call (mbind (MAC_ReadRegister h a) f) t e r t' e'"
  by (rule mac_call_bind) (rule read_register, rule assms)

lemma then_write:
  assumes "mac_call (f ()) t (on_write (U16 a) v e) r t' e'"
  shows "mac_call (mbind (MAC_WriteRegister h a v) f) t e r t' e'"
  by (rule mac_call_bind) (rule write_register, rule assms)

end

lemma then_get:
  assumes "\<And>s. scratch s = scratch t \<Longrightarrow> g s = g t" and "mac_call (f (g t)) t e r t' e'"
  shows "mac_call (mbind (mget_s g) f) t e r t' e'"
  by (rule mac_call_bind) (rule mac_call_get, erule assms(1), rule assms(2))

lemma then_upd:
  assumes "\<And>s. can_access s \<Longrightarrow> can_access (g s)"
    and "\<And>s. scratch s = scratch t \<Longrightarrow> scratch (g s) = scratch (g t)"
    and "mac_call (f ()) (g t) e r t' e'"
  shows "mac_call (mbind (mupd_s g) f) t e r t' e'"
  by (rule mac_call_bind) (rule mac_call_upd, erule assms(1), erule assms(2), rule assms(3))

end
