(* ===== verification/Adin_Chip.thy ===== *)
theory Adin_Chip
  imports Oa_Device
begin

text \<open>
  Registers that hold what is written to them, as a contract over \<open>oa_device\<close>, and a device
  that satisfies both contracts: an ADIN2111 reduced to its register file, its reset, its
  status bits that are cleared by writing ones, and the MDIO bridge to two PHYs.  It shows
  that the contracts can hold and serves the witnesses.
\<close>

section \<open>Plain registers\<close>

locale oa_regfile = oa_device +
  fixes plain :: "u32 set"
  assumes reg_on_write: "\<lbrakk>a \<in> plain; b \<in> plain\<rbrakk> \<Longrightarrow> reg (on_write a v e) b = (if b = a then v else reg e b)"
    and reg_on_read: "b \<in> plain \<Longrightarrow> reg (on_read a e) b = reg e b"
    and plain_16: "a \<in> plain \<Longrightarrow> U16 a = a"
begin

lemma then_read_plain:
  assumes "a \<in> plain" and "mac_call (f (reg e a)) t (on_read a e) r t' e'"
  shows "mac_call (mbind (MAC_ReadRegister h a) f) t e r t' e'"
  using then_read [of f e a t r t' e'] assms by (simp add: plain_16)

lemma then_write_plain:
  assumes "a \<in> plain" and "mac_call (f ()) t (on_write a v e) r t' e'"
  shows "mac_call (mbind (MAC_WriteRegister h a v) f) t e r t' e'"
  using then_write [of f t a v e r t' e'] assms by (simp add: plain_16)

lemma write_plain: "a \<in> plain \<Longrightarrow> mac_call (MAC_WriteRegister h a v) t e (Inr ()) t (on_write a v e)"
  using write_register [of a v t e] by (simp add: plain_16)

lemma read_plain: "a \<in> plain \<Longrightarrow> mac_call (MAC_ReadRegister h a) t e (Inr (reg e a)) t (on_read a e)"
  using read_register [of a t e] by (simp add: plain_16)

end

section \<open>A device\<close>

record chip =
  c_reg :: "u32 \<Rightarrow> u32"
  c_phy :: "5 word \<Rightarrow> u32 \<Rightarrow> u16"
  c_latch :: "5 word \<Rightarrow> u16"
  c_busy :: nat

text \<open>The MDIO registers, and the others that are not plain.\<close>

definition mdio_regs :: "u32 set" where
  "mdio_regs = {ADDR_MAC_MDIOACC_0, ADDR_MAC_MDIOACC_1}"

definition chip_plain :: "u32 set" where
  "chip_plain = {a. a < 0x10000 \<and> a \<notin> mdio_regs \<and>
     a \<notin> {ADDR_MAC_STATUS0, ADDR_MAC_STATUS1, ADDR_MAC_RESET, ADDR_MAC_SOFT_RST, ADDR_MAC_PHYID}}"

text \<open>
  The registers of a PHY: the identity is fixed, no interrupt is pending, and the power-down
  state follows its control register; the others hold what is written to them.
\<close>

definition mdio_addr :: "5 word \<Rightarrow> u16 \<Rightarrow> u32" where
  "mdio_addr devad ra = push_bit 16 (ucast devad) OR ucast ra"

definition chip_phy_reg :: "chip \<Rightarrow> 5 word \<Rightarrow> u32 \<Rightarrow> u16" where
  "chip_phy_reg c port a =
     (if a = ADDR_MMD1_DEV_ID1 then 0x0283 else if a = ADDR_MMD1_DEV_ID2 then 0xBCA1
      else if a = ADDR_CRSM_IRQ_STATUS then 0
      else if a = ADDR_CRSM_STAT then (if bit (c_phy c port ADDR_CRSM_SFT_PD_CNTRL) 0 then 2 else 0)
      else c_phy c port a)"

text \<open>
  An MDIO command: the address operation latches the register of a PHY, the others access
  it and leave the command with its data in the register, where \<open>TAERR\<close> cannot be written.
  It is done only after three reads.
\<close>

definition chip_mdio :: "u32 \<Rightarrow> ADI_MAC_MDIOACC_0_t \<Rightarrow> chip \<Rightarrow> chip" where
  "chip_mdio a cmd c =
     (let m = cmd\<lparr>md_TAERR := False\<rparr>; port = md_PRTAD m; pa = mdio_addr (md_DEVAD m) (c_latch c port) in
      if md_OP m = ucast ENUM_MAC_MDIOACC_N__MDIO_OP_MD_ADDR
      then c\<lparr>c_latch := (c_latch c)(port := md_DATA m), c_reg := (c_reg c)(a := md_VALUE32 m), c_busy := 3\<rparr>
      else if md_OP m = ucast ENUM_MAC_MDIOACC_N__MDIO_OP_MD_WR
      then c\<lparr>c_phy := (c_phy c)(port := (c_phy c port)(pa := md_DATA m)),
             c_reg := (c_reg c)(a := md_VALUE32 m), c_busy := 3\<rparr>
      else c\<lparr>c_reg := (c_reg c)(a := md_VALUE32 (m\<lparr>md_DATA := chip_phy_reg c port pa\<rparr>)), c_busy := 3\<rparr>)"

text \<open>A reset of the device resets the PHYs too, which then ask for interrupts after it.\<close>

definition phy_reset_values :: "5 word \<Rightarrow> u32 \<Rightarrow> u16" where
  "phy_reset_values port a = (if a = ADDR_CRSM_IRQ_MASK then 0x1000 else 0)"

definition chip_on_write :: "u32 \<Rightarrow> u32 \<Rightarrow> chip \<Rightarrow> chip" where
  "chip_on_write a v c =
     (if a \<in> mdio_regs then chip_mdio a (md_of_VALUE32 v) c
      else if a \<in> {ADDR_MAC_STATUS0, ADDR_MAC_STATUS1}
      then c\<lparr>c_reg := (c_reg c)(a := c_reg c a AND NOT v)\<rparr>
      else if a \<in> {ADDR_MAC_RESET, ADDR_MAC_SOFT_RST}
      then c\<lparr>c_reg := (c_reg c)(ADDR_MAC_STATUS0 := c_reg c ADDR_MAC_STATUS0 OR BITM_MAC_STATUS0_RESETC),
             c_phy := (if a = ADDR_MAC_RESET then phy_reset_values else c_phy c)\<rparr>
      else if a = ADDR_MAC_PHYID then c
      else c\<lparr>c_reg := (c_reg c)(a := v)\<rparr>)"

definition chip_reg :: "chip \<Rightarrow> u32 \<Rightarrow> u32" where
  "chip_reg c a = (if a = ADDR_MAC_PHYID then RSTVAL_MAC_PHYID
     else if a \<in> mdio_regs
     then md_VALUE32 ((md_of_VALUE32 (c_reg c a))\<lparr>md_TRDONE := (c_busy c = 0)\<rparr>)
     else c_reg c a)"

definition chip_on_read :: "u32 \<Rightarrow> chip \<Rightarrow> chip" where
  "chip_on_read a c = (if a \<in> mdio_regs then c\<lparr>c_busy := c_busy c - 1\<rparr> else c)"

text \<open>
  A device at the other end of the SPI that is given by its registers: it carries out control
  transactions of one register without protection.
\<close>

definition regs_xfer :: "('e \<Rightarrow> u32 \<Rightarrow> u32) \<Rightarrow> (u32 \<Rightarrow> 'e \<Rightarrow> 'e) \<Rightarrow> (u32 \<Rightarrow> u32 \<Rightarrow> 'e \<Rightarrow> 'e) \<Rightarrow>
    bool \<Rightarrow> u8 list \<Rightarrow> 'e \<Rightarrow> (u8 list \<times> 'e) option" where
  "regs_xfer reg on_read on_write useDma tx e =
     (let hdr = ctrl_decode (take 4 tx); a = ucast (ch_ADDR hdr); data = drop 4 tx in
      if ch_WNR hdr
      then Some (replicate 4 0 @ take 4 tx @ replicate 8 0, on_write a (HTON32 (le_word32 (take 4 data))) e)
      else Some (replicate 4 0 @ take 4 tx @ oaCtrlCmdWriteData [reg e a], on_read a e))"

definition regs_hal :: "('e \<Rightarrow> u32 \<Rightarrow> u32) \<Rightarrow> (u32 \<Rightarrow> 'e \<Rightarrow> 'e) \<Rightarrow> (u32 \<Rightarrow> u32 \<Rightarrow> 'e \<Rightarrow> 'e) \<Rightarrow> 'e adi_hal" where
  "regs_hal reg on_read on_write = \<lparr>h_io_write = (\<lambda>_ e. e), h_xfer = regs_xfer reg on_read on_write\<rparr>"

lemma ctrl_decode_header:
  assumes "a < 0x10000"
  shows "ctrl_decode (oaCtrlCmdHeader wnr a n) = ctrl_header wnr a n"
    and "ucast (ch_ADDR (ctrl_header wnr a n)) = a"
    and "ch_WNR (ctrl_header wnr a n) = bit wnr 0"
proof -
  show "ctrl_decode (oaCtrlCmdHeader wnr a n) = ctrl_header wnr a n"
    using ctrl_decode_oaCtrlCmdHeader [of wnr a n "[]"] by simp
  have "ucast (ucast a :: u16) = a"
    using take_bit_word_less [of a 16] assms by (simp add: word_less_nat_alt unsigned_ucast_eq)
  then show "ucast (ch_ADDR (ctrl_header wnr a n)) = a" by (simp add: ctrl_header_def)
  show "ch_WNR (ctrl_header wnr a n) = bit wnr 0" by (simp add: ctrl_header_def)
qed

lemma regs_device: "oa_device (regs_hal reg on_read on_write) reg on_read on_write"
proof
  fix a :: u32 and tx :: "u8 list" and e
  assume "a < 0x10000" "length tx = 16" "take 4 tx = oaCtrlCmdHeader ADI_MAC_SPI_READ a 1"
  then show "\<exists>pre e1. length pre = 4 \<and>
      h_xfer (regs_hal reg on_read on_write) True tx (h_io_write (regs_hal reg on_read on_write) False e) =
        Some (pre @ take 4 tx @ oaCtrlCmdWriteData [reg e a], e1) \<and>
      h_io_write (regs_hal reg on_read on_write) True e1 = on_read a e"
    by (intro exI [of _ "replicate 4 0"] exI [of _ "on_read a e"])
      (simp add: regs_hal_def regs_xfer_def Let_def ctrl_decode_header ADI_MAC_SPI_READ_def)
next
  fix a v :: u32 and tx :: "u8 list" and e
  assume a: "a < 0x10000" "length tx = 16"
    and tx: "take 12 tx = oaCtrlCmdHeader ADI_MAC_SPI_WRITE a 1 @ oaCtrlCmdWriteData [v]"
  have "take 4 (take 12 tx) = oaCtrlCmdHeader ADI_MAC_SPI_WRITE a 1"
    and "take 4 (drop 4 (take 12 tx)) = le_bytes32 (HTON32 v)"
    by (simp_all only: tx) simp_all
  then have "take 4 tx = oaCtrlCmdHeader ADI_MAC_SPI_WRITE a 1" "take 4 (drop 4 tx) = le_bytes32 (HTON32 v)"
    by (simp_all add: min_def drop_take)
  with a show "\<exists>pre post e1. length pre = 4 \<and> length post = 8 \<and>
      h_xfer (regs_hal reg on_read on_write) True tx (h_io_write (regs_hal reg on_read on_write) False e) =
        Some (pre @ take 4 tx @ post, e1) \<and>
      h_io_write (regs_hal reg on_read on_write) True e1 = on_write a v e"
    by (intro exI [of _ "replicate 4 0"] exI [of _ "replicate 8 0"] exI [of _ "on_write a v e"])
      (simp add: regs_hal_def regs_xfer_def Let_def ctrl_decode_header ADI_MAC_SPI_WRITE_def)
qed

definition chip_hal :: "chip adi_hal" where
  "chip_hal = regs_hal chip_reg chip_on_read chip_on_write"

interpretation chip: oa_device chip_hal chip_reg chip_on_read chip_on_write
  unfolding chip_hal_def by (rule regs_device)

lemma U16_id: "a < 0x10000 \<Longrightarrow> U16 a = a"
  using take_bit_word_less [of a 16] by (simp add: U16_def word_less_nat_alt unsigned_ucast_eq)

interpretation chip: oa_regfile chip_hal chip_reg chip_on_read chip_on_write chip_plain
  by unfold_locales
    (auto simp: chip_plain_def chip_reg_def chip_on_write_def chip_on_read_def U16_id)

end
