(* ===== verification/Mac_Client.thy ===== *)
theory Mac_Client
  imports Mac_Config Mac_Time Adin_Chip
begin

text \<open>
  What the configuration entries of the MAC driver do to the registers of a device, proved in
  the register-file contract, and the properties of the driver that follow.
\<close>

section \<open>Triples of the entries\<close>

text \<open>What stays true of the device under every access but those that reset it and the MDIO commands.\<close>

definition command_regs :: "u32 set" where
  "command_regs = {ADDR_MAC_RESET, ADDR_MAC_SOFT_RST, ADDR_MAC_MDIOACC_0, ADDR_MAC_MDIOACC_1}"

definition stays :: "(u32 \<Rightarrow> 'e \<Rightarrow> 'e) \<Rightarrow> (u32 \<Rightarrow> u32 \<Rightarrow> 'e \<Rightarrow> 'e) \<Rightarrow> ('e \<Rightarrow> bool) \<Rightarrow> bool" where
  "stays on_read on_write P \<longleftrightarrow>
     (\<forall>a e. a \<notin> command_regs \<longrightarrow> P e \<longrightarrow> P (on_read a e) \<and> (\<forall>v. P (on_write a v e)))"

lemma staysD:
  assumes "stays on_read on_write P" and "a \<notin> command_regs" and "P e"
  shows "P (on_read a e)" "P (on_write a v e)"
  using assms by (simp_all add: stays_def)

context oa_regfile
begin

lemma set_forward_mode:
  assumes "ADDR_MAC_CONFIG2 \<in> plain"
  shows "mac_call (MAC_SetForwardMode h mode msk) t e (Inr ()) t
     (on_write ADDR_MAC_CONFIG2 ((reg e ADDR_MAC_CONFIG2 AND NOT msk) OR (forward_bits mode AND msk))
       (on_read ADDR_MAC_CONFIG2 e))"
  unfolding MAC_SetForwardMode_def by (rule then_read_plain [OF assms], rule write_plain [OF assms])

lemma get_forward_mode:
  assumes "ADDR_MAC_CONFIG2 \<in> plain"
  shows "mac_call (MAC_GetForwardMode h) t e (Inr
     \<lparr>P1_FWD_UNK_TO_HOST = reg e ADDR_MAC_CONFIG2 AND BITM_MAC_CONFIG2_P1_FWD_UNK2HOST \<noteq> 0,
      P2_FWD_UNK_TO_HOST = reg e ADDR_MAC_CONFIG2 AND BITM_MAC_CONFIG2_P2_FWD_UNK2HOST \<noteq> 0,
      P1_FWD_UNK_TO_P2 = reg e ADDR_MAC_CONFIG2 AND BITM_MAC_CONFIG2_P1_FWD_UNK2P2 \<noteq> 0,
      P2_FWD_UNK_TO_P1 = reg e ADDR_MAC_CONFIG2 AND BITM_MAC_CONFIG2_P2_FWD_UNK2P1 \<noteq> 0\<rparr>) t
     (on_read ADDR_MAC_CONFIG2 e)"
  unfolding MAC_GetForwardMode_def by (rule then_read_plain [OF assms]) (rule mac_call_ret)

lemma sync_config:
  assumes "ADDR_MAC_CONFIG0 \<in> plain"
  shows "mac_call (MAC_SyncConfig h) t e (Inr ()) (t\<lparr>s_irqEnabled := True, m_configSync := True\<rparr>)
     (on_write ADDR_MAC_CONFIG0 (reg e ADDR_MAC_CONFIG0 OR BITM_MAC_CONFIG0_SYNC) (on_read ADDR_MAC_CONFIG0 e))"
  unfolding MAC_SyncConfig_def
  by (rule then_read_plain [OF assms], rule then_write_plain [OF assms], rule mac_call_upd) simp_all

lemma mac_init:
  assumes "ADDR_MAC_IMASK0 \<in> plain" "ADDR_MAC_IMASK1 \<in> plain" "ADDR_MAC_CONFIG0 \<in> plain"
    "ADDR_MAC_CONFIG2 \<in> plain"
  shows "\<exists>e'. mac_call (macInit h) t e (Inr ()) (t\<lparr>m_irqMask0 := irqMask0_init, m_irqMask1 := irqMask1_init\<rparr>) e' \<and>
     reg e' ADDR_MAC_IMASK0 = irqMask0_init \<and> reg e' ADDR_MAC_IMASK1 = irqMask1_init \<and>
     reg e' ADDR_MAC_CONFIG0 = (if m_fcsCheckEn t then reg e ADDR_MAC_CONFIG0 OR BITM_MAC_CONFIG0_TXFCSVE
       else reg e ADDR_MAC_CONFIG0 AND NOT BITM_MAC_CONFIG0_TXFCSVE) \<and>
     reg e' ADDR_MAC_CONFIG2 = (if m_fcsCheckEn t then reg e ADDR_MAC_CONFIG2 AND NOT BITM_MAC_CONFIG2_CRC_APPEND
       else reg e ADDR_MAC_CONFIG2 OR BITM_MAC_CONFIG2_CRC_APPEND) \<and>
     (stays on_read on_write P \<and> P e \<longrightarrow> P e')"
proof -
  have d: "ADDR_MAC_IMASK0 \<noteq> ADDR_MAC_IMASK1" "ADDR_MAC_IMASK0 \<noteq> ADDR_MAC_CONFIG0"
    "ADDR_MAC_IMASK0 \<noteq> ADDR_MAC_CONFIG2" "ADDR_MAC_IMASK1 \<noteq> ADDR_MAC_CONFIG0"
    "ADDR_MAC_IMASK1 \<noteq> ADDR_MAC_CONFIG2" "ADDR_MAC_CONFIG0 \<noteq> ADDR_MAC_CONFIG2"
    by (simp_all add: mac_regs)
  let ?t = "t\<lparr>m_irqMask0 := irqMask0_init, m_irqMask1 := irqMask1_init\<rparr>"
  define e3 where "e3 = on_read (U16 ADDR_MAC_STATUS1) (on_read (U16 ADDR_MAC_STATUS0)
    (on_write ADDR_MAC_IMASK1 irqMask1_init (on_write ADDR_MAC_IMASK0 irqMask0_init e)))"
  define c0 where "c0 = (if m_fcsCheckEn t then reg e3 ADDR_MAC_CONFIG0 OR BITM_MAC_CONFIG0_TXFCSVE
       else reg e3 ADDR_MAC_CONFIG0 AND NOT BITM_MAC_CONFIG0_TXFCSVE)"
  define e5 where "e5 = on_write ADDR_MAC_CONFIG0 c0 (on_read ADDR_MAC_CONFIG0 e3)"
  define c2 where "c2 = (if m_fcsCheckEn t then reg e5 ADDR_MAC_CONFIG2 AND NOT BITM_MAC_CONFIG2_CRC_APPEND
       else reg e5 ADDR_MAC_CONFIG2 OR BITM_MAC_CONFIG2_CRC_APPEND)"
  define e7 where "e7 = on_write ADDR_MAC_CONFIG2 c2 (on_read ADDR_MAC_CONFIG2 e5)"
  have f: "m_fcsCheckEn ?t = m_fcsCheckEn t" by simp
  have "mac_call (macInit h) t e (Inr ()) ?t e7"
    unfolding macInit_def Let_def e7_def
    by (rule then_upd, simp, simp,
        rule mac_call_ignore [OF write_plain [OF assms(1)]],
        rule then_upd, simp, simp,
        rule then_write_plain [OF assms(2)], rule then_read, rule then_read, fold e3_def,
        rule then_get, rule scratch_fields, assumption, unfold f,
        rule then_read_plain [OF assms(3)], fold c0_def, rule then_write_plain [OF assms(3)], fold e5_def,
        rule then_read_plain [OF assms(4)], fold c2_def, rule write_plain [OF assms(4)])
  moreover have f_kept: "P e7" if "stays on_read on_write P \<and> P e"
    using staysD [of on_read on_write P] that by (simp add: e7_def e5_def e3_def command_regs_def U16_def mac_regs)
  moreover have "reg e3 a = reg (on_write ADDR_MAC_IMASK1 irqMask1_init (on_write ADDR_MAC_IMASK0 irqMask0_init e)) a"
    if "a \<in> plain" for a using that by (simp add: e3_def reg_on_read)
  ultimately show ?thesis
    using assms d f_kept
    by (intro exI [of _ e7]) (simp add: e7_def e5_def c0_def c2_def reg_on_read reg_on_write)
qed

lemma wait_device_ready:
  assumes "reg e ADDR_MAC_PHYID = RSTVAL_MAC_PHYID"
    and "reg (on_read ADDR_MAC_PHYID e) ADDR_MAC_STATUS0 AND BITM_MAC_STATUS0_RESETC = BITM_MAC_STATUS0_RESETC"
  shows "mac_call (waitDeviceReady h) t e (Inr ()) t
     (on_write ADDR_MAC_STATUS0 BITM_MAC_STATUS0_RESETC (on_read ADDR_MAC_STATUS0 (on_read ADDR_MAC_PHYID e)))"
    (is "mac_call _ t e _ t ?e3")
proof (rule mac_callI)
  fix s assume s: "can_access s" "scratch s = scratch t"
  have u: "U16 ADDR_MAC_PHYID = ADDR_MAC_PHYID" "U16 ADDR_MAC_STATUS0 = ADDR_MAC_STATUS0"
    by (simp_all add: U16_def mac_regs)
  note rd = read_register [of _ t] and wr = write_register [of _ _ t]
  obtain s1 where 1: "MAC_ReadRegister h ADDR_MAC_PHYID (s, e) =
      Some (Inr RSTVAL_MAC_PHYID, s1, on_read ADDR_MAC_PHYID e)" "can_access s1" "scratch s1 = scratch t"
    using mac_callE [OF rd s, of ADDR_MAC_PHYID e] unfolding u assms(1) .
  obtain s2 where 2: "MAC_ReadRegister h ADDR_MAC_STATUS0 (s1, on_read ADDR_MAC_PHYID e) =
      Some (Inr (reg (on_read ADDR_MAC_PHYID e) ADDR_MAC_STATUS0), s2,
        on_read ADDR_MAC_STATUS0 (on_read ADDR_MAC_PHYID e))" "can_access s2" "scratch s2 = scratch t"
    using mac_callE [OF rd 1(2,3), of ADDR_MAC_STATUS0 "on_read ADDR_MAC_PHYID e"] unfolding u .
  obtain s3 where 3: "MAC_WriteRegister h ADDR_MAC_STATUS0 BITM_MAC_STATUS0_RESETC
      (s2, on_read ADDR_MAC_STATUS0 (on_read ADDR_MAC_PHYID e)) = Some (Inr (), s3, ?e3)"
      "can_access s3" "scratch s3 = scratch t"
    using mac_callE [OF wr 2(2,3), of ADDR_MAC_STATUS0 BITM_MAC_STATUS0_RESETC
      "on_read ADDR_MAC_STATUS0 (on_read ADDR_MAC_PHYID e)"] unfolding u .
  have n: "ADI_MAC_INIT_MAX_RETRIES = Suc (Suc 24998)" by (simp add: ADI_MAC_INIT_MAX_RETRIES_def)
  have "poll_phyid h ADI_MAC_INIT_MAX_RETRIES (s, e) = Some ((True, Suc 24998), s1, on_read ADDR_MAC_PHYID e)"
    unfolding n by (subst poll_phyid.simps(2)) (simp add: 1(1))
  moreover have "poll_resetc h (Suc 24998) (s1, on_read ADDR_MAC_PHYID e) = Some ((True, Inr ()), s3, ?e3)"
    by (subst poll_resetc.simps(2)) (simp add: 2(1) 3(1) assms(2))
  ultimately have "waitDeviceReady h (s, e) = Some (Inr (), s3, ?e3)"
    by (simp only: waitDeviceReady_def attempts_left Option.bind.bind_lunit prod.case not_True_eq_False if_False if_True)
  with 3 show "\<exists>s'. waitDeviceReady h (s, e) = Some (Inr (), s', ?e3) \<and> can_access s' \<and> scratch s' = scratch t"
    by blast
qed

end

section \<open>Bringing the device up\<close>

context oa_device
begin

lemma reset_first_attempt:
  "mac_call (reset_attempts h ADI_ETH_RESET_TYPE_MAC_PHY n) t e (Inr ()) t
     (on_write ADDR_MAC_RESET (push_bit BITP_MAC_RESET_SWRESET 1) e)"
proof -
  have "U16 ADDR_MAC_RESET = ADDR_MAC_RESET" by (simp add: U16_def mac_regs)
  then have "mac_call (reset_request h ADI_ETH_RESET_TYPE_MAC_PHY) t e (Inr ()) t
     (on_write ADDR_MAC_RESET (push_bit BITP_MAC_RESET_SWRESET 1) e)"
    using write_register [of ADDR_MAC_RESET _ t e] by (simp add: reset_request_def)
  then show ?thesis
    by (subst reset_attempts.simps) (rule mac_call_catch, assumption, rule mac_call_ret)
qed

end

text \<open>
  The device identifies itself, and reports the end of a reset in \<open>STATUS0\<close>.
\<close>

locale oa_bringup = oa_regfile +
  assumes phyid: "reg e ADDR_MAC_PHYID = RSTVAL_MAC_PHYID"
    and resetc: "reg (on_read ADDR_MAC_PHYID (on_write ADDR_MAC_RESET (push_bit BITP_MAC_RESET_SWRESET 1) e))
       ADDR_MAC_STATUS0 AND BITM_MAC_STATUS0_RESETC = BITM_MAC_STATUS0_RESETC"
    and config_plain: "{ADDR_MAC_IMASK0, ADDR_MAC_IMASK1, ADDR_MAC_CONFIG0, ADDR_MAC_CONFIG2} \<subseteq> plain"
begin

lemma mac_reset:
  "\<exists>e'. mac_call (MAC_Reset h ADI_ETH_RESET_TYPE_MAC_PHY) t e (Inr ())
     (t\<lparr>s_irqEnabled := False, m_configSync := False, m_irqMask0 := irqMask0_init, m_irqMask1 := irqMask1_init\<rparr>) e' \<and>
     reg e' ADDR_MAC_IMASK0 = irqMask0_init \<and> reg e' ADDR_MAC_IMASK1 = irqMask1_init \<and>
     (reg e' ADDR_MAC_CONFIG0 AND BITM_MAC_CONFIG0_TXFCSVE \<noteq> 0 \<longleftrightarrow> m_fcsCheckEn t) \<and>
     (reg e' ADDR_MAC_CONFIG2 AND BITM_MAC_CONFIG2_CRC_APPEND = 0 \<longleftrightarrow> m_fcsCheckEn t) \<and>
     (stays on_read on_write P \<and> P (on_write ADDR_MAC_RESET (push_bit BITP_MAC_RESET_SWRESET 1) e) \<longrightarrow> P e')"
proof -
  have pl: "ADDR_MAC_IMASK0 \<in> plain" "ADDR_MAC_IMASK1 \<in> plain" "ADDR_MAC_CONFIG0 \<in> plain"
    "ADDR_MAC_CONFIG2 \<in> plain" using config_plain by simp_all
  define e1 where "e1 = on_write ADDR_MAC_RESET (push_bit BITP_MAC_RESET_SWRESET 1) e"
  define e2 where "e2 = on_write ADDR_MAC_STATUS0 BITM_MAC_STATUS0_RESETC
    (on_read ADDR_MAC_STATUS0 (on_read ADDR_MAC_PHYID e1))"
  let ?t = "t\<lparr>s_irqEnabled := False, m_configSync := False\<rparr>"
  obtain e' where i: "mac_call (macInit h) ?t e2 (Inr ())
       (?t\<lparr>m_irqMask0 := irqMask0_init, m_irqMask1 := irqMask1_init\<rparr>) e'"
    "reg e' ADDR_MAC_IMASK0 = irqMask0_init" "reg e' ADDR_MAC_IMASK1 = irqMask1_init"
    "reg e' ADDR_MAC_CONFIG0 = (if m_fcsCheckEn ?t then reg e2 ADDR_MAC_CONFIG0 OR BITM_MAC_CONFIG0_TXFCSVE
       else reg e2 ADDR_MAC_CONFIG0 AND NOT BITM_MAC_CONFIG0_TXFCSVE)"
    "reg e' ADDR_MAC_CONFIG2 = (if m_fcsCheckEn ?t then reg e2 ADDR_MAC_CONFIG2 AND NOT BITM_MAC_CONFIG2_CRC_APPEND
       else reg e2 ADDR_MAC_CONFIG2 OR BITM_MAC_CONFIG2_CRC_APPEND)"
    "stays on_read on_write P \<and> P e2 \<longrightarrow> P e'"
    using mac_init [OF pl, of ?t e2 P] by blast
  have wdr: "mac_call (waitDeviceReady h) (t\<lparr>s_irqEnabled := False\<rparr>) e1 (Inr ()) (t\<lparr>s_irqEnabled := False\<rparr>) e2"
    unfolding e2_def by (rule wait_device_ready [OF phyid]) (unfold e1_def, rule resetc)
  have "mac_call (MAC_Reset h ADI_ETH_RESET_TYPE_MAC_PHY) t e (Inr ())
      (?t\<lparr>m_irqMask0 := irqMask0_init, m_irqMask1 := irqMask1_init\<rparr>) e'"
    unfolding MAC_Reset_def
    by (rule mac_call_unless_uninitialized, rule then_upd, simp, simp,
        rule mac_call_bind, rule reset_first_attempt, fold e1_def, rule mac_call_bind, rule wdr,
        rule then_upd, simp, simp, rule mac_call_ignore, rule i(1), rule mac_call_ret)
  moreover have "(x OR m) AND m \<noteq> 0" "(x AND NOT m) AND m = 0" if "m \<noteq> 0" for x m :: u32
    using that by (simp_all add: and.assoc bit.conj_disj_distrib2)
  moreover have "BITM_MAC_CONFIG0_TXFCSVE \<noteq> 0" "BITM_MAC_CONFIG2_CRC_APPEND \<noteq> 0"
    by (simp_all add: mac_regs)
  moreover have "P e2" if "stays on_read on_write P \<and> P e1"
    using staysD [of on_read on_write P] that by (simp add: e2_def command_regs_def mac_regs)
  ultimately show ?thesis using i(2-) by (intro exI [of _ e'] conjI) (simp_all add: e1_def)
qed

lemma mac_init_device:
  assumes "sizeofDevice \<le> devMemSize"
  shows "\<exists>s' e'. MAC_Init h sizeofDevice devMemSize fcsCheckEn (s, e) = Some (Inr (), s', e') \<and>
     m_state s' = ADI_MAC_STATE_READY \<and> can_access s' \<and> s_events s' = s_events s \<and> \<not> s_irqEnabled s' \<and> \<not> m_configSync s' \<and>
     m_fcsCheckEn s' = fcsCheckEn \<and> queueIsEmpty (m_txQueue s') \<and> queueIsEmpty (m_rxQueueLp s') \<and>
     reg e' ADDR_MAC_IMASK0 = irqMask0_init \<and> m_irqMask0 s' = irqMask0_init \<and>
     reg e' ADDR_MAC_IMASK1 = irqMask1_init \<and> m_irqMask1 s' = irqMask1_init \<and>
     (reg e' ADDR_MAC_CONFIG0 AND BITM_MAC_CONFIG0_TXFCSVE \<noteq> 0 \<longleftrightarrow> fcsCheckEn) \<and>
     (reg e' ADDR_MAC_CONFIG2 AND BITM_MAC_CONFIG2_CRC_APPEND = 0 \<longleftrightarrow> fcsCheckEn) \<and>
     (stays on_read on_write P \<and> P (on_write ADDR_MAC_RESET (push_bit BITP_MAC_RESET_SWRESET 1) e) \<longrightarrow> P e')"
proof -
  define d where "d = macDeviceInit fcsCheckEn (s\<lparr>s_irqEnabled := False\<rparr>)"
  have acc: "can_access d" and fcs: "m_fcsCheckEn d = fcsCheckEn"
    and q: "m_txQueue d = queueInit TX_QUEUE_NUM_ENTRIES_RAW" "m_rxQueueLp d = queueInit RX_QUEUE_NUM_ENTRIES_RAW"
    and ev: "s_events d = s_events s"
    by (simp_all add: d_def macDeviceInit_def device_init_def can_access_def)
  obtain e' where r: "mac_call (MAC_Reset h ADI_ETH_RESET_TYPE_MAC_PHY) d e (Inr ())
     (d\<lparr>s_irqEnabled := False, m_configSync := False, m_irqMask0 := irqMask0_init, m_irqMask1 := irqMask1_init\<rparr>) e'"
     (is "mac_call _ _ _ _ ?d e'")
    "reg e' ADDR_MAC_IMASK0 = irqMask0_init" "reg e' ADDR_MAC_IMASK1 = irqMask1_init"
    "reg e' ADDR_MAC_CONFIG0 AND BITM_MAC_CONFIG0_TXFCSVE \<noteq> 0 \<longleftrightarrow> m_fcsCheckEn d"
    "reg e' ADDR_MAC_CONFIG2 AND BITM_MAC_CONFIG2_CRC_APPEND = 0 \<longleftrightarrow> m_fcsCheckEn d"
    "stays on_read on_write P \<and> P (on_write ADDR_MAC_RESET (push_bit BITP_MAC_RESET_SWRESET 1) e) \<longrightarrow> P e'"
    using mac_reset [of d e P] by blast
  obtain s1 where s1: "MAC_Reset h ADI_ETH_RESET_TYPE_MAC_PHY (d, e) = Some (Inr (), s1, e')" "can_access s1"
    and sc: "scratch s1 = scratch ?d"
    by (rule mac_callE [OF r(1) acc refl])
  have "MAC_Init h sizeofDevice devMemSize fcsCheckEn (s, e) =
      Some (Inr (), s1\<lparr>m_state := ADI_MAC_STATE_READY\<rparr>, e')"
    using assms s1(1) by (simp add: MAC_Init_def mbind_def mupd_s_def mupd_def flip: d_def)
  with s1(2) scratch_fields [OF sc] r(2-) fcs q ev show ?thesis
    by (intro exI [of _ "s1\<lparr>m_state := ADI_MAC_STATE_READY\<rparr>"] exI [of _ e'])
      (simp add: can_access_def queueIsEmpty_def queueCount_def queueInit_def PSEUDO_MODULO_def)
qed

end

interpretation chip: oa_bringup chip_hal chip_reg chip_on_read chip_on_write chip_plain
  by unfold_locales (auto simp: chip_plain_def chip_reg_def chip_on_read_def chip_on_write_def mdio_regs_def mac_regs
      and.assoc [symmetric] bit.conj_disj_distrib2)

text \<open>
  C10: on a device that identifies itself and reports its reset, \<open>MAC_Init\<close> succeeds and leaves
  the driver ready with empty queues, the interrupt line off, the configuration not yet
  synchronised, the interrupt masks of driver and device the same, and the device set up to
  check or to append the frame check sequence as asked.
\<close>

theorem mac_init_brings_up:
  assumes "oa_bringup h reg on_read on_write plain" and "sizeofDevice \<le> devMemSize"
  shows "\<exists>s' e'. MAC_Init h sizeofDevice devMemSize fcsCheckEn (s, e) = Some (Inr (), s', e') \<and>
     m_state s' = ADI_MAC_STATE_READY \<and> m_spiState s' = ADI_MAC_SPI_STATE_READY \<and>
     \<not> s_irqEnabled s' \<and> \<not> m_configSync s' \<and> m_fcsCheckEn s' = fcsCheckEn \<and>
     queueIsEmpty (m_txQueue s') \<and> queueIsEmpty (m_rxQueueLp s') \<and>
     reg e' ADDR_MAC_IMASK0 = m_irqMask0 s' \<and> reg e' ADDR_MAC_IMASK1 = m_irqMask1 s' \<and>
     (reg e' ADDR_MAC_CONFIG0 AND BITM_MAC_CONFIG0_TXFCSVE \<noteq> 0 \<longleftrightarrow> fcsCheckEn) \<and>
     (reg e' ADDR_MAC_CONFIG2 AND BITM_MAC_CONFIG2_CRC_APPEND = 0 \<longleftrightarrow> fcsCheckEn)"
  using oa_bringup.mac_init_device [OF assms, of fcsCheckEn s e] by (fastforce simp: can_access_def)

definition chip_off :: chip where
  "chip_off = \<lparr>c_reg = (\<lambda>_. 0), c_phy = phy_reset_values, c_latch = (\<lambda>_. 0), c_busy = 0\<rparr>"

theorem mac_init_brings_up_witness:
  "\<exists>s' e'. MAC_Init chip_hal 1000 2000 False (static_state (\<lambda>_. blank_desc), chip_off) = Some (Inr (), s', e') \<and>
     m_state s' = ADI_MAC_STATE_READY \<and> chip_reg e' ADDR_MAC_IMASK0 = m_irqMask0 s'"
  using mac_init_brings_up [OF chip.oa_bringup_axioms, of 1000 2000 False "static_state (\<lambda>_. blank_desc)" chip_off]
  by auto

end
