(* ===== verification/Mac_Props.thy ===== *)
theory Mac_Props
  imports Mac_Client
begin

text \<open>
  Properties of the configuration entries of the MAC driver over a device whose registers
  hold what is written to them.
\<close>

section \<open>Forwarding\<close>

lemma and_bit_eq_0: "(x AND push_bit n 1 = 0) = (\<not> bit (x :: 'a::len word) n)"
  by (simp add: bit_iff_and_push_bit_not_eq_0)

text \<open>The four fields of \<open>CONFIG2\<close> and all of them.\<close>

lemma forward_masks:
  "BITM_MAC_CONFIG2_P1_FWD_UNK2HOST = push_bit BITP_MAC_CONFIG2_P1_FWD_UNK2HOST 1"
  "BITM_MAC_CONFIG2_P2_FWD_UNK2HOST = push_bit BITP_MAC_CONFIG2_P2_FWD_UNK2HOST 1"
  "BITM_MAC_CONFIG2_P1_FWD_UNK2P2 = push_bit BITP_MAC_CONFIG2_P1_FWD_UNK2P2 1"
  "BITM_MAC_CONFIG2_P2_FWD_UNK2P1 = push_bit BITP_MAC_CONFIG2_P2_FWD_UNK2P1 1"
  by (simp_all add: mac_regs)

definition forward_of :: "u32 \<Rightarrow> adi_mac_ForwardMode_t" where
  "forward_of val =
     \<lparr>P1_FWD_UNK_TO_HOST = bit val BITP_MAC_CONFIG2_P1_FWD_UNK2HOST,
      P2_FWD_UNK_TO_HOST = bit val BITP_MAC_CONFIG2_P2_FWD_UNK2HOST,
      P1_FWD_UNK_TO_P2 = bit val BITP_MAC_CONFIG2_P1_FWD_UNK2P2,
      P2_FWD_UNK_TO_P1 = bit val BITP_MAC_CONFIG2_P2_FWD_UNK2P1\<rparr>"

lemma forward_of_bits: "forward_of (forward_bits mode) = mode"
  by (simp add: forward_of_def forward_bits_def bool_bit_def bit_simps mac_regs)

lemma forward_of_merge:
  "forward_of ((val AND NOT msk) OR (forward_bits mode AND msk)) =
     \<lparr>P1_FWD_UNK_TO_HOST = (if bit msk BITP_MAC_CONFIG2_P1_FWD_UNK2HOST then P1_FWD_UNK_TO_HOST mode
        else P1_FWD_UNK_TO_HOST (forward_of val)),
      P2_FWD_UNK_TO_HOST = (if bit msk BITP_MAC_CONFIG2_P2_FWD_UNK2HOST then P2_FWD_UNK_TO_HOST mode
        else P2_FWD_UNK_TO_HOST (forward_of val)),
      P1_FWD_UNK_TO_P2 = (if bit msk BITP_MAC_CONFIG2_P1_FWD_UNK2P2 then P1_FWD_UNK_TO_P2 mode
        else P1_FWD_UNK_TO_P2 (forward_of val)),
      P2_FWD_UNK_TO_P1 = (if bit msk BITP_MAC_CONFIG2_P2_FWD_UNK2P1 then P2_FWD_UNK_TO_P1 mode
        else P2_FWD_UNK_TO_P1 (forward_of val))\<rparr>"
  by (simp add: forward_of_def forward_bits_def bool_bit_def bit_simps mac_regs)


text \<open>
  \<open>MAC_SetForwardMode\<close> changes exactly the fields of the mode that its mask names and no
  other register, and \<open>MAC_GetForwardMode\<close> then returns them: with all four in the mask, the
  mode that was set.
\<close>

theorem forward_mode_roundtrip:
  assumes "oa_regfile h reg on_read on_write plain" and "ADDR_MAC_CONFIG2 \<in> plain"
  shows "\<exists>e1 e2. mac_call (MAC_SetForwardMode h mode msk) s e (Inr ()) s e1 \<and>
     mac_call (MAC_GetForwardMode h) s e1 (Inr (forward_of (reg e1 ADDR_MAC_CONFIG2))) s e2 \<and>
     reg e1 ADDR_MAC_CONFIG2 = (reg e ADDR_MAC_CONFIG2 AND NOT msk) OR (forward_bits mode AND msk) \<and>
     (\<forall>a \<in> plain - {ADDR_MAC_CONFIG2}. reg e1 a = reg e a) \<and>
     (msk = BITM_MAC_CONFIG2_P1_FWD_UNK2HOST OR BITM_MAC_CONFIG2_P2_FWD_UNK2HOST OR
        BITM_MAC_CONFIG2_P1_FWD_UNK2P2 OR BITM_MAC_CONFIG2_P2_FWD_UNK2P1 \<longrightarrow>
      forward_of (reg e1 ADDR_MAC_CONFIG2) = mode)"
proof -
  let ?v = "(reg e ADDR_MAC_CONFIG2 AND NOT msk) OR (forward_bits mode AND msk)"
  define e1 where "e1 = on_write ADDR_MAC_CONFIG2 ?v (on_read ADDR_MAC_CONFIG2 e)"
  note laws = oa_regfile.reg_on_write [OF assms(1)] oa_regfile.reg_on_read [OF assms(1)]
  have set_it: "mac_call (MAC_SetForwardMode h mode msk) s e (Inr ()) s e1"
    unfolding e1_def by (rule oa_regfile.set_forward_mode [OF assms])
  have get_it: "mac_call (MAC_GetForwardMode h) s e1 (Inr (forward_of (reg e1 ADDR_MAC_CONFIG2))) s
     (on_read ADDR_MAC_CONFIG2 e1)"
    using oa_regfile.get_forward_mode [OF assms, of s e1]
    by (simp only: forward_masks and_bit_eq_0 not_not forward_of_def)
  have val: "reg e1 ADDR_MAC_CONFIG2 = ?v" by (simp add: e1_def laws assms(2))
  have "forward_of (reg e1 ADDR_MAC_CONFIG2) = mode"
    if "msk = BITM_MAC_CONFIG2_P1_FWD_UNK2HOST OR BITM_MAC_CONFIG2_P2_FWD_UNK2HOST OR
        BITM_MAC_CONFIG2_P1_FWD_UNK2P2 OR BITM_MAC_CONFIG2_P2_FWD_UNK2P1"
    unfolding val forward_of_merge that forward_masks by (simp add: bit_simps mac_regs)
  moreover have "\<forall>a \<in> plain - {ADDR_MAC_CONFIG2}. reg e1 a = reg e a"
    by (simp add: e1_def laws assms(2))
  ultimately show ?thesis by (intro exI conjI impI) (rule set_it, rule get_it, rule val)
qed

theorem forward_mode_roundtrip_witness:
  "\<exists>e1. mac_call (MAC_SetForwardMode chip_hal (forward_of 0x1004) BITM_MAC_CONFIG2_P1_FWD_UNK2HOST)
     (static_state (\<lambda>_. blank_desc)) chip_off (Inr ()) (static_state (\<lambda>_. blank_desc)) e1 \<and>
     chip_reg e1 ADDR_MAC_CONFIG0 = 0"
proof -
  have "ADDR_MAC_CONFIG2 \<in> chip_plain" "ADDR_MAC_CONFIG0 \<in> chip_plain - {ADDR_MAC_CONFIG2}"
    "chip_reg chip_off ADDR_MAC_CONFIG0 = 0"
    by (simp_all add: chip_plain_def mdio_regs_def mac_regs chip_off_def chip_reg_def)
  with forward_mode_roundtrip [OF chip.oa_regfile_axioms, of "forward_of 0x1004"
      BITM_MAC_CONFIG2_P1_FWD_UNK2HOST "static_state (\<lambda>_. blank_desc)" chip_off]
  show ?thesis by metis
qed

section \<open>Address filters\<close>

lemma mbind_mopt_Some [simp]: "mbind (mopt (Some x)) f = f x"
  by (rule ext) (simp add: mbind_def mopt_def)

lemma mbind_mret [simp]: "mbind (mret x) f = f x"
  by (rule ext) (simp add: mbind_def mret_def)

lemma then_state_get:
  assumes "\<And>s. scratch s = scratch t \<Longrightarrow> f s = f t" and "mac_call (m (f t)) t e r t' e'"
  shows "mac_call (mbind (mget_s (\<lambda>s. (m_state s, f s)))
     (\<lambda>(state, x). if state = ADI_MAC_STATE_UNINITIALIZED then k x else m x)) t e r t' e'"
proof (rule mac_callI)
  fix s assume s: "can_access s" "scratch s = scratch t"
  have u: "m_state s \<noteq> ADI_MAC_STATE_UNINITIALIZED" using s(1) by (auto simp: can_access_def)
  obtain s' where r: "m (f t) (s, e) = Some (r, s', e')" "can_access s'" "scratch s' = scratch t'"
    by (rule mac_callE [OF assms(2) s])
  have "mbind (mget_s (\<lambda>s. (m_state s, f s)))
     (\<lambda>(state, x). if state = ADI_MAC_STATE_UNINITIALIZED then k x else m x) (s, e) = m (f s) (s, e)"
    using u by (simp add: mbind_def mget_s_def mget_def)
  then show "\<exists>s'. mbind (mget_s (\<lambda>s. (m_state s, f s)))
     (\<lambda>(state, x). if state = ADI_MAC_STATE_UNINITIALIZED then k x else m x) (s, e) = Some (r, s', e') \<and>
     can_access s' \<and> scratch s' = scratch t'"
    unfolding assms(1) [OF s(2)] using r by (intro exI conjI) (rule trans)
qed

text \<open>
  The addresses that the code computes for entry \<open>i\<close>.  All sixteen entries have address words;
  only the first two have mask words, behind which other registers follow.
\<close>

definition filt_upr :: "nat \<Rightarrow> u32" where "filt_upr i = of_nat (0x50 + 2 * i)"
definition filt_lwr :: "nat \<Rightarrow> u32" where "filt_lwr i = of_nat (0x51 + 2 * i)"
definition msk_upr :: "nat \<Rightarrow> u32" where "msk_upr i = of_nat (0x70 + 2 * i)"
definition msk_lwr :: "nat \<Rightarrow> u32" where "msk_lwr i = of_nat (0x71 + 2 * i)"

lemmas filter_regs = filt_upr_def filt_lwr_def msk_upr_def msk_lwr_def

lemma filter_offset_regs:
  assumes "i \<le> 16"
  shows "filter_offset i + ADDR_MAC_ADDR_FILT_UPR_0 = filt_upr i"
    "filter_offset i + ADDR_MAC_ADDR_FILT_LWR_0 = filt_lwr i"
    "filter_offset i + ADDR_MAC_ADDR_MSK_UPR_0 = msk_upr i"
    "filter_offset i + ADDR_MAC_ADDR_MSK_LWR_0 = msk_lwr i"
proof -
  have "of_nat i * 2 < (0x10000 :: u32)"
    using assms by (simp add: word_less_nat_alt unat_word_ariths unat_of_nat take_bit_nat_eq_self)
  then have "filter_offset i = of_nat i * 2"
    by (simp add: filter_offset_def U16_id mac_regs)
  then show "filter_offset i + ADDR_MAC_ADDR_FILT_UPR_0 = filt_upr i"
    "filter_offset i + ADDR_MAC_ADDR_FILT_LWR_0 = filt_lwr i"
    "filter_offset i + ADDR_MAC_ADDR_MSK_UPR_0 = msk_upr i"
    "filter_offset i + ADDR_MAC_ADDR_MSK_LWR_0 = msk_lwr i"
    by (simp_all add: filter_regs mac_regs)
qed

lemma filter_regs_16:
  assumes "i \<le> 16"
  shows "U16 (filt_upr i) = filt_upr i" "U16 (filt_lwr i) = filt_lwr i" "U16 (msk_upr i) = msk_upr i"
    "U16 (msk_lwr i) = msk_lwr i"
  by (rule U16_id, use assms in \<open>simp add: filter_regs word_less_nat_alt unat_of_nat take_bit_nat_eq_self del: of_nat_add of_nat_mult\<close>)+

text \<open>The mask words; without a mask all bits count.\<close>

definition mask_words :: "u8 list option \<Rightarrow> u32 \<times> u32" where
  "mask_words m = (case m of None \<Rightarrow> (0xFFFF, 0xFFFFFFFF) | Some m \<Rightarrow> (mac_upr m, mac_lwr m))"

lemma mac_upr_take [simp]: "mac_upr (take 6 a) = mac_upr a" and mac_lwr_take [simp]: "mac_lwr (take 6 a) = mac_lwr a"
  by (simp_all add: mac_upr_def mac_lwr_def)

lemma filter_index_le: "fst (filter_index b active) \<le> 16"
proof -
  have "first_free active addrIndex is \<le> 16" if "addrIndex \<le> 16" "\<forall>i \<in> set is. i \<le> 16" for addrIndex "is"
    using that by (induction "is") auto
  then show ?thesis
    by (simp add: filter_index_def Let_def ADI_MAC_ADDR_NUM_ENTRIES_def ADI_MAC_ADDR_MASK_MAX_def)
qed

context oa_regfile
begin

lemma then_write_16:
  "\<lbrakk>U16 a = a; mac_call (f ()) t (on_write a v e) r t' e'\<rbrakk> \<Longrightarrow>
   mac_call (mbind (MAC_WriteRegister h a v) f) t e r t' e'"
  using then_write [of f t a v e r t' e'] by simp

lemma add_address_filter:
  assumes idx: "filter_index (msk \<noteq> None) (m_addrFilterActive t) = (i, n)" "i \<noteq> n"
    and len: "6 \<le> length addr" "\<And>m. msk = Some m \<Longrightarrow> 6 \<le> length m"
  shows "mac_call (MAC_AddAddressFilter h addr msk addrRule) t e (Inr ()) (set_active i True t)
     (on_write (msk_lwr i) (snd (mask_words msk)) (on_write (msk_upr i) (fst (mask_words msk))
       (on_write (filt_lwr i) (mac_lwr addr)
         (on_write (filt_upr i) (push_bit 16 (ucast addrRule) OR mac_upr addr) e))))"
proof -
  have "i \<le> 16" using filter_index_le [of "msk \<noteq> None" "m_addrFilterActive t"] idx(1) by simp
  note regs = filter_offset_regs [OF this] and p = filter_regs_16 [OF this]
  have a: "mem_read addr 0 6 = Some (take 6 addr)" using len(1) by simp
  have m: "(case msk of None \<Rightarrow> mret (0xFFFF, 0xFFFFFFFF)
       | Some m \<Rightarrow> mbind (mopt (mem_read m 0 6)) (\<lambda>m. mret (mac_upr m, mac_lwr m))) = mret (mask_words msk)"
    using len(2) by (cases msk) (simp_all add: mask_words_def mem_read_ok del: mem_read_Some)
  show ?thesis
    unfolding MAC_AddAddressFilter_def
    by (rule then_state_get, erule scratch_fields,
      simp only: idx fst_conv snd_conv if_False regs Let_def a mbind_mopt_Some m mbind_mret split_beta
        mac_upr_take mac_lwr_take,
      rule then_write_16 [OF p(1)], rule then_write_16 [OF p(2)], rule then_write_16 [OF p(3)],
      rule then_write_16 [OF p(4)], rule mac_call_upd, simp add: set_active_def,
      frule scratch_fields(6), simp only: set_active_def scratch_upd if_True)
qed

lemma clear_address_filter:
  assumes "unat i < 16"
  shows "mac_call (MAC_ClearAddressFilter h i) t e (Inr ()) (set_active (unat i) False t)
     (on_write (filt_upr (unat i)) 0 e)"
proof -
  have i: "\<not> ADI_MAC_ADDR_NUM_ENTRIES \<le> unat i" using assms(1) by (simp add: ADI_MAC_ADDR_NUM_ENTRIES_def)
  note off = filter_offset_regs(1) [OF less_imp_le [OF assms]]
  show ?thesis
    unfolding MAC_ClearAddressFilter_def
    by (rule mac_call_unless_uninitialized, unfold if_not_P [OF i] off,
      rule then_write_16 [OF filter_regs_16(1) [OF less_imp_le [OF assms]]], rule mac_call_upd, simp add: set_active_def,
      frule scratch_fields(6), simp only: set_active_def scratch_upd if_False)
qed

end

text \<open>The entry chosen: the first one that is free.\<close>

lemma first_free_upt:
  "first_free active d [m..<n] = (if \<forall>j. m \<le> j \<and> j < n \<longrightarrow> bit active j then d else (LEAST j. m \<le> j \<and> \<not> bit active j))"
proof (induction "n - m" arbitrary: m)
  case 0
  then show ?case by auto
next
  case (Suc k)
  then have r: "[m..<n] = m # [Suc m..<n]" by (simp add: upt_conv_Cons)
  show ?case
  proof (cases "bit active m")
    case True
    then have eq: "(m \<le> j \<and> \<not> bit active j) = (Suc m \<le> j \<and> \<not> bit active j)" for j
      by (auto simp: Suc_le_eq le_less)
    have all: "(\<forall>j. m \<le> j \<and> j < n \<longrightarrow> bit active j) = (\<forall>j. Suc m \<le> j \<and> j < n \<longrightarrow> bit active j)"
      using eq by blast
    show ?thesis using Suc.hyps(1) [of "Suc m"] Suc.hyps(2) True by (auto simp: r all eq)
  next
    case False
    have "(LEAST j. m \<le> j \<and> \<not> bit active j) = m" by (rule Least_equality) (use False in auto)
    with False Suc.hyps(2) show ?thesis by (auto simp: r)
  qed
qed

lemma filter_index_free:
  assumes "\<not> bit active i" and "\<forall>j<i. bit active j" and "i < (if masked then 2 else 16)"
  shows "filter_index masked active = (i, if masked then 2 else 16)"
proof -
  have "(LEAST j. 0 \<le> j \<and> \<not> bit active j) = i"
  proof (rule Least_equality)
    show "0 \<le> i \<and> \<not> bit active i" using assms(1) by simp
    show "i \<le> y" if "0 \<le> y \<and> \<not> bit active y" for y using that assms(2) linorder_not_less by blast
  qed
  moreover have "\<not> (\<forall>j. 0 \<le> j \<and> j < (if masked then 2 else 16) \<longrightarrow> bit active j)" using assms(1,3) by blast
  ultimately show ?thesis
    unfolding filter_index_def Let_def first_free_upt ADI_MAC_ADDR_MASK_MAX_def ADI_MAC_ADDR_NUM_ENTRIES_def
    by (simp only: if_False)
qed

lemma filter_index_masked_full:
  assumes "bit active 0" "bit active 1"
  shows "filter_index True active = (16, 2)"
proof -
  have "bit active j" if "j < 2" for j using that assms by (auto simp: less_2_cases_iff)
  then show ?thesis
    by (simp add: filter_index_def Let_def first_free_upt ADI_MAC_ADDR_MASK_MAX_def ADI_MAC_ADDR_NUM_ENTRIES_def)
qed

lemma bit_set_active:
  "bit (m_addrFilterActive (set_active i b s)) j =
     (if j = i \<and> i < 16 then b else bit (m_addrFilterActive s) j)"
proof (cases "j < 16")
  case True
  then show ?thesis by (auto simp: set_active_def bit_simps)
next
  case False
  then have "\<not> bit (x :: u16) j" for x by (simp add: impossible_bit)
  with False show ?thesis by auto
qed

text \<open>
  C21: on success a filter takes the first free entry of the table, and the driver makes exactly
  four writes: the rule with the upper two bytes of the address, the lower four, and the words of
  the mask (all ones without one) at the mask offset of the entry; its bit is set in the table of
  used entries and no other is changed.  Clearing the entry resets its rule and frees it again.
  For the first two entries, which have mask registers, this leaves the rule, the address and the
  mask in the registers of the entry and every other plain register as it was.
\<close>

theorem address_filter_entry:
  assumes "oa_regfile h reg on_read on_write plain"
    and "\<not> bit (m_addrFilterActive t) i" and "\<forall>j<i. bit (m_addrFilterActive t) j"
    and "i < (if msk \<noteq> None then 2 else 16)"
    and "6 \<le> length addr" and "\<And>m. msk = Some m \<Longrightarrow> 6 \<le> length m"
  shows "\<exists>t1 e1 t2. mac_call (MAC_AddAddressFilter h addr msk addrRule) t e (Inr ()) t1 e1 \<and>
     e1 = on_write (msk_lwr i) (snd (mask_words msk)) (on_write (msk_upr i) (fst (mask_words msk))
       (on_write (filt_lwr i) (mac_lwr addr) (on_write (filt_upr i)
         (push_bit 16 (ucast addrRule) OR push_bit 8 (ucast (addr ! 0)) OR ucast (addr ! 1)) e))) \<and>
     (\<forall>j. bit (m_addrFilterActive t1) j = (bit (m_addrFilterActive t) j \<or> j = i)) \<and>
     mac_call (MAC_ClearAddressFilter h (of_nat i)) t1 e1 (Inr ()) t2 (on_write (filt_upr i) 0 e1) \<and>
     m_addrFilterActive t2 = m_addrFilterActive t \<and>
     (i < 2 \<and> {filt_upr i, filt_lwr i, msk_upr i, msk_lwr i} \<subseteq> plain \<longrightarrow>
       reg e1 (filt_upr i) = push_bit 16 (ucast addrRule) OR push_bit 8 (ucast (addr ! 0)) OR ucast (addr ! 1) \<and>
       reg e1 (filt_lwr i) = mac_lwr addr \<and> (reg e1 (msk_upr i), reg e1 (msk_lwr i)) = mask_words msk \<and>
       (\<forall>a \<in> plain - {filt_upr i, filt_lwr i, msk_upr i, msk_lwr i}. reg e1 a = reg e a) \<and>
       reg (on_write (filt_upr i) 0 e1) (filt_upr i) = 0)"
proof -
  have i: "i < 16" using assms(4) by (simp split: if_splits)
  have idx: "filter_index (msk \<noteq> None) (m_addrFilterActive t) = (i, if msk \<noteq> None then 2 else 16)"
    by (rule filter_index_free [OF assms(2-4)])
  define e1 where "e1 = on_write (msk_lwr i) (snd (mask_words msk)) (on_write (msk_upr i) (fst (mask_words msk))
       (on_write (filt_lwr i) (mac_lwr addr) (on_write (filt_upr i)
         (push_bit 16 (ucast addrRule) OR push_bit 8 (ucast (addr ! 0)) OR ucast (addr ! 1)) e)))"
  have upr: "push_bit 16 (ucast addrRule) OR mac_upr addr =
      push_bit 16 (ucast addrRule) OR push_bit 8 (ucast (addr ! 0)) OR ucast (addr ! 1)"
    by (simp add: mac_upr_def or.assoc)
  have add: "mac_call (MAC_AddAddressFilter h addr msk addrRule) t e (Inr ()) (set_active i True t) e1"
    unfolding e1_def upr [symmetric] using assms(4)
    by (intro oa_regfile.add_address_filter [OF assms(1) idx] assms(5,6)) (simp_all split: if_splits)
  have u: "unat (of_nat i :: u32) = i" using i by (simp add: unat_of_nat take_bit_nat_eq_self)
  have clear: "mac_call (MAC_ClearAddressFilter h (of_nat i)) (set_active i True t) e1 (Inr ())
     (set_active i False (set_active i True t)) (on_write (filt_upr i) 0 e1)"
    using oa_regfile.clear_address_filter [OF assms(1), of "of_nat i"] i by (simp only: u)
  have act: "\<forall>j. bit (m_addrFilterActive (set_active i True t)) j = (bit (m_addrFilterActive t) j \<or> j = i)"
    using i by (auto simp: bit_set_active)
  have free: "m_addrFilterActive (set_active i False (set_active i True t)) = m_addrFilterActive t"
    by (rule bit_word_eqI) (use i assms(2) in \<open>auto simp: bit_set_active\<close>)
  have d: "distinct [filt_upr i, filt_lwr i, msk_upr i, msk_lwr i]"
    using i by (simp add: filter_regs word_of_nat_eq_iff take_bit_nat_eq_self del: of_nat_add of_nat_mult)
  have w: "reg (on_write a v e) b = (if b = a then v else reg e b)" if "a \<in> plain" "b \<in> plain" for a v e b
    by (rule oa_regfile.reg_on_write [OF assms(1) that])
  have regs: "reg e1 (filt_upr i) = push_bit 16 (ucast addrRule) OR push_bit 8 (ucast (addr ! 0)) OR ucast (addr ! 1) \<and>
       reg e1 (filt_lwr i) = mac_lwr addr \<and> (reg e1 (msk_upr i), reg e1 (msk_lwr i)) = mask_words msk \<and>
       (\<forall>a \<in> plain - {filt_upr i, filt_lwr i, msk_upr i, msk_lwr i}. reg e1 a = reg e a) \<and>
       reg (on_write (filt_upr i) 0 e1) (filt_upr i) = 0"
    if "{filt_upr i, filt_lwr i, msk_upr i, msk_lwr i} \<subseteq> plain"
    using d that by (simp add: e1_def w)
  show ?thesis
    by (intro exI conjI) (rule add, rule e1_def, rule act, rule clear, rule free, use regs in blast)
qed

theorem address_filter_entry_witness:
  "\<exists>t1 e1. mac_call (MAC_AddAddressFilter chip_hal [1, 2, 3, 4, 5, 6] (Some [255, 255, 255, 0, 0, 0]) 0x8000)
     ((static_state (\<lambda>_. blank_desc))\<lparr>m_addrFilterActive := 1\<rparr>) chip_off (Inr ()) t1 e1 \<and>
     chip_reg e1 0x52 = 0x80000102 \<and> chip_reg e1 0x53 = 0x03040506 \<and> chip_reg e1 0x72 = 0xFFFF"
proof -
  let ?t = "(static_state (\<lambda>_. blank_desc))\<lparr>m_addrFilterActive := 1\<rparr>"
  have h: "{filt_upr 1, filt_lwr 1, msk_upr 1, msk_lwr 1} \<subseteq> chip_plain"
    by (simp add: filter_regs chip_plain_def mdio_regs_def mac_regs)
  have a: "\<not> bit (m_addrFilterActive ?t) 1" "\<forall>j<1. bit (m_addrFilterActive ?t) j" by simp_all
  have v: "push_bit 16 (ucast (0x8000 :: u16)) OR push_bit 8 (ucast ([1, 2, 3, 4, 5, 6 :: u8] ! 0)) OR ucast ([1, 2, 3, 4, 5, 6 :: u8] ! 1) =
      (0x80000102 :: u32)" "mac_lwr [1, 2, 3, 4, 5, 6] = 0x03040506"
    "mask_words (Some [255, 255, 255, 0, 0, 0]) = (0xFFFF, 0xFF000000)"
    by (code_simp)+
  obtain t1 e1 where r: "mac_call (MAC_AddAddressFilter chip_hal [1, 2, 3, 4, 5, 6] (Some [255, 255, 255, 0, 0, 0]) 0x8000)
       ?t chip_off (Inr ()) t1 e1"
     "chip_reg e1 (filt_upr 1) = push_bit 16 (ucast (0x8000 :: u16)) OR
        push_bit 8 (ucast ([1, 2, 3, 4, 5, 6 :: u8] ! 0)) OR ucast ([1, 2, 3, 4, 5, 6 :: u8] ! 1)"
     "chip_reg e1 (filt_lwr 1) = mac_lwr [1, 2, 3, 4, 5, 6]"
     "(chip_reg e1 (msk_upr 1), chip_reg e1 (msk_lwr 1)) = mask_words (Some [255, 255, 255, 0, 0, 0])"
    using address_filter_entry [OF chip.oa_regfile_axioms a, where msk = "Some [255, 255, 255, 0, 0, 0]" and
        addr = "[1, 2, 3, 4, 5, 6]" and addrRule = "0x8000" and e = chip_off] h by auto
  from r(2-4) have "chip_reg e1 0x52 = 0x80000102" "chip_reg e1 0x53 = 0x03040506" "chip_reg e1 0x72 = 0xFFFF"
    unfolding v by (simp_all add: filter_regs)
  with r(1) show ?thesis by blast
qed

text \<open>
  C22: a filter with a mask is not refused when both entries with a mask are in use.  The
  driver reports success and records no entry, and its address words replace the mask of the
  first entry.
\<close>

theorem third_mask_overwrites_first:
  assumes "oa_regfile h reg on_read on_write plain"
    and "{msk_upr 0, msk_lwr 0, msk_upr 16, msk_lwr 16} \<subseteq> plain"
    and "bit (m_addrFilterActive t) 0" "bit (m_addrFilterActive t) 1"
    and "6 \<le> length addr" "6 \<le> length m"
  shows "\<exists>t1 e1. mac_call (MAC_AddAddressFilter h addr (Some m) addrRule) t e (Inr ()) t1 e1 \<and>
     m_addrFilterActive t1 = m_addrFilterActive t \<and>
     reg e1 (msk_upr 0) = push_bit 16 (ucast addrRule) OR mac_upr addr \<and> reg e1 (msk_lwr 0) = mac_lwr addr"
proof -
  have same: "filt_upr 16 = msk_upr 0" "filt_lwr 16 = msk_lwr 0" by (simp_all add: filter_regs)
  have idx: "filter_index (Some m \<noteq> None) (m_addrFilterActive t) = (16, 2)"
    using filter_index_masked_full [OF assms(3,4)] by simp
  define e1 where "e1 = on_write (msk_lwr 16) (snd (mask_words (Some m))) (on_write (msk_upr 16) (fst (mask_words (Some m)))
       (on_write (filt_lwr 16) (mac_lwr addr)
         (on_write (filt_upr 16) (push_bit 16 (ucast addrRule) OR mac_upr addr) e)))"
  have "mac_call (MAC_AddAddressFilter h addr (Some m) addrRule) t e (Inr ()) (set_active 16 True t) e1"
    unfolding e1_def
    by (rule oa_regfile.add_address_filter [OF assms(1) idx]) (use assms(5,6) in simp_all)
  moreover have "m_addrFilterActive (set_active 16 True t) = m_addrFilterActive t"
    by (rule bit_word_eqI) (simp add: bit_set_active)
  moreover have "distinct [msk_upr 0, msk_lwr 0, msk_upr 16, msk_lwr 16]" by (simp add: filter_regs)
  moreover have "reg (on_write a v e) b = (if b = a then v else reg e b)" if "a \<in> plain" "b \<in> plain" for a v e b
    by (rule oa_regfile.reg_on_write [OF assms(1) that])
  ultimately show ?thesis using assms(2) by (intro exI [of _ "set_active 16 True t"] exI [of _ e1]) (simp add: e1_def same)
qed

theorem third_mask_overwrites_first_witness:
  "\<exists>t1 e1. mac_call (MAC_AddAddressFilter chip_hal [1, 2, 3, 4, 5, 6] (Some [255, 255, 255, 0, 0, 0]) 0x8000)
     ((static_state (\<lambda>_. blank_desc))\<lparr>m_addrFilterActive := 3\<rparr>) chip_off (Inr ()) t1 e1 \<and>
     chip_reg e1 0x71 = 0x03040506"
proof -
  let ?t = "(static_state (\<lambda>_. blank_desc))\<lparr>m_addrFilterActive := 3\<rparr>"
  have h: "{msk_upr 0, msk_lwr 0, msk_upr 16, msk_lwr 16} \<subseteq> chip_plain"
    by (simp add: filter_regs chip_plain_def mdio_regs_def mac_regs)
  have a: "bit (m_addrFilterActive ?t) 0" "bit (m_addrFilterActive ?t) 1" by simp_all
  have "mac_lwr [1, 2, 3, 4, 5, 6] = 0x03040506" "msk_lwr 0 = 0x71" by (code_simp, simp add: filter_regs)
  with third_mask_overwrites_first [OF chip.oa_regfile_axioms h a, where addr = "[1, 2, 3, 4, 5, 6]" and
      m = "[255, 255, 255, 0, 0, 0]" and addrRule = "0x8000" and e = chip_off] show ?thesis by auto
qed

text \<open>
  Only two entries of the table have mask words, but the mask of any entry is written.  The
  ninth filter, which takes entry 8, sets the rate of the timestamp clock, \<open>TS_ADDEND\<close>, to 0xFFFF.
\<close>

theorem ninth_filter_changes_clock:
  assumes "oa_regfile h reg on_read on_write plain"
    and "{filt_upr 8, filt_lwr 8, ADDR_MAC_TS_ADDEND, msk_lwr 8} \<subseteq> plain"
    and "\<forall>j<8. bit (m_addrFilterActive t) j" and "\<not> bit (m_addrFilterActive t) 8"
    and "6 \<le> length addr"
  shows "\<exists>t1 e1. mac_call (MAC_AddAddressFilter h addr None addrRule) t e (Inr ()) t1 e1 \<and>
     reg e1 ADDR_MAC_TS_ADDEND = 0xFFFF"
proof -
  have same: "msk_upr 8 = ADDR_MAC_TS_ADDEND" by (simp add: filter_regs mac_regs)
  have "filter_index ((None :: u8 list option) \<noteq> None) (m_addrFilterActive t) =
      (8, if (None :: u8 list option) \<noteq> None then 2 else 16)"
    by (rule filter_index_free [OF assms(4,3)]) simp
  then have idx: "filter_index ((None :: u8 list option) \<noteq> None) (m_addrFilterActive t) = (8, 16)" by simp
  define e1 where "e1 = on_write (msk_lwr 8) (snd (mask_words None)) (on_write (msk_upr 8) (fst (mask_words None))
       (on_write (filt_lwr 8) (mac_lwr addr)
         (on_write (filt_upr 8) (push_bit 16 (ucast addrRule) OR mac_upr addr) e)))"
  have "mac_call (MAC_AddAddressFilter h addr None addrRule) t e (Inr ()) (set_active 8 True t) e1"
    unfolding e1_def
    by (rule oa_regfile.add_address_filter [OF assms(1) idx]) (use assms(5) in simp_all)
  moreover have "reg (on_write a v e) b = (if b = a then v else reg e b)" if "a \<in> plain" "b \<in> plain" for a v e b
    by (rule oa_regfile.reg_on_write [OF assms(1) that])
  moreover have "ADDR_MAC_TS_ADDEND \<noteq> msk_lwr 8" by (simp add: filter_regs mac_regs)
  ultimately show ?thesis
    using assms(2) by (intro exI [of _ "set_active 8 True t"] exI [of _ e1]) (simp add: e1_def same mask_words_def)
qed

theorem ninth_filter_changes_clock_witness:
  "\<exists>t1 e1. mac_call (MAC_AddAddressFilter chip_hal [1, 2, 3, 4, 5, 6] None 0x8000)
     ((static_state (\<lambda>_. blank_desc))\<lparr>m_addrFilterActive := 255\<rparr>) chip_off (Inr ()) t1 e1 \<and>
     chip_reg e1 ADDR_MAC_TS_ADDEND = 0xFFFF"
proof -
  let ?t = "(static_state (\<lambda>_. blank_desc))\<lparr>m_addrFilterActive := 255\<rparr>"
  have h: "{filt_upr 8, filt_lwr 8, ADDR_MAC_TS_ADDEND, msk_lwr 8} \<subseteq> chip_plain"
    by (simp add: filter_regs chip_plain_def mdio_regs_def mac_regs)
  have "\<forall>j<8. bit (255 :: u16) j" by code_simp
  then have a: "\<forall>j<8. bit (m_addrFilterActive ?t) j" "\<not> bit (m_addrFilterActive ?t) 8" by simp_all
  show ?thesis
    using ninth_filter_changes_clock [OF chip.oa_regfile_axioms h a, where addr = "[1, 2, 3, 4, 5, 6]" and addrRule = "0x8000" and e = chip_off] by simp
qed

end
