(* ===== verification/Mac_Setup.thy ===== *)
theory Mac_Setup
  imports Mac_Props Adin2111_Ctl
begin

text \<open>
  Properties of the set-up of the device: the entries that are refused once the configuration
  is synchronised, chunk size, cut-through and FIFO sizes, and the timestamp counters.
\<close>

section \<open>Synchronised configuration\<close>

lemma unless_synced_done: "m_configSync s \<Longrightarrow> unless_synced m (s, e) = Some (Inl ADI_ETH_CONFIG_SYNC_ERROR, s, e)"
  by (simp add: unless_synced_def mbind_def mget_s_def mget_def mfail_def)

text \<open>
  Once the configuration is synchronised the entries that set the chunk size, the
  cut-through mode, the FIFO sizes and the timestamp format are refused, without touching the
  driver or the device.
\<close>

theorem synced_config_is_frozen:
  assumes "m_configSync s"
    and "m \<in> {MAC_SetChunkSize h cps, MAC_SetCutThroughMode h txcte rxcte, MAC_SetFifoSizes h sizes, MAC_TsEnable h format}"
  shows "m (s, e) = Some (Inl ADI_ETH_CONFIG_SYNC_ERROR, s, e)"
  using assms
  by (auto simp: MAC_SetChunkSize_def MAC_SetCutThroughMode_def MAC_SetFifoSizes_def MAC_TsEnable_def
      unless_synced_done mbind_def mget_s_def mget_def mfail_def)

theorem synced_config_is_frozen_witness:
  "MAC_SetChunkSize chip_hal ADI_MAC_OA_CPS_8BYTE ((static_state (\<lambda>_. blank_desc))\<lparr>m_configSync := True\<rparr>, chip_off) =
     Some (Inl ADI_ETH_CONFIG_SYNC_ERROR, (static_state (\<lambda>_. blank_desc))\<lparr>m_configSync := True\<rparr>, chip_off)"
  by (rule synced_config_is_frozen [of _ _ chip_hal ADI_MAC_OA_CPS_8BYTE]) simp_all

section \<open>Triples\<close>

lemma mac_call_unless_synced:
  assumes "\<not> m_configSync t" and "mac_call m t e r t' e'"
  shows "mac_call (unless_synced m) t e r t' e'"
  unfolding unless_synced_def
  by (rule then_get, rule scratch_fields, assumption) (use assms in simp)

lemma frozen_after_sync: "m_configSync (t\<lparr>s_irqEnabled := True, m_configSync := True\<rparr>)" by simp

context oa_regfile
begin

lemma set_chunk_size:
  assumes "ADDR_MAC_CONFIG0 \<in> plain" and "\<not> m_configSync t"
  shows "mac_call (MAC_SetChunkSize h cps) t e (Inr ())
     (t\<lparr>m_oaMaxChunkCount := (if cps = ADI_MAC_OA_CPS_64BYTE then ADI_OA_MAX_CHUNK64_COUNT else ADI_OA_MAX_CHUNK_COUNT),
        m_oaCps := cps_value cps\<rparr>)
     (on_write ADDR_MAC_CONFIG0 ((reg e ADDR_MAC_CONFIG0 AND NOT BITM_MAC_CONFIG0_CPS) OR
       (of_nat (cps_value cps) AND BITM_MAC_CONFIG0_CPS)) (on_read ADDR_MAC_CONFIG0 e))"
  unfolding MAC_SetChunkSize_def
  by (rule mac_call_unless_synced [OF assms(2)], rule then_read_plain [OF assms(1)],
    rule then_write_plain [OF assms(1)], rule mac_call_upd) simp_all

lemma get_chunk_size:
  assumes "ADDR_MAC_CONFIG0 \<in> plain"
  shows "mac_call (MAC_GetChunkSize h) t e
     (if unat (reg e ADDR_MAC_CONFIG0 AND BITM_MAC_CONFIG0_CPS) \<noteq> m_oaCps t then Inl ADI_ETH_VALUE_MISMATCH_ERROR
      else Inr (reg e ADDR_MAC_CONFIG0 AND BITM_MAC_CONFIG0_CPS)) t (on_read ADDR_MAC_CONFIG0 e)"
  unfolding MAC_GetChunkSize_def Let_def
  by (rule then_read_plain [OF assms], rule then_get, rule scratch_fields, assumption)
    (simp add: mac_call_ret mac_call_fail)

lemma set_cut_through:
  assumes "ADDR_MAC_CONFIG0 \<in> plain" and "\<not> m_configSync t"
  shows "mac_call (MAC_SetCutThroughMode h txcte rxcte) t e (Inr ()) t
     (on_write ADDR_MAC_CONFIG0 ((reg e ADDR_MAC_CONFIG0 AND NOT (BITM_MAC_CONFIG0_RXCTE OR BITM_MAC_CONFIG0_TXCTE)) OR
       (bool_bit BITP_MAC_CONFIG0_RXCTE rxcte OR bool_bit BITP_MAC_CONFIG0_TXCTE txcte)) (on_read ADDR_MAC_CONFIG0 e))"
  unfolding MAC_SetCutThroughMode_def Let_def
  by (rule mac_call_unless_synced [OF assms(2)], rule then_read_plain [OF assms(1)], rule write_plain [OF assms(1)])

lemma get_cut_through:
  assumes "ADDR_MAC_CONFIG0 \<in> plain"
  shows "mac_call (MAC_GetCutThroughMode h) t e
     (Inr (reg e ADDR_MAC_CONFIG0 AND BITM_MAC_CONFIG0_TXCTE \<noteq> 0, reg e ADDR_MAC_CONFIG0 AND BITM_MAC_CONFIG0_RXCTE \<noteq> 0))
     t (on_read ADDR_MAC_CONFIG0 e)"
  unfolding MAC_GetCutThroughMode_def by (rule then_read_plain [OF assms]) (rule mac_call_ret)

end

section \<open>Chunk size and cut-through\<close>

lemma cps_bits:
  "((x AND NOT BITM_MAC_CONFIG0_CPS) OR (of_nat (cps_value cps) AND BITM_MAC_CONFIG0_CPS)) AND BITM_MAC_CONFIG0_CPS =
     of_nat (cps_value cps)"
proof -
  have "of_nat (cps_value cps) AND BITM_MAC_CONFIG0_CPS = of_nat (cps_value cps)"
    by (cases cps) (simp_all add: cps_value_def mac_regs)
  then show ?thesis by (simp add: bit.conj_disj_distrib2 and.assoc)
qed

lemma cut_through_bits:
  fixes x :: u32 and txcte rxcte :: bool
  defines "y \<equiv> (x AND NOT (BITM_MAC_CONFIG0_RXCTE OR BITM_MAC_CONFIG0_TXCTE)) OR
       (bool_bit BITP_MAC_CONFIG0_RXCTE rxcte OR bool_bit BITP_MAC_CONFIG0_TXCTE txcte)"
  shows "y AND BITM_MAC_CONFIG0_TXCTE \<noteq> 0 \<longleftrightarrow> txcte" "y AND BITM_MAC_CONFIG0_RXCTE \<noteq> 0 \<longleftrightarrow> rxcte"
    "y AND BITM_MAC_CONFIG0_CPS = x AND BITM_MAC_CONFIG0_CPS"
proof -
  have m: "BITM_MAC_CONFIG0_TXCTE = push_bit BITP_MAC_CONFIG0_TXCTE 1"
    "BITM_MAC_CONFIG0_RXCTE = push_bit BITP_MAC_CONFIG0_RXCTE 1"
    "BITP_MAC_CONFIG0_TXCTE < 32" "BITP_MAC_CONFIG0_RXCTE < 32" "BITP_MAC_CONFIG0_TXCTE \<noteq> BITP_MAC_CONFIG0_RXCTE"
    "\<not> bit BITM_MAC_CONFIG0_CPS BITP_MAC_CONFIG0_TXCTE" "\<not> bit BITM_MAC_CONFIG0_CPS BITP_MAC_CONFIG0_RXCTE"
    by (simp_all add: mac_regs)
  show "y AND BITM_MAC_CONFIG0_TXCTE \<noteq> 0 \<longleftrightarrow> txcte" "y AND BITM_MAC_CONFIG0_RXCTE \<noteq> 0 \<longleftrightarrow> rxcte"
    unfolding y_def m(1,2) and_bit_eq_0 using m(3-5) by (auto simp: bool_bit_def bit_simps)
  show "y AND BITM_MAC_CONFIG0_CPS = x AND BITM_MAC_CONFIG0_CPS"
    unfolding y_def m(1,2) using m(3-) by (intro bit_word_eqI) (auto simp: bool_bit_def bit_simps)
qed

text \<open>
  C24: setting the chunk size and then the cut-through mode tells the device both: its \<open>CONFIG0\<close>
  holds the code of the chunk size, which is also that of the chunks the driver composes, and
  both are read back; no other register is changed.
\<close>

theorem chunk_size_roundtrip:
  assumes "oa_regfile h reg on_read on_write plain" and "ADDR_MAC_CONFIG0 \<in> plain" and "\<not> m_configSync t"
  shows "\<exists>t1 e1 e2 e3 e4. mac_call (MAC_SetChunkSize h cps) t e (Inr ()) t1 e1 \<and>
     mac_call (MAC_SetCutThroughMode h txcte rxcte) t1 e1 (Inr ()) t1 e2 \<and>
     mac_call (MAC_GetChunkSize h) t1 e2 (Inr (of_nat (cps_value cps))) t1 e3 \<and>
     mac_call (MAC_GetCutThroughMode h) t1 e3 (Inr (txcte, rxcte)) t1 e4 \<and>
     chunkSize t1 = 2 ^ cps_value cps \<and> (\<forall>a \<in> plain - {ADDR_MAC_CONFIG0}. reg e4 a = reg e a)"
proof -
  let ?c = "of_nat (cps_value cps) :: u32"
  let ?t1 = "t\<lparr>m_oaMaxChunkCount := (if cps = ADI_MAC_OA_CPS_64BYTE then ADI_OA_MAX_CHUNK64_COUNT else ADI_OA_MAX_CHUNK_COUNT),
      m_oaCps := cps_value cps\<rparr>"
  note laws = oa_regfile.reg_on_write [OF assms(1)] oa_regfile.reg_on_read [OF assms(1)]
  define e1 where "e1 = on_write ADDR_MAC_CONFIG0 ((reg e ADDR_MAC_CONFIG0 AND NOT BITM_MAC_CONFIG0_CPS) OR
       (?c AND BITM_MAC_CONFIG0_CPS)) (on_read ADDR_MAC_CONFIG0 e)"
  define e2 where "e2 = on_write ADDR_MAC_CONFIG0
       ((reg e1 ADDR_MAC_CONFIG0 AND NOT (BITM_MAC_CONFIG0_RXCTE OR BITM_MAC_CONFIG0_TXCTE)) OR
       (bool_bit BITP_MAC_CONFIG0_RXCTE rxcte OR bool_bit BITP_MAC_CONFIG0_TXCTE txcte)) (on_read ADDR_MAC_CONFIG0 e1)"
  define e3 where "e3 = on_read ADDR_MAC_CONFIG0 e2"
  have u: "unat ?c = cps_value cps" by (cases cps) (simp_all add: cps_value_def)
  have v: "reg e2 ADDR_MAC_CONFIG0 AND BITM_MAC_CONFIG0_CPS = ?c"
    by (simp only: e2_def laws assms(2) simp_thms if_True cut_through_bits) (simp only: e1_def laws assms(2) simp_thms if_True cps_bits)
  have w: "reg e3 ADDR_MAC_CONFIG0 AND BITM_MAC_CONFIG0_TXCTE \<noteq> 0 \<longleftrightarrow> txcte"
    "reg e3 ADDR_MAC_CONFIG0 AND BITM_MAC_CONFIG0_RXCTE \<noteq> 0 \<longleftrightarrow> rxcte"
    by (simp_all only: e3_def e2_def laws assms(2) simp_thms if_True cut_through_bits)
  have 1: "mac_call (MAC_SetChunkSize h cps) t e (Inr ()) ?t1 e1"
    unfolding e1_def by (rule oa_regfile.set_chunk_size [OF assms])
  have 2: "mac_call (MAC_SetCutThroughMode h txcte rxcte) ?t1 e1 (Inr ()) ?t1 e2"
    unfolding e2_def by (rule oa_regfile.set_cut_through [OF assms(1,2)]) (simp add: assms(3))
  have 3: "mac_call (MAC_GetChunkSize h) ?t1 e2 (Inr ?c) ?t1 e3"
    using oa_regfile.get_chunk_size [OF assms(1,2), of ?t1 e2] unfolding v u e3_def by simp
  have 4: "mac_call (MAC_GetCutThroughMode h) ?t1 e3 (Inr (txcte, rxcte)) ?t1 (on_read ADDR_MAC_CONFIG0 e3)"
    using oa_regfile.get_cut_through [OF assms(1,2), of ?t1 e3] unfolding w .
  have 5: "chunkSize ?t1 = 2 ^ cps_value cps" by (simp add: chunkSize_def)
  have 6: "\<forall>a \<in> plain - {ADDR_MAC_CONFIG0}. reg (on_read ADDR_MAC_CONFIG0 e3) a = reg e a"
    by (simp add: e1_def e2_def e3_def laws assms(2))
  show ?thesis by (intro exI conjI) (rule 1, rule 2, rule 3, rule 4, rule 5, rule 6)
qed

theorem chunk_size_roundtrip_witness:
  "\<exists>t1 e1. mac_call (MAC_SetChunkSize chip_hal ADI_MAC_OA_CPS_32BYTE) (static_state (\<lambda>_. blank_desc)) chip_off
     (Inr ()) t1 e1 \<and> chunkSize t1 = 32"
proof -
  have "ADDR_MAC_CONFIG0 \<in> chip_plain" by (simp add: chip_plain_def mdio_regs_def mac_regs)
  moreover have "\<not> m_configSync (static_state (\<lambda>_. blank_desc))" by (simp add: static_state_def device_init_def)
  ultimately show ?thesis
    using chunk_size_roundtrip [OF chip.oa_regfile_axioms, of "static_state (\<lambda>_. blank_desc)" ADI_MAC_OA_CPS_32BYTE chip_off True True]
    by (auto simp: cps_value_def)
qed

section \<open>The clock\<close>

lemma ts_coerce_ns_bounds:
  "16 \<le> unat (ts_coerce_ns n)" "unat (ts_coerce_ns n) < 1000000000"
  by (auto simp: ts_coerce_ns_def Let_def ADI_MAC_TS_MIN_NS_def ADI_MAC_TS_ONE_SECOND_IN_NS_def word_less_nat_alt not_less)

lemma ts_coerce_ns_id: "16 \<le> unat n \<Longrightarrow> unat n < 1000000000 \<Longrightarrow> ts_coerce_ns n = n"
  by (simp add: ts_coerce_ns_def Let_def ADI_MAC_TS_MIN_NS_def ADI_MAC_TS_ONE_SECOND_IN_NS_def word_less_nat_alt)

lemma and_not_low_mask: "unat (n AND NOT ADI_MAC_TS_QE_MASK) = unat n div 16 * 16"
proof -
  have m: "ADI_MAC_TS_QE_MASK = mask 4" by (simp add: ADI_MAC_TS_QE_MASK_def mask_eq_exp_minus_1)
  have "n AND NOT ADI_MAC_TS_QE_MASK = push_bit 4 (drop_bit 4 n)"
    unfolding m by (rule bit_word_eqI) (auto simp: bit_simps)
  moreover have "unat n div 16 * 16 < 2 ^ 32"
    using unsigned_less [of n, where ?'a = nat] by simp
  ultimately show ?thesis
    by (simp only: unsigned_push_bit_eq unsigned_drop_bit_eq)
      (simp add: drop_bit_eq_div push_bit_eq_mult take_bit_nat_eq_self)
qed

text \<open>
  A device with a running clock.  \<open>TS_ADDEND\<close> holds the rate.  While it is 0 the counters of the
  clock stand still and can be loaded; while it is not, nothing is known of them.  Loading them
  changes no plain register.
\<close>

locale clock_regfile = oa_regfile +
  assumes addend_plain: "ADDR_MAC_TS_ADDEND \<in> plain"
    and counters_not_plain: "ADDR_MAC_TS_SEC_CNT \<notin> plain" "ADDR_MAC_TS_NS_CNT \<notin> plain"
    and load: "\<lbrakk>reg e ADDR_MAC_TS_ADDEND = 0; a \<in> {ADDR_MAC_TS_SEC_CNT, ADDR_MAC_TS_NS_CNT};
        b \<in> {ADDR_MAC_TS_SEC_CNT, ADDR_MAC_TS_NS_CNT}\<rbrakk> \<Longrightarrow>
        reg (on_write a v e) b = (if b = a then v else reg e b)"
    and load_plain: "\<lbrakk>a \<in> {ADDR_MAC_TS_SEC_CNT, ADDR_MAC_TS_NS_CNT}; b \<in> plain\<rbrakk> \<Longrightarrow>
        reg (on_write a v e) b = reg e b"
begin

text \<open>
  Setting the clock: when the rate is written back, the clock stands at the time given, and
  nothing else has changed.
\<close>

lemma set_clock:
  "\<exists>e'. mac_call (MAC_TsSetTimerAbsolute h seconds nanoseconds) t e (Inr ()) t
       (on_write ADDR_MAC_TS_ADDEND (reg e ADDR_MAC_TS_ADDEND) e') \<and>
     reg e' ADDR_MAC_TS_ADDEND = 0 \<and> reg e' ADDR_MAC_TS_SEC_CNT = seconds \<and>
     reg e' ADDR_MAC_TS_NS_CNT = ts_coerce_ns nanoseconds AND NOT ADI_MAC_TS_QE_MASK \<and>
     (\<forall>a \<in> plain - {ADDR_MAC_TS_ADDEND}. reg e' a = reg e a)"
proof -
  let ?ns = "ts_coerce_ns nanoseconds AND NOT ADI_MAC_TS_QE_MASK"
  define e1 where "e1 = on_write ADDR_MAC_TS_ADDEND 0 (on_read ADDR_MAC_TS_ADDEND e)"
  define e2 where "e2 = on_write ADDR_MAC_TS_SEC_CNT seconds e1"
  define e3 where "e3 = on_write ADDR_MAC_TS_NS_CNT ?ns e2"
  have u: "U16 ADDR_MAC_TS_SEC_CNT = ADDR_MAC_TS_SEC_CNT" "U16 ADDR_MAC_TS_NS_CNT = ADDR_MAC_TS_NS_CNT"
    by (simp_all add: U16_id mac_regs)
  have d: "ADDR_MAC_TS_SEC_CNT \<noteq> ADDR_MAC_TS_NS_CNT" by (simp add: mac_regs)
  have "mac_call (MAC_TsSetTimerAbsolute h seconds nanoseconds) t e (Inr ()) t
       (on_write ADDR_MAC_TS_ADDEND (reg e ADDR_MAC_TS_ADDEND) e3)"
    unfolding MAC_TsSetTimerAbsolute_def e3_def e2_def e1_def
    by (rule then_read_plain [OF addend_plain], rule then_write_plain [OF addend_plain],
        rule then_write_16 [OF u(1)], rule then_write_16 [OF u(2)], rule write_plain [OF addend_plain])
  moreover have z: "reg e1 ADDR_MAC_TS_ADDEND = 0" "reg e2 ADDR_MAC_TS_ADDEND = 0" "reg e3 ADDR_MAC_TS_ADDEND = 0"
    by (simp_all add: e1_def e2_def e3_def addend_plain reg_on_write load_plain)
  moreover have "reg e3 ADDR_MAC_TS_SEC_CNT = seconds" "reg e3 ADDR_MAC_TS_NS_CNT = ?ns"
    using d load [OF z(2), of ADDR_MAC_TS_NS_CNT] load [OF z(1), of ADDR_MAC_TS_SEC_CNT]
    by (simp_all add: e2_def e3_def)
  moreover have "\<forall>a \<in> plain - {ADDR_MAC_TS_ADDEND}. reg e3 a = reg e a"
    by (simp add: e1_def e2_def e3_def addend_plain reg_on_write reg_on_read load_plain)
  ultimately show ?thesis by blast
qed

end

text \<open>
  The device of \<open>Adin_Chip\<close> with such a clock: unless the rate is 0, the clock goes on by 16 ns with
  every transaction.  A register reads as it is after that step.
\<close>

definition tick :: "chip \<Rightarrow> chip" where
  "tick c = (if c_reg c ADDR_MAC_TS_ADDEND = 0 then c
     else if c_reg c ADDR_MAC_TS_NS_CNT + 16 < 1000000000
     then c\<lparr>c_reg := (c_reg c)(ADDR_MAC_TS_NS_CNT := c_reg c ADDR_MAC_TS_NS_CNT + 16)\<rparr>
     else c\<lparr>c_reg := (c_reg c)(ADDR_MAC_TS_NS_CNT := 0, ADDR_MAC_TS_SEC_CNT := c_reg c ADDR_MAC_TS_SEC_CNT + 1)\<rparr>)"

definition tick_reg :: "chip \<Rightarrow> u32 \<Rightarrow> u32" where "tick_reg c = chip_reg (tick c)"
definition tick_on_read :: "u32 \<Rightarrow> chip \<Rightarrow> chip" where "tick_on_read a c = chip_on_read a (tick c)"
definition tick_on_write :: "u32 \<Rightarrow> u32 \<Rightarrow> chip \<Rightarrow> chip" where "tick_on_write a v c = chip_on_write a v (tick c)"
definition tick_hal :: "chip adi_hal" where "tick_hal = regs_hal tick_reg tick_on_read tick_on_write"
definition tick_plain :: "u32 set" where "tick_plain = chip_plain - {ADDR_MAC_TS_SEC_CNT, ADDR_MAC_TS_NS_CNT}"

lemma tick_keeps: "b \<in> tick_plain \<Longrightarrow> chip_reg (tick c) b = chip_reg c b"
  by (auto simp: tick_def tick_plain_def chip_plain_def chip_reg_def)

lemma tick_stopped: "c_reg c ADDR_MAC_TS_ADDEND = 0 \<Longrightarrow> tick c = c"
  by (simp add: tick_def)

lemma addend_chip: "ADDR_MAC_TS_ADDEND \<in> tick_plain" "chip_reg c ADDR_MAC_TS_ADDEND = c_reg c ADDR_MAC_TS_ADDEND"
  by (simp_all add: tick_plain_def chip_plain_def chip_reg_def mdio_regs_def mac_regs)

lemma counter_chip:
  assumes "a \<in> {ADDR_MAC_TS_SEC_CNT, ADDR_MAC_TS_NS_CNT}"
  shows "chip_on_write a v c = c\<lparr>c_reg := (c_reg c)(a := v)\<rparr>" "chip_reg c a = c_reg c a" "a \<noteq> ADDR_MAC_TS_ADDEND"
  using assms by (auto simp: chip_on_write_def chip_reg_def mdio_regs_def mac_regs)

interpretation tick: oa_device tick_hal tick_reg tick_on_read tick_on_write
  unfolding tick_hal_def by (rule regs_device)

interpretation tick: clock_regfile tick_hal tick_reg tick_on_read tick_on_write tick_plain
proof
  fix a b v :: u32 and e :: chip
  assume ab: "a \<in> tick_plain" "b \<in> tick_plain"
  then have "a \<in> chip_plain" "b \<in> chip_plain" by (simp_all add: tick_plain_def)
  from chip.reg_on_write [OF this, of v "tick e"]
  show "tick_reg (tick_on_write a v e) b = (if b = a then v else tick_reg e b)"
    using ab by (simp add: tick_reg_def tick_on_write_def tick_keeps)
next
  fix a b :: u32 and e :: chip assume "b \<in> tick_plain"
  then show "tick_reg (tick_on_read a e) b = tick_reg e b"
    using chip.reg_on_read [of b a "tick e"] by (simp add: tick_reg_def tick_on_read_def tick_keeps) (simp add: tick_plain_def)
next
  fix a :: u32 assume "a \<in> tick_plain" then show "U16 a = a" using chip.plain_16 by (simp add: tick_plain_def)
next
  fix a b v :: u32 and e :: chip
  assume s: "tick_reg e ADDR_MAC_TS_ADDEND = 0" and a: "a \<in> {ADDR_MAC_TS_SEC_CNT, ADDR_MAC_TS_NS_CNT}"
    and b: "b \<in> {ADDR_MAC_TS_SEC_CNT, ADDR_MAC_TS_NS_CNT}"
  have "c_reg e ADDR_MAC_TS_ADDEND = 0"
    using s tick_keeps [OF addend_chip(1), of e] by (simp add: tick_reg_def addend_chip(2))
  then have "tick e = e" "tick (chip_on_write a v e) = chip_on_write a v e"
    using counter_chip [OF a] by (simp_all add: tick_stopped)
  then show "tick_reg (tick_on_write a v e) b = (if b = a then v else tick_reg e b)"
    using counter_chip(1) [OF a] counter_chip(2) [OF b] by (simp add: tick_reg_def tick_on_write_def)
next
  fix a b v :: u32 and e :: chip
  assume a: "a \<in> {ADDR_MAC_TS_SEC_CNT, ADDR_MAC_TS_NS_CNT}" and b: "b \<in> tick_plain"
  then have "b \<noteq> a" "b \<in> chip_plain" by (auto simp: tick_plain_def)
  then have "chip_reg (chip_on_write a v (tick e)) b = chip_reg (tick e) b"
    using counter_chip(1) [OF a] by (auto simp: chip_reg_def chip_plain_def)
  then show "tick_reg (tick_on_write a v e) b = tick_reg e b"
    using b by (simp add: tick_reg_def tick_on_write_def tick_keeps)
next
  show "ADDR_MAC_TS_ADDEND \<in> tick_plain" by (rule addend_chip(1))
qed (simp_all add: tick_plain_def)

text \<open>
  C25: on a device whose clock runs unless its rate is 0, setting the clock stops it, loads the
  seconds, and the nanoseconds brought into the range of the counter, from 16 to one second, and
  rounded down to its 16 ns steps, and then restores the rate: at that point the clock stands at
  this time, and no other plain register has changed.  A time in range that is a multiple of 16 ns
  is set exactly.
\<close>

theorem clock_is_set:
  assumes "clock_regfile h reg on_read on_write plain"
  shows "\<exists>e'. mac_call (MAC_TsSetTimerAbsolute h seconds nanoseconds) t e (Inr ()) t
       (on_write ADDR_MAC_TS_ADDEND (reg e ADDR_MAC_TS_ADDEND) e') \<and>
     reg e' ADDR_MAC_TS_ADDEND = 0 \<and> reg e' ADDR_MAC_TS_SEC_CNT = seconds \<and>
     16 \<le> unat (reg e' ADDR_MAC_TS_NS_CNT) \<and> unat (reg e' ADDR_MAC_TS_NS_CNT) < 1000000000 \<and>
     16 dvd unat (reg e' ADDR_MAC_TS_NS_CNT) \<and>
     (16 \<le> unat nanoseconds \<and> unat nanoseconds < 1000000000 \<longrightarrow>
       unat (reg e' ADDR_MAC_TS_NS_CNT) = unat nanoseconds div 16 * 16) \<and>
     (\<forall>a \<in> plain - {ADDR_MAC_TS_ADDEND}. reg e' a = reg e a)"
proof -
  obtain e' where e': "mac_call (MAC_TsSetTimerAbsolute h seconds nanoseconds) t e (Inr ()) t
       (on_write ADDR_MAC_TS_ADDEND (reg e ADDR_MAC_TS_ADDEND) e')"
     "reg e' ADDR_MAC_TS_ADDEND = 0" "reg e' ADDR_MAC_TS_SEC_CNT = seconds"
     "reg e' ADDR_MAC_TS_NS_CNT = ts_coerce_ns nanoseconds AND NOT ADI_MAC_TS_QE_MASK"
     "\<forall>a \<in> plain - {ADDR_MAC_TS_ADDEND}. reg e' a = reg e a"
    using clock_regfile.set_clock [OF assms] by blast
  have ns: "unat (reg e' ADDR_MAC_TS_NS_CNT) = unat (ts_coerce_ns nanoseconds) div 16 * 16"
    by (simp only: e'(4) and_not_low_mask)
  note b = ts_coerce_ns_bounds [of nanoseconds]
  have "16 \<le> unat (ts_coerce_ns nanoseconds) div 16 * 16" using div_le_mono [OF b(1), of 16] by simp
  moreover have "unat (ts_coerce_ns nanoseconds) div 16 * 16 < 1000000000"
    using b(2) div_times_less_eq_dividend [of "unat (ts_coerce_ns nanoseconds)" 16] by (rule le_less_trans [rotated])
  moreover have "16 dvd unat (ts_coerce_ns nanoseconds) div 16 * 16" by simp
  moreover have "16 \<le> unat nanoseconds \<and> unat nanoseconds < 1000000000 \<longrightarrow>
      unat (ts_coerce_ns nanoseconds) div 16 * 16 = unat nanoseconds div 16 * 16" by (simp add: ts_coerce_ns_id)
  ultimately show ?thesis unfolding ns [symmetric] by (intro exI [of _ e'] conjI e'(1-3,5))
qed

theorem clock_is_set_witness:
  "\<exists>e'. mac_call (MAC_TsSetTimerAbsolute tick_hal 1700000000 20) (static_state (\<lambda>_. blank_desc)) chip_off
     (Inr ()) (static_state (\<lambda>_. blank_desc)) (tick_on_write ADDR_MAC_TS_ADDEND (tick_reg chip_off ADDR_MAC_TS_ADDEND) e') \<and>
     tick_reg e' ADDR_MAC_TS_SEC_CNT = 1700000000 \<and> unat (tick_reg e' ADDR_MAC_TS_NS_CNT) = 16"
  using clock_is_set [OF tick.clock_regfile_axioms, of 1700000000 20 "static_state (\<lambda>_. blank_desc)" chip_off]
  by auto

end
