(* ===== verification/Adin_Client.thy ===== *)
theory Adin_Client
  imports Mac_Setup
begin

text \<open>
  The entries of the switch driver over the MAC driver: triples of the switch, the per-port
  promiscuous and forwarding modes, the FIFO sizes, and the submission of frames to both ports.
\<close>

section \<open>Triples\<close>

text \<open>The switch keeps its own state, for calls of the MAC driver that receive no frame.\<close>

definition adin_call :: "('e, 'a) adin_io \<Rightarrow> adin2111_dev \<Rightarrow> mac_state \<Rightarrow> 'e \<Rightarrow> adi_eth_Result_e + 'a \<Rightarrow>
    adin2111_dev \<Rightarrow> mac_state \<Rightarrow> 'e \<Rightarrow> bool" where
  "adin_call m a t e r a' t' e' \<longleftrightarrow> (\<forall>s. can_access s \<and> scratch s = scratch t \<longrightarrow>
     (\<exists>s'. m (a, s, e) = Some (r, a', s', e') \<and> can_access s' \<and> scratch s' = scratch t'))"

lemma adin_callI:
  assumes "\<And>s. can_access s \<Longrightarrow> scratch s = scratch t \<Longrightarrow>
     \<exists>s'. m (a, s, e) = Some (r, a', s', e') \<and> can_access s' \<and> scratch s' = scratch t'"
  shows "adin_call m a t e r a' t' e'"
  using assms by (simp add: adin_call_def)

lemma adin_callE:
  assumes "adin_call m a t e r a' t' e'" and "can_access s" and "scratch s = scratch t"
  obtains s' where "m (a, s, e) = Some (r, a', s', e')" and "can_access s'" and "scratch s' = scratch t'"
  using assms unfolding adin_call_def by blast

lemma absorb_none [simp]: "s_events s' = s_events s \<Longrightarrow> absorb (length (s_events s)) a s' = Some a"
  by (simp add: absorb_def)

lemma adin_call_on_mac:
  assumes "mac_call m t e r t' e'" and "s_events t' = s_events t"
  shows "adin_call (on_mac m) a t e r a t' e'"
proof (rule adin_callI)
  fix s assume s: "can_access s" "scratch s = scratch t"
  obtain s' where r: "m (s, e) = Some (r, s', e')" "can_access s'" "scratch s' = scratch t'"
    by (rule mac_callE [OF assms(1) s])
  have "s_events s' = s_events s"
    using scratch_fields(11) [OF s(2)] scratch_fields(11) [OF r(3)] assms(2) by simp
  then have "on_mac m (a, s, e) = Some (r, a, s', e')" by (simp add: on_mac_def r(1))
  with r(2,3) show "\<exists>s'. on_mac m (a, s, e) = Some (r, a, s', e') \<and> can_access s' \<and> scratch s' = scratch t'"
    by blast
qed

lemma adin_call_bind:
  assumes "adin_call m a t e (Inr x) a1 t1 e1" and "adin_call (f x) a1 t1 e1 r a2 t2 e2"
  shows "adin_call (mbind m f) a t e r a2 t2 e2"
proof (rule adin_callI)
  fix s assume "can_access s" "scratch s = scratch t"
  then obtain s1 where "m (a, s, e) = Some (Inr x, a1, s1, e1)" and s1: "can_access s1" "scratch s1 = scratch t1"
    by (rule adin_callE [OF assms(1)])
  moreover obtain s2 where "f x (a1, s1, e1) = Some (r, a2, s2, e2)" "can_access s2" "scratch s2 = scratch t2"
    by (rule adin_callE [OF assms(2) s1])
  ultimately show "\<exists>s'. mbind m f (a, s, e) = Some (r, a2, s', e2) \<and> can_access s' \<and> scratch s' = scratch t2"
    by (simp add: mbind_def)
qed

lemma adin_call_ret: "adin_call (mret x) a t e (Inr x) a t e"
  by (simp add: adin_call_def mret_def)

lemma with_port [simp]: "port < 2 \<Longrightarrow> with_port port m = m"
  by (auto simp: with_port_def adin_ports)

section \<open>Ports of the forwarding modes\<close>

text \<open>The four switches of \<open>CONFIG2\<close>: the frames of a port that no filter knows go to the host, and to the other port.\<close>

definition promiscuous :: "nat \<Rightarrow> adi_mac_ForwardMode_t \<Rightarrow> bool" where
  "promiscuous port m = (if port = ADIN2111_PORT_1 then P1_FWD_UNK_TO_HOST m else P2_FWD_UNK_TO_HOST m)"

definition forwards :: "nat \<Rightarrow> adi_mac_ForwardMode_t \<Rightarrow> bool" where
  "forwards port m = (if port = ADIN2111_PORT_1 then P1_FWD_UNK_TO_P2 m else P2_FWD_UNK_TO_P1 m)"

context oa_regfile
begin

lemma on_set_forward:
  assumes "ADDR_MAC_CONFIG2 \<in> plain"
  shows "\<exists>e'. adin_call (on_mac (MAC_SetForwardMode h mode msk)) a t e (Inr ()) a t e' \<and>
     forward_of (reg e' ADDR_MAC_CONFIG2) =
       forward_of ((reg e ADDR_MAC_CONFIG2 AND NOT msk) OR (forward_bits mode AND msk))"
  by (rule exI, rule conjI, rule adin_call_on_mac, rule set_forward_mode [OF assms], rule refl)
    (simp add: reg_on_write assms)

lemma on_get_forward:
  assumes "ADDR_MAC_CONFIG2 \<in> plain"
  shows "adin_call (on_mac (MAC_GetForwardMode h)) a t e (Inr (forward_of (reg e ADDR_MAC_CONFIG2))) a t
     (on_read ADDR_MAC_CONFIG2 e)"
  by (rule adin_call_on_mac)
    (use get_forward_mode [OF assms, of t e] in \<open>simp_all only: forward_masks and_bit_eq_0 not_not forward_of_def\<close>)

lemma set_promiscuous:
  assumes "ADDR_MAC_CONFIG2 \<in> plain" and "port < 2"
  shows "\<exists>e'. adin_call (adin2111_SetPromiscuousMode h port b) a t e (Inr ()) a t e' \<and>
     (\<forall>p<2. promiscuous p (forward_of (reg e' ADDR_MAC_CONFIG2)) =
       (if p = port then b else promiscuous p (forward_of (reg e ADDR_MAC_CONFIG2)))) \<and>
     (\<forall>p<2. forwards p (forward_of (reg e' ADDR_MAC_CONFIG2)) = forwards p (forward_of (reg e ADDR_MAC_CONFIG2)))"
proof (cases "port = ADIN2111_PORT_1")
  case True
  with on_set_forward [OF assms(1), of "no_forward\<lparr>P1_FWD_UNK_TO_HOST := b\<rparr>" BITM_MAC_CONFIG2_P1_FWD_UNK2HOST a t e]
  show ?thesis unfolding forward_of_merge
    by (auto simp: adin2111_SetPromiscuousMode_def adin_ports promiscuous_def forwards_def no_forward_def mac_regs
        less_2_cases_iff)
next
  case False
  with on_set_forward [OF assms(1), of "no_forward\<lparr>P2_FWD_UNK_TO_HOST := b\<rparr>" BITM_MAC_CONFIG2_P2_FWD_UNK2HOST a t e]
    assms(2)
  show ?thesis unfolding forward_of_merge
    by (auto simp: adin2111_SetPromiscuousMode_def adin_ports promiscuous_def forwards_def no_forward_def mac_regs
        less_2_cases_iff)
qed

lemma set_port_forward:
  assumes "ADDR_MAC_CONFIG2 \<in> plain" and "port < 2"
  shows "\<exists>e'. adin_call (adin2111_SetPortForwardMode h port b) a t e (Inr ()) a t e' \<and>
     (\<forall>p<2. forwards p (forward_of (reg e' ADDR_MAC_CONFIG2)) =
       (if p = port then b else forwards p (forward_of (reg e ADDR_MAC_CONFIG2)))) \<and>
     (\<forall>p<2. promiscuous p (forward_of (reg e' ADDR_MAC_CONFIG2)) = promiscuous p (forward_of (reg e ADDR_MAC_CONFIG2)))"
proof (cases "port = ADIN2111_PORT_1")
  case True
  with on_set_forward [OF assms(1), of "no_forward\<lparr>P1_FWD_UNK_TO_P2 := b\<rparr>" BITM_MAC_CONFIG2_P1_FWD_UNK2P2 a t e]
  show ?thesis unfolding forward_of_merge
    by (auto simp: adin2111_SetPortForwardMode_def adin_ports promiscuous_def forwards_def no_forward_def mac_regs
        less_2_cases_iff)
next
  case False
  with on_set_forward [OF assms(1), of "no_forward\<lparr>P2_FWD_UNK_TO_P1 := b\<rparr>" BITM_MAC_CONFIG2_P2_FWD_UNK2P1 a t e]
    assms(2)
  show ?thesis unfolding forward_of_merge
    by (auto simp: adin2111_SetPortForwardMode_def adin_ports promiscuous_def forwards_def no_forward_def mac_regs
        less_2_cases_iff)
qed

lemma get_promiscuous:
  assumes "ADDR_MAC_CONFIG2 \<in> plain" and "port < 2"
  shows "adin_call (adin2111_GetPromiscuousMode h port) a t e
     (Inr (promiscuous port (forward_of (reg e ADDR_MAC_CONFIG2)))) a t (on_read ADDR_MAC_CONFIG2 e)"
  unfolding adin2111_GetPromiscuousMode_def with_port [OF assms(2)] promiscuous_def
  by (rule adin_call_bind, rule on_get_forward [OF assms(1)], rule adin_call_ret)

lemma get_port_forward:
  assumes "ADDR_MAC_CONFIG2 \<in> plain" and "port < 2"
  shows "adin_call (adin2111_GetPortForwardMode h port) a t e
     (Inr (forwards port (forward_of (reg e ADDR_MAC_CONFIG2)))) a t (on_read ADDR_MAC_CONFIG2 e)"
  unfolding adin2111_GetPortForwardMode_def with_port [OF assms(2)] forwards_def
  by (rule adin_call_bind, rule on_get_forward [OF assms(1)], rule adin_call_ret)

end

text \<open>
  C23: after a port's promiscuous mode and a port's forwarding mode have been set, in this order,
  each of the two getters returns, for each of the two ports, the value set for it, and the value
  it had before when it was not set: no setter disturbs the other mode or the other port.
\<close>

theorem port_modes_are_independent:
  assumes "oa_regfile h reg on_read on_write plain" and "ADDR_MAC_CONFIG2 \<in> plain"
    and "p < 2" and "q < 2" and "r < 2"
  shows "\<exists>e1 e2 e3 e4 prom forw. adin_call (adin2111_SetPromiscuousMode h p b) a t e (Inr ()) a t e1 \<and>
     adin_call (adin2111_SetPortForwardMode h q c) a t e1 (Inr ()) a t e2 \<and>
     adin_call (adin2111_GetPromiscuousMode h r) a t e2 (Inr prom) a t e3 \<and>
     adin_call (adin2111_GetPortForwardMode h r) a t e3 (Inr forw) a t e4 \<and>
     prom = (if r = p then b else promiscuous r (forward_of (reg e ADDR_MAC_CONFIG2))) \<and>
     forw = (if r = q then c else forwards r (forward_of (reg e ADDR_MAC_CONFIG2)))"
proof -
  let ?f = "\<lambda>e. forward_of (reg e ADDR_MAC_CONFIG2)"
  obtain e1 where 1: "adin_call (adin2111_SetPromiscuousMode h p b) a t e (Inr ()) a t e1"
      "\<forall>x<2. promiscuous x (?f e1) = (if x = p then b else promiscuous x (?f e))"
      "\<forall>x<2. forwards x (?f e1) = forwards x (?f e)"
    using oa_regfile.set_promiscuous [OF assms(1-3), of b a t e] by blast
  obtain e2 where 2: "adin_call (adin2111_SetPortForwardMode h q c) a t e1 (Inr ()) a t e2"
      "\<forall>x<2. forwards x (?f e2) = (if x = q then c else forwards x (?f e1))"
      "\<forall>x<2. promiscuous x (?f e2) = promiscuous x (?f e1)"
    using oa_regfile.set_port_forward [OF assms(1,2,4), of c a t e1] by blast
  have same: "reg (on_read ADDR_MAC_CONFIG2 e2) ADDR_MAC_CONFIG2 = reg e2 ADDR_MAC_CONFIG2"
    by (rule oa_regfile.reg_on_read [OF assms(1,2)])
  note 3 = oa_regfile.get_promiscuous [OF assms(1,2,5), of a t e2]
  note 4 = oa_regfile.get_port_forward [OF assms(1,2,5), of a t "on_read ADDR_MAC_CONFIG2 e2", unfolded same]
  have "promiscuous r (?f e2) = (if r = p then b else promiscuous r (?f e))"
    "forwards r (?f e2) = (if r = q then c else forwards r (?f e))"
    using 1(2,3) 2(2,3) assms(5) by simp_all
  then show ?thesis by (intro exI conjI) (rule 1(1), rule 2(1), rule 3, rule 4, assumption, assumption)
qed

definition blank_dev :: "dyn_table \<Rightarrow> adi_phy_Device_t \<Rightarrow> adin2111_dev" where
  "blank_dev t p = \<lparr>ad_phy1 = p, ad_phy2 = p, ad_table = t, ad_portEnabled1 = True, ad_portEnabled2 = True,
     ad_tsTimerPin = 1, ad_tsCaptPin = 1\<rparr>"

theorem port_modes_are_independent_witness:
  "\<forall>a. \<exists>e2 e3. adin_call (adin2111_GetPromiscuousMode chip_hal 1) a (static_state (\<lambda>_. blank_desc)) e2 (Inr False) a
     (static_state (\<lambda>_. blank_desc)) e3"
proof -
  have pl: "ADDR_MAC_CONFIG2 \<in> chip_plain" by (simp add: chip_plain_def mdio_regs_def mac_regs)
  have "\<not> promiscuous 1 (forward_of (chip_reg chip_off ADDR_MAC_CONFIG2))"
    by (simp add: promiscuous_def adin_ports forward_of_def chip_off_def chip_reg_def mdio_regs_def mac_regs)
  with port_modes_are_independent [OF chip.oa_regfile_axioms pl, of 0 0 1 True _ "static_state (\<lambda>_. blank_desc)" chip_off True]
  show ?thesis by fastforce
qed

section \<open>FIFO sizes\<close>

lemma nibble_bit:
  fixes x :: u32
  assumes "unat x < 16"
  shows "bit x n = (n < 4 \<and> bit x n)"
proof -
  have "take_bit 4 x = x" using take_bit_word_less [of x 4] assms by (simp add: word_less_nat_alt)
  then have "bit x n = bit (take_bit 4 x) n" by simp
  then show ?thesis by (simp only: bit_take_bit_iff)
qed

lemma fifo_masks:
  "BITM_MAC_FIFO_SIZE_HTX_SIZE = push_bit 0 (mask 4)" "BITM_MAC_FIFO_SIZE_P1_RX_LO_SIZE = push_bit 4 (mask 4)"
  "BITM_MAC_FIFO_SIZE_P1_RX_HI_SIZE = push_bit 8 (mask 4)" "BITM_MAC_FIFO_SIZE_P2_RX_LO_SIZE = push_bit 12 (mask 4)"
  "BITM_MAC_FIFO_SIZE_P2_RX_HI_SIZE = push_bit 16 (mask 4)" "BITM_MAC_FIFO_SIZE_P1_TX_SIZE = push_bit 20 (mask 4)"
  "BITM_MAC_FIFO_SIZE_P2_TX_SIZE = push_bit 24 (mask 4)"
  by (simp_all add: mac_regs mask_eq_exp_minus_1)

lemma fifo_positions:
  "BITP_MAC_FIFO_SIZE_HTX_SIZE = 0" "BITP_MAC_FIFO_SIZE_P1_RX_LO_SIZE = 4"
  "BITP_MAC_FIFO_SIZE_P1_RX_HI_SIZE = 8" "BITP_MAC_FIFO_SIZE_P2_RX_LO_SIZE = 12"
  "BITP_MAC_FIFO_SIZE_P2_RX_HI_SIZE = 16" "BITP_MAC_FIFO_SIZE_P1_TX_SIZE = 20" "BITP_MAC_FIFO_SIZE_P2_TX_SIZE = 24"
  by (simp_all add: mac_regs)

lemma nibble_field:
  fixes x :: u32
  assumes "unat x < 16" and "k \<le> 28"
  shows "drop_bit k (push_bit k x AND push_bit k (mask 4)) = x"
    and "k + 4 \<le> j \<or> j + 4 \<le> k \<Longrightarrow> push_bit j x AND push_bit k (mask 4) = 0"
proof -
  have n: "n < 4" if "bit x n" for n using nibble_bit [OF assms(1)] that by blast
  show "drop_bit k (push_bit k x AND push_bit k (mask 4)) = x"
    using assms(2) by (intro bit_word_eqI) (auto simp: bit_simps dest: n)
  show "push_bit j x AND push_bit k (mask 4) = 0" if "k + 4 \<le> j \<or> j + 4 \<le> k"
  proof (rule bit_word_eqI)
    fix i assume "i < LENGTH(32)"
    have "\<not> (j \<le> i \<and> i - j < 4 \<and> k \<le> i \<and> i - k < 4)" using that by arith
    then show "bit (push_bit j x AND push_bit k (mask 4)) i = bit (0 :: u32) i"
      by (auto simp: bit_simps dest!: n)
  qed
qed

lemma fifo_word_roundtrip:
  assumes "\<forall>x \<in> {htxSize f, p1RxLoSize f, p1RxHiSize f, p2RxLoSize f, p2RxHiSize f, p1TxSize f, p2TxSize f}. unat x < 16"
  shows "fifo_of_word (fifo_word f) = f"
  using assms
  by (simp add: fifo_of_word_def fifo_word_def fifo_masks fifo_positions bit.conj_disj_distrib2 nibble_field
      del: push_bit_0_id drop_bit_0 drop_bit_and)

text \<open>
  FIFO sizes that exceed the 28 kB of the device are refused without an access; others, each
  of them in the range of its field, are written to the device and read back as they were set.
\<close>

theorem fifo_sizes_roundtrip:
  assumes "oa_regfile h reg on_read on_write plain" and "ADDR_MAC_FIFO_SIZE \<in> plain" and "\<not> m_configSync t"
    and "\<forall>x \<in> {htxSize f, p1RxLoSize f, p1RxHiSize f, p2RxLoSize f, p2RxHiSize f, p1TxSize f, p2TxSize f}. unat x < 16"
  shows "\<exists>e1 e2. if 14 < unat (htxSize f) + unat (p1RxLoSize f) + unat (p1RxHiSize f) + unat (p2RxLoSize f)
       + unat (p2RxHiSize f) + unat (p1TxSize f) + unat (p2TxSize f)
     then adin_call (adin2111_SetFifoSizes h f) a t e (Inl ADI_ETH_FIFO_SIZE_ERROR) a t e
     else adin_call (adin2111_SetFifoSizes h f) a t e (Inr ()) a t e1 \<and>
       adin_call (adin2111_GetFifoSizes h) a t e1 (Inr f) a t e2"
proof -
  let ?n = "unat (htxSize f) + unat (p1RxLoSize f) + unat (p1RxHiSize f) + unat (p2RxLoSize f)
       + unat (p2RxHiSize f) + unat (p1TxSize f) + unat (p2TxSize f)"
  have n: "?n \<le> 105" using assms(4) by auto
  have "fifo_total f = of_nat (2 * ?n)" by (simp add: fifo_total_def)
  then have "unat (fifo_total f) = 2 * ?n" using n by (simp only: unat_of_nat) (simp add: take_bit_nat_eq_self)
  then have over: "(fifo_total f > ADI_MAC_FIFO_MAX_SIZE) = (14 < ?n)"
    by (auto simp: word_less_nat_alt ADI_MAC_FIFO_MAX_SIZE_def)
  show ?thesis
  proof (cases "14 < ?n")
    case True
    with over have "adin2111_SetFifoSizes h f = mfail ADI_ETH_FIFO_SIZE_ERROR" by (simp add: adin2111_SetFifoSizes_def)
    then have "adin_call (adin2111_SetFifoSizes h f) a t e (Inl ADI_ETH_FIFO_SIZE_ERROR) a t e"
      by (simp add: adin_call_def mfail_def)
    with True show ?thesis by simp
  next
    case False
    define e1 where "e1 = on_write ADDR_MAC_FIFO_SIZE (fifo_word f) e"
    have "adin2111_SetFifoSizes h f = on_mac (MAC_SetFifoSizes h (fifo_word f))"
      using False over by (simp add: adin2111_SetFifoSizes_def)
    moreover have "adin_call (on_mac (MAC_SetFifoSizes h (fifo_word f))) a t e (Inr ()) a t e1"
      unfolding e1_def MAC_SetFifoSizes_def
      by (rule adin_call_on_mac [OF mac_call_unless_synced [OF assms(3) oa_regfile.write_plain [OF assms(1,2)]] refl])
    moreover have "reg e1 ADDR_MAC_FIFO_SIZE = fifo_word f"
      by (simp add: e1_def oa_regfile.reg_on_write [OF assms(1)] assms(2))
    then have "adin_call (adin2111_GetFifoSizes h) a t e1 (Inr (fifo_of_word (fifo_word f))) a t (on_read ADDR_MAC_FIFO_SIZE e1)"
      unfolding adin2111_GetFifoSizes_def MAC_GetFifoSizes_def
      using adin_call_on_mac [OF oa_regfile.read_plain [OF assms(1,2), of t e1] refl, of a]
      by (auto intro: adin_call_bind adin_call_ret)
    ultimately show ?thesis using False fifo_word_roundtrip [OF assms(4)] by auto
  qed
qed

theorem fifo_sizes_roundtrip_witness:
  "\<forall>a. \<exists>e1 e2. adin_call (adin2111_SetFifoSizes chip_hal \<lparr>htxSize = 2, p1RxLoSize = 3, p1RxHiSize = 1, p2RxLoSize = 3,
       p2RxHiSize = 1, p1TxSize = 2, p2TxSize = 2\<rparr>) a (static_state (\<lambda>_. blank_desc)) chip_off (Inr ()) a
       (static_state (\<lambda>_. blank_desc)) e1 \<and>
     adin_call (adin2111_GetFifoSizes chip_hal) a (static_state (\<lambda>_. blank_desc)) e1 (Inr \<lparr>htxSize = 2, p1RxLoSize = 3,
       p1RxHiSize = 1, p2RxLoSize = 3, p2RxHiSize = 1, p1TxSize = 2, p2TxSize = 2\<rparr>) a (static_state (\<lambda>_. blank_desc)) e2"
proof -
  have pl: "ADDR_MAC_FIFO_SIZE \<in> chip_plain" by (simp add: chip_plain_def mdio_regs_def mac_regs)
  have "\<not> m_configSync (static_state (\<lambda>_. blank_desc))" by (simp add: static_state_def device_init_def)
  from fifo_sizes_roundtrip [OF chip.oa_regfile_axioms pl this, of "\<lparr>htxSize = 2, p1RxLoSize = 3, p1RxHiSize = 1,
       p2RxLoSize = 3, p2RxHiSize = 1, p1TxSize = 2, p2TxSize = 2\<rparr>" _ chip_off]
  show ?thesis by simp
qed

end
