(* ===== verification/Adin_Flood.thy ===== *)
theory Adin_Flood
  imports Adin_Client
begin

text \<open>
  Submission of a frame to both ports while a transaction is under way, when both copies wait
  in the transmit queue.
\<close>

section \<open>One submission\<close>

definition fcs_room :: "mac_state \<Rightarrow> nat" where
  "fcs_room s = (if m_fcsCheckEn s then FCS_SIZE else 0)"

text \<open>The driver is in a transaction: a submission only queues.\<close>

definition mac_busy :: "mac_state \<Rightarrow> bool" where
  "mac_busy s \<longleftrightarrow> m_state s \<noteq> ADI_MAC_STATE_UNINITIALIZED \<and> m_state s \<noteq> ADI_MAC_STATE_READY"

definition queued_frame :: "mac_state \<Rightarrow> nat \<Rightarrow> u8 list \<Rightarrow> u16 \<Rightarrow> mac_state" where
  "queued_frame s d buf header = s\<lparr>s_bufs := (s_bufs s)(d := (s_bufs s d)\<lparr>bd_pBuf := buf,
       bd_trxSize := bd_trxSize (s_bufs s d) + fcs_room s\<rparr>),
     m_txQueue := queuePut (m_txQueue s) \<lparr>fs_header = header, fs_pBufDesc = Some d\<rparr>\<rparr>"

lemma append_fcs_room:
  assumes "bd_trxSize (s_bufs s d) + fcs_room s \<le> length (bd_pBuf (s_bufs s d))"
  shows "\<exists>buf. append_fcs d s = Some (s\<lparr>s_bufs := (s_bufs s)(d := (s_bufs s d)\<lparr>bd_pBuf := buf,
       bd_trxSize := bd_trxSize (s_bufs s d) + fcs_room s\<rparr>)\<rparr>) \<and>
     length buf = length (bd_pBuf (s_bufs s d)) \<and>
     take (bd_trxSize (s_bufs s d)) buf = take (bd_trxSize (s_bufs s d)) (bd_pBuf (s_bufs s d))"
proof (cases "m_fcsCheckEn s")
  case True
  let ?b = "bd_pBuf (s_bufs s d)" and ?n = "bd_trxSize (s_bufs s d)"
  have r: "mem_read ?b 0 ?n = Some (take ?n ?b)" using assms by simp
  have "\<exists>buf. mem_write ?b ?n (le_bytes32 (HAL_FcsCalculate (take ?n ?b))) = Some buf \<and>
      length buf = length ?b \<and> take ?n buf = take ?n ?b"
    using assms True by (auto simp: mem_write_def fcs_room_def frame_sizes)
  with r show ?thesis by (auto simp: append_fcs_def True Let_def upd_desc_def fcs_room_def simp del: mem_read_Some)
next
  case False
  then show ?thesis
    by (intro exI [of _ "bd_pBuf (s_bufs s d)"]) (simp add: append_fcs_def fcs_room_def)
qed

lemma submit_busy:
  assumes "mac_busy s" and "MIN_FRAME_SIZE \<le> bd_trxSize (s_bufs s d)" and "bd_trxSize (s_bufs s d) \<le> MAX_FRAME_SIZE"
    and "bd_trxSize (s_bufs s d) + fcs_room s \<le> bd_bufSize (s_bufs s d)"
    and "bd_bufSize (s_bufs s d) \<le> length (bd_pBuf (s_bufs s d))" and "\<not> queueIsFull (m_txQueue s)"
  shows "\<exists>buf. MAC_SubmitTxBuffer h header (Some d) (s, e) = Some (Inr (), queued_frame s d buf header, e) \<and>
     length buf = length (bd_pBuf (s_bufs s d)) \<and>
     take (bd_trxSize (s_bufs s d)) buf = take (bd_trxSize (s_bufs s d)) (bd_pBuf (s_bufs s d))"
proof -
  have "submit_tx_check (Some d) s = Inr d"
    using assms by (auto simp: submit_tx_check_def Let_def mac_busy_def fcs_room_def split: if_splits)
  moreover have "bd_trxSize (s_bufs s d) + fcs_room s \<le> length (bd_pBuf (s_bufs s d))" using assms(4,5) by simp
  note append_fcs_room [OF this]
  moreover have "m_state s \<noteq> ADI_MAC_STATE_READY" using assms(1) by (simp add: mac_busy_def)
  ultimately show ?thesis
    by (auto simp: MAC_SubmitTxBuffer_def enqueue_tx_def queued_frame_def)
qed

lemma submit_port_busy:
  assumes "mac_busy s" and "MIN_FRAME_SIZE \<le> bd_trxSize (s_bufs s d)" and "bd_trxSize (s_bufs s d) \<le> MAX_FRAME_SIZE"
    and "bd_trxSize (s_bufs s d) + fcs_room s \<le> bd_bufSize (s_bufs s d)"
    and "bd_bufSize (s_bufs s d) \<le> length (bd_pBuf (s_bufs s d))" and "\<not> queueIsFull (m_txQueue s)"
  shows "\<exists>buf. submit_port h d port (a, s, e) =
       Some (Inr (), a, queued_frame (upd_desc d (\<lambda>b. b\<lparr>bd_port := port\<rparr>) s) d buf
         (frame_header (bd_egressCapt (s_bufs s d)) port), e) \<and>
     length buf = length (bd_pBuf (s_bufs s d)) \<and>
     take (bd_trxSize (s_bufs s d)) buf = take (bd_trxSize (s_bufs s d)) (bd_pBuf (s_bufs s d))"
proof -
  let ?s = "upd_desc d (\<lambda>b. b\<lparr>bd_port := port\<rparr>) s"
  obtain buf where b: "MAC_SubmitTxBuffer h (frame_header (bd_egressCapt (s_bufs s d)) port) (Some d) (?s, e) =
      Some (Inr (), queued_frame ?s d buf (frame_header (bd_egressCapt (s_bufs s d)) port), e)"
      "length buf = length (bd_pBuf (s_bufs s d))"
      "take (bd_trxSize (s_bufs s d)) buf = take (bd_trxSize (s_bufs s d)) (bd_pBuf (s_bufs s d))"
    using submit_busy [of ?s d h "frame_header (bd_egressCapt (s_bufs s d)) port" e] assms
    by (auto simp: upd_desc_def mac_busy_def fcs_room_def)
  have "s_events ?s = s_events s" "s_events (queued_frame ?s d buf x) = s_events s"
    "bd_egressCapt (s_bufs ?s d) = bd_egressCapt (s_bufs s d)" for x
    by (simp_all add: upd_desc_def queued_frame_def)
  with b show ?thesis
    by (intro exI [of _ buf])
      (simp add: submit_port_def mbind_def on_mac_def mupd_s_def mupd_def mget_s_def mget_def absorb_def)
qed

section \<open>Both ports\<close>

lemma queue_room:
  assumes "queue_inv q" and "queueAvailable q \<noteq> 0"
  shows "\<not> queueIsFull q"
  using assms ring.full_iff [OF assms(1)] by (simp add: queueAvailable_list)

text \<open>The reference count is set, and both ports are submitted to.\<close>

lemma submit_flood_run:
  assumes "2 \<le> queueAvailable (m_txQueue s)" and "ad_portEnabled1 a" and "ad_portEnabled2 a"
    and "submit_port h d 0 (a, upd_desc d (\<lambda>b. b\<lparr>bd_refCount := 2\<rparr>) s, e) = Some (Inr (), a, s1, e1)"
  shows "submit_flood h d (a, s, e) = submit_port h d 1 (a, s1, e1)"
proof -
  have "s_events (upd_desc d (\<lambda>b. b\<lparr>bd_refCount := 2\<rparr>) s) = s_events s" by (simp add: upd_desc_def)
  with assms show ?thesis
    by (simp add: submit_flood_def mbind_def on_mac_def mupd_s_def mupd_def mget_s_def mget_def ad_get_def mwhen_def
        adin_ports absorb_def)
qed

text \<open>The driver after the first copy.\<close>

definition first_copy :: "mac_state \<Rightarrow> nat \<Rightarrow> u8 list \<Rightarrow> mac_state" where
  "first_copy s d buf = queued_frame (upd_desc d (\<lambda>b. b\<lparr>bd_port := 0\<rparr>) (upd_desc d (\<lambda>b. b\<lparr>bd_refCount := 2\<rparr>) s)) d buf
     (frame_header (bd_egressCapt (s_bufs s d)) 0)"

lemma first_copy_fields [simp]:
  "m_state (first_copy s d buf) = m_state s" "m_fcsCheckEn (first_copy s d buf) = m_fcsCheckEn s"
  "bd_trxSize (s_bufs (first_copy s d buf) d) = bd_trxSize (s_bufs s d) + fcs_room s"
  "bd_bufSize (s_bufs (first_copy s d buf) d) = bd_bufSize (s_bufs s d)"
  "bd_pBuf (s_bufs (first_copy s d buf) d) = buf" "bd_refCount (s_bufs (first_copy s d buf) d) = 2"
  "bd_egressCapt (s_bufs (first_copy s d buf) d) = bd_egressCapt (s_bufs s d)"
  "m_txQueue (first_copy s d buf) =
     queuePut (m_txQueue s) \<lparr>fs_header = frame_header (bd_egressCapt (s_bufs s d)) 0, fs_pBufDesc = Some d\<rparr>"
  "s_events (first_copy s d buf) = s_events s"
  by (simp_all add: first_copy_def queued_frame_def upd_desc_def fcs_room_def)

lemma first_copy_queued:
  assumes "mac_busy s" and "queue_inv (m_txQueue s)" and "2 \<le> queueAvailable (m_txQueue s)"
    and "MIN_FRAME_SIZE \<le> bd_trxSize (s_bufs s d)" and "bd_trxSize (s_bufs s d) \<le> MAX_FRAME_SIZE"
    and "bd_trxSize (s_bufs s d) + fcs_room s \<le> bd_bufSize (s_bufs s d)"
    and "bd_bufSize (s_bufs s d) \<le> length (bd_pBuf (s_bufs s d))"
    and "ad_portEnabled1 a" and "ad_portEnabled2 a"
  shows "\<exists>buf. submit_flood h d (a, s, e) = submit_port h d 1 (a, first_copy s d buf, e) \<and>
     length buf = length (bd_pBuf (s_bufs s d))"
proof -
  let ?s = "upd_desc d (\<lambda>b. b\<lparr>bd_refCount := 2\<rparr>) s"
  have full: "\<not> queueIsFull (m_txQueue s)" using queue_room [OF assms(2)] assms(3) by simp
  obtain buf where "submit_port h d 0 (a, ?s, e) = Some (Inr (), a, first_copy s d buf, e)"
      "length buf = length (bd_pBuf (s_bufs s d))"
    using submit_port_busy [of ?s d h 0 a e] assms full
    by (auto simp: upd_desc_def mac_busy_def fcs_room_def first_copy_def queued_frame_def)
  with submit_flood_run [OF assms(3,8,9), of h d e] show ?thesis by blast
qed

text \<open>
  C19: a frame flooded during a transaction is queued twice with one descriptor.  The port is
  taken from the descriptor when the frame is sent, and names port 2 by then: both
  copies go to port 2 and none to port 1.  With the frame check sequence of the host, it is
  appended twice, so both copies are eight bytes longer than the frame.
\<close>

theorem flood_while_busy:
  assumes "mac_busy s" and "queue_inv (m_txQueue s)" and "2 \<le> queueAvailable (m_txQueue s)"
    and "MIN_FRAME_SIZE \<le> bd_trxSize (s_bufs s d)" and "bd_trxSize (s_bufs s d) + fcs_room s \<le> MAX_FRAME_SIZE"
    and "bd_trxSize (s_bufs s d) + 2 * fcs_room s \<le> bd_bufSize (s_bufs s d)"
    and "bd_bufSize (s_bufs s d) \<le> length (bd_pBuf (s_bufs s d))"
    and "ad_portEnabled1 a" and "ad_portEnabled2 a"
  shows "\<exists>s'. submit_flood h d (a, s, e) = Some (Inr (), a, s', e) \<and>
     queue_list (m_txQueue s') = queue_list (m_txQueue s) @
       [\<lparr>fs_header = frame_header (bd_egressCapt (s_bufs s d)) 0, fs_pBufDesc = Some d\<rparr>,
        \<lparr>fs_header = frame_header (bd_egressCapt (s_bufs s d)) 1, fs_pBufDesc = Some d\<rparr>] \<and>
     bd_port (s_bufs s' d) = 1 \<and> bd_refCount (s_bufs s' d) = 2 \<and>
     bd_trxSize (s_bufs s' d) = bd_trxSize (s_bufs s d) + 2 * fcs_room s"
proof -
  let ?x = "\<lparr>fs_header = frame_header (bd_egressCapt (s_bufs s d)) 0, fs_pBufDesc = Some d\<rparr>"
  obtain buf where run: "submit_flood h d (a, s, e) = submit_port h d 1 (a, first_copy s d buf, e)"
      and len: "length buf = length (bd_pBuf (s_bufs s d))"
    using first_copy_queued [OF assms(1-4) _ _ assms(7-9), of h e] assms(5,6) by auto
  have full: "\<not> queueIsFull (m_txQueue s)" using queue_room [OF assms(2)] assms(3) by simp
  note q1 = ring.inv_enq [OF assms(2) full, of ?x] ring.content_enq [OF assms(2) full, of ?x]
  have "queue_capacity (queuePut (m_txQueue s) ?x) = queue_capacity (m_txQueue s)"
    by (simp add: queue_capacity_def queuePut_def queueAdd_def)
  then have "queueAvailable (queuePut (m_txQueue s) ?x) \<noteq> 0"
    using assms(3) q1(2) by (simp add: queueAvailable_list [OF q1(1)] queueAvailable_list [OF assms(2)])
  then have full1: "\<not> queueIsFull (queuePut (m_txQueue s) ?x)" by (rule queue_room [OF q1(1)])
  have room: "fcs_room (first_copy s d buf) = fcs_room s" by (simp add: fcs_room_def)
  obtain buf2 where r2: "submit_port h d 1 (a, first_copy s d buf, e) =
       Some (Inr (), a, queued_frame (upd_desc d (\<lambda>b. b\<lparr>bd_port := 1\<rparr>) (first_copy s d buf)) d buf2
         (frame_header (bd_egressCapt (s_bufs s d)) 1), e)" (is "_ = Some (_, _, ?s', _)")
    using submit_port_busy [of "first_copy s d buf" d h 1 a e] assms full1 len
    by (auto simp: room mac_busy_def)
  have "queue_list (m_txQueue ?s') = queue_list (m_txQueue s) @ [?x,
        \<lparr>fs_header = frame_header (bd_egressCapt (s_bufs s d)) 1, fs_pBufDesc = Some d\<rparr>]"
    using ring.content_enq [OF q1(1) full1] q1(2) by (simp add: queued_frame_def upd_desc_def)
  then show ?thesis unfolding run r2
    by (intro exI [of _ ?s']) (simp add: queued_frame_def upd_desc_def fcs_room_def)
qed

text \<open>A driver in a transaction, with an empty queue and frames of \<open>n\<close> bytes.\<close>

definition busy_example :: "nat \<Rightarrow> mac_state" where
  "busy_example n = (static_state (\<lambda>_. blank_desc\<lparr>bd_trxSize := n\<rparr>))
     \<lparr>m_state := ADI_MAC_STATE_DATA_END, m_fcsCheckEn := True\<rparr>"

lemma busy_example_fields [simp]:
  "mac_busy (busy_example n)" "queue_inv (m_txQueue (busy_example n))" "2 \<le> queueAvailable (m_txQueue (busy_example n))"
  "queue_list (m_txQueue (busy_example n)) = []" "m_fcsCheckEn (busy_example n)"
  "s_bufs (busy_example n) = (\<lambda>_. blank_desc\<lparr>bd_trxSize := n\<rparr>)"
proof -
  have "0 < TX_QUEUE_NUM_ENTRIES_RAW" by (simp add: TX_QUEUE_NUM_ENTRIES_RAW_def)
  note i = queue_inv_queueInit [OF this] queue_list_queueInit [OF this]
  have q: "m_txQueue (busy_example n) = queueInit TX_QUEUE_NUM_ENTRIES_RAW"
    by (simp add: busy_example_def static_state_def device_init_def)
  show "queue_inv (m_txQueue (busy_example n))" "queue_list (m_txQueue (busy_example n)) = []"
    unfolding q by (rule i)+
  show "2 \<le> queueAvailable (m_txQueue (busy_example n))"
    by (simp add: q TX_QUEUE_NUM_ENTRIES_RAW_def queueAvailable_def queueCount_def queueInit_def PSEUDO_MODULO_def)
qed (simp_all add: busy_example_def mac_busy_def)

theorem flood_while_busy_witness:
  "\<forall>t p. \<exists>s'. submit_flood chip_hal 5 (blank_dev t p, busy_example 60, chip_off) = Some (Inr (), blank_dev t p, s', chip_off) \<and>
     length (queue_list (m_txQueue s')) = 2 \<and> bd_port (s_bufs s' 5) = 1 \<and> bd_trxSize (s_bufs s' 5) = 68"
proof (intro allI)
  fix t p
  have "ad_portEnabled1 (blank_dev t p)" "ad_portEnabled2 (blank_dev t p)" by (simp_all add: blank_dev_def)
  from flood_while_busy [of "busy_example 60" 5, OF _ _ _ _ _ _ _ this, of chip_hal chip_off]
  show "\<exists>s'. submit_flood chip_hal 5 (blank_dev t p, busy_example 60, chip_off) = Some (Inr (), blank_dev t p, s', chip_off) \<and>
     length (queue_list (m_txQueue s')) = 2 \<and> bd_port (s_bufs s' 5) = 1 \<and> bd_trxSize (s_bufs s' 5) = 68"
    by (fastforce simp: fcs_room_def frame_sizes)
qed

text \<open>
  C20: a frame within four bytes of the largest is refused for the second port only, after its
  first copy has been queued with a reference count of two, so that its buffer is never
  returned: the two submissions do not succeed or fail together.
\<close>

theorem flood_fails_halfway:
  assumes "mac_busy s" and "queue_inv (m_txQueue s)" and "2 \<le> queueAvailable (m_txQueue s)"
    and "m_fcsCheckEn s" and "bd_trxSize (s_bufs s d) \<le> MAX_FRAME_SIZE" and "MAX_FRAME_SIZE - 4 < bd_trxSize (s_bufs s d)"
    and "bd_trxSize (s_bufs s d) + 4 \<le> bd_bufSize (s_bufs s d)"
    and "bd_bufSize (s_bufs s d) \<le> length (bd_pBuf (s_bufs s d))"
    and "ad_portEnabled1 a" and "ad_portEnabled2 a"
  shows "\<exists>s'. submit_flood h d (a, s, e) = Some (Inl ADI_ETH_PARAM_OUT_OF_RANGE, a, s', e) \<and>
     queue_list (m_txQueue s') = queue_list (m_txQueue s) @
       [\<lparr>fs_header = frame_header (bd_egressCapt (s_bufs s d)) 0, fs_pBufDesc = Some d\<rparr>] \<and>
     bd_refCount (s_bufs s' d) = 2"
proof -
  have r: "fcs_room s = 4" using assms(4) by (simp add: fcs_room_def frame_sizes)
  obtain buf where run: "submit_flood h d (a, s, e) = submit_port h d 1 (a, first_copy s d buf, e)"
      and len: "length buf = length (bd_pBuf (s_bufs s d))"
    using first_copy_queued [OF assms(1-3) _ assms(5) _ assms(8-10), of h e] assms(6,7) r by (auto simp: frame_sizes)
  let ?s = "upd_desc d (\<lambda>b. b\<lparr>bd_port := 1\<rparr>) (first_copy s d buf)"
  have st: "m_state s \<noteq> ADI_MAC_STATE_UNINITIALIZED" "m_state s \<noteq> ADI_MAC_STATE_READY"
    using assms(1) by (simp_all add: mac_busy_def)
  have f: "m_state ?s = m_state s" "bd_trxSize (s_bufs ?s d) = bd_trxSize (s_bufs s d) + 4"
    "s_events ?s = s_events s" "bd_refCount (s_bufs ?s d) = 2" "m_txQueue ?s = m_txQueue (first_copy s d buf)"
    by (simp_all add: upd_desc_def r)
  have "submit_tx_check (Some d) ?s = Inl ADI_ETH_PARAM_OUT_OF_RANGE"
    using assms(5,6) st f(1,2) by (simp add: submit_tx_check_def Let_def frame_sizes)
  then have "MAC_SubmitTxBuffer h x (Some d) (?s, e) = Some (Inl ADI_ETH_PARAM_OUT_OF_RANGE, ?s, e)" for x
    using st f(1) by (simp add: MAC_SubmitTxBuffer_def)
  then have "submit_port h d 1 (a, first_copy s d buf, e) = Some (Inl ADI_ETH_PARAM_OUT_OF_RANGE, a, ?s, e)"
    using f(3) by (simp add: submit_port_def mbind_def on_mac_def mupd_s_def mupd_def mget_s_def mget_def absorb_def)
  moreover have "\<not> queueIsFull (m_txQueue s)" using queue_room [OF assms(2)] assms(3) by simp
  ultimately show ?thesis
    using f(4,5) ring.content_enq [OF assms(2)] by (intro exI [of _ ?s]) (simp add: run)
qed

theorem flood_fails_halfway_witness:
  "\<forall>t p. \<exists>s'. submit_flood chip_hal 5 (blank_dev t p, busy_example 1518, chip_off) =
       Some (Inl ADI_ETH_PARAM_OUT_OF_RANGE, blank_dev t p, s', chip_off) \<and>
     length (queue_list (m_txQueue s')) = 1 \<and> bd_refCount (s_bufs s' 5) = 2"
proof (intro allI)
  fix t p
  have "ad_portEnabled1 (blank_dev t p)" "ad_portEnabled2 (blank_dev t p)" by (simp_all add: blank_dev_def)
  from flood_fails_halfway [of "busy_example 1518" 5, OF _ _ _ _ _ _ _ _ this, of chip_hal chip_off]
  show "\<exists>s'. submit_flood chip_hal 5 (blank_dev t p, busy_example 1518, chip_off) =
       Some (Inl ADI_ETH_PARAM_OUT_OF_RANGE, blank_dev t p, s', chip_off) \<and>
     length (queue_list (m_txQueue s')) = 1 \<and> bd_refCount (s_bufs s' 5) = 2"
    by (fastforce simp: frame_sizes)
qed

end
