(* ===== verification/Mac_Mdio.thy ===== *)
theory Mac_Mdio
  imports Mac_Client
begin

text \<open>
  The MDIO bridge of the MAC driver over a device that carries out MDIO commands within the
  number of polls the driver makes: \<open>MAC_PhyRead\<close> and \<open>MAC_PhyWrite\<close> access the registers of a PHY.
\<close>

section \<open>The contract\<close>

definition mdio_rd :: "u32 \<Rightarrow> u8 \<Rightarrow> u32 \<Rightarrow> ADI_MAC_MDIOACC_0_t" where
  "mdio_rd junk hwAddr a = (mdio_address junk hwAddr a)
     \<lparr>md_OP := ucast ENUM_MAC_MDIOACC_N__MDIO_OP_MD_RD, md_DATA := 0, md_TRDONE := False\<rparr>"

definition mdio_wr :: "u32 \<Rightarrow> u8 \<Rightarrow> u32 \<Rightarrow> u16 \<Rightarrow> ADI_MAC_MDIOACC_0_t" where
  "mdio_wr junk hwAddr a v = (mdio_address junk hwAddr a)
     \<lparr>md_OP := ucast ENUM_MAC_MDIOACC_N__MDIO_OP_MD_WR, md_DATA := v, md_TRDONE := False\<rparr>"

text \<open>The device reports the end of a command at the read after \<open>n\<close> others, soon enough for the driver.\<close>

definition mdio_done :: "('e \<Rightarrow> u32 \<Rightarrow> u32) \<Rightarrow> (u32 \<Rightarrow> 'e \<Rightarrow> 'e) \<Rightarrow> nat \<Rightarrow> 'e \<Rightarrow> bool" where
  "mdio_done reg on_read n e \<longleftrightarrow> n \<le> ADI_MAC_MDIO_MAX_RETRIES \<and>
     (\<forall>k<n. \<not> md_TRDONE (md_of_VALUE32 (reg ((on_read ADDR_MAC_MDIOACC_1 ^^ k) e) ADDR_MAC_MDIOACC_1))) \<and>
     md_TRDONE (md_of_VALUE32 (reg ((on_read ADDR_MAC_MDIOACC_1 ^^ n) e) ADDR_MAC_MDIOACC_1))"

text \<open>
  \<open>phy e hwAddr a\<close> is a register of the PHY at an MDIO address; whatever the bits are that the driver
  leaves unassigned, a command reads or writes it.
\<close>

locale oa_mdio = oa_device +
  fixes phy :: "'a \<Rightarrow> u8 \<Rightarrow> u32 \<Rightarrow> u16"
    and phy_read :: "u8 \<Rightarrow> u32 \<Rightarrow> 'a \<Rightarrow> 'a"
    and phy_write :: "u8 \<Rightarrow> u32 \<Rightarrow> u16 \<Rightarrow> 'a \<Rightarrow> 'a"
  assumes mdio_read: "\<exists>n. mdio_done reg on_read n
        (on_write ADDR_MAC_MDIOACC_1 (md_VALUE32 (mdio_rd junk hwAddr a))
          (on_write ADDR_MAC_MDIOACC_0 (md_VALUE32 (mdio_address junk hwAddr a)) e)) \<and>
      md_DATA (md_of_VALUE32 (reg ((on_read ADDR_MAC_MDIOACC_1 ^^ Suc n)
        (on_write ADDR_MAC_MDIOACC_1 (md_VALUE32 (mdio_rd junk hwAddr a))
          (on_write ADDR_MAC_MDIOACC_0 (md_VALUE32 (mdio_address junk hwAddr a)) e))) ADDR_MAC_MDIOACC_1)) = phy e hwAddr a \<and>
      (on_read ADDR_MAC_MDIOACC_1 ^^ Suc (Suc n))
        (on_write ADDR_MAC_MDIOACC_1 (md_VALUE32 (mdio_rd junk hwAddr a))
          (on_write ADDR_MAC_MDIOACC_0 (md_VALUE32 (mdio_address junk hwAddr a)) e)) = phy_read hwAddr a e"
    and mdio_write: "\<exists>n. mdio_done reg on_read n
        (on_write ADDR_MAC_MDIOACC_1 (md_VALUE32 (mdio_wr junk hwAddr a v))
          (on_write ADDR_MAC_MDIOACC_0 (md_VALUE32 (mdio_address junk hwAddr a)) e)) \<and>
      (on_read ADDR_MAC_MDIOACC_1 ^^ Suc n)
        (on_write ADDR_MAC_MDIOACC_1 (md_VALUE32 (mdio_wr junk hwAddr a v))
          (on_write ADDR_MAC_MDIOACC_0 (md_VALUE32 (mdio_address junk hwAddr a)) e)) = phy_write hwAddr a v e"

lemma then_junk:
  assumes "\<And>x. mac_call (f (g x)) t e r t' e'"
  shows "mac_call (mbind (mget (\<lambda>w. g (s_regCell (fst w)))) f) t e r t' e'"
proof (rule mac_callI)
  fix s assume s: "can_access s" "scratch s = scratch t"
  show "\<exists>s'. mbind (mget (\<lambda>w. g (s_regCell (fst w)))) f (s, e) = Some (r, s', e') \<and> can_access s' \<and> scratch s' = scratch t'"
    using mac_callE [OF assms s, of "s_regCell s"] by (fastforce simp: mbind_def mget_def)
qed

lemma U16_mdio [simp]: "U16 ADDR_MAC_MDIOACC_0 = ADDR_MAC_MDIOACC_0" "U16 ADDR_MAC_MDIOACC_1 = ADDR_MAC_MDIOACC_1"
  by (simp_all add: U16_def mac_regs)

context oa_mdio
begin

lemma poll_done:
  assumes "\<forall>k<n. \<not> md_TRDONE (md_of_VALUE32 (reg ((on_read ADDR_MAC_MDIOACC_1 ^^ k) e) ADDR_MAC_MDIOACC_1))"
    and "md_TRDONE (md_of_VALUE32 (reg ((on_read ADDR_MAC_MDIOACC_1 ^^ n) e) ADDR_MAC_MDIOACC_1))"
    and "n \<le> m"
  shows "mac_call (mdio_poll h ADDR_MAC_MDIOACC_1 m) t e (Inr ()) t ((on_read ADDR_MAC_MDIOACC_1 ^^ Suc n) e)"
  using assms
proof (induction n arbitrary: m e)
  case 0
  then have d: "md_TRDONE (md_of_VALUE32 (reg e ADDR_MAC_MDIOACC_1))" by simp
  show ?case
    by (subst mdio_poll.simps, rule mac_call_catch, rule read_register) (simp add: d mac_call_ret)
next
  case (Suc n)
  then obtain m' where m: "m = Suc m'" by (cases m) auto
  have d: "\<not> md_TRDONE (md_of_VALUE32 (reg e ADDR_MAC_MDIOACC_1))" using Suc.prems(1) by auto
  have k: "reg ((on_read ADDR_MAC_MDIOACC_1 ^^ k) (on_read ADDR_MAC_MDIOACC_1 e)) =
      reg ((on_read ADDR_MAC_MDIOACC_1 ^^ Suc k) e)" for k
    by (simp only: funpow_Suc_right o_apply)
  have rest: "mac_call (mdio_poll h ADDR_MAC_MDIOACC_1 m') t (on_read ADDR_MAC_MDIOACC_1 e) (Inr ()) t
      ((on_read ADDR_MAC_MDIOACC_1 ^^ Suc (Suc n)) e)"
    unfolding funpow_Suc_right [of "Suc n"] o_apply
    by (rule Suc.IH) (use Suc.prems m in \<open>auto simp only: k Suc_le_mono Suc_less_eq\<close>)
  have first: "mac_call (MAC_ReadRegister h ADDR_MAC_MDIOACC_1) t e (Inr (reg e ADDR_MAC_MDIOACC_1)) t
      (on_read ADDR_MAC_MDIOACC_1 e)"
    using read_register [of ADDR_MAC_MDIOACC_1 t e] by simp
  show ?case
    unfolding m
    by (subst mdio_poll.simps, rule mac_call_catch, rule first)
      (simp only: d if_False nat.case rest)
qed

lemma wait_mdio:
  assumes "mdio_done reg on_read n e"
  shows "mac_call (waitMdioReady h ADDR_MAC_MDIOACC_1) t e (Inr ()) t ((on_read ADDR_MAC_MDIOACC_1 ^^ Suc n) e)"
  unfolding waitMdioReady_def using assms by (intro poll_done) (simp_all add: mdio_done_def)

lemma phy_read_into:
  "mac_call (MAC_PhyRead_into h hwAddr a old) t e (Inr (ADI_ETH_SUCCESS, phy e hwAddr a)) t (phy_read hwAddr a e)"
  unfolding MAC_PhyRead_into_def Let_def
proof (rule then_junk, fold mdio_rd_def)
  fix junk
  let ?e1 = "on_write ADDR_MAC_MDIOACC_0 (md_VALUE32 (mdio_address junk hwAddr a)) e"
  let ?e2 = "on_write ADDR_MAC_MDIOACC_1 (md_VALUE32 (mdio_rd junk hwAddr a)) ?e1"
  obtain n where n: "mdio_done reg on_read n ?e2"
    "md_DATA (md_of_VALUE32 (reg ((on_read ADDR_MAC_MDIOACC_1 ^^ Suc n) ?e2) ADDR_MAC_MDIOACC_1)) = phy e hwAddr a"
    "(on_read ADDR_MAC_MDIOACC_1 ^^ Suc (Suc n)) ?e2 = phy_read hwAddr a e"
    using mdio_read [of junk hwAddr a e] by blast
  have w: "mac_call (MAC_WriteRegister h ADDR_MAC_MDIOACC_0 v) t e (Inr ()) t (on_write ADDR_MAC_MDIOACC_0 v e)"
    "mac_call (MAC_WriteRegister h ADDR_MAC_MDIOACC_1 v) t e (Inr ()) t (on_write ADDR_MAC_MDIOACC_1 v e)"
    "mac_call (MAC_ReadRegister_into h ADDR_MAC_MDIOACC_1 v) t e (Inr (reg e ADDR_MAC_MDIOACC_1)) t (on_read ADDR_MAC_MDIOACC_1 e)"
    for v e using write_register [of ADDR_MAC_MDIOACC_0 v t e] write_register [of ADDR_MAC_MDIOACC_1 v t e]
      read_register_into [of ADDR_MAC_MDIOACC_1 v t e] by simp_all
  show "mac_call
     (mcatch (MAC_WriteRegister h ADDR_MAC_MDIOACC_0 (md_VALUE32 (mdio_address junk hwAddr a))) (\<lambda>err. mret (err, old))
       (\<lambda>_. mcatch (MAC_WriteRegister h ADDR_MAC_MDIOACC_1 (md_VALUE32 (mdio_rd junk hwAddr a))) (\<lambda>err. mret (err, old))
         (\<lambda>_. mcatch (waitMdioReady h ADDR_MAC_MDIOACC_1) (\<lambda>err. mret (err, old))
           (\<lambda>_. mcatch (MAC_ReadRegister_into h ADDR_MAC_MDIOACC_1 (md_VALUE32 (mdio_rd junk hwAddr a)))
             (\<lambda>err. mget (\<lambda>w. (err, md_DATA (md_of_VALUE32 (s_regCell (fst w))))))
             (\<lambda>v. mret (ADI_ETH_SUCCESS, md_DATA (md_of_VALUE32 v)))))))
     t e (Inr (ADI_ETH_SUCCESS, phy e hwAddr a)) t (phy_read hwAddr a e)"
    unfolding n(2,3) [symmetric] funpow.simps(2) [of "Suc n"] o_apply
    by (rule mac_call_catch, rule w, rule mac_call_catch, rule w, rule mac_call_catch, rule wait_mdio, rule n(1),
      rule mac_call_catch, rule w, rule mac_call_ret)
qed

lemma phy_write_reg:
  "mac_call (MAC_PhyWrite h hwAddr a v) t e (Inr ()) t (phy_write hwAddr a v e)"
  unfolding MAC_PhyWrite_def Let_def
proof (rule then_junk, fold mdio_wr_def)
  fix junk
  let ?e1 = "on_write ADDR_MAC_MDIOACC_0 (md_VALUE32 (mdio_address junk hwAddr a)) e"
  let ?e2 = "on_write ADDR_MAC_MDIOACC_1 (md_VALUE32 (mdio_wr junk hwAddr a v)) ?e1"
  obtain n where n: "mdio_done reg on_read n ?e2" "(on_read ADDR_MAC_MDIOACC_1 ^^ Suc n) ?e2 = phy_write hwAddr a v e"
    using mdio_write [of junk hwAddr a v e] by blast
  have w: "mac_call (MAC_WriteRegister h ADDR_MAC_MDIOACC_0 v) t e (Inr ()) t (on_write ADDR_MAC_MDIOACC_0 v e)"
    "mac_call (MAC_WriteRegister h ADDR_MAC_MDIOACC_1 v) t e (Inr ()) t (on_write ADDR_MAC_MDIOACC_1 v e)"
    for v e using write_register [of ADDR_MAC_MDIOACC_0 v t e] write_register [of ADDR_MAC_MDIOACC_1 v t e] by simp_all
  show "mac_call
     (mbind (MAC_WriteRegister h ADDR_MAC_MDIOACC_0 (md_VALUE32 (mdio_address junk hwAddr a)))
       (\<lambda>_. mbind (MAC_WriteRegister h ADDR_MAC_MDIOACC_1 (md_VALUE32 (mdio_wr junk hwAddr a v)))
         (\<lambda>_. waitMdioReady h ADDR_MAC_MDIOACC_1)))
     t e (Inr ()) t (phy_write hwAddr a v e)"
    unfolding n(2) [symmetric]
    by (rule mac_call_bind, rule w, rule mac_call_bind, rule w, rule wait_mdio, rule n(1))
qed

lemma phy_read_reg:
  "mac_call (MAC_PhyRead h hwAddr a) t e (Inr (phy e hwAddr a)) t (phy_read hwAddr a e)"
  unfolding MAC_PhyRead_def
  by (rule mac_call_bind, rule phy_read_into) (simp add: mac_call_ret)

end

section \<open>The device\<close>

lemma md_roundtrip [simp]: "md_of_VALUE32 (md_VALUE32 m) = m"
proof -
  have "md_DATA (md_of_VALUE32 (md_VALUE32 m)) = md_DATA m" "md_DEVAD (md_of_VALUE32 (md_VALUE32 m)) = md_DEVAD m"
    "md_PRTAD (md_of_VALUE32 (md_VALUE32 m)) = md_PRTAD m" "md_OP (md_of_VALUE32 (md_VALUE32 m)) = md_OP m"
    "md_ST (md_of_VALUE32 (md_VALUE32 m)) = md_ST m"
    by (rule bit_word_eqI; auto simp: md_of_VALUE32_def md_VALUE32_def bit_simps dest: bit_imp_le_length)+
  moreover have "md_TAERR (md_of_VALUE32 (md_VALUE32 m)) = md_TAERR m" "md_TRDONE (md_of_VALUE32 (md_VALUE32 m)) = md_TRDONE m"
    by (auto simp: md_of_VALUE32_def md_VALUE32_def bit_simps dest: bit_imp_le_length)
  ultimately show ?thesis by simp
qed

lemma mdio_addr_of: "mdio_addr (ucast (DEVTYPE a)) (ucast (REGADDR a)) = take_bit 21 a"
proof (rule bit_word_eqI)
  fix n
  have "bit (0xFFFF :: u32) n = (n < 16)" if "n < 32" for n
    using bit_mask_iff [of 16 n, where ?'a = "32 word"] that by (simp add: mask_eq_exp_minus_1)
  then show "n < LENGTH(32) \<Longrightarrow> bit (mdio_addr (ucast (DEVTYPE a)) (ucast (REGADDR a))) n = bit (take_bit 21 a) n"
    by (auto simp: mdio_addr_def DEVTYPE_def REGADDR_def bit_simps)
qed

definition chip_phy :: "chip \<Rightarrow> u8 \<Rightarrow> u32 \<Rightarrow> u16" where
  "chip_phy c hwAddr a = chip_phy_reg c (ucast hwAddr) (take_bit 21 a)"

definition chip_phy_read :: "u8 \<Rightarrow> u32 \<Rightarrow> chip \<Rightarrow> chip" where
  "chip_phy_read hwAddr a c = c\<lparr>c_latch := (c_latch c)(ucast hwAddr := ucast (REGADDR a)),
     c_reg := (c_reg c)(ADDR_MAC_MDIOACC_0 := md_VALUE32 ((mdio_address 0 hwAddr a)\<lparr>md_TAERR := False\<rparr>),
       ADDR_MAC_MDIOACC_1 := md_VALUE32 ((mdio_rd 0 hwAddr a)\<lparr>md_TAERR := False, md_DATA := chip_phy c hwAddr a\<rparr>)),
     c_busy := 0\<rparr>"

definition chip_phy_write :: "u8 \<Rightarrow> u32 \<Rightarrow> u16 \<Rightarrow> chip \<Rightarrow> chip" where
  "chip_phy_write hwAddr a v c = c\<lparr>c_latch := (c_latch c)(ucast hwAddr := ucast (REGADDR a)),
     c_phy := (c_phy c)(ucast hwAddr := (c_phy c (ucast hwAddr))(take_bit 21 a := v)),
     c_reg := (c_reg c)(ADDR_MAC_MDIOACC_0 := md_VALUE32 ((mdio_address 0 hwAddr a)\<lparr>md_TAERR := False\<rparr>),
       ADDR_MAC_MDIOACC_1 := md_VALUE32 ((mdio_wr 0 hwAddr a v)\<lparr>md_TAERR := False\<rparr>)),
     c_busy := 0\<rparr>"

lemma chip_reads: "(chip_on_read ADDR_MAC_MDIOACC_1 ^^ k) c = c\<lparr>c_busy := c_busy c - k\<rparr>"
  by (induction k) (simp_all add: chip_on_read_def mdio_regs_def)

lemma mdio_cmd_fields [simp]:
  "md_OP (mdio_address junk hwAddr a) = ucast ENUM_MAC_MDIOACC_N__MDIO_OP_MD_ADDR"
  "md_PRTAD (mdio_address junk hwAddr a) = ucast hwAddr" "md_DEVAD (mdio_address junk hwAddr a) = ucast (DEVTYPE a)"
  "md_DATA (mdio_address junk hwAddr a) = ucast (REGADDR a)" "\<not> md_TRDONE (mdio_address junk hwAddr a)"
  "md_OP (mdio_rd junk hwAddr a) = ucast ENUM_MAC_MDIOACC_N__MDIO_OP_MD_RD" "md_PRTAD (mdio_rd junk hwAddr a) = ucast hwAddr"
  "md_DEVAD (mdio_rd junk hwAddr a) = ucast (DEVTYPE a)"
  "md_OP (mdio_wr junk hwAddr a v) = ucast ENUM_MAC_MDIOACC_N__MDIO_OP_MD_WR" "md_PRTAD (mdio_wr junk hwAddr a v) = ucast hwAddr"
  "md_DEVAD (mdio_wr junk hwAddr a v) = ucast (DEVTYPE a)" "md_DATA (mdio_wr junk hwAddr a v) = v"
  by (simp_all add: mdio_address_def mdio_rd_def mdio_wr_def)

lemma mdio_junk:
  "(mdio_address junk hwAddr a)\<lparr>md_TAERR := False\<rparr> = (mdio_address 0 hwAddr a)\<lparr>md_TAERR := False\<rparr>"
  "(mdio_rd junk hwAddr a)\<lparr>md_TAERR := False\<rparr> = (mdio_rd 0 hwAddr a)\<lparr>md_TAERR := False\<rparr>"
  "(mdio_wr junk hwAddr a v)\<lparr>md_TAERR := False\<rparr> = (mdio_wr 0 hwAddr a v)\<lparr>md_TAERR := False\<rparr>"
  by (simp_all add: mdio_address_def mdio_rd_def mdio_wr_def md_of_VALUE32_def)

lemma mdio_ops:
  "(ucast ENUM_MAC_MDIOACC_N__MDIO_OP_MD_RD :: 2 word) \<noteq> ucast ENUM_MAC_MDIOACC_N__MDIO_OP_MD_ADDR"
  "(ucast ENUM_MAC_MDIOACC_N__MDIO_OP_MD_WR :: 2 word) \<noteq> ucast ENUM_MAC_MDIOACC_N__MDIO_OP_MD_ADDR"
  "(ucast ENUM_MAC_MDIOACC_N__MDIO_OP_MD_RD :: 2 word) \<noteq> ucast ENUM_MAC_MDIOACC_N__MDIO_OP_MD_WR"
  by (simp_all add: mac_regs)

lemma chip_after_read:
  "chip_on_write ADDR_MAC_MDIOACC_1 (md_VALUE32 (mdio_rd junk hwAddr a))
     (chip_on_write ADDR_MAC_MDIOACC_0 (md_VALUE32 (mdio_address junk hwAddr a)) c) =
   (chip_phy_read hwAddr a c)\<lparr>c_busy := 3\<rparr>"
proof -
  have p: "chip_phy_reg (c\<lparr>c_latch := x, c_reg := y, c_busy := z\<rparr>) = chip_phy_reg c" for x y z
    by (intro ext) (simp add: chip_phy_reg_def)
  show ?thesis
    by (simp add: chip_on_write_def mdio_regs_def chip_mdio_def Let_def mdio_ops mdio_junk [of junk] mdio_addr_of
        chip_phy_read_def chip_phy_def p)
qed

lemma chip_after_write:
  "chip_on_write ADDR_MAC_MDIOACC_1 (md_VALUE32 (mdio_wr junk hwAddr a v))
     (chip_on_write ADDR_MAC_MDIOACC_0 (md_VALUE32 (mdio_address junk hwAddr a)) c) =
   (chip_phy_write hwAddr a v c)\<lparr>c_busy := 3\<rparr>"
  by (simp add: chip_on_write_def mdio_regs_def chip_mdio_def Let_def mdio_ops mdio_junk [of junk] mdio_addr_of
      chip_phy_write_def)

lemma chip_reg_mdio:
  "md_TRDONE (md_of_VALUE32 (chip_reg c ADDR_MAC_MDIOACC_1)) = (c_busy c = 0)"
  "md_DATA (md_of_VALUE32 (chip_reg c ADDR_MAC_MDIOACC_1)) = md_DATA (md_of_VALUE32 (c_reg c ADDR_MAC_MDIOACC_1))"
  by (simp_all add: chip_reg_def mdio_regs_def mac_regs)

interpretation chip: oa_mdio chip_hal chip_reg chip_on_read chip_on_write chip_phy chip_phy_read chip_phy_write
proof unfold_locales
  fix junk hwAddr a v and e :: chip
  have ready: "mdio_done chip_reg chip_on_read 3 (c\<lparr>c_busy := 3\<rparr>)" for c
    by (auto simp: mdio_done_def chip_reads chip_reg_mdio ADI_MAC_MDIO_MAX_RETRIES_def)
  show "\<exists>n. mdio_done chip_reg chip_on_read n
        (chip_on_write ADDR_MAC_MDIOACC_1 (md_VALUE32 (mdio_rd junk hwAddr a))
          (chip_on_write ADDR_MAC_MDIOACC_0 (md_VALUE32 (mdio_address junk hwAddr a)) e)) \<and>
      md_DATA (md_of_VALUE32 (chip_reg ((chip_on_read ADDR_MAC_MDIOACC_1 ^^ Suc n)
        (chip_on_write ADDR_MAC_MDIOACC_1 (md_VALUE32 (mdio_rd junk hwAddr a))
          (chip_on_write ADDR_MAC_MDIOACC_0 (md_VALUE32 (mdio_address junk hwAddr a)) e))) ADDR_MAC_MDIOACC_1)) =
        chip_phy e hwAddr a \<and>
      (chip_on_read ADDR_MAC_MDIOACC_1 ^^ Suc (Suc n))
        (chip_on_write ADDR_MAC_MDIOACC_1 (md_VALUE32 (mdio_rd junk hwAddr a))
          (chip_on_write ADDR_MAC_MDIOACC_0 (md_VALUE32 (mdio_address junk hwAddr a)) e)) = chip_phy_read hwAddr a e"
    unfolding chip_after_read chip_reads chip_reg_mdio
    by (intro exI [of _ 3] conjI ready) (simp_all add: chip_phy_read_def)
  show "\<exists>n. mdio_done chip_reg chip_on_read n
        (chip_on_write ADDR_MAC_MDIOACC_1 (md_VALUE32 (mdio_wr junk hwAddr a v))
          (chip_on_write ADDR_MAC_MDIOACC_0 (md_VALUE32 (mdio_address junk hwAddr a)) e)) \<and>
      (chip_on_read ADDR_MAC_MDIOACC_1 ^^ Suc n)
        (chip_on_write ADDR_MAC_MDIOACC_1 (md_VALUE32 (mdio_wr junk hwAddr a v))
          (chip_on_write ADDR_MAC_MDIOACC_0 (md_VALUE32 (mdio_address junk hwAddr a)) e)) = chip_phy_write hwAddr a v e"
    unfolding chip_after_write chip_reads
    by (intro exI [of _ 3] conjI ready) (simp_all add: chip_phy_write_def)
qed

end
