(* ===== verification/Phy_Client.thy ===== *)
theory Phy_Client
  imports Phy_Diag
begin

text \<open>
  The PHY driver over a bus that reads and writes the registers of a PHY: the contract of the two
  functions the driver is given, triples of its routines, and what the routines do to the
  registers of a PHY.
\<close>

section \<open>Triples\<close>

text \<open>
  \<open>good\<close> is what a working bus keeps of its state and \<open>view\<close> the part of it that matters, with the PHY.
\<close>

definition phy_call :: "('w \<Rightarrow> bool) \<Rightarrow> ('w \<Rightarrow> 'p) \<Rightarrow> ('w, 'a) phy_io \<Rightarrow> adi_phy_Device_t \<Rightarrow> 'p \<Rightarrow>
    adi_eth_Result_e + 'a \<Rightarrow> adi_phy_Device_t \<Rightarrow> 'p \<Rightarrow> bool" where
  "phy_call good view m d p r d' p' \<longleftrightarrow> (\<forall>w. good w \<and> view w = p \<longrightarrow>
     (\<exists>w'. m (d, w) = Some (r, d', w') \<and> good w' \<and> view w' = p'))"

lemma phy_callI:
  assumes "\<And>w. good w \<Longrightarrow> view w = p \<Longrightarrow> \<exists>w'. m (d, w) = Some (r, d', w') \<and> good w' \<and> view w' = p'"
  shows "phy_call good view m d p r d' p'"
  using assms by (simp add: phy_call_def)

lemma phy_callE:
  assumes "phy_call good view m d p r d' p'" and "good w" and "view w = p"
  obtains w' where "m (d, w) = Some (r, d', w')" and "good w'" and "view w' = p'"
  using assms unfolding phy_call_def by blast

lemma phy_call_bind:
  assumes "phy_call good view m d p (Inr x) d1 p1" and "phy_call good view (f x) d1 p1 r d2 p2"
  shows "phy_call good view (mbind m f) d p r d2 p2"
proof (rule phy_callI)
  fix w assume "good w" "view w = p"
  then obtain w1 where "m (d, w) = Some (Inr x, d1, w1)" and w1: "good w1" "view w1 = p1"
    by (rule phy_callE [OF assms(1)])
  moreover obtain w2 where "f x (d1, w1) = Some (r, d2, w2)" "good w2" "view w2 = p2"
    by (rule phy_callE [OF assms(2) w1])
  ultimately show "\<exists>w'. mbind m f (d, w) = Some (r, d2, w') \<and> good w' \<and> view w' = p2"
    by (simp add: mbind_def)
qed

lemma phy_call_bind_err:
  assumes "phy_call good view m d p (Inl err) d1 p1"
  shows "phy_call good view (mbind m f) d p (Inl err) d1 p1"
  using assms by (fastforce simp: phy_call_def mbind_def)

lemma phy_call_catch:
  assumes "phy_call good view m d p (Inr x) d1 p1" and "phy_call good view (f x) d1 p1 r d2 p2"
  shows "phy_call good view (mcatch m k f) d p r d2 p2"
proof (rule phy_callI)
  fix w assume "good w" "view w = p"
  then obtain w1 where "m (d, w) = Some (Inr x, d1, w1)" and w1: "good w1" "view w1 = p1"
    by (rule phy_callE [OF assms(1)])
  moreover obtain w2 where "f x (d1, w1) = Some (r, d2, w2)" "good w2" "view w2 = p2"
    by (rule phy_callE [OF assms(2) w1])
  ultimately show "\<exists>w'. mcatch m k f (d, w) = Some (r, d2, w') \<and> good w' \<and> view w' = p2"
    by (simp add: mcatch_def)
qed

lemma phy_call_ret: "phy_call good view (mret x) d p (Inr x) d p"
  by (simp add: phy_call_def mret_def)

lemma phy_call_fail: "phy_call good view (mfail err) d p (Inl err) d p"
  by (simp add: phy_call_def mfail_def)

lemma phy_call_get: "phy_call good view (phy_get f) d p (Inr (f d)) d p"
  by (simp add: phy_call_def phy_get_def mget_def)

lemma phy_call_upd: "phy_call good view (phy_upd f) d p (Inr ()) (f d) p"
  by (simp add: phy_call_def phy_upd_def mupd_def)

lemma phy_call_when:
  assumes "b \<Longrightarrow> phy_call good view m d p (Inr ()) d' p'" and "\<not> b \<Longrightarrow> d' = d \<and> p' = p"
  shows "phy_call good view (mwhen b m) d p (Inr ()) d' p'"
  using assms by (cases b) (simp_all add: mwhen_def phy_call_ret)

lemma phy_call_unless_pending:
  assumes "\<not> ph_irqPending d" and "phy_call good view m d p r d' p'"
  shows "phy_call good view (unless_pending m) d p r d' p'"
  unfolding unless_pending_def by (rule phy_call_bind, rule phy_call_get) (simp add: assms)

section \<open>The bus\<close>

locale phy_registers =
  fixes b :: "'w phy_bus"
    and addr :: u32
    and good :: "'w \<Rightarrow> bool"
    and view :: "'w \<Rightarrow> bool \<times> 'p"
    and preg :: "'p \<Rightarrow> u32 \<Rightarrow> u16"
    and p_read :: "u32 \<Rightarrow> 'p \<Rightarrow> 'p"
    and p_write :: "u32 \<Rightarrow> u16 \<Rightarrow> 'p \<Rightarrow> 'p"
    and rest :: "'p \<Rightarrow> 'r"
    and awake :: "'p \<Rightarrow> bool"
  assumes bus_read: "good w \<Longrightarrow> \<exists>w'. pb_readFn b (ucast addr) a old w =
         Some ((ADI_ETH_SUCCESS, preg (snd (view w)) a), w') \<and>
       good w' \<and> view w' = (fst (view w), p_read a (snd (view w)))"
    and bus_write: "good w \<Longrightarrow> \<exists>w'. pb_writeFn b (ucast addr) a v w = Some (ADI_ETH_SUCCESS, w') \<and>
       good w' \<and> view w' = (fst (view w), p_write a v (snd (view w)))"
    and bus_irq: "good w \<Longrightarrow> good (pb_setIrq b x w) \<and> view (pb_setIrq b x w) = (x, snd (view w))"
    and get_irq: "good w \<Longrightarrow> pb_getIrq b w = fst (view w)"
    and awake_read: "awake p \<Longrightarrow> awake (p_read a p)"
    and awake_write: "awake p \<Longrightarrow> awake (p_write a v p)"
    and rest_read: "awake p \<Longrightarrow> rest (p_read a p) = rest p"
    and rest_write: "awake p \<Longrightarrow> rest (p_write a v p) = rest p"
begin

lemma awake_reads: "awake p \<Longrightarrow> awake ((p_read a ^^ k) p)"
  by (induction k) (simp_all add: awake_read)

lemma rest_reads: "awake p \<Longrightarrow> rest ((p_read a ^^ k) p) = rest p"
  by (induction k) (simp_all add: rest_read awake_reads)

lemmas rest_kept = rest_read rest_write rest_reads awake_read awake_write awake_reads

lemma read_into:
  assumes "ph_phyAddr d = addr"
  shows "phy_call good view (PHY_Read_into b a old) d (i, p) (Inr (ADI_ETH_SUCCESS, preg p a)) d (i, p_read a p)"
proof (rule phy_callI)
  fix w assume w: "good w" "view w = (i, p)"
  obtain w1 where r: "pb_readFn b (ucast addr) a old (pb_setIrq b False w) = Some ((ADI_ETH_SUCCESS, preg p a), w1)"
      "good w1" "view w1 = (False, p_read a p)"
    using bus_read [of "pb_setIrq b False w" a old] bus_irq [OF w(1), of False] w(2) by auto
  have "good (if pb_getIrq b w then pb_setIrq b True w1 else w1) \<and>
      view (if pb_getIrq b w then pb_setIrq b True w1 else w1) = (i, p_read a p)"
    using r(2,3) bus_irq [OF r(2), of True] get_irq [OF w(1)] w(2) by simp
  then show "\<exists>w'. PHY_Read_into b a old (d, w) = Some (Inr (ADI_ETH_SUCCESS, preg p a), d, w') \<and> good w' \<and>
      view w' = (i, p_read a p)"
    using r(1) assms by (simp add: PHY_Read_into_def Let_def)
qed

lemma read_reg:
  assumes "ph_phyAddr d = addr"
  shows "phy_call good view (PHY_Read b a) d (i, p) (Inr (preg p a)) d (i, p_read a p)"
  unfolding PHY_Read_def by (rule phy_call_bind, rule read_into [OF assms]) (simp add: phy_call_ret)

lemma write_reg:
  assumes "ph_phyAddr d = addr"
  shows "phy_call good view (PHY_Write b a v) d (i, p) (Inr ()) d (i, p_write a v p)"
proof (rule phy_callI)
  fix w assume w: "good w" "view w = (i, p)"
  obtain w1 where r: "pb_writeFn b (ucast addr) a v (pb_setIrq b False w) = Some (ADI_ETH_SUCCESS, w1)"
      "good w1" "view w1 = (False, p_write a v p)"
    using bus_write [of "pb_setIrq b False w" a v] bus_irq [OF w(1), of False] w(2) by auto
  have "good (if pb_getIrq b w then pb_setIrq b True w1 else w1) \<and>
      view (if pb_getIrq b w then pb_setIrq b True w1 else w1) = (i, p_write a v p)"
    using r(2,3) bus_irq [OF r(2), of True] get_irq [OF w(1)] w(2) by simp
  then show "\<exists>w'. PHY_Write b a v (d, w) = Some (Inr (), d, w') \<and> good w' \<and> view w' = (i, p_write a v p)"
    using r(1) assms by (simp add: PHY_Write_def Let_def)
qed

lemma then_read:
  assumes "ph_phyAddr d = addr" and "phy_call good view (f (preg p a)) d (i, p_read a p) r d' q"
  shows "phy_call good view (mbind (PHY_Read b a) f) d (i, p) r d' q"
  by (rule phy_call_bind, rule read_reg [OF assms(1)], rule assms(2))

lemma then_write:
  assumes "ph_phyAddr d = addr" and "phy_call good view (f ()) d (i, p_write a v p) r d' q"
  shows "phy_call good view (mbind (PHY_Write b a v) f) d (i, p) r d' q"
  by (rule phy_call_bind, rule write_reg [OF assms(1)], rule assms(2))

end

section \<open>Registers of a PHY\<close>

text \<open>
  The laws hold once the PHY is out of reset.  Plain registers hold what is written to them.  A
  request to enter or leave the software power-down state is reported by \<open>CRSM_STAT\<close> within the number of reads the driver makes.
\<close>

definition pd_ready :: "u16 \<Rightarrow> bool" where
  "pd_ready v \<longleftrightarrow> v AND ucast BITM_CRSM_STAT_CRSM_SFT_PD_RDY = bit16 BITP_CRSM_STAT_CRSM_SFT_PD_RDY"

locale phy_regfile = phy_registers +
  fixes plain :: "u32 set"
  assumes preg_write: "\<lbrakk>awake p; x \<in> plain; y \<in> plain\<rbrakk> \<Longrightarrow> preg (p_write x v p) y = (if y = x then v else preg p y)"
    and preg_read: "\<lbrakk>awake p; y \<in> plain\<rbrakk> \<Longrightarrow> preg (p_read x p) y = preg p y"
    and power: "awake p \<Longrightarrow> \<exists>n < ADI_PHY_SOFT_PD_ITER.
        (\<forall>k<n. pd_ready (preg ((p_read ADDR_CRSM_STAT ^^ k) (p_write ADDR_CRSM_SFT_PD_CNTRL (of_bool enable) p)) ADDR_CRSM_STAT)
           \<noteq> enable) \<and>
        pd_ready (preg ((p_read ADDR_CRSM_STAT ^^ n) (p_write ADDR_CRSM_SFT_PD_CNTRL (of_bool enable) p)) ADDR_CRSM_STAT)
           = enable"
    and power_plain: "\<lbrakk>awake p; y \<in> plain\<rbrakk> \<Longrightarrow> preg (p_write ADDR_CRSM_SFT_PD_CNTRL v p) y = preg p y"
begin

lemma get_powerdown:
  assumes "ph_phyAddr d = addr" and "\<not> ph_irqPending d"
  shows "phy_call good view (PHY_GetSoftwarePowerdown b) d (i, p) (Inr (pd_ready (preg p ADDR_CRSM_STAT))) d
    (i, p_read ADDR_CRSM_STAT p)"
  unfolding PHY_GetSoftwarePowerdown_def pd_ready_def
  by (rule phy_call_unless_pending [OF assms(2)], rule phy_call_catch, rule read_reg [OF assms(1)], rule phy_call_ret)

lemma pd_wait_done:
  assumes "ph_phyAddr d = addr" and "\<not> ph_irqPending d"
    and "\<forall>k<n. pd_ready (preg ((p_read ADDR_CRSM_STAT ^^ k) p) ADDR_CRSM_STAT) \<noteq> enable"
    and "pd_ready (preg ((p_read ADDR_CRSM_STAT ^^ n) p) ADDR_CRSM_STAT) = enable" and "n < m"
    and "good w" and "view w = (i, p)"
  shows "\<exists>w'. pd_wait b enable swpd m (d, w) = Some ((True, Inr ()), d, w') \<and> good w' \<and>
     view w' = (i, (p_read ADDR_CRSM_STAT ^^ Suc n) p)"
  using assms(3-)
proof (induction n arbitrary: m p w swpd)
  case 0
  then obtain m' where m: "m = Suc m'" by (cases m) auto
  obtain w1 where "PHY_GetSoftwarePowerdown b (d, w) = Some (Inr (pd_ready (preg p ADDR_CRSM_STAT)), d, w1)"
      "good w1" "view w1 = (i, p_read ADDR_CRSM_STAT p)"
    by (rule phy_callE [OF get_powerdown [OF assms(1,2)] "0.prems"(4,5)])
  with 0 show ?case by (simp add: m)
next
  case (Suc n)
  then obtain m' where m: "m = Suc m'" by (cases m) auto
  let ?p = "p_read ADDR_CRSM_STAT p"
  obtain w1 where w1: "PHY_GetSoftwarePowerdown b (d, w) = Some (Inr (pd_ready (preg p ADDR_CRSM_STAT)), d, w1)"
      "good w1" "view w1 = (i, ?p)"
    by (rule phy_callE [OF get_powerdown [OF assms(1,2)] Suc.prems(4,5)])
  have shift: "(p_read ADDR_CRSM_STAT ^^ k) ?p = (p_read ADDR_CRSM_STAT ^^ Suc k) p" for k
    by (simp only: funpow_Suc_right o_apply)
  have "\<exists>w'. pd_wait b enable (pd_ready (preg p ADDR_CRSM_STAT)) m' (d, w1) = Some ((True, Inr ()), d, w') \<and> good w' \<and>
     view w' = (i, (p_read ADDR_CRSM_STAT ^^ Suc n) ?p)"
    by (rule Suc.IH) (use Suc.prems m w1 in \<open>auto simp only: shift Suc_less_eq\<close>)
  moreover have "pd_ready (preg p ADDR_CRSM_STAT) \<noteq> enable" using Suc.prems(1) by auto
  ultimately show ?case unfolding shift by (simp add: m w1(1))
qed

text \<open>Entering and leaving the power-down state: what the registers are like then.\<close>

lemma set_powerdown:
  assumes "ph_phyAddr d = addr" and "\<not> ph_irqPending d" and "awake p"
  shows "\<exists>p'. phy_call good view (setSoftwarePowerdown b enable) d (i, p) (Inr ())
       (d\<lparr>ph_state := (if enable then ADI_PHY_STATE_SOFTWARE_POWERDOWN else ADI_PHY_STATE_OPERATION)\<rparr>) (i, p') \<and>
     (\<forall>y \<in> plain. preg p' y = preg p y) \<and> rest p' = rest p \<and> awake p'"
proof -
  let ?p1 = "p_write ADDR_CRSM_SFT_PD_CNTRL (of_bool enable) p"
  obtain n where n: "n < ADI_PHY_SOFT_PD_ITER"
      "\<forall>k<n. pd_ready (preg ((p_read ADDR_CRSM_STAT ^^ k) ?p1) ADDR_CRSM_STAT) \<noteq> enable"
      "pd_ready (preg ((p_read ADDR_CRSM_STAT ^^ n) ?p1) ADDR_CRSM_STAT) = enable"
    using power [OF assms(3), of enable] by blast
  have run: "phy_call good view (setSoftwarePowerdown b enable) d (i, p) (Inr ())
       (d\<lparr>ph_state := (if enable then ADI_PHY_STATE_SOFTWARE_POWERDOWN else ADI_PHY_STATE_OPERATION)\<rparr>)
       (i, (p_read ADDR_CRSM_STAT ^^ Suc n) ?p1)"
    unfolding setSoftwarePowerdown_def
  proof (rule phy_call_unless_pending [OF assms(2)], rule then_write [OF assms(1)], rule phy_callI)
    fix w assume w: "good w"
      "view w = (i, p_write ADDR_CRSM_SFT_PD_CNTRL (push_bit BITP_CRSM_SFT_PD_CNTRL_CRSM_SFT_PD (of_bool enable)) p)"
    then have v: "view w = (i, ?p1)" by (simp add: phy_regs)
    from pd_wait_done [OF assms(1,2) n(2,3,1) w(1) v, of False]
    show "\<exists>w'. (do {
        ((done, result), d, w) \<leftarrow> pd_wait b enable False ADI_PHY_SOFT_PD_ITER (d, w);
        if \<not> done then Some (Inl ADI_ETH_READ_STATUS_TIMEOUT, d, w)
        else Some (result, d\<lparr>ph_state := if enable then ADI_PHY_STATE_SOFTWARE_POWERDOWN else ADI_PHY_STATE_OPERATION\<rparr>, w)
      }) = Some (Inr (), d\<lparr>ph_state := if enable then ADI_PHY_STATE_SOFTWARE_POWERDOWN else ADI_PHY_STATE_OPERATION\<rparr>, w') \<and>
      good w' \<and> view w' = (i, (p_read ADDR_CRSM_STAT ^^ Suc n) ?p1)"
      by auto
  qed
  have "preg ((p_read ADDR_CRSM_STAT ^^ k) ?p1) y = preg p y" if "y \<in> plain" for k y
    using that assms(3) by (induction k) (simp_all add: preg_read power_plain rest_kept)
  moreover have "rest ((p_read ADDR_CRSM_STAT ^^ Suc n) ?p1) = rest p" "awake ((p_read ADDR_CRSM_STAT ^^ Suc n) ?p1)"
    using assms(3) by (simp_all only: rest_kept)
  ultimately show ?thesis using run by blast
qed

lemma enter_powerdown:
  assumes "ph_phyAddr d = addr" and "\<not> ph_irqPending d" and "awake p"
  shows "\<exists>p'. phy_call good view (PHY_EnterSoftwarePowerdown b) d (i, p) (Inr ())
       (d\<lparr>ph_state := ADI_PHY_STATE_SOFTWARE_POWERDOWN\<rparr>) (i, p') \<and> (\<forall>y \<in> plain. preg p' y = preg p y) \<and> rest p' = rest p \<and> awake p'"
  using set_powerdown [OF assms, of True] by (simp add: PHY_EnterSoftwarePowerdown_def)

lemma exit_powerdown:
  assumes "ph_phyAddr d = addr" and "\<not> ph_irqPending d" and "awake p"
  shows "\<exists>p'. phy_call good view (PHY_ExitSoftwarePowerdown b) d (i, p) (Inr ())
       (d\<lparr>ph_state := ADI_PHY_STATE_OPERATION\<rparr>) (i, p') \<and> (\<forall>y \<in> plain. preg p' y = preg p y) \<and> rest p' = rest p \<and> awake p'"
  using set_powerdown [OF assms, of False] by (simp add: PHY_ExitSoftwarePowerdown_def)

end

section \<open>Loopback\<close>

text \<open>The device and the two registers of auto-negotiation after a change between modes of the PHY and others.\<close>

definition lb_an :: "bool \<Rightarrow> bool \<Rightarrow> u16 \<times> u16 \<Rightarrow> u16 \<times> u16" where
  "lb_an change in_phy = (\<lambda>(ctrl, frc). if change then (of_bool (\<not> in_phy), of_bool in_phy) else (ctrl, frc))"

text \<open>Whether the driver goes through the power-down state.\<close>

definition lb_change :: "adi_phy_LoopbackMode_e \<Rightarrow> u16 \<Rightarrow> u16 \<Rightarrow> bool" where
  "lb_change mode pcs pma \<longleftrightarrow> (pcs AND ucast BITM_B10L_PCS_CNTRL_B10L_LB_PCS_EN \<noteq> 0 \<or>
      pma AND ucast BITM_B10L_PMA_CNTRL_B10L_LB_PMA_LOC_EN \<noteq> 0) \<or> lb_in_phy mode"

context phy_regfile
begin

lemma loopback_powerdown:
  assumes "ph_phyAddr d = addr" and "\<not> ph_irqPending d" and "{ADDR_AN_CONTROL, ADDR_AN_FRC_MODE_EN} \<subseteq> plain"
    and "awake p"
  shows "\<exists>p' st. phy_call good view (mwhen change (
       mbind (PHY_EnterSoftwarePowerdown b) (\<lambda>_.
       if in_phy
       then mbind (PHY_Write b ADDR_AN_CONTROL 0) (\<lambda>_. PHY_Write b ADDR_AN_FRC_MODE_EN 1)
       else mbind (PHY_Write b ADDR_AN_FRC_MODE_EN 0) (\<lambda>_. PHY_Write b ADDR_AN_CONTROL 1)))) d (i, p) (Inr ())
       (d\<lparr>ph_state := st\<rparr>) (i, p') \<and>
     (preg p' ADDR_AN_CONTROL, preg p' ADDR_AN_FRC_MODE_EN) =
       lb_an change in_phy (preg p ADDR_AN_CONTROL, preg p ADDR_AN_FRC_MODE_EN) \<and>
     (\<forall>y \<in> plain - {ADDR_AN_CONTROL, ADDR_AN_FRC_MODE_EN}. preg p' y = preg p y) \<and> (\<not> change \<longrightarrow> st = ph_state d) \<and>
     rest p' = rest p \<and> awake p'"
proof (cases change)
  case True
  obtain p1 where p1: "phy_call good view (PHY_EnterSoftwarePowerdown b) d (i, p) (Inr ())
       (d\<lparr>ph_state := ADI_PHY_STATE_SOFTWARE_POWERDOWN\<rparr>) (i, p1)" "\<forall>y \<in> plain. preg p1 y = preg p y"
      "rest p1 = rest p" "awake p1"
    using enter_powerdown [OF assms(1,2,4), of i] by blast
  have a: "ph_phyAddr (d\<lparr>ph_state := x\<rparr>) = addr" for x using assms(1) by simp
  define p2 where "p2 = (if in_phy then p_write ADDR_AN_FRC_MODE_EN 1 (p_write ADDR_AN_CONTROL 0 p1)
     else p_write ADDR_AN_CONTROL 1 (p_write ADDR_AN_FRC_MODE_EN 0 p1))"
  have "phy_call good view (if in_phy
       then mbind (PHY_Write b ADDR_AN_CONTROL 0) (\<lambda>_. PHY_Write b ADDR_AN_FRC_MODE_EN 1)
       else mbind (PHY_Write b ADDR_AN_FRC_MODE_EN 0) (\<lambda>_. PHY_Write b ADDR_AN_CONTROL 1))
      (d\<lparr>ph_state := ADI_PHY_STATE_SOFTWARE_POWERDOWN\<rparr>) (i, p1) (Inr ())
      (d\<lparr>ph_state := ADI_PHY_STATE_SOFTWARE_POWERDOWN\<rparr>) (i, p2)"
    by (cases in_phy) (simp_all add: p2_def then_write [OF a] write_reg [OF a])
  then have "phy_call good view (mwhen change (mbind (PHY_EnterSoftwarePowerdown b) (\<lambda>_. if in_phy
       then mbind (PHY_Write b ADDR_AN_CONTROL 0) (\<lambda>_. PHY_Write b ADDR_AN_FRC_MODE_EN 1)
       else mbind (PHY_Write b ADDR_AN_FRC_MODE_EN 0) (\<lambda>_. PHY_Write b ADDR_AN_CONTROL 1)))) d (i, p) (Inr ())
      (d\<lparr>ph_state := ADI_PHY_STATE_SOFTWARE_POWERDOWN\<rparr>) (i, p2)"
    by (simp only: True mwhen_def if_True) (rule phy_call_bind, rule p1(1))
  moreover have "ADDR_AN_CONTROL \<noteq> ADDR_AN_FRC_MODE_EN" by (simp add: phy_regs)
  ultimately show ?thesis
    using assms(3) p1(2-) True
    by (intro exI [of _ p2] exI [of _ ADI_PHY_STATE_SOFTWARE_POWERDOWN]) (auto simp: p2_def preg_write lb_an_def rest_kept)
next
  case False
  with assms(4) show ?thesis
    by (intro exI [of _ p] exI [of _ "ph_state d"]) (auto simp: mwhen_def phy_call_ret lb_an_def)
qed

lemma set_loopback:
  assumes "ph_phyAddr d = addr" and "\<not> ph_irqPending d"
    and "{ADDR_AN_CONTROL, ADDR_AN_FRC_MODE_EN, ADDR_MAC_IF_LOOPBACK, ADDR_B10L_PCS_CNTRL, ADDR_B10L_PMA_CNTRL} \<subseteq> plain"
    and change: "change = lb_change mode (preg p ADDR_B10L_PCS_CNTRL) (preg p ADDR_B10L_PMA_CNTRL)"
    and awake: "awake p"
  shows "\<exists>p'. phy_call good view (PHY_SetLoopbackMode b mode) d (i, p) (Inr ())
       (d\<lparr>ph_state := if change then ADI_PHY_STATE_OPERATION else ph_state d\<rparr>) (i, p') \<and>
     (preg p' ADDR_MAC_IF_LOOPBACK, preg p' ADDR_B10L_PCS_CNTRL, preg p' ADDR_B10L_PMA_CNTRL) =
       lb_start mode (lb_stop_macif (preg p ADDR_MAC_IF_LOOPBACK), lb_stop_pcs (preg p ADDR_B10L_PCS_CNTRL),
         lb_stop_pma (preg p ADDR_B10L_PMA_CNTRL)) \<and>
     (preg p' ADDR_AN_CONTROL, preg p' ADDR_AN_FRC_MODE_EN) =
       lb_an change (lb_in_phy mode) (preg p ADDR_AN_CONTROL, preg p ADDR_AN_FRC_MODE_EN) \<and>
     (\<forall>y \<in> plain - {ADDR_AN_CONTROL, ADDR_AN_FRC_MODE_EN, ADDR_MAC_IF_LOOPBACK, ADDR_B10L_PCS_CNTRL, ADDR_B10L_PMA_CNTRL}.
       preg p' y = preg p y) \<and> rest p' = rest p \<and> awake p'"
proof -
  let ?M = ADDR_MAC_IF_LOOPBACK and ?C = ADDR_B10L_PCS_CNTRL and ?A = ADDR_B10L_PMA_CNTRL
  define p3 where "p3 = p_read ?A (p_read ?C (p_read ?M p))"
  have pl: "?M \<in> plain" "?C \<in> plain" "?A \<in> plain" "{ADDR_AN_CONTROL, ADDR_AN_FRC_MODE_EN} \<subseteq> plain" using assms(3) by simp_all
  have r: "preg (p_read ?M p) ?C = preg p ?C" "preg (p_read ?C (p_read ?M p)) ?A = preg p ?A"
    and p3: "\<forall>y \<in> plain. preg p3 y = preg p y" using pl awake by (simp_all add: preg_read p3_def rest_kept)
  have aw3: "awake p3" using awake by (simp add: p3_def rest_kept)
  obtain p4 st where p4: "phy_call good view (mwhen change (
       mbind (PHY_EnterSoftwarePowerdown b) (\<lambda>_.
       if lb_in_phy mode
       then mbind (PHY_Write b ADDR_AN_CONTROL 0) (\<lambda>_. PHY_Write b ADDR_AN_FRC_MODE_EN 1)
       else mbind (PHY_Write b ADDR_AN_FRC_MODE_EN 0) (\<lambda>_. PHY_Write b ADDR_AN_CONTROL 1)))) d (i, p3) (Inr ())
       (d\<lparr>ph_state := st\<rparr>) (i, p4)"
     "(preg p4 ADDR_AN_CONTROL, preg p4 ADDR_AN_FRC_MODE_EN) =
       lb_an change (lb_in_phy mode) (preg p3 ADDR_AN_CONTROL, preg p3 ADDR_AN_FRC_MODE_EN)"
     "\<forall>y \<in> plain - {ADDR_AN_CONTROL, ADDR_AN_FRC_MODE_EN}. preg p4 y = preg p3 y" "\<not> change \<longrightarrow> st = ph_state d"
     "rest p4 = rest p3" "awake p4"
    using loopback_powerdown [OF assms(1,2) pl(4) aw3, of change "lb_in_phy mode" i] by blast
  obtain m c a where v: "lb_start mode (lb_stop_macif (preg p ?M), lb_stop_pcs (preg p ?C), lb_stop_pma (preg p ?A)) = (m, c, a)"
    by (rule prod_cases3)
  define p5 where "p5 = p_write ?A a (p_write ?C c (p_write ?M m p4))"
  have aw5: "awake p5" using p4(6) by (simp add: p5_def rest_kept)
  have d': "ph_phyAddr (d\<lparr>ph_state := st\<rparr>) = addr" "\<not> ph_irqPending (d\<lparr>ph_state := st\<rparr>)" using assms(1,2) by simp_all
  obtain p6 where p6: "phy_call good view (mwhen change (PHY_ExitSoftwarePowerdown b)) (d\<lparr>ph_state := st\<rparr>) (i, p5) (Inr ())
       (d\<lparr>ph_state := if change then ADI_PHY_STATE_OPERATION else ph_state d\<rparr>) (i, p6)" "\<forall>y \<in> plain. preg p6 y = preg p5 y"
       "rest p6 = rest p5" "awake p6"
  proof (cases change)
    case True
    with exit_powerdown [OF d' aw5, of i] that show ?thesis by (auto simp: mwhen_def)
  next
    case False
    with p4(4) aw5 that [of p5] show ?thesis by (simp add: mwhen_def phy_call_ret)
  qed
  have "phy_call good view (PHY_SetLoopbackMode b mode) d (i, p) (Inr ())
       (d\<lparr>ph_state := if change then ADI_PHY_STATE_OPERATION else ph_state d\<rparr>) (i, p6)"
    unfolding PHY_SetLoopbackMode_def Let_def
    by (rule then_read [OF assms(1)], rule then_read [OF assms(1)], rule then_read [OF assms(1)], unfold r,
      fold p3_def, fold lb_change_def, fold change, rule phy_call_bind, rule p4(1), unfold v prod.case,
      rule then_write [OF d'(1)], rule then_write [OF d'(1)], rule then_write [OF d'(1)], fold p5_def, rule p6(1))
  moreover have "distinct [ADDR_AN_CONTROL, ADDR_AN_FRC_MODE_EN, ?M, ?C, ?A]" by (simp add: phy_regs)
  ultimately show ?thesis
    using pl p3 p4(2,3,5,6) p6(2-) awake unfolding v by (intro exI [of _ p6]) (auto simp: p5_def p3_def preg_write rest_kept)
qed

end

end
