(* ===== verification/Phy_Bringup.thy ===== *)
theory Phy_Bringup
  imports Phy_Client
begin

text \<open>
  Initialisation of a PHY that identifies itself and reports no hardware error, and the set-up of
  auto-negotiation, the frame generator and the LEDs.
\<close>

section \<open>Initialisation\<close>

text \<open>The registers of the static configuration.\<close>

definition static_regs :: "u32 set" where
  "static_regs = fst ` set (static_config 10)"

lemma static_config_regs: "fst ` set (static_config n) \<subseteq> static_regs"
  by (auto simp: static_regs_def static_config_def)

locale phy_bringup = phy_regfile +
  assumes id1: "awake p \<Longrightarrow> preg p ADDR_MMD1_DEV_ID1 = ADI_PHY_DEVID1"
    and id2: "awake p \<Longrightarrow> preg p ADDR_MMD1_DEV_ID2 AND ucast BITM_MMD1_DEV_ID2_MMD1_DEV_ID2_OUI =
       push_bit BITP_MMD1_DEV_ID2_MMD1_DEV_ID2_OUI ADI_PHY_DEVID2_OUI"
    and no_error: "awake p \<Longrightarrow> preg p ADDR_CRSM_IRQ_STATUS AND ucast ADI_PHY_CRSM_HW_ERROR = 0"
    and init_plain: "static_regs \<union> {ADDR_CRSM_IRQ_MASK, ADDR_PHY_SUBSYS_IRQ_MASK, ADDR_AN_CONTROL} \<subseteq> plain"
begin

lemma identity:
  assumes "ph_phyAddr d = addr" and "awake p"
  shows "\<exists>x p'. phy_call good view (checkIdentity b) d (i, p) (Inr x) d (i, p') \<and> (\<forall>y \<in> plain. preg p' y = preg p y) \<and>
     rest p' = rest p \<and> awake p'"
proof -
  define p2 where "p2 = p_read ADDR_MMD1_DEV_ID2 (p_read ADDR_MMD1_DEV_ID1 p)"
  let ?v = "preg (p_read ADDR_MMD1_DEV_ID1 p) ADDR_MMD1_DEV_ID2"
  have "phy_call good view (checkIdentity b) d (i, p)
     (Inr (drop_bit BITP_MMD1_DEV_ID2_MMD1_MODEL_NUM (?v AND ucast BITM_MMD1_DEV_ID2_MMD1_MODEL_NUM),
        drop_bit BITP_MMD1_DEV_ID2_MMD1_REV_NUM (?v AND ucast BITM_MMD1_DEV_ID2_MMD1_REV_NUM))) d (i, p2)"
    unfolding checkIdentity_def p2_def
    by (rule then_read [OF assms(1)], unfold if_not_P [OF not_not [THEN iffD2, OF id1 [OF assms(2)]]],
      rule then_read [OF assms(1)], unfold if_not_P [OF not_not [THEN iffD2, OF id2 [OF awake_read [OF assms(2)]]]],
      rule phy_call_ret)
  moreover have "\<forall>y \<in> plain. preg p2 y = preg p y" using assms(2) by (simp add: p2_def preg_read rest_kept)
  moreover have "rest p2 = rest p" "awake p2" using assms(2) by (simp_all add: p2_def rest_kept)
  ultimately show ?thesis by blast
qed

lemma write_all:
  assumes "ph_phyAddr d = addr" and "fst ` set ws \<subseteq> plain" and "awake p"
  shows "\<exists>p'. phy_call good view (write_list b ws) d (i, p) (Inr ()) d (i, p') \<and>
     (\<forall>y \<in> plain - fst ` set ws. preg p' y = preg p y) \<and> rest p' = rest p \<and> awake p'"
  using assms(2,3)
proof (induction ws arbitrary: p)
  case Nil
  then show ?case by (auto intro: phy_call_ret)
next
  case (Cons w ws)
  obtain x v where w: "w = (x, v)" by (rule prod.exhaust)
  obtain p' where p': "phy_call good view (write_list b ws) d (i, p_write x v p) (Inr ()) d (i, p')"
      "\<forall>y \<in> plain - fst ` set ws. preg p' y = preg (p_write x v p) y" "rest p' = rest p" "awake p'"
    using Cons.IH [of "p_write x v p"] Cons.prems by (auto simp: rest_kept)
  have "phy_call good view (write_list b (w # ws)) d (i, p) (Inr ()) d (i, p')"
    unfolding w write_list.simps by (rule then_write [OF assms(1)], rule p'(1))
  moreover have "\<forall>y \<in> plain - fst ` set (w # ws). preg p' y = preg p y"
    using p'(2) Cons.prems by (simp add: w preg_write)
  ultimately show ?case using p'(3,4) by blast
qed

lemma poll_ready:
  assumes "ph_phyAddr d = addr" and "\<not> ph_irqPending d"
    and "\<forall>k<n. \<not> pd_ready (preg ((p_read ADDR_CRSM_STAT ^^ k) p) ADDR_CRSM_STAT)"
    and "pd_ready (preg ((p_read ADDR_CRSM_STAT ^^ n) p) ADDR_CRSM_STAT)" and "n < m"
  shows "phy_call good view (pd_poll b m) d (i, p) (Inr ()) d (i, (p_read ADDR_CRSM_STAT ^^ Suc n) p)"
  using assms(3-)
proof (induction n arbitrary: m p)
  case 0
  then obtain m' where m: "m = Suc m'" by (cases m) auto
  show ?case unfolding m pd_poll.simps
    by (rule phy_call_bind, rule get_powerdown [OF assms(1,2)]) (use "0.prems"(2) in \<open>simp add: phy_call_ret\<close>)
next
  case (Suc n)
  then obtain m' where m: "m = Suc m'" by (cases m) auto
  have shift: "(p_read ADDR_CRSM_STAT ^^ k) (p_read ADDR_CRSM_STAT p) = (p_read ADDR_CRSM_STAT ^^ Suc k) p" for k
    by (simp only: funpow_Suc_right o_apply)
  have rest: "phy_call good view (pd_poll b m') d (i, p_read ADDR_CRSM_STAT p) (Inr ()) d
      (i, (p_read ADDR_CRSM_STAT ^^ Suc n) (p_read ADDR_CRSM_STAT p))"
    by (rule Suc.IH) (use Suc.prems m in \<open>auto simp only: shift Suc_less_eq\<close>)
  have "\<not> pd_ready (preg p ADDR_CRSM_STAT)" using Suc.prems(1) by auto
  with rest show ?case unfolding m pd_poll.simps shift
    by (intro phy_call_bind [OF get_powerdown [OF assms(1,2)]]) simp
qed

lemma powered_down:
  assumes "ph_phyAddr d = addr" and "\<not> ph_irqPending d" and "awake p"
  shows "\<exists>p'. phy_call good view (pd_poll b ADI_PHY_SYS_RDY_ITER) d
       (i, p_write ADDR_CRSM_SFT_PD_CNTRL (bit16 BITP_CRSM_SFT_PD_CNTRL_CRSM_SFT_PD) p) (Inr ()) d (i, p') \<and>
     (\<forall>y \<in> plain. preg p' y = preg p y) \<and> rest p' = rest p \<and> awake p'"
proof -
  let ?p1 = "p_write ADDR_CRSM_SFT_PD_CNTRL (of_bool True) p"
  obtain n where n: "n < ADI_PHY_SOFT_PD_ITER"
      "\<forall>k<n. pd_ready (preg ((p_read ADDR_CRSM_STAT ^^ k) ?p1) ADDR_CRSM_STAT) \<noteq> True"
      "pd_ready (preg ((p_read ADDR_CRSM_STAT ^^ n) ?p1) ADDR_CRSM_STAT) = True"
    using power [OF assms(3), of True] by blast
  have one: "bit16 BITP_CRSM_SFT_PD_CNTRL_CRSM_SFT_PD = of_bool True" by (simp add: bit16_def phy_regs)
  have "ADI_PHY_SOFT_PD_ITER < ADI_PHY_SYS_RDY_ITER" by (simp add: ADI_PHY_SOFT_PD_ITER_def ADI_PHY_SYS_RDY_ITER_def)
  then have "phy_call good view (pd_poll b ADI_PHY_SYS_RDY_ITER) d (i, ?p1) (Inr ()) d
      (i, (p_read ADDR_CRSM_STAT ^^ Suc n) ?p1)"
    using n by (intro poll_ready [OF assms(1,2)]) simp_all
  moreover have "preg ((p_read ADDR_CRSM_STAT ^^ k) ?p1) y = preg p y" if "y \<in> plain" for k y
    using that assms(3) by (induction k) (simp_all add: preg_read power_plain rest_kept)
  moreover have "rest ((p_read ADDR_CRSM_STAT ^^ Suc n) ?p1) = rest p" "awake ((p_read ADDR_CRSM_STAT ^^ Suc n) ?p1)"
    using assms(3) by (simp_all only: rest_kept)
  ultimately show ?thesis unfolding one by blast
qed

lemma static_configured:
  assumes "ph_phyAddr d = addr" and "awake p"
  shows "\<exists>p'. phy_call good view (phyStaticConfig b n v) d (i, p) (Inr ()) d (i, p') \<and>
     (\<forall>y \<in> plain - static_regs. preg p' y = preg p y) \<and> rest p' = rest p \<and> awake p'"
proof (cases "v = 0")
  case True
  have "fst ` set (static_config n) \<subseteq> plain" using static_config_regs [of n] init_plain by blast
  from write_all [OF assms(1) this assms(2), of i] True static_config_regs [of n] show ?thesis
    by (simp add: phyStaticConfig_def) blast
next
  case False
  with assms(2) show ?thesis by (auto simp: phyStaticConfig_def intro: phy_call_ret)
qed

lemma phy_init:
  assumes "ph_phyAddr d = addr" and "\<not> ph_irqPending d" and "awake p"
  shows "\<exists>p'. phy_call good view (phyInit b) d (i, p) (Inr ())
       (d\<lparr>ph_irqPending := False, ph_state := ADI_PHY_STATE_SOFTWARE_POWERDOWN\<rparr>) (i, p') \<and>
     preg p' ADDR_CRSM_IRQ_MASK = ucast (phy_irqMask (ph_cbEvents d) AND 0xFFFF) \<and>
     preg p' ADDR_PHY_SUBSYS_IRQ_MASK = ucast (drop_bit 16 (phy_irqMask (ph_cbEvents d)) AND 0xFFFF) \<and>
     preg p' ADDR_AN_CONTROL = bit16 BITP_AN_CONTROL_AN_EN \<and>
     (\<forall>y \<in> plain - static_regs - {ADDR_CRSM_IRQ_MASK, ADDR_PHY_SUBSYS_IRQ_MASK, ADDR_AN_CONTROL}. preg p' y = preg p y) \<and>
     rest p' = rest p \<and> awake p'"
proof -
  let ?M = ADDR_CRSM_IRQ_MASK and ?S = ADDR_PHY_SUBSYS_IRQ_MASK and ?A = ADDR_AN_CONTROL
  let ?mask = "phy_irqMask (ph_cbEvents d)"
  define d0 where "d0 = d\<lparr>ph_state := ADI_PHY_STATE_UNINITIALIZED\<rparr>"
  have d0: "ph_phyAddr d0 = addr" "\<not> ph_irqPending d0" "ph_cbEvents d0 = ph_cbEvents d"
    using assms by (simp_all add: d0_def)
  define d1 where "d1 = d0\<lparr>ph_irqPending := False\<rparr>"
  have d1: "ph_phyAddr d1 = addr" "\<not> ph_irqPending d1" using d0 by (simp_all add: d1_def)
  have dist: "distinct [?M, ?S, ?A]" by (simp add: phy_regs)
  have other: "?M \<notin> static_regs" "?S \<notin> static_regs" "?A \<notin> static_regs"
    by (simp_all add: static_regs_def static_config_def phy_regs)
  obtain n v p1 where p1: "phy_call good view (checkIdentity b) d0 (i, p) (Inr (n, v)) d0 (i, p1)"
      "\<forall>y \<in> plain. preg p1 y = preg p y" "rest p1 = rest p" "awake p1"
    using identity [OF d0(1) assms(3), of i] by auto
  obtain p2 where p2: "phy_call good view (pd_poll b ADI_PHY_SYS_RDY_ITER) d0
       (i, p_write ADDR_CRSM_SFT_PD_CNTRL (bit16 BITP_CRSM_SFT_PD_CNTRL_CRSM_SFT_PD) p1) (Inr ()) d0 (i, p2)"
      "\<forall>y \<in> plain. preg p2 y = preg p1 y" "rest p2 = rest p1" "awake p2"
    using powered_down [OF d0(1,2) p1(4)] by blast
  define p4 where "p4 = p_read ADDR_PHY_SUBSYS_IRQ_STATUS (p_read ADDR_CRSM_IRQ_STATUS
     (p_write ?S (ucast (drop_bit 16 ?mask AND 0xFFFF)) (p_write ?M (ucast (?mask AND 0xFFFF)) p2)))"
  have aw: "awake (p_write ?S (ucast (drop_bit 16 ?mask AND 0xFFFF)) (p_write ?M (ucast (?mask AND 0xFFFF)) p2))" "awake p4"
    using p2(4) by (simp_all add: p4_def rest_kept)
  obtain p5 where p5: "phy_call good view (phyStaticConfig b n v) d1 (i, p4) (Inr ()) d1 (i, p5)"
      "\<forall>y \<in> plain - static_regs. preg p5 y = preg p4 y" "rest p5 = rest p4" "awake p5"
    using static_configured [OF d1(1) aw(2)] by blast
  define p6 where "p6 = p_write ?A (bit16 BITP_AN_CONTROL_AN_EN) p5"
  have an: "phy_call good view (PHY_AnEnable b True) d1 (i, p5) (Inr ()) d1 (i, p6)"
    unfolding PHY_AnEnable_def p6_def bit16_def of_bool_eq
    by (rule phy_call_unless_pending [OF d1(2)], rule write_reg [OF d1(1)])
  have masks: "phy_call good view (write_irqMask b ?mask) d0 (i, p2) (Inr ()) d0
      (i, p_write ?S (ucast (drop_bit 16 ?mask AND 0xFFFF)) (p_write ?M (ucast (?mask AND 0xFFFF)) p2))"
    unfolding write_irqMask_def by (rule then_write [OF d0(1)], rule write_reg [OF d0(1)])
  have run: "phy_call good view (phyInit b) d (i, p) (Inr ()) (d1\<lparr>ph_state := ADI_PHY_STATE_SOFTWARE_POWERDOWN\<rparr>) (i, p6)"
    unfolding phyInit_def
    by (rule phy_call_bind, rule phy_call_upd, fold d0_def, rule phy_call_bind, rule phy_call_catch, rule p1(1),
      rule phy_call_ret, unfold prod.case, rule then_write [OF d0(1)], rule phy_call_bind, rule p2(1),
      rule phy_call_bind, rule phy_call_get, unfold d0(3), rule phy_call_bind, rule masks, rule then_read [OF d0(1)],
      unfold if_not_P [OF not_not [THEN iffD2, OF no_error [OF aw(1)]]], rule then_read [OF d0(1)], fold p4_def,
      rule phy_call_bind, rule phy_call_upd, fold d1_def, rule phy_call_bind, rule phy_call_catch, rule p5(1),
      rule phy_call_ret, rule phy_call_bind, rule an, rule phy_call_upd)
  have d': "d1\<lparr>ph_state := ADI_PHY_STATE_SOFTWARE_POWERDOWN\<rparr> =
      d\<lparr>ph_irqPending := False, ph_state := ADI_PHY_STATE_SOFTWARE_POWERDOWN\<rparr>"
    by (simp add: d1_def d0_def)
  have pl: "?M \<in> plain" "?S \<in> plain" "?A \<in> plain" using init_plain by simp_all
  have v4: "preg p4 y = (if y = ?S then ucast (drop_bit 16 ?mask AND 0xFFFF) else if y = ?M then ucast (?mask AND 0xFFFF)
      else preg p y)" if "y \<in> plain" for y
    using that pl p1(2) p2(2,4) by (simp add: p4_def preg_read preg_write rest_kept)
  have v6: "preg p6 y = (if y = ?A then bit16 BITP_AN_CONTROL_AN_EN else preg p4 y)" if "y \<in> plain - static_regs" for y
    using that pl p5(2,4) by (simp add: p6_def preg_write)
  have "rest p6 = rest p" "awake p6" using p1(3) p2(3,4) p5(3,4) by (simp_all add: p6_def p4_def rest_kept)
  then show ?thesis
    using run v4 v6 pl dist other unfolding d' by (intro exI [of _ p6]) auto
qed

lemma init_device:
  assumes "sizeofDevice \<le> devMemSize" and "awake p"
  shows "\<exists>p'. phy_call good view (PHY_Init b sizeofDevice devMemSize addr False) d (i, p) (Inr ())
       ((phy_device addr)\<lparr>ph_state := ADI_PHY_STATE_SOFTWARE_POWERDOWN\<rparr>) (False, p') \<and>
     preg p' ADDR_CRSM_IRQ_MASK = ucast (phy_irqMask 0 AND 0xFFFF) \<and>
     preg p' ADDR_PHY_SUBSYS_IRQ_MASK = ucast (drop_bit 16 (phy_irqMask 0) AND 0xFFFF) \<and>
     preg p' ADDR_AN_CONTROL = bit16 BITP_AN_CONTROL_AN_EN \<and>
     (\<forall>y \<in> plain - static_regs - {ADDR_CRSM_IRQ_MASK, ADDR_PHY_SUBSYS_IRQ_MASK, ADDR_AN_CONTROL}. preg p' y = preg p y) \<and>
     rest p' = rest p \<and> awake p'"
proof -
  have d: "ph_phyAddr (phy_device addr) = addr" "\<not> ph_irqPending (phy_device addr)" "ph_cbEvents (phy_device addr) = 0"
    by (simp_all add: phy_device_def)
  obtain p' where p': "phy_call good view (phyInit b) (phy_device addr) (False, p) (Inr ())
       ((phy_device addr)\<lparr>ph_irqPending := False, ph_state := ADI_PHY_STATE_SOFTWARE_POWERDOWN\<rparr>) (False, p')"
     "preg p' ADDR_CRSM_IRQ_MASK = ucast (phy_irqMask 0 AND 0xFFFF)"
     "preg p' ADDR_PHY_SUBSYS_IRQ_MASK = ucast (drop_bit 16 (phy_irqMask 0) AND 0xFFFF)"
     "preg p' ADDR_AN_CONTROL = bit16 BITP_AN_CONTROL_AN_EN"
     "\<forall>y \<in> plain - static_regs - {ADDR_CRSM_IRQ_MASK, ADDR_PHY_SUBSYS_IRQ_MASK, ADDR_AN_CONTROL}. preg p' y = preg p y"
     "rest p' = rest p" "awake p'"
    using phy_init [OF d(1,2) assms(2), of False] d(3) by auto
  have start: "phy_call good view (mupd (\<lambda>(d, w). (phy_device addr, pb_setIrq b False w))) d (i, p) (Inr ())
      (phy_device addr) (False, p)"
    by (rule phy_callI) (use bus_irq [of _ False] in \<open>auto simp: mupd_def\<close>)
  have d': "(phy_device addr)\<lparr>ph_irqPending := False, ph_state := ADI_PHY_STATE_SOFTWARE_POWERDOWN\<rparr> =
      (phy_device addr)\<lparr>ph_state := ADI_PHY_STATE_SOFTWARE_POWERDOWN\<rparr>" by (simp add: phy_device_def)
  have "phy_call good view (PHY_Init b sizeofDevice devMemSize addr False) d (i, p) (Inr ())
       ((phy_device addr)\<lparr>ph_state := ADI_PHY_STATE_SOFTWARE_POWERDOWN\<rparr>) (False, p')"
    unfolding PHY_Init_def if_not_P [OF assms(1) [THEN leD]] mwhen_def if_False
    by (rule phy_call_bind, rule start, rule phy_call_bind, rule phy_call_ret, rule phy_call_bind,
      rule phy_call_catch, rule p'(1) [unfolded d'], rule phy_call_ret, rule phy_call_ret)
  with p'(2-) show ?thesis by (intro exI [of _ p']) simp
qed

end

section \<open>Auto-negotiation and frame generator\<close>

context phy_regfile
begin

lemma advertise_tx:
  assumes "ph_phyAddr d = addr" and "\<not> ph_irqPending d" and "ADDR_AN_ADV_ABILITY_H \<in> plain" and "awake p"
  shows "\<exists>p'. phy_call good view (PHY_AnAdvTxMode b txMode) d (i, p) (Inr ()) d (i, p') \<and>
     (\<forall>y \<in> plain. preg p' y = (if y = ADDR_AN_ADV_ABILITY_H then tx_mode_bits txMode (preg p y) else preg p y)) \<and>
     rest p' = rest p \<and> awake p'"
proof -
  have "phy_call good view (PHY_AnAdvTxMode b txMode) d (i, p) (Inr ()) d
     (i, p_write ADDR_AN_ADV_ABILITY_H (tx_mode_bits txMode (preg p ADDR_AN_ADV_ABILITY_H)) (p_read ADDR_AN_ADV_ABILITY_H p))"
    unfolding PHY_AnAdvTxMode_def
    by (rule phy_call_unless_pending [OF assms(2)], rule then_read [OF assms(1)], rule write_reg [OF assms(1)])
  then show ?thesis
    by (intro exI conjI, assumption) (use assms(3,4) in \<open>simp_all add: preg_write preg_read rest_kept\<close>)
qed

lemma advertise_role:
  assumes "ph_phyAddr d = addr" and "\<not> ph_irqPending d" and "{ADDR_AN_ADV_ABILITY_L, ADDR_AN_ADV_ABILITY_M} \<subseteq> plain"
    and "awake p"
  shows "\<exists>p'. phy_call good view (PHY_AnAdvMstSlvCfg b msCfg) d (i, p) (Inr ()) d (i, p') \<and>
     (\<forall>y \<in> plain. preg p' y = (if y = ADDR_AN_ADV_ABILITY_L then force_ms_bits msCfg (preg p y)
        else if y = ADDR_AN_ADV_ABILITY_M then mst_bits msCfg (preg p y) else preg p y)) \<and> rest p' = rest p \<and> awake p'"
proof -
  let ?L = ADDR_AN_ADV_ABILITY_L and ?M = ADDR_AN_ADV_ABILITY_M
  define p2 where "p2 = p_write ?L (force_ms_bits msCfg (preg p ?L)) (p_read ?L p)"
  have ne: "?L \<noteq> ?M" by (simp add: phy_regs)
  have "phy_call good view (PHY_AnAdvMstSlvCfg b msCfg) d (i, p) (Inr ()) d
     (i, p_write ?M (mst_bits msCfg (preg p2 ?M)) (p_read ?M p2))"
    unfolding PHY_AnAdvMstSlvCfg_def
    by (rule phy_call_unless_pending [OF assms(2)], rule then_read [OF assms(1)], rule then_write [OF assms(1)],
      fold p2_def, rule then_read [OF assms(1)], rule write_reg [OF assms(1)])
  then show ?thesis
    by (intro exI conjI, assumption) (use assms(3,4) ne in \<open>auto simp: p2_def preg_write preg_read rest_kept\<close>)
qed

lemma set_frame_count:
  assumes "ph_phyAddr d = addr" and "{ADDR_FG_NFRM_H, ADDR_FG_NFRM_L} \<subseteq> plain" and "awake p"
  shows "\<exists>p'. phy_call good view (PHY_FrameGenSetFrameCnt b n) d (i, p) (Inr ()) d (i, p') \<and>
     push_bit 16 (ucast (preg p' ADDR_FG_NFRM_H)) OR ucast (preg p' ADDR_FG_NFRM_L) = n \<and>
     (\<forall>y \<in> plain - {ADDR_FG_NFRM_H, ADDR_FG_NFRM_L}. preg p' y = preg p y) \<and> rest p' = rest p \<and> awake p'"
proof -
  let ?hi = "ucast (drop_bit 16 n AND 0xFFFF) :: u16" and ?lo = "ucast (n AND 0xFFFF) :: u16"
  have run: "phy_call good view (PHY_FrameGenSetFrameCnt b n) d (i, p) (Inr ()) d
     (i, p_write ADDR_FG_NFRM_L ?lo (p_write ADDR_FG_NFRM_H ?hi p))"
    unfolding PHY_FrameGenSetFrameCnt_def by (rule then_write [OF assms(1)], rule write_reg [OF assms(1)])
  have "bit (0xFFFF :: u32) k = (k < 16)" if "k < 32" for k
    using bit_mask_iff [of 16 k, where ?'a = "32 word"] that by (simp add: mask_eq_exp_minus_1)
  then have "push_bit 16 (ucast ?hi) OR ucast ?lo = n"
    by (intro bit_word_eqI) (auto simp: bit_simps)
  moreover have "ADDR_FG_NFRM_H \<noteq> ADDR_FG_NFRM_L" by (simp add: phy_regs)
  ultimately show ?thesis
    using run assms(2,3) by (intro exI [of _ "p_write ADDR_FG_NFRM_L ?lo (p_write ADDR_FG_NFRM_H ?hi p)"]) (simp add: preg_write rest_kept)
qed

end

end
