(* ===== verification/Adin_Phys.thy ===== *)
theory Adin_Phys
  imports Mac_Mdio Phy_Bringup Adin_Flood
begin

text \<open>
  The PHYs of the switch behind the MDIO bridge: a device whose PHYs satisfy the contract of the PHY
  driver gives that driver a working bus through the MAC driver.
\<close>

section \<open>The contract\<close>

text \<open>
  \<open>awake\<close> tells that the PHYs are out of reset.  The laws about their registers hold from then on
  only; accesses to the MAC do not put a PHY to sleep, unless they reset the device.
\<close>

locale oa_waking = oa_mdio h reg on_read on_write phy phy_read phy_write + oa_regfile h reg on_read on_write plain
  for h :: "'e adi_hal" and reg on_read on_write phy phy_read phy_write plain +
  fixes phy_plain :: "u32 set" and awake :: "'e \<Rightarrow> bool"
  assumes awake_on_read: "awake e \<Longrightarrow> awake (phy_read hw x e)"
    and awake_on_write: "awake e \<Longrightarrow> awake (phy_write hw x v e)"
    and phy_on_write: "\<lbrakk>awake e; x \<in> phy_plain; y \<in> phy_plain\<rbrakk> \<Longrightarrow>
        phy (phy_write hw x v e) hw y = (if y = x then v else phy e hw y)"
    and phy_on_read: "\<lbrakk>awake e; y \<in> phy_plain\<rbrakk> \<Longrightarrow> phy (phy_read hw x e) hw y = phy e hw y"
    and phy_power: "awake e \<Longrightarrow> \<exists>n < ADI_PHY_SOFT_PD_ITER.
        (\<forall>k<n. pd_ready (phy ((phy_read hw ADDR_CRSM_STAT ^^ k) (phy_write hw ADDR_CRSM_SFT_PD_CNTRL (of_bool enable) e))
           hw ADDR_CRSM_STAT) \<noteq> enable) \<and>
        pd_ready (phy ((phy_read hw ADDR_CRSM_STAT ^^ n) (phy_write hw ADDR_CRSM_SFT_PD_CNTRL (of_bool enable) e))
           hw ADDR_CRSM_STAT) = enable"
    and phy_power_plain: "\<lbrakk>awake e; y \<in> phy_plain\<rbrakk> \<Longrightarrow>
        phy (phy_write hw ADDR_CRSM_SFT_PD_CNTRL v e) hw y = phy e hw y"
    and phy_id1: "awake e \<Longrightarrow> phy e hw ADDR_MMD1_DEV_ID1 = ADI_PHY_DEVID1"
    and phy_id2: "awake e \<Longrightarrow> phy e hw ADDR_MMD1_DEV_ID2 AND ucast BITM_MMD1_DEV_ID2_MMD1_DEV_ID2_OUI =
       push_bit BITP_MMD1_DEV_ID2_MMD1_DEV_ID2_OUI ADI_PHY_DEVID2_OUI"
    and phy_no_error: "awake e \<Longrightarrow> phy e hw ADDR_CRSM_IRQ_STATUS AND ucast ADI_PHY_CRSM_HW_ERROR = 0"
    and phy_init_plain: "static_regs \<union> {ADDR_CRSM_IRQ_MASK, ADDR_PHY_SUBSYS_IRQ_MASK, ADDR_AN_CONTROL} \<subseteq> phy_plain"
    and phy_other_write: "\<lbrakk>awake e; (ucast hw :: 5 word) \<noteq> ucast hw'\<rbrakk> \<Longrightarrow> phy (phy_write hw x v e) hw' y = phy e hw' y"
    and phy_other_read: "\<lbrakk>awake e; (ucast hw :: 5 word) \<noteq> ucast hw'\<rbrakk> \<Longrightarrow> phy (phy_read hw x e) hw' y = phy e hw' y"
    and reg_phy: "a \<in> plain \<Longrightarrow> reg (phy_read hw x e) a = reg e a" "a \<in> plain \<Longrightarrow> reg (phy_write hw x v e) a = reg e a"
    and phy_reg: "stays on_read on_write (\<lambda>e. awake e \<and> phy e = f)"

text \<open>A device whose PHYs are out of reset whatever happens: the contract for a switch that is up.\<close>

locale oa_phys = oa_waking h reg on_read on_write phy phy_read phy_write plain phy_plain "\<lambda>_. True"
  for h :: "'e adi_hal" and reg on_read on_write phy phy_read phy_write plain phy_plain

section \<open>The bus of the PHY driver\<close>

definition mac_view :: "mac_state \<times> 'e \<Rightarrow> bool \<times> mac_state \<times> 'e" where
  "mac_view = (\<lambda>(s, e). (s_irqEnabled s, scratch (s\<lparr>s_irqEnabled := False\<rparr>), e))"

definition mac_good :: "mac_state \<times> 'e \<Rightarrow> bool" where
  "mac_good w \<longleftrightarrow> can_access (fst w)"

lemma mac_view_same:
  assumes "scratch s' = scratch s"
  shows "mac_view (s', e') = (s_irqEnabled s, scratch (s\<lparr>s_irqEnabled := False\<rparr>), e')"
  using assms scratch_fields(10) [OF assms] by (simp add: mac_view_def)

lemma funpow_pair:
  fixes f :: "'p \<Rightarrow> 'p"
  shows "((\<lambda>p. (fst p, f (snd p))) ^^ n) p = (fst p, (f ^^ n) (snd p))"
  by (induction n) simp_all

text \<open>What an access to one PHY leaves alone: the MAC driver, the other PHYs and the MAC registers.\<close>

definition phy_rest :: "('e \<Rightarrow> u8 \<Rightarrow> u32 \<Rightarrow> u16) \<Rightarrow> ('e \<Rightarrow> u32 \<Rightarrow> u32) \<Rightarrow> u32 set \<Rightarrow> u8 \<Rightarrow> mac_state \<times> 'e \<Rightarrow>
    mac_state \<times> (u8 \<Rightarrow> u32 \<Rightarrow> u16) \<times> (u32 \<Rightarrow> u32)" where
  "phy_rest phy reg plain hw p =
     (fst p, \<lambda>hw' y. if (ucast hw :: 5 word) = ucast hw' then 0 else phy (snd p) hw' y,
      \<lambda>a. if a \<in> plain then reg (snd p) a else 0)"

sublocale oa_waking \<subseteq> bus: phy_bringup "mac_bus h" addr mac_good mac_view "\<lambda>p. phy (snd p) (ucast addr)"
    "\<lambda>a p. (fst p, phy_read (ucast addr) a (snd p))" "\<lambda>a v p. (fst p, phy_write (ucast addr) a v (snd p))"
    "phy_rest phy reg plain (ucast addr)" "\<lambda>p. awake (snd p)" phy_plain
  for addr :: u32
proof
  fix w :: "mac_state \<times> 'e" and a old v x
  obtain s e where w: "w = (s, e)" by (rule prod.exhaust)
  assume "mac_good w"
  then have s: "can_access s" by (simp add: mac_good_def w)
  obtain s' where r: "MAC_PhyRead_into h (ucast addr) a old (s, e) =
      Some (Inr (ADI_ETH_SUCCESS, phy e (ucast addr) a), s', phy_read (ucast addr) a e)"
      "can_access s'" "scratch s' = scratch s"
    by (rule mac_callE [OF phy_read_into s refl])
  then show "\<exists>w'. pb_readFn (mac_bus h) (ucast addr) a old w =
      Some ((ADI_ETH_SUCCESS, phy (snd (snd (mac_view w))) (ucast addr) a), w') \<and> mac_good w' \<and>
      mac_view w' = (fst (mac_view w), fst (snd (mac_view w)), phy_read (ucast addr) a (snd (snd (mac_view w))))"
    by (intro exI [of _ "(s', phy_read (ucast addr) a e)"])
      (simp add: w mac_bus_def PhyRead_def mac_good_def mac_view_same [OF r(3)], simp add: mac_view_def)
  obtain s2 where r2: "MAC_PhyWrite h (ucast addr) a v (s, e) = Some (Inr (), s2, phy_write (ucast addr) a v e)"
      "can_access s2" "scratch s2 = scratch s"
    by (rule mac_callE [OF phy_write_reg s refl])
  then show "\<exists>w'. pb_writeFn (mac_bus h) (ucast addr) a v w = Some (ADI_ETH_SUCCESS, w') \<and> mac_good w' \<and>
      mac_view w' = (fst (mac_view w), fst (snd (mac_view w)), phy_write (ucast addr) a v (snd (snd (mac_view w))))"
    by (intro exI [of _ "(s2, phy_write (ucast addr) a v e)"])
      (simp add: w mac_bus_def PhyWrite_def mac_good_def mac_view_same [OF r2(3)], simp add: mac_view_def)
  show "mac_good (pb_setIrq (mac_bus h) x w) \<and> mac_view (pb_setIrq (mac_bus h) x w) = (x, snd (mac_view w))"
    using s by (simp add: w mac_bus_def mac_good_def mac_view_def)
  show "pb_getIrq (mac_bus h) w = fst (mac_view w)" by (simp add: w mac_bus_def mac_view_def)
next
  fix enable and p :: "mac_state \<times> 'e"
  assume "awake (snd p)"
  then show "\<exists>n<ADI_PHY_SOFT_PD_ITER.
       (\<forall>k<n. pd_ready (phy (snd (((\<lambda>p. (fst p, phy_read (ucast addr) ADDR_CRSM_STAT (snd p))) ^^ k)
            (fst p, phy_write (ucast addr) ADDR_CRSM_SFT_PD_CNTRL (of_bool enable) (snd p)))) (ucast addr) ADDR_CRSM_STAT)
          \<noteq> enable) \<and>
       pd_ready (phy (snd (((\<lambda>p. (fst p, phy_read (ucast addr) ADDR_CRSM_STAT (snd p))) ^^ n)
            (fst p, phy_write (ucast addr) ADDR_CRSM_SFT_PD_CNTRL (of_bool enable) (snd p)))) (ucast addr) ADDR_CRSM_STAT)
          = enable"
    using phy_power [of "snd p" "ucast addr" enable] by (simp add: funpow_pair)
qed (simp_all add: awake_on_read awake_on_write phy_on_write phy_on_read phy_power_plain phy_id1 phy_id2 phy_no_error phy_init_plain [simplified]
    phy_rest_def phy_other_write phy_other_read reg_phy fun_eq_iff)

context oa_waking
begin

lemmas bus_loopback = bus.set_loopback
lemmas bus_enter_powerdown = bus.enter_powerdown
lemmas bus_exit_powerdown = bus.exit_powerdown
lemmas bus_init = bus.init_device
lemmas bus_advertise_tx = bus.advertise_tx
lemmas bus_advertise_role = bus.advertise_role
lemmas bus_frame_count = bus.set_frame_count

end

section \<open>A port of the switch\<close>

text \<open>What the PHY driver sees of the MAC driver and the device.\<close>

definition mac_part :: "mac_state \<Rightarrow> 'e \<Rightarrow> mac_state \<times> 'e" where
  "mac_part t e = (scratch (t\<lparr>s_irqEnabled := False\<rparr>), e)"

lemma snd_mac_part [simp]: "snd (mac_part t e) = e" and fst_mac_part: "(fst (mac_part t e), e') = mac_part t e'"
  by (simp_all add: mac_part_def)

lemma adin_call_on_phy:
  assumes "phy_call mac_good mac_view m d (s_irqEnabled t, mac_part t e) r d' (i, mac_part t e')"
    and "phy_of port a = Some d"
  shows "adin_call (on_phy port m) a t e r (set_phy port d' a) (t\<lparr>s_irqEnabled := i\<rparr>) e'"
proof (rule adin_callI)
  fix s assume s: "can_access s" "scratch s = scratch t"
  have v: "mac_good (s, e)" "mac_view (s, e) = (s_irqEnabled t, mac_part t e)"
    using s scratch_fields(10) [OF s(2)] by (simp_all add: mac_good_def mac_view_def mac_part_def)
  obtain w' where w': "m (d, s, e) = Some (r, d', w')" "mac_good w'" "mac_view w' = (i, mac_part t e')"
    by (rule phy_callE [OF assms(1) v])
  obtain s' e2 where ws: "w' = (s', e2)" by (rule prod.exhaust)
  have irq: "s_irqEnabled s' = i" and e2: "e2 = e'"
    and sc: "(scratch s')\<lparr>s_irqEnabled := False\<rparr> = (scratch t)\<lparr>s_irqEnabled := False\<rparr>"
    using w'(3) by (simp_all add: ws mac_view_def mac_part_def)
  have "(scratch s')\<lparr>s_irqEnabled := i\<rparr> = (scratch t)\<lparr>s_irqEnabled := i\<rparr>"
    using arg_cong [OF sc, of "\<lambda>x. x\<lparr>s_irqEnabled := i\<rparr>"] by simp
  moreover have "(scratch s')\<lparr>s_irqEnabled := i\<rparr> = scratch s'" using irq by (simp add: scratch_def)
  ultimately have sc': "scratch s' = scratch (t\<lparr>s_irqEnabled := i\<rparr>)" by simp
  then have "s_events s' = s_events s"
    using scratch_fields(11) [OF sc'] scratch_fields(11) [OF s(2)] by simp
  then have "on_phy port m (a, s, e) = Some (r, set_phy port d' a, s', e')"
    using w'(1) assms(2) e2 ws by (simp add: on_phy_def)
  moreover have "can_access s'" using w'(2) by (simp add: ws mac_good_def)
  ultimately show "\<exists>s'. on_phy port m (a, s, e) = Some (r, set_phy port d' a, s', e') \<and> can_access s' \<and>
      scratch s' = scratch (t\<lparr>s_irqEnabled := i\<rparr>)"
    using sc' by blast
qed

text \<open>The same with the interrupt line as it was.\<close>

lemma adin_call_on_phy_same:
  assumes "phy_call mac_good mac_view m d (s_irqEnabled t, mac_part t e) r d' (s_irqEnabled t, mac_part t e')"
    and "phy_of port a = Some d"
  shows "adin_call (on_phy port m) a t e r (set_phy port d' a) t e'"
  using adin_call_on_phy [OF assms] by simp

section \<open>The device\<close>

definition chip_phy_plain :: "u32 set" where
  "chip_phy_plain = {a. a < 0x200000 \<and> a \<notin> {ADDR_MMD1_DEV_ID1, ADDR_MMD1_DEV_ID2, ADDR_CRSM_IRQ_STATUS,
     ADDR_CRSM_STAT, ADDR_CRSM_SFT_PD_CNTRL}}"

lemma take_bit_21: "a < 0x200000 \<Longrightarrow> take_bit 21 a = (a :: u32)"
  by (rule take_bit_word_less) (simp add: word_less_nat_alt)

lemma chip_phy_after:
  "chip_phy_reg (chip_phy_write hw x v c) p y =
     (if y \<in> {ADDR_MMD1_DEV_ID1, ADDR_MMD1_DEV_ID2, ADDR_CRSM_IRQ_STATUS} then chip_phy_reg c p y
      else if y = ADDR_CRSM_STAT
      then (if bit (if p = ucast hw \<and> take_bit 21 x = ADDR_CRSM_SFT_PD_CNTRL then v
          else c_phy c p ADDR_CRSM_SFT_PD_CNTRL) 0 then 2 else 0)
      else if p = ucast hw \<and> y = take_bit 21 x then v else c_phy c p y)"
  "chip_phy_reg (chip_phy_read hw x c) = chip_phy_reg c"
  by (auto simp: chip_phy_reg_def chip_phy_write_def chip_phy_read_def fun_eq_iff)

lemma chip_phy_kept:
  assumes "a \<notin> command_regs"
  shows "chip_phy (chip_on_read a c) = chip_phy c" "chip_phy (chip_on_write a v c) = chip_phy c"
  using assms by (simp_all add: command_regs_def chip_on_read_def chip_on_write_def mdio_regs_def chip_phy_def
      chip_phy_reg_def fun_eq_iff)

interpretation chip: oa_phys chip_hal chip_reg chip_on_read chip_on_write chip_phy chip_phy_read chip_phy_write chip_plain chip_phy_plain
proof unfold_locales
  fix x y a :: u32 and v :: u16 and hw hw' :: u8 and e :: chip and enable
  show "chip_phy (chip_phy_write hw x v e) hw y = (if y = x then v else chip_phy e hw y)"
    if "x \<in> chip_phy_plain" "y \<in> chip_phy_plain"
    using that by (auto simp: chip_phy_def chip_phy_after chip_phy_plain_def take_bit_21, auto simp: chip_phy_reg_def)
  show "\<exists>n<ADI_PHY_SOFT_PD_ITER.
      (\<forall>k<n. pd_ready (chip_phy ((chip_phy_read hw ADDR_CRSM_STAT ^^ k)
        (chip_phy_write hw ADDR_CRSM_SFT_PD_CNTRL (of_bool enable) e)) hw ADDR_CRSM_STAT) \<noteq> enable) \<and>
      pd_ready (chip_phy ((chip_phy_read hw ADDR_CRSM_STAT ^^ n)
        (chip_phy_write hw ADDR_CRSM_SFT_PD_CNTRL (of_bool enable) e)) hw ADDR_CRSM_STAT) = enable"
    by (intro exI [of _ 0])
      (simp add: ADI_PHY_SOFT_PD_ITER_def chip_phy_def chip_phy_after phy_regs take_bit_21 pd_ready_def bit16_def)
  show "chip_phy (chip_phy_write hw ADDR_CRSM_SFT_PD_CNTRL v e) hw y = chip_phy e hw y" if "y \<in> chip_phy_plain"
    using that by (auto simp: chip_phy_def chip_phy_after chip_phy_plain_def take_bit_21 phy_regs, auto simp: chip_phy_reg_def phy_regs)
  show "chip_phy (chip_phy_write hw x v e) hw' y = chip_phy e hw' y" if "(ucast hw :: 5 word) \<noteq> ucast hw'"
    using that by (auto simp: chip_phy_def chip_phy_after, auto simp: chip_phy_reg_def)
  show "static_regs \<union> {ADDR_CRSM_IRQ_MASK, ADDR_PHY_SUBSYS_IRQ_MASK, ADDR_AN_CONTROL} \<subseteq> chip_phy_plain"
    by (simp add: static_regs_def static_config_def chip_phy_plain_def phy_regs)
  show "chip_reg (chip_phy_read hw x e) a = chip_reg e a" "chip_reg (chip_phy_write hw x v e) a = chip_reg e a"
    if "a \<in> chip_plain" for v
    using that by (auto simp: chip_plain_def chip_reg_def chip_phy_read_def chip_phy_write_def mdio_regs_def)
  show "stays chip_on_read chip_on_write (\<lambda>e. True \<and> chip_phy e = f)" for f
    by (simp add: stays_def chip_phy_kept)
qed (simp_all add: chip_phy_def chip_phy_after chip_phy_reg_def phy_regs take_bit_21 ADI_PHY_DEVID1_def ADI_PHY_DEVID2_OUI_def
    ADI_PHY_CRSM_HW_ERROR_def)

end
