(* ===== verification/Adin_Ports.thy ===== *)
theory Adin_Ports
  imports Adin_Phys
begin

text \<open>
  Properties of the entries of the switch that work on the PHY of a port.
\<close>

section \<open>One PHY access\<close>

definition port_hw :: "adi_phy_Device_t \<Rightarrow> u8" where
  "port_hw d = ucast (ph_phyAddr d)"

lemma rest_same:
  assumes "phy_rest phy reg plain hw p = phy_rest phy reg plain hw (mac_part t e)"
  shows "p = mac_part t (snd p)"
    and "(ucast hw :: 5 word) \<noteq> ucast hw' \<Longrightarrow> phy (snd p) hw' y = phy e hw' y"
    and "a \<in> plain \<Longrightarrow> reg (snd p) a = reg e a"
proof -
  have f: "fst p = fst (mac_part t e)"
    and o: "(\<lambda>hw' y. if (ucast hw :: 5 word) = ucast hw' then 0 else phy (snd p) hw' y) =
      (\<lambda>hw' y. if (ucast hw :: 5 word) = ucast hw' then 0 else phy e hw' y)"
    and m: "(\<lambda>a. if a \<in> plain then reg (snd p) a else 0) = (\<lambda>a. if a \<in> plain then reg e a else 0)"
    using assms unfolding phy_rest_def snd_mac_part by simp_all
  show "p = mac_part t (snd p)" using f by (cases p) (simp add: mac_part_def)
  show "phy (snd p) hw' y = phy e hw' y" if "(ucast hw :: 5 word) \<noteq> ucast hw'"
    using that fun_cong [OF fun_cong [OF o, of hw'], of y] by simp
  show "reg (snd p) a = reg e a" if "a \<in> plain" using that fun_cong [OF m, of a] by simp
qed

text \<open>A routine of the PHY driver that keeps the interrupt line, as a routine of the switch.\<close>

lemma port_call:
  assumes "phy_call mac_good mac_view m d (s_irqEnabled t, mac_part t e) r d' (s_irqEnabled t, p)"
    and "phy_rest phy reg plain (port_hw d) p = phy_rest phy reg plain (port_hw d) (mac_part t e)"
    and "phy_of port a = Some d"
  shows "adin_call (on_phy port m) a t e r (set_phy port d' a) t (snd p)"
proof -
  have p: "p = mac_part t (snd p)" by (rule rest_same(1) [OF assms(2)])
  have "phy_call mac_good mac_view m d (s_irqEnabled t, mac_part t e) r d' (s_irqEnabled t, mac_part t (snd p))"
    using assms(1) by (subst (asm) p)
  then show ?thesis by (rule adin_call_on_phy_same [OF _ assms(3)])
qed

section \<open>Loopback\<close>

lemma lb_bits:
  "bit (fst (lb_start mode (lb_stop_macif x, lb_stop_pcs y, lb_stop_pma z))) BITP_MAC_IF_LOOPBACK_MAC_IF_LB_EN \<longleftrightarrow>
     mode \<in> {ADI_PHY_LOOPBACK_MACIF, ADI_PHY_LOOPBACK_MACIF_SUPPRESS_TX}"
  "bit (fst (lb_start mode (lb_stop_macif x, lb_stop_pcs y, lb_stop_pma z))) BITP_MAC_IF_LOOPBACK_MAC_IF_REM_LB_EN \<longleftrightarrow>
     mode \<in> {ADI_PHY_LOOPBACK_MACIF_REMOTE, ADI_PHY_LOOPBACK_MACIF_REMOTE_SUPPRESS_RX}"
  "bit (fst (lb_start mode (lb_stop_macif x, lb_stop_pcs y, lb_stop_pma z))) BITP_MAC_IF_LOOPBACK_MAC_IF_LB_TX_SUP_EN \<longleftrightarrow>
     mode = ADI_PHY_LOOPBACK_MACIF_SUPPRESS_TX \<or> bit x BITP_MAC_IF_LOOPBACK_MAC_IF_LB_TX_SUP_EN"
  "bit (fst (lb_start mode (lb_stop_macif x, lb_stop_pcs y, lb_stop_pma z))) BITP_MAC_IF_LOOPBACK_MAC_IF_REM_LB_RX_SUP_EN \<longleftrightarrow>
     mode = ADI_PHY_LOOPBACK_MACIF_REMOTE_SUPPRESS_RX \<or> bit x BITP_MAC_IF_LOOPBACK_MAC_IF_REM_LB_RX_SUP_EN"
  "bit (fst (snd (lb_start mode (lb_stop_macif x, lb_stop_pcs y, lb_stop_pma z)))) BITP_B10L_PCS_CNTRL_B10L_LB_PCS_EN \<longleftrightarrow>
     mode = ADI_PHY_LOOPBACK_PCS"
  "bit (snd (snd (lb_start mode (lb_stop_macif x, lb_stop_pcs y, lb_stop_pma z)))) BITP_B10L_PMA_CNTRL_B10L_LB_PMA_LOC_EN \<longleftrightarrow>
     mode = ADI_PHY_LOOPBACK_PMA"
  by (cases mode; simp add: lb_start_def lb_stop_macif_def lb_stop_pcs_def lb_stop_pma_def bit16_def bit_simps phy_regs)+

definition lb_regs :: "u32 set" where
  "lb_regs = {ADDR_AN_CONTROL, ADDR_AN_FRC_MODE_EN, ADDR_MAC_IF_LOOPBACK, ADDR_B10L_PCS_CNTRL, ADDR_B10L_PMA_CNTRL}"

text \<open>
  C26: setting the loopback mode of a port succeeds and leaves enabled the loopback of that mode and
  no other, whatever the mode was before; auto-negotiation is switched off for a loopback inside the
  PHY and on again by a mode that ends one; the MAC registers and the other PHY are not touched.
  The two bits that suppress traffic during loopback are set by their modes but never cleared.
\<close>

theorem loopback_mode_selected:
  assumes "oa_phys h reg on_read on_write phy phy_read phy_write plain phy_plain" and "lb_regs \<subseteq> phy_plain"
    and "port < 2" and "phy_of port a = Some d" and "\<not> ph_irqPending d"
  shows "\<exists>d' e'. adin_call (adin2111_SetLoopbackMode h port mode) a t e (Inr ()) (set_phy port d' a) t e' \<and>
     (bit (phy e' (port_hw d) ADDR_MAC_IF_LOOPBACK) BITP_MAC_IF_LOOPBACK_MAC_IF_LB_EN \<longleftrightarrow>
       mode \<in> {ADI_PHY_LOOPBACK_MACIF, ADI_PHY_LOOPBACK_MACIF_SUPPRESS_TX}) \<and>
     (bit (phy e' (port_hw d) ADDR_MAC_IF_LOOPBACK) BITP_MAC_IF_LOOPBACK_MAC_IF_REM_LB_EN \<longleftrightarrow>
       mode \<in> {ADI_PHY_LOOPBACK_MACIF_REMOTE, ADI_PHY_LOOPBACK_MACIF_REMOTE_SUPPRESS_RX}) \<and>
     (bit (phy e' (port_hw d) ADDR_B10L_PCS_CNTRL) BITP_B10L_PCS_CNTRL_B10L_LB_PCS_EN \<longleftrightarrow> mode = ADI_PHY_LOOPBACK_PCS) \<and>
     (bit (phy e' (port_hw d) ADDR_B10L_PMA_CNTRL) BITP_B10L_PMA_CNTRL_B10L_LB_PMA_LOC_EN \<longleftrightarrow> mode = ADI_PHY_LOOPBACK_PMA) \<and>
     (lb_in_phy mode \<longrightarrow> phy e' (port_hw d) ADDR_AN_CONTROL = 0 \<and> phy e' (port_hw d) ADDR_AN_FRC_MODE_EN = 1) \<and>
     (\<not> lb_in_phy mode \<and> lb_change mode (phy e (port_hw d) ADDR_B10L_PCS_CNTRL) (phy e (port_hw d) ADDR_B10L_PMA_CNTRL) \<longrightarrow>
       phy e' (port_hw d) ADDR_AN_CONTROL = 1 \<and> phy e' (port_hw d) ADDR_AN_FRC_MODE_EN = 0) \<and>
     (bit (phy e' (port_hw d) ADDR_MAC_IF_LOOPBACK) BITP_MAC_IF_LOOPBACK_MAC_IF_LB_TX_SUP_EN \<longleftrightarrow>
       mode = ADI_PHY_LOOPBACK_MACIF_SUPPRESS_TX \<or>
       bit (phy e (port_hw d) ADDR_MAC_IF_LOOPBACK) BITP_MAC_IF_LOOPBACK_MAC_IF_LB_TX_SUP_EN) \<and>
     (bit (phy e' (port_hw d) ADDR_MAC_IF_LOOPBACK) BITP_MAC_IF_LOOPBACK_MAC_IF_REM_LB_RX_SUP_EN \<longleftrightarrow>
       mode = ADI_PHY_LOOPBACK_MACIF_REMOTE_SUPPRESS_RX \<or>
       bit (phy e (port_hw d) ADDR_MAC_IF_LOOPBACK) BITP_MAC_IF_LOOPBACK_MAC_IF_REM_LB_RX_SUP_EN) \<and>
     (\<forall>x \<in> plain. reg e' x = reg e x) \<and>
     (\<forall>hw y. (ucast (port_hw d) :: 5 word) \<noteq> ucast hw \<longrightarrow> phy e' hw y = phy e hw y)"
proof -
  let ?hw = "port_hw d"
  define change where "change = lb_change mode (phy e ?hw ADDR_B10L_PCS_CNTRL) (phy e ?hw ADDR_B10L_PMA_CNTRL)"
  obtain p' where run: "phy_call mac_good mac_view (PHY_SetLoopbackMode (mac_bus h) mode) d (s_irqEnabled t, mac_part t e) (Inr ())
       (d\<lparr>ph_state := if change then ADI_PHY_STATE_OPERATION else ph_state d\<rparr>) (s_irqEnabled t, p')"
    and v: "(phy (snd p') ?hw ADDR_MAC_IF_LOOPBACK, phy (snd p') ?hw ADDR_B10L_PCS_CNTRL, phy (snd p') ?hw ADDR_B10L_PMA_CNTRL) =
       lb_start mode (lb_stop_macif (phy e ?hw ADDR_MAC_IF_LOOPBACK), lb_stop_pcs (phy e ?hw ADDR_B10L_PCS_CNTRL),
         lb_stop_pma (phy e ?hw ADDR_B10L_PMA_CNTRL))"
    and an: "(phy (snd p') ?hw ADDR_AN_CONTROL, phy (snd p') ?hw ADDR_AN_FRC_MODE_EN) =
       lb_an change (lb_in_phy mode) (phy e ?hw ADDR_AN_CONTROL, phy e ?hw ADDR_AN_FRC_MODE_EN)"
    and rest: "phy_rest phy reg plain ?hw p' = phy_rest phy reg plain ?hw (mac_part t e)"
    using oa_waking.bus_loopback [OF oa_phys.axioms [OF assms(1)] refl assms(5), where i = "s_irqEnabled t" and p = "mac_part t e" and mode = mode and
        change = change, unfolded snd_mac_part, folded port_hw_def lb_regs_def, OF assms(2) change_def TrueI]
    by blast
  note same = rest_same [OF rest]
  have call: "adin_call (adin2111_SetLoopbackMode h port mode) a t e (Inr ())
      (set_phy port (d\<lparr>ph_state := if change then ADI_PHY_STATE_OPERATION else ph_state d\<rparr>) a) t (snd p')"
    using port_call [OF run rest assms(4)] assms(3) by (simp add: adin2111_SetLoopbackMode_def)
  have vs: "phy (snd p') ?hw ADDR_MAC_IF_LOOPBACK = fst (lb_start mode (lb_stop_macif (phy e ?hw ADDR_MAC_IF_LOOPBACK),
        lb_stop_pcs (phy e ?hw ADDR_B10L_PCS_CNTRL), lb_stop_pma (phy e ?hw ADDR_B10L_PMA_CNTRL)))"
    "phy (snd p') ?hw ADDR_B10L_PCS_CNTRL = fst (snd (lb_start mode (lb_stop_macif (phy e ?hw ADDR_MAC_IF_LOOPBACK),
        lb_stop_pcs (phy e ?hw ADDR_B10L_PCS_CNTRL), lb_stop_pma (phy e ?hw ADDR_B10L_PMA_CNTRL))))"
    "phy (snd p') ?hw ADDR_B10L_PMA_CNTRL = snd (snd (lb_start mode (lb_stop_macif (phy e ?hw ADDR_MAC_IF_LOOPBACK),
        lb_stop_pcs (phy e ?hw ADDR_B10L_PCS_CNTRL), lb_stop_pma (phy e ?hw ADDR_B10L_PMA_CNTRL))))"
    by (simp_all flip: v)
  have "lb_in_phy mode \<Longrightarrow> change" by (simp add: change_def lb_change_def)
  with an have a1: "lb_in_phy mode \<longrightarrow> phy (snd p') ?hw ADDR_AN_CONTROL = 0 \<and> phy (snd p') ?hw ADDR_AN_FRC_MODE_EN = 1"
    and a2: "\<not> lb_in_phy mode \<and> lb_change mode (phy e ?hw ADDR_B10L_PCS_CNTRL) (phy e ?hw ADDR_B10L_PMA_CNTRL) \<longrightarrow>
       phy (snd p') ?hw ADDR_AN_CONTROL = 1 \<and> phy (snd p') ?hw ADDR_AN_FRC_MODE_EN = 0"
    by (auto simp: lb_an_def change_def split: if_splits)
  have mac: "\<forall>x \<in> plain. reg (snd p') x = reg e x"
    and other: "\<forall>hw y. (ucast ?hw :: 5 word) \<noteq> ucast hw \<longrightarrow> phy (snd p') hw y = phy e hw y"
    using same(2,3) by blast+
  show ?thesis
    by (intro exI [of _ "d\<lparr>ph_state := if change then ADI_PHY_STATE_OPERATION else ph_state d\<rparr>"] exI [of _ "snd p'"] conjI)
      (rule call, simp_all only: vs lb_bits, rule a1, rule a2, rule mac, rule other)
qed

lemma chip_lb_regs: "lb_regs \<subseteq> chip_phy_plain"
  by (simp add: lb_regs_def chip_phy_plain_def phy_regs)

theorem loopback_mode_selected_witness:
  "\<forall>tab. \<exists>d' e'. adin_call (adin2111_SetLoopbackMode chip_hal 1 ADI_PHY_LOOPBACK_PMA) (blank_dev tab (phy_device 2))
     (static_state (\<lambda>_. blank_desc)) chip_off (Inr ()) (set_phy 1 d' (blank_dev tab (phy_device 2)))
     (static_state (\<lambda>_. blank_desc)) e' \<and>
     bit (chip_phy e' 2 ADDR_B10L_PMA_CNTRL) BITP_B10L_PMA_CNTRL_B10L_LB_PMA_LOC_EN \<and>
     chip_phy e' 2 ADDR_AN_FRC_MODE_EN = 1"
proof
  fix tab
  have "phy_of 1 (blank_dev tab (phy_device 2)) = Some (phy_device 2)" "\<not> ph_irqPending (phy_device 2)" "port_hw (phy_device 2) = 2"
    by (simp_all add: phy_of_def blank_dev_def adin_ports phy_device_def port_hw_def)
  with loopback_mode_selected [OF chip.oa_phys_axioms chip_lb_regs, of 1 "blank_dev tab (phy_device 2)" "phy_device 2"
      ADI_PHY_LOOPBACK_PMA "static_state (\<lambda>_. blank_desc)" chip_off]
  show "\<exists>d' e'. adin_call (adin2111_SetLoopbackMode chip_hal 1 ADI_PHY_LOOPBACK_PMA) (blank_dev tab (phy_device 2))
     (static_state (\<lambda>_. blank_desc)) chip_off (Inr ()) (set_phy 1 d' (blank_dev tab (phy_device 2)))
     (static_state (\<lambda>_. blank_desc)) e' \<and>
     bit (chip_phy e' 2 ADDR_B10L_PMA_CNTRL) BITP_B10L_PMA_CNTRL_B10L_LB_PMA_LOC_EN \<and>
     chip_phy e' 2 ADDR_AN_FRC_MODE_EN = 1"
    unfolding lb_in_phy_def by auto
qed

section \<open>Enabling a port\<close>

definition port_enabled :: "nat \<Rightarrow> adin2111_dev \<Rightarrow> bool" where
  "port_enabled port a = (if port = ADIN2111_PORT_1 then ad_portEnabled1 a else ad_portEnabled2 a)"

lemma adin_upd: "adin_call (ad_upd f) a t e (Inr ()) (f a) t e"
  by (simp add: adin_call_def ad_upd_def mupd_def)

context oa_phys
begin

lemma port_power:
  assumes "phy_of port a = Some d" and "\<not> ph_irqPending d"
  shows "\<exists>e'. adin_call (on_phy port (setSoftwarePowerdown (mac_bus h) off)) a t e (Inr ())
       (set_phy port (d\<lparr>ph_state := if off then ADI_PHY_STATE_SOFTWARE_POWERDOWN else ADI_PHY_STATE_OPERATION\<rparr>) a) t e' \<and>
     (\<forall>y \<in> phy_plain. phy e' (port_hw d) y = phy e (port_hw d) y) \<and> (\<forall>x \<in> plain. reg e' x = reg e x) \<and>
     (\<forall>hw y. (ucast (port_hw d) :: 5 word) \<noteq> ucast hw \<longrightarrow> phy e' hw y = phy e hw y)"
proof -
  let ?d = "d\<lparr>ph_state := if off then ADI_PHY_STATE_SOFTWARE_POWERDOWN else ADI_PHY_STATE_OPERATION\<rparr>"
  obtain p' where run: "phy_call mac_good mac_view (setSoftwarePowerdown (mac_bus h) off) d (s_irqEnabled t, mac_part t e) (Inr ())
       ?d (s_irqEnabled t, p')"
    and y: "\<forall>y \<in> phy_plain. phy (snd p') (port_hw d) y = phy e (port_hw d) y"
    and rest: "phy_rest phy reg plain (port_hw d) p' = phy_rest phy reg plain (port_hw d) (mac_part t e)"
    using bus.set_powerdown [OF refl assms(2) TrueI, where i = "s_irqEnabled t" and p = "mac_part t e" and enable = off,
        unfolded snd_mac_part, folded port_hw_def] by blast
  show ?thesis
    using port_call [OF run rest assms(1)] y rest_same(2,3) [OF rest] by (intro exI [of _ "snd p'"]) blast
qed

end

text \<open>
  Disabling a port takes its PHY to the power-down state, and enabling it to operation; both
  record it, and neither touches the other PHY, the MAC registers or what is set up in the PHY.
\<close>

theorem port_power_cycle:
  assumes "oa_phys h reg on_read on_write phy phy_read phy_write plain phy_plain"
    and "port < 2" and "phy_of port a = Some d" and "\<not> ph_irqPending d"
  shows "\<exists>a1 e1 a2 e2. adin_call (adin2111_DisablePort h port) a t e (Inr ()) a1 t e1 \<and>
     phy_of port a1 = Some (d\<lparr>ph_state := ADI_PHY_STATE_SOFTWARE_POWERDOWN\<rparr>) \<and> \<not> port_enabled port a1 \<and>
     port_enabled (1 - port) a1 = port_enabled (1 - port) a \<and> phy_of (1 - port) a1 = phy_of (1 - port) a \<and>
     adin_call (adin2111_EnablePort h port) a1 t e1 (Inr ()) a2 t e2 \<and>
     phy_of port a2 = Some (d\<lparr>ph_state := ADI_PHY_STATE_OPERATION\<rparr>) \<and> port_enabled port a2 \<and>
     port_enabled (1 - port) a2 = port_enabled (1 - port) a \<and> phy_of (1 - port) a2 = phy_of (1 - port) a \<and>
     (\<forall>y \<in> phy_plain. phy e2 (port_hw d) y = phy e (port_hw d) y) \<and> (\<forall>x \<in> plain. reg e2 x = reg e x) \<and>
     (\<forall>hw y. (ucast (port_hw d) :: 5 word) \<noteq> ucast hw \<longrightarrow> phy e2 hw y = phy e hw y)"
proof -
  let ?d1 = "d\<lparr>ph_state := ADI_PHY_STATE_SOFTWARE_POWERDOWN\<rparr>"
  obtain e1 where 1: "adin_call (on_phy port (PHY_EnterSoftwarePowerdown (mac_bus h))) a t e (Inr ()) (set_phy port ?d1 a) t e1"
    "\<forall>y \<in> phy_plain. phy e1 (port_hw d) y = phy e (port_hw d) y" "\<forall>x \<in> plain. reg e1 x = reg e x"
    "\<forall>hw y. (ucast (port_hw d) :: 5 word) \<noteq> ucast hw \<longrightarrow> phy e1 hw y = phy e hw y"
    using oa_phys.port_power [OF assms(1,3,4), of True t e] by (auto simp: PHY_EnterSoftwarePowerdown_def)
  define a1 where "a1 = set_enabled port False (set_phy port ?d1 a)"
  have c1: "adin_call (adin2111_DisablePort h port) a t e (Inr ()) a1 t e1"
    unfolding adin2111_DisablePort_def a1_def by (rule adin_call_bind, rule 1(1), rule adin_upd)
  have p1: "phy_of port a1 = Some ?d1" "\<not> ph_irqPending ?d1" "port_hw ?d1 = port_hw d"
    using assms(2,4) by (auto simp: a1_def set_enabled_def set_phy_def phy_of_def adin_ports port_hw_def)
  obtain e2 where 2: "adin_call (on_phy port (PHY_ExitSoftwarePowerdown (mac_bus h))) a1 t e1 (Inr ())
      (set_phy port (?d1\<lparr>ph_state := ADI_PHY_STATE_OPERATION\<rparr>) a1) t e2"
    "\<forall>y \<in> phy_plain. phy e2 (port_hw d) y = phy e1 (port_hw d) y" "\<forall>x \<in> plain. reg e2 x = reg e1 x"
    "\<forall>hw y. (ucast (port_hw d) :: 5 word) \<noteq> ucast hw \<longrightarrow> phy e2 hw y = phy e1 hw y"
    using oa_phys.port_power [OF assms(1) p1(1,2), of False t e1] unfolding p1(3) by (auto simp: PHY_ExitSoftwarePowerdown_def)
  define a2 where "a2 = set_enabled port True (set_phy port (?d1\<lparr>ph_state := ADI_PHY_STATE_OPERATION\<rparr>) a1)"
  have c2: "adin_call (adin2111_EnablePort h port) a1 t e1 (Inr ()) a2 t e2"
    unfolding adin2111_EnablePort_def a2_def by (rule adin_call_bind, rule 2(1), rule adin_upd)
  have "port = 0 \<or> port = 1" using assms(2) by auto
  then have "phy_of port a2 = Some (d\<lparr>ph_state := ADI_PHY_STATE_OPERATION\<rparr>)" "\<not> port_enabled port a1" "port_enabled port a2"
    "port_enabled (1 - port) a1 = port_enabled (1 - port) a" "port_enabled (1 - port) a2 = port_enabled (1 - port) a"
    "phy_of (1 - port) a1 = phy_of (1 - port) a" "phy_of (1 - port) a2 = phy_of (1 - port) a"
    by (auto simp: a1_def a2_def set_enabled_def set_phy_def phy_of_def port_enabled_def adin_ports)
  with c1 c2 p1(1) 1(2-) 2(2-) show ?thesis by (intro exI [of _ a1] exI [of _ e1] exI [of _ a2] exI [of _ e2]) simp
qed

theorem port_power_cycle_witness:
  "\<forall>tab. \<exists>a1 e1. adin_call (adin2111_DisablePort chip_hal 0) (blank_dev tab (phy_device 1)) (static_state (\<lambda>_. blank_desc))
     chip_off (Inr ()) a1 (static_state (\<lambda>_. blank_desc)) e1 \<and> \<not> port_enabled 0 a1 \<and> port_enabled 1 a1"
proof
  fix tab
  have "phy_of 0 (blank_dev tab (phy_device 1)) = Some (phy_device 1)" "\<not> ph_irqPending (phy_device 1)"
    "port_enabled 1 (blank_dev tab (phy_device 1))"
    by (simp_all add: phy_of_def blank_dev_def adin_ports phy_device_def port_enabled_def)
  with port_power_cycle [OF chip.oa_phys_axioms, of 0 "blank_dev tab (phy_device 1)" "phy_device 1"
      "static_state (\<lambda>_. blank_desc)" chip_off]
  show "\<exists>a1 e1. adin_call (adin2111_DisablePort chip_hal 0) (blank_dev tab (phy_device 1)) (static_state (\<lambda>_. blank_desc))
     chip_off (Inr ()) a1 (static_state (\<lambda>_. blank_desc)) e1 \<and> \<not> port_enabled 0 a1 \<and> port_enabled 1 a1"
    by auto
qed

end
