(* ===== verification/Adin_Init.thy ===== *)
theory Adin_Init
  imports Adin_Ports
begin

text \<open>
  Bringing the whole switch up: \<open>adin2111_Init\<close> over the MAC driver and the two PHY drivers, on a
  device that satisfies the contracts of both.
\<close>

section \<open>The contract\<close>

definition mac_reset_word :: u32 where
  "mac_reset_word = push_bit BITP_MAC_RESET_SWRESET 1"

text \<open>
  The PHYs come out of the reset of the device after a while, PHY 2 last; before that its registers
  read as 0.  \<open>sleep e\<close> bounds the number of reads of the interrupt mask of PHY 2 that still give 0,
  and is 0 when the PHYs are out of reset; accesses to the MAC take time too, and may only shorten
  it.  A PHY comes out of reset with the register contents \<open>boot\<close>, and with an interrupt mask that
  is not 0.
\<close>

definition coming_up :: "('e \<Rightarrow> u8 \<Rightarrow> u32 \<Rightarrow> u16) \<Rightarrow> u32 set \<Rightarrow> ('e \<Rightarrow> nat) \<Rightarrow> (u8 \<Rightarrow> u32 \<Rightarrow> u16) \<Rightarrow> nat \<Rightarrow> 'e \<Rightarrow> bool" where
  "coming_up phy phy_plain sleep boot n e \<longleftrightarrow> sleep e \<le> n \<and>
     (sleep e = 0 \<longrightarrow> (\<forall>hw \<in> {1, 2}. \<forall>y \<in> phy_plain. phy e hw y = boot hw y))"

locale adin_device =
  oa_waking h reg on_read on_write phy phy_read phy_write plain phy_plain "\<lambda>e. sleep e = 0" +
  oa_bringup h reg on_read on_write plain
  for h :: "'e adi_hal" and reg on_read on_write phy phy_read phy_write plain phy_plain and sleep :: "'e \<Rightarrow> nat" +
  fixes boot :: "u8 \<Rightarrow> u32 \<Rightarrow> u16"
  assumes reset_sleep: "\<exists>n. n + 1 < ADIN2111_PHY_POWERUP_MAX_RETRIES \<and>
       coming_up phy phy_plain sleep boot n (on_write ADDR_MAC_RESET mac_reset_word e)"
    and asleep: "sleep e \<noteq> 0 \<Longrightarrow> phy e 2 y = 0"
    and sleep_on: "stays on_read on_write (coming_up phy phy_plain sleep boot n)"
    and sleep_poll: "\<lbrakk>coming_up phy phy_plain sleep boot (Suc n) e; sleep e \<noteq> 0\<rbrakk> \<Longrightarrow>
       coming_up phy phy_plain sleep boot n (phy_read 2 ADDR_CRSM_IRQ_MASK e)"
    and boot_mask: "boot 2 ADDR_CRSM_IRQ_MASK \<noteq> 0"
    and pinmux_plain: "ADDR_DIGIO_PINMUX \<in> phy_plain - static_regs"

section \<open>Steps\<close>

lemma adin_call_catch:
  assumes "adin_call m a t e (Inr x) a1 t1 e1" and "adin_call (f x) a1 t1 e1 r a2 t2 e2"
  shows "adin_call (mcatch m k f) a t e r a2 t2 e2"
proof (rule adin_callI)
  fix s assume "can_access s" "scratch s = scratch t"
  then obtain s1 where "m (a, s, e) = Some (Inr x, a1, s1, e1)" and s1: "can_access s1" "scratch s1 = scratch t1"
    by (rule adin_callE [OF assms(1)])
  moreover obtain s2 where "f x (a1, s1, e1) = Some (r, a2, s2, e2)" "can_access s2" "scratch s2 = scratch t2"
    by (rule adin_callE [OF assms(2) s1])
  ultimately show "\<exists>s'. mcatch m k f (a, s, e) = Some (r, a2, s', e2) \<and> can_access s' \<and> scratch s' = scratch t2"
    by (simp add: mcatch_def)
qed

lemma adin_call_catch_err:
  assumes "adin_call m a t e (Inl err) a1 t1 e1" and "adin_call (k err) a1 t1 e1 r a2 t2 e2"
  shows "adin_call (mcatch m k f) a t e r a2 t2 e2"
proof (rule adin_callI)
  fix s assume "can_access s" "scratch s = scratch t"
  then obtain s1 where "m (a, s, e) = Some (Inl err, a1, s1, e1)" and s1: "can_access s1" "scratch s1 = scratch t1"
    by (rule adin_callE [OF assms(1)])
  moreover obtain s2 where "k err (a1, s1, e1) = Some (r, a2, s2, e2)" "can_access s2" "scratch s2 = scratch t2"
    by (rule adin_callE [OF assms(2) s1])
  ultimately show "\<exists>s'. mcatch m k f (a, s, e) = Some (r, a2, s', e2) \<and> can_access s' \<and> scratch s' = scratch t2"
    by (simp add: mcatch_def)
qed

lemma adin_call_fail: "adin_call (mfail err) a t e (Inl err) a t e"
  by (simp add: adin_call_def mfail_def)

lemma adin_get: "adin_call (ad_get f) a t e (Inr (f a)) a t e"
  by (simp add: adin_call_def ad_get_def mget_def)

lemma on_mac_upd:
  assumes "\<And>s. can_access s \<Longrightarrow> can_access (g s)" and "\<And>s. scratch s = scratch t \<Longrightarrow> scratch (g s) = scratch (g t)"
    and "s_events (g t) = s_events t"
  shows "adin_call (on_mac (mupd_s g)) a t e (Inr ()) a (g t) e"
  by (rule adin_call_on_mac) (rule mac_call_upd, erule assms(1), erule assms(2), rule assms(3))

lemma on_mac_get:
  assumes "\<And>s. scratch s = scratch t \<Longrightarrow> g s = g t"
  shows "adin_call (on_mac (mget_s g)) a t e (Inr (g t)) a t e"
  by (rule adin_call_on_mac) (rule mac_call_get, erule assms, rule refl)

text \<open>The callback that learns addresses.\<close>

definition with_learning :: "mac_state \<Rightarrow> mac_state" where
  "with_learning s = s\<lparr>m_cbFunc := (m_cbFunc s)(ADI_MAC_EVT_DYN_TBL_UPDATE := Some CB_RX),
     m_cbParam := (m_cbParam s)(ADI_MAC_EVT_DYN_TBL_UPDATE := 0)\<rparr>"

lemma scratch_params:
  assumes "scratch s = scratch t"
  shows "m_cbParam s = m_cbParam t"
  using arg_cong [OF assms, of m_cbParam] by (simp add: scratch_def)

lemma register_learning:
  "adin_call (on_mac (MAC_RegisterCallback h (Some CB_RX) ADI_MAC_EVT_DYN_TBL_UPDATE 0)) a t e (Inr ()) a (with_learning t) e"
  unfolding MAC_RegisterCallback_def
proof (rule adin_call_on_mac, rule then_upd)
  show "scratch (s\<lparr>m_cbFunc := (m_cbFunc s)(ADI_MAC_EVT_DYN_TBL_UPDATE := Some CB_RX),
         m_cbParam := (m_cbParam s)(ADI_MAC_EVT_DYN_TBL_UPDATE := 0)\<rparr>) =
      scratch (t\<lparr>m_cbFunc := (m_cbFunc t)(ADI_MAC_EVT_DYN_TBL_UPDATE := Some CB_RX),
         m_cbParam := (m_cbParam t)(ADI_MAC_EVT_DYN_TBL_UPDATE := 0)\<rparr>)" if "scratch s = scratch t" for s
    using that scratch_fields(12) [OF that] scratch_params [OF that] by simp
qed (simp_all add: with_learning_def mac_call_ret)

context oa_regfile
begin

lemma adin_write_plain:
  assumes "x \<in> plain"
  shows "adin_call (adin2111_WriteRegister h x v) a t e (Inr ()) a t (on_write x v e)"
  unfolding adin2111_WriteRegister_def plain_16 [OF assms] by (rule adin_call_on_mac) (rule write_plain [OF assms], rule refl)

lemma adin_read_plain:
  assumes "x \<in> plain"
  shows "adin_call (adin2111_ReadRegister h x) a t e (Inr (reg e x)) a t (on_read x e)"
  unfolding adin2111_ReadRegister_def plain_16 [OF assms] by (rule adin_call_on_mac) (rule read_plain [OF assms], rule refl)

end

text \<open>The interrupts of the two PHYs are let through, in the driver and in the device.\<close>

definition unmasked :: "mac_state \<Rightarrow> mac_state" where
  "unmasked s = s\<lparr>m_irqMask0 := m_irqMask0 s AND NOT BITM_MAC_IMASK0_PHYINTM,
     m_irqMask1 := m_irqMask1 s AND NOT BITM_MAC_IMASK1_P2_PHYINT_MASK\<rparr>"

context oa_regfile
begin

lemma unmask_phy_irqs:
  assumes "ADDR_MAC_IMASK0 \<in> plain" and "ADDR_MAC_IMASK1 \<in> plain"
  shows "adin_call (unmask_irq h) a t e (Inr ()) a (unmasked t)
     (on_write ADDR_MAC_IMASK1 (m_irqMask1 (unmasked t)) (on_write ADDR_MAC_IMASK0 (m_irqMask0 (unmasked t)) e))"
proof -
  let ?t0 = "t\<lparr>m_irqMask0 := m_irqMask0 t AND NOT BITM_MAC_IMASK0_PHYINTM\<rparr>"
  let ?t1 = "?t0\<lparr>m_irqMask1 := m_irqMask1 ?t0 AND NOT BITM_MAC_IMASK1_P2_PHYINT_MASK\<rparr>"
  have u: "unmasked t = ?t1" by (simp add: unmasked_def)
  have s0: "adin_call (on_mac (mupd_s (\<lambda>s. s\<lparr>m_irqMask0 := m_irqMask0 s AND NOT BITM_MAC_IMASK0_PHYINTM\<rparr>)))
      a t e (Inr ()) a (t\<lparr>m_irqMask0 := m_irqMask0 t AND NOT BITM_MAC_IMASK0_PHYINTM\<rparr>) e" for t e
    by (rule on_mac_upd) (auto dest: scratch_fields(4))
  have s1: "adin_call (on_mac (mupd_s (\<lambda>s. s\<lparr>m_irqMask1 := m_irqMask1 s AND NOT BITM_MAC_IMASK1_P2_PHYINT_MASK\<rparr>)))
      a t e (Inr ()) a (t\<lparr>m_irqMask1 := m_irqMask1 t AND NOT BITM_MAC_IMASK1_P2_PHYINT_MASK\<rparr>) e" for t e
    by (rule on_mac_upd) (auto dest: scratch_fields(5))
  have "adin_call (unmask_irq h) a t e (Inr ()) a ?t1
     (on_write ADDR_MAC_IMASK1 (m_irqMask1 ?t1) (on_write ADDR_MAC_IMASK0 (m_irqMask0 ?t0) e))"
    unfolding unmask_irq_def
    by (rule adin_call_bind, rule s0, rule adin_call_bind, rule on_mac_get, erule scratch_fields(4),
        rule adin_call_bind, rule adin_write_plain [OF assms(1)],
        rule adin_call_bind, rule s1, rule adin_call_bind, rule on_mac_get, erule scratch_fields(5),
        rule adin_write_plain [OF assms(2)])
  moreover have "m_irqMask0 ?t0 = m_irqMask0 ?t1" by simp
  ultimately show ?thesis unfolding u by (simp only:)
qed

end

section \<open>The PHYs\<close>

definition phy_down :: "u32 \<Rightarrow> adi_phy_Device_t" where
  "phy_down addr = (phy_device addr)\<lparr>ph_state := ADI_PHY_STATE_SOFTWARE_POWERDOWN\<rparr>"

text \<open>The registers that the initialisation of a PHY sets up for the driver.\<close>

definition phy_set_up :: "(u32 \<Rightarrow> u16) \<Rightarrow> bool" where
  "phy_set_up f \<longleftrightarrow> f ADDR_CRSM_IRQ_MASK = ucast (phy_irqMask 0 AND 0xFFFF) \<and>
     f ADDR_PHY_SUBSYS_IRQ_MASK = ucast (drop_bit 16 (phy_irqMask 0) AND 0xFFFF) \<and>
     f ADDR_AN_CONTROL = bit16 BITP_AN_CONTROL_AN_EN"

definition init_regs :: "u32 set" where
  "init_regs = static_regs \<union> {ADDR_CRSM_IRQ_MASK, ADDR_PHY_SUBSYS_IRQ_MASK, ADDR_AN_CONTROL}"

definition valid_pin :: "u16 \<Rightarrow> bool" where
  "valid_pin pin \<longleftrightarrow> 1 \<le> pin \<and> pin \<le> 3"

lemma valid_pins:
  "(tp < 1 \<or> 3 < tp \<or> cp < 1 \<or> 3 < cp) = (\<not> (valid_pin tp \<and> valid_pin cp))"
  unfolding valid_pin_def not_less [symmetric] by blast

context adin_device
begin

text \<open>The wait for PHY 2 ends with both PHYs out of reset, however many of the allowed reads it takes.\<close>

lemma phy2_wait:
  assumes "coming_up phy phy_plain sleep boot n e" and "n + 1 < m"
  shows "\<exists>e'. mac_call (phy2_powerup h m) t e (Inr ()) t e' \<and> sleep e' = 0 \<and>
     (\<forall>hw \<in> {1, 2}. \<forall>y \<in> phy_plain. phy e' hw y = boot hw y) \<and> (\<forall>x \<in> plain. reg e' x = reg e x)"
  using assms
proof (induction n arbitrary: e m)
  case 0
  have mask: "ADDR_CRSM_IRQ_MASK \<in> phy_plain" using phy_init_plain by simp
  have up: "sleep e = 0" "\<forall>hw \<in> {1, 2}. \<forall>y \<in> phy_plain. phy e hw y = boot hw y"
    using "0.prems"(1) by (simp_all add: coming_up_def)
  obtain m' where m: "m = Suc m'" "m' \<noteq> 0" using "0.prems"(2) by (cases m) auto
  have v: "phy e 2 ADDR_CRSM_IRQ_MASK \<noteq> 0" using up(2) mask boot_mask by simp
  have "mac_call (phy2_powerup h m) t e (Inr ()) t (phy_read 2 ADDR_CRSM_IRQ_MASK e)"
    unfolding m(1) phy2_powerup.simps
    by (rule mac_call_catch, rule phy_read_reg) (use v m(2) in \<open>simp add: mac_call_ret\<close>)
  moreover have "phy (phy_read 2 ADDR_CRSM_IRQ_MASK e) hw y = phy e hw y" if "hw \<in> {1, 2}" "y \<in> phy_plain" for hw y
    using that up(1) by (auto simp: phy_on_read phy_other_read)
  ultimately show ?case
    using up awake_on_read by (intro exI [of _ "phy_read 2 ADDR_CRSM_IRQ_MASK e"]) (simp add: reg_phy)
next
  case (Suc n)
  show ?case
  proof (cases "sleep e = 0")
    case True
    then have "coming_up phy phy_plain sleep boot n e" using Suc.prems(1) by (simp add: coming_up_def)
    then show ?thesis using Suc.IH [of e m] Suc.prems(2) by simp
  next
    case False
    obtain m' where m: "m = Suc m'" "n + 1 < m'" using Suc.prems(2) by (cases m) auto
    obtain e' where e': "mac_call (phy2_powerup h m') t (phy_read 2 ADDR_CRSM_IRQ_MASK e) (Inr ()) t e'" "sleep e' = 0"
      "\<forall>hw \<in> {1, 2}. \<forall>y \<in> phy_plain. phy e' hw y = boot hw y"
      "\<forall>x \<in> plain. reg e' x = reg (phy_read 2 ADDR_CRSM_IRQ_MASK e) x"
      using Suc.IH [OF sleep_poll [OF Suc.prems(1) False] m(2)] by blast
    have "mac_call (phy2_powerup h m) t e (Inr ()) t e'"
      unfolding m(1) phy2_powerup.simps
      by (rule mac_call_catch, rule phy_read_reg) (use asleep [OF False] e'(1) in simp)
    with e'(2-) show ?thesis by (intro exI [of _ e']) (simp add: reg_phy)
  qed
qed

lemma phy2_powered:
  assumes "coming_up phy phy_plain sleep boot n e" and "n + 1 < ADIN2111_PHY_POWERUP_MAX_RETRIES"
  shows "\<exists>e'. adin_call (on_mac (phy2_powerup h ADIN2111_PHY_POWERUP_MAX_RETRIES)) a t e (Inr ()) a t e' \<and> sleep e' = 0 \<and>
     (\<forall>hw \<in> {1, 2}. \<forall>y \<in> phy_plain. phy e' hw y = boot hw y) \<and> (\<forall>x \<in> plain. reg e' x = reg e x)"
proof -
  obtain e' where e': "mac_call (phy2_powerup h ADIN2111_PHY_POWERUP_MAX_RETRIES) t e (Inr ()) t e'" "sleep e' = 0"
      "\<forall>hw \<in> {1, 2}. \<forall>y \<in> phy_plain. phy e' hw y = boot hw y" "\<forall>x \<in> plain. reg e' x = reg e x"
    using phy2_wait [OF assms] by blast
  have "adin_call (on_mac (phy2_powerup h ADIN2111_PHY_POWERUP_MAX_RETRIES)) a t e (Inr ()) a t e'"
    by (rule adin_call_on_mac, rule e'(1)) simp
  with e'(2-) show ?thesis by blast
qed

lemma port_init:
  assumes "phy_of port a = Some d" and "\<not> s_irqEnabled t" and "sizeofDevice \<le> devMemSize" and "sleep e = 0"
  shows "\<exists>e'. adin_call (on_phy port (PHY_Init (mac_bus h) sizeofDevice devMemSize addr False)) a t e (Inr ())
       (set_phy port (phy_down addr) a) t e' \<and> sleep e' = 0 \<and> phy_set_up (phy e' (ucast addr)) \<and>
     (\<forall>y \<in> phy_plain - init_regs. phy e' (ucast addr) y = phy e (ucast addr) y) \<and>
     (\<forall>x \<in> plain. reg e' x = reg e x) \<and>
     (\<forall>hw y. (ucast (ucast addr :: u8) :: 5 word) \<noteq> ucast hw \<longrightarrow> phy e' hw y = phy e hw y)"
proof -
  have aw: "sleep (snd (mac_part t e)) = 0" using assms(4) by simp
  obtain p' where run: "phy_call mac_good mac_view (PHY_Init (mac_bus h) sizeofDevice devMemSize addr False) d
       (s_irqEnabled t, mac_part t e) (Inr ()) (phy_down addr) (False, p')"
    and up: "phy_set_up (phy (snd p') (ucast addr))" "sleep (snd p') = 0"
    and y: "\<forall>y \<in> phy_plain - init_regs. phy (snd p') (ucast addr) y = phy e (ucast addr) y"
    and rest: "phy_rest phy reg plain (ucast addr) p' = phy_rest phy reg plain (ucast addr) (mac_part t e)"
    using bus_init [OF assms(3) aw, of addr d "s_irqEnabled t"]
    unfolding phy_set_up_def phy_down_def init_regs_def snd_mac_part by (auto simp: Diff_eq)
  have "phy_call mac_good mac_view (PHY_Init (mac_bus h) sizeofDevice devMemSize addr False) d
       (s_irqEnabled t, mac_part t e) (Inr ()) (phy_down addr) (s_irqEnabled t, mac_part t (snd p'))"
    using run assms(2) by (subst (asm) rest_same(1) [OF rest]) simp
  then have "adin_call (on_phy port (PHY_Init (mac_bus h) sizeofDevice devMemSize addr False)) a t e (Inr ())
       (set_phy port (phy_down addr) a) t (snd p')"
    by (rule adin_call_on_phy_same [OF _ assms(1)])
  with up y rest_same(2,3) [OF rest] show ?thesis by (intro exI [of _ "snd p'"]) blast
qed

text \<open>Assignments out of range are reported by the routine and ignored by its caller.\<close>

lemma pins_configured:
  assumes "ad_tsTimerPin a = tp" and "ad_tsCaptPin a = cp" and "ph_phyAddr (ad_phy1 a) = 1" and "sleep e = 0"
  shows "\<exists>e'. adin_call (mcatch (configureTsPins h) (\<lambda>_. mret ()) mret) a t e (Inr ()) a t e' \<and>
     (\<forall>y \<in> phy_plain. phy e' 1 y = (if y = ADDR_DIGIO_PINMUX \<and> valid_pin tp \<and> valid_pin cp
        then ts_pin_bits tp cp (phy e 1 y) else phy e 1 y)) \<and>
     (\<forall>x \<in> plain. reg e' x = reg e x) \<and> (\<forall>y. phy e' 2 y = phy e 2 y)"
proof (cases "valid_pin tp \<and> valid_pin cp")
  case True
  have hw: "port_addr ADIN2111_PORT_1 a = 1" by (simp add: port_addr_def assms(3))
  have P: "ADIN2111_PORT_1 < 2" by (simp add: ADIN2111_PORT_1_def)
  have rd: "adin_call (adin2111_PhyRead h ADIN2111_PORT_1 ADDR_DIGIO_PINMUX) a t e
      (Inr (phy e 1 ADDR_DIGIO_PINMUX)) a t (phy_read 1 ADDR_DIGIO_PINMUX e)" for e
    unfolding adin2111_PhyRead_def with_port [OF P] hw [symmetric]
    by (rule adin_call_bind, rule adin_get, rule adin_call_on_mac, rule phy_read_reg, rule refl)
  have wr: "adin_call (adin2111_PhyWrite h ADIN2111_PORT_1 ADDR_DIGIO_PINMUX v) a t e (Inr ()) a t
      (phy_write 1 ADDR_DIGIO_PINMUX v e)" for v e
    unfolding adin2111_PhyWrite_def with_port [OF P] hw [symmetric]
    by (rule adin_call_bind, rule adin_get, rule adin_call_on_mac, rule phy_write_reg, rule refl)
  let ?e = "phy_write 1 ADDR_DIGIO_PINMUX (ts_pin_bits tp cp (phy e 1 ADDR_DIGIO_PINMUX)) (phy_read 1 ADDR_DIGIO_PINMUX e)"
  have "adin_call (configureTsPins h) a t e (Inr ()) a t ?e"
    unfolding configureTsPins_def
    by (rule adin_call_bind, rule adin_get)
      (simp only: assms(1,2) prod.case valid_pins True simp_thms if_False, rule adin_call_bind, rule rd, rule wr)
  then have "adin_call (mcatch (configureTsPins h) (\<lambda>_. mret ()) mret) a t e (Inr ()) a t ?e"
    by (rule adin_call_catch) (rule adin_call_ret)
  moreover have "\<forall>y \<in> phy_plain. phy ?e 1 y = (if y = ADDR_DIGIO_PINMUX then ts_pin_bits tp cp (phy e 1 y) else phy e 1 y)"
    using pinmux_plain assms(4) by (simp add: phy_on_write phy_on_read awake_on_read)
  ultimately show ?thesis
    using True assms(4) by (intro exI [of _ ?e]) (simp add: reg_phy phy_other_write phy_other_read awake_on_read)
next
  case False
  have "adin_call (configureTsPins h) a t e (Inl ADI_ETH_INVALID_PARAM) a t e"
    unfolding configureTsPins_def
    by (rule adin_call_bind, rule adin_get)
      (simp only: assms(1,2) prod.case valid_pins False not_False_eq_True if_True, rule adin_call_fail)
  then have "adin_call (mcatch (configureTsPins h) (\<lambda>_. mret ()) mret) a t e (Inr ()) a t e"
    by (rule adin_call_catch_err) (rule adin_call_ret)
  with False show ?thesis by (intro exI [of _ e]) auto
qed

text \<open>The PHYs, in the order of the code.\<close>

lemma phys_up:
  assumes "\<not> s_irqEnabled t" and "coming_up phy phy_plain sleep boot n e" and "n + 1 < ADIN2111_PHY_POWERUP_MAX_RETRIES"
    and "sz \<le> mem"
  shows "\<exists>e1 e2 e3. adin_call (on_mac (phy2_powerup h ADIN2111_PHY_POWERUP_MAX_RETRIES)) a t e (Inr ()) a t e1 \<and>
     adin_call (on_phy ADIN2111_PORT_1 (PHY_Init (mac_bus h) sz mem 1 False)) a t e1 (Inr ()) (a\<lparr>ad_phy1 := phy_down 1\<rparr>) t e2 \<and>
     adin_call (on_phy ADIN2111_PORT_2 (PHY_Init (mac_bus h) sz mem 2 False)) (a\<lparr>ad_phy1 := phy_down 1\<rparr>) t e2 (Inr ())
       (a\<lparr>ad_phy1 := phy_down 1, ad_phy2 := phy_down 2\<rparr>) t e3 \<and>
     sleep e3 = 0 \<and> phy_set_up (phy e3 1) \<and> phy_set_up (phy e3 2) \<and> phy e3 1 ADDR_DIGIO_PINMUX = boot 1 ADDR_DIGIO_PINMUX \<and>
     (\<forall>x \<in> plain. reg e3 x = reg e x)"
proof -
  obtain e1 where 1: "adin_call (on_mac (phy2_powerup h ADIN2111_PHY_POWERUP_MAX_RETRIES)) a t e (Inr ()) a t e1"
    "sleep e1 = 0" "\<forall>hw \<in> {1, 2}. \<forall>y \<in> phy_plain. phy e1 hw y = boot hw y" "\<forall>x \<in> plain. reg e1 x = reg e x"
    using phy2_powered [OF assms(2,3), of a t] by blast
  have u: "(ucast (1 :: u32) :: u8) = 1" "(ucast (2 :: u32) :: u8) = 2" by simp_all
  have o: "(ucast (1 :: u8) :: 5 word) \<noteq> ucast (2 :: u8)" "(ucast (2 :: u8) :: 5 word) \<noteq> ucast (1 :: u8)" by simp_all
  have p1: "phy_of ADIN2111_PORT_1 a = Some (ad_phy1 a)" by (simp add: phy_of_def)
  obtain e2 where 2: "adin_call (on_phy ADIN2111_PORT_1 (PHY_Init (mac_bus h) sz mem 1 False))
       a t e1 (Inr ()) (set_phy ADIN2111_PORT_1 (phy_down 1) a) t e2"
    "sleep e2 = 0" "phy_set_up (phy e2 1)" "\<forall>y \<in> phy_plain - init_regs. phy e2 1 y = phy e1 1 y" "\<forall>x \<in> plain. reg e2 x = reg e1 x"
    using port_init [OF p1 assms(1,4) 1(2), of 1] unfolding u by blast
  have a1: "set_phy ADIN2111_PORT_1 (phy_down 1) a = a\<lparr>ad_phy1 := phy_down 1\<rparr>" by (simp add: set_phy_def)
  have p2: "phy_of ADIN2111_PORT_2 (a\<lparr>ad_phy1 := phy_down 1\<rparr>) = Some (ad_phy2 a)" by (simp add: phy_of_def adin_ports)
  obtain e3 where 3: "adin_call (on_phy ADIN2111_PORT_2 (PHY_Init (mac_bus h) sz mem 2 False))
       (a\<lparr>ad_phy1 := phy_down 1\<rparr>) t e2 (Inr ()) (set_phy ADIN2111_PORT_2 (phy_down 2) (a\<lparr>ad_phy1 := phy_down 1\<rparr>)) t e3"
    "sleep e3 = 0" "phy_set_up (phy e3 2)" "\<forall>x \<in> plain. reg e3 x = reg e2 x"
    "\<forall>hw y. (ucast (2 :: u8) :: 5 word) \<noteq> ucast hw \<longrightarrow> phy e3 hw y = phy e2 hw y"
    using port_init [OF p2 assms(1,4) 2(2), of 2] unfolding u by blast
  have a2: "set_phy ADIN2111_PORT_2 (phy_down 2) (a\<lparr>ad_phy1 := phy_down 1\<rparr>) = a\<lparr>ad_phy1 := phy_down 1, ad_phy2 := phy_down 2\<rparr>"
    by (simp add: set_phy_def adin_ports)
  have same: "phy e3 1 = phy e2 1" using 3(5) o(2) by (intro ext) blast
  have "ADDR_DIGIO_PINMUX \<in> phy_plain - init_regs"
    using pinmux_plain by (simp add: init_regs_def phy_regs)
  then have pin: "phy e3 1 ADDR_DIGIO_PINMUX = boot 1 ADDR_DIGIO_PINMUX"
    using 2(4) 1(3) same by simp
  have up: "phy_set_up (phy e3 1)" using 2(3) by (simp only: same)
  have "\<forall>x \<in> plain. reg e3 x = reg e x" using 3(4) 2(5) 1(4) by simp
  with 1(1) 2(1) [unfolded a1] 3(1) [unfolded a2] 3(2) up 3(3) pin show ?thesis by blast
qed

end

section \<open>The switch\<close>

definition table_cleared :: "adin2111_dev \<Rightarrow> adin2111_dev" where
  "table_cleared a = a\<lparr>ad_table := (adin2111_ClearDynamicTable (ad_table a))\<lparr>dt_dynamicTableReplaceLoc := 0\<rparr>,
     ad_portEnabled1 := False, ad_portEnabled2 := False\<rparr>"

lemma run_bind:
  assumes "m w = Some (Inr x, w')" and "\<exists>s'. f x w' = Some (r, a', s', e') \<and> P s'"
  shows "\<exists>s'. mbind m f w = Some (r, a', s', e') \<and> P s'"
  using assms by (simp add: mbind_def)

lemma adin_call_runs:
  assumes "adin_call m a t e r a' t' e'" and "can_access t"
  shows "\<exists>s'. m (a, t, e) = Some (r, a', s', e') \<and> can_access s' \<and> scratch s' = scratch t'"
  using assms by (simp add: adin_call_def)

definition switch_config2 :: "u32 \<Rightarrow> u32" where
  "switch_config2 v = (v OR BITM_MAC_CONFIG2_P1_FWD_UNK2HOST OR BITM_MAC_CONFIG2_P2_FWD_UNK2HOST)
     AND NOT BITM_MAC_CONFIG2_PORT_CUT_THRU_EN"

text \<open>The fields the driver has set once the switch is up.\<close>

definition phys_enabled :: "mac_state \<Rightarrow> mac_state" where
  "phys_enabled s = (unmasked (with_learning s))
     \<lparr>m_phyIrqMask := ADI_PHY_CRSM_HW_ERROR OR BITM_CRSM_IRQ_MASK_CRSM_HRD_RST_IRQ_EN\<rparr>"

context adin_device
begin

lemma init_chain:
  assumes "MAC_Init h (sz_mac sz) (sz_ADI_MAC_DEVICE_SIZE sz) fcs (s, e) = Some (Inr (), s0, e0)"
    and "s_events s0 = s_events s" and "can_access s0" and "\<not> s_irqEnabled s0"
    and "coming_up phy phy_plain sleep boot n e0"
    and "n + 1 < ADIN2111_PHY_POWERUP_MAX_RETRIES" and "sz_phy sz \<le> sz_ADI_PHY_DEVICE_SIZE sz"
    and "sz_ADIN2111_DEVICE_SIZE sz \<le> mem"
  shows "\<exists>s' e'. adin2111_Init h sz mem fcs tp cp (a, s, e) = Some (Inr (),
       (table_cleared (a\<lparr>ad_tsTimerPin := tp, ad_tsCaptPin := cp\<rparr>))\<lparr>ad_phy1 := phy_down 1, ad_phy2 := phy_down 2\<rparr>, s', e') \<and>
     can_access s' \<and> scratch s' = scratch (phys_enabled s0) \<and> phy_set_up (phy e' 1) \<and> phy_set_up (phy e' 2) \<and>
     (valid_pin tp \<and> valid_pin cp \<longrightarrow>
        phy e' 1 ADDR_DIGIO_PINMUX = ts_pin_bits tp cp (boot 1 ADDR_DIGIO_PINMUX)) \<and>
     (\<forall>x \<in> plain. reg e' x = (if x = ADDR_MAC_CONFIG2 then switch_config2 (reg e0 ADDR_MAC_CONFIG2)
        else if x = ADDR_MAC_IMASK0 then m_irqMask0 (phys_enabled s0)
        else if x = ADDR_MAC_IMASK1 then m_irqMask1 (phys_enabled s0) else reg e0 x))"
proof -
  have pl: "ADDR_MAC_CONFIG2 \<in> plain" "ADDR_MAC_IMASK0 \<in> plain" "ADDR_MAC_IMASK1 \<in> plain" using config_plain by simp_all
  have d: "ADDR_MAC_CONFIG2 \<noteq> ADDR_MAC_IMASK0" "ADDR_MAC_CONFIG2 \<noteq> ADDR_MAC_IMASK1" "ADDR_MAC_IMASK0 \<noteq> ADDR_MAC_IMASK1"
    "{ADDR_MAC_CONFIG2, ADDR_MAC_IMASK0, ADDR_MAC_IMASK1} \<inter> command_regs = {}"
    by (simp_all add: command_regs_def mac_regs)
  define a0 where "a0 = a\<lparr>ad_tsTimerPin := tp, ad_tsCaptPin := cp\<rparr>"
  define a1 where "a1 = table_cleared a0"
  define a3 where "a3 = a1\<lparr>ad_phy1 := phy_down 1, ad_phy2 := phy_down 2\<rparr>"
  define c2 where "c2 = switch_config2 (reg e0 ADDR_MAC_CONFIG2)"
  define e1 where "e1 = on_write ADDR_MAC_CONFIG2 c2 (on_read ADDR_MAC_CONFIG2 e0)"
  let ?t1 = "with_learning s0" and ?t2 = "unmasked (with_learning s0)"
  have up1: "coming_up phy phy_plain sleep boot n e1"
    using d(4) assms(5) staysD [OF sleep_on] by (simp add: e1_def)
  have i: "\<not> s_irqEnabled ?t1" using assms(4) by (simp add: with_learning_def)
  obtain e2 e3 e4 where ph: "adin_call (on_mac (phy2_powerup h ADIN2111_PHY_POWERUP_MAX_RETRIES)) a1 ?t1 e1 (Inr ()) a1 ?t1 e2"
    "adin_call (on_phy ADIN2111_PORT_1 (PHY_Init (mac_bus h) (sz_phy sz) (sz_ADI_PHY_DEVICE_SIZE sz) 1 False)) a1 ?t1 e2 (Inr ())
       (a1\<lparr>ad_phy1 := phy_down 1\<rparr>) ?t1 e3"
    "adin_call (on_phy ADIN2111_PORT_2 (PHY_Init (mac_bus h) (sz_phy sz) (sz_ADI_PHY_DEVICE_SIZE sz) 2 False))
       (a1\<lparr>ad_phy1 := phy_down 1\<rparr>) ?t1 e3 (Inr ()) a3 ?t1 e4"
    "sleep e4 = 0" "phy_set_up (phy e4 1)" "phy_set_up (phy e4 2)" "phy e4 1 ADDR_DIGIO_PINMUX = boot 1 ADDR_DIGIO_PINMUX"
    "\<forall>x \<in> plain. reg e4 x = reg e1 x"
    using phys_up [OF i up1 assms(6,7), of a1] unfolding a3_def by blast
  define e5 where "e5 = on_write ADDR_MAC_IMASK1 (m_irqMask1 ?t2) (on_write ADDR_MAC_IMASK0 (m_irqMask0 ?t2) e4)"
  have aw5: "sleep e5 = 0" and phy_e5: "phy e5 = phy e4"
    using d(4) ph(4) staysD [OF phy_reg [of "phy e4"]] by (simp_all add: e5_def)
  have pins: "ad_tsTimerPin a3 = tp" "ad_tsCaptPin a3 = cp" "ph_phyAddr (ad_phy1 a3) = 1"
    by (simp_all add: a3_def a1_def a0_def table_cleared_def phy_down_def phy_device_def)
  obtain e6 where e6: "adin_call (mcatch (configureTsPins h) (\<lambda>_. mret ()) mret) a3 (phys_enabled s0) e5 (Inr ()) a3 (phys_enabled s0) e6"
    "\<forall>y \<in> phy_plain. phy e6 1 y = (if y = ADDR_DIGIO_PINMUX \<and> valid_pin tp \<and> valid_pin cp
        then ts_pin_bits tp cp (phy e5 1 y) else phy e5 1 y)" "\<forall>x \<in> plain. reg e6 x = reg e5 x" "\<forall>y. phy e6 2 y = phy e5 2 y"
    using pins_configured [OF pins aw5, of "phys_enabled s0"] by blast
  have mask: "adin_call (on_mac (mupd_s (\<lambda>s. s\<lparr>m_phyIrqMask := ADI_PHY_CRSM_HW_ERROR OR BITM_CRSM_IRQ_MASK_CRSM_HRD_RST_IRQ_EN\<rparr>)))
      a3 ?t2 e5 (Inr ()) a3 (phys_enabled s0) e5"
    unfolding phys_enabled_def by (rule on_mac_upd) simp_all
  have first: "ad_upd (\<lambda>a. a\<lparr>ad_tsTimerPin := tp, ad_tsCaptPin := cp\<rparr>) (a, s, e) = Some (Inr (), a0, s, e)"
    "on_mac (MAC_Init h (sz_mac sz) (sz_ADI_MAC_DEVICE_SIZE sz) fcs) (a0, s, e) = Some (Inr (), a0, s0, e0)"
    using assms(1,2) by (simp_all add: ad_upd_def mupd_def a0_def on_mac_def)
  have clear: "adin_call (ad_upd (\<lambda>a. a\<lparr>ad_table := (adin2111_ClearDynamicTable (ad_table a))\<lparr>dt_dynamicTableReplaceLoc := 0\<rparr>,
     ad_portEnabled1 := False, ad_portEnabled2 := False\<rparr>)) a0 ?t1 e0 (Inr ()) a1 ?t1 e0"
    unfolding a1_def table_cleared_def by (rule adin_upd)
  have size: "\<not> mem < sz_ADIN2111_DEVICE_SIZE sz" using assms(8) by simp
  have run: "\<exists>s'. adin2111_Init h sz mem fcs tp cp (a, s, e) = Some (Inr (), a3, s', e6) \<and>
      can_access s' \<and> scratch s' = scratch (phys_enabled s0)"
    unfolding adin2111_Init_def if_not_P [OF size]
    by (rule run_bind, rule first(1), rule run_bind, rule first(2), rule adin_call_runs [OF _ assms(3)],
        rule adin_call_bind, rule register_learning, rule adin_call_bind, rule clear,
        rule adin_call_bind, rule adin_read_plain [OF pl(1)],
        rule adin_call_bind, fold switch_config2_def c2_def, rule adin_write_plain [OF pl(1)], fold e1_def,
        rule adin_call_bind, rule ph(1), rule adin_call_bind, rule ph(2), rule adin_call_bind, rule ph(3),
        rule adin_call_bind, rule unmask_phy_irqs [OF pl(2,3)], fold e5_def, rule adin_call_bind, rule mask, rule e6(1))
  have static: "ADDR_CRSM_IRQ_MASK \<in> phy_plain" "ADDR_PHY_SUBSYS_IRQ_MASK \<in> phy_plain" "ADDR_AN_CONTROL \<in> phy_plain"
    "ADDR_DIGIO_PINMUX \<in> phy_plain" "ADDR_DIGIO_PINMUX \<notin> {ADDR_CRSM_IRQ_MASK, ADDR_PHY_SUBSYS_IRQ_MASK, ADDR_AN_CONTROL}"
    using phy_init_plain pinmux_plain by (auto simp: phy_regs)
  have up: "phy_set_up (phy e6 1)" using ph(5) static e6(2) by (auto simp: phy_set_up_def phy_e5)
  have "phy e6 2 = phy e4 2" using e6(4) by (auto simp: phy_e5)
  with ph(6) have up2: "phy_set_up (phy e6 2)" by simp
  have pin: "valid_pin tp \<and> valid_pin cp \<longrightarrow> phy e6 1 ADDR_DIGIO_PINMUX = ts_pin_bits tp cp (boot 1 ADDR_DIGIO_PINMUX)"
    using e6(2) static(4) ph(7) by (simp add: phy_e5)
  have m: "m_irqMask0 (phys_enabled s0) = m_irqMask0 ?t2" "m_irqMask1 (phys_enabled s0) = m_irqMask1 ?t2"
    by (simp_all add: phys_enabled_def)
  have "\<forall>x \<in> plain. reg e6 x = (if x = ADDR_MAC_CONFIG2 then c2 else if x = ADDR_MAC_IMASK0 then m_irqMask0 (phys_enabled s0)
        else if x = ADDR_MAC_IMASK1 then m_irqMask1 (phys_enabled s0) else reg e0 x)"
    using e6(3) ph(8) pl d(1-3) unfolding m by (simp add: e5_def e1_def reg_on_write reg_on_read)
  with run up up2 pin show ?thesis unfolding a3_def a1_def a0_def c2_def by blast
qed

end

section \<open>The property\<close>






text \<open>
  The device of \<open>Adin_Chip\<close> with PHYs that come out of reset late: for the first three MDIO
  operations after a reset, reads give 0 and writes are lost.
\<close>

definition lost :: "chip \<Rightarrow> chip" where
  "lost c = c\<lparr>c_phy := phy_reset_values, c_reg := (c_reg c)(ADDR_MAC_MDIOACC_1 :=
     md_VALUE32 ((md_of_VALUE32 (c_reg c ADDR_MAC_MDIOACC_1))\<lparr>md_DATA := 0\<rparr>))\<rparr>"

definition late :: "(chip \<Rightarrow> chip) \<Rightarrow> chip \<times> nat \<Rightarrow> chip \<times> nat" where
  "late f = (\<lambda>(c, n). if n = 0 then (f c, 0) else (lost (f c), n - 1))"

definition late_reg :: "chip \<times> nat \<Rightarrow> u32 \<Rightarrow> u32" where "late_reg e = chip_reg (fst e)"

definition late_on_read :: "u32 \<Rightarrow> chip \<times> nat \<Rightarrow> chip \<times> nat" where
  "late_on_read a e = (chip_on_read a (fst e), snd e)"

definition late_on_write :: "u32 \<Rightarrow> u32 \<Rightarrow> chip \<times> nat \<Rightarrow> chip \<times> nat" where
  "late_on_write a v e = (if a = ADDR_MAC_MDIOACC_1 then late (chip_on_write a v) e
     else (chip_on_write a v (fst e), if a = ADDR_MAC_RESET then 3 else snd e))"

definition late_hal :: "(chip \<times> nat) adi_hal" where "late_hal = regs_hal late_reg late_on_read late_on_write"

definition late_phy :: "chip \<times> nat \<Rightarrow> u8 \<Rightarrow> u32 \<Rightarrow> u16" where
  "late_phy e hw y = (if snd e = 0 then chip_phy (fst e) hw y else 0)"

interpretation late: oa_device late_hal late_reg late_on_read late_on_write
  unfolding late_hal_def by (rule regs_device)

lemma chip_plain_regs:
  "a \<in> chip_plain \<Longrightarrow> a \<notin> mdio_regs \<and> a \<noteq> ADDR_MAC_MDIOACC_1 \<and> a \<noteq> ADDR_MAC_RESET"
  by (auto simp: chip_plain_def mdio_regs_def)

lemma late_plain:
  assumes "a \<in> chip_plain"
  shows "chip_reg (lost c) a = chip_reg c a" "late_on_write a v e = (chip_on_write a v (fst e), snd e)"
  using chip_plain_regs [OF assms] by (simp_all add: lost_def chip_reg_def late_on_write_def)

interpretation late: oa_bringup late_hal late_reg late_on_read late_on_write chip_plain
proof
  fix a b v :: u32 and e :: "chip \<times> nat"
  show "late_reg (late_on_write a v e) b = (if b = a then v else late_reg e b)" if "a \<in> chip_plain" "b \<in> chip_plain"
    using chip.reg_on_write [OF that, of v "fst e"] late_plain(2) [OF that(1)] by (simp add: late_reg_def)
  show "late_reg (late_on_read a e) b = late_reg e b" if "b \<in> chip_plain"
    using chip.reg_on_read [OF that, of a "fst e"] by (simp add: late_reg_def late_on_read_def)
  show "U16 a = a" if "a \<in> chip_plain" using that by (rule chip.plain_16)
  show "late_reg e ADDR_MAC_PHYID = RSTVAL_MAC_PHYID" using chip.phyid [of "fst e"] by (simp add: late_reg_def)
  show "late_reg (late_on_read ADDR_MAC_PHYID (late_on_write ADDR_MAC_RESET (push_bit BITP_MAC_RESET_SWRESET 1) e))
      ADDR_MAC_STATUS0 AND BITM_MAC_STATUS0_RESETC = BITM_MAC_STATUS0_RESETC"
    using chip.resetc [of "fst e"] by (simp add: late_reg_def late_on_read_def late_on_write_def mac_regs)
  show "{ADDR_MAC_IMASK0, ADDR_MAC_IMASK1, ADDR_MAC_CONFIG0, ADDR_MAC_CONFIG2} \<subseteq> chip_plain"
    by (rule chip.config_plain)
qed

lemma late_reads: "(late_on_read ADDR_MAC_MDIOACC_1 ^^ k) (c, n) = (c\<lparr>c_busy := c_busy c - k\<rparr>, n)"
  by (induction k) (simp_all add: late_on_read_def chip_on_read_def mdio_regs_def)

lemma late_command:
  assumes "\<And>c. chip_on_write ADDR_MAC_MDIOACC_1 cmd (chip_on_write ADDR_MAC_MDIOACC_0 adr c) = (f c)\<lparr>c_busy := 3\<rparr>"
  shows "late_on_write ADDR_MAC_MDIOACC_1 cmd (late_on_write ADDR_MAC_MDIOACC_0 adr e) =
     ((fst (late f e))\<lparr>c_busy := 3\<rparr>, snd (late f e))"
proof -
  have "late_on_write ADDR_MAC_MDIOACC_0 adr e = (chip_on_write ADDR_MAC_MDIOACC_0 adr (fst e), snd e)"
    by (simp add: late_on_write_def mac_regs)
  then show ?thesis by (simp add: late_on_write_def late_def assms lost_def split: prod.split)
qed

interpretation late: oa_mdio late_hal late_reg late_on_read late_on_write late_phy
  "\<lambda>hw a. late (chip_phy_read hw a)" "\<lambda>hw a v. late (chip_phy_write hw a v)"
proof unfold_locales
  fix junk hwAddr a v and e :: "chip \<times> nat"
  have ready: "mdio_done late_reg late_on_read 3 (c\<lparr>c_busy := 3\<rparr>, n)" for c n
    by (auto simp: mdio_done_def late_reads late_reg_def chip_reg_mdio ADI_MAC_MDIO_MAX_RETRIES_def)
  have data: "md_DATA (md_of_VALUE32 (late_reg (c, n) ADDR_MAC_MDIOACC_1)) = md_DATA (md_of_VALUE32 (c_reg c ADDR_MAC_MDIOACC_1))"
    for c n by (simp add: late_reg_def chip_reg_mdio)
  show "\<exists>n. mdio_done late_reg late_on_read n
        (late_on_write ADDR_MAC_MDIOACC_1 (md_VALUE32 (mdio_rd junk hwAddr a))
          (late_on_write ADDR_MAC_MDIOACC_0 (md_VALUE32 (mdio_address junk hwAddr a)) e)) \<and>
      md_DATA (md_of_VALUE32 (late_reg ((late_on_read ADDR_MAC_MDIOACC_1 ^^ Suc n)
        (late_on_write ADDR_MAC_MDIOACC_1 (md_VALUE32 (mdio_rd junk hwAddr a))
          (late_on_write ADDR_MAC_MDIOACC_0 (md_VALUE32 (mdio_address junk hwAddr a)) e))) ADDR_MAC_MDIOACC_1)) =
        late_phy e hwAddr a \<and>
      (late_on_read ADDR_MAC_MDIOACC_1 ^^ Suc (Suc n))
        (late_on_write ADDR_MAC_MDIOACC_1 (md_VALUE32 (mdio_rd junk hwAddr a))
          (late_on_write ADDR_MAC_MDIOACC_0 (md_VALUE32 (mdio_address junk hwAddr a)) e)) = late (chip_phy_read hwAddr a) e"
    unfolding late_command [OF chip_after_read] late_reads data
    by (intro exI [of _ 3] conjI ready)
      (simp_all add: chip_phy_read_def late_def lost_def late_phy_def split: prod.split)
  show "\<exists>n. mdio_done late_reg late_on_read n
        (late_on_write ADDR_MAC_MDIOACC_1 (md_VALUE32 (mdio_wr junk hwAddr a v))
          (late_on_write ADDR_MAC_MDIOACC_0 (md_VALUE32 (mdio_address junk hwAddr a)) e)) \<and>
      (late_on_read ADDR_MAC_MDIOACC_1 ^^ Suc n)
        (late_on_write ADDR_MAC_MDIOACC_1 (md_VALUE32 (mdio_wr junk hwAddr a v))
          (late_on_write ADDR_MAC_MDIOACC_0 (md_VALUE32 (mdio_address junk hwAddr a)) e)) = late (chip_phy_write hwAddr a v) e"
    unfolding late_command [OF chip_after_write] late_reads
    by (intro exI [of _ 3] conjI ready) (simp add: chip_phy_write_def late_def lost_def split: prod.split)
qed

lemma late_awake:
  assumes "snd e = 0"
  shows "late f e = (f (fst e), 0)" "late_phy e = chip_phy (fst e)" "late_phy (c, 0) = chip_phy c"
  using assms by (cases e; simp add: late_def late_phy_def fun_eq_iff)+

lemma late_awakes: "(late f ^^ k) (c, 0) = ((f ^^ k) c, 0)"
  by (induction k) (simp_all add: late_awake)

definition late_boot :: "u8 \<Rightarrow> u32 \<Rightarrow> u16" where
  "late_boot hw y = phy_reset_values (ucast hw) y"

lemma lost_boot: "y \<in> chip_phy_plain \<Longrightarrow> chip_phy (lost c) hw y = late_boot hw y"
  by (auto simp: chip_phy_plain_def chip_phy_def chip_phy_reg_def lost_def late_boot_def take_bit_21)

interpretation late: adin_device late_hal late_reg late_on_read late_on_write late_phy
  "\<lambda>hw a. late (chip_phy_read hw a)" "\<lambda>hw a v. late (chip_phy_write hw a v)" chip_plain chip_phy_plain snd late_boot
proof unfold_locales
  fix x y a :: u32 and v :: u16 and hw hw' :: u8 and e :: "chip \<times> nat" and enable and n
  show "late_reg (late (chip_phy_read hw x) e) a = late_reg e a" "late_reg (late (chip_phy_write hw x v) e) a = late_reg e a"
    if "a \<in> chip_plain" for v
    using that chip.reg_phy late_plain(1) [OF that] by (simp_all add: late_def late_reg_def split: prod.split)
  show "stays late_on_read late_on_write (\<lambda>e. snd e = 0 \<and> late_phy e = f)" for f
    by (auto simp: stays_def late_on_read_def late_on_write_def late_awake chip_phy_kept command_regs_def mac_regs)
  show "stays late_on_read late_on_write (coming_up late_phy chip_phy_plain snd late_boot n)"
    by (auto simp: stays_def late_on_read_def late_on_write_def coming_up_def late_phy_def chip_phy_kept command_regs_def)
  show "\<exists>n. n + 1 < ADIN2111_PHY_POWERUP_MAX_RETRIES \<and>
      coming_up late_phy chip_phy_plain snd late_boot n (late_on_write ADDR_MAC_RESET mac_reset_word e)"
    by (intro exI [of _ 3]) (simp add: coming_up_def late_on_write_def ADIN2111_PHY_POWERUP_MAX_RETRIES_def mac_regs)
  show "coming_up late_phy chip_phy_plain snd late_boot n (late (chip_phy_read 2 ADDR_CRSM_IRQ_MASK) e)"
    if "coming_up late_phy chip_phy_plain snd late_boot (Suc n) e" "snd e \<noteq> 0"
    using that by (auto simp: coming_up_def late_def late_phy_def lost_boot split: prod.splits)
  show "static_regs \<union> {ADDR_CRSM_IRQ_MASK, ADDR_PHY_SUBSYS_IRQ_MASK, ADDR_AN_CONTROL} \<subseteq> chip_phy_plain"
    by (rule chip.phy_init_plain)
  show "late_boot 2 ADDR_CRSM_IRQ_MASK \<noteq> 0" by (simp add: late_boot_def phy_reset_values_def)
  show "ADDR_DIGIO_PINMUX \<in> chip_phy_plain - static_regs"
    by (simp add: chip_phy_plain_def static_regs_def static_config_def phy_regs)
  assume e: "snd e = 0"
  show "\<exists>n<ADI_PHY_SOFT_PD_ITER.
      (\<forall>k<n. pd_ready (late_phy ((late (chip_phy_read hw ADDR_CRSM_STAT) ^^ k)
        (late (chip_phy_write hw ADDR_CRSM_SFT_PD_CNTRL (of_bool enable)) e)) hw ADDR_CRSM_STAT) \<noteq> enable) \<and>
      pd_ready (late_phy ((late (chip_phy_read hw ADDR_CRSM_STAT) ^^ n)
        (late (chip_phy_write hw ADDR_CRSM_SFT_PD_CNTRL (of_bool enable)) e)) hw ADDR_CRSM_STAT) = enable"
    using chip.phy_power [where e = "fst e" and hw = hw and enable = enable] by (simp add: late_awake [OF e] late_awakes)
  show "late_phy (late (chip_phy_write hw x v) e) hw y = (if y = x then v else late_phy e hw y)"
    if "x \<in> chip_phy_plain" "y \<in> chip_phy_plain"
    using chip.phy_on_write [OF TrueI that] by (simp add: late_awake [OF e])
  show "late_phy (late (chip_phy_write hw ADDR_CRSM_SFT_PD_CNTRL v) e) hw y = late_phy e hw y" if "y \<in> chip_phy_plain"
    using chip.phy_power_plain [OF TrueI that] by (simp add: late_awake [OF e])
  show "late_phy (late (chip_phy_write hw x v) e) hw' y = late_phy e hw' y"
    "late_phy (late (chip_phy_read hw x) e) hw' y = late_phy e hw' y" if "(ucast hw :: 5 word) \<noteq> ucast hw'"
    using chip.phy_other_write [OF TrueI that] chip.phy_other_read [OF TrueI that] by (simp_all add: late_awake [OF e])
qed (simp_all add: late_awake chip.phy_on_read chip.phy_id1 chip.phy_id2 chip.phy_no_error, simp add: late_phy_def)



end
