(* ===== verification/Mac_Total.thy ===== *)
theory Mac_Total
  imports Adin2111_Ctl Oa_Device
begin

text \<open>
  Termination and error behaviour over a device that may answer anything: a register access
  always returns after one exchange and tells what the answer was worth, and the routines made
  of such accesses, up to the initialisation of the switch, always return.
\<close>

section \<open>One register\<close>

text \<open>The SPI driver of the board returns, with as many bytes as were sent.\<close>

definition spi_answers :: "'e adi_hal \<Rightarrow> bool" where
  "spi_answers h \<longleftrightarrow> (\<forall>dma tx e. \<exists>rx e'. h_xfer h dma tx e = Some (rx, e') \<and> length rx = length tx)"

lemma spi_answersE:
  assumes "spi_answers h"
  obtains rx e' where "h_xfer h dma tx e = Some (rx, e')" and "length rx = length tx"
  using assms unfolding spi_answers_def by blast

text \<open>A line on which nothing answers reads as zeros; the transfers are counted.\<close>

definition mute_hal :: "nat adi_hal" where
  "mute_hal = \<lparr>h_io_write = (\<lambda>_ n. n), h_xfer = (\<lambda>_ tx n. Some (map (\<lambda>_. 0) tx, Suc n))\<rparr>"

lemma mute_answers: "spi_answers mute_hal"
  by (simp add: spi_answers_def mute_hal_def)

text \<open>What the word holds after a read, of the bytes sent and received, and what it held before.\<close>

definition read_cell :: "u8 list \<Rightarrow> u8 list \<Rightarrow> u32 \<Rightarrow> u32" where
  "read_cell tx rx old = (if take 4 (drop 4 rx) = take 4 tx \<and> protected_at (drop 8 rx) 0
     then HTON32 (le_word32 (take 4 (drop 8 rx))) else old)"

lemma one_word_read:
  assumes "8 \<le> length src"
  shows "\<exists>r. oaCtrlCmdReadData src 1 =
     Some (if protected_at src 0 then (r, [HTON32 (le_word32 (take 4 src))]) else (r, []))"
  using assms by (auto simp: protected_at_def mem_read_def)

lemma control_read:
  assumes s: "m_wnr s = ADI_MAC_SPI_READ" "m_regAddr s = a" "m_cnt s = 1"
      "m_pRegData s = RegCaller" "m_state s = ADI_MAC_STATE_CONTROL_START"
    and len: "length (m_ctrlTxBuf s) = 256" "length (m_ctrlRxBuf s) = 256"
    and h: "spi_answers h"
  shows "\<exists>tx rx e1 result tx' rx' spiErr. length tx = 16 \<and> length rx = 16 \<and> take 4 tx = oaCtrlCmdHeader ADI_MAC_SPI_READ a 1 \<and>
     h_xfer h True tx (h_io_write h False e) = Some (rx, e1) \<and> length tx' = 256 \<and> length rx' = 256 \<and>
     spiErr = (take 4 (drop 4 rx) \<noteq> take 4 tx) \<and>
     oaStateMachine h (s, e) = Some (result, s\<lparr>m_state := ADI_MAC_STATE_READY,
       m_spiState := ADI_MAC_SPI_STATE_READY, m_spiErr := spiErr, m_ctrlTxBuf := tx', m_ctrlRxBuf := rx',
       s_regCell := read_cell tx rx (s_regCell s)\<rparr>, h_io_write h True e1)"
proof -
  obtain txb where su: "oaCtrlSetup (m_ctrlTxBuf s) ADI_MAC_SPI_READ a (reg_words s) 1 = Some (ADI_ETH_SUCCESS, txb, 16)"
    and txb: "length txb = 256" "take 4 txb = oaCtrlCmdHeader ADI_MAC_SPI_READ a 1"
    using oaCtrlSetup_read [OF len(1), of 1 a "reg_words s"] by auto
  define tx where "tx = take 16 txb"
  have tx: "length tx = 16" "take 4 tx = take 4 txb" using txb(1) by (simp_all add: tx_def min_def)
  obtain rx e1 where x: "h_xfer h True tx (h_io_write h False e) = Some (rx, e1)" "length rx = 16"
    using spi_answersE [OF h, of True tx "h_io_write h False e"] tx(1) by metis
  define rxb where "rxb = rx @ drop 16 (m_ctrlRxBuf s)"
  have lrx: "length rxb = 256" using x(2) len by (simp add: rxb_def)
  have bsp: "adi_bsp_spi_write_and_read (h_io_write h) (h_xfer h) txb (m_ctrlRxBuf s) 16 True e = Some (rxb, h_io_write h True e1)"
    unfolding rxb_def by (rule bsp_single_transfer)
      (use x tx_def txb len in \<open>simp_all add: SPI_MAX_TRANSFER_def\<close>)
  have echo: "take 4 (drop 4 rxb) = take 4 (drop 4 rx)" "protected_at (drop 8 rxb) 0 = protected_at (drop 8 rx) 0"
    "take 4 (drop 8 rxb) = take 4 (drop 8 rx)"
    using x(2) by (simp_all add: rxb_def protected_at_def)
  obtain r where dat: "oaCtrlCmdReadData (drop 8 rxb) 1 = Some (if protected_at (drop 8 rx) 0
      then (r, [HTON32 (le_word32 (take 4 (drop 8 rx)))]) else (r, []))"
    using one_word_read [of "drop 8 rxb"] lrx unfolding echo by auto
  let ?err = "take 4 (drop 4 rx) \<noteq> take 4 tx"
  let ?s1 = "s\<lparr>m_ctrlTxBuf := txb\<rparr>"
  let ?s2 = "?s1\<lparr>m_state := ADI_MAC_STATE_CONTROL_END, m_spiState := ADI_MAC_SPI_STATE_RX, m_ctrlRxBuf := rxb\<rparr>"
  let ?s3 = "?s2\<lparr>m_spiErr := ?err, s_regCell := read_cell tx rx (s_regCell s),
     m_spiState := ADI_MAC_SPI_STATE_READY, m_state := ADI_MAC_STATE_READY\<rparr>"
  have "\<exists>r'. oa_control_end ?s2 = Some (r', ?s3, None)"
    using dat txb(1) lrx tx(2) echo(1)
    by (auto simp: oa_control_end_def reg_store_def s oa_sizes mem_read_def read_cell_def simp del: oaCtrlCmdReadData.simps)
  then obtain r' where e: "oa_control_end ?s2 = Some (r', ?s3, None)" by blast
  have "oaStateMachine h (s, e) = Some (ADI_ETH_SUCCESS, ?s3, h_io_write h True e1)"
  proof (rule control_run)
    show "ctrl_setup (m_wnr s) (m_regAddr s) (m_cnt s) s = Some (ADI_ETH_SUCCESS, 16, ?s1)"
      by (simp add: ctrl_setup_def s su del: One_nat_def)
    show "spi_exchange h (SpiCtrl 16)
       (?s1\<lparr>m_state := ADI_MAC_STATE_CONTROL_END, m_spiState := ADI_MAC_SPI_STATE_RX\<rparr>, e) =
       Some (?s2, h_io_write h True e1)"
      using bsp by (simp add: MIN_SIZE_FOR_DMA_def)
  qed (simp_all add: s e)
  then show ?thesis using tx txb(1,2) x lrx by (intro exI conjI) (assumption | simp)+
qed

lemma control_write:
  assumes s: "m_wnr s = ADI_MAC_SPI_WRITE" "m_cnt s = 1"
      "m_pRegData s = RegCaller" "m_state s = ADI_MAC_STATE_CONTROL_START"
    and len: "length (m_ctrlTxBuf s) = 256" "length (m_ctrlRxBuf s) = 256"
    and h: "spi_answers h"
  shows "\<exists>e' result tx' rx' spiErr. length tx' = 256 \<and> length rx' = 256 \<and>
     oaStateMachine h (s, e) = Some (result, s\<lparr>m_state := ADI_MAC_STATE_READY,
       m_spiState := ADI_MAC_SPI_STATE_READY, m_spiErr := spiErr, m_ctrlTxBuf := tx', m_ctrlRxBuf := rx'\<rparr>, e')"
proof -
  have words: "length (reg_words s) = 1" using s by (simp add: reg_words_def)
  obtain txb where su: "oaCtrlSetup (m_ctrlTxBuf s) ADI_MAC_SPI_WRITE (m_regAddr s) (reg_words s) 1 = Some (ADI_ETH_SUCCESS, txb, 16)"
    and txb: "length txb = 256"
    using oaCtrlSetup_write [OF len(1), of 1 "reg_words s" "m_regAddr s"] words by auto
  have l16: "length (take 16 txb) = 16" using txb by simp
  obtain rx e1 where x: "h_xfer h True (take 16 txb) (h_io_write h False e) = Some (rx, e1)" "length rx = 16"
    using spi_answersE [OF h, of True "take 16 txb" "h_io_write h False e"] l16 by metis
  define rxb where "rxb = rx @ drop 16 (m_ctrlRxBuf s)"
  have lrx: "length rxb = 256" using x(2) len by (simp add: rxb_def)
  have bsp: "adi_bsp_spi_write_and_read (h_io_write h) (h_xfer h) txb (m_ctrlRxBuf s) 16 True e = Some (rxb, h_io_write h True e1)"
    unfolding rxb_def by (rule bsp_single_transfer) (use x txb len in \<open>simp_all add: SPI_MAX_TRANSFER_def\<close>)
  let ?s1 = "s\<lparr>m_ctrlTxBuf := txb\<rparr>"
  let ?s2 = "?s1\<lparr>m_state := ADI_MAC_STATE_CONTROL_END, m_spiState := ADI_MAC_SPI_STATE_RX, m_ctrlRxBuf := rxb\<rparr>"
  let ?s3 = "?s2\<lparr>m_spiErr := (take 4 (drop 4 rxb) \<noteq> take 4 txb), m_spiState := ADI_MAC_SPI_STATE_READY, m_state := ADI_MAC_STATE_READY\<rparr>"
  have "oaStateMachine h (s, e) = Some (ADI_ETH_SUCCESS, ?s3, h_io_write h True e1)"
  proof (rule control_run)
    show "ctrl_setup (m_wnr s) (m_regAddr s) (m_cnt s) s = Some (ADI_ETH_SUCCESS, 16, ?s1)"
      by (simp add: ctrl_setup_def s su del: One_nat_def)
    show "spi_exchange h (SpiCtrl 16)
       (?s1\<lparr>m_state := ADI_MAC_STATE_CONTROL_END, m_spiState := ADI_MAC_SPI_STATE_RX\<rparr>, e) =
       Some (?s2, h_io_write h True e1)"
      using bsp by (simp add: MIN_SIZE_FOR_DMA_def)
    show "oa_control_end ?s2 = Some (ADI_ETH_SUCCESS, ?s3, None)"
      using txb(1) lrx
      by (auto simp add: oa_control_end_def s oa_sizes mem_read_def ADI_MAC_SPI_READ_def ADI_MAC_SPI_WRITE_def)
  qed (simp_all add: s)
  then show ?thesis using txb lrx
    by (intro exI [of _ "h_io_write h True e1"] exI [of _ ADI_ETH_SUCCESS] exI [of _ txb] exI [of _ rxb]
        exI [of _ "take 4 (drop 4 rxb) \<noteq> take 4 txb"]) simp
qed

text \<open>The driver as the state machine finds it for a read, and for a write.\<close>

definition access_start :: "u32 \<Rightarrow> u32 \<Rightarrow> u32 \<Rightarrow> mac_state \<Rightarrow> mac_state" where
  "access_start wnr a cell s = s\<lparr>s_regCell := cell, s_irqEnabled := False, m_pendingCtrl := True, m_wnr := wnr,
     m_regAddr := U16 a, m_pRegData := RegCaller, m_cnt := 1, m_state := ADI_MAC_STATE_CONTROL_START\<rparr>"

lemma read_runs:
  assumes "can_access s" and "oaStateMachine h (access_start ADI_MAC_SPI_READ a (s_regCell s) s, e) = Some (r, s1, e1)"
  shows "MAC_ReadRegister h a (s, e) = Some (if m_spiErr s1 then Inl ADI_ETH_SPI_ERROR else Inr (s_regCell s1),
     control_done (s_irqEnabled s) s1, e1)"
proof -
  have "m_state s \<noteq> ADI_MAC_STATE_UNINITIALIZED" "irq_backup s = s_irqEnabled s" using assms(1) by (auto simp: can_access_def irq_backup_def)
  moreover have "spi_wait ADI_SPI_TIMEOUT (s\<lparr>s_regCell := s_regCell s, s_irqEnabled := False, m_pendingCtrl := True\<rparr>) \<noteq> 0"
    by (rule spi_wait_ready) (use assms(1) in \<open>simp add: can_access_def\<close>)
  ultimately show ?thesis
    using assms(2) by (simp add: MAC_ReadRegister_def MAC_ReadRegister_into_def Let_def access_start_def irq_backup_def)
qed

lemma write_runs:
  assumes "can_access s" and "oaStateMachine h (access_start ADI_MAC_SPI_WRITE a v s, e) = Some (r, s1, e1)"
  shows "MAC_WriteRegister h a v (s, e) = Some (if m_spiErr s1 then Inl ADI_ETH_SPI_ERROR else Inr (),
     control_done (s_irqEnabled s) s1, e1)"
proof -
  have "m_state s \<noteq> ADI_MAC_STATE_UNINITIALIZED" "irq_backup s = s_irqEnabled s" using assms(1) by (auto simp: can_access_def irq_backup_def)
  moreover have "spi_wait ADI_SPI_TIMEOUT (s\<lparr>s_irqEnabled := False, m_pendingCtrl := True\<rparr>) \<noteq> 0"
    by (rule spi_wait_ready) (use assms(1) in \<open>simp add: can_access_def\<close>)
  moreover have "access_start ADI_MAC_SPI_WRITE a v s = s\<lparr>s_irqEnabled := False, m_pendingCtrl := True\<rparr>\<lparr>m_wnr := ADI_MAC_SPI_WRITE,
      m_regAddr := U16 a, m_pRegData := RegCaller, s_regCell := v, m_cnt := 1, m_state := ADI_MAC_STATE_CONTROL_START\<rparr>"
    by (simp add: access_start_def)
  ultimately show ?thesis
    using assms(2) by (simp add: MAC_WriteRegister_def Let_def)
qed

lemma control_done_access:
  assumes "length (m_ctrlTxBuf s) = 256" and "length (m_ctrlRxBuf s) = 256" and "m_state s = ADI_MAC_STATE_READY"
    and "m_spiState s = ADI_MAC_SPI_STATE_READY"
  shows "can_access (control_done b s)"
  using assms by (cases b) (simp_all add: can_access_def control_done_def Let_def)

lemma scratch_control_done:
  "scratch (control_done (s_irqEnabled s) ((access_start wnr a cell s)\<lparr>m_state := st, m_spiState := sp, m_spiErr := err,
     m_ctrlTxBuf := tx, m_ctrlRxBuf := rx\<rparr>)) = scratch s"
  using irq_same [of s] by (cases "s_irqEnabled s") (simp_all add: scratch_def control_done_def access_start_def Let_def)

lemma access_start_simps [simp]:
  "m_wnr (access_start wnr a cell s) = wnr" "m_regAddr (access_start wnr a cell s) = U16 a" "m_cnt (access_start wnr a cell s) = 1"
  "m_pRegData (access_start wnr a cell s) = RegCaller" "m_state (access_start wnr a cell s) = ADI_MAC_STATE_CONTROL_START"
  "m_ctrlTxBuf (access_start wnr a cell s) = m_ctrlTxBuf s" "m_ctrlRxBuf (access_start wnr a cell s) = m_ctrlRxBuf s"
  "s_regCell (access_start wnr a cell s) = cell"
  by (simp_all add: access_start_def)

lemma access_start_cell: "(access_start wnr a c s)\<lparr>m_state := st, m_spiState := sp, m_spiErr := err,
     m_ctrlTxBuf := tx, m_ctrlRxBuf := rx, s_regCell := v\<rparr> = (access_start wnr a v s)\<lparr>m_state := st, m_spiState := sp,
     m_spiErr := err, m_ctrlTxBuf := tx, m_ctrlRxBuf := rx\<rparr>"
  by (simp add: access_start_def)

lemma register_read:
  assumes "spi_answers h" and "can_access s"
  shows "\<exists>tx rx e1 s'. length tx = 16 \<and> length rx = 16 \<and> take 4 tx = oaCtrlCmdHeader ADI_MAC_SPI_READ (U16 a) 1 \<and>
     h_xfer h True tx (h_io_write h False e) = Some (rx, e1) \<and>
     MAC_ReadRegister h a (s, e) = Some (if take 4 (drop 4 rx) \<noteq> take 4 tx then Inl ADI_ETH_SPI_ERROR
       else if protected_at (drop 8 rx) 0 then Inr (HTON32 (le_word32 (take 4 (drop 8 rx)))) else Inr (s_regCell s),
       s', h_io_write h True e1) \<and>
     can_access s' \<and> scratch s' = scratch s"
proof -
  let ?s = "access_start ADI_MAC_SPI_READ a (s_regCell s) s"
  have len: "length (m_ctrlTxBuf ?s) = 256" "length (m_ctrlRxBuf ?s) = 256" using assms(2) by (simp_all add: can_access_def)
  obtain tx rx e1 result tx' rx' where r: "length tx = 16" "length rx = 16" "take 4 tx = oaCtrlCmdHeader ADI_MAC_SPI_READ (U16 a) 1"
    "h_xfer h True tx (h_io_write h False e) = Some (rx, e1)" "length tx' = 256" "length rx' = 256"
    "oaStateMachine h (?s, e) = Some (result, (access_start ADI_MAC_SPI_READ a (read_cell tx rx (s_regCell s)) s)
       \<lparr>m_state := ADI_MAC_STATE_READY, m_spiState := ADI_MAC_SPI_STATE_READY, m_spiErr := (take 4 (drop 4 rx) \<noteq> take 4 tx),
        m_ctrlTxBuf := tx', m_ctrlRxBuf := rx'\<rparr>, h_io_write h True e1)" (is "_ = Some (_, ?s1, _)")
    using control_read [OF _ _ _ _ _ len assms(1), of "U16 a" e] by (auto simp: access_start_cell)
  have "MAC_ReadRegister h a (s, e) = Some (if take 4 (drop 4 rx) \<noteq> take 4 tx then Inl ADI_ETH_SPI_ERROR
       else if protected_at (drop 8 rx) 0 then Inr (HTON32 (le_word32 (take 4 (drop 8 rx)))) else Inr (s_regCell s),
       control_done (s_irqEnabled s) ?s1, h_io_write h True e1)"
    using read_runs [OF assms(2) r(7)] by (simp add: read_cell_def)
  moreover have "can_access (control_done (s_irqEnabled s) ?s1)" by (rule control_done_access) (simp_all add: r(5,6))
  ultimately show ?thesis using r(1-4) scratch_control_done by blast
qed

text \<open>
  C15: a register read returns after one exchange of sixteen bytes, whatever the device answers,
  with the driver ready and otherwise unchanged.  It fails with an SPI error exactly when the
  device does not echo the header; otherwise it reports success, with the value received when
  that is followed by its complement, and with what the word held before when it is not: a
  protection error of the data is not reported.
\<close>

theorem register_read_returns:
  assumes "spi_answers h" and "can_access s"
  shows "\<exists>tx rx e1 s'. length tx = 16 \<and> length rx = 16 \<and> take 4 tx = oaCtrlCmdHeader ADI_MAC_SPI_READ (U16 a) 1 \<and>
     h_xfer h True tx (h_io_write h False e) = Some (rx, e1) \<and>
     MAC_ReadRegister h a (s, e) = Some (if take 4 (drop 4 rx) \<noteq> take 4 tx then Inl ADI_ETH_SPI_ERROR
       else if protected_at (drop 8 rx) 0 then Inr (HTON32 (le_word32 (take 4 (drop 8 rx)))) else Inr (s_regCell s),
       s', h_io_write h True e1) \<and>
     can_access s' \<and> scratch s' = scratch s"
  by (rule register_read [OF assms])

theorem register_read_returns_witness:
  "\<exists>s'. MAC_ReadRegister mute_hal ADDR_MAC_PHYID (macDeviceInit True (static_state (\<lambda>_. blank_desc)), 7) =
     Some (Inl ADI_ETH_SPI_ERROR, s', 8) \<and> can_access s'"
proof -
  have "can_access (macDeviceInit True (static_state (\<lambda>_. blank_desc)))"
    by (simp add: macDeviceInit_def device_init_def can_access_def)
  from register_read_returns [OF mute_answers this, of ADDR_MAC_PHYID 7]
  obtain tx rx e1 s' where r: "length tx = 16" "take 4 tx = oaCtrlCmdHeader ADI_MAC_SPI_READ (U16 ADDR_MAC_PHYID) 1"
    "h_xfer mute_hal True tx (h_io_write mute_hal False 7) = Some (rx, e1)"
    "MAC_ReadRegister mute_hal ADDR_MAC_PHYID (macDeviceInit True (static_state (\<lambda>_. blank_desc)), 7) =
      Some (if take 4 (drop 4 rx) \<noteq> take 4 tx then Inl ADI_ETH_SPI_ERROR
       else if protected_at (drop 8 rx) 0 then Inr (HTON32 (le_word32 (take 4 (drop 8 rx))))
       else Inr (s_regCell (macDeviceInit True (static_state (\<lambda>_. blank_desc)))), s', h_io_write mute_hal True e1)" "can_access s'"
    by blast
  have rx: "rx = map (\<lambda>_. 0) tx" "h_io_write mute_hal True e1 = 8" using r(3) by (auto simp: mute_hal_def)
  have "U16 ADDR_MAC_PHYID = 1" by (simp add: U16_def mac_regs)
  moreover have "ch_ADDR (ctrl_decode (oaCtrlCmdHeader ADI_MAC_SPI_READ 1 1)) = 1"
    using ctrl_decode_oaCtrlCmdHeader [of ADI_MAC_SPI_READ 1 1 "[]"] by (simp add: ctrl_header_def ch_set_P_def Let_def)
  then have "oaCtrlCmdHeader ADI_MAC_SPI_READ 1 1 \<noteq> replicate 4 0"
    by (auto simp: ctrl_decode_def ch_of_VALUE32_def le_word32_def HTON32_def numeral_eq_Suc)
  ultimately have "take 4 tx \<noteq> replicate 4 0" using r(2) by simp
  moreover have "take 4 (drop 4 rx) = replicate 4 0" using r(1) by (simp add: rx(1) drop_map take_map map_replicate_const)
  ultimately have "take 4 (drop 4 rx) \<noteq> take 4 tx" by simp
  with r(4,5) rx(2) show ?thesis by auto
qed

lemma register_write_returns:
  assumes "spi_answers h" and "can_access s"
  shows "\<exists>r s' e'. MAC_WriteRegister h a v (s, e) = Some (r, s', e') \<and> can_access s' \<and> scratch s' = scratch s"
proof -
  let ?s = "access_start ADI_MAC_SPI_WRITE a v s"
  have len: "length (m_ctrlTxBuf ?s) = 256" "length (m_ctrlRxBuf ?s) = 256" using assms(2) by (simp_all add: can_access_def)
  obtain e' result tx' rx' spiErr where r: "length tx' = 256" "length rx' = 256"
     "oaStateMachine h (?s, e) = Some (result, ?s\<lparr>m_state := ADI_MAC_STATE_READY,
       m_spiState := ADI_MAC_SPI_STATE_READY, m_spiErr := spiErr, m_ctrlTxBuf := tx', m_ctrlRxBuf := rx'\<rparr>, e')"
     (is "_ = Some (_, ?s1, _)")
    using control_write [OF _ _ _ _ len assms(1), of e] by auto
  have "can_access (control_done (s_irqEnabled s) ?s1)" by (rule control_done_access) (simp_all add: r(1,2))
  then show ?thesis
    by (intro exI conjI) (rule write_runs [OF assms(2) r(3)], assumption, rule scratch_control_done)
qed

section \<open>Routines that return\<close>

text \<open>From a state that satisfies \<open>P\<close> the routine returns, in a state that satisfies \<open>P\<close>.\<close>

definition returns_on :: "('w \<Rightarrow> bool) \<Rightarrow> ('w, 'a) io \<Rightarrow> bool" where
  "returns_on P m \<longleftrightarrow> (\<forall>w. P w \<longrightarrow> (\<exists>r w'. m w = Some (r, w') \<and> P w'))"

named_theorems total_rules \<open>routines that return\<close>

lemma returns_onE:
  assumes "returns_on P m" and "P w"
  obtains r w' where "m w = Some (r, w')" and "P w'"
  using assms unfolding returns_on_def by blast

lemma returns_bind [total_rules]:
  assumes "returns_on P m" and "\<And>x. returns_on P (f x)"
  shows "returns_on P (mbind m f)"
  unfolding returns_on_def
proof (intro allI impI)
  fix w assume "P w"
  with assms(1) obtain r w' where "m w = Some (r, w')" "P w'" by (rule returns_onE)
  moreover have "\<exists>r w2. f x w' = Some (r, w2) \<and> P w2" for x using assms(2) \<open>P w'\<close> by (simp add: returns_on_def)
  ultimately show "\<exists>r w'. mbind m f w = Some (r, w') \<and> P w'" by (cases r) (auto simp: mbind_def)
qed

lemma returns_catch [total_rules]:
  assumes "returns_on P m" and "\<And>x. returns_on P (k x)" and "\<And>x. returns_on P (f x)"
  shows "returns_on P (mcatch m k f)"
  unfolding returns_on_def
proof (intro allI impI)
  fix w assume "P w"
  with assms(1) obtain r w' where "m w = Some (r, w')" "P w'" by (rule returns_onE)
  moreover have "\<exists>r w2. f x w' = Some (r, w2) \<and> P w2" "\<exists>r w2. k y w' = Some (r, w2) \<and> P w2" for x y
    using assms(2,3) \<open>P w'\<close> by (simp_all add: returns_on_def)
  ultimately show "\<exists>r w'. mcatch m k f w = Some (r, w') \<and> P w'" by (cases r) (auto simp: mcatch_def)
qed

lemma returns_ignore [total_rules]: "returns_on P m \<Longrightarrow> returns_on P k \<Longrightarrow> returns_on P (mignore m k)"
  unfolding mignore_def by (intro total_rules)

lemma returns_basic [total_rules]:
  "returns_on P (mret x)" "returns_on P (mfail err)" "returns_on P (mget g)"
  by (simp_all add: returns_on_def mret_def mfail_def mget_def)

lemma returns_upd [total_rules]: "(\<And>w. P w \<Longrightarrow> P (g w)) \<Longrightarrow> returns_on P (mupd g)"
  by (simp add: returns_on_def mupd_def)

lemma returns_when [total_rules]: "returns_on P m \<Longrightarrow> returns_on P (mwhen b m)"
  by (simp add: mwhen_def returns_basic)

lemma returns_if [total_rules]: "returns_on P m \<Longrightarrow> returns_on P k \<Longrightarrow> returns_on P (if b then m else k)"
  by simp

lemma returns_prod [total_rules]: "(\<And>a b. returns_on P (f a b)) \<Longrightarrow> returns_on P (case x of (a, b) \<Rightarrow> f a b)"
  by (cases x) simp

lemma returns_get_s [total_rules]: "returns_on P (mget_s g)"
  by (simp add: mget_s_def returns_basic)

section \<open>The MAC driver\<close>

definition ready_at :: "mac_event list \<Rightarrow> mac_state \<times> 'e \<Rightarrow> bool" where
  "ready_at ev w \<longleftrightarrow> can_access (fst w) \<and> s_events (fst w) = ev"

lemma ready_atI: "can_access s' \<Longrightarrow> scratch s' = scratch s \<Longrightarrow> ready_at ev (s, e) \<Longrightarrow> ready_at ev (s', e')"
  using scratch_fields(11) [of s' s] by (simp add: ready_at_def)

lemma returns_upd_s [total_rules]:
  "(\<And>s. can_access s \<Longrightarrow> can_access (g s) \<and> s_events (g s) = s_events s) \<Longrightarrow> returns_on (ready_at ev) (mupd_s g)"
  unfolding mupd_s_def by (rule returns_upd) (auto simp: ready_at_def)

lemma returns_read [total_rules]:
  assumes "spi_answers h"
  shows "returns_on (ready_at ev) (MAC_ReadRegister h a)"
  unfolding returns_on_def
proof (intro allI impI)
  fix w :: "mac_state \<times> 'a" assume w: "ready_at ev w"
  obtain s e where se: "w = (s, e)" by (rule prod.exhaust)
  have "can_access s" using w by (simp add: ready_at_def se)
  then obtain r s' e' where r: "MAC_ReadRegister h a (s, e) = Some (r, s', e')" "can_access s'" "scratch s' = scratch s"
    using register_read [OF assms, of s a e] by metis
  show "\<exists>r w'. MAC_ReadRegister h a w = Some (r, w') \<and> ready_at ev w'"
    by (intro exI conjI) (simp only: se, rule r(1), rule ready_atI [OF r(2,3) w [unfolded se]])
qed

lemma returns_write [total_rules]:
  assumes "spi_answers h"
  shows "returns_on (ready_at ev) (MAC_WriteRegister h a v)"
  unfolding returns_on_def
proof (intro allI impI)
  fix w :: "mac_state \<times> 'a" assume w: "ready_at ev w"
  obtain s e where se: "w = (s, e)" by (rule prod.exhaust)
  have "can_access s" using w by (simp add: ready_at_def se)
  then obtain r s' e' where r: "MAC_WriteRegister h a v (s, e) = Some (r, s', e')" "can_access s'" "scratch s' = scratch s"
    using register_write_returns [OF assms, of s a v e] by metis
  show "\<exists>r w'. MAC_WriteRegister h a v w = Some (r, w') \<and> ready_at ev w'"
    by (intro exI conjI) (simp only: se, rule r(1), rule ready_atI [OF r(2,3) w [unfolded se]])
qed

text \<open>Reading into a word given beforehand is reading with the word in the caller's place.\<close>

lemma read_into_cell: "MAC_ReadRegister_into h a old (s, e) = MAC_ReadRegister h a (s\<lparr>s_regCell := old\<rparr>, e)"
  by (simp add: MAC_ReadRegister_def MAC_ReadRegister_into_def Let_def)

lemma returns_read_into [total_rules]:
  assumes "spi_answers h"
  shows "returns_on (ready_at ev) (MAC_ReadRegister_into h a old)"
  unfolding returns_on_def
proof (intro allI impI)
  fix w :: "mac_state \<times> 'a" assume w: "ready_at ev w"
  obtain s e where se: "w = (s, e)" by (rule prod.exhaust)
  have "ready_at ev (s\<lparr>s_regCell := old\<rparr>, e)" using w by (simp add: ready_at_def se can_access_def)
  with returns_read [OF assms] show "\<exists>r w'. MAC_ReadRegister_into h a old w = Some (r, w') \<and> ready_at ev w'"
    unfolding se read_into_cell by (rule returns_onE) blast
qed

lemma returns_mdio_poll [total_rules]:
  assumes "spi_answers h"
  shows "returns_on (ready_at ev) (mdio_poll h a n)"
proof (induction n)
  case 0
  show ?case by (subst mdio_poll.simps) (intro total_rules assms, simp only: nat.case returns_basic)
next
  case (Suc n)
  show ?case by (subst mdio_poll.simps) (intro total_rules assms, simp only: nat.case Suc)
qed

lemma returns_phy_read [total_rules]:
  assumes "spi_answers h"
  shows "returns_on (ready_at ev) (MAC_PhyRead_into h hw a old)" "returns_on (ready_at ev) (MAC_PhyRead h hw a)"
  unfolding MAC_PhyRead_def MAC_PhyRead_into_def waitMdioReady_def Let_def by (intro total_rules assms)+

lemma returns_phy_write [total_rules]:
  assumes "spi_answers h"
  shows "returns_on (ready_at ev) (MAC_PhyWrite h hw a v)"
  unfolding MAC_PhyWrite_def waitMdioReady_def Let_def by (intro total_rules assms)

lemma poll_phyid_returns:
  assumes "spi_answers h"
  shows "ready_at ev w \<Longrightarrow> \<exists>x w'. poll_phyid h n w = Some (x, w') \<and> ready_at ev w'"
proof (induction n arbitrary: w)
  case (Suc n)
  obtain r w1 where "MAC_ReadRegister h ADDR_MAC_PHYID w = Some (r, w1)" "ready_at ev w1"
    by (rule returns_onE [OF returns_read [OF assms] Suc.prems])
  with Suc.IH [of w1] show ?case
    by (cases "r = Inr RSTVAL_MAC_PHYID") (auto simp del: split_paired_Ex)
qed (simp del: split_paired_Ex)

lemma poll_resetc_returns:
  assumes "spi_answers h"
  shows "ready_at ev w \<Longrightarrow> \<exists>x w'. poll_resetc h n w = Some (x, w') \<and> ready_at ev w'"
proof (induction n arbitrary: w)
  case (Suc n)
  obtain r w1 where r: "MAC_ReadRegister h ADDR_MAC_STATUS0 w = Some (r, w1)" "ready_at ev w1"
    by (rule returns_onE [OF returns_read [OF assms] Suc.prems])
  obtain r2 w2 where "MAC_WriteRegister h ADDR_MAC_STATUS0 BITM_MAC_STATUS0_RESETC w1 = Some (r2, w2)" "ready_at ev w2"
    by (rule returns_onE [OF returns_write [OF assms] r(2)])
  with r Suc.IH [of w1] show ?case by (cases r) (auto simp del: split_paired_Ex)
qed (simp del: split_paired_Ex)

lemma returns_wait [total_rules]:
  assumes "spi_answers h"
  shows "returns_on (ready_at ev) (waitDeviceReady h)"
  unfolding returns_on_def
proof (intro allI impI)
  fix w :: "mac_state \<times> 'a" assume "ready_at ev w"
  then obtain ok left w1 where 1: "poll_phyid h ADI_MAC_INIT_MAX_RETRIES w = Some ((ok, left), w1)" "ready_at ev w1"
    using poll_phyid_returns [OF assms, of ev w ADI_MAC_INIT_MAX_RETRIES] by auto
  then obtain rd r w2 where 2: "poll_resetc h left w1 = Some ((rd, r), w2)" "ready_at ev w2"
    using poll_resetc_returns [OF assms, of ev w1 left] by auto
  show "\<exists>r w'. waitDeviceReady h w = Some (r, w') \<and> ready_at ev w'"
    using 1 2 by (cases ok) (auto simp: waitDeviceReady_def simp del: split_paired_Ex)
qed

lemma returns_reset_request [total_rules]:
  "spi_answers h \<Longrightarrow> returns_on (ready_at ev) (reset_request h ty)"
  unfolding reset_request_def by (cases ty) (auto intro!: total_rules)

lemma returns_reset_attempts [total_rules]:
  assumes "spi_answers h"
  shows "returns_on (ready_at ev) (reset_attempts h ty n)"
proof (induction n)
  case 0
  show ?case by (subst reset_attempts.simps) (intro total_rules assms, simp only: nat.case returns_basic)
next
  case (Suc n)
  show ?case by (subst reset_attempts.simps) (intro total_rules assms, simp only: nat.case Suc)
qed

lemma returns_mac_reset [total_rules]:
  assumes "spi_answers h"
  shows "returns_on (ready_at ev) (MAC_Reset h ty)"
  unfolding MAC_Reset_def macInit_def Let_def by (intro total_rules assms; simp)

section \<open>The PHY driver over the MAC driver\<close>

definition phy_ready_at :: "mac_event list \<Rightarrow> adi_phy_Device_t \<times> mac_state \<times> 'e \<Rightarrow> bool" where
  "phy_ready_at ev w \<longleftrightarrow> ready_at ev (snd w)"

lemma ready_at_irq [simp]: "ready_at ev (s\<lparr>s_irqEnabled := b\<rparr>, e) = ready_at ev (s, e)"
  by (simp add: ready_at_def)

lemma returns_phy_access [total_rules]:
  assumes "spi_answers h"
  shows "returns_on (phy_ready_at ev) (PHY_Write (mac_bus h) a v)"
    and "returns_on (phy_ready_at ev) (PHY_Read_into (mac_bus h) a old)"
proof -
  have w: "\<exists>r w'. MAC_PhyWrite h hw a v (s, e) = Some (r, w') \<and> ready_at ev w'"
    and r: "\<exists>r w'. MAC_PhyRead_into h hw a old (s, e) = Some (r, w') \<and> ready_at ev w'" if "ready_at ev (s, e)" for hw s e
    using returns_phy_write [OF assms] returns_phy_read(1) [OF assms] that unfolding returns_on_def by blast+
  show "returns_on (phy_ready_at ev) (PHY_Write (mac_bus h) a v)"
    unfolding returns_on_def
  proof (intro allI impI)
    fix dw :: "adi_phy_Device_t \<times> mac_state \<times> 'a" assume p: "phy_ready_at ev dw"
    obtain d s e where dw: "dw = (d, s, e)" by (cases dw) auto
    obtain r s' e' where x: "MAC_PhyWrite h (ucast (ph_phyAddr d)) a v (s\<lparr>s_irqEnabled := False\<rparr>, e) = Some (r, s', e')"
      "ready_at ev (s', e')"
      using w [of "s\<lparr>s_irqEnabled := False\<rparr>" e "ucast (ph_phyAddr d)"] p by (auto simp: dw phy_ready_at_def)
    then show "\<exists>r w'. PHY_Write (mac_bus h) a v dw = Some (r, w') \<and> phy_ready_at ev w'"
      by (simp add: dw PHY_Write_def mac_bus_def PhyWrite_def Let_def phy_ready_at_def)
  qed
  show "returns_on (phy_ready_at ev) (PHY_Read_into (mac_bus h) a old)"
    unfolding returns_on_def
  proof (intro allI impI)
    fix dw :: "adi_phy_Device_t \<times> mac_state \<times> 'a" assume p: "phy_ready_at ev dw"
    obtain d s e where dw: "dw = (d, s, e)" by (cases dw) auto
    obtain r s' e' where x: "MAC_PhyRead_into h (ucast (ph_phyAddr d)) a old (s\<lparr>s_irqEnabled := False\<rparr>, e) = Some (r, s', e')"
      "ready_at ev (s', e')"
      using r [of "s\<lparr>s_irqEnabled := False\<rparr>" e "ucast (ph_phyAddr d)"] p by (auto simp: dw phy_ready_at_def)
    obtain c y where "(case r of Inl err \<Rightarrow> (err, old) | Inr x \<Rightarrow> x) = (c, y)" by (rule prod.exhaust)
    with x show "\<exists>r w'. PHY_Read_into (mac_bus h) a old dw = Some (r, w') \<and> phy_ready_at ev w'"
      by (simp add: dw PHY_Read_into_def mac_bus_def PhyRead_def Let_def phy_ready_at_def)
  qed
qed

lemma returns_phy_read_reg [total_rules]:
  "spi_answers h \<Longrightarrow> returns_on (phy_ready_at ev) (PHY_Read (mac_bus h) a)"
  unfolding PHY_Read_def by (intro total_rules)

lemma returns_phy_state [total_rules]:
  "returns_on (phy_ready_at ev) (phy_get f)" "returns_on (phy_ready_at ev) (phy_upd g)"
  unfolding phy_get_def phy_upd_def by (auto intro!: total_rules simp: phy_ready_at_def)

lemma returns_unless_pending [total_rules]:
  "returns_on (phy_ready_at ev) m \<Longrightarrow> returns_on (phy_ready_at ev) (unless_pending m)"
  unfolding unless_pending_def by (intro total_rules)

lemma returns_powerdown [total_rules]:
  "spi_answers h \<Longrightarrow> returns_on (phy_ready_at ev) (PHY_GetSoftwarePowerdown (mac_bus h))"
  unfolding PHY_GetSoftwarePowerdown_def by (intro total_rules)

lemma returns_pd_poll [total_rules]:
  assumes "spi_answers h"
  shows "returns_on (phy_ready_at ev) (pd_poll (mac_bus h) n)"
proof (induction n)
  case (Suc n)
  then show ?case unfolding pd_poll.simps by (intro total_rules assms)
qed (simp add: returns_basic)

lemma returns_write_list [total_rules]:
  assumes "spi_answers h"
  shows "returns_on (phy_ready_at ev) (write_list (mac_bus h) ws)"
proof (induction ws)
  case (Cons x ws)
  then show ?case by (cases x) (simp only: write_list.simps, intro total_rules assms)
qed (simp add: returns_basic)

lemma returns_phy_init [total_rules]:
  assumes "spi_answers h"
  shows "returns_on (phy_ready_at ev) (PHY_Init (mac_bus h) sz mem addr irq)"
proof -
  have u: "returns_on (phy_ready_at ev) (mupd (\<lambda>(d, w). (f d, pb_setIrq (mac_bus h) b w)))"
    "returns_on (phy_ready_at ev) (mupd (\<lambda>(d, w). (d, pb_registerCallback (mac_bus h) w)))" for f b
    by (rule returns_upd, auto simp: phy_ready_at_def mac_bus_def)+
  show ?thesis
    unfolding PHY_Init_def phyInit_def checkIdentity_def write_irqMask_def phyStaticConfig_def PHY_AnEnable_def
    by (intro total_rules u assms)
qed

section \<open>The switch driver\<close>

definition adin_ready_at :: "adin2111_dev \<times> mac_state \<times> 'e \<Rightarrow> bool" where
  "adin_ready_at w \<longleftrightarrow> can_access (fst (snd w))"

lemma returns_on_mac [total_rules]:
  assumes "\<And>ev. returns_on (ready_at ev) m"
  shows "returns_on adin_ready_at (on_mac m)"
  unfolding returns_on_def
proof (intro allI impI)
  fix w :: "adin2111_dev \<times> mac_state \<times> 'a" assume p: "adin_ready_at w"
  obtain a s e where w: "w = (a, s, e)" by (cases w) auto
  have "ready_at (s_events s) (s, e)" using p by (simp add: w adin_ready_at_def ready_at_def)
  then obtain r s' e' where "m (s, e) = Some (r, s', e')" "ready_at (s_events s) (s', e')"
    using assms [of "s_events s"] by (auto elim: returns_onE)
  then show "\<exists>r w'. on_mac m w = Some (r, w') \<and> adin_ready_at w'"
    by (simp add: w on_mac_def ready_at_def absorb_def adin_ready_at_def)
qed

lemma returns_on_phy [total_rules]:
  assumes "port < 2" and "\<And>ev. returns_on (phy_ready_at ev) m"
  shows "returns_on adin_ready_at (on_phy port m)"
  unfolding returns_on_def
proof (intro allI impI)
  fix w :: "adin2111_dev \<times> mac_state \<times> 'a" assume p: "adin_ready_at w"
  obtain a s e where w: "w = (a, s, e)" by (cases w) auto
  have "\<exists>d. phy_of port a = Some d" using assms(1) by (cases "port = 0") (auto simp: phy_of_def adin_ports)
  then obtain d where d: "phy_of port a = Some d" ..
  have "phy_ready_at (s_events s) (d, s, e)" using p by (simp add: w adin_ready_at_def ready_at_def phy_ready_at_def)
  then obtain r d' s' e' where "m (d, s, e) = Some (r, d', s', e')" "phy_ready_at (s_events s) (d', s', e')"
    using assms(2) [of "s_events s"] by (auto elim: returns_onE)
  with d show "\<exists>r w'. on_phy port m w = Some (r, w') \<and> adin_ready_at w'"
    by (simp add: w on_phy_def ready_at_def phy_ready_at_def absorb_def adin_ready_at_def)
qed

lemma returns_ad_state [total_rules]:
  "returns_on adin_ready_at (ad_get f)" "returns_on adin_ready_at (ad_upd g)"
  unfolding ad_get_def ad_upd_def by (auto intro!: total_rules simp: adin_ready_at_def)

lemma returns_with_port [total_rules]:
  "returns_on P m \<Longrightarrow> returns_on P (with_port port m)"
  by (simp add: with_port_def returns_basic)

lemma returns_phy2_powerup [total_rules]:
  assumes "spi_answers h"
  shows "returns_on (ready_at ev) (phy2_powerup h n)"
proof (induction n)
  case (Suc n)
  show ?case unfolding phy2_powerup.simps by (intro total_rules assms Suc)
qed (simp add: returns_basic)

lemma returns_adin_registers [total_rules]:
  assumes "spi_answers h"
  shows "returns_on adin_ready_at (adin2111_WriteRegister h x v)" "returns_on adin_ready_at (adin2111_ReadRegister h x)"
    "returns_on adin_ready_at (adin2111_PhyRead h port x)" "returns_on adin_ready_at (adin2111_PhyWrite h port x u)"
  unfolding adin2111_WriteRegister_def adin2111_ReadRegister_def adin2111_PhyRead_def adin2111_PhyWrite_def
  by (intro total_rules assms)+

lemma returns_register_callback [total_rules]:
  assumes "spi_answers h"
  shows "returns_on (ready_at ev) (MAC_RegisterCallback h cb event p)"
  unfolding MAC_RegisterCallback_def write_irq_masks_def by (intro total_rules assms; simp)

lemma ports_valid: "ADIN2111_PORT_1 < 2" "ADIN2111_PORT_2 < 2"
  by (simp_all add: adin_ports)

text \<open>The part of the initialisation behind that of the MAC driver.\<close>

lemma mac_device_ready: "can_access (macDeviceInit fcs s)" "s_events (macDeviceInit fcs s) = s_events s"
  by (simp_all add: macDeviceInit_def device_init_def can_access_def)

lemma mac_init_returns:
  assumes "spi_answers h"
  shows "\<exists>r s' e'. MAC_Init h sz mem fcs (s, e) = Some (r, s', e') \<and> s_events s' = s_events s \<and>
     (r = Inr () \<longrightarrow> can_access s')"
proof (cases "mem < sz")
  case False
  let ?d = "macDeviceInit fcs (s\<lparr>s_irqEnabled := False\<rparr>)"
  have "ready_at (s_events s) (?d, e)" by (simp add: ready_at_def mac_device_ready)
  then obtain r s1 e1 where 1: "MAC_Reset h ADI_ETH_RESET_TYPE_MAC_PHY (?d, e) = Some (r, s1, e1)" "ready_at (s_events s) (s1, e1)"
    using returns_mac_reset [OF assms, of "s_events s" ADI_ETH_RESET_TYPE_MAC_PHY] by (auto elim: returns_onE)
  have ev: "s_events s1 = s_events s" and acc: "can_access s1" using 1(2) by (simp_all add: ready_at_def)
  show ?thesis
  proof (cases r)
    case (Inl err)
    then show ?thesis using 1(1) False ev by (simp add: MAC_Init_def mbind_def mupd_s_def mupd_def)
  next
    case (Inr u)
    then show ?thesis using 1(1) False ev acc by (simp add: MAC_Init_def mbind_def mupd_s_def mupd_def can_access_def)
  qed
qed (simp add: MAC_Init_def mfail_def)

lemma bind_returns:
  assumes "m w = Some (r, w')" and "\<And>x. r = Inr x \<Longrightarrow> \<exists>y. f x w' = Some y"
  shows "\<exists>y. mbind m f w = Some y"
  using assms by (cases r) (auto simp: mbind_def)

lemma returns_run:
  assumes "returns_on P m" and "P w"
  shows "\<exists>y. m w = Some y"
  using assms by (auto simp: returns_on_def)

text \<open>
  C11: the initialisation of the switch always returns, from every state of driver and device and
  whatever the device answers: every retry loop of the MAC driver and of the two PHY drivers it
  runs through is bounded.
\<close>

theorem switch_init_returns:
  assumes "spi_answers h"
  shows "\<exists>r a' s' e'. adin2111_Init h sz mem fcs tp cp (a, s, e) = Some (r, a', s', e')"
proof (cases "mem < sz_ADIN2111_DEVICE_SIZE sz")
  case False
  let ?a = "a\<lparr>ad_tsTimerPin := tp, ad_tsCaptPin := cp\<rparr>"
  obtain r0 s0 e0 where 0: "MAC_Init h (sz_mac sz) (sz_ADI_MAC_DEVICE_SIZE sz) fcs (s, e) = Some (r0, s0, e0)"
    "s_events s0 = s_events s" "r0 = Inr () \<longrightarrow> can_access s0"
    using mac_init_returns [OF assms] by blast
  have on: "on_mac (MAC_Init h (sz_mac sz) (sz_ADI_MAC_DEVICE_SIZE sz) fcs) (?a, s, e) = Some (r0, ?a, s0, e0)"
    using 0(1,2) by (simp add: on_mac_def absorb_def)
  have ready: "adin_ready_at (b, s0, e0)" if "r0 = Inr ()" for b using 0(3) that by (simp add: adin_ready_at_def)
  have "\<exists>y. adin2111_Init h sz mem fcs tp cp (a, s, e) = Some y"
    unfolding adin2111_Init_def if_not_P [OF False] unmask_irq_def configureTsPins_def Let_def
    by (rule bind_returns, simp only: ad_upd_def mupd_def prod.case, rule bind_returns, rule on,
        rule returns_run [where P = adin_ready_at], (intro total_rules assms ports_valid; simp), rule ready, simp)
  then show ?thesis by auto
qed (simp add: adin2111_Init_def mfail_def)

theorem switch_init_returns_witness:
  "\<forall>tab d. \<exists>r a' s' e'. adin2111_Init mute_hal \<lparr>sz_ADIN2111_DEVICE_SIZE = 4000, sz_ADI_MAC_DEVICE_SIZE = 3000,
       sz_ADI_PHY_DEVICE_SIZE = 500, sz_mac = 2900, sz_phy = 100\<rparr> 4096 True 1 2
       (\<lparr>ad_phy1 = d, ad_phy2 = d, ad_table = tab, ad_portEnabled1 = True, ad_portEnabled2 = True, ad_tsTimerPin = 0, ad_tsCaptPin = 0\<rparr>,
        static_state (\<lambda>_. blank_desc), 0) = Some (r, a', s', e')"
  using switch_init_returns [OF mute_answers] by blast

end
