(* ===== verification/Mac_Waits.thy ===== *)
theory Mac_Waits
  imports Mac_Client
begin

text \<open>
  What the waiting loops of the MAC driver decide, and after how many reads, on a device that
  answers control transactions.
\<close>

section \<open>Bounded search\<close>

text \<open>The first of \<open>n\<close> attempts at which \<open>P\<close> holds is \<open>find P [0..<n]\<close>.\<close>

lemma find_upt_Suc:
  "find P [0..<Suc n] = (if P 0 then Some 0 else map_option Suc (find (\<lambda>k. P (Suc k)) [0..<n]))"
proof -
  have "find P (map Suc xs) = map_option Suc (find (\<lambda>k. P (Suc k)) xs)" for xs
    by (induction xs) auto
  moreover have "[0..<Suc n] = 0 # map Suc [0..<n]" by (simp add: map_Suc_upt upt_conv_Cons del: upt_Suc)
  ultimately show ?thesis by simp
qed

text \<open>Register \<open>a\<close> at the \<open>k\<close>-th of a series of reads of it.\<close>

definition nth_read :: "('e \<Rightarrow> u32 \<Rightarrow> u32) \<Rightarrow> (u32 \<Rightarrow> 'e \<Rightarrow> 'e) \<Rightarrow> u32 \<Rightarrow> 'e \<Rightarrow> nat \<Rightarrow> u32" where
  "nth_read reg on_read a e k = reg ((on_read a ^^ k) e) a"

lemma nth_read_Suc: "nth_read reg on_read a e (Suc k) = nth_read reg on_read a (on_read a e) k"
  by (simp only: nth_read_def funpow_Suc_right o_apply)

lemma nth_read_0: "nth_read reg on_read a e 0 = reg e a"
  by (simp add: nth_read_def)

section \<open>The loops\<close>

context oa_device
begin

lemma mdio_poll_outcome:
  assumes "U16 a = a"
  shows "case find (\<lambda>k. md_TRDONE (md_of_VALUE32 (nth_read reg on_read a e k))) [0..<Suc n] of
       None \<Rightarrow> mac_call (mdio_poll h a n) t e (Inl ADI_ETH_MDIO_TIMEOUT) t ((on_read a ^^ Suc n) e)
     | Some k \<Rightarrow> mac_call (mdio_poll h a n) t e (Inr ()) t ((on_read a ^^ Suc k) e)"
proof (induction n arbitrary: e)
  case 0
  have rd: "mac_call (MAC_ReadRegister h a) t e (Inr (reg e a)) t (on_read a e)"
    using read_register [of a t e] by (simp add: assms)
  show ?case
    by (subst (1 2) mdio_poll.simps)
      (auto simp: find_upt_Suc nth_read_0 simp del: upt_Suc mdio_poll.simps intro!: mac_call_catch [OF rd] mac_call_ret mac_call_fail)
next
  case (Suc n)
  have rd: "mac_call (MAC_ReadRegister h a) t e (Inr (reg e a)) t (on_read a e)"
    using read_register [of a t e] by (simp add: assms)
  show ?case
  proof (cases "md_TRDONE (md_of_VALUE32 (reg e a))")
    case True
    then show ?thesis
      by (subst (1 2) mdio_poll.simps)
        (auto simp: find_upt_Suc [of _ "Suc n"] nth_read_0 simp del: upt_Suc mdio_poll.simps
          intro!: mac_call_catch [OF rd] mac_call_ret)
  next
    case False
    have step: "mac_call (mdio_poll h a (Suc n)) t e r t e'" if "mac_call (mdio_poll h a n) t (on_read a e) r t e'" for r e'
      by (subst mdio_poll.simps) (rule mac_call_catch [OF rd], simp only: False if_False nat.case that)
    show ?thesis
      using Suc [of "on_read a e"] step
      unfolding find_upt_Suc [of _ "Suc n"] nth_read_0 nth_read_Suc funpow_Suc_right [of "Suc n"] o_apply
      by (auto simp: False funpow_swap1 split: option.splits simp del: upt_Suc mdio_poll.simps)
  qed
qed

lemma poll_phyid_outcome:
  assumes "can_access s" and "scratch s = scratch t"
  shows "\<exists>s'. poll_phyid h n (s, e) = Some
       (case find (\<lambda>k. nth_read reg on_read ADDR_MAC_PHYID e k = RSTVAL_MAC_PHYID) [0..<n] of
          None \<Rightarrow> ((False, 0), s', (on_read ADDR_MAC_PHYID ^^ n) e)
        | Some k \<Rightarrow> ((True, n - Suc k), s', (on_read ADDR_MAC_PHYID ^^ Suc k) e)) \<and>
     can_access s' \<and> scratch s' = scratch t"
  using assms
proof (induction n arbitrary: s e)
  case (Suc n)
  have u: "U16 ADDR_MAC_PHYID = ADDR_MAC_PHYID" by (simp add: U16_def mac_regs)
  obtain s1 where 1: "MAC_ReadRegister h ADDR_MAC_PHYID (s, e) = Some (Inr (reg e ADDR_MAC_PHYID), s1, on_read ADDR_MAC_PHYID e)"
    "can_access s1" "scratch s1 = scratch t"
    using mac_callE [OF read_register [of ADDR_MAC_PHYID t e] Suc.prems] unfolding u by blast
  show ?case
  proof (cases "reg e ADDR_MAC_PHYID = RSTVAL_MAC_PHYID")
    case True
    with 1 show ?thesis by (auto simp: find_upt_Suc nth_read_0 simp del: upt_Suc)
  next
    case False
    obtain s2 where "poll_phyid h n (s1, on_read ADDR_MAC_PHYID e) = Some
       (case find (\<lambda>k. nth_read reg on_read ADDR_MAC_PHYID e (Suc k) = RSTVAL_MAC_PHYID) [0..<n] of
          None \<Rightarrow> ((False, 0), s2, (on_read ADDR_MAC_PHYID ^^ Suc n) e)
        | Some k \<Rightarrow> ((True, n - Suc k), s2, (on_read ADDR_MAC_PHYID ^^ Suc (Suc k)) e))"
      "can_access s2" "scratch s2 = scratch t"
      using Suc.IH [OF 1(2,3), of "on_read ADDR_MAC_PHYID e"]
      unfolding nth_read_Suc funpow_Suc_right o_apply by blast
    with 1(1) False show ?thesis
      by (intro exI [of _ s2]) (auto simp: find_upt_Suc nth_read_0 simp del: upt_Suc funpow.simps split: option.splits)
  qed
qed auto

lemma poll_resetc_outcome:
  assumes "can_access s" and "scratch s = scratch t"
  shows "\<exists>s'. poll_resetc h n (s, e) = Some
       (case find (\<lambda>k. nth_read reg on_read ADDR_MAC_STATUS0 e k AND BITM_MAC_STATUS0_RESETC = BITM_MAC_STATUS0_RESETC) [0..<n] of
          None \<Rightarrow> ((False, Inr ()), s', (on_read ADDR_MAC_STATUS0 ^^ n) e)
        | Some k \<Rightarrow> ((True, Inr ()), s', on_write ADDR_MAC_STATUS0 BITM_MAC_STATUS0_RESETC ((on_read ADDR_MAC_STATUS0 ^^ Suc k) e))) \<and>
     can_access s' \<and> scratch s' = scratch t"
  using assms
proof (induction n arbitrary: s e)
  case (Suc n)
  have u: "U16 ADDR_MAC_STATUS0 = ADDR_MAC_STATUS0" by (simp add: U16_def mac_regs)
  obtain s1 where 1: "MAC_ReadRegister h ADDR_MAC_STATUS0 (s, e) = Some (Inr (reg e ADDR_MAC_STATUS0), s1, on_read ADDR_MAC_STATUS0 e)"
    "can_access s1" "scratch s1 = scratch t"
    using mac_callE [OF read_register [of ADDR_MAC_STATUS0 t e] Suc.prems] unfolding u by blast
  show ?case
  proof (cases "reg e ADDR_MAC_STATUS0 AND BITM_MAC_STATUS0_RESETC = BITM_MAC_STATUS0_RESETC")
    case True
    obtain s2 where "MAC_WriteRegister h ADDR_MAC_STATUS0 BITM_MAC_STATUS0_RESETC (s1, on_read ADDR_MAC_STATUS0 e) =
        Some (Inr (), s2, on_write ADDR_MAC_STATUS0 BITM_MAC_STATUS0_RESETC (on_read ADDR_MAC_STATUS0 e))"
      "can_access s2" "scratch s2 = scratch t"
      using mac_callE [OF write_register [of ADDR_MAC_STATUS0 BITM_MAC_STATUS0_RESETC t] 1(2,3)] unfolding u by blast
    with 1 True show ?thesis by (auto simp: find_upt_Suc nth_read_0 simp del: upt_Suc)
  next
    case False
    obtain s2 where "poll_resetc h n (s1, on_read ADDR_MAC_STATUS0 e) = Some
       (case find (\<lambda>k. nth_read reg on_read ADDR_MAC_STATUS0 e (Suc k) AND BITM_MAC_STATUS0_RESETC = BITM_MAC_STATUS0_RESETC) [0..<n] of
          None \<Rightarrow> ((False, Inr ()), s2, (on_read ADDR_MAC_STATUS0 ^^ Suc n) e)
        | Some k \<Rightarrow> ((True, Inr ()), s2, on_write ADDR_MAC_STATUS0 BITM_MAC_STATUS0_RESETC ((on_read ADDR_MAC_STATUS0 ^^ Suc (Suc k)) e)))"
      "can_access s2" "scratch s2 = scratch t"
      using Suc.IH [OF 1(2,3), of "on_read ADDR_MAC_STATUS0 e"]
      unfolding nth_read_Suc funpow_Suc_right o_apply by blast
    with 1(1) False show ?thesis
      by (intro exI [of _ s2]) (auto simp: find_upt_Suc nth_read_0 simp del: upt_Suc funpow.simps split: option.splits)
  qed
qed auto

lemma wait_ready_outcome:
  "case find (\<lambda>k. nth_read reg on_read ADDR_MAC_PHYID e k = RSTVAL_MAC_PHYID) [0..<ADI_MAC_INIT_MAX_RETRIES] of
     None \<Rightarrow> mac_call (waitDeviceReady h) t e (Inl ADI_ETH_COMM_TIMEOUT) t ((on_read ADDR_MAC_PHYID ^^ ADI_MAC_INIT_MAX_RETRIES) e)
   | Some k \<Rightarrow> let e1 = (on_read ADDR_MAC_PHYID ^^ Suc k) e; n = ADI_MAC_INIT_MAX_RETRIES - Suc k in
      (case find (\<lambda>k. nth_read reg on_read ADDR_MAC_STATUS0 e1 k AND BITM_MAC_STATUS0_RESETC = BITM_MAC_STATUS0_RESETC) [0..<n] of
         None \<Rightarrow> mac_call (waitDeviceReady h) t e (Inl ADI_ETH_SW_RESET_TIMEOUT) t ((on_read ADDR_MAC_STATUS0 ^^ n) e1)
       | Some j \<Rightarrow> mac_call (waitDeviceReady h) t e (Inr ()) t
           (on_write ADDR_MAC_STATUS0 BITM_MAC_STATUS0_RESETC ((on_read ADDR_MAC_STATUS0 ^^ Suc j) e1)))"
proof (cases "find (\<lambda>k. nth_read reg on_read ADDR_MAC_PHYID e k = RSTVAL_MAC_PHYID) [0..<ADI_MAC_INIT_MAX_RETRIES]")
  case None
  have "mac_call (waitDeviceReady h) t e (Inl ADI_ETH_COMM_TIMEOUT) t ((on_read ADDR_MAC_PHYID ^^ ADI_MAC_INIT_MAX_RETRIES) e)"
  proof (rule mac_callI)
    fix s assume s: "can_access s" "scratch s = scratch t"
    show "\<exists>s'. waitDeviceReady h (s, e) = Some (Inl ADI_ETH_COMM_TIMEOUT, s', (on_read ADDR_MAC_PHYID ^^ ADI_MAC_INIT_MAX_RETRIES) e) \<and>
        can_access s' \<and> scratch s' = scratch t"
      using poll_phyid_outcome [OF s, of ADI_MAC_INIT_MAX_RETRIES e] None by (auto simp: waitDeviceReady_def)
  qed
  then show ?thesis by (simp add: None)
next
  case (Some k)
  define e1 where "e1 = (on_read ADDR_MAC_PHYID ^^ Suc k) e"
  define n where "n = ADI_MAC_INIT_MAX_RETRIES - Suc k"
  define found where "found = find (\<lambda>k. nth_read reg on_read ADDR_MAC_STATUS0 e1 k AND BITM_MAC_STATUS0_RESETC = BITM_MAC_STATUS0_RESETC) [0..<n]"
  have run: "\<exists>s'. waitDeviceReady h (s, e) = Some
       (case found of None \<Rightarrow> (Inl ADI_ETH_SW_RESET_TIMEOUT, s', (on_read ADDR_MAC_STATUS0 ^^ n) e1)
        | Some j \<Rightarrow> (Inr (), s', on_write ADDR_MAC_STATUS0 BITM_MAC_STATUS0_RESETC ((on_read ADDR_MAC_STATUS0 ^^ Suc j) e1))) \<and>
      can_access s' \<and> scratch s' = scratch t" if s: "can_access s" "scratch s = scratch t" for s
  proof -
    obtain s1 where 1: "poll_phyid h ADI_MAC_INIT_MAX_RETRIES (s, e) = Some ((True, n), s1, e1)" "can_access s1" "scratch s1 = scratch t"
      using poll_phyid_outcome [OF s, of ADI_MAC_INIT_MAX_RETRIES e] unfolding Some option.case e1_def [symmetric] n_def [symmetric] by blast
    obtain s2 where "poll_resetc h n (s1, e1) = Some
       (case found of None \<Rightarrow> ((False, Inr ()), s2, (on_read ADDR_MAC_STATUS0 ^^ n) e1)
        | Some k \<Rightarrow> ((True, Inr ()), s2, on_write ADDR_MAC_STATUS0 BITM_MAC_STATUS0_RESETC ((on_read ADDR_MAC_STATUS0 ^^ Suc k) e1)))"
      "can_access s2" "scratch s2 = scratch t"
      using poll_resetc_outcome [OF 1(2,3), of n e1] unfolding found_def [symmetric] by blast
    with 1(1) show ?thesis
      by (intro exI [of _ s2]) (auto simp: waitDeviceReady_def split: option.splits simp del: funpow.simps)
  qed
  show ?thesis
    unfolding Some option.case Let_def e1_def [symmetric] n_def [symmetric] found_def [symmetric]
    using run by (cases found) (auto intro!: mac_callI)
qed

end

section \<open>The properties\<close>

text \<open>
  Waiting for an MDIO command takes at most eleven reads: it succeeds with the first of them
  that finds the command done and reports a timeout when none does.
\<close>

theorem mdio_wait_outcome:
  assumes "oa_device h reg on_read on_write" and "a \<in> mdio_regs"
  shows "case find (\<lambda>k. md_TRDONE (md_of_VALUE32 (nth_read reg on_read a e k))) [0..<11] of
       None \<Rightarrow> mac_call (waitMdioReady h a) t e (Inl ADI_ETH_MDIO_TIMEOUT) t ((on_read a ^^ 11) e)
     | Some k \<Rightarrow> mac_call (waitMdioReady h a) t e (Inr ()) t ((on_read a ^^ Suc k) e)"
proof -
  have u: "U16 a = a" using assms(2) by (auto simp: mdio_regs_def U16_def mac_regs)
  have n: "Suc ADI_MAC_MDIO_MAX_RETRIES = 11" by (simp add: ADI_MAC_MDIO_MAX_RETRIES_def)
  show ?thesis
    using oa_device.mdio_poll_outcome [OF assms(1) u, where e = e and n = ADI_MAC_MDIO_MAX_RETRIES and t = t] unfolding n waitMdioReady_def .
qed

text \<open>A device that echoes headers, reads as zeros and counts the accesses.\<close>

definition zero_xfer :: "bool \<Rightarrow> u8 list \<Rightarrow> nat \<Rightarrow> (u8 list \<times> nat) option" where
  "zero_xfer useDma tx n = Some (replicate 4 0 @ take 4 tx @ (if ch_WNR (ctrl_decode (take 4 tx)) then replicate 8 0
     else oaCtrlCmdWriteData [0]), Suc n)"

definition zero_hal :: "nat adi_hal" where
  "zero_hal = \<lparr>h_io_write = (\<lambda>_ n. n), h_xfer = zero_xfer\<rparr>"

interpretation zero: oa_device zero_hal "\<lambda>_ _. 0" "\<lambda>_. Suc" "\<lambda>_ _. Suc"
proof
  fix a :: u32 and tx :: "u8 list" and e :: nat
  assume "a < 0x10000" "length tx = 16" "take 4 tx = oaCtrlCmdHeader ADI_MAC_SPI_READ a 1"
  then show "\<exists>pre e1. length pre = 4 \<and>
      h_xfer zero_hal True tx (h_io_write zero_hal False e) = Some (pre @ take 4 tx @ oaCtrlCmdWriteData [0], e1) \<and>
      h_io_write zero_hal True e1 = Suc e"
    by (intro exI [of _ "replicate 4 0"] exI [of _ "Suc e"])
      (simp add: zero_hal_def zero_xfer_def ctrl_decode_header ADI_MAC_SPI_READ_def)
next
  fix a v :: u32 and tx :: "u8 list" and e :: nat
  assume a: "a < 0x10000" "length tx = 16"
    and tx: "take 12 tx = oaCtrlCmdHeader ADI_MAC_SPI_WRITE a 1 @ oaCtrlCmdWriteData [v]"
  have "take 4 (take 12 tx) = oaCtrlCmdHeader ADI_MAC_SPI_WRITE a 1" by (simp_all only: tx) simp_all
  then have "take 4 tx = oaCtrlCmdHeader ADI_MAC_SPI_WRITE a 1" by (simp add: min_def)
  with a show "\<exists>pre post e1. length pre = 4 \<and> length post = 8 \<and>
      h_xfer zero_hal True tx (h_io_write zero_hal False e) = Some (pre @ take 4 tx @ post, e1) \<and>
      h_io_write zero_hal True e1 = Suc e"
    by (intro exI [of _ "replicate 4 0"] exI [of _ "replicate 8 0"] exI [of _ "Suc e"])
      (simp add: zero_hal_def zero_xfer_def ctrl_decode_header ADI_MAC_SPI_WRITE_def)
qed

lemma find_upt_none: "(\<And>k. k < n \<Longrightarrow> \<not> P k) \<Longrightarrow> find P [0..<n] = None"
  by (simp add: find_None_iff)

lemma funpow_Suc_add: "(Suc ^^ n) k = n + k"
  by (induction n) simp_all

theorem mdio_wait_outcome_witness:
  "mac_call (waitMdioReady zero_hal ADDR_MAC_MDIOACC_1) (static_state (\<lambda>_. blank_desc)) 5 (Inl ADI_ETH_MDIO_TIMEOUT)
     (static_state (\<lambda>_. blank_desc)) 16"
proof -
  have "find (\<lambda>k. md_TRDONE (md_of_VALUE32 (nth_read (\<lambda>_ _. 0) (\<lambda>_. Suc) ADDR_MAC_MDIOACC_1 5 k))) [0..<11] = None"
    by (rule find_upt_none) (simp add: nth_read_def md_of_VALUE32_def)
  with mdio_wait_outcome [OF zero.oa_device_axioms, where a = ADDR_MAC_MDIOACC_1 and e = 5 and t = "static_state (\<lambda>_. blank_desc)"]
  show ?thesis by (simp add: mdio_regs_def funpow_Suc_add)
qed

text \<open>
  Waiting for the device takes at most 25000 reads of \<open>PHYID\<close> and \<open>STATUS0\<close> together.  It
  reports a communication timeout when no read of \<open>PHYID\<close> gives the identity of the device, a
  reset timeout when the reads left after that never find the reset complete, and otherwise
  acknowledges the reset at the first that does.
\<close>

theorem device_wait_outcome:
  assumes "oa_device h reg on_read on_write"
  shows "case find (\<lambda>k. nth_read reg on_read ADDR_MAC_PHYID e k = RSTVAL_MAC_PHYID) [0..<25000] of
     None \<Rightarrow> mac_call (waitDeviceReady h) t e (Inl ADI_ETH_COMM_TIMEOUT) t ((on_read ADDR_MAC_PHYID ^^ 25000) e)
   | Some k \<Rightarrow> let e1 = (on_read ADDR_MAC_PHYID ^^ Suc k) e; n = 25000 - Suc k in
      (case find (\<lambda>k. nth_read reg on_read ADDR_MAC_STATUS0 e1 k AND BITM_MAC_STATUS0_RESETC = BITM_MAC_STATUS0_RESETC) [0..<n] of
         None \<Rightarrow> mac_call (waitDeviceReady h) t e (Inl ADI_ETH_SW_RESET_TIMEOUT) t ((on_read ADDR_MAC_STATUS0 ^^ n) e1)
       | Some j \<Rightarrow> mac_call (waitDeviceReady h) t e (Inr ()) t
           (on_write ADDR_MAC_STATUS0 BITM_MAC_STATUS0_RESETC ((on_read ADDR_MAC_STATUS0 ^^ Suc j) e1)))"
  using oa_device.wait_ready_outcome [OF assms, where e = e and t = t] unfolding ADI_MAC_INIT_MAX_RETRIES_def .

theorem device_wait_outcome_witness:
  "mac_call (waitDeviceReady zero_hal) (static_state (\<lambda>_. blank_desc)) 1 (Inl ADI_ETH_COMM_TIMEOUT)
     (static_state (\<lambda>_. blank_desc)) 25001"
proof -
  have "find (\<lambda>k. nth_read (\<lambda>_ _. 0) (\<lambda>_. Suc) ADDR_MAC_PHYID 1 k = RSTVAL_MAC_PHYID) [0..<25000] = None"
    by (rule find_upt_none) (simp add: nth_read_def mac_regs)
  with device_wait_outcome [OF zero.oa_device_axioms, where e = 1 and t = "static_state (\<lambda>_. blank_desc)"]
  show ?thesis by (simp only: option.case funpow_Suc_add) simp
qed

text \<open>
  C27: a device that never identifies itself is given up: \<open>MAC_Init\<close> requests one reset, reads
  \<open>PHYID\<close> 25000 times, and reports a communication timeout.
\<close>

theorem init_gives_up:
  assumes "oa_device h reg on_read on_write" and "sizeofDevice \<le> devMemSize"
    and "e1 = on_write ADDR_MAC_RESET (push_bit BITP_MAC_RESET_SWRESET 1) e"
    and "\<And>k. k < 25000 \<Longrightarrow> nth_read reg on_read ADDR_MAC_PHYID e1 k \<noteq> RSTVAL_MAC_PHYID"
  shows "\<exists>s'. MAC_Init h sizeofDevice devMemSize fcsCheckEn (s, e) =
       Some (Inl ADI_ETH_COMM_TIMEOUT, s', (on_read ADDR_MAC_PHYID ^^ 25000) e1) \<and> \<not> s_irqEnabled s'"
proof -
  define d where "d = macDeviceInit fcsCheckEn (s\<lparr>s_irqEnabled := False\<rparr>)"
  have acc: "can_access d" and irq: "\<not> s_irqEnabled d" by (simp_all add: d_def macDeviceInit_def device_init_def can_access_def)
  have none: "find (\<lambda>k. nth_read reg on_read ADDR_MAC_PHYID e1 k = RSTVAL_MAC_PHYID) [0..<ADI_MAC_INIT_MAX_RETRIES] = None"
    by (rule find_upt_none) (use assms(4) in \<open>simp add: ADI_MAC_INIT_MAX_RETRIES_def\<close>)
  have wait: "mac_call (waitDeviceReady h) (d\<lparr>s_irqEnabled := False\<rparr>) e1 (Inl ADI_ETH_COMM_TIMEOUT) (d\<lparr>s_irqEnabled := False\<rparr>)
      ((on_read ADDR_MAC_PHYID ^^ ADI_MAC_INIT_MAX_RETRIES) e1)"
    using oa_device.wait_ready_outcome [OF assms(1), where e = e1 and t = "d\<lparr>s_irqEnabled := False\<rparr>"] unfolding none by simp
  have "mac_call (MAC_Reset h ADI_ETH_RESET_TYPE_MAC_PHY) d e (Inl ADI_ETH_COMM_TIMEOUT) (d\<lparr>s_irqEnabled := False\<rparr>)
      ((on_read ADDR_MAC_PHYID ^^ ADI_MAC_INIT_MAX_RETRIES) e1)"
    unfolding MAC_Reset_def
    by (rule mac_call_unless_uninitialized, rule then_upd, simp, simp, rule mac_call_bind,
        unfold assms(3), rule oa_device.reset_first_attempt [OF assms(1)], rule mac_call_bind_err, rule wait [unfolded assms(3)])
  then obtain s1 where s1: "MAC_Reset h ADI_ETH_RESET_TYPE_MAC_PHY (d, e) =
      Some (Inl ADI_ETH_COMM_TIMEOUT, s1, (on_read ADDR_MAC_PHYID ^^ ADI_MAC_INIT_MAX_RETRIES) e1)"
    "scratch s1 = scratch (d\<lparr>s_irqEnabled := False\<rparr>)"
    by (rule mac_callE [OF _ acc refl])
  have "MAC_Init h sizeofDevice devMemSize fcsCheckEn (s, e) =
      Some (Inl ADI_ETH_COMM_TIMEOUT, s1, (on_read ADDR_MAC_PHYID ^^ ADI_MAC_INIT_MAX_RETRIES) e1)"
    using assms(2) s1(1) by (simp add: MAC_Init_def mbind_def mupd_s_def mupd_def flip: d_def)
  with scratch_fields(10) [OF s1(2)] show ?thesis by (intro exI [of _ s1]) (simp add: ADI_MAC_INIT_MAX_RETRIES_def)
qed

theorem init_gives_up_witness:
  "\<exists>s'. MAC_Init zero_hal 1000 2000 True (static_state (\<lambda>_. blank_desc), 0) = Some (Inl ADI_ETH_COMM_TIMEOUT, s', 25001)"
proof -
  have "nth_read (\<lambda>_ _. 0) (\<lambda>_. Suc) ADDR_MAC_PHYID (Suc 0) k \<noteq> RSTVAL_MAC_PHYID" for k
    by (simp add: nth_read_def mac_regs)
  from init_gives_up [OF zero.oa_device_axioms _ refl this, of 1000 2000 True "static_state (\<lambda>_. blank_desc)"]
  show ?thesis by (simp only: funpow_Suc_add) auto
qed

end
