(* ===== verification/Oa_Link.thy ===== *)
theory Oa_Link
  imports Mac_Api
begin

text \<open>
  Both directions of the data path together, while the application, the driver and the
  device act in any order: the application submits frames and receive buffers and accesses
  registers at any time, the interrupt arrives at any time the driver is ready, and between
  two passes of the state machine an SPI transaction is under way.  \<open>link_step\<close> has one rule
  for every kind of step; the invariant of its reachable states ties what the device has
  decoded and what the application has been handed to what was submitted and sent.
\<close>

section \<open>What control transactions leave alone\<close>

definition data_view where
  "data_view s = (m_txQueue s, m_rxQueueLp s, m_oaTxCurBufByteOffset s, m_oaRxCurBufByteOffset s,
     m_oaTxCurBufIdx s, m_oaCps s, m_oaMaxChunkCount s, m_oaTrxSize s, m_oaTimestampSplit s,
     m_oaValidFlag s, m_oaRxUseBackupBuf s, m_fcsCheckEn s, s_bufs s, s_spiTxBuf s,
     length (s_spiRxBuf s), delivered (s_events s), length (m_ctrlTxBuf s))"

text \<open>A step that leaves the data path alone and starts no data transaction.\<close>

definition quiet :: "mac_state \<Rightarrow> oa_result option \<Rightarrow> bool" where
  "quiet s m \<longleftrightarrow> (\<forall>r t req. m = Some (r, t, req) \<longrightarrow>
     data_view t = data_view s \<and> m_state t \<noteq> ADI_MAC_STATE_DATA_END)"

lemma quiet_bind: "(\<And>x. m = Some x \<Longrightarrow> quiet s (f x)) \<Longrightarrow> quiet s (m \<bind> f)"
  by (cases m) (simp_all add: quiet_def)

lemma quiet_Some: "quiet s (Some (r, t, req)) \<longleftrightarrow>
    data_view t = data_view s \<and> m_state t \<noteq> ADI_MAC_STATE_DATA_END"
  by (simp add: quiet_def)

lemma quiet_with_result [simp]: "quiet s (with_result r m) = quiet s m"
  by (cases m) (auto simp: quiet_def with_result_def)

lemma quiet_trans: "data_view t = data_view s \<Longrightarrow> quiet t m \<Longrightarrow> quiet s m"
  by (simp add: quiet_def)

lemma data_view_upd [simp]:
  "data_view (s\<lparr>m_state := st\<rparr>) = data_view s" "data_view (s\<lparr>m_spiState := x\<rparr>) = data_view s"
  "data_view (s\<lparr>m_spiErr := b\<rparr>) = data_view s" "data_view (s\<lparr>m_wnr := w\<rparr>) = data_view s"
  "data_view (s\<lparr>m_regAddr := w\<rparr>) = data_view s" "data_view (s\<lparr>m_pRegData := p\<rparr>) = data_view s"
  "data_view (s\<lparr>m_cnt := n\<rparr>) = data_view s" "data_view (s\<lparr>m_statusRegisters := r\<rparr>) = data_view s"
  "data_view (s\<lparr>s_mdioCmd := w\<rparr>) = data_view s" "data_view (s\<lparr>s_regCell := w\<rparr>) = data_view s"
  "data_view (s\<lparr>s_irqEnabled := b\<rparr>) = data_view s" "data_view (s\<lparr>m_pendingCtrl := b\<rparr>) = data_view s"
  "data_view (s\<lparr>m_ctrlRxBuf := buf\<rparr>) = data_view s"
  "length buf = length (m_ctrlTxBuf s) \<Longrightarrow> data_view (s\<lparr>m_ctrlTxBuf := buf\<rparr>) = data_view s"
  "data_view (upd_p1 f s) = data_view s" "data_view (upd_p2 f s) = data_view s"
  by (simp_all add: data_view_def upd_p1_def upd_p2_def Let_def split: prod.split)

lemma state_upd [simp]: "m_state (upd_p1 f s) = m_state s" "m_state (upd_p2 f s) = m_state s"
  by (simp_all add: upd_p1_def upd_p2_def Let_def split: prod.split)

lemma data_view_setup:
  "ctrl_setup wnr a len s = Some (r, len', t) \<Longrightarrow> data_view t = data_view s \<and> m_state t = m_state s"
  by (erule ctrl_setup_frame) simp

lemma data_view_store: "reg_store dst s = Some t \<Longrightarrow> data_view t = data_view s \<and> m_state t = m_state s"
  by (auto simp: reg_store_def split: list.splits reg_ptr.splits)

lemma data_view_emit [simp]:
  "frame_event e = [] \<Longrightarrow> data_view (emit e s) = data_view s" "m_state (emit e s) = m_state s"
  by (simp_all add: data_view_def emit_def delivered_def)

lemma data_view_callbacks: "data_view (oa_status_callbacks s) = data_view s \<and> m_state (oa_status_callbacks s) = m_state s"
  by (simp add: oa_status_callbacks_def Let_def split: option.split)

section \<open>The control states are quiet\<close>

lemma quiet_read_start: "m_state s \<noteq> ADI_MAC_STATE_DATA_END \<Longrightarrow> quiet s (oaPhyRegReadStart prtad a s)"
  unfolding oaPhyRegReadStart_def Let_def
  by (intro quiet_bind) (auto simp: quiet_Some split: prod.split dest!: data_view_setup)

lemma quiet_read_step: "m_state s \<noteq> ADI_MAC_STATE_DATA_END \<Longrightarrow> quiet s (oaPhyRegReadStep s)"
  unfolding oaPhyRegReadStep_def Let_def
  by (intro quiet_bind) (auto simp: quiet_Some split: prod.split dest!: data_view_setup)

lemma quiet_int_handle: "m_state s \<noteq> ADI_MAC_STATE_DATA_END \<Longrightarrow> quiet s (oaSpiIntHandle s)"
  unfolding oaSpiIntHandle_def Let_def
  using data_view_callbacks [of s]
  by (intro quiet_bind) (auto simp: quiet_Some split: prod.split dest!: data_view_setup)

lemma quiet_control_start: "quiet s (oa_control_start s)"
  unfolding oa_control_start_def Let_def
  by (intro quiet_bind) (auto simp: quiet_Some split: prod.split dest!: data_view_setup)

lemma quiet_control_end: "quiet s (oa_control_end s)"
  unfolding oa_control_end_def Let_def
  by (intro quiet_bind) (auto simp: quiet_Some bind_eq_Some_conv split: prod.split if_splits dest!: data_view_store)

lemma quiet_read_status: "m_state s \<noteq> ADI_MAC_STATE_DATA_END \<Longrightarrow> quiet s (oa_read_status s)"
  unfolding oa_read_status_def Let_def
  by (intro quiet_bind)
    (auto split: prod.split intro!: quiet_trans [OF _ quiet_read_start] quiet_trans [OF _ quiet_int_handle])

lemma quiet_phy_record:
  assumes "m_state s \<noteq> ADI_MAC_STATE_DATA_END"
  shows "quiet s (oa_phy_record s)"
  using assms unfolding oa_phy_record_def oa_phy_p1_def oa_phy_p2_def Let_def
  by (auto simp: quiet_def [of s None] quiet_Some split: list.split
      intro!: quiet_trans [OF _ quiet_read_start] quiet_trans [OF _ quiet_int_handle])

lemma quiet_phy_poll:
  assumes "m_state s \<noteq> ADI_MAC_STATE_DATA_END"
  shows "quiet s (oa_phy_poll s)"
  using assms unfolding oa_phy_poll_def
  by (intro quiet_bind, clarify, intro quiet_bind)
    (auto dest!: data_view_store intro!: quiet_trans [OF _ quiet_phy_record] quiet_trans [OF _ quiet_read_step])

lemma quiet_read_phy: "m_state s \<noteq> ADI_MAC_STATE_DATA_END \<Longrightarrow> quiet s (oa_read_phy s)"
  unfolding oa_read_phy_def
  by (intro quiet_bind)
    (auto intro!: quiet_trans [OF _ quiet_phy_poll] quiet_trans [OF _ quiet_read_step] quiet_trans [OF _ quiet_int_handle])

text \<open>The states in which a transaction with frames begins or ends.\<close>

definition data_state :: "mac_state \<Rightarrow> bool" where
  "data_state s \<longleftrightarrow> m_state s \<in> {ADI_MAC_STATE_DATA_START, ADI_MAC_STATE_DATA_END, ADI_MAC_STATE_IRQ_START}"

lemma quiet_dispatch: "\<not> data_state s \<Longrightarrow> quiet s (oa_dispatch s)"
  using quiet_control_start quiet_control_end quiet_read_status quiet_read_phy
  by (cases "m_state s") (simp_all add: oa_dispatch_def data_state_def quiet_Some)


section \<open>The link\<close>

text \<open>
  The driver, with what has happened on both ends of it: the frames accepted from the
  application, the frames the device has decoded from the transactions and the one it has in
  part, the frames the device has sent completely and the one it is sending.
\<close>

record link =
  l_mac :: mac_state
  l_accepted :: "u8 list list"
  l_got :: "u8 list list"
  l_devtx :: "u8 list option"
  l_heard :: "u8 list list"
  l_devrx :: "u8 list option"

definition link_init :: "mac_state \<Rightarrow> link" where
  "link_init s = \<lparr>l_mac = s, l_accepted = [], l_got = [], l_devtx = None, l_heard = [], l_devrx = None\<rparr>"

definition tx_ids :: "mac_state \<Rightarrow> nat set" where
  "tx_ids s = {d. Some d \<in> fs_pBufDesc ` set (queue_list (m_txQueue s))}"

text \<open>The chunks of the transaction under way.\<close>

definition trx_chunks :: "mac_state \<Rightarrow> nat" where
  "trx_chunks s = m_oaTrxSize s div (4 + chunkSize s)"

text \<open>
  An answer of a device that keeps to the protocol: footers without errors and frames of
  acceptable size (at least one byte before the frame check sequence, at most what a receive
  buffer holds).
\<close>

definition link_conforms :: "nat \<Rightarrow> link \<Rightarrow> u8 list \<Rightarrow> bool" where
  "link_conforms B l buf \<longleftrightarrow>
     (let s = l_mac l; n = trx_chunks s; cs = chunkSize s in
      length buf = length (s_spiRxBuf s) \<and> clean_footers n cs buf \<and>
      (case oa_rx_decode n cs buf (l_devrx l) of None \<Rightarrow> False
       | Some (devrx, heard) \<Rightarrow>
         (\<forall>h \<in> set heard. 5 \<le> length h \<and> length h \<le> B) \<and> (\<forall>h \<in> set_option devrx. length h \<le> B)))"

text \<open>
  An answer whose frames, the one that stays incomplete included, do not outnumber the receive
  buffers queued.  This is not a rule of the protocol: the driver asks for no data (\<open>NORX\<close>)
  only when no buffer is queued at the time it composes a chunk, so a transaction composed with
  one buffer queued can bring two frames.
\<close>

definition link_buffered :: "link \<Rightarrow> u8 list \<Rightarrow> bool" where
  "link_buffered l buf \<longleftrightarrow>
     (let s = l_mac l in
      case oa_rx_decode (trx_chunks s) (chunkSize s) buf (l_devrx l) of None \<Rightarrow> False
      | Some (devrx, heard) \<Rightarrow>
         length heard + (if devrx = None then 0 else 1) \<le> length (rx_ids s))"

definition link_answer :: "nat \<Rightarrow> link \<Rightarrow> u8 list \<Rightarrow> bool" where
  "link_answer B l buf \<longleftrightarrow> link_conforms B l buf \<and> link_buffered l buf"

lemmas link_answer_unfold = link_answer_def link_conforms_def link_buffered_def

text \<open>
  The transaction under way is exchanged: the device decodes the chunks of the driver, the
  driver receives those of the device and passes through \<open>ADI_MAC_STATE_DATA_END\<close>.
\<close>

definition link_exchange :: "u8 list \<Rightarrow> link \<Rightarrow> link option" where
  "link_exchange buf l = do {
     let s = l_mac l;
     let n = trx_chunks s;
     (devtx, got) \<leftarrow> oa_decode n (chunkSize s) (s_spiTxBuf s) (l_devtx l);
     (devrx, heard) \<leftarrow> oa_rx_decode n (chunkSize s) buf (l_devrx l);
     (_, s, _) \<leftarrow> oa_data_end (s\<lparr>s_spiRxBuf := buf\<rparr>);
     Some (l\<lparr>l_mac := s, l_got := l_got l @ got, l_devtx := devtx,
             l_heard := l_heard l @ heard, l_devrx := devrx\<rparr>)
   }"

text \<open>
  The steps.  \<open>R\<close> are the descriptors of receive buffers, \<open>B\<close> the size of a receive buffer.
  The application submits a frame or a receive buffer, or changes a buffer it owns; it sets up
  a register access; a control transaction is answered; a transmission, a register access or
  the interrupt starts when the driver is ready; the state machine makes a pass in a state that
  waits for no data; and the device answers the data transaction under way, which ends with
  the pass of the state machine in \<open>ADI_MAC_STATE_DATA_END\<close>.
\<close>

inductive link_step :: "nat set \<Rightarrow> nat \<Rightarrow> link \<Rightarrow> link \<Rightarrow> bool" for R B where
  submit_tx: "submit_tx_check (Some d) (l_mac l) = Inr d \<Longrightarrow> d \<notin> R \<Longrightarrow>
    bd_trxSize (s_bufs (l_mac l) d) \<le> length (bd_pBuf (s_bufs (l_mac l) d)) \<Longrightarrow>
    enqueue_tx header d (l_mac l) = Some s \<Longrightarrow>
    link_step R B l (l\<lparr>l_mac := s, l_accepted := l_accepted l @
      [take (bd_trxSize (s_bufs (l_mac l) d)) (bd_pBuf (s_bufs (l_mac l) d))]\<rparr>)"
| submit_rx: "d \<in> R \<Longrightarrow> d \<notin> set (rx_ids (l_mac l)) \<Longrightarrow> rx_buf_ok B (s_bufs (l_mac l) d) \<Longrightarrow>
    \<not> queueIsFull (m_rxQueueLp (l_mac l)) \<Longrightarrow>
    link_step R B l (l\<lparr>l_mac := (l_mac l)\<lparr>m_rxQueueLp :=
      queuePut (m_rxQueueLp (l_mac l)) \<lparr>fs_header = 0, fs_pBufDesc = Some d\<rparr>\<rparr>\<rparr>)"
| own_buffer: "d \<notin> tx_ids (l_mac l) \<Longrightarrow> d \<notin> set (rx_ids (l_mac l)) \<Longrightarrow>
    link_step R B l (l\<lparr>l_mac := upd_desc d (\<lambda>_. b) (l_mac l)\<rparr>)"
| register_access: "link_step R B l (l\<lparr>l_mac := (l_mac l)\<lparr>m_wnr := wnr, m_regAddr := a, m_pRegData := p,
    m_cnt := n, s_regCell := w, m_pendingCtrl := pending, s_irqEnabled := irq\<rparr>\<rparr>)"
| ctrl_answer: "link_step R B l (l\<lparr>l_mac := (l_mac l)\<lparr>m_ctrlRxBuf := buf\<rparr>\<rparr>)"
| enter: "m_state (l_mac l) = ADI_MAC_STATE_READY \<Longrightarrow>
    st \<in> {ADI_MAC_STATE_DATA_START, ADI_MAC_STATE_CONTROL_START, ADI_MAC_STATE_IRQ_START} \<Longrightarrow>
    link_step R B l (l\<lparr>l_mac := (l_mac l)\<lparr>m_state := st\<rparr>\<rparr>)"
| machine: "m_state (l_mac l) \<noteq> ADI_MAC_STATE_DATA_END \<Longrightarrow> oa_dispatch (l_mac l) = Some (r, s, req) \<Longrightarrow>
    link_step R B l (l\<lparr>l_mac := s\<rparr>)"
| exchange: "m_state (l_mac l) = ADI_MAC_STATE_DATA_END \<Longrightarrow> link_answer B l buf \<Longrightarrow>
    link_exchange buf l = Some l' \<Longrightarrow> link_step R B l l'"

inductive_cases link_stepE: "link_step R B l l'"

section \<open>The invariant\<close>

definition data_inv :: "nat set \<Rightarrow> nat \<Rightarrow> mac_state \<Rightarrow> bool" where
  "data_inv R B s \<longleftrightarrow> rx_wf B s \<and> set (rx_ids s) \<subseteq> R \<and> txq_ok R s \<and> tx_wf s \<and>
     length (s_spiTxBuf s) = BUFFERSIZE \<and> length (s_spiRxBuf s) = BUFFERSIZE \<and>
     length (m_ctrlTxBuf s) = 256 \<and>
     0 < m_oaMaxChunkCount s \<and> m_oaMaxChunkCount s * (4 + chunkSize s) \<le> BUFFERSIZE"

text \<open>
  A transaction of \<open>n\<close> chunks that ends the frames \<open>outs\<close>: they are the first frames of the
  queue, the driver's position is behind them, and the device, having decoded what was sent
  before, will decode them.  With no transaction under way \<open>n = 0\<close>.
\<close>

definition link_tx :: "link \<Rightarrow> nat \<Rightarrow> u8 list list \<Rightarrow> bool" where
  "link_tx l n outs \<longleftrightarrow> (let s = l_mac l in
     tx_rest s = (queueRemove ^^ length outs) (m_txQueue s) \<and>
     map (frame_of s) (take (length outs) (queue_list (m_txQueue s))) = outs \<and>
     oa_decode n (chunkSize s) (s_spiTxBuf s) (l_devtx l) = Some (tx_partial s, outs) \<and>
     tx_ends n (chunkSize s) (s_spiTxBuf s) = length outs \<and>
     l_accepted l = l_got l @ outs @ tx_frames s)"

definition link_rx :: "nat set \<Rightarrow> link \<Rightarrow> bool" where
  "link_rx R l \<longleftrightarrow> rx_partial (l_mac l) = l_devrx l \<and>
     map snd (delivered_in R (s_events (l_mac l))) =
       map (\<lambda>f. (ADI_MAC_CALLBACK_STATUS_OK, take (length f - 4) f)) (l_heard l)"

definition link_inv :: "nat set \<Rightarrow> nat \<Rightarrow> link \<Rightarrow> bool" where
  "link_inv R B l \<longleftrightarrow> data_inv R B (l_mac l) \<and> link_rx R l \<and>
     (if m_state (l_mac l) = ADI_MAC_STATE_DATA_END
      then \<exists>n outs. 0 < n \<and> m_oaTrxSize (l_mac l) = n * (4 + chunkSize (l_mac l)) \<and>
        m_oaTrxSize (l_mac l) \<le> BUFFERSIZE \<and> link_tx l n outs
      else link_tx l 0 [])"

text \<open>The invariant depends on the data path only.\<close>

lemma data_view_same:
  assumes "data_view t = data_view s"
  shows "m_txQueue t = m_txQueue s" "m_rxQueueLp t = m_rxQueueLp s" "tx_rest t = tx_rest s"
    "tx_frames t = tx_frames s" "tx_partial t = tx_partial s" "frame_of t = frame_of s"
    "chunkSize t = chunkSize s" "s_spiTxBuf t = s_spiTxBuf s" "m_oaTrxSize t = m_oaTrxSize s"
    "rx_partial t = rx_partial s" "rx_ids t = rx_ids s" "trx_chunks t = trx_chunks s" "s_bufs t = s_bufs s"
    "delivered_in R (s_events t) = delivered_in R (s_events s)"
    "data_inv R B t = data_inv R B s"
proof -
  have v: "m_txQueue t = m_txQueue s" "m_rxQueueLp t = m_rxQueueLp s" "m_oaTxCurBufIdx t = m_oaTxCurBufIdx s"
    "m_oaTxCurBufByteOffset t = m_oaTxCurBufByteOffset s" "m_oaCps t = m_oaCps s" "s_bufs t = s_bufs s"
    "m_oaRxCurBufByteOffset t = m_oaRxCurBufByteOffset s" "m_oaMaxChunkCount t = m_oaMaxChunkCount s"
    "m_oaTrxSize t = m_oaTrxSize s" "m_oaTimestampSplit t = m_oaTimestampSplit s"
    "m_oaValidFlag t = m_oaValidFlag s" "m_oaRxUseBackupBuf t = m_oaRxUseBackupBuf s"
    "m_fcsCheckEn t = m_fcsCheckEn s" "s_spiTxBuf t = s_spiTxBuf s"
    "length (s_spiRxBuf t) = length (s_spiRxBuf s)" "delivered (s_events t) = delivered (s_events s)"
    "length (m_ctrlTxBuf t) = length (m_ctrlTxBuf s)"
    using assms by (simp_all add: data_view_def)
  show rest: "tx_rest t = tx_rest s" by (simp add: tx_rest_def v)
  note tx = tx_cong [OF rest v(4,5) frame_cong [OF v(6)]]
  show "m_txQueue t = m_txQueue s" "m_rxQueueLp t = m_rxQueueLp s" "tx_frames t = tx_frames s"
    "tx_partial t = tx_partial s" "s_spiTxBuf t = s_spiTxBuf s" "m_oaTrxSize t = m_oaTrxSize s" "s_bufs t = s_bufs s"
    by (fact v tx)+
  show "frame_of t = frame_of s" by (rule ext) (simp add: frame_of_def v)
  show cs: "chunkSize t = chunkSize s" by (simp add: chunkSize_def v)
  show ids: "rx_ids t = rx_ids s" by (rule rx_ids_cong) (fact v)
  show "rx_partial t = rx_partial s" by (simp add: rx_partial_def ids v)
  show "trx_chunks t = trx_chunks s" by (simp add: trx_chunks_def cs v)
  show "delivered_in R (s_events t) = delivered_in R (s_events s)" by (simp add: delivered_in_def v)
  show "data_inv R B t = data_inv R B s"
    by (simp add: data_inv_def rx_wf_def txq_ok_def ids tx(2) cs v)
qed

lemma link_tx_same:
  assumes "data_view s = data_view (l_mac l)"
  shows "link_tx (l\<lparr>l_mac := s\<rparr>) n outs = link_tx l n outs" "link_rx R (l\<lparr>l_mac := s\<rparr>) = link_rx R l"
  by (simp_all add: link_tx_def link_rx_def data_view_same [OF assms] Let_def)

lemma link_inv_same:
  assumes "data_view s = data_view (l_mac l)" and "link_inv R B l"
    and "m_state s = ADI_MAC_STATE_DATA_END \<longleftrightarrow> m_state (l_mac l) = ADI_MAC_STATE_DATA_END"
  shows "link_inv R B (l\<lparr>l_mac := s\<rparr>)"
  using assms(2,3)
  by (simp add: link_inv_def link_tx_same [OF assms(1)] data_view_same [OF assms(1)] split: if_splits)

text \<open>A step of the application, during a transaction or not.\<close>

lemma link_inv_step:
  assumes "link_inv R B l" and "m_state (l_mac l') = m_state (l_mac l)"
    and "m_oaTrxSize (l_mac l') = m_oaTrxSize (l_mac l)" and "chunkSize (l_mac l') = chunkSize (l_mac l)"
    and "link_rx R l'" and "\<And>n outs. link_tx l n outs \<Longrightarrow> link_tx l' n outs"
    and "\<And>n outs. link_tx l n outs \<Longrightarrow> data_inv R B (l_mac l')"
  shows "link_inv R B l'"
proof -
  obtain n outs where "link_tx l n outs"
    using assms(1) by (auto simp: link_inv_def split: if_splits)
  then have "data_inv R B (l_mac l')" by (rule assms(7))
  with assms show ?thesis by (auto simp: link_inv_def split: if_splits)
qed

section \<open>The application's steps\<close>

lemma queueRemove_queuePut: "(queueRemove ^^ k) (queuePut q e) = queuePut ((queueRemove ^^ k) q) e"
  by (induction k) (simp_all add: queueRemove_def queuePut_def queueAdd_def)

lemma queue_list_funpow:
  assumes "queue_inv q" and "k \<le> length (queue_list q)"
  shows "queue_inv ((queueRemove ^^ k) q) \<and> queue_list ((queueRemove ^^ k) q) = drop k (queue_list q)"
  using assms
proof (induction k)
  case (Suc k)
  let ?q = "(queueRemove ^^ k) q"
  from Suc have inv: "queue_inv ?q" and list: "queue_list ?q = drop k (queue_list q)" by simp_all
  then have "\<not> queueIsEmpty ?q" using Suc.prems ring.empty_iff [OF inv] by simp
  with inv list ring.content_deq [OF inv] show ?case by (simp add: queue_inv_queueRemove tl_drop drop_Suc)
qed simp

text \<open>The frames of the queue are those of the transaction under way and those behind it.\<close>

lemma link_tx_queue:
  assumes "data_inv R B (l_mac l)" and "link_tx l n outs"
  defines "q \<equiv> m_txQueue (l_mac l)"
  shows "length outs \<le> length (queue_list q)" and "queue_list (tx_rest (l_mac l)) = drop (length outs) (queue_list q)"
    and "map (frame_of (l_mac l)) (queue_list q) = outs @ tx_frames (l_mac l)" and "queue_inv q"
proof -
  have m: "map (frame_of (l_mac l)) (take (length outs) (queue_list q)) = outs"
    and r: "tx_rest (l_mac l) = (queueRemove ^^ length outs) q"
    using assms(2) by (simp_all add: link_tx_def q_def Let_def)
  have "min (length outs) (length (queue_list q)) = length outs"
    using arg_cong [where f = length, OF m] by simp
  then show len: "length outs \<le> length (queue_list q)" by simp
  show inv: "queue_inv q" using assms(1) by (simp add: data_inv_def txq_ok_def q_def)
  show rest: "queue_list (tx_rest (l_mac l)) = drop (length outs) (queue_list q)"
    using queue_list_funpow [OF inv len] r by simp
  have "queue_list q = take (length outs) (queue_list q) @ queue_list (tx_rest (l_mac l))" by (simp add: rest)
  then show "map (frame_of (l_mac l)) (queue_list q) = outs @ tx_frames (l_mac l)"
    using m by (metis map_append tx_frames_def)
qed

text \<open>A frame is queued behind the others, whatever is under way.\<close>

lemma tx_enqueue:
  assumes wf: "tx_wf s" and full: "\<not> queueIsFull (tx_rest s)" and ok: "frame_ok s e"
  defines "t \<equiv> s\<lparr>m_txQueue := queuePut (m_txQueue s) e\<rparr>"
  shows "tx_rest t = queuePut (tx_rest s) e" and "tx_frames t = tx_frames s @ [frame_of s e]"
    and "tx_partial t = tx_partial s" and "tx_wf t" and "chunkSize t = chunkSize s"
proof -
  have inv: "queue_inv (tx_rest s)" using wf by (simp add: tx_wf_def)
  show rest: "tx_rest t = queuePut (tx_rest s) e"
    by (simp add: t_def tx_rest_def queuePut_def queueAdd_def)
  have list: "queue_list (tx_rest t) = queue_list (tx_rest s) @ [e]"
    unfolding rest by (rule queue_list_queuePut [OF inv full])
  have fr: "frame_of t e' = frame_of s e'" and fo: "frame_ok t e' = frame_ok s e'" for e'
    using frame_cong [of t s e'] by (simp_all add: t_def)
  show frames: "tx_frames t = tx_frames s @ [frame_of s e]"
    by (simp add: tx_frames_def list fr)
  have off: "m_oaTxCurBufByteOffset t = m_oaTxCurBufByteOffset s" by (simp add: t_def)
  show "tx_partial t = tx_partial s"
  proof (cases "tx_frames s")
    case Nil
    then show ?thesis using wf off by (simp add: tx_partial_def tx_wf_def)
  qed (simp add: tx_partial_def frames off)
  have "queue_inv (tx_rest t)" unfolding rest by (rule queue_inv_queuePut [OF inv])
  moreover have "q_numEntries (m_txQueue t) = q_numEntries (m_txQueue s)" "m_oaCps t = m_oaCps s"
    by (simp_all add: t_def queuePut_def queueAdd_def)
  ultimately show "tx_wf t"
    using wf ok frame_ok_length [OF ok]
    by (auto simp: tx_wf_def list list_all_iff frames off fo split: list.splits)
  show "chunkSize t = chunkSize s" by (simp add: t_def chunkSize_def)
qed

lemma step_submit_tx:
  assumes inv: "link_inv R B l" and ok: "submit_tx_check (Some d) (l_mac l) = Inr d" and d: "d \<notin> R"
    and room: "bd_trxSize (s_bufs (l_mac l) d) \<le> length (bd_pBuf (s_bufs (l_mac l) d))"
    and enq: "enqueue_tx header d (l_mac l) = Some s"
  shows "link_inv R B (l\<lparr>l_mac := s, l_accepted := l_accepted l @
    [take (bd_trxSize (s_bufs (l_mac l) d)) (bd_pBuf (s_bufs (l_mac l) d))]\<rparr>)"
proof -
  let ?s = "l_mac l" and ?e = "\<lparr>fs_header = header, fs_pBufDesc = Some d\<rparr>"
  let ?l = "l\<lparr>l_mac := s, l_accepted := l_accepted l @ [frame_of ?s ?e]\<rparr>"
  have data: "data_inv R B ?s" using inv by (simp add: link_inv_def)
  then have wf: "tx_wf ?s" and rx: "rx_wf B ?s" and tq: "txq_ok R ?s" by (simp_all add: data_inv_def)
  have s: "s = ?s\<lparr>m_txQueue := queuePut (m_txQueue ?s) ?e\<rparr>"
    using enq rx by (simp add: enqueue_tx_def append_fcs_def rx_wf_def)
  have chk: "frame_ok ?s ?e" "\<not> queueIsFull (m_txQueue ?s)"
    using ok room by (auto simp: submit_tx_check_def Let_def frame_ok_def frame_sizes split: if_splits)
  have rx_ids: "rx_ids s = rx_ids ?s" by (rule rx_ids_cong) (simp add: s)
  have partial: "rx_partial s = rx_partial ?s" unfolding rx_partial_def rx_ids by (simp add: s)
  have "link_inv R B ?l"
  proof (rule link_inv_step [OF inv])
    fix n outs
    assume t: "link_tx l n outs"
    note q = link_tx_queue [OF data t]
    have cap: "queue_capacity (tx_rest ?s) = queue_capacity (m_txQueue ?s)"
      by (simp add: queue_capacity_def tx_rest_def)
    have "length (queue_list (m_txQueue ?s)) < queue_capacity (m_txQueue ?s)"
      using chk(2) ring.full_iff [OF q(4)] ring.content_bound [OF q(4)] by linarith
    then have full: "\<not> queueIsFull (tx_rest ?s)"
      using ring.full_iff [of "tx_rest ?s"] wf q(2) cap by (simp add: tx_wf_def)
    note e = tx_enqueue [OF wf full chk(1), folded s]
    have list: "queue_list (m_txQueue s) = queue_list (m_txQueue ?s) @ [?e]"
      unfolding s using queue_list_queuePut [OF q(4) chk(2)] by simp
    have fr: "frame_of s = frame_of ?s" by (rule ext) (simp add: s frame_of_def)
    show "link_tx ?l n outs" using t q(1) e list fr
      by (simp add: link_tx_def Let_def queueRemove_queuePut s)
    have "rx_wf B s" "set (rx_ids s) \<subseteq> R"
      using data rx_ids by (simp_all add: s data_inv_def rx_wf_def)
    moreover have "txq_ok R s"
      using tq d list queue_inv_queuePut [OF q(4)] by (simp add: txq_ok_def) (simp add: s)
    ultimately show "data_inv R B (l_mac ?l)"
      using data e(4,5) by (simp add: data_inv_def) (simp add: s)
  next
    show "link_rx R ?l" using inv partial by (simp add: link_inv_def link_rx_def) (simp add: s)
  qed (simp_all add: s chunkSize_def)
  then show ?thesis by (simp add: frame_of_def Let_def)
qed

text \<open>A receive buffer is queued behind the others; a frame under way stays in the first.\<close>

lemma step_submit_rx:
  assumes inv: "link_inv R B l" and d: "d \<in> R" "d \<notin> set (rx_ids (l_mac l))"
    and buf: "rx_buf_ok B (s_bufs (l_mac l) d)" and full: "\<not> queueIsFull (m_rxQueueLp (l_mac l))"
  shows "link_inv R B (l\<lparr>l_mac := (l_mac l)\<lparr>m_rxQueueLp :=
      queuePut (m_rxQueueLp (l_mac l)) \<lparr>fs_header = 0, fs_pBufDesc = Some d\<rparr>\<rparr>\<rparr>)"
proof -
  let ?s = "l_mac l"
  define s where "s = ?s\<lparr>m_rxQueueLp := queuePut (m_rxQueueLp ?s) \<lparr>fs_header = 0, fs_pBufDesc = Some d\<rparr>\<rparr>"
  have data: "data_inv R B ?s" using inv by (simp add: link_inv_def)
  then have rx: "rx_wf B ?s" and q: "queue_inv (m_rxQueueLp ?s)" by (simp_all add: data_inv_def rx_wf_def)
  have list: "queue_list (m_rxQueueLp s) = queue_list (m_rxQueueLp ?s) @ [\<lparr>fs_header = 0, fs_pBufDesc = Some d\<rparr>]"
    unfolding s_def using queue_list_queuePut [OF q full] by simp
  then have ids: "rx_ids s = rx_ids ?s @ [d]" by (simp add: rx_ids_def)
  have rxs: "rx_wf B s" using rx d buf list ids queue_inv_queuePut [OF q]
    by (simp add: rx_wf_def) (simp add: s_def)
  have partial: "rx_partial s = rx_partial ?s"
    using rx ids by (auto simp: rx_partial_def rx_wf_def) (simp_all add: s_def)
  have rest: "tx_rest s = tx_rest ?s" and q': "m_txQueue s = m_txQueue ?s" and b: "s_bufs s = s_bufs ?s"
    by (simp_all add: s_def tx_rest_def)
  have tx: "tx_frames s = tx_frames ?s" "tx_wf s = tx_wf ?s" "tx_partial s = tx_partial ?s"
    by (rule tx_cong [OF rest _ _ frame_cong [OF b]]; simp add: s_def)+
  have fr: "frame_of s = frame_of ?s" by (rule ext) (simp add: b frame_of_def)
  have "link_inv R B (l\<lparr>l_mac := s\<rparr>)"
  proof (rule link_inv_step [OF inv])
    show "link_rx R (l\<lparr>l_mac := s\<rparr>)"
      using inv partial by (simp add: link_inv_def link_rx_def) (simp add: s_def)
  next
    fix n outs
    assume t: "link_tx l n outs"
    then show "link_tx (l\<lparr>l_mac := s\<rparr>) n outs"
      using fr rest q' tx by (simp add: link_tx_def Let_def) (simp add: s_def chunkSize_def)
    show "data_inv R B (l_mac (l\<lparr>l_mac := s\<rparr>))"
      using data rxs ids d tx(2) by (simp add: data_inv_def txq_ok_def q') (simp add: s_def chunkSize_def)
  qed (simp_all add: s_def chunkSize_def)
  then show ?thesis by (simp add: s_def)
qed

text \<open>The application changes a buffer that is not queued.\<close>

lemma step_own_buffer:
  assumes inv: "link_inv R B l" and d: "d \<notin> tx_ids (l_mac l)" "d \<notin> set (rx_ids (l_mac l))"
  shows "link_inv R B (l\<lparr>l_mac := upd_desc d (\<lambda>_. b) (l_mac l)\<rparr>)"
proof -
  let ?s = "l_mac l"
  define s where "s = upd_desc d (\<lambda>_. b) ?s"
  have data: "data_inv R B ?s" using inv by (simp add: link_inv_def)
  have ids: "rx_ids s = rx_ids ?s" by (simp add: s_def)
  have bufs: "s_bufs s i = s_bufs ?s i" if "i \<noteq> d" for i using that by (simp add: s_def upd_desc_def)
  have "list_all (\<lambda>i. rx_buf_ok B (s_bufs s i)) (rx_ids ?s) = list_all (\<lambda>i. rx_buf_ok B (s_bufs ?s i)) (rx_ids ?s)"
    using d(2) bufs by (intro list.pred_cong refl) (metis)
  then have rx: "rx_wf B s = rx_wf B ?s"
    unfolding rx_wf_def ids by (simp only:) (simp add: s_def upd_desc_def)
  have partial: "rx_partial s = rx_partial ?s"
  proof (cases "m_oaValidFlag ?s = ADI_MAC_OA_VALID_FLAG_START")
    case True
    then have "rx_ids ?s \<noteq> []" using data by (simp add: data_inv_def rx_wf_def)
    then have "hd (rx_ids ?s) \<noteq> d" using d(2) by auto
    then show ?thesis by (simp add: rx_partial_def ids bufs) (simp add: s_def upd_desc_def)
  qed (simp add: rx_partial_def s_def upd_desc_def)
  have q': "m_txQueue s = m_txQueue ?s" and rest: "tx_rest s = tx_rest ?s"
    by (simp_all add: s_def tx_rest_def upd_desc_def)
  have fr: "frame_of s e = frame_of ?s e \<and> frame_ok s e = frame_ok ?s e"
    if "e \<in> set (queue_list (m_txQueue ?s))" "fs_pBufDesc e \<noteq> None" for e
  proof -
    from that d(1) obtain i where "fs_pBufDesc e = Some i" "i \<noteq> d" by (force simp: tx_ids_def)
    then show ?thesis by (simp add: frame_of_def frame_ok_def bufs)
  qed
  have desc: "fs_pBufDesc e \<noteq> None" if "e \<in> set (queue_list (m_txQueue ?s))" for e
    using that data by (auto simp: data_inv_def txq_ok_def list_all_iff)
  have tx: "tx_frames s = tx_frames ?s" "tx_wf s = tx_wf ?s" "tx_partial s = tx_partial ?s"
    if "link_tx l n outs" for n outs
    using link_tx_queue(2) [OF data that] fr desc
    by (intro tx_cong [OF rest]; auto simp: s_def upd_desc_def dest: in_set_dropD)+
  have "link_inv R B (l\<lparr>l_mac := s\<rparr>)"
  proof (rule link_inv_step [OF inv])
    show "link_rx R (l\<lparr>l_mac := s\<rparr>)"
      using inv partial by (simp add: link_inv_def link_rx_def) (simp add: s_def upd_desc_def)
  next
    fix n outs
    assume t: "link_tx l n outs"
    have "map (frame_of s) (take (length outs) (queue_list (m_txQueue ?s))) =
        map (frame_of ?s) (take (length outs) (queue_list (m_txQueue ?s)))"
      using fr desc by (auto dest: in_set_takeD)
    also have "\<dots> = outs" using t by (simp add: link_tx_def Let_def)
    finally have "map (frame_of s) (take (length outs) (queue_list (m_txQueue ?s))) = outs" .
    moreover have "chunkSize s = chunkSize ?s" "s_spiTxBuf s = s_spiTxBuf ?s"
      by (simp_all add: s_def chunkSize_def upd_desc_def)
    ultimately show "link_tx (l\<lparr>l_mac := s\<rparr>) n outs"
      using t tx [OF t] rest q' by (simp add: link_tx_def Let_def)
    show "data_inv R B (l_mac (l\<lparr>l_mac := s\<rparr>))"
      using data rx ids tx(2) [OF t]
      by (simp add: data_inv_def txq_ok_def q') (simp add: s_def chunkSize_def upd_desc_def)
  qed (simp_all add: s_def chunkSize_def upd_desc_def)
  then show ?thesis by (simp add: s_def)
qed

section \<open>The driver's steps\<close>

text \<open>Between transactions: everything queued is still to be sent.\<close>

definition link_idle :: "nat set \<Rightarrow> nat \<Rightarrow> link \<Rightarrow> bool" where
  "link_idle R B l \<longleftrightarrow> data_inv R B (l_mac l) \<and> link_rx R l \<and> link_tx l 0 []"

lemma link_idle_same:
  assumes "link_idle R B l" and "data_view s = data_view (l_mac l)" and "m_state s \<noteq> ADI_MAC_STATE_DATA_END"
  shows "link_inv R B (l\<lparr>l_mac := s\<rparr>)"
  using assms(1,3)
  by (simp add: link_inv_def link_idle_def link_tx_same [OF assms(2)] data_view_same [OF assms(2)])

lemma link_idle_start:
  assumes "link_idle R B l" and "m_state (l_mac l) \<noteq> ADI_MAC_STATE_IRQ_START"
  shows "tx_start (l_mac l)"
proof -
  have "tx_rest (l_mac l) = m_txQueue (l_mac l)" using assms(1) by (simp add: link_idle_def link_tx_def Let_def)
  from arg_cong [where f = q_tail, OF this] have "m_oaTxCurBufIdx (l_mac l) = q_tail (m_txQueue (l_mac l))"
    by (simp add: tx_rest_def)
  then show ?thesis using assms by (simp add: link_idle_def data_inv_def tx_start_def rx_wf_def)
qed

lemma link_composed:
  assumes idle: "link_idle R B l" and comp: "tx_composed (l_mac l) t n outs"
  shows "data_inv R B t" and "link_rx R (l\<lparr>l_mac := t\<rparr>)" and "link_tx (l\<lparr>l_mac := t\<rparr>) n outs"
    and "m_oaTrxSize t = n * (4 + chunkSize t)" and "m_oaTrxSize t \<le> BUFFERSIZE"
proof -
  let ?s = "l_mac l"
  from comp have t: "t = ?s\<lparr>m_oaTxCurBufIdx := m_oaTxCurBufIdx t, m_oaTxCurBufByteOffset := m_oaTxCurBufByteOffset t,
           m_oaTrxSize := m_oaTrxSize t, s_spiTxBuf := s_spiTxBuf t\<rparr>"
    unfolding tx_composed_def by (elim conjE)
  then obtain i k m b where t': "t = ?s\<lparr>m_oaTxCurBufIdx := i, m_oaTxCurBufByteOffset := k, m_oaTrxSize := m, s_spiTxBuf := b\<rparr>"
    by blast
  have f: "m_txQueue t = m_txQueue ?s" "rx_ids t = rx_ids ?s" "chunkSize t = chunkSize ?s" "s_events t = s_events ?s"
    "frame_of t = frame_of ?s" "m_oaMaxChunkCount t = m_oaMaxChunkCount ?s" "s_spiRxBuf t = s_spiRxBuf ?s"
    "m_ctrlTxBuf t = m_ctrlTxBuf ?s"
    by (simp_all add: t' rx_ids_def chunkSize_def frame_of_def [abs_def])
  have rx: "rx_wf B t = rx_wf B ?s" "rx_partial t = rx_partial ?s"
    unfolding rx_wf_def rx_partial_def f(2) by (simp_all add: t')
  have c: "m_oaTrxSize t = n * (4 + chunkSize ?s)" "m_oaTrxSize t \<le> BUFFERSIZE" "length (s_spiTxBuf t) = BUFFERSIZE"
    "oa_decode n (chunkSize ?s) (s_spiTxBuf t) (tx_partial ?s) = Some (tx_partial t, outs)"
    "tx_frames ?s = outs @ tx_frames t" "tx_wf t" "tx_ends n (chunkSize ?s) (s_spiTxBuf t) = length outs"
    "tx_rest t = (queueRemove ^^ length outs) (m_txQueue ?s)"
    using comp unfolding tx_composed_def by - (elim conjE, assumption)+
  have l: "tx_rest ?s = m_txQueue ?s" "l_devtx l = tx_partial ?s" "l_accepted l = l_got l @ tx_frames ?s"
    using idle by (simp_all add: link_idle_def link_tx_def Let_def)
  have "map (frame_of ?s) (take (length outs) (queue_list (m_txQueue ?s))) = take (length outs) (tx_frames ?s)"
    unfolding tx_frames_def l(1) by (simp add: take_map)
  then show "link_tx (l\<lparr>l_mac := t\<rparr>) n outs"
    using c l by (simp add: link_tx_def Let_def f)
  show "data_inv R B t" using idle c(3,6) by (simp add: link_idle_def data_inv_def rx f txq_ok_def)
  show "link_rx R (l\<lparr>l_mac := t\<rparr>)" using idle by (simp add: link_idle_def link_rx_def rx f)
  show "m_oaTrxSize t = n * (4 + chunkSize t)" "m_oaTrxSize t \<le> BUFFERSIZE" using c(1,2) f(3) by simp_all
qed

text \<open>The transaction is under way, or there was nothing to put into it.\<close>

lemma link_composed_inv:
  assumes idle: "link_idle R B l" and comp: "tx_composed (l_mac l) t n outs"
    and u: "data_view u = data_view t" "m_state u = ADI_MAC_STATE_DATA_END \<longleftrightarrow> 0 < n"
  shows "link_inv R B (l\<lparr>l_mac := u\<rparr>)"
proof -
  note c = link_composed [OF idle comp]
  note same = link_tx_same [of u "l\<lparr>l_mac := t\<rparr>", simplified, OF u(1)]
  have "outs = []" if "n = 0" using that c(3) by (simp add: link_tx_def Let_def)
  with c u(2) show ?thesis
    by (auto simp: link_inv_def same data_view_same [OF u(1)])
qed

lemma tail_returns:
  assumes idle: "link_idle R B l" and st: "m_state (l_mac l) = ADI_MAC_STATE_DATA_END"
  shows "\<exists>r s req. oa_data_tail b (l_mac l) = Some (r, s, req) \<and> link_inv R B (l\<lparr>l_mac := s\<rparr>) \<and>
    (m_state s = ADI_MAC_STATE_DATA_END \<longrightarrow> req = Some (SpiData (m_oaTrxSize s))) \<and>
    (\<not> b \<and> tx_frames (l_mac l) \<noteq> [] \<and> m_oaTxc (l_mac l) \<noteq> 0 \<longrightarrow>
      m_state s = ADI_MAC_STATE_DATA_END \<and> tx_bytes s < tx_bytes (l_mac l)) \<and>
    (\<not> b \<and> tx_frames (l_mac l) = [] \<and> m_oaRca (l_mac l) = 0 \<longrightarrow>
      m_state s = ADI_MAC_STATE_READY \<and> req = None)"
proof -
  let ?s = "l_mac l"
  have wf: "tx_wf ?s" and len: "length (m_ctrlTxBuf ?s) = 256" and mx: "0 < m_oaMaxChunkCount ?s"
    using idle by (simp_all add: link_idle_def data_inv_def)
  have start: "tx_start ?s" using link_idle_start [OF idle] st by simp
  then have em: "queueIsEmpty (m_txQueue ?s) \<longleftrightarrow> tx_frames ?s = []"
    using tx_frames_empty [OF wf] by (auto simp: queueIsEmpty_def tx_start_def)
  consider "b" | "\<not> b" "(\<not> queueIsEmpty (m_txQueue ?s) \<and> m_oaTxc ?s \<noteq> 0) \<or>
      (\<not> queueIsEmpty (m_rxQueueLp ?s) \<and> m_oaRca ?s \<noteq> 0)" | "\<not> b" "\<not> ((\<not> queueIsEmpty (m_txQueue ?s) \<and> m_oaTxc ?s \<noteq> 0) \<or>
      (\<not> queueIsEmpty (m_rxQueueLp ?s) \<and> m_oaRca ?s \<noteq> 0))" by blast
  then show ?thesis
  proof cases
    case 1
    obtain buf where "oaCtrlSetup (m_ctrlTxBuf ?s) ADI_MAC_SPI_READ ADDR_MAC_STATUS0 (reg_words ?s) 2 =
        Some (ADI_ETH_SUCCESS, buf, 24)" "length buf = 256"
      using oaCtrlSetup_read [OF len, of 2 ADDR_MAC_STATUS0 "reg_words ?s"] by auto
    then show ?thesis using 1 len idle
      by (auto simp: oa_data_tail_def ctrl_setup_def intro!: link_idle_same)
  next
    case 2
    then have need: "tx_needed ?s" using em by (auto simp: tx_needed_def)
    obtain t n outs where t: "oaSpiProcess ?s = Some t" "tx_composed ?s t n outs"
      using oaSpiProcess_facts [OF start] by blast
    then have "0 < n" "tx_frames ?s \<noteq> [] \<and> m_oaTxc ?s \<noteq> 0 \<longrightarrow> tx_bytes t < tx_bytes ?s"
      using need mx unfolding tx_composed_def by blast+
    moreover define u where "u = t\<lparr>m_state := ADI_MAC_STATE_DATA_END, m_spiState := ADI_MAC_SPI_STATE_RX_FRAME\<rparr>"
    moreover have "tx_bytes u = tx_bytes t" by (intro tx_cong frame_cong; simp add: u_def tx_rest_def)
    ultimately show ?thesis using link_composed_inv [OF idle t(2), of u] 2 t(1) need
      by (auto simp: oa_data_tail_def tx_needed_def)
  next
    case 3
    then show ?thesis using idle em
      by (auto simp: oa_data_tail_def oa_ready_def Let_def intro!: link_idle_same)
  qed
qed

lemma start_returns:
  assumes idle: "link_idle R B l" and st: "m_state (l_mac l) = ADI_MAC_STATE_DATA_START"
  shows "\<exists>s req. oa_data_start (l_mac l) = Some (ADI_ETH_SUCCESS, s, req) \<and> link_inv R B (l\<lparr>l_mac := s\<rparr>) \<and>
    (tx_needed (l_mac l) \<longrightarrow> m_state s = ADI_MAC_STATE_DATA_END \<and> req = Some (SpiData (m_oaTrxSize s)))"
proof -
  let ?s = "l_mac l"
  have start: "tx_start ?s" using link_idle_start [OF idle] st by simp
  obtain t n outs where t: "oaSpiProcess ?s = Some t" "tx_composed ?s t n outs"
    using oaSpiProcess_facts [OF start] by blast
  have "m_oaTrxSize t = n * (4 + chunkSize ?s)" using t(2) unfolding tx_composed_def by blast
  then have "m_oaTrxSize t \<noteq> 0 \<longleftrightarrow> 0 < n" by simp
  moreover have "tx_needed ?s \<longrightarrow> 0 < n"
    using t(2) idle unfolding tx_composed_def link_idle_def data_inv_def by blast
  ultimately show ?thesis using t link_composed_inv [OF idle t(2)]
    by (cases "n = 0") (auto simp: oa_data_start_def oa_ready_def Let_def)
qed

text \<open>The interrupt: one chunk without data, to fetch a footer.\<close>

lemma irq_header_fields:
  "odd (popcount (th_VALUE32 irq_header))" "\<not> th_DV (th_of_VALUE32 (th_VALUE32 irq_header))"
  "\<not> th_EV (th_of_VALUE32 (th_VALUE32 irq_header))"
  by code_simp+

lemma irq_returns:
  assumes idle: "link_idle R B l"
  shows "\<exists>r s req. oa_irq_start (l_mac l) = Some (r, s, req) \<and> link_inv R B (l\<lparr>l_mac := s\<rparr>)"
proof -
  let ?s = "l_mac l" and ?w = "le_bytes32 (HTON32 (th_VALUE32 irq_header))"
  have data: "data_inv R B ?s" using idle by (simp add: link_idle_def)
  then have len: "length (s_spiTxBuf ?s) = BUFFERSIZE" and "tx_wf ?s" by (simp_all add: data_inv_def)
  then have cs: "4 + chunkSize ?s \<le> BUFFERSIZE" using chunkSize_cases [of ?s] by (auto simp: BUFFERSIZE_def)
  obtain buf where w: "mem_write (s_spiTxBuf ?s) 0 ?w = Some buf"
    using len by (cases "mem_write (s_spiTxBuf ?s) 0 ?w") (auto simp: mem_write_None BUFFERSIZE_def length_le_bytes32)
  define t where "t = ?s\<lparr>m_oaTrxSize := 4 + chunkSize ?s, s_spiTxBuf := buf\<rparr>"
  have f: "tx_rest t = tx_rest ?s" "tx_frames t = tx_frames ?s" "tx_partial t = tx_partial ?s" "tx_wf t = tx_wf ?s"
      "frame_of t = frame_of ?s" "rx_ids t = rx_ids ?s" "chunkSize t = chunkSize ?s"
    by (simp_all add: t_def frame_of_def [abs_def] rx_ids_def chunkSize_def)
  have rx: "rx_wf B t = rx_wf B ?s" "rx_partial t = rx_partial ?s"
    unfolding rx_wf_def rx_partial_def f(6) by (simp_all add: t_def)
  have "HTON32 (le_word32 (take 4 buf)) = th_VALUE32 irq_header" using le_word32_slice [OF w] by simp
  then have "oa_decode 1 (chunkSize ?s) buf cur = Some (cur, [])" "\<not> header_ends buf" for cur
    using irq_header_fields by (simp_all add: oa_decode_chunk_def header_ends_def Let_def)
  then have tx: "link_tx (l\<lparr>l_mac := t\<rparr>) 1 []"
    using idle by (simp add: link_idle_def link_tx_def Let_def f) (simp add: t_def)
  have "data_inv R B t"
    using data mem_write_length [OF w] by (simp add: data_inv_def rx f txq_ok_def) (simp add: t_def)
  moreover have "link_rx R (l\<lparr>l_mac := t\<rparr>)" using idle by (simp add: link_idle_def link_rx_def rx) (simp add: t_def)
  moreover define u where "u = t\<lparr>m_state := ADI_MAC_STATE_DATA_END, m_spiState := ADI_MAC_SPI_STATE_RX\<rparr>"
  then have v: "data_view u = data_view t" by simp
  moreover note link_tx_same [of u "l\<lparr>l_mac := t\<rparr>", simplified, OF v]
  moreover have "m_oaTrxSize t = 1 * (4 + chunkSize ?s)" "m_state u = ADI_MAC_STATE_DATA_END"
    by (simp_all add: t_def u_def)
  ultimately have "link_inv R B (l\<lparr>l_mac := u\<rparr>)"
    using tx cs f(7) unfolding link_inv_def
    by (auto simp: data_view_same [OF v] intro!: exI [of _ "1 :: nat"] exI [of _ "[] :: u8 list list"])
  moreover have "oa_irq_start ?s = Some (ADI_ETH_SUCCESS, u, Some (SpiData (4 + chunkSize ?s)))"
    using w by (simp add: oa_irq_start_def u_def t_def ADI_SPI_HEADER_SIZE_def chunkSize_def)
  ultimately show ?thesis by blast
qed

text \<open>The device answers the transaction under way.\<close>

lemma exchange_delivers:
  assumes inv: "link_inv R B l" and st: "m_state (l_mac l) = ADI_MAC_STATE_DATA_END"
    and ans: "link_answer B l buf"
  defines "s \<equiv> (l_mac l)\<lparr>s_spiRxBuf := buf\<rparr>"
  obtains v t outs heard devrx f where "rx_chunks (m_oaTrxSize s) (chunkSize s) 0 (rx_vars_init s, s) = Some (v, t)"
    and "v_footer v = Some f" and "rf_SYNC f" and "f = last_footer (trx_chunks (l_mac l)) (chunkSize s) buf"
    and "v_exst v \<longleftrightarrow> some_exst (trx_chunks (l_mac l)) (chunkSize s) buf" and "m_oaTxc t = unat (rf_TXC f)"
    and "m_oaRca t = unat (rf_RCA f)" and "m_state t = ADI_MAC_STATE_DATA_END" and "tx_frames t = tx_frames (l_mac l)" and "tx_bytes t = tx_bytes (l_mac l)"
    and "oa_decode (trx_chunks (l_mac l)) (chunkSize s) (s_spiTxBuf s) (l_devtx l) = Some (tx_partial t, outs)"
    and "oa_rx_decode (trx_chunks (l_mac l)) (chunkSize s) buf (l_devrx l) = Some (devrx, heard)"
    and "l_accepted l = l_got l @ outs @ tx_frames t"
    and "link_idle R B (l\<lparr>l_mac := t, l_got := l_got l @ outs, l_devtx := tx_partial t,
           l_heard := l_heard l @ heard, l_devrx := devrx\<rparr>)"
proof -
  let ?s = "l_mac l"
  obtain n outs where n: "0 < n" "m_oaTrxSize ?s = n * (4 + chunkSize ?s)" "m_oaTrxSize ?s \<le> BUFFERSIZE"
    and tx: "link_tx l n outs" and data: "data_inv R B ?s" and rx: "link_rx R l"
    using inv st by (auto simp: link_inv_def)
  have chunks: "trx_chunks ?s = n" using n(2) by (simp add: trx_chunks_def)
  have ids: "rx_ids s = rx_ids ?s" by (simp add: s_def rx_ids_def)
  have s: "chunkSize s = chunkSize ?s" "rx_wf B s = rx_wf B ?s" "rx_partial s = rx_partial ?s"
    "txq_ok R s = txq_ok R ?s" "s_spiTxBuf s = s_spiTxBuf ?s" "m_txQueue s = m_txQueue ?s"
    "m_oaTrxSize s = m_oaTrxSize ?s" "s_spiRxBuf s = buf" "s_events s = s_events ?s"
    unfolding rx_wf_def rx_partial_def ids txq_ok_def by (simp_all add: s_def chunkSize_def)
  obtain devrx heard where a: "length buf = BUFFERSIZE" "clean_footers n (chunkSize ?s) buf"
    "oa_rx_decode n (chunkSize ?s) buf (rx_partial ?s) = Some (devrx, heard)"
    "\<forall>h \<in> set heard. 5 \<le> length h \<and> length h \<le> B" "\<forall>h. devrx = Some h \<longrightarrow> length h \<le> B"
    "length heard + (if devrx = None then 0 else 1) \<le> length (rx_ids ?s)"
    using ans data rx by (auto simp: link_answer_unfold Let_def chunks data_inv_def link_rx_def split: option.splits)
  have d: "rx_wf B ?s" "set (rx_ids ?s) \<subseteq> R" "txq_ok R ?s" "length (s_spiTxBuf ?s) = BUFFERSIZE" "tx_wf ?s"
    using data by (simp_all add: data_inv_def)
  have ends: "tx_ends n (chunkSize ?s) (s_spiTxBuf ?s) = length outs"
    and dec: "oa_decode n (chunkSize ?s) (s_spiTxBuf ?s) (l_devtx l) = Some (tx_partial ?s, outs)"
    and rest: "tx_rest ?s = (queueRemove ^^ length outs) (m_txQueue ?s)"
    and acc: "l_accepted l = l_got l @ outs @ tx_frames ?s"
    using tx by (simp_all add: link_tx_def Let_def)
  note q = link_tx_queue [OF data tx]
  obtain v t where r: "rx_chunks (m_oaTrxSize s) (chunkSize s) 0 (rx_vars_init s, s) = Some (v, t)"
    and step: "rx_step R B ADI_MAC_CALLBACK_STATUS_OK s t devrx heard (length outs)"
    and foot: "v_footer v = Some (last_footer n (chunkSize s) buf)" "rf_SYNC (last_footer n (chunkSize s) buf)"
      "v_exst v \<longleftrightarrow> some_exst n (chunkSize s) buf" "m_oaTxc t = unat (rf_TXC (last_footer n (chunkSize s) buf))"
      "m_oaRca t = unat (rf_RCA (last_footer n (chunkSize s) buf))"
    using rx_chunks_sim [of B s R "chunkSize s" 0 n "m_oaTrxSize s" devrx heard "rx_vars_init s"]
      d a n ends q(1) by (auto simp: s ids rx_vars_init_def Let_def)
  note frame = rx_frame_fields [of R s t]
  from step have t: "rx_wf B t" "rx_partial t = devrx" "rx_ids t = drop (length heard) (rx_ids ?s)" "rx_frame R s t"
    "txq_ok R t" "m_txQueue t = tx_rest ?s"
    using rest by (simp_all add: rx_step_def s ids)
  have f: "m_oaTxCurBufIdx t = m_oaTxCurBufIdx ?s" "m_oaTxCurBufByteOffset t = m_oaTxCurBufByteOffset ?s"
    "m_oaCps t = m_oaCps ?s" "m_oaMaxChunkCount t = m_oaMaxChunkCount ?s" "s_spiTxBuf t = s_spiTxBuf ?s"
    "s_spiRxBuf t = buf" "m_state t = m_state ?s"
    using frame [OF t(4)] by (simp_all add: s_def)
  have ctl: "m_ctrlTxBuf t = m_ctrlTxBuf ?s" using rx_chunks_ctl [OF r] by (simp add: ctl_def s_def)
  have rest': "tx_rest t = tx_rest ?s" by (simp add: tx_rest_def [of t] t(6) f(1)) (simp add: tx_rest_def)
  have fr: "frame_of t e = frame_of ?s e \<and> frame_ok t e = frame_ok ?s e" if e: "e \<in> set (queue_list (tx_rest ?s))" for e
  proof -
    obtain i where "fs_pBufDesc e = Some i" "i \<notin> R"
      using e t(5) by (auto simp: txq_ok_def t(6) list_all_iff)
    moreover from frame(10) [OF t(4) this(2)] obtain rc where "s_bufs t i = (s_bufs ?s i)\<lparr>bd_refCount := rc\<rparr>"
      by (auto simp: s_def)
    ultimately show ?thesis by (simp add: frame_of_def frame_ok_def Let_def)
  qed
  note tx' = tx_cong [OF rest' f(2,3) fr]
  obtain evs where evs: "s_events t = s_events ?s @ evs" "delivered_in R evs =
      map2 (\<lambda>d f. (d, ADI_MAC_CALLBACK_STATUS_OK, take (length f - 4) f)) (take (length heard) (rx_ids ?s)) heard"
    using step by (auto simp: rx_step_def s ids)
  have "map snd (delivered_in R evs) = map (\<lambda>f. (ADI_MAC_CALLBACK_STATUS_OK, take (length f - 4) f)) heard"
    using a(6) by (intro nth_equalityI) (simp_all add: evs(2))
  then have "link_rx R (l\<lparr>l_mac := t, l_got := l_got l @ outs, l_devtx := tx_partial t,
      l_heard := l_heard l @ heard, l_devrx := devrx\<rparr>)"
    using rx t(2) by (simp add: link_rx_def evs(1))
  moreover have "data_inv R B t"
    using data t(1,3,5) d(2) tx'(2) f a(1) ctl by (auto simp: data_inv_def chunkSize_def dest: in_set_dropD)
  ultimately have "link_idle R B (l\<lparr>l_mac := t, l_got := l_got l @ outs, l_devtx := tx_partial t,
      l_heard := l_heard l @ heard, l_devrx := devrx\<rparr>)"
    using acc tx' rest' t(6) by (simp add: link_idle_def link_tx_def Let_def)
  moreover have "oa_decode n (chunkSize s) (s_spiTxBuf s) (l_devtx l) = Some (tx_partial t, outs)"
    using dec tx'(3) by (simp add: s)
  moreover have "oa_rx_decode n (chunkSize s) buf (l_devrx l) = Some (devrx, heard)"
    using a(3) rx by (simp add: s link_rx_def)
  ultimately show ?thesis using that [OF r foot(1,2)] foot(3-5) f(7) st tx' acc by (simp add: chunks)
qed

text \<open>
  A device that has transmit credits left and reports no event; and one that has no frame
  for the driver.
\<close>

definition link_grants :: "link \<Rightarrow> u8 list \<Rightarrow> bool" where
  "link_grants l buf \<longleftrightarrow> (let n = trx_chunks (l_mac l); cs = chunkSize (l_mac l) in
     \<not> some_exst n cs buf \<and> rf_TXC (last_footer n cs buf) \<noteq> 0)"

definition link_silent :: "link \<Rightarrow> u8 list \<Rightarrow> bool" where
  "link_silent l buf \<longleftrightarrow> rf_RCA (last_footer (trx_chunks (l_mac l)) (chunkSize (l_mac l)) buf) = 0"

lemma exchange_returns:
  assumes "link_inv R B l" and "m_state (l_mac l) = ADI_MAC_STATE_DATA_END" and "link_answer B l buf"
  shows "\<exists>l' r req. link_exchange buf l = Some l' \<and> link_inv R B l' \<and> l_accepted l' = l_accepted l \<and>
    oa_data_end ((l_mac l)\<lparr>s_spiRxBuf := buf\<rparr>) = Some (r, l_mac l', req) \<and>
    (m_state (l_mac l') = ADI_MAC_STATE_DATA_END \<longrightarrow> req = Some (SpiData (m_oaTrxSize (l_mac l')))) \<and>
    (tx_frames (l_mac l) = [] \<longrightarrow> l_got l' = l_accepted l) \<and>
    (tx_frames (l_mac l) \<noteq> [] \<and> link_grants l buf \<longrightarrow>
      m_state (l_mac l') = ADI_MAC_STATE_DATA_END \<and> tx_bytes (l_mac l') < tx_bytes (l_mac l)) \<and>
    (tx_frames (l_mac l) = [] \<and> link_grants l buf \<and> link_silent l buf \<longrightarrow>
      m_state (l_mac l') = ADI_MAC_STATE_READY \<and> req = None)"
proof -
  define s where "s = (l_mac l)\<lparr>s_spiRxBuf := buf\<rparr>"
  obtain v t outs heard devrx f where e: "rx_chunks (m_oaTrxSize s) (chunkSize s) 0 (rx_vars_init s, s) = Some (v, t)"
    "v_footer v = Some f" "rf_SYNC f" "f = last_footer (trx_chunks (l_mac l)) (chunkSize s) buf"
    "v_exst v \<longleftrightarrow> some_exst (trx_chunks (l_mac l)) (chunkSize s) buf" "m_oaTxc t = unat (rf_TXC f)"
    "m_oaRca t = unat (rf_RCA f)"
    "m_state t = ADI_MAC_STATE_DATA_END" "tx_frames t = tx_frames (l_mac l)" "tx_bytes t = tx_bytes (l_mac l)"
    "oa_decode (trx_chunks (l_mac l)) (chunkSize s) (s_spiTxBuf s) (l_devtx l) = Some (tx_partial t, outs)"
    "oa_rx_decode (trx_chunks (l_mac l)) (chunkSize s) buf (l_devrx l) = Some (devrx, heard)"
    "l_accepted l = l_got l @ outs @ tx_frames t"
    and idle: "link_idle R B (l\<lparr>l_mac := t, l_got := l_got l @ outs, l_devtx := tx_partial t,
           l_heard := l_heard l @ heard, l_devrx := devrx\<rparr>)"
    by (rule exchange_delivers [OF assms, folded s_def]) (rule that; assumption)
  let ?l = "l\<lparr>l_mac := t, l_got := l_got l @ outs, l_devtx := tx_partial t,
           l_heard := l_heard l @ heard, l_devrx := devrx\<rparr>"
  have cs: "chunkSize s = chunkSize (l_mac l)" "s_spiTxBuf s = s_spiTxBuf (l_mac l)"
    by (simp_all add: s_def chunkSize_def)
  have mac: "l_mac ?l = t" by simp
  obtain r u req where u: "oa_data_tail (v_exst v) t = Some (r, u, req)" "link_inv R B (?l\<lparr>l_mac := u\<rparr>)"
    "m_state u = ADI_MAC_STATE_DATA_END \<longrightarrow> req = Some (SpiData (m_oaTrxSize u))"
    and more: "\<not> v_exst v \<and> tx_frames t \<noteq> [] \<and> m_oaTxc t \<noteq> 0 \<longrightarrow>
      m_state u = ADI_MAC_STATE_DATA_END \<and> tx_bytes u < tx_bytes t"
      "\<not> v_exst v \<and> tx_frames t = [] \<and> m_oaRca t = 0 \<longrightarrow> m_state u = ADI_MAC_STATE_READY \<and> req = None"
    using tail_returns [OF idle, of "v_exst v"] e(8) unfolding mac by blast
  have d: "oa_data_end s = Some (r, u, req)"
    using e(1,2,3) u(1) by (cases "v_exst v") (simp_all add: oa_data_end_def)
  then have "link_exchange buf l = Some (?l\<lparr>l_mac := u\<rparr>)"
    using e(11,12) by (simp add: link_exchange_def Let_def cs flip: s_def)
  moreover have "m_oaTxc t \<noteq> 0 \<and> \<not> v_exst v" if "link_grants l buf"
    using that e(4-6) cs(1) by (simp add: link_grants_def Let_def unat_eq_zero)
  moreover have "m_oaRca t = 0" if "link_silent l buf"
    using that e(4,7) cs(1) by (simp add: link_silent_def)
  ultimately show ?thesis using u(2,3) more e(9,10,13) d unfolding s_def
    by (intro exI [of _ "?l\<lparr>l_mac := u\<rparr>"] exI [of _ r] exI [of _ req]) auto
qed

section \<open>Every step keeps the invariant\<close>

lemma machine_returns:
  assumes "link_inv R B l" and "m_state (l_mac l) \<noteq> ADI_MAC_STATE_DATA_END"
  shows "data_state (l_mac l) \<Longrightarrow> \<exists>x. oa_dispatch (l_mac l) = Some x"
    and "oa_dispatch (l_mac l) = Some (r, s, req) \<Longrightarrow> link_inv R B (l\<lparr>l_mac := s\<rparr>)"
proof -
  have idle: "link_idle R B l" using assms by (simp add: link_inv_def link_idle_def)
  show "data_state (l_mac l) \<Longrightarrow> \<exists>x. oa_dispatch (l_mac l) = Some x"
    using start_returns [OF idle] irq_returns [OF idle] assms(2) by (auto simp: data_state_def oa_dispatch_def)
  show "link_inv R B (l\<lparr>l_mac := s\<rparr>)" if d: "oa_dispatch (l_mac l) = Some (r, s, req)"
  proof (cases "data_state (l_mac l)")
    case True
    then show ?thesis
      using start_returns [OF idle] irq_returns [OF idle] assms(2) d by (auto simp: data_state_def oa_dispatch_def)
  next
    case False
    then show ?thesis using quiet_dispatch [OF False] d by (auto simp: quiet_def intro: link_idle_same [OF idle])
  qed
qed

lemma link_step_inv: "link_step R B l l' \<Longrightarrow> link_inv R B l \<Longrightarrow> link_inv R B l'"
proof (induction rule: link_step.induct)
  case (register_access l wnr a p n w pending irq)
  then show ?case by (intro link_inv_same) simp_all
next
  case (ctrl_answer l buf)
  then show ?case by (intro link_inv_same) simp_all
next
  case (enter l st)
  then show ?case by (intro link_inv_same) auto
next
  case (exchange l buf l')
  then show ?case using exchange_returns [of R B l buf] by auto
qed (blast intro: step_submit_tx step_submit_rx step_own_buffer machine_returns(2))+

text \<open>The driver after \<open>MAC_Init\<close>, and everything it can reach.\<close>

definition fresh_mac :: "nat \<Rightarrow> mac_state \<Rightarrow> bool" where
  "fresh_mac B s \<longleftrightarrow> m_state s = ADI_MAC_STATE_READY \<and> m_txQueue s = queueInit TX_QUEUE_NUM_ENTRIES_RAW \<and>
     m_rxQueueLp s = queueInit RX_QUEUE_NUM_ENTRIES_RAW \<and> m_oaTxCurBufIdx s = 0 \<and>
     m_oaTxCurBufByteOffset s = 0 \<and> m_oaValidFlag s = ADI_MAC_OA_VALID_FLAG_NONE \<and>
     \<not> m_oaRxUseBackupBuf s \<and> \<not> m_oaTimestampSplit s \<and> \<not> m_fcsCheckEn s \<and> m_oaCps s \<in> {3, 4, 5, 6} \<and>
     0 < m_oaMaxChunkCount s \<and> m_oaMaxChunkCount s * (4 + chunkSize s) \<le> BUFFERSIZE \<and>
     length (s_spiTxBuf s) = BUFFERSIZE \<and> length (s_spiRxBuf s) = BUFFERSIZE \<and>
     length (m_ctrlTxBuf s) = 256 \<and> s_events s = [] \<and> 64 \<le> B \<and> B < 2 ^ 16"

definition link_reach :: "nat set \<Rightarrow> nat \<Rightarrow> mac_state \<Rightarrow> link \<Rightarrow> bool" where
  "link_reach R B s l \<longleftrightarrow> fresh_mac B s \<and> (link_step R B)\<^sup>*\<^sup>* (link_init s) l"

lemma fresh_inv:
  assumes "fresh_mac B s"
  shows "link_inv R B (link_init s)"
proof -
  have q: "queue_list (queueInit n) = []" "queue_inv (queueInit n)" if "n \<in> {TX_QUEUE_NUM_ENTRIES_RAW, RX_QUEUE_NUM_ENTRIES_RAW}" for n
    using that queue_list_queueInit [of n] queue_inv_queueInit [of n]
    by (auto simp: TX_QUEUE_NUM_ENTRIES_RAW_def RX_QUEUE_NUM_ENTRIES_RAW_def)
  have rest: "tx_rest s = m_txQueue s" "q_numEntries (m_txQueue s) = TX_QUEUE_NUM_ENTRIES_RAW"
    using assms by (simp_all add: fresh_mac_def tx_rest_def) (simp_all add: queueInit_def)
  have fr: "tx_frames s = []" "rx_ids s = []"
    using assms q by (simp_all add: tx_frames_def rx_ids_def rest fresh_mac_def)
  have "tx_wf s" "rx_wf B s" "txq_ok R s"
    using assms q rest(2) by (simp_all add: tx_wf_def rx_wf_def txq_ok_def rest(1) fr fresh_mac_def)
  then have "data_inv R B s" using assms fr(2) by (simp add: data_inv_def fresh_mac_def)
  then show ?thesis using assms fr rest(1)
    by (simp add: link_inv_def link_init_def link_rx_def link_tx_def rx_partial_def tx_partial_def fresh_mac_def)
qed

lemma link_reach_inv:
  assumes "link_reach R B s l"
  shows "link_inv R B l"
proof -
  have "(link_step R B)\<^sup>*\<^sup>* (link_init s) l" and "fresh_mac B s" using assms by (simp_all add: link_reach_def)
  then show ?thesis
    by (induction rule: rtranclp_induct) (blast intro: fresh_inv link_step_inv)+
qed

text \<open>The histories only grow, and the chunk size is not changed.\<close>

lemma link_history_grows:
  assumes "link_step R B l l'"
  shows "\<exists>xs ys zs. l_accepted l' = l_accepted l @ xs \<and> l_got l' = l_got l @ ys \<and> l_heard l' = l_heard l @ zs"
  using assms by (rule link_stepE) (auto simp: link_exchange_def Let_def bind_eq_Some_conv)

lemma dispatch_cps: "oa_dispatch s = Some (r, t, req) \<Longrightarrow> m_oaCps t = m_oaCps s"
proof (cases "data_state s")
  case True
  assume d: "oa_dispatch s = Some (r, t, req)"
  have tail: "m_oaCps t = m_oaCps u" if "oa_data_tail b u = Some (r, t, req)" for b u
    using that by (auto simp: oa_data_tail_def bind_eq_Some_conv ctl_def oa_ready_def Let_def
        split: if_splits elim!: ctrl_setup_frame dest!: oaSpiProcess_ctl)
  from True d show ?thesis
    by (auto simp: data_state_def oa_dispatch_def oa_data_start_def oa_data_end_def oa_irq_start_def
        bind_eq_Some_conv ctl_def oa_ready_def Let_def split: if_splits
        dest!: oaSpiProcess_ctl rx_chunks_ctl tail)
next
  case False
  assume "oa_dispatch s = Some (r, t, req)"
  with quiet_dispatch [OF False] show ?thesis by (simp add: quiet_def data_view_def)
qed

lemma step_cps: "link_step R B l l' \<Longrightarrow> m_oaCps (l_mac l') = m_oaCps (l_mac l)"
proof (induction rule: link_step.induct)
  case (submit_tx d l header s)
  then show ?case by (auto simp: enqueue_tx_def append_fcs_def bind_eq_Some_conv upd_desc_def Let_def split: if_splits)
next
  case (exchange l buf l')
  then have "m_oaCps (l_mac l') = m_oaCps ((l_mac l)\<lparr>s_spiRxBuf := buf\<rparr>)"
    using dispatch_cps [of "(l_mac l)\<lparr>s_spiRxBuf := buf\<rparr>"]
    by (auto simp: link_exchange_def Let_def bind_eq_Some_conv oa_dispatch_def)
  then show ?case by simp
qed (auto simp: upd_desc_def dest: dispatch_cps)

lemma reach_chunkSize:
  assumes "link_reach R B s l"
  shows "chunkSize (l_mac l) = chunkSize s"
proof -
  have "(link_step R B)\<^sup>*\<^sup>* (link_init s) l" using assms by (simp add: link_reach_def)
  then have "m_oaCps (l_mac l) = m_oaCps s"
    by (induction rule: rtranclp_induct) (simp_all add: step_cps link_init_def)
  then show ?thesis by (simp add: chunkSize_def)
qed

lemma reach_step: "link_reach R B s l \<Longrightarrow> link_step R B l l' \<Longrightarrow> link_reach R B s l'"
  unfolding link_reach_def by (blast intro: rtranclp.rtrancl_into_rtrancl)

lemmas reach_exchange = reach_step [OF _ link_step.exchange]

section \<open>A device that is always willing\<close>

text \<open>\<open>k\<close> transactions, answered by the device \<open>dev\<close>, with no other step between them.\<close>

fun serve :: "(link \<Rightarrow> u8 list) \<Rightarrow> nat \<Rightarrow> link \<Rightarrow> link option" where
  "serve dev 0 l = Some l"
| "serve dev (Suc k) l = (if m_state (l_mac l) = ADI_MAC_STATE_DATA_END
     then do { l \<leftarrow> link_exchange (dev l) l; serve dev k l } else None)"

definition willing :: "nat set \<Rightarrow> nat \<Rightarrow> mac_state \<Rightarrow> (link \<Rightarrow> u8 list) \<Rightarrow> bool" where
  "willing R B s dev \<longleftrightarrow> (\<forall>l. link_reach R B s l \<longrightarrow> m_state (l_mac l) = ADI_MAC_STATE_DATA_END \<longrightarrow>
     link_answer B l (dev l) \<and> link_grants l (dev l))"

text \<open>A device that has nothing to send and one credit to give, in every footer.\<close>

definition idle_chunk :: "nat \<Rightarrow> u8 list" where
  "idle_chunk cs = replicate cs 0 @ [0x20, 0, 0, 3]"

lemma idle_footer:
  "rf_of_VALUE32 0x20000003 = \<lparr>rf_P = True, rf_TXC = 1, rf_RTSP = False, rf_RTSA = False, rf_EBO = 0,
     rf_EV = False, rf_FD = False, rf_SWO = 0, rf_SV = False, rf_DV = False, rf_VS = 0, rf_RCA = 0,
     rf_SYNC = True, rf_HDRB = False, rf_EXST = False\<rparr>"
  "odd (popcount (0x20000003 :: u32))" "HTON32 (le_word32 [0x20, 0, 0, 3]) = 0x20000003"
  by code_simp+

lemma idle_chunk_facts:
  assumes "0 < cs"
  shows "footer_at cs (idle_chunk cs @ r) = 0x20000003" "drop (4 + cs) (idle_chunk cs @ r) = r"
    "clean_footer cs 0x20000003"
  using assms idle_footer by (simp_all add: idle_chunk_def footer_at_def clean_footer_def Let_def)

lemma length_idle_chunk: "length (idle_chunk cs) = 4 + cs"
  by (simp add: idle_chunk_def)

lemma length_concat_replicate: "length (concat (replicate n xs)) = n * length xs"
  by (induction n) simp_all

lemma idle_chunks:
  assumes "0 < cs"
  shows "clean_footers n cs (concat (replicate n (idle_chunk cs)) @ r)"
    and "oa_rx_decode n cs (concat (replicate n (idle_chunk cs)) @ r) cur = Some (cur, [])"
    and "\<not> some_exst n cs (concat (replicate n (idle_chunk cs)) @ r)"
    and "0 < n \<Longrightarrow> last_footer n cs (concat (replicate n (idle_chunk cs)) @ r) = rf_of_VALUE32 0x20000003"
proof -
  note c = idle_chunk_facts [OF assms]
  show "clean_footers n cs (concat (replicate n (idle_chunk cs)) @ r)"
    "oa_rx_decode n cs (concat (replicate n (idle_chunk cs)) @ r) cur = Some (cur, [])"
    "\<not> some_exst n cs (concat (replicate n (idle_chunk cs)) @ r)"
    by (induction n) (simp_all add: c length_idle_chunk footer_step_def idle_footer)
  assume "0 < n"
  then obtain m where m: "n = Suc m" by (cases n) auto
  have "concat (replicate n (idle_chunk cs)) @ r = concat (replicate m (idle_chunk cs)) @ idle_chunk cs @ r"
    unfolding m by (simp flip: replicate_append_same)
  then have "drop (m * (4 + cs)) (concat (replicate n (idle_chunk cs)) @ r) = idle_chunk cs @ r"
    using length_concat_replicate [of m "idle_chunk cs"] by (simp add: length_idle_chunk)
  then show "last_footer n cs (concat (replicate n (idle_chunk cs)) @ r) = rf_of_VALUE32 0x20000003"
    by (simp add: last_footer_def m c(1))
qed

definition idle_answer :: "nat \<Rightarrow> nat \<Rightarrow> u8 list \<Rightarrow> u8 list" where
  "idle_answer n cs r = concat (replicate n (idle_chunk cs)) @ r"

lemma idle_answers:
  assumes reach: "link_reach R B s l" and st: "m_state (l_mac l) = ADI_MAC_STATE_DATA_END"
    and len: "length (idle_answer (trx_chunks (l_mac l)) (chunkSize (l_mac l)) r) = BUFFERSIZE"
  defines "buf \<equiv> idle_answer (trx_chunks (l_mac l)) (chunkSize (l_mac l)) r"
  shows "link_answer B l buf \<and> link_grants l buf \<and> link_silent l buf"
proof -
  let ?s = "l_mac l" and ?n = "trx_chunks (l_mac l)"
  from link_reach_inv [OF reach] st have n: "0 < ?n" and data: "data_inv R B ?s" and rx: "rx_partial ?s = l_devrx l"
    by (auto simp: link_inv_def link_rx_def trx_chunks_def)
  have cs: "0 < chunkSize ?s" by (simp add: chunkSize_def)
  have wf: "rx_wf B ?s" using data by (simp add: data_inv_def)
  have "length g \<le> B \<and> rx_ids ?s \<noteq> []" if "l_devrx l = Some g" for g
    using rx_partial_Some [OF wf, of g] that rx wf by (auto simp: rx_wf_def)
  then have "link_answer B l buf"
    using idle_chunks [OF cs] len data unfolding link_answer_unfold buf_def idle_answer_def
    by (cases "l_devrx l") (auto simp: Let_def data_inv_def Suc_le_eq)
  then show ?thesis
    using idle_chunks [OF cs] n by (simp add: link_grants_def link_silent_def buf_def idle_answer_def idle_footer(1) Let_def)
qed

text \<open>The transactions fit, so the idle device can fill the receive buffer.\<close>

lemma reach_fits:
  assumes reach: "link_reach R B s l" and st: "m_state (l_mac l) = ADI_MAC_STATE_DATA_END"
  shows "m_oaTrxSize (l_mac l) = trx_chunks (l_mac l) * (4 + chunkSize (l_mac l))"
    and "m_oaTrxSize (l_mac l) \<le> BUFFERSIZE" and "length (s_spiRxBuf (l_mac l)) = BUFFERSIZE"
    and "length (s_spiTxBuf (l_mac l)) = BUFFERSIZE" and "0 < trx_chunks (l_mac l)"
  using link_reach_inv [OF reach] st by (auto simp: link_inv_def trx_chunks_def data_inv_def)

definition idle_device :: "link \<Rightarrow> u8 list" where
  "idle_device l = idle_answer (trx_chunks (l_mac l)) (chunkSize (l_mac l))
     (replicate (BUFFERSIZE - m_oaTrxSize (l_mac l)) 0)"

lemma length_idle_answer: "length (idle_answer n cs r) = n * (4 + cs) + length r"
  by (simp only: idle_answer_def length_append length_concat_replicate length_idle_chunk)

lemma idle_willing: "willing R B s idle_device"
  unfolding willing_def idle_device_def
  by (metis idle_answers length_idle_answer length_replicate le_add_diff_inverse reach_fits(1,2))

text \<open>A frame of 60 bytes is submitted and its transmission started.\<close>

definition link_example :: mac_state where
  "link_example = (static_state (\<lambda>_. blank_desc\<lparr>bd_trxSize := 60\<rparr>))\<lparr>m_state := ADI_MAC_STATE_READY\<rparr>"

lemma link_example_fresh: "fresh_mac 1530 link_example"
  by (simp add: fresh_mac_def link_example_def chunkSize_def BUFFERSIZE_def ADI_OA_MAX_CHUNK64_COUNT_def)

lemma link_example_submits:
  "m_state link_example = ADI_MAC_STATE_READY" "m_oaTxc link_example = 31" "chunkSize link_example = 64"
  "submit_tx_check (Some 2) link_example = Inr 2" "bd_trxSize (s_bufs link_example 2) = 60"
  "length (bd_pBuf (s_bufs link_example 2)) = 1530" "take 60 (bd_pBuf (s_bufs link_example 2)) = replicate 60 0"
proof -
  have b: "s_bufs link_example 2 = blank_desc\<lparr>bd_trxSize := 60\<rparr>" "m_fcsCheckEn link_example = False"
    by (simp_all add: link_example_def)
  show "submit_tx_check (Some 2) link_example = Inr 2"
    using b by (simp add: submit_tx_check_def frame_sizes)
      (simp add: link_example_def queueIsFull_def queueInit_def queueCount_def PSEUDO_MODULO_def TX_QUEUE_NUM_ENTRIES_RAW_def)
  show "bd_trxSize (s_bufs link_example 2) = 60" "length (bd_pBuf (s_bufs link_example 2)) = 1530"
    "take 60 (bd_pBuf (s_bufs link_example 2)) = replicate 60 0"
    by (simp_all add: b) (simp add: blank_desc_def min_def)
qed (simp_all add: link_example_def chunkSize_def)

lemma link_example_runs:
  "\<exists>l. link_reach {7} 1530 link_example l \<and> m_state (l_mac l) = ADI_MAC_STATE_DATA_END \<and>
     l_accepted l = [replicate 60 0] \<and> l_got l = []"
proof -
  let ?step = "link_step {7} 1530" and ?s = link_example
  define s1 where "s1 = ?s\<lparr>m_txQueue := queuePut (m_txQueue ?s) \<lparr>fs_header = 0, fs_pBufDesc = Some 2\<rparr>\<rparr>"
  define l1 where "l1 = (link_init ?s)\<lparr>l_mac := s1, l_accepted := [replicate 60 0]\<rparr>"
  have "enqueue_tx 0 2 ?s = Some s1" by (simp add: enqueue_tx_def append_fcs_def s1_def link_example_def)
  then have 1: "?step (link_init ?s) l1"
    using link_step.submit_tx [of 2 "link_init ?s" "{7}" 0 s1 1530] link_example_submits
    by (simp add: link_init_def l1_def)
  define l2 where "l2 = l1\<lparr>l_mac := s1\<lparr>m_state := ADI_MAC_STATE_DATA_START\<rparr>\<rparr>"
  have "m_state s1 = ADI_MAC_STATE_READY" by (simp add: s1_def link_example_def)
  then have 2: "?step l1 l2"
    using link_step.enter [of l1 ADI_MAC_STATE_DATA_START "{7}" 1530] by (simp add: l1_def l2_def)
  have "?step\<^sup>*\<^sup>* (link_init ?s) l2" using 1 2 by (meson r_into_rtranclp rtranclp_trans)
  with link_example_fresh have reach: "link_reach {7} 1530 ?s l2" by (simp add: link_reach_def)
  then have inv: "link_inv {7} 1530 l2" by (rule link_reach_inv)
  have f: "m_state (l_mac l2) = ADI_MAC_STATE_DATA_START" "l_accepted l2 = [replicate 60 0]" "l_got l2 = []"
    "m_oaTxc (l_mac l2) = 31"
    by (simp_all add: l2_def l1_def link_init_def s1_def link_example_def)
  have idle: "link_idle {7} 1530 l2" using inv f(1) by (simp add: link_inv_def link_idle_def)
  then have "tx_frames (l_mac l2) = [replicate 60 0]" using f(2,3) by (simp add: link_idle_def link_tx_def Let_def)
  then have "tx_needed (l_mac l2)" using f(4) by (simp add: tx_needed_def)
  with start_returns [OF idle f(1)] obtain t req where t: "oa_dispatch (l_mac l2) = Some (ADI_ETH_SUCCESS, t, req)"
    "m_state t = ADI_MAC_STATE_DATA_END" using f(1) by (auto simp: oa_dispatch_def)
  have "link_reach {7} 1530 ?s (l2\<lparr>l_mac := t\<rparr>)"
    using reach_step [OF reach link_step.machine [OF _ t(1)]] f(1) by simp
  with t(2) f show ?thesis by (intro exI [of _ "l2\<lparr>l_mac := t\<rparr>"]) simp
qed

section \<open>More frames than buffers\<close>

text \<open>The receive loop fills no slot of the receive queue.\<close>

definition rx_slots :: "mac_state \<Rightarrow> adi_mac_FrameStruct_t list \<times> nat" where
  "rx_slots s = (q_pEntries (m_rxQueueLp s), q_head (m_rxQueueLp s))"

lemma rx_slots_upd [simp]:
  "rx_slots (upd_desc d f s) = rx_slots s" "rx_slots (upd_stats g s) = rx_slots s" "rx_slots (emit e s) = rx_slots s"
  "rx_slots (s\<lparr>m_oaRxCurBufByteOffset := n\<rparr>) = rx_slots s" "rx_slots (s\<lparr>m_oaValidFlag := x\<rparr>) = rx_slots s"
  "rx_slots (s\<lparr>m_oaTimestampSplit := b\<rparr>) = rx_slots s" "rx_slots (s\<lparr>m_oaTimestampParity := y\<rparr>) = rx_slots s"
  "rx_slots (s\<lparr>m_oaTxc := n\<rparr>) = rx_slots s" "rx_slots (s\<lparr>m_oaRca := n\<rparr>) = rx_slots s"
  "rx_slots (s\<lparr>m_txQueue := q\<rparr>) = rx_slots s" "rx_slots (s\<lparr>m_oaRxUseBackupBuf := b\<rparr>) = rx_slots s"
  "rx_slots (s\<lparr>m_oaRxBufChunkStart := n\<rparr>) = rx_slots s" "rx_slots (s\<lparr>m_oaRxBufTrxSize := n\<rparr>) = rx_slots s"
  "rx_slots (call_buf_desc ev d s) = rx_slots s" "rx_slots (rx_remove s) = rx_slots s"
  by (simp_all add: rx_slots_def upd_desc_def upd_stats_def emit_def call_buf_desc_def rx_remove_def queueRemove_def
      split: option.split)

lemma rx_slots_deliver [simp]: "rx_slots (rx_deliver ev d s) = rx_slots s"
  by (simp add: rx_deliver_def Let_def split: option.split)

lemma copy_rx_slots: "copy_rx d dst src n s = Some s' \<Longrightarrow> rx_slots s' = rx_slots s"
  by (auto simp: copy_rx_def bind_eq_Some_conv)

lemma rx_split_timestamp_slots: "rx_split_timestamp d c (v, s) = Some (b, v', s') \<Longrightarrow> rx_slots s' = rx_slots s"
  by (auto simp: rx_split_timestamp_def Let_def bind_eq_Some_conv split: if_splits)

lemma rx_end_of_frame_slots: "rx_end_of_frame f d c (v, s) = Some (v', s') \<Longrightarrow> rx_slots s' = rx_slots s"
  by (auto simp: rx_end_of_frame_def Let_def bind_eq_Some_conv split: if_splits
      dest!: copy_rx_slots rx_fcs_check_ctl)

lemma rx_start_timestamp_slots: "rx_start_timestamp f d c b (v, s) = Some (b', v', s') \<Longrightarrow> rx_slots s' = rx_slots s"
  by (auto simp: rx_start_timestamp_def Let_def bind_eq_Some_conv split: if_splits)

lemma rx_start_of_frame_slots: "rx_start_of_frame f c (v, s) = Some (v', s') \<Longrightarrow> rx_slots s' = rx_slots s"
  unfolding rx_start_of_frame_def Let_def prod.case
  by (auto simp: bind_eq_Some_conv split: if_splits
      dest!: copy_rx_slots rx_fcs_check_ctl rx_start_timestamp_slots)

lemma rx_middle_slots: "rx_middle f d c b (v, s) = Some (v', s') \<Longrightarrow> rx_slots s' = rx_slots s"
  by (auto simp: rx_middle_def Let_def bind_eq_Some_conv split: if_splits dest!: copy_rx_slots)

lemma rx_data_slots: "rx_data f c (v, s) = Some (v', s') \<Longrightarrow> rx_slots s' = rx_slots s"
  by (auto simp: rx_data_def bind_eq_Some_conv split: if_splits
      dest!: rx_split_timestamp_slots rx_end_of_frame_slots rx_start_of_frame_slots rx_middle_slots)

lemma tx_confirm_slots: "tx_confirm c (v, s) = Some (v', s') \<Longrightarrow> rx_slots s' = rx_slots s"
  by (auto simp: tx_confirm_def Let_def bind_eq_Some_conv split: if_splits)

lemma rx_chunk_slots: "rx_chunk c (v, s) = Some (v', s') \<Longrightarrow> rx_slots s' = rx_slots s"
  by (auto simp: rx_chunk_def Let_def bind_eq_Some_conv split: if_splits
      dest!: rx_data_slots tx_confirm_slots)

text \<open>The loop over the first \<open>k\<close> chunks, and then over the rest.\<close>

lemma rx_chunks_prefix:
  assumes "rx_chunks (start + k * (4 + cs)) cs start vs = Some vs'" and "start + k * (4 + cs) \<le> trx"
  shows "rx_chunks trx cs start vs = rx_chunks trx cs (start + k * (4 + cs)) vs' \<and>
    rx_slots (snd vs') = rx_slots (snd vs)"
  using assms
proof (induction k arbitrary: start vs)
  case 0
  then show ?case by (simp add: rx_chunks.simps [of start])
next
  case (Suc k)
  let ?next = "start + ADI_SPI_HEADER_SIZE + cs"
  have n: "start + Suc k * (4 + cs) = ?next + k * (4 + cs)" by (simp add: ADI_SPI_HEADER_SIZE_def)
  obtain v1 s1 where one: "rx_chunk start vs = Some (v1, s1)" "rx_chunks (?next + k * (4 + cs)) cs ?next (v1, s1) = Some vs'"
    using Suc.prems(1) unfolding n by (subst (asm) rx_chunks.simps) (auto simp: bind_eq_Some_conv ADI_SPI_HEADER_SIZE_def)
  have "start < trx" using Suc.prems(2) by simp
  with Suc.IH [OF one(2)] Suc.prems(2) one(1) rx_chunk_slots [of start "fst vs" "snd vs" v1 s1] show ?case
    unfolding n by (simp add: rx_chunks.simps [of trx cs start])
qed

text \<open>What holds of all chunks holds of the first \<open>k\<close>.\<close>

lemma clean_footers_prefix:
  "clean_footers n cs bs \<Longrightarrow> k < n \<Longrightarrow> clean_footers k cs bs \<and> clean_footer cs (footer_at cs (drop (k * (4 + cs)) bs))"
proof (induction n arbitrary: bs k)
  case step: (Suc n)
  show ?case
  proof (cases k)
    case (Suc m)
    then show ?thesis using step.IH [of "drop (4 + cs) bs" m] step.prems by (simp add: ac_simps)
  qed (use step.prems in simp)
qed simp

lemma tx_ends_prefix: "k \<le> n \<Longrightarrow> tx_ends k cs bs \<le> tx_ends n cs bs"
proof (induction n arbitrary: bs k)
  case (Suc n)
  then show ?case by (cases k) auto
qed simp

lemma oa_rx_decode_prefix:
  "oa_rx_decode n cs bs cur = Some (cur', outs) \<Longrightarrow> k \<le> n \<Longrightarrow>
   \<exists>c o1 o2. oa_rx_decode k cs bs cur = Some (c, o1) \<and> outs = o1 @ o2"
proof (induction n arbitrary: bs k cur outs)
  case (Suc n)
  then show ?case
    by (cases k) (fastforce simp: bind_eq_Some_conv)+
qed simp

text \<open>
  The frames of the first \<open>k\<close> chunks take all the buffers, and the chunk behind them carries data.
\<close>

definition link_outruns :: "nat \<Rightarrow> link \<Rightarrow> u8 list \<Rightarrow> bool" where
  "link_outruns k l buf \<longleftrightarrow>
     (let s = l_mac l; cs = chunkSize s in
      k < trx_chunks s \<and>
      (case oa_rx_decode k cs buf (l_devrx l) of
         Some (None, heard) \<Rightarrow> length heard = length (rx_ids s)
       | _ \<Rightarrow> False) \<and>
      rf_DV (rf_of_VALUE32 (footer_at cs (drop (k * (4 + cs)) buf))))"

text \<open>
  If then the slot of the queue that would be filled next has never been filled, the driver follows
  its null pointer.
\<close>

lemma exchange_outruns:
  assumes inv: "link_inv R B l" and st: "m_state (l_mac l) = ADI_MAC_STATE_DATA_END"
    and conf: "link_conforms B l buf" and k: "k < trx_chunks (l_mac l)"
  defines "cs \<equiv> chunkSize (l_mac l)"
  assumes dec: "oa_rx_decode k cs buf (l_devrx l) = Some (None, heard)"
    and all: "length heard = length (rx_ids (l_mac l))"
    and dv: "rf_DV (rf_of_VALUE32 (footer_at cs (drop (k * (4 + cs)) buf)))"
    and slot: "slot_desc (m_rxQueueLp (l_mac l)) (q_head (m_rxQueueLp (l_mac l))) = None"
  shows "oa_data_end ((l_mac l)\<lparr>s_spiRxBuf := buf\<rparr>) = None"
proof -
  let ?s = "l_mac l"
  define s where "s = ?s\<lparr>s_spiRxBuf := buf\<rparr>"
  obtain n outs where n: "0 < n" "m_oaTrxSize ?s = n * (4 + cs)" "m_oaTrxSize ?s \<le> BUFFERSIZE"
    and tx: "link_tx l n outs" and data: "data_inv R B ?s" and rx: "link_rx R l"
    using inv st by (auto simp: link_inv_def cs_def)
  have chunks: "trx_chunks ?s = n" using n(2) by (simp add: trx_chunks_def flip: cs_def)
  have ids: "rx_ids s = rx_ids ?s" by (simp add: s_def rx_ids_def)
  have s: "chunkSize s = cs" "rx_wf B s = rx_wf B ?s" "rx_partial s = rx_partial ?s"
    "txq_ok R s = txq_ok R ?s" "s_spiTxBuf s = s_spiTxBuf ?s" "m_txQueue s = m_txQueue ?s"
    "m_oaTrxSize s = m_oaTrxSize ?s" "s_spiRxBuf s = buf" "rx_slots s = rx_slots ?s"
    unfolding rx_wf_def rx_partial_def ids txq_ok_def by (simp_all add: s_def chunkSize_def cs_def rx_slots_def)
  obtain devrx total where a: "length buf = BUFFERSIZE" "clean_footers n cs buf"
    "oa_rx_decode n cs buf (rx_partial ?s) = Some (devrx, total)" "\<forall>h \<in> set total. 5 \<le> length h \<and> length h \<le> B"
    using conf data rx by (auto simp: link_conforms_def Let_def chunks data_inv_def link_rx_def cs_def split: option.splits)
  have p: "oa_rx_decode k cs buf (rx_partial ?s) = Some (None, heard)" using dec rx by (simp add: link_rx_def)
  obtain o2 where "total = heard @ o2" using oa_rx_decode_prefix [OF a(3), of k] k chunks p by auto
  then have sizes: "\<forall>h \<in> set heard. 5 \<le> length h \<and> length h \<le> B" using a(4) by auto
  note clean = clean_footers_prefix [OF a(2) k [unfolded chunks]]
  have kn: "k * (4 + cs) + (4 + cs) \<le> m_oaTrxSize ?s" using k unfolding n(2) chunks
    by (metis Suc_leI add.commute mult_Suc mult_le_mono1)
  note q = link_tx_queue [OF data tx]
  have ends: "tx_ends k cs (s_spiTxBuf ?s) \<le> length (queue_list (m_txQueue ?s))"
    using tx_ends_prefix [of k n cs "s_spiTxBuf ?s"] k q(1) tx by (simp add: chunks link_tx_def Let_def cs_def)
  obtain v t where r: "rx_chunks (0 + k * (4 + cs)) cs 0 (rx_vars_init s, s) = Some (v, t)"
    and step: "rx_step R B ADI_MAC_CALLBACK_STATUS_OK s t None heard (tx_ends k cs (s_spiTxBuf ?s))"
    using rx_chunks_sim [of B s R cs 0 k "k * (4 + cs)" None heard "rx_vars_init s"]
      data a(1) clean p sizes all ends kn n(3) by (auto simp: s ids rx_vars_init_def data_inv_def)
  note pre = rx_chunks_prefix [OF r, of "m_oaTrxSize ?s"]
  have t: "rx_wf B t" "rx_ids t = []" "rx_frame R s t"
    using step all by (simp_all add: rx_step_def ids)
  have f: "s_spiRxBuf t = buf" "chunkSize t = cs"
    using rx_frame_fields [OF t(3)] s by (simp_all add: chunkSize_def)
  have "queueIsEmpty (m_rxQueueLp t)"
    using ring.empty_iff [of "m_rxQueueLp t"] t(1,2) by (simp add: rx_wf_def rx_ids_def)
  moreover have "rx_slots t = rx_slots ?s" using pre kn s(9) by simp
  ultimately have "rx_desc t = None"
    using slot by (simp add: rx_desc_def queueIsEmpty_def rx_slots_def slot_desc_def queue_entry_def split: if_splits)
  have "rx_chunk (k * (4 + cs)) (v, t) = None"
  proof -
    define w where "w = footer_at cs (drop (k * (4 + cs)) buf)"
    have cl: "odd (popcount w)" "rf_SYNC (rf_of_VALUE32 w)"
      using clean by (simp_all add: clean_footer_def w_def Let_def)
    have bad: "w \<noteq> ADI_OA_HEADER_BAD"
      using cl(2) by (auto simp: rf_of_VALUE32_def ADI_OA_HEADER_BAD_def)
    have par: "MAC_CalculateParity (le_bytes32 w) \<noteq> 0" using cl(1) by (simp add: MAC_CalculateParity_word)
    have rd: "mem_read (s_spiRxBuf t) (k * (4 + cs) + chunkSize t) 4 = Some (take 4 (drop cs (drop (k * (4 + cs)) buf)))"
      using kn n(3) a(1) by (simp add: mem_read_ok f add.commute)
    have wd: "HTON32 (le_word32 (take 4 (drop cs (drop (k * (4 + cs)) buf)))) = w"
      by (simp only: w_def footer_at_def)
    have "rx_data (rf_of_VALUE32 w) c (v', t\<lparr>m_oaTxc := x, m_oaRca := y\<rparr>) = None" for c v' x y
      using \<open>rx_desc t = None\<close> by (simp add: rx_data_def rx_desc_def)
    moreover have "\<not> m_oaRxUseBackupBuf t" using t(1) by (simp add: rx_wf_def)
    ultimately show ?thesis
      unfolding rx_chunk_def prod.case rd Let_def Option.bind.bind_lunit wd
      using bad par cl(2) dv by (simp flip: w_def)
  qed
  moreover have "k * (4 + cs) < m_oaTrxSize ?s" using kn by simp
  ultimately have "rx_chunks (m_oaTrxSize ?s) cs (k * (4 + cs)) (v, t) = None"
    by (simp add: rx_chunks.simps [of _ _ "k * (4 + cs)"])
  then show ?thesis using pre kn by (simp add: oa_data_end_def s flip: s_def)
qed

section \<open>Properties\<close>

text \<open>
  C2: in every interleaving of submissions, register accesses, interrupts, passes of the state
  machine and answers of a device that keeps to the protocol, with footers free of errors and no
  more frames at a time than receive buffers are queued, the frames the device has decoded
  followed by the frames still in the transmit queue (of which there are at most four) are the
  frames the application submitted, in order and unchanged; and the frames handed to the
  application, with success, are those the device sent, in order, without their frame check
  sequence.
\<close>

theorem link_keeps_frames:
  assumes "link_reach R B s l"
  shows "l_accepted l = l_got l @ map (frame_of (l_mac l)) (queue_list (m_txQueue (l_mac l))) \<and>
    length (queue_list (m_txQueue (l_mac l))) \<le> 4 \<and>
    map snd (delivered_in R (s_events (l_mac l))) =
      map (\<lambda>f. (ADI_MAC_CALLBACK_STATUS_OK, take (length f - 4) f)) (l_heard l)"
proof -
  note inv = link_reach_inv [OF assms]
  then obtain n outs where tx: "link_tx l n outs" and data: "data_inv R B (l_mac l)" and rx: "link_rx R l"
    by (auto simp: link_inv_def split: if_splits)
  note q = link_tx_queue [OF data tx]
  have "length (queue_list (m_txQueue (l_mac l))) \<le> 4"
    using ring.content_bound [OF q(4)] data
    by (simp add: queue_capacity_def data_inv_def tx_wf_def TX_QUEUE_NUM_ENTRIES_RAW_def)
  with tx rx q(3) show ?thesis by (simp add: link_tx_def link_rx_def Let_def)
qed

theorem link_keeps_frames_witness:
  "\<exists>l. link_reach {7} 1530 link_example l \<and> l_accepted l = [replicate 60 0] \<and>
     l_accepted l = l_got l @ map (frame_of (l_mac l)) (queue_list (m_txQueue (l_mac l)))"
proof -
  obtain l where l: "link_reach {7} 1530 link_example l" "l_accepted l = [replicate 60 0]"
    using link_example_runs by blast
  with link_keeps_frames [OF l(1)] show ?thesis by blast
qed

text \<open>
  C7: in every such interleaving a transmission and an interrupt can always be started, and the
  answer of a device that keeps to the protocol is received, without an access outside a buffer,
  through a null descriptor or to the footer of an empty transaction, as long as its frames do not
  outnumber the receive buffers queued.  When they do, and the slot of the receive queue behind
  the buffers has never been filled, the driver follows the null pointer in it as soon as a chunk
  with data comes.
\<close>

theorem link_progress:
  assumes "link_reach R B s l"
  shows "(m_state (l_mac l) \<in> {ADI_MAC_STATE_DATA_START, ADI_MAC_STATE_IRQ_START} \<longrightarrow>
      (\<exists>x. oa_dispatch (l_mac l) = Some x)) \<and>
    (m_state (l_mac l) = ADI_MAC_STATE_DATA_END \<and> link_conforms B l buf \<longrightarrow>
      (link_buffered l buf \<longrightarrow> (\<exists>l'. link_exchange buf l = Some l' \<and> link_reach R B s l')) \<and>
      (link_outruns k l buf \<and> slot_desc (m_rxQueueLp (l_mac l)) (q_head (m_rxQueueLp (l_mac l))) = None \<longrightarrow>
        oa_data_end ((l_mac l)\<lparr>s_spiRxBuf := buf\<rparr>) = None))"
proof -
  note inv = link_reach_inv [OF assms]
  have "\<exists>l'. link_exchange buf l = Some l' \<and> link_reach R B s l'"
    if st: "m_state (l_mac l) = ADI_MAC_STATE_DATA_END" and "link_conforms B l buf" "link_buffered l buf"
  proof -
    have ans: "link_answer B l buf" using that(2,3) by (simp add: link_answer_def)
    obtain l' where l': "link_exchange buf l = Some l'" using exchange_returns [OF inv st ans] by blast
    with reach_exchange [OF assms st ans l'] show ?thesis by blast
  qed
  then show ?thesis
    using machine_returns(1) [OF inv] exchange_outruns [OF inv]
    by (auto simp: data_state_def link_outruns_def Let_def split: option.splits prod.splits)
qed

text \<open>
  The device has announced two chunks, the application has queued one buffer, and the device
  answers with two frames of one chunk each.
\<close>

definition full_chunk :: "u8 list" where
  "full_chunk = replicate 64 0 @ [0x20, 0x30, 0x7F, 0x02]"

lemma full_footer:
  "rf_of_VALUE32 0x20307F02 = \<lparr>rf_P = False, rf_TXC = 1, rf_RTSP = False, rf_RTSA = False, rf_EBO = 63,
     rf_EV = True, rf_FD = False, rf_SWO = 0, rf_SV = True, rf_DV = True, rf_VS = 0, rf_RCA = 0,
     rf_SYNC = True, rf_HDRB = False, rf_EXST = False\<rparr>"
  "odd (popcount (0x20307F02 :: u32))" "HTON32 (le_word32 [0x20, 0x30, 0x7F, 0x02]) = 0x20307F02"
  by code_simp+

lemma full_chunk_facts:
  "footer_at 64 (full_chunk @ r) = 0x20307F02" "drop 68 (full_chunk @ r) = r"
  "clean_footer 64 0x20307F02" "length full_chunk = 68"
  "footer_step (rf_of_VALUE32 0x20307F02) (take 64 full_chunk) None = Some (None, [replicate 64 0])"
  using full_footer
  by (simp_all add: full_chunk_def footer_at_def clean_footer_def footer_step_def oa_step_def Let_def)

lemma chunk_without_data:
  "p + 4 \<le> length buf \<Longrightarrow> \<exists>buf'. oaCreateNextChunk s buf p False = Some (s, buf') \<and> length buf' = length buf"
  by (simp add: oaCreateNextChunk_def mem_write_ok Let_def)

definition outrun_example :: mac_state where
  "outrun_example = link_example\<lparr>m_oaRca := 2\<rparr>"

lemma outrun_example_runs:
  "\<exists>l. link_reach {7} 1530 outrun_example l \<and> m_state (l_mac l) = ADI_MAC_STATE_DATA_END \<and> l_devrx l = None \<and>
     trx_chunks (l_mac l) = 2 \<and> chunkSize (l_mac l) = 64 \<and> rx_ids (l_mac l) = [7] \<and>
     slot_desc (m_rxQueueLp (l_mac l)) (q_head (m_rxQueueLp (l_mac l))) = None"
proof -
  let ?step = "link_step {7} 1530"
  define l0 where "l0 = link_init outrun_example"
  define s1 where "s1 = outrun_example\<lparr>m_rxQueueLp := queuePut (m_rxQueueLp outrun_example) \<lparr>fs_header = 0, fs_pBufDesc = Some 7\<rparr>\<rparr>"
  define s2 where "s2 = s1\<lparr>m_state := ADI_MAC_STATE_DATA_START\<rparr>"
  have q: "rx_ids outrun_example = []" "\<not> queueIsFull (m_rxQueueLp outrun_example)" "rx_ids s1 = [7]"
    "slot_desc (m_rxQueueLp s1) (q_head (m_rxQueueLp s1)) = None"
    by (simp_all add: outrun_example_def link_example_def rx_ids_def queue_list_def queue_slot_def queueIsFull_def queueInit_def queueCount_def s1_def
        queuePut_def queueAdd_def slot_desc_def queue_entry_def PSEUDO_MODULO_def RX_QUEUE_NUM_ENTRIES_RAW_def)
  have b: "rx_buf_ok 1530 (s_bufs outrun_example 7)" by (simp add: outrun_example_def link_example_def rx_buf_ok_def)
  have 1: "?step l0 (l0\<lparr>l_mac := s1\<rparr>)"
    using link_step.submit_rx [of 7 "{7}" l0 1530] q(1,2) b by (simp add: l0_def link_init_def s1_def)
  have 2: "?step (l0\<lparr>l_mac := s1\<rparr>) (l0\<lparr>l_mac := s2\<rparr>)"
    using link_step.enter [of "l0\<lparr>l_mac := s1\<rparr>" ADI_MAC_STATE_DATA_START "{7}" 1530]
    by (simp add: s2_def s1_def outrun_example_def link_example_def)
  have s2: "m_state s2 = ADI_MAC_STATE_DATA_START" "chunkSize s2 = 64" "length (s_spiTxBuf s2) = BUFFERSIZE"
    "\<not> m_oaRxUseBackupBuf s2" "oaChunkCounts s2 = Some (2, 0)" "rx_ids s2 = rx_ids s1" "m_rxQueueLp s2 = m_rxQueueLp s1"
    by (simp_all add: s2_def s1_def outrun_example_def link_example_def chunkSize_def oaChunkCounts_def rx_ids_def
        queueIsEmpty_def queueInit_def ADI_OA_MAX_CHUNK64_COUNT_def)
  obtain b1 where b1: "oaCreateNextChunk (s2\<lparr>m_oaTrxSize := 0\<rparr>) (s_spiTxBuf s2) 0 False = Some (s2\<lparr>m_oaTrxSize := 0\<rparr>, b1)"
    "length b1 = BUFFERSIZE"
    using chunk_without_data [of 0 "s_spiTxBuf s2" "s2\<lparr>m_oaTrxSize := 0\<rparr>"] s2(3) by (auto simp: BUFFERSIZE_def)
  obtain b2 where b2: "oaCreateNextChunk (s2\<lparr>m_oaTrxSize := 68\<rparr>) b1 68 False = Some (s2\<lparr>m_oaTrxSize := 68\<rparr>, b2)"
    using chunk_without_data [of 68 b1 "s2\<lparr>m_oaTrxSize := 68\<rparr>"] b1(2) by (auto simp: BUFFERSIZE_def)
  have cs: "chunkSize (s2\<lparr>m_oaTrxSize := n\<rparr>) = 64" for n using s2(2) by (simp add: chunkSize_def)
  have "create_chunks 2 0 0 (s2\<lparr>m_oaTrxSize := 0\<rparr>) (s_spiTxBuf s2) = Some (s2\<lparr>m_oaTrxSize := 136\<rparr>, b2)"
    using b1(1) b2 by (simp add: numeral_2_eq_2 ADI_SPI_HEADER_SIZE_def cs s2(2))
  then have "oaSpiProcess s2 = Some (s2\<lparr>m_oaTrxSize := 136, s_spiTxBuf := b2\<rparr>)"
    using s2(4,5) by (simp add: oaSpiProcess_def)
  moreover define t where "t = s2\<lparr>m_oaTrxSize := 136, s_spiTxBuf := b2, m_state := ADI_MAC_STATE_DATA_END,
      m_spiState := ADI_MAC_SPI_STATE_TX_FRAME\<rparr>"
  ultimately have "oa_dispatch s2 = Some (ADI_ETH_SUCCESS, t, Some (SpiData 136))"
    using s2(1) by (simp add: oa_dispatch_def oa_data_start_def)
  then have 3: "?step (l0\<lparr>l_mac := s2\<rparr>) (l0\<lparr>l_mac := t\<rparr>)"
    using link_step.machine [of "l0\<lparr>l_mac := s2\<rparr>"] s2(1) by simp
  have "?step\<^sup>*\<^sup>* l0 (l0\<lparr>l_mac := t\<rparr>)" using 1 2 3 by (meson r_into_rtranclp rtranclp_trans)
  moreover have "fresh_mac 1530 outrun_example"
    using link_example_fresh by (simp add: outrun_example_def fresh_mac_def chunkSize_def)
  ultimately have "link_reach {7} 1530 outrun_example (l0\<lparr>l_mac := t\<rparr>)"
    by (simp add: link_reach_def l0_def)
  moreover have "chunkSize t = 64" using s2(2) by (simp add: t_def chunkSize_def)
  moreover have "rx_ids t = [7]" "m_rxQueueLp t = m_rxQueueLp s1" "m_oaTrxSize t = 136"
    using q(3) s2(6,7) by (simp_all add: t_def rx_ids_def)
  ultimately show ?thesis using q(4)
    by (intro exI [of _ "l0\<lparr>l_mac := t\<rparr>"]) (simp add: trx_chunks_def t_def l0_def link_init_def)
qed

theorem link_progress_witness:
  "(\<exists>l. link_reach {7} 1530 link_example l \<and> m_state (l_mac l) = ADI_MAC_STATE_DATA_END \<and>
     (\<exists>l'. link_exchange (idle_device l) l = Some l' \<and> link_reach {7} 1530 link_example l')) \<and>
   (\<exists>l buf. link_reach {7} 1530 outrun_example l \<and> rx_ids (l_mac l) = [7] \<and> link_conforms 1530 l buf \<and>
     oa_data_end ((l_mac l)\<lparr>s_spiRxBuf := buf\<rparr>) = None)"
proof
  obtain l where l: "link_reach {7} 1530 link_example l" "m_state (l_mac l) = ADI_MAC_STATE_DATA_END"
    using link_example_runs by blast
  moreover have "link_answer 1530 l (idle_device l)"
    using idle_willing [of "{7}" 1530 link_example] l by (simp add: willing_def)
  ultimately show "\<exists>l. link_reach {7} 1530 link_example l \<and> m_state (l_mac l) = ADI_MAC_STATE_DATA_END \<and>
     (\<exists>l'. link_exchange (idle_device l) l = Some l' \<and> link_reach {7} 1530 link_example l')"
    using link_progress [OF l(1)] l(2) by (auto simp: link_answer_def)
next
  obtain l where l: "link_reach {7} 1530 outrun_example l" "m_state (l_mac l) = ADI_MAC_STATE_DATA_END" "l_devrx l = None"
     "trx_chunks (l_mac l) = 2" "chunkSize (l_mac l) = 64" "rx_ids (l_mac l) = [7]"
     "slot_desc (m_rxQueueLp (l_mac l)) (q_head (m_rxQueueLp (l_mac l))) = None"
    using outrun_example_runs by blast
  define buf where "buf = full_chunk @ full_chunk @ replicate (BUFFERSIZE - 136) 0"
  note c = full_chunk_facts
  have len: "length buf = length (s_spiRxBuf (l_mac l))"
    using reach_fits(3) [OF l(1,2)] by (simp add: buf_def c(4) BUFFERSIZE_def)
  have "clean_footers 2 64 buf" "oa_rx_decode 2 64 buf None = Some (None, [replicate 64 0, replicate 64 0])"
    "oa_rx_decode 1 64 buf None = Some (None, [replicate 64 0])"
    unfolding buf_def numeral_2_eq_2 by (simp_all add: c)
  then have conf: "link_conforms 1530 l buf" and one: "oa_rx_decode 1 64 buf None = Some (None, [replicate 64 0])"
    using len l(3-5) by (simp_all add: link_conforms_def)
  have "drop 68 buf = full_chunk @ replicate (BUFFERSIZE - 136) 0" by (simp add: buf_def c)
  then have "link_outruns 1 l buf"
    using one l(3-6) by (simp add: link_outruns_def c full_footer)
  then show "\<exists>l buf. link_reach {7} 1530 outrun_example l \<and> rx_ids (l_mac l) = [7] \<and> link_conforms 1530 l buf \<and>
     oa_data_end ((l_mac l)\<lparr>s_spiRxBuf := buf\<rparr>) = None"
    using link_progress [OF l(1), of buf 1] l(1,2,6,7) conf by blast
qed

text \<open>
  C6: with a device that keeps granting credits, reports no event, answers with footers free of
  errors and sends no more frames at a time than receive buffers are queued, every frame submitted arrives: at most one
  transaction more than there are bytes to send is exchanged, back to back, until the device has
  decoded everything the application submitted.
\<close>

theorem link_drains:
  assumes "link_reach R B s l" and "m_state (l_mac l) = ADI_MAC_STATE_DATA_END" and "willing R B s dev"
  shows "\<exists>k l'. k \<le> tx_bytes (l_mac l) + 1 \<and> serve dev k l = Some l' \<and> l_got l' = l_accepted l"
  using assms(1,2)
proof (induction "tx_bytes (l_mac l)" arbitrary: l rule: less_induct)
  case less
  have ans: "link_answer B l (dev l)" "link_grants l (dev l)"
    using assms(3) less.prems by (simp_all add: willing_def)
  obtain l' where e: "link_exchange (dev l) l = Some l'" "l_accepted l' = l_accepted l"
    "tx_frames (l_mac l) = [] \<longrightarrow> l_got l' = l_accepted l"
    "tx_frames (l_mac l) \<noteq> [] \<longrightarrow>
      m_state (l_mac l') = ADI_MAC_STATE_DATA_END \<and> tx_bytes (l_mac l') < tx_bytes (l_mac l)"
    using exchange_returns [OF link_reach_inv [OF less.prems(1)] less.prems(2) ans(1)] ans(2) by metis
  note reach = reach_exchange [OF less.prems ans(1) e(1)]
  show ?case
  proof (cases "tx_frames (l_mac l) = []")
    case True
    then show ?thesis using e less.prems(2) by (intro exI [of _ 1] exI [of _ l']) simp
  next
    case False
    with less.hyps [of l'] e reach obtain k l'' where k: "k \<le> tx_bytes (l_mac l') + 1"
      "serve dev k l' = Some l''" "l_got l'' = l_accepted l" by auto
    then show ?thesis using e False less.prems(2)
      by (intro exI [of _ "Suc k"] exI [of _ l'']) auto
  qed
qed

theorem link_drains_witness:
  "\<exists>l k l'. link_reach {7} 1530 link_example l \<and> l_accepted l = [replicate 60 0] \<and> l_got l = [] \<and>
     serve idle_device k l = Some l' \<and> l_got l' = [replicate 60 0]"
proof -
  obtain l where l: "link_reach {7} 1530 link_example l" "m_state (l_mac l) = ADI_MAC_STATE_DATA_END"
    "l_accepted l = [replicate 60 0]" "l_got l = []"
    using link_example_runs by blast
  from link_drains [OF l(1,2) idle_willing] l show ?thesis by auto
qed

end
