(* ===== verification/Mac_Link.thy ===== *)
theory Mac_Link
  imports Oa_Link
begin

text \<open>
  The driver's interface on the link: submitting a frame while the driver is ready runs the
  state machine, with the SPI transactions of the board support, until the device has the
  frame.
\<close>

section \<open>The state machine on the link\<close>

text \<open>
  Hardware whose device keeps to the protocol, grants a transmit credit in the last footer of
  every answer, reports no event and has nothing to send: every data transaction of the driver
  succeeds with such an answer.  (A device that runs out of credits keeps the frame waiting in
  the queue, where \<open>link_keeps_frames\<close> finds it.)
\<close>

definition answering :: "nat set \<Rightarrow> nat \<Rightarrow> mac_state \<Rightarrow> 'e adi_hal \<Rightarrow> bool" where
  "answering R B s h \<longleftrightarrow> (\<forall>l e. link_reach R B s l \<longrightarrow> m_state (l_mac l) = ADI_MAC_STATE_DATA_END \<longrightarrow>
     (\<exists>buf e'. spi_exchange h (SpiData (m_oaTrxSize (l_mac l))) (l_mac l, e) =
        Some ((l_mac l)\<lparr>s_spiRxBuf := buf\<rparr>, e') \<and>
        link_answer B l buf \<and> link_grants l buf \<and> link_silent l buf))"

text \<open>From a transaction under way, the machine runs until everything is sent.\<close>

lemma machine_drains:
  assumes h: "answering R B s h" and "link_reach R B s l" and "m_state (l_mac l) = ADI_MAC_STATE_DATA_END"
  shows "\<exists>w r l' e'. spi_exchange h (SpiData (m_oaTrxSize (l_mac l))) (l_mac l, e) = Some w \<and>
    oaStateMachine h w = Some (r, l_mac l', e') \<and> link_reach R B s l' \<and>
    m_state (l_mac l') = ADI_MAC_STATE_READY \<and> l_accepted l' = l_accepted l \<and> l_got l' = l_accepted l"
  using assms(2,3)
proof (induction "tx_bytes (l_mac l)" arbitrary: l e rule: less_induct)
  case less
  obtain buf e1 where x: "spi_exchange h (SpiData (m_oaTrxSize (l_mac l))) (l_mac l, e) =
      Some ((l_mac l)\<lparr>s_spiRxBuf := buf\<rparr>, e1)" "link_answer B l buf" "link_grants l buf" "link_silent l buf"
    using h less.prems unfolding answering_def by blast
  let ?w = "((l_mac l)\<lparr>s_spiRxBuf := buf\<rparr>, e1)"
  obtain l1 r req where e: "link_exchange buf l = Some l1" "l_accepted l1 = l_accepted l"
    "oa_data_end ((l_mac l)\<lparr>s_spiRxBuf := buf\<rparr>) = Some (r, l_mac l1, req)"
    "m_state (l_mac l1) = ADI_MAC_STATE_DATA_END \<longrightarrow> req = Some (SpiData (m_oaTrxSize (l_mac l1)))"
    "tx_frames (l_mac l) = [] \<longrightarrow>
      l_got l1 = l_accepted l \<and> m_state (l_mac l1) = ADI_MAC_STATE_READY \<and> req = None"
    "tx_frames (l_mac l) \<noteq> [] \<longrightarrow>
      m_state (l_mac l1) = ADI_MAC_STATE_DATA_END \<and> tx_bytes (l_mac l1) < tx_bytes (l_mac l)"
    using exchange_returns [OF link_reach_inv [OF less.prems(1)] less.prems(2) x(2)] x(3,4) by metis
  note reach = reach_exchange [OF less.prems x(2) e(1)]
  have d: "oa_dispatch (fst ?w) = Some (r, l_mac l1, req)"
    using e(3) less.prems(2) by (simp add: oa_dispatch_def)
  show ?case
  proof (cases "tx_frames (l_mac l) = []")
    case True
    then have "oaStateMachine h ?w = Some (r, l_mac l1, e1)"
      using d e(5) by (subst oaStateMachine.simps) simp
    with True reach e(2,5) x(1) show ?thesis by blast
  next
    case False
    with e(6) have "m_state (l_mac l1) = ADI_MAC_STATE_DATA_END" "tx_bytes (l_mac l1) < tx_bytes (l_mac l)" by blast+
    from less.hyps [OF this(2) reach this(1), of e1] obtain w2 r2 l2 e2 where
      2: "spi_exchange h (SpiData (m_oaTrxSize (l_mac l1))) (l_mac l1, e1) = Some w2"
      "oaStateMachine h w2 = Some (r2, l_mac l2, e2)" "link_reach R B s l2" "m_state (l_mac l2) = ADI_MAC_STATE_READY"
      "l_accepted l2 = l_accepted l" "l_got l2 = l_accepted l"
      unfolding e(2) by blast
    have "oaStateMachine h ?w = Some (r, l_mac l2, e2)"
      using d e(4,6) False 2(1,2) by (subst oaStateMachine.simps) simp
    with x(1) 2(3-6) show ?thesis by blast
  qed
qed

section \<open>Submitting a frame\<close>

text \<open>
  C3: when the driver is ready and has a transmit credit, the submission of a frame within the
  limits, to a device that grants a transmit credit in every answer, reports no event and has
  nothing to send (\<open>answering\<close>), returns success; by then the device has decoded the frame
  behind all frames submitted before, and the driver is ready again.
\<close>

theorem submitted_frame_is_sent:
  assumes "link_reach R B s l" and "m_state (l_mac l) = ADI_MAC_STATE_READY" and "0 < m_oaTxc (l_mac l)"
    and "answering R B s h" and "submit_tx_check (Some d) (l_mac l) = Inr d" and "d \<notin> R"
    and "bd_trxSize (s_bufs (l_mac l) d) \<le> length (bd_pBuf (s_bufs (l_mac l) d))"
  shows "\<exists>l' e'. MAC_SubmitTxBuffer h header (Some d) (l_mac l, e) = Some (Inr (), l_mac l', e') \<and>
    link_reach R B s l' \<and> m_state (l_mac l') = ADI_MAC_STATE_READY \<and>
    l_got l' = l_accepted l @ [take (bd_trxSize (s_bufs (l_mac l) d)) (bd_pBuf (s_bufs (l_mac l) d))] \<and>
    l_accepted l' = l_got l'"
proof -
  let ?s = "l_mac l" and ?f = "take (bd_trxSize (s_bufs (l_mac l) d)) (bd_pBuf (s_bufs (l_mac l) d))"
  have inv: "link_inv R B l" by (rule link_reach_inv [OF assms(1)])
  then have data: "data_inv R B ?s" by (simp add: link_inv_def)
  define s1 where "s1 = ?s\<lparr>m_txQueue := queuePut (m_txQueue ?s) \<lparr>fs_header = header, fs_pBufDesc = Some d\<rparr>\<rparr>"
  have enq: "enqueue_tx header d ?s = Some s1"
    using data by (simp add: enqueue_tx_def append_fcs_def s1_def data_inv_def rx_wf_def)
  define l1 where "l1 = l\<lparr>l_mac := s1, l_accepted := l_accepted l @ [?f]\<rparr>"
  have r1: "link_reach R B s l1"
    using reach_step [OF assms(1) link_step.submit_tx [OF assms(5-7) enq]] by (simp add: l1_def)
  define l2 where "l2 = l1\<lparr>l_mac := s1\<lparr>s_irqEnabled := False, m_state := ADI_MAC_STATE_DATA_START\<rparr>\<rparr>"
  have r2: "link_reach R B s l2"
  proof -
    have "link_step R B l1 (l1\<lparr>l_mac := s1\<lparr>s_irqEnabled := False\<rparr>\<rparr>)"
      using link_step.register_access [where R = R and B = B and l = l1 and wnr = "m_wnr s1" and a = "m_regAddr s1"
          and p = "m_pRegData s1" and n = "m_cnt s1" and w = "s_regCell s1" and pending = "m_pendingCtrl s1" and irq = False]
      by (simp add: l1_def)
    moreover have "link_step R B (l1\<lparr>l_mac := s1\<lparr>s_irqEnabled := False\<rparr>\<rparr>) l2"
      using link_step.enter [of "l1\<lparr>l_mac := s1\<lparr>s_irqEnabled := False\<rparr>\<rparr>" ADI_MAC_STATE_DATA_START R B] assms(2)
      by (simp add: l1_def l2_def s1_def)
    ultimately show ?thesis using r1 reach_step by blast
  qed
  have f2: "m_state (l_mac l2) = ADI_MAC_STATE_DATA_START" "l_accepted l2 = l_accepted l @ [?f]" "l_got l2 = l_got l"
    "m_oaTxc (l_mac l2) = m_oaTxc ?s"
    by (simp_all add: l2_def l1_def s1_def)
  have idle: "link_idle R B l2" using link_reach_inv [OF r2] f2(1) by (simp add: link_inv_def link_idle_def)
  have "queue_list (m_txQueue s1) = queue_list (m_txQueue ?s) @ [\<lparr>fs_header = header, fs_pBufDesc = Some d\<rparr>]"
    using assms(5) data queue_list_queuePut [of "m_txQueue ?s"]
    by (auto simp: s1_def data_inv_def txq_ok_def submit_tx_check_def Let_def split: if_splits)
  moreover have "tx_rest (l_mac l2) = m_txQueue s1"
    using idle by (simp add: link_idle_def link_tx_def Let_def) (simp add: l2_def)
  ultimately have "tx_frames (l_mac l2) \<noteq> []" and ne: "\<not> queueIsEmpty (m_txQueue s1)"
    using ring.empty_iff [of "m_txQueue s1"] idle by (simp_all add: tx_frames_def link_idle_def data_inv_def txq_ok_def l2_def)
  then have "tx_needed (l_mac l2)" using assms(3) f2(4) by (simp add: tx_needed_def)
  then obtain t where t: "oa_dispatch (l_mac l2) = Some (ADI_ETH_SUCCESS, t, Some (SpiData (m_oaTrxSize t)))"
    "m_state t = ADI_MAC_STATE_DATA_END"
    using start_returns [OF idle f2(1)] f2(1) by (auto simp: oa_dispatch_def)
  have r3: "link_reach R B s (l2\<lparr>l_mac := t\<rparr>)"
    using reach_step [OF r2 link_step.machine [OF _ t(1)]] f2(1) by simp
  from machine_drains [OF assms(4) r3, of e] t(2) f2 obtain w r l' e' where
    m: "spi_exchange h (SpiData (m_oaTrxSize t)) (t, e) = Some w" "oaStateMachine h w = Some (r, l_mac l', e')"
    "link_reach R B s l'" "m_state (l_mac l') = ADI_MAC_STATE_READY"
    "l_accepted l' = l_accepted l @ [?f]" "l_got l' = l_accepted l @ [?f]"
    by auto
  have "oaStateMachine h (l_mac l2, e) = Some (ADI_ETH_SUCCESS, l_mac l', e')"
    using t(1) m(1,2) by (subst oaStateMachine.simps) simp
  then have "MAC_SubmitTxBuffer h header (Some d) (?s, e) = Some (Inr (), l_mac l', e')"
    using assms(2,5) enq ne
    by (simp add: MAC_SubmitTxBuffer_def MAC_ProcessTxQueue_def MAC_SendFrame_def l2_def Let_def s1_def)
  with m(3-6) show ?thesis by auto
qed

text \<open>
  Hardware for the witness: the device restarts its answer when chip select falls, and answers
  every transaction with chunks of 64 bytes without data.
\<close>

definition idle_hal :: "nat adi_hal" where
  "idle_hal = \<lparr>h_io_write = (\<lambda>v e. if v then e else 0),
     h_xfer = (\<lambda>dma bs e. Some (map (\<lambda>i. idle_chunk 64 ! (i mod 68)) [e..<e + length bs], e + length bs))\<rparr>"

definition idle_step :: "u8 \<Rightarrow> nat \<Rightarrow> u8 \<times> nat" where
  "idle_step b e = (idle_chunk 64 ! (e mod 68), Suc e)"

lemma shift_idle: "shift_bytes idle_step bs e = (map (\<lambda>i. idle_chunk 64 ! (i mod 68)) [e..<e + length bs], e + length bs)"
proof (induction bs arbitrary: e)
  case (Cons b bs)
  have "[e..<e + length (b # bs)] = e # [Suc e..<Suc e + length bs]"
    using upt_conv_Cons [of e "e + length (b # bs)"] by simp
  with Cons [of "Suc e"] show ?case by (simp add: idle_step_def del: upt_Suc)
qed simp

lemma idle_hal_counted: "spi_counted idle_step (h_xfer idle_hal)"
  by (simp add: spi_counted_def idle_hal_def shift_idle)

lemma map_cycle: "map (\<lambda>i. xs ! (i mod length xs)) [0..<n * length xs] = concat (replicate n xs)"
proof (induction n)
  case (Suc n)
  let ?k = "length xs"
  have "[0..<Suc n * ?k] = [0..<n * ?k] @ map (\<lambda>j. j + n * ?k) [0..<?k]"
    using upt_add_eq_append [of 0 "n * ?k" ?k] by (simp add: map_add_upt add.commute)
  moreover have "map ((\<lambda>i. xs ! (i mod ?k)) \<circ> (\<lambda>j. j + n * ?k)) [0..<?k] = map ((!) xs) [0..<?k]"
    by (intro map_cong refl) simp
  ultimately show ?case using Suc by (simp add: map_nth del: mult_Suc flip: replicate_append_same)
qed simp

lemma idle_hal_answering:
  assumes "chunkSize s = 64"
  shows "answering R B s idle_hal"
  unfolding answering_def
proof (intro allI impI)
  fix l e
  assume reach: "link_reach R B s l" and st: "m_state (l_mac l) = ADI_MAC_STATE_DATA_END"
  let ?s = "l_mac l" and ?n = "trx_chunks (l_mac l)"
  note f = reach_fits [OF reach st]
  have cs: "chunkSize ?s = 64" using reach_chunkSize [OF reach] assms by simp
  have len: "m_oaTrxSize ?s = ?n * length (idle_chunk 64)" using f(1) by (simp add: length_idle_chunk cs)
  have "shift_bytes idle_step (take (m_oaTrxSize ?s) (s_spiTxBuf ?s)) (h_io_write idle_hal False e) =
      (concat (replicate ?n (idle_chunk 64)), m_oaTrxSize ?s)"
    using f(2,4) map_cycle [of "idle_chunk 64" ?n] by (simp add: idle_hal_def shift_idle len length_idle_chunk)
  from adi_bsp_spi_whole [OF idle_hal_counted, where io_write = "h_io_write idle_hal", OF _ _ this]
  have "spi_exchange idle_hal (SpiData (m_oaTrxSize ?s)) (?s, e) =
      Some (?s\<lparr>s_spiRxBuf := idle_answer ?n 64 (drop (m_oaTrxSize ?s) (s_spiRxBuf ?s))\<rparr>,
        h_io_write idle_hal True (m_oaTrxSize ?s))"
    using f(2-4) by (simp add: idle_answer_def)
  moreover have "length (idle_answer ?n (chunkSize ?s) (drop (m_oaTrxSize ?s) (s_spiRxBuf ?s))) = BUFFERSIZE"
    using f(1-3) by (simp add: length_idle_answer)
  note idle_answers [OF reach st this]
  ultimately show "\<exists>buf e'. spi_exchange idle_hal (SpiData (m_oaTrxSize ?s)) (?s, e) =
        Some (?s\<lparr>s_spiRxBuf := buf\<rparr>, e') \<and> link_answer B l buf \<and> link_grants l buf \<and> link_silent l buf"
    unfolding cs by blast
qed

theorem submitted_frame_is_sent_witness:
  "\<exists>(l' :: link) e'. MAC_SubmitTxBuffer idle_hal 0 (Some 2) (link_example, 0) = Some (Inr (), l_mac l', e') \<and>
     m_state (l_mac l') = ADI_MAC_STATE_READY \<and> l_got l' = [replicate 60 0]"
proof -
  note ex = link_example_submits
  have f: "l_mac (link_init link_example) = link_example" "l_accepted (link_init link_example) = []"
    by (simp_all add: link_init_def)
  have "link_reach {7} 1530 link_example (link_init link_example)"
    using link_example_fresh by (simp add: link_reach_def)
  from submitted_frame_is_sent [OF this, of idle_hal 2 0 0] ex idle_hal_answering [of link_example "{7}" 1530]
  show ?thesis unfolding f by (auto simp: f)
qed

end
