(* ===== verification/Util_Time.thy ===== *)
theory Util_Time
  imports Bm_Prelude
begin

text \<open>
  The calendar and time arithmetic of the common utilities (\<open>util.c\<close>): the time of a date, the
  date of a time, and the time that remains until a deadline.
\<close>

section \<open>The code\<close>


text \<open>The macro takes the year as an offset from 1970.\<close>

definition LEAP_YEAR :: "int \<Rightarrow> bool" where
  "LEAP_YEAR Y \<longleftrightarrow> 1970 + Y > 0 \<and> (1970 + Y) mod 4 = 0 \<and> ((1970 + Y) mod 100 \<noteq> 0 \<or> (1970 + Y) mod 400 = 0)"

definition SECS_PER_MIN :: nat where "SECS_PER_MIN = 60"
definition SECS_PER_HOUR :: nat where "SECS_PER_HOUR = 3600"
definition SECS_PER_DAY :: nat where "SECS_PER_DAY = SECS_PER_HOUR * 24"
definition MICROSECONDS_PER_SECOND :: nat where "MICROSECONDS_PER_SECOND = 1000000"
definition DAYS_PER_YEAR :: u32 where "DAYS_PER_YEAR = 365"
definition DAYS_PER_LEAP_YEAR :: u32 where "DAYS_PER_LEAP_YEAR = DAYS_PER_YEAR + 1"

definition monthDays :: "u8 list" where
  "monthDays = [31, 28, 31, 30, 31, 30, 31, 31, 30, 31, 30, 31]"

definition monthDaysLeapYear :: "u8 list" where
  "monthDaysLeapYear = [31, 29, 31, 30, 31, 30, 31, 31, 30, 31, 30, 31]"

text \<open>
  The loop over the months, from the list of months: \<open>None\<close> reads behind the table.
  Arithmetic is modulo \<open>2 ^ 32\<close>, as \<open>seconds\<close> and \<open>unsigned long\<close> are 32 bits wide.
\<close>

fun add_months :: "int \<Rightarrow> nat list \<Rightarrow> u32 \<Rightarrow> u32 option" where
  "add_months year [] seconds = Some seconds"
| "add_months year (i # is) seconds =
     (if i = 2 \<and> LEAP_YEAR (year - 1970) then add_months year is (seconds + of_nat SECS_PER_DAY * 29)
      else if i - 1 < length monthDays
      then add_months year is (seconds + of_nat SECS_PER_DAY * ucast (monthDays ! (i - 1)))
      else None)"

definition utcFromDateTime :: "u16 \<Rightarrow> u8 \<Rightarrow> u8 \<Rightarrow> u8 \<Rightarrow> u8 \<Rightarrow> u8 \<Rightarrow> u32 option" where
  "utcFromDateTime year month day hour minute second = do {
     let seconds = of_int (uint year - 1970) * (of_nat SECS_PER_DAY * 365);
     let seconds = fold (\<lambda>i seconds. if LEAP_YEAR (int i - 1970) then seconds + of_nat SECS_PER_DAY else seconds)
       [1970..<unat year] seconds;
     seconds \<leftarrow> add_months (uint year) [1..<unat month] seconds;
     let seconds = seconds + of_int (uint day - 1) * of_nat SECS_PER_DAY;
     let seconds = seconds + ucast hour * of_nat SECS_PER_HOUR;
     let seconds = seconds + ucast minute * of_nat SECS_PER_MIN;
     Some (seconds + ucast second)
   }"

definition getDaysForYear :: "u32 \<Rightarrow> u32" where
  "getDaysForYear year = (if LEAP_YEAR (uint year - 1970) then DAYS_PER_LEAP_YEAR else DAYS_PER_YEAR)"

definition getDaysPerMonth :: "u32 \<Rightarrow> u8 list" where
  "getDaysPerMonth year = (if LEAP_YEAR (uint year - 1970) then monthDaysLeapYear else monthDays)"

record utcDateTime_t =
  dt_year :: u16
  dt_month :: u8
  dt_day :: u8
  dt_hour :: u8
  dt_min :: u8
  dt_sec :: u8
  dt_usec :: u32

lemma getDaysForYear_range: "unat (getDaysForYear y) = 365 \<or> unat (getDaysForYear y) = 366"
  by (simp add: getDaysForYear_def DAYS_PER_LEAP_YEAR_def DAYS_PER_YEAR_def)

lemma getDaysForYear_u64: "unat (ucast (getDaysForYear y) :: u64) = unat (getDaysForYear y)"
  using getDaysForYear_range [of y] by (auto simp: unsigned_ucast_eq)

text \<open>The two loops of \<open>dateTimeFromUtc\<close>; the second one walks along the table of the year.\<close>

function year_loop :: "u64 \<Rightarrow> u16 \<Rightarrow> u64 \<times> u16" where
  "year_loop days year =
     (if days \<ge> ucast (getDaysForYear (ucast year))
      then year_loop (days - ucast (getDaysForYear (ucast year))) (year + 1)
      else (days, year))"
  by auto
termination
proof (relation "measure (\<lambda>(days, _). unat days)")
  fix days :: u64 and year :: u16
  assume "ucast (getDaysForYear (ucast year)) \<le> days"
  then have "unat (days - ucast (getDaysForYear (ucast year))) = unat days - unat (getDaysForYear (ucast year))"
    and "unat (getDaysForYear (ucast year)) \<le> unat days"
    by (simp_all add: unat_sub word_le_nat_alt getDaysForYear_u64)
  then show "((days - ucast (getDaysForYear (ucast year)), year + 1), days, year) \<in> measure (\<lambda>(days, _). unat days)"
    using getDaysForYear_range [of "ucast year"] by auto
qed simp

declare year_loop.simps [simp del]

fun month_loop :: "u8 list \<Rightarrow> u64 \<Rightarrow> u8 \<Rightarrow> (u64 \<times> u8) option" where
  "month_loop [] days month = None"
| "month_loop (d # ds) days month =
     (if days \<ge> ucast d then month_loop ds (days - ucast d) (month + 1) else Some (days, month))"

definition dateTimeFromUtc :: "u64 \<Rightarrow> utcDateTime_t option" where
  "dateTimeFromUtc utc_us = do {
     let days = (utc_us div of_nat MICROSECONDS_PER_SECOND) div of_nat SECS_PER_DAY;
     let (days, year) = year_loop days 1970;
     (days, month) \<leftarrow> month_loop (getDaysPerMonth (ucast year)) days 1;
     let secondsRemaining = (utc_us div of_nat MICROSECONDS_PER_SECOND) mod of_nat SECS_PER_DAY;
     Some \<lparr>dt_year = year, dt_month = month, dt_day = ucast (days + 1),
       dt_hour = ucast (secondsRemaining div of_nat SECS_PER_HOUR),
       dt_min = ucast ((secondsRemaining div of_nat SECS_PER_MIN) mod of_nat SECS_PER_MIN),
       dt_sec = ucast (secondsRemaining mod of_nat SECS_PER_MIN),
       dt_usec = ucast (utc_us mod of_nat MICROSECONDS_PER_SECOND)\<rparr>
   }"

text \<open>The difference is read as a signed number to see when the deadline has passed.\<close>

definition timeRemainingGeneric :: "u32 \<Rightarrow> u32 \<Rightarrow> u32 \<Rightarrow> u32" where
  "timeRemainingGeneric startTime currentTime timeout =
     (let timeRemaining = (startTime + timeout) - currentTime
      in if timeRemaining <s 0 then 0 else timeRemaining)"

section \<open>Counting days\<close>

text \<open>The reference is the Gregorian calendar.\<close>

definition gregorian_leap :: "nat \<Rightarrow> bool" where
  "gregorian_leap y \<longleftrightarrow> 0 < y \<and> 4 dvd y \<and> (100 dvd y \<longrightarrow> 400 dvd y)"

definition year_len :: "nat \<Rightarrow> nat" where
  "year_len y = (if gregorian_leap y then 366 else 365)"

definition days_before :: "nat \<Rightarrow> nat" where
  "days_before y = sum_list (map year_len [1970..<y])"

definition month_lens :: "nat \<Rightarrow> nat list" where
  "month_lens y = [31, if gregorian_leap y then 29 else 28, 31, 30, 31, 30, 31, 31, 30, 31, 30, 31]"

text \<open>The macro of the code is the rule of that calendar.\<close>

lemma LEAP_YEAR_gregorian: "LEAP_YEAR (int y - 1970) \<longleftrightarrow> gregorian_leap y"
proof -
  have "int y mod 4 = 0 \<longleftrightarrow> 4 dvd y" "int y mod 100 = 0 \<longleftrightarrow> 100 dvd y" "int y mod 400 = 0 \<longleftrightarrow> 400 dvd y"
    by presburger+
  then show ?thesis by (auto simp: LEAP_YEAR_def gregorian_leap_def)
qed

lemma LEAP_YEAR_uint: "LEAP_YEAR (uint y - 1970) \<longleftrightarrow> gregorian_leap (unat y)"
  using LEAP_YEAR_gregorian [of "unat y"] by simp

lemmas leap_simps = LEAP_YEAR_gregorian LEAP_YEAR_uint

lemma days_before_Suc: "1970 \<le> y \<Longrightarrow> days_before (Suc y) = days_before y + year_len y"
  by (simp add: days_before_def)

lemma uint_u16_u32: "uint (ucast (y :: u16) :: u32) = uint y"
  by (simp add: uint_up_ucast is_up)

lemma int_unat_u16: "int (unat (y :: u16)) = uint y"
  by simp

lemma year_len_getDays: "unat (getDaysForYear (ucast y)) = year_len (unat (y :: u16))"
  by (simp add: getDaysForYear_def year_len_def DAYS_PER_LEAP_YEAR_def DAYS_PER_YEAR_def leap_simps uint_u16_u32)

lemma month_lens_getDays: "map unat (getDaysPerMonth (ucast y)) = month_lens (unat (y :: u16))"
  by (simp add: getDaysPerMonth_def month_lens_def monthDays_def monthDaysLeapYear_def leap_simps uint_u16_u32)

lemma month_lens_sum: "length (month_lens y) = 12" "sum_list (month_lens y) = year_len y"
  "\<forall>x \<in> set (month_lens y). 0 < x \<and> x \<le> 31"
  by (auto simp: month_lens_def year_len_def)

lemma days_before_mono:
  assumes "1970 \<le> y" and "y < y'"
  shows "days_before y + year_len y \<le> days_before y'"
proof -
  have "days_before (Suc y) \<le> days_before (Suc y + n)" for n
    using assms(1) by (induction n) (simp_all add: days_before_Suc)
  from this [of "y' - Suc y"] show ?thesis using assms by (simp add: days_before_Suc)
qed

text \<open>A day has one year and one place in it.\<close>

lemma year_unique:
  assumes "days_before y + r = days_before y' + r'" and "r < year_len y" and "r' < year_len y'"
    and "1970 \<le> y" and "1970 \<le> y'"
  shows "y = y' \<and> r = r'"
proof (cases y y' rule: linorder_cases)
  case less
  then show ?thesis using days_before_mono [OF assms(4) less] assms(1,2) by simp
next
  case greater
  then show ?thesis using days_before_mono [OF assms(5) greater] assms(1,3) by simp
qed (use assms(1) in simp)

lemma sum_take_mono:
  assumes "j < k" and "k \<le> length (xs :: nat list)"
  shows "sum_list (take j xs) + xs ! j \<le> sum_list (take k xs)"
proof -
  have "sum_list (take (Suc j) xs) = sum_list (take j xs) + xs ! j"
    using assms by (simp add: take_Suc_conv_app_nth)
  moreover have "take k xs = take (Suc j) xs @ take (k - Suc j) (drop (Suc j) xs)"
    using assms(1) by (metis Suc_leI le_add_diff_inverse take_add)
  then have "sum_list (take (Suc j) xs) \<le> sum_list (take k xs)" by simp
  ultimately show ?thesis by simp
qed

lemma month_unique:
  assumes "sum_list (take j xs) + r = sum_list (take k xs) + r'" and "r < xs ! j" and "r' < xs ! k"
    and "j < length (xs :: nat list)" and "k < length xs"
  shows "j = k \<and> r = r'"
proof (cases j k rule: linorder_cases)
  case less
  then show ?thesis using sum_take_mono [OF less less_imp_le [OF assms(5)]] assms(1,2) by simp
next
  case greater
  then show ?thesis using sum_take_mono [OF greater less_imp_le [OF assms(4)]] assms(1,3) by simp
qed (use assms(1) in simp)

section \<open>The loops\<close>

lemma year_loop_exit: "year_loop d y = (r, y') \<Longrightarrow> unat r < year_len (unat y')"
proof (induction d y rule: year_loop.induct)
  case (1 d y)
  show ?case
  proof (cases "ucast (getDaysForYear (ucast y)) \<le> d")
    case True
    then show ?thesis using 1 by (simp add: year_loop.simps [of d y])
  next
    case False
    then have "unat d < unat (getDaysForYear (ucast y))"
      by (simp add: word_le_nat_alt getDaysForYear_u64)
    with False 1(2) show ?thesis by (simp add: year_loop.simps [of d y] year_len_getDays)
  qed
qed

lemma year_loop_days:
  "\<lbrakk>year_loop d y = (r, y'); 1970 \<le> unat y; unat y + unat d div 365 < 65536\<rbrakk> \<Longrightarrow>
     1970 \<le> unat y' \<and> days_before (unat y') + unat r = days_before (unat y) + unat d"
proof (induction d y rule: year_loop.induct)
  case (1 d y)
  let ?n = "getDaysForYear (ucast y)"
  show ?case
  proof (cases "ucast ?n \<le> d")
    case True
    then have le: "unat ?n \<le> unat d" and d: "unat (d - ucast ?n) = unat d - unat ?n"
      by (simp_all add: unat_sub word_le_nat_alt getDaysForYear_u64)
    have n: "365 \<le> unat ?n" using getDaysForYear_range [of "ucast y"] by auto
    have "(unat d - unat ?n) div 365 + 1 \<le> unat d div 365"
      using le n by (metis Suc_eq_plus1 add.commute div_add_self1 div_le_mono le_add_diff_inverse2 le_diff_conv nat_add_left_cancel_le zero_neq_numeral)
    moreover from this have "unat (y + 1) = unat y + 1"
      using 1(4) by (simp add: unat_word_ariths)
    ultimately have step: "unat (y + 1) + unat (d - ucast ?n) div 365 < 65536" "1970 \<le> unat (y + 1)"
      using 1(3,4) d by simp_all
    have "days_before (unat (y + 1)) = days_before (unat y) + unat ?n"
      using 1(3) \<open>unat (y + 1) = unat y + 1\<close> by (simp add: days_before_Suc year_len_getDays)
    with 1(1) [OF True _ step(2,1)] 1(2) True d le show ?thesis
      by (simp add: year_loop.simps [of d y])
  next
    case False
    with 1 show ?thesis by (simp add: year_loop.simps [of d y])
  qed
qed

lemma month_loop_days:
  "unat d < sum_list (map unat ds) \<Longrightarrow> \<exists>k r. k < length ds \<and> month_loop ds d m = Some (r, m + of_nat k) \<and>
     unat r < unat (ds ! k) \<and> sum_list (take k (map unat ds)) + unat r = unat d"
proof (induction ds arbitrary: d m)
  case (Cons x ds)
  have x: "unat (ucast x :: u64) = unat x" by (simp add: unsigned_ucast_eq take_bit_nat_eq_self unsigned_less [THEN less_le_trans])
  show ?case
  proof (cases "ucast x \<le> d")
    case True
    then have le: "unat x \<le> unat d" and d: "unat (d - ucast x) = unat d - unat x"
      by (simp_all add: unat_sub word_le_nat_alt x)
    then have "unat (d - ucast x) < sum_list (map unat ds)" using Cons.prems by simp
    from Cons.IH [OF this, of "m + 1"] obtain k r where k: "k < length ds"
      "month_loop ds (d - ucast x) (m + 1) = Some (r, m + 1 + of_nat k)" "unat r < unat (ds ! k)"
      "sum_list (take k (map unat ds)) + unat r = unat (d - ucast x)" by blast
    show ?thesis
      by (rule exI [of _ "Suc k"], rule exI [of _ r]) (use k True le d in \<open>simp add: add.assoc\<close>)
  next
    case False
    then have "unat d < unat x" by (simp add: word_le_nat_alt x)
    with False show ?thesis by (intro exI [of _ 0] exI [of _ d]) simp
  qed
qed simp

section \<open>The time of a date\<close>

definition leaps_before :: "nat \<Rightarrow> nat" where
  "leaps_before y = length (filter gregorian_leap [1970..<y])"

lemma days_before_leaps: "1970 \<le> y \<Longrightarrow> days_before y = 365 * (y - 1970) + leaps_before y"
proof (induction y rule: nat_induct_at_least)
  case base
  then show ?case by (simp add: days_before_def leaps_before_def)
next
  case (Suc y)
  have "365 * (Suc y - 1970) = 365 + 365 * (y - 1970)" using Suc.hyps by arith
  with Suc show ?case by (simp only: days_before_Suc) (simp add: year_len_def leaps_before_def)
qed

lemma fold_leaps:
  "fold (\<lambda>i seconds. if LEAP_YEAR (int i - 1970) then seconds + of_nat SECS_PER_DAY else seconds) is (s :: u32) =
     s + of_nat (SECS_PER_DAY * length (filter gregorian_leap is))"
  by (induction "is" arbitrary: s) (simp_all add: leap_simps algebra_simps)

lemma year_seconds:
  assumes "1970 \<le> n"
  shows "fold (\<lambda>i seconds. if LEAP_YEAR (int i - 1970) then seconds + of_nat SECS_PER_DAY else seconds) [1970..<n]
     (of_int (int n - 1970) * (of_nat SECS_PER_DAY * 365) :: u32) = of_nat (SECS_PER_DAY * days_before n)"
proof -
  have "of_int (int n - 1970) = (of_nat (n - 1970) :: u32)"
    using assms by (simp add: of_nat_diff)
  then show ?thesis
    unfolding fold_leaps days_before_leaps [OF assms] leaps_before_def
    by (simp only: of_nat_mult of_nat_add) (simp add: algebra_simps)
qed

lemma add_months_days:
  assumes "1 \<le> m" and "m \<le> 12"
  shows "add_months (int y) [1..<m] s = Some (s + of_nat (SECS_PER_DAY * sum_list (take (m - 1) (month_lens y))))"
proof -
  have "m = 1 \<or> m = 2 \<or> m = 3 \<or> m = 4 \<or> m = 5 \<or> m = 6 \<or> m = 7 \<or> m = 8 \<or> m = 9 \<or> m = 10 \<or> m = 11 \<or> m = 12"
    using assms by arith
  then show ?thesis
    by (elim disjE) (simp_all add: month_lens_def monthDays_def leap_simps upt_rec SECS_PER_DAY_def SECS_PER_HOUR_def)
qed

text \<open>The number of seconds a date stands for.\<close>

definition date_days :: "nat \<Rightarrow> nat \<Rightarrow> nat \<Rightarrow> nat" where
  "date_days y m d = days_before y + sum_list (take (m - 1) (month_lens y)) + (d - 1)"

lemma utc_of_date:
  assumes "1970 \<le> unat y" and "1 \<le> unat m" and "unat m \<le> 12" and "1 \<le> unat d"
  shows "utcFromDateTime y m d h mi s = Some (of_nat (SECS_PER_DAY * date_days (unat y) (unat m) (unat d) +
     SECS_PER_HOUR * unat h + SECS_PER_MIN * unat mi + unat s))"
proof -
  have day: "of_int (uint d - 1) = (of_nat (unat d - 1) :: u32)" using assms(4) by (simp add: of_nat_diff)
  have c: "ucast h = (of_nat (unat h) :: u32)" "ucast mi = (of_nat (unat mi) :: u32)" "ucast s = (of_nat (unat s) :: u32)"
    by simp_all
  show ?thesis
    unfolding utcFromDateTime_def Let_def year_seconds [OF assms(1)] int_unat_u16 [of y, symmetric] add_months_days [OF assms(2,3)]
      day c date_days_def
    by (simp only: Option.bind.bind_lunit of_nat_mult of_nat_add) (simp add: algebra_simps)
qed

section \<open>The date of a time\<close>

definition valid_date :: "utcDateTime_t \<Rightarrow> bool" where
  "valid_date dt \<longleftrightarrow> 1 \<le> unat (dt_month dt) \<and> unat (dt_month dt) \<le> 12 \<and>
     1 \<le> unat (dt_day dt) \<and> unat (dt_day dt) \<le> month_lens (unat (dt_year dt)) ! (unat (dt_month dt) - 1) \<and>
     unat (dt_hour dt) < 24 \<and> unat (dt_min dt) < 60 \<and> unat (dt_sec dt) < 60 \<and> unat (dt_usec dt) < 1000000"

lemma time_consts: "unat (of_nat MICROSECONDS_PER_SECOND :: u64) = 1000000" "unat (of_nat SECS_PER_DAY :: u64) = 86400"
  "unat (of_nat SECS_PER_HOUR :: u64) = 3600" "unat (of_nat SECS_PER_MIN :: u64) = 60"
  by (simp_all add: MICROSECONDS_PER_SECOND_def SECS_PER_DAY_def SECS_PER_HOUR_def SECS_PER_MIN_def)

lemma unat_small_byte: "unat (x :: u64) < 256 \<Longrightarrow> unat (ucast x :: u8) = unat x"
  by (simp add: unsigned_ucast_eq take_bit_nat_eq_self)

lemma month_byte: "k < 12 \<Longrightarrow> unat (1 + of_nat k :: u8) = Suc k"
  by (simp add: unat_word_ariths unat_of_nat take_bit_nat_eq_self)

text \<open>Every field of the date, in natural numbers.\<close>

lemma date_of_utc:
  fixes utc_us :: u64
  defines "secs \<equiv> unat utc_us div 1000000"
  shows "\<exists>dt r k r'. dateTimeFromUtc utc_us = Some dt \<and>
     year_loop ((utc_us div of_nat MICROSECONDS_PER_SECOND) div of_nat SECS_PER_DAY) 1970 = (r, dt_year dt) \<and>
     unat r < year_len (unat (dt_year dt)) \<and> k < 12 \<and> unat (dt_month dt) = Suc k \<and> unat (dt_day dt) = Suc r' \<and>
     r' < month_lens (unat (dt_year dt)) ! k \<and> sum_list (take k (month_lens (unat (dt_year dt)))) + r' = unat r \<and>
     unat (dt_hour dt) = secs mod 86400 div 3600 \<and> unat (dt_min dt) = secs mod 86400 div 60 mod 60 \<and>
     unat (dt_sec dt) = secs mod 86400 mod 60 \<and> unat (dt_usec dt) = unat utc_us mod 1000000"
proof -
  let ?days = "(utc_us div of_nat MICROSECONDS_PER_SECOND) div of_nat SECS_PER_DAY"
  obtain r y where yl: "year_loop ?days 1970 = (r, y)" by (rule prod.exhaust)
  have r: "unat r < year_len (unat y)" by (rule year_loop_exit [OF yl])
  have "unat r < sum_list (map unat (getDaysPerMonth (ucast y)))"
    using r by (simp add: month_lens_getDays month_lens_sum)
  from month_loop_days [OF this, of 1] obtain k r' where k: "k < 12"
    "month_loop (getDaysPerMonth (ucast y)) r 1 = Some (r', 1 + of_nat k)" "unat r' < month_lens (unat y) ! k"
    "sum_list (take k (month_lens (unat y))) + unat r' = unat r"
    using month_lens_sum(1) [of "unat y"] by (auto simp: month_lens_getDays nth_map simp flip: month_lens_getDays)
  have "month_lens (unat y) ! k \<le> 31" using month_lens_sum [of "unat y"] k(1) by (metis nth_mem)
  then have r31: "unat r' < 31" using k(3) by simp
  then have "unat (r' + 1) = Suc (unat r')" by (simp add: unat_word_ariths)
  then have day: "unat (ucast (r' + 1) :: u8) = Suc (unat r')" using r31 by (subst unat_small_byte) simp_all
  define sr where "sr = (utc_us div of_nat MICROSECONDS_PER_SECOND) mod of_nat SECS_PER_DAY"
  have sr: "unat sr = secs mod 86400" by (simp add: sr_def secs_def unat_div_distrib unat_mod_distrib time_consts)
  have "unat (sr div of_nat SECS_PER_HOUR) < 256" using sr by (simp add: unat_div_distrib time_consts)
  then have hour: "unat (ucast (sr div of_nat SECS_PER_HOUR) :: u8) = secs mod 86400 div 3600"
    by (simp add: unat_small_byte unat_div_distrib time_consts sr)
  have "unat ((sr div of_nat SECS_PER_MIN) mod of_nat SECS_PER_MIN) < 256"
    by (simp add: unat_mod_distrib time_consts)
  then have min: "unat (ucast ((sr div of_nat SECS_PER_MIN) mod of_nat SECS_PER_MIN) :: u8) = secs mod 86400 div 60 mod 60"
    by (simp add: unat_small_byte unat_div_distrib unat_mod_distrib time_consts sr)
  have "unat (sr mod of_nat SECS_PER_MIN) < 256" by (simp add: unat_mod_distrib time_consts)
  then have sec: "unat (ucast (sr mod of_nat SECS_PER_MIN) :: u8) = secs mod 86400 mod 60"
    by (simp add: unat_small_byte unat_mod_distrib time_consts sr)
  have "unat utc_us mod 1000000 < 2 ^ 32" by (rule less_trans [OF mod_less_divisor]) simp_all
  then have usec: "unat (ucast (utc_us mod of_nat MICROSECONDS_PER_SECOND) :: u32) = unat utc_us mod 1000000"
    by (simp add: unsigned_ucast_eq unat_mod_distrib time_consts take_bit_nat_eq_self)
  have run: "dateTimeFromUtc utc_us = Some \<lparr>dt_year = y, dt_month = 1 + of_nat k, dt_day = ucast (r' + 1),
       dt_hour = ucast (sr div of_nat SECS_PER_HOUR), dt_min = ucast ((sr div of_nat SECS_PER_MIN) mod of_nat SECS_PER_MIN),
       dt_sec = ucast (sr mod of_nat SECS_PER_MIN), dt_usec = ucast (utc_us mod of_nat MICROSECONDS_PER_SECOND)\<rparr>"
    by (simp add: dateTimeFromUtc_def Let_def yl k(2) sr_def)
  show ?thesis
    by (rule exI, rule exI [of _ r], rule exI [of _ k], rule exI [of _ "unat r'"], intro conjI, rule run)
      (simp_all only: utcDateTime_t.simps yl r k day hour min sec usec month_byte [OF k(1)])
qed

section \<open>The properties\<close>

text \<open>
  C35: every time has a date, and the date is valid: the month, the day within the month of that
  year, the time of day and the microseconds are all in range.
\<close>

theorem date_is_valid:
  "\<exists>dt. dateTimeFromUtc utc_us = Some dt \<and> valid_date dt"
proof -
  obtain dt r k r' where d: "dateTimeFromUtc utc_us = Some dt" "k < 12" "unat (dt_month dt) = Suc k" "unat (dt_day dt) = Suc r'"
    "r' < month_lens (unat (dt_year dt)) ! k"
    "unat (dt_hour dt) = unat utc_us div 1000000 mod 86400 div 3600" "unat (dt_min dt) = unat utc_us div 1000000 mod 86400 div 60 mod 60"
    "unat (dt_sec dt) = unat utc_us div 1000000 mod 86400 mod 60" "unat (dt_usec dt) = unat utc_us mod 1000000"
    using date_of_utc [of utc_us] by blast
  have "x mod 86400 div 3600 < 24" for x :: nat by (rule less_mult_imp_div_less) simp
  with d show ?thesis by (auto simp: valid_date_def)
qed

lemma secs_of_time: "86400 * (n div 86400) + 3600 * (n mod 86400 div 3600) + 60 * (n mod 86400 div 60 mod 60) + n mod 86400 mod 60 = (n :: nat)"
proof -
  define m where "m = n mod 86400"
  have "m div 3600 = m div 60 div 60" by (simp add: div_mult2_eq [symmetric])
  moreover have "60 * (m div 60 div 60) + m div 60 mod 60 = m div 60" "60 * (m div 60) + m mod 60 = m" by simp_all
  ultimately have "3600 * (m div 3600) + 60 * (m div 60 mod 60) + m mod 60 = m" by linarith
  then show ?thesis unfolding m_def using mult_div_mod_eq [of 86400 n] by linarith
qed

text \<open>
  C36: for times up to the year 65000 the date of a time is the one that many days of the Gregorian
  calendar and seconds after the start of 1970, with the microseconds of the time, and converted back
  it is the time in whole seconds, modulo \<open>2 ^ 32\<close>.
\<close>

theorem utc_date_roundtrip:
  assumes "unat (utc_us :: u64) < 1988000000000000000"
  shows "\<exists>dt. dateTimeFromUtc utc_us = Some dt \<and> unat (dt_usec dt) = unat utc_us mod 1000000 \<and>
     86400 * date_days (unat (dt_year dt)) (unat (dt_month dt)) (unat (dt_day dt)) +
       3600 * unat (dt_hour dt) + 60 * unat (dt_min dt) + unat (dt_sec dt) = unat utc_us div 1000000 \<and>
     utcFromDateTime (dt_year dt) (dt_month dt) (dt_day dt) (dt_hour dt) (dt_min dt) (dt_sec dt) =
       Some (of_nat (unat utc_us div 1000000))"
proof -
  let ?days = "(utc_us div of_nat MICROSECONDS_PER_SECOND) div of_nat SECS_PER_DAY"
  define secs where "secs = unat utc_us div 1000000"
  obtain dt r k r' where d: "dateTimeFromUtc utc_us = Some dt"
    "year_loop ?days 1970 = (r, dt_year dt)" "unat r < year_len (unat (dt_year dt))" "k < 12"
    "unat (dt_month dt) = Suc k" "unat (dt_day dt) = Suc r'"
    "sum_list (take k (month_lens (unat (dt_year dt)))) + r' = unat r"
    "unat (dt_hour dt) = secs mod 86400 div 3600" "unat (dt_min dt) = secs mod 86400 div 60 mod 60"
    "unat (dt_sec dt) = secs mod 86400 mod 60" "unat (dt_usec dt) = unat utc_us mod 1000000"
    using date_of_utc [of utc_us] unfolding secs_def by blast
  have days: "unat ?days = secs div 86400" by (simp add: secs_def unat_div_distrib time_consts)
  have "secs div 86400 div 365 < 63566" using assms by (simp add: secs_def div_mult2_eq [symmetric] div_less_iff_less_mult)
  then have y: "1970 \<le> unat (dt_year dt)" "days_before (unat (dt_year dt)) + unat r = secs div 86400"
    using year_loop_days [OF d(2)] days by (simp_all add: days_before_def)
  have "date_days (unat (dt_year dt)) (unat (dt_month dt)) (unat (dt_day dt)) = secs div 86400"
    using y(2) d(5-7) by (simp add: date_days_def)
  then have secs: "86400 * date_days (unat (dt_year dt)) (unat (dt_month dt)) (unat (dt_day dt)) +
      3600 * unat (dt_hour dt) + 60 * unat (dt_min dt) + unat (dt_sec dt) = secs"
    using secs_of_time [of secs] by (simp add: d(8-10))
  then have "SECS_PER_DAY * date_days (unat (dt_year dt)) (unat (dt_month dt)) (unat (dt_day dt)) +
      SECS_PER_HOUR * unat (dt_hour dt) + SECS_PER_MIN * unat (dt_min dt) + unat (dt_sec dt) = secs"
    by (simp add: SECS_PER_DAY_def SECS_PER_HOUR_def SECS_PER_MIN_def)
  then have "utcFromDateTime (dt_year dt) (dt_month dt) (dt_day dt) (dt_hour dt) (dt_min dt) (dt_sec dt) = Some (of_nat secs)"
    using utc_of_date [OF y(1), of "dt_month dt" "dt_day dt" "dt_hour dt" "dt_min dt" "dt_sec dt"] d(4-6) by (simp del: of_nat_add of_nat_mult)
  with d(1,11) secs show ?thesis unfolding secs_def by (intro exI [of _ dt] conjI)
qed

theorem utc_date_roundtrip_witness:
  "\<exists>dt. dateTimeFromUtc 1700000000123456 = Some dt \<and> unat (dt_usec dt) = 123456 \<and>
     86400 * date_days (unat (dt_year dt)) (unat (dt_month dt)) (unat (dt_day dt)) +
       3600 * unat (dt_hour dt) + 60 * unat (dt_min dt) + unat (dt_sec dt) = 1700000000 \<and>
     utcFromDateTime (dt_year dt) (dt_month dt) (dt_day dt) (dt_hour dt) (dt_min dt) (dt_sec dt) = Some 1700000000"
  using utc_date_roundtrip [of 1700000000123456] by simp

lemma days_before_2106: "days_before 2106 = 49673"
  by (simp add: days_before_def year_len_def gregorian_leap_def upt_rec)

lemma date_secs_fields:
  fixes d :: nat
  assumes "h < 24" and "mi < 60" and "sec < (60 :: nat)"
  defines "n \<equiv> 86400 * d + 3600 * h + 60 * mi + sec"
  shows "n div 86400 = d" "n mod 86400 div 3600 = h" "n mod 86400 div 60 mod 60 = mi" "n mod 86400 mod 60 = sec"
proof -
  have s: "3600 * h + 60 * mi + sec < 86400" using assms(1-3) by linarith
  have n: "n = (3600 * h + 60 * mi + sec) + d * 86400" by (simp add: n_def)
  show "n div 86400 = d" unfolding n using s by simp
  have m: "n mod 86400 = 3600 * h + 60 * mi + sec" unfolding n mod_mult_self1 using s by simp
  show "n mod 86400 mod 60 = sec"
    unfolding m using assms(3) by (simp add: mod_add_left_eq [of "3600 * h + 60 * mi" 60 sec, symmetric] mod_add_eq [symmetric])
  have "3600 * h + 60 * mi + sec = sec + (60 * h + mi) * 60" by simp
  then have q: "(3600 * h + 60 * mi + sec) div 60 = 60 * h + mi"
    using assms(3) by simp
  show "n mod 86400 div 60 mod 60 = mi" unfolding m q using assms(2) by simp
  have "(3600 * h + 60 * mi + sec) div 60 div 60 = h" unfolding q using assms(2) by simp
  then show "n mod 86400 div 3600 = h" unfolding m by (simp add: div_mult2_eq [symmetric])
qed

lemma valid_place:
  assumes "valid_date dt" and "1970 \<le> unat (dt_year dt)"
  defines "r \<equiv> sum_list (take (unat (dt_month dt) - 1) (month_lens (unat (dt_year dt)))) + (unat (dt_day dt) - 1)"
  shows "r < year_len (unat (dt_year dt))"
    and "utcFromDateTime (dt_year dt) (dt_month dt) (dt_day dt) (dt_hour dt) (dt_min dt) (dt_sec dt) =
      Some (of_nat (86400 * (days_before (unat (dt_year dt)) + r) + 3600 * unat (dt_hour dt) + 60 * unat (dt_min dt) + unat (dt_sec dt)))"
proof -
  let ?y = "unat (dt_year dt)" and ?m = "unat (dt_month dt) - 1"
  have v: "1 \<le> unat (dt_month dt)" "unat (dt_month dt) \<le> 12" "1 \<le> unat (dt_day dt)" "unat (dt_day dt) \<le> month_lens ?y ! ?m"
    using assms(1) by (simp_all add: valid_date_def)
  have "sum_list (take ?m (month_lens ?y)) + month_lens ?y ! ?m \<le> sum_list (take 12 (month_lens ?y))"
    by (rule sum_take_mono) (use v month_lens_sum(1) [of ?y] in simp_all)
  then show "r < year_len ?y" using v(3,4) month_lens_sum(1,2) [of ?y] by (simp add: r_def)
  show "utcFromDateTime (dt_year dt) (dt_month dt) (dt_day dt) (dt_hour dt) (dt_min dt) (dt_sec dt) =
      Some (of_nat (86400 * (days_before ?y + r) + 3600 * unat (dt_hour dt) + 60 * unat (dt_min dt) + unat (dt_sec dt)))"
    unfolding utc_of_date [OF assms(2) v(1-3)] date_days_def r_def SECS_PER_DAY_def SECS_PER_HOUR_def SECS_PER_MIN_def
    by (simp only: add.assoc) simp
qed

text \<open>
  C37: every valid date of the years 1970 to 2105 survives the conversion to a time and back.
\<close>

theorem date_utc_roundtrip:
  assumes "valid_date dt" and "1970 \<le> unat (dt_year dt)" and "unat (dt_year dt) \<le> 2105"
  shows "\<exists>secs. utcFromDateTime (dt_year dt) (dt_month dt) (dt_day dt) (dt_hour dt) (dt_min dt) (dt_sec dt) = Some secs \<and>
     dateTimeFromUtc (ucast secs * 1000000 + ucast (dt_usec dt)) = Some dt"
proof -
  let ?y = "unat (dt_year dt)"
  define r0 where "r0 = sum_list (take (unat (dt_month dt) - 1) (month_lens ?y)) + (unat (dt_day dt) - 1)"
  define n where "n = 86400 * (days_before ?y + r0) + 3600 * unat (dt_hour dt) + 60 * unat (dt_min dt) + unat (dt_sec dt)"
  have v: "1 \<le> unat (dt_month dt)" "unat (dt_month dt) \<le> 12" "1 \<le> unat (dt_day dt)"
    "unat (dt_day dt) \<le> month_lens ?y ! (unat (dt_month dt) - 1)"
    "unat (dt_hour dt) < 24" "unat (dt_min dt) < 60" "unat (dt_sec dt) < 60" "unat (dt_usec dt) < 1000000"
    using assms(1) by (simp_all add: valid_date_def)
  note r0 = valid_place(1) [OF assms(1,2), folded r0_def]
  note utc = valid_place(2) [OF assms(1,2), folded r0_def, folded n_def]
  note parts = date_secs_fields [OF v(5-7), of "days_before ?y + r0", folded n_def]
  have "days_before ?y + year_len ?y \<le> days_before 2106" by (rule days_before_mono) (use assms in simp_all)
  then have days: "days_before ?y + r0 < 49673" using r0 by (simp add: days_before_2106)
  then have n32: "n < 2 ^ 32" using v(5-7) by (simp add: n_def)
  let ?us = "ucast (of_nat n :: u32) * 1000000 + ucast (dt_usec dt) :: u64"
  have "unat (of_nat n :: u32) = n" using n32 by (simp add: unat_of_nat take_bit_nat_eq_self)
  then have secs: "unat (ucast (of_nat n :: u32) :: u64) = n" using n32 by (simp add: unsigned_ucast_eq take_bit_nat_eq_self)
  have usec: "unat (ucast (dt_usec dt) :: u64) = unat (dt_usec dt)" using v(8) by (simp add: unsigned_ucast_eq take_bit_nat_eq_self)
  have "n * 1000000 + unat (dt_usec dt) < 2 ^ 64" using n32 v(8) by simp
  then have us: "unat ?us = n * 1000000 + unat (dt_usec dt)"
    using n32 by (simp add: unat_word_ariths secs usec)
  then have us_div: "unat ?us div 1000000 = n" and us_mod: "unat ?us mod 1000000 = unat (dt_usec dt)" using v(8) by simp_all
  obtain dt' r k r' where d: "dateTimeFromUtc ?us = Some dt'"
    "year_loop ((?us div of_nat MICROSECONDS_PER_SECOND) div of_nat SECS_PER_DAY) 1970 = (r, dt_year dt')"
    "unat r < year_len (unat (dt_year dt'))" "k < 12" "unat (dt_month dt') = Suc k" "unat (dt_day dt') = Suc r'"
    "r' < month_lens (unat (dt_year dt')) ! k" "sum_list (take k (month_lens (unat (dt_year dt')))) + r' = unat r"
    "unat (dt_hour dt') = unat (dt_hour dt)" "unat (dt_min dt') = unat (dt_min dt)"
    "unat (dt_sec dt') = unat (dt_sec dt)" "unat (dt_usec dt') = unat (dt_usec dt)"
    using date_of_utc [of ?us] unfolding us_div us_mod parts by blast
  have "unat ((?us div of_nat MICROSECONDS_PER_SECOND) div of_nat SECS_PER_DAY) = days_before ?y + r0"
    by (simp only: unat_div_distrib time_consts us_div parts)
  then have "1970 \<le> unat (dt_year dt')" "days_before (unat (dt_year dt')) + unat r = days_before ?y + r0"
    using year_loop_days [OF d(2)] days by (simp_all add: days_before_def)
  then have y: "unat (dt_year dt') = ?y" "unat r = r0"
    using year_unique [of "unat (dt_year dt')" "unat r" ?y r0] d(3) r0 assms(2) by simp_all
  have "k = unat (dt_month dt) - 1 \<and> r' = unat (dt_day dt) - 1"
    by (rule month_unique [of _ "month_lens ?y"]) (use d(4,7,8) y v r0_def month_lens_sum(1) [of ?y] in simp_all)
  then have "unat (dt_month dt') = unat (dt_month dt)" "unat (dt_day dt') = unat (dt_day dt)" using d(5,6) v(1,3) by simp_all
  then have "dt' = dt" using y(1) d(9-12) by (intro utcDateTime_t.equality) (simp_all add: word_unat_eq_iff)
  with utc d(1) show ?thesis by blast
qed

theorem date_utc_roundtrip_witness:
  "\<exists>secs. utcFromDateTime 2024 2 29 23 59 58 = Some secs \<and> dateTimeFromUtc (ucast secs * 1000000 + 5) =
     Some \<lparr>dt_year = 2024, dt_month = 2, dt_day = 29, dt_hour = 23, dt_min = 59, dt_sec = 58, dt_usec = 5\<rparr>"
proof -
  have "valid_date \<lparr>dt_year = 2024, dt_month = 2, dt_day = 29, dt_hour = 23, dt_min = 59, dt_sec = 58, dt_usec = 5\<rparr>"
    by (simp add: valid_date_def month_lens_def gregorian_leap_def)
  from date_utc_roundtrip [OF this] show ?thesis by simp
qed

lemma sint_of_diff:
  fixes a b :: nat
  assumes "a < b + 2 ^ 31" and "b \<le> a + 2 ^ 31"
  shows "sint (of_int (int a - int b) :: u32) = int a - int b"
proof -
  have "int a < int b + 2 ^ 31" "int b \<le> int a + 2 ^ 31" using assms by simp_all
  then show ?thesis using signed_take_bit_int_eq_self [of 31 "int a - int b"] by (simp add: signed_of_int del: of_int_diff)
qed

text \<open>
  The time that remains is the timeout less the time elapsed, or nothing when that is over,
  also across a wrap-around of the clock, as long as the two are less than \<open>2 ^ 31\<close> apart; a
  timeout of \<open>2 ^ 31\<close> or more has expired when it starts.
\<close>

theorem time_remaining:
  assumes "unat timeout < elapsed + 2 ^ 31" and "elapsed \<le> unat timeout + 2 ^ 31"
  shows "unat (timeRemainingGeneric startTime (startTime + of_nat elapsed) timeout) = unat timeout - elapsed \<and>
     (\<forall>t. 2 ^ 31 \<le> unat t \<longrightarrow> timeRemainingGeneric startTime startTime t = 0)"
proof
  show "unat (timeRemainingGeneric startTime (startTime + of_nat elapsed) timeout) = unat timeout - elapsed"
  proof -
    let ?x = "timeout - of_nat elapsed"
    have x: "?x = of_int (int (unat timeout) - int elapsed)" by simp
    have sx: "sint ?x = int (unat timeout) - int elapsed" unfolding x using assms by (rule sint_of_diff)
    have d: "startTime + timeout - (startTime + of_nat elapsed) = ?x" by simp
    show ?thesis
    proof (cases "unat timeout < elapsed")
      case True
      then have "sint ?x < 0" unfolding sx by linarith
      then have "?x <s 0" by (simp add: word_sless_alt)
      with True show ?thesis by (simp add: timeRemainingGeneric_def d)
    next
      case False
      then have "\<not> sint ?x < 0" unfolding sx by linarith
      then have "\<not> ?x <s 0" by (simp add: word_sless_alt)
      moreover have "unat ?x = unat timeout - elapsed"
      proof -
        have "unat timeout < 2 ^ 32" using unsigned_less [of timeout] by simp
        then have "unat (of_nat elapsed :: u32) = elapsed" using False by (simp add: unat_of_nat take_bit_nat_eq_self)
        then show ?thesis using False by (simp add: unat_sub word_le_nat_alt)
      qed
      ultimately show ?thesis by (simp add: timeRemainingGeneric_def d)
    qed
  qed
  show "\<forall>t. 2 ^ 31 \<le> unat t \<longrightarrow> timeRemainingGeneric startTime startTime t = 0"
  proof (intro allI impI)
    fix t :: u32 assume "2 ^ 31 \<le> unat t"
    moreover have bound: "unat t < 2 ^ 32" using unsigned_less [of t] by simp
    moreover have e: "(of_int (int (unat t) - int (2 ^ 32)) :: u32) = t" by (simp add: word_eq_iff_unsigned)
    ultimately have "sint t = int (unat t) - int (2 ^ 32)"
      by (intro sint_of_diff [of "unat t" "2 ^ 32", unfolded e]) simp_all
    moreover have "int (unat t) < int (2 ^ 32)" using bound by (simp only: of_nat_less_iff)
    ultimately have "sint t < 0" by linarith
    then have "t <s 0" by (simp add: word_sless_alt)
    then show "timeRemainingGeneric startTime startTime t = 0" by (simp add: timeRemainingGeneric_def)
  qed
qed

theorem time_remaining_witness:
  "unat (timeRemainingGeneric 0xFFFFFFF0 0x10 100) = 68 \<and> timeRemainingGeneric 5 5 0x80000000 = 0"
proof -
  have wrap: "0xFFFFFFF0 + of_nat 32 = (0x10 :: u32)" by simp
  show ?thesis
    using time_remaining [of 100 32 "0xFFFFFFF0", unfolded wrap] time_remaining [of 100 32 5] by simp
qed

end
