(* ===== verification/Util_Str.thy ===== *)
theory Util_Str
  imports Bm_Prelude
begin

text \<open>
  The string helpers of the common utilities: the tokenizer (\<open>tokenize.c\<close>), the table of names
  (\<open>enumToStr.c\<close>) and the conversions of strings to numbers (\<open>util.c\<close>), with the proof that the
  tokenizer cuts its line into the pieces between the separators, and that it never returns for a
  line longer than its 16-bit index can count.
\<close>

section \<open>The tokenizer\<close>

text \<open>
  A token pointer is an offset into the line, or \<open>NULL\<close>.  The array of token pointers is the list
  of its cells, whose length is the number allocated; what a fresh cell holds is the parameter
  \<open>junk\<close>.  The result is \<open>Inl\<close> when an assertion fails, which stops the system, or when an access is
  outside the line or the array.  \<open>mallocOk\<close> tells the sizes for which the allocator has memory.
\<close>

datatype tok_error = Assertion_failed | Bad_access

record tok_state =
  tk_line :: "u8 list"
  tk_tokens :: "nat option list"
  tk_count :: u32
  tk_max :: u32

definition DEFAULT_NUM_TOKENS :: u32 where "DEFAULT_NUM_TOKENS = 16"

definition sizeof_ptr :: u32 where "sizeof_ptr = 4"

text \<open>An empty token is marked by a null pointer.\<close>

definition close_token :: "nat \<Rightarrow> tok_state \<Rightarrow> tok_error + tok_state" where
  "close_token end s =
     (if unat (tk_count s) < length (tk_tokens s)
      then Inr (if tk_tokens s ! unat (tk_count s) = Some end
                then s\<lparr>tk_tokens := (tk_tokens s)[unat (tk_count s) := None]\<rparr> else s)
      else Inl Bad_access)"

definition grow_tokens :: "(u32 \<Rightarrow> bool) \<Rightarrow> nat option \<Rightarrow> tok_state \<Rightarrow> tok_error + tok_state" where
  "grow_tokens mallocOk junk s =
     (if tk_count s = tk_max s
      then if mallocOk (tk_max s * 2 * sizeof_ptr)
           then Inr (s\<lparr>tk_tokens := take (unat (tk_max s * sizeof_ptr) div 4) (tk_tokens s) @
                         replicate (unat (tk_max s * 2 * sizeof_ptr) div 4 - unat (tk_max s * sizeof_ptr) div 4) junk,
                       tk_max := tk_max s * 2\<rparr>)
           else Inl Assertion_failed
      else Inr s)"

definition start_token :: "nat \<Rightarrow> tok_state \<Rightarrow> tok_error + tok_state" where
  "start_token start s =
     (if unat (tk_count s) < length (tk_tokens s)
      then Inr (s\<lparr>tk_tokens := (tk_tokens s)[unat (tk_count s) := Some start]\<rparr>)
      else Inl Bad_access)"

definition tok_char :: "(u32 \<Rightarrow> bool) \<Rightarrow> nat option \<Rightarrow> u8 \<Rightarrow> u16 \<Rightarrow> tok_state \<Rightarrow> tok_error + tok_state" where
  "tok_char mallocOk junk token idx s =
     (if length (tk_line s) \<le> unat idx then Inl Bad_access
      else if tk_line s ! unat idx = token
      then case close_token (unat idx) (s\<lparr>tk_line := (tk_line s)[unat idx := 0]\<rparr>) of
             Inl e \<Rightarrow> Inl e
           | Inr s \<Rightarrow> (case grow_tokens mallocOk junk (s\<lparr>tk_count := tk_count s + 1\<rparr>) of
               Inl e \<Rightarrow> Inl e
             | Inr s \<Rightarrow> start_token (unat idx + 1) s)
      else Inr s)"

text \<open>The index is 16 bits wide and the length 32: the loop is a partial function.\<close>

partial_function (option) tok_loop ::
  "(u32 \<Rightarrow> bool) \<Rightarrow> nat option \<Rightarrow> u8 \<Rightarrow> u32 \<Rightarrow> u16 \<Rightarrow> tok_state \<Rightarrow> (tok_error + tok_state) option" where
  "tok_loop mallocOk junk token len idx s =
     (if ucast idx < len
      then case tok_char mallocOk junk token idx s of
             Inl e \<Rightarrow> Some (Inl e)
           | Inr s \<Rightarrow> tok_loop mallocOk junk token len (idx + 1) s
      else Some (Inr s))"

text \<open>The result: the line, the array of tokens unless it is \<open>NULL\<close>, and their number.\<close>

definition tok_finish :: "u32 \<Rightarrow> tok_state \<Rightarrow> tok_error + u8 list \<times> nat option list option \<times> u32" where
  "tok_finish len s =
     (if tk_count s = 0 then Inr (tk_line s, None, tk_count s)
      else case close_token (unat len) s of
        Inl e \<Rightarrow> Inl e
      | Inr s \<Rightarrow> Inr (tk_line s, Some (tk_tokens s), tk_count s + 1))"

definition tokenize ::
  "(u32 \<Rightarrow> bool) \<Rightarrow> nat option \<Rightarrow> u8 list \<Rightarrow> u32 \<Rightarrow> u8 \<Rightarrow>
   (tok_error + u8 list \<times> nat option list option \<times> u32) option" where
  "tokenize mallocOk junk line len token =
     (if \<not> mallocOk (DEFAULT_NUM_TOKENS * sizeof_ptr) then Some (Inl Assertion_failed)
      else case start_token 0 \<lparr>tk_line = line,
          tk_tokens = replicate (unat (DEFAULT_NUM_TOKENS * sizeof_ptr) div 4) junk,
          tk_count = 0, tk_max = DEFAULT_NUM_TOKENS\<rparr> of
        Inl e \<Rightarrow> Some (Inl e)
      | Inr s \<Rightarrow> (case tok_loop mallocOk junk token len 0 s of
          None \<Rightarrow> None
        | Some (Inl e) \<Rightarrow> Some (Inl e)
        | Some (Inr s) \<Rightarrow> Some (tok_finish len s)))"

section \<open>Strings and tables\<close>

text \<open>A C string is the list of its characters before the terminating zero.\<close>

fun isASCIIString :: "u8 list \<Rightarrow> bool" where
  "isASCIIString [] \<longleftrightarrow> True"
| "isASCIIString (c # cs) \<longleftrightarrow> (if c > 127 then False else isASCIIString cs)"

text \<open>The copy has room for the terminator, which it holds.\<close>

definition duplicateStr :: "(nat \<Rightarrow> bool) \<Rightarrow> u8 list \<Rightarrow> u8 list option" where
  "duplicateStr mallocOk inStr = (if mallocOk (length inStr + 1) then Some (inStr @ [0]) else None)"

text \<open>A table of names ends with an entry without a name; one that does not is read past its end.\<close>

fun enumToStr :: "(u32 \<times> string option) list \<Rightarrow> u32 \<Rightarrow> string option" where
  "enumToStr [] v = None"
| "enumToStr ((_, None) # _) v = Some []"
| "enumToStr ((x, Some name) # lut) v = (if x = v then Some name else enumToStr lut v)"

section \<open>Numbers\<close>

text \<open>
  \<open>strtoll\<close> of the C library in base 10: white space, a sign, digits; the value saturates, and the
  second component is the number of characters used, 0 when there is no number.
\<close>

definition is_space :: "u8 \<Rightarrow> bool" where "is_space c \<longleftrightarrow> c = 32 \<or> (9 \<le> c \<and> c \<le> 13)"
definition is_digit :: "u8 \<Rightarrow> bool" where "is_digit c \<longleftrightarrow> 48 \<le> c \<and> c \<le> 57"

definition sign_length :: "u8 list \<Rightarrow> nat" where
  "sign_length s = (case s of c # _ \<Rightarrow> if c = 43 \<or> c = 45 then 1 else 0 | [] \<Rightarrow> 0)"

definition digits_value :: "u8 list \<Rightarrow> int" where
  "digits_value ds = foldl (\<lambda>v d. 10 * v + (uint d - 48)) 0 ds"

definition saturate64 :: "int \<Rightarrow> int" where "saturate64 v = max (- (2 ^ 63)) (min (2 ^ 63 - 1) v)"

definition strtoll :: "u8 list \<Rightarrow> int \<times> nat" where
  "strtoll str =
     (let spaces = length (takeWhile is_space str);
          signed = drop spaces str;
          digits = takeWhile is_digit (drop (sign_length signed) signed);
          v = digits_value digits
      in if digits = [] then (0, 0)
         else (saturate64 (if hd signed = 45 then - v else v), spaces + sign_length signed + length digits))"

text \<open>
  The floating point operations are parameters: the conversion of an integer, the division by ten,
  addition and subtraction, of \<open>float\<close> for \<open>bStrtof\<close> and of \<open>double\<close> for \<open>bStrtod\<close>.
\<close>

record 'f float_ops =
  f_of_int :: "int \<Rightarrow> 'f"
  f_div10 :: "'f \<Rightarrow> 'f"
  f_add :: "'f \<Rightarrow> 'f \<Rightarrow> 'f"
  f_sub :: "'f \<Rightarrow> 'f \<Rightarrow> 'f"

definition MAX_FRACTION_LEN :: nat where "MAX_FRACTION_LEN = 45"

text \<open>The character at an offset, the terminator included.\<close>

definition char_at :: "u8 list \<Rightarrow> nat \<Rightarrow> u8" where
  "char_at s i = (if i < length s then s ! i else 0)"

text \<open>The two functions differ in the type of their numbers only.\<close>

definition bStrto :: "'f float_ops \<Rightarrow> u8 list \<Rightarrow> bool \<times> 'f" where
  "bStrto fl str =
     (let numStr = dropWhile (\<lambda>c. c = 32) str;
          isNegative = char_at numStr 0 = 45;
          (v, n) = strtoll numStr;
          fVal = f_of_int fl v
      in if char_at numStr n = 46
         then let fractionStart = drop (n + 1) numStr;
                  (v, m) = strtoll fractionStart;
                  fFraction = f_of_int fl v
              in if m = 0 \<or> char_at fractionStart m \<noteq> 0 then (False, fVal)
                 else let numDigits = min (length fractionStart) MAX_FRACTION_LEN;
                          fFraction = (f_div10 fl ^^ numDigits) fFraction
                      in (True, if isNegative then f_sub fl fVal fFraction else f_add fl fVal fFraction)
         else if n = 0 then (False, fVal)
         else (True, fVal))"

definition bStrtof :: "'f float_ops \<Rightarrow> u8 list \<Rightarrow> bool \<times> 'f" where
  "bStrtof float numStr = bStrto float numStr"

definition bStrtod :: "'f float_ops \<Rightarrow> u8 list \<Rightarrow> bool \<times> 'f" where
  "bStrtod double numStr = bStrto double numStr"

section \<open>What the tokenizer computes\<close>

text \<open>The pieces of a line between the separators, and the pointers the code keeps for them.\<close>

fun pieces :: "u8 \<Rightarrow> u8 list \<Rightarrow> u8 list list" where
  "pieces t [] = [[]]"
| "pieces t (c # cs) = (if c = t then [] # pieces t cs else (c # hd (pieces t cs)) # tl (pieces t cs))"

fun piece_ptrs :: "nat \<Rightarrow> u8 list list \<Rightarrow> nat option list" where
  "piece_ptrs i [] = []"
| "piece_ptrs i (p # ps) = (if p = [] then None else Some i) # piece_ptrs (i + length p + 1) ps"

text \<open>The pointers of the remaining line, when the open token starts at \<open>i\<close> and has \<open>n\<close> characters.\<close>

fun scan_ptrs :: "u8 \<Rightarrow> nat \<Rightarrow> nat \<Rightarrow> u8 list \<Rightarrow> nat option list" where
  "scan_ptrs t i n [] = [if n = 0 then None else Some i]"
| "scan_ptrs t i n (c # cs) =
     (if c = t then (if n = 0 then None else Some i) # scan_ptrs t (i + n + 1) 0 cs else scan_ptrs t i (Suc n) cs)"

lemma pieces_not_Nil [simp]: "pieces t cs \<noteq> []" by (cases cs) auto

lemma length_pieces: "length (pieces t cs) = Suc (count_list cs t)"
  by (induction cs) auto

lemma scan_ptrs_pieces:
  "scan_ptrs t i n cs =
     (if n + length (hd (pieces t cs)) = 0 then None else Some i) #
     piece_ptrs (i + n + length (hd (pieces t cs)) + 1) (tl (pieces t cs))"
proof (induction cs arbitrary: i n)
  case (Cons c cs)
  obtain p ps where "pieces t cs = p # ps" by (cases "pieces t cs") simp_all
  then show ?case by (simp add: Cons.IH)
qed simp

lemma scan_ptrs_0: "scan_ptrs t 0 0 cs = piece_ptrs 0 (pieces t cs)"
  using pieces_not_Nil [of t cs] by (cases "pieces t cs") (simp_all add: scan_ptrs_pieces)

lemma length_piece_ptrs [simp]: "length (piece_ptrs i ps) = length ps"
  by (induction ps arbitrary: i) auto

lemma piece_ptrs_None: "k < length ps \<Longrightarrow> piece_ptrs i ps ! k = None \<longleftrightarrow> ps ! k = []"
  by (induction ps arbitrary: i k) (auto simp: nth_Cons split: nat.splits)

lemma drop_later: "Suc i \<le> p \<Longrightarrow> drop (p - i) (c # cs) = drop (p - Suc i) cs"
  by (simp add: drop_Cons')

text \<open>A pointer leads to its piece.\<close>

lemma piece_at:
  assumes "k < length (pieces t cs)" and "piece_ptrs i (pieces t cs) ! k = Some p"
  shows "i \<le> p \<and> take (length (pieces t cs ! k)) (drop (p - i) cs) = pieces t cs ! k"
  using assms
proof (induction cs arbitrary: i k p)
  case (Cons c cs)
  obtain h ps where ps: "pieces t cs = h # ps" by (cases "pieces t cs") simp_all
  show ?case
  proof (cases "c = t")
    case True
    with Cons.prems obtain k' where k': "k = Suc k'" by (cases k) simp_all
    then have "Suc i \<le> p \<and> take (length (pieces t cs ! k')) (drop (p - Suc i) cs) = pieces t cs ! k'"
      using True Cons.prems by (intro Cons.IH) simp_all
    then show ?thesis using True k' by (simp add: drop_later)
  next
    case False
    show ?thesis
    proof (cases k)
      case 0
      then have "h \<noteq> [] \<Longrightarrow> take (length h) cs = h" using Cons.IH [of 0 "Suc i" "Suc i"] ps by simp
      then show ?thesis using 0 ps False Cons.prems by (cases "h = []") auto
    next
      case (Suc k')
      then have "Suc i \<le> p \<and> take (length (pieces t cs ! k)) (drop (p - Suc i) cs) = pieces t cs ! k"
        using False Cons.prems ps by (intro Cons.IH) simp_all
      then show ?thesis using Suc ps False by (simp add: drop_later)
    qed
  qed
qed simp

section \<open>The loop\<close>

text \<open>The pointer to a token that ends there.\<close>

definition ptr_of :: "nat \<Rightarrow> nat \<Rightarrow> nat option" where "ptr_of end i = (if i = end then None else Some i)"

text \<open>What the loop keeps: the array is as long as the code believes and has room for the open token.\<close>

definition tok_inv :: "nat \<Rightarrow> tok_state \<Rightarrow> bool" where
  "tok_inv left s \<longleftrightarrow> length (tk_tokens s) = unat (tk_max s) \<and> tk_count s < tk_max s \<and>
     unat (tk_max s) \<le> max 16 (2 * unat (tk_count s)) \<and> unat (tk_count s) + left < 2 ^ 28"

lemma tok_char_other:
  assumes "unat idx < length (tk_line s)" and "tk_line s ! unat idx \<noteq> token"
  shows "tok_char (\<lambda>_. True) junk token idx s = Inr s"
  using assms by (simp add: tok_char_def)

lemma grow_tokens_ok:
  assumes "length (tk_tokens s) = unat (tk_max s)" and "tk_count s \<le> tk_max s"
    and "unat (tk_max s) \<le> max 16 (2 * unat (tk_count s))" and "unat (tk_count s) + left < 2 ^ 28"
    and "0 < tk_count s"
  shows "\<exists>s'. grow_tokens (\<lambda>_. True) junk s = Inr s' \<and> tok_inv left s' \<and> tk_line s' = tk_line s \<and>
     tk_count s' = tk_count s \<and> take (unat (tk_count s)) (tk_tokens s') = take (unat (tk_count s)) (tk_tokens s)"
proof (cases "tk_count s = tk_max s")
  case True
  let ?m = "unat (tk_max s)"
  have m: "?m < 2 ^ 28" using assms(4) True by simp
  then have b: "unat (tk_max s * sizeof_ptr) = ?m * 4" "unat (tk_max s * 2 * sizeof_ptr) = ?m * 8" "unat (tk_max s * 2) = ?m * 2"
    by (simp_all add: sizeof_ptr_def unat_word_ariths)
  then show ?thesis using True assms
    by (simp add: grow_tokens_def tok_inv_def word_less_nat_alt)
next
  case False
  then have "tk_count s < tk_max s" using assms(2) by simp
  then show ?thesis using False assms by (simp add: grow_tokens_def tok_inv_def)
qed

lemma close_token_ok:
  assumes "unat (tk_count s) < length (tk_tokens s)" and "tk_tokens s ! unat (tk_count s) = Some i"
  shows "close_token end s = Inr (s\<lparr>tk_tokens := (tk_tokens s)[unat (tk_count s) := ptr_of end i]\<rparr>)"
proof -
  have "(tk_tokens s)[unat (tk_count s) := Some i] = tk_tokens s" using assms(2) by (metis list_update_id)
  then show ?thesis using assms by (simp add: close_token_def ptr_of_def)
qed

lemma tok_inv_less: "tok_inv (Suc left) s \<Longrightarrow> tok_inv left s"
  by (simp add: tok_inv_def)

lemma tok_char_token:
  assumes "unat idx < length (tk_line s)" and "tk_line s ! unat idx = token"
    and "tok_inv (Suc left) s" and "tk_tokens s ! unat (tk_count s) = Some i"
  shows "\<exists>s'. tok_char (\<lambda>_. True) junk token idx s = Inr s' \<and> tok_inv left s' \<and>
     tk_line s' = (tk_line s)[unat idx := 0] \<and> unat (tk_count s') = Suc (unat (tk_count s)) \<and>
     tk_tokens s' ! unat (tk_count s') = Some (Suc (unat idx)) \<and>
     take (unat (tk_count s')) (tk_tokens s') =
       take (unat (tk_count s)) (tk_tokens s) @ [ptr_of (unat idx) i]"
proof -
  let ?n = "unat (tk_count s)" and ?c = "ptr_of (unat idx) i"
  have inv: "length (tk_tokens s) = unat (tk_max s)" "?n < unat (tk_max s)" "unat (tk_max s) \<le> max 16 (2 * ?n)" "?n + Suc left < 2 ^ 28"
    using assms(3) by (simp_all add: tok_inv_def word_less_nat_alt)
  have c1: "unat (tk_count s + 1) = Suc ?n" using inv(4) by (simp add: unat_word_ariths)
  define s1 where "s1 = s\<lparr>tk_line := (tk_line s)[unat idx := 0], tk_tokens := (tk_tokens s)[?n := ?c]\<rparr>"
  have close: "close_token (unat idx) (s\<lparr>tk_line := (tk_line s)[unat idx := 0]\<rparr>) = Inr s1"
    using inv(1,2) assms(4) by (simp add: close_token_ok s1_def)
  have "unat (tk_max s) \<le> max 16 (2 * Suc ?n)" using inv(3) by (rule order_trans) (rule max.mono, simp_all)
  then obtain s2 where grow: "grow_tokens (\<lambda>_. True) junk (s1\<lparr>tk_count := tk_count s1 + 1\<rparr>) = Inr s2" and s2: "tok_inv left s2"
    "tk_line s2 = tk_line s1" "unat (tk_count s2) = Suc ?n" "take (Suc ?n) (tk_tokens s2) = take (Suc ?n) (tk_tokens s1)"
    using grow_tokens_ok [of "s1\<lparr>tk_count := tk_count s1 + 1\<rparr>" left junk] inv c1
    by (auto simp: s1_def word_le_nat_alt word_less_nat_alt)
  have "Suc ?n < length (tk_tokens s2)" using s2(1,3) by (simp add: tok_inv_def word_less_nat_alt)
  moreover have "take (Suc ?n) (tk_tokens s1) = take ?n (tk_tokens s) @ [?c]"
    using inv(1,2) by (simp add: s1_def take_Suc_conv_app_nth)
  ultimately show ?thesis using assms(1,2) close grow s2
    by (simp add: tok_char_def start_token_def tok_inv_def s1_def)
qed

text \<open>A byte of the line after the tokenizer has passed it.\<close>

definition cut :: "u8 \<Rightarrow> u8 \<Rightarrow> u8" where "cut token c = (if c = token then 0 else c)"

lemma idx_less: "ucast (idx :: u16) < (len :: u32) \<longleftrightarrow> unat idx < unat len"
proof -
  have "unat idx < 2 ^ 16" using unsigned_less [of idx] by simp
  then show ?thesis by (simp add: word_less_nat_alt unsigned_ucast_eq take_bit_nat_eq_self)
qed

lemma tok_loop_end:
  assumes "unat idx = unat len"
  shows "tok_loop (\<lambda>_. True) junk token len idx s = Some (Inr s)"
  using assms by (subst tok_loop.simps) (simp add: idx_less)

lemma tok_loop_scans:
  assumes "unat len < 2 ^ 16" and "unat idx + length rest = unat len" and "i + n = unat idx"
    and "length (tk_line s) = unat len" and "drop (unat idx) (tk_line s) = rest"
    and "tok_inv (length rest) s" and "tk_tokens s ! unat (tk_count s) = Some i"
  shows "\<exists>s' i'. tok_loop (\<lambda>_. True) junk token len idx s = Some (Inr s') \<and> tok_inv 0 s' \<and>
     tk_line s' = take (unat idx) (tk_line s) @ map (cut token) rest \<and>
     unat (tk_count s') = unat (tk_count s) + count_list rest token \<and>
     tk_tokens s' ! unat (tk_count s') = Some i' \<and>
     take (unat (tk_count s')) (tk_tokens s') @ [ptr_of (unat len) i'] =
       take (unat (tk_count s)) (tk_tokens s) @ scan_ptrs token i n rest"
  using assms
proof (induction rest arbitrary: idx i n s)
  case Nil
  then show ?case by (auto simp: tok_loop_end ptr_of_def)
next
  case (Cons c rest)
  have idx: "unat idx < unat len" "unat (idx + 1) = Suc (unat idx)" using Cons.prems(1,2) by (simp_all add: unat_word_ariths)
  have c: "tk_line s ! unat idx = c" "drop (Suc (unat idx)) (tk_line s) = rest"
    using Cons.prems(4,5) idx(1) by (metis Cons_nth_drop_Suc list.inject)+
  have unf: "tok_loop (\<lambda>_. True) junk token len idx s =
      (case tok_char (\<lambda>_. True) junk token idx s of Inl e \<Rightarrow> Some (Inl e) | Inr s \<Rightarrow> tok_loop (\<lambda>_. True) junk token len (idx + 1) s)"
    using idx(1) Cons.prems(1) by (subst tok_loop.simps) (simp add: idx_less)
  have line: "take (Suc (unat idx)) (tk_line s) = take (unat idx) (tk_line s) @ [c]"
    using idx(1) c(1) Cons.prems(4) by (simp add: take_Suc_conv_app_nth)
  show ?case
  proof (cases "c = token")
    case False
    then have "tok_char (\<lambda>_. True) junk token idx s = Inr s" using c idx(1) Cons.prems(4) by (intro tok_char_other) simp_all
    moreover have "tok_inv (length rest) s" using Cons.prems(6) by (auto intro: tok_inv_less)
    ultimately show ?thesis
      using Cons.IH [of "idx + 1" i "Suc n" s] Cons.prems idx c line False by (simp add: unf cut_def)
  next
    case True
    obtain s1 where s1: "tok_char (\<lambda>_. True) junk token idx s = Inr s1" "tok_inv (length rest) s1"
      "tk_line s1 = (tk_line s)[unat idx := 0]" "unat (tk_count s1) = Suc (unat (tk_count s))"
      "tk_tokens s1 ! unat (tk_count s1) = Some (Suc (unat idx))"
      "take (unat (tk_count s1)) (tk_tokens s1) =
        take (unat (tk_count s)) (tk_tokens s) @ [ptr_of (unat idx) i]"
      using tok_char_token [of idx s token "length rest" i junk] Cons.prems idx c True by auto
    have "take (Suc (unat idx)) (tk_line s1) = take (unat idx) (tk_line s) @ [0]"
      using idx(1) Cons.prems(4) by (simp add: s1(3) take_Suc_conv_app_nth)
    moreover have "ptr_of (unat idx) i = (if n = 0 then None else Some i)" using Cons.prems(3) by (auto simp: ptr_of_def)
    ultimately show ?thesis
      using Cons.IH [of "idx + 1" "Suc (unat idx)" 0 s1] Cons.prems idx c(2) s1 True by (auto simp: unf cut_def)
  qed
qed

lemma start_line:
  "start_token 0 \<lparr>tk_line = line, tk_tokens = replicate (unat (DEFAULT_NUM_TOKENS * sizeof_ptr) div 4) junk,
     tk_count = 0, tk_max = DEFAULT_NUM_TOKENS\<rparr> =
   Inr \<lparr>tk_line = line, tk_tokens = (replicate 16 junk)[0 := Some 0], tk_count = 0, tk_max = DEFAULT_NUM_TOKENS\<rparr>"
  by (simp add: start_token_def DEFAULT_NUM_TOKENS_def sizeof_ptr_def)

lemma start_inv:
  "left < 2 ^ 28 \<Longrightarrow> tok_inv left \<lparr>tk_line = line, tk_tokens = (replicate 16 junk)[0 := Some 0], tk_count = 0, tk_max = DEFAULT_NUM_TOKENS\<rparr>"
  by (simp add: tok_inv_def DEFAULT_NUM_TOKENS_def)

lemma tokenize_loops:
  assumes "tok_loop (\<lambda>_. True) junk token len 0
     \<lparr>tk_line = line, tk_tokens = (replicate 16 junk)[0 := Some 0], tk_count = 0, tk_max = DEFAULT_NUM_TOKENS\<rparr> = r"
  shows "tokenize (\<lambda>_. True) junk line len token =
     (case r of None \<Rightarrow> None | Some (Inl e) \<Rightarrow> Some (Inl e) | Some (Inr s) \<Rightarrow> Some (tok_finish len s))"
  using assms by (simp add: tokenize_def start_line)

text \<open>
  C38: the tokenizer cuts a line of at most 65535 bytes at the separators: it overwrites exactly
  these with zeros and returns one pointer for every piece between them, which leads to the piece
  or is null when it is empty; a line without a separator gives no array.  It stays within the line and
  the array it grows.
\<close>

theorem tokenize_splits:
  assumes "length line = unat len" and "unat len < 2 ^ 16"
  shows "\<exists>toks n. tokenize (\<lambda>_. True) junk line len token = Some (Inr (map (cut token) line, toks, n)) \<and>
     (if token \<in> set line
      then \<exists>ts. toks = Some ts \<and> unat n = length (pieces token line) \<and> unat n \<le> length ts \<and>
        (\<forall>k < unat n. case ts ! k of
           None \<Rightarrow> pieces token line ! k = []
         | Some p \<Rightarrow> pieces token line ! k \<noteq> [] \<and>
             take (length (pieces token line ! k)) (drop p line) = pieces token line ! k)
      else toks = None \<and> n = 0)"
proof -
  let ?P = "pieces token line"
  define s0 where "s0 = \<lparr>tk_line = line, tk_tokens = (replicate 16 junk)[0 := Some 0], tk_count = 0, tk_max = DEFAULT_NUM_TOKENS\<rparr>"
  obtain s i where s: "tok_loop (\<lambda>_. True) junk token len 0 s0 = Some (Inr s)" "tok_inv 0 s"
    "tk_line s = map (cut token) line" "unat (tk_count s) = count_list line token"
    "tk_tokens s ! unat (tk_count s) = Some i"
    "take (unat (tk_count s)) (tk_tokens s) @ [ptr_of (unat len) i] = piece_ptrs 0 ?P"
    using tok_loop_scans [of len 0 line 0 0 s0 junk token] assms start_inv [of "length line" line junk]
    by (auto simp: s0_def scan_ptrs_0)
  note run = tokenize_loops [OF s(1) [unfolded s0_def]]
  let ?n = "unat (tk_count s)"
  have n: "?n < length (tk_tokens s)" "Suc ?n < 2 ^ 32" using s(2) by (simp_all add: tok_inv_def word_less_nat_alt)
  show ?thesis
  proof (cases "token \<in> set line")
    case False
    then have "tk_count s = 0" using s(4) by (simp add: unat_eq_0 [symmetric] count_list_0_iff)
    then show ?thesis using False run s(3) by (simp add: tok_finish_def)
  next
    case True
    then have c: "tk_count s \<noteq> 0" using s(4) by (auto simp: count_list_0_iff)
    define ts where "ts = (tk_tokens s)[?n := ptr_of (unat len) i]"
    have "close_token (unat len) s = Inr (s\<lparr>tk_tokens := ts\<rparr>)" unfolding ts_def using n(1) s(5) by (rule close_token_ok)
    then have "tokenize (\<lambda>_. True) junk line len token = Some (Inr (map (cut token) line, Some ts, tk_count s + 1))"
      using run s(3) c by (simp add: tok_finish_def)
    moreover have "unat (tk_count s + 1) = length ?P" using n(2) s(4) by (simp add: unat_word_ariths length_pieces)
    moreover have ts: "take (length ?P) ts = piece_ptrs 0 ?P"
      using n(1) s(4,6) by (simp add: ts_def length_pieces take_Suc_conv_app_nth)
    moreover have "length ?P \<le> length ts" using n(1) s(4) by (simp add: ts_def length_pieces)
    moreover have "case ts ! k of None \<Rightarrow> ?P ! k = []
       | Some p \<Rightarrow> ?P ! k \<noteq> [] \<and> take (length (?P ! k)) (drop p line) = ?P ! k" if "k < length ?P" for k
    proof -
      have "ts ! k = piece_ptrs 0 ?P ! k" using ts that by (metis nth_take)
      then show ?thesis using that piece_ptrs_None [OF that, of 0] piece_at [OF that, of 0]
        by (auto split: option.split)
    qed
    ultimately show ?thesis using True by auto
  qed
qed

theorem tokenize_splits_witness:
  "\<exists>toks n. tokenize (\<lambda>_. True) None [97, 32, 32, 98] 4 32 = Some (Inr ([97, 0, 0, 98], toks, n)) \<and>
     (\<exists>ts. toks = Some ts \<and> unat n = 3 \<and> ts ! 1 = None)"
  using tokenize_splits [of "[97, 32, 32, 98]" 4 None 32] by (fastforce simp: cut_def split: option.splits)

text \<open>From a good state, every step of the loop over a line of \<open>2 ^ 16\<close> bytes or more leads to another.\<close>

definition tok_stuck :: "u8 \<Rightarrow> u32 \<Rightarrow> tok_state \<Rightarrow> bool" where
  "tok_stuck token len s \<longleftrightarrow> token \<noteq> 0 \<and> 2 ^ 16 \<le> unat len \<and> unat len \<le> length (tk_line s) \<and>
     tok_inv (count_list (tk_line s) token) s \<and> tk_tokens s ! unat (tk_count s) \<noteq> None"

lemma count_list_cut:
  "k < length xs \<Longrightarrow> xs ! k = t \<Longrightarrow> t \<noteq> 0 \<Longrightarrow> count_list xs t = Suc (count_list (xs[k := 0 :: u8]) t)"
  by (induction xs arbitrary: k) (auto simp: nth_Cons split: nat.splits)

lemma tok_stuck_step:
  assumes "tok_stuck token len s"
  shows "ucast idx < len \<and> (\<exists>s'. tok_char (\<lambda>_. True) junk token idx s = Inr s' \<and> tok_stuck token len s')"
proof -
  have "unat idx < 2 ^ 16" using unsigned_less [of idx] by simp
  with assms have idx: "unat idx < unat len" "unat idx < length (tk_line s)" by (simp_all add: tok_stuck_def)
  obtain i where i: "tk_tokens s ! unat (tk_count s) = Some i" using assms by (auto simp: tok_stuck_def)
  show ?thesis
  proof (cases "tk_line s ! unat idx = token")
    case False
    then show ?thesis using idx assms by (simp add: idx_less tok_char_other)
  next
    case True
    have c: "count_list (tk_line s) token = Suc (count_list ((tk_line s)[unat idx := 0]) token)"
      using count_list_cut [OF idx(2) True] assms by (simp add: tok_stuck_def)
    have "tok_inv (Suc (count_list ((tk_line s)[unat idx := 0]) token)) s" using assms unfolding tok_stuck_def c by simp
    from tok_char_token [OF idx(2) True this i, of junk] assms idx(1) show ?thesis
      by (auto simp: tok_stuck_def idx_less)
  qed
qed

lemma tok_loop_stuck:
  assumes "tok_stuck token len s"
  shows "tok_loop (\<lambda>_. True) junk token len idx s = None"
proof -
  have "m = (\<lambda>_. True) \<longrightarrow> \<not> tok_stuck t l s" if ret: "tok_loop m j t l idx s = Some r" for m j t l idx s r
  proof (rule tok_loop.raw_induct [where P = "\<lambda>m j t l idx s r. m = (\<lambda>_. True) \<longrightarrow> \<not> tok_stuck t l s", OF _ ret])
    fix f and m :: "u32 \<Rightarrow> bool" and j t l and idx :: u16 and s r
    assume IH: "\<And>m j t l idx s r. f m j t l idx s = Some r \<Longrightarrow> m = (\<lambda>_. True) \<longrightarrow> \<not> tok_stuck t l s"
      and eq: "(if ucast idx < l then case tok_char m j t idx s of Inl e \<Rightarrow> Some (Inl e) | Inr s \<Rightarrow> f m j t l (idx + 1) s
        else Some (Inr s)) = Some r"
    show "m = (\<lambda>_. True) \<longrightarrow> \<not> tok_stuck t l s"
    proof (intro impI notI)
      assume "m = (\<lambda>_. True)" "tok_stuck t l s"
      with tok_stuck_step [OF this(2), of idx j] eq IH show False by auto
    qed
  qed
  with assms show ?thesis by (metis option.exhaust)
qed

text \<open>
  C39: the tokenizer returns exactly for the lines its 16-bit index can count: for a line of 65536
  bytes or more the index wraps around and the loop never ends, whatever the line holds.
\<close>

theorem tokenize_returns_iff:
  assumes "length line = unat len" and "unat len < 2 ^ 28" and "token \<noteq> 0"
  shows "tokenize (\<lambda>_. True) junk line len token \<noteq> None \<longleftrightarrow> unat len < 2 ^ 16"
proof (cases "unat len < 2 ^ 16")
  case True
  from tok_loop_scans [OF this, of 0 line 0 0
      "\<lparr>tk_line = line, tk_tokens = (replicate 16 junk)[0 := Some 0], tk_count = 0, tk_max = DEFAULT_NUM_TOKENS\<rparr>" junk token]
    assms(1) True start_inv [of "length line" line junk]
  show ?thesis by (auto dest!: tokenize_loops)
next
  case False
  have "tok_stuck token len \<lparr>tk_line = line, tk_tokens = (replicate 16 junk)[0 := Some 0], tk_count = 0, tk_max = DEFAULT_NUM_TOKENS\<rparr>"
    using False assms count_le_length [of line token] start_inv [of "count_list line token" line junk] by (simp add: tok_stuck_def)
  from tokenize_loops [OF tok_loop_stuck [OF this, of junk 0]] False show ?thesis by simp
qed

theorem tokenize_returns_iff_witness:
  "tokenize (\<lambda>_. True) None (replicate 65536 65) 65536 32 = None \<and> tokenize (\<lambda>_. True) None (replicate 65535 65) 65535 32 \<noteq> None"
  using tokenize_returns_iff [of "replicate 65536 65" 65536 32 None] tokenize_returns_iff [of "replicate 65535 65" 65535 32 None] by simp

section \<open>Strings and numbers\<close>

lemma isASCIIString_iff: "isASCIIString s \<longleftrightarrow> (\<forall>c \<in> set s. unat c < 128)"
  by (induction s) (auto simp: word_less_nat_alt)

text \<open>In a terminated table the first entry with the value counts, and an unknown value has no name.\<close>

lemma enumToStr_terminated:
  assumes "\<forall>(x, name) \<in> set lut. name \<noteq> None"
  shows "enumToStr (lut @ (0, None) # rest) v =
     Some (case map_of lut v of Some (Some name) \<Rightarrow> name | _ \<Rightarrow> [])"
  using assms by (induction lut) (auto split: option.splits)

lemma takeWhile_all: "\<forall>c \<in> set xs. P c \<Longrightarrow> takeWhile P (xs @ ys) = xs @ takeWhile P ys"
  by (induction xs) simp_all

text \<open>A plain decimal number is read with all its digits.\<close>

lemma strtoll_digits:
  assumes "ds \<noteq> []" and "\<forall>d \<in> set ds. is_digit d" and "rest = [] \<or> \<not> is_digit (hd rest)"
  shows "strtoll (ds @ rest) = (saturate64 (digits_value ds), length ds)"
proof -
  have d: "is_digit (hd ds)" using assms(1,2) by simp
  then have hd: "\<not> is_space (hd ds)" "hd ds \<noteq> 43" "hd ds \<noteq> 45"
    by (auto simp: is_digit_def is_space_def word_le_nat_alt word_unat_eq_iff)
  have sp: "takeWhile is_space (ds @ rest) = []" using assms(1) hd(1) by (cases ds) simp_all
  have sg: "sign_length (ds @ rest) = 0" using assms(1) hd by (cases ds) (simp_all add: sign_length_def)
  have "takeWhile is_digit rest = []" using assms(3) by (cases rest) auto
  then have dg: "takeWhile is_digit (ds @ rest) = ds" using takeWhile_all [OF assms(2)] by simp
  show ?thesis using assms(1) hd(3) by (simp add: strtoll_def Let_def sp sg dg)
qed

text \<open>Characters behind a number without a decimal point are ignored, and a sign is taken in the fraction.\<close>

lemma trailing_characters_accepted:
  assumes "ds \<noteq> []" and "\<forall>d \<in> set ds. is_digit d" and "rest = [] \<or> \<not> is_digit (hd rest) \<and> hd rest \<noteq> 46"
  shows "bStrtof float (ds @ rest) = (True, f_of_int float (saturate64 (digits_value ds)))"
proof -
  have "is_digit (hd ds)" using assms(1,2) by simp
  then have "hd ds \<noteq> 32" by (auto simp: is_digit_def word_le_nat_alt)
  then have dw: "dropWhile (\<lambda>c. c = 32) (ds @ rest) = ds @ rest" using assms(1) by (cases ds) simp_all
  have "char_at (ds @ rest) (length ds) \<noteq> 46" using assms(3) by (cases rest) (simp_all add: char_at_def)
  then show ?thesis using assms(1) strtoll_digits [OF assms(1,2), of rest] assms(3)
    by (auto simp: bStrtof_def bStrto_def dw)
qed

lemma signed_fraction_accepted:
  "bStrtof float [49, 46, 45, 53] = (True, f_add float (f_of_int float 1) (f_div10 float (f_div10 float (f_of_int float (-5)))))"
  by (simp add: bStrtof_def bStrto_def strtoll_def sign_length_def is_space_def is_digit_def digits_value_def saturate64_def
      char_at_def MAX_FRACTION_LEN_def Let_def)

end
