(* ===== verification/Prot_I2c.thy ===== *)
theory Prot_I2c
  imports Bm_Prelude
begin

text \<open>
  The shared I2C bus (\<open>protected_i2c.c\<close>): a transaction takes the bus, keeps the processor out of
  deep sleep while it runs, and translates the error codes of the vendor driver.
\<close>

section \<open>What the bus driver stands on\<close>

datatype I2CResponse_t = I2C_OK | I2C_TIMEOUT | I2C_NACK | I2C_MUTEX | I2C_ERR

text \<open>
  The vendor driver and the mutex, over a world \<open>'w\<close>: taking the mutex within a time and giving it
  back, sending, receiving into a buffer and probing (\<open>True\<close> is \<open>HAL_OK\<close>), the error code of the
  last operation, and the function that initialises the interface.
\<close>

record 'w i2c_hal =
  xSemaphoreTake :: "u32 \<Rightarrow> 'w \<Rightarrow> bool \<times> 'w"
  xSemaphoreGive :: "'w \<Rightarrow> 'w"
  HAL_I2C_Master_Transmit :: "u16 \<Rightarrow> u8 list \<Rightarrow> u32 \<Rightarrow> 'w \<Rightarrow> bool \<times> 'w"
  HAL_I2C_Master_Receive :: "u16 \<Rightarrow> u8 list \<Rightarrow> u32 \<Rightarrow> 'w \<Rightarrow> bool \<times> u8 list \<times> 'w"
  HAL_I2C_IsDeviceReady :: "u16 \<Rightarrow> u32 \<Rightarrow> 'w \<Rightarrow> bool \<times> 'w"
  ErrorCode :: "'w \<Rightarrow> u32"
  initFn :: "'w \<Rightarrow> 'w"

record I2CInterface_t =
  if_mutex :: bool
  if_lpm_mask :: u32

text \<open>The flags of the low power manager (\<open>lpm_u5.c\<close>) and the world.\<close>

record 'w bus =
  deepSleepForbiddenFlags :: u32
  hw :: 'w

definition lpmPeripheralActive :: "u32 \<Rightarrow> 'w bus \<Rightarrow> 'w bus" where
  "lpmPeripheralActive peripheralMask b =
     b\<lparr>deepSleepForbiddenFlags := deepSleepForbiddenFlags b OR peripheralMask\<rparr>"

definition lpmPeripheralInactive :: "u32 \<Rightarrow> 'w bus \<Rightarrow> 'w bus" where
  "lpmPeripheralInactive peripheralMask b =
     b\<lparr>deepSleepForbiddenFlags := deepSleepForbiddenFlags b AND NOT peripheralMask\<rparr>"

section \<open>The code\<close>

text \<open>\<open>HAL_I2C_ERROR_AF\<close> is bit 2 and \<open>HAL_I2C_ERROR_TIMEOUT\<close> bit 5 of the error code.\<close>

definition halI2cErrToI2CResponse :: "u32 \<Rightarrow> I2CResponse_t" where
  "halI2cErrToI2CResponse errorCode =
     (if errorCode AND 4 \<noteq> 0 then I2C_NACK
      else if errorCode AND 0x20 \<noteq> 0 then I2C_TIMEOUT
      else if errorCode = 0 then I2C_OK
      else I2C_ERR)"

definition i2cWorkaround :: "'w i2c_hal \<Rightarrow> I2CResponse_t \<Rightarrow> 'w bus \<Rightarrow> 'w bus" where
  "i2cWorkaround hal rval b =
     (if rval = I2C_TIMEOUT \<or> rval = I2C_ERR then b\<lparr>hw := initFn hal (hw b)\<rparr> else b)"

definition i2cInit :: "'w i2c_hal \<Rightarrow> I2CInterface_t \<Rightarrow> 'w bus \<Rightarrow> bool \<times> I2CInterface_t \<times> 'w bus" where
  "i2cInit hal ifc b = (True, ifc\<lparr>if_mutex := True\<rparr>, b\<lparr>hw := initFn hal (hw b)\<rparr>)"

text \<open>A failed operation: the response, and the reinitialisation of a wedged interface.\<close>

definition i2c_failed :: "'w i2c_hal \<Rightarrow> 'w bus \<Rightarrow> I2CResponse_t \<times> 'w bus" where
  "i2c_failed hal b = (let rval = halI2cErrToI2CResponse (ErrorCode hal (hw b)) in (rval, i2cWorkaround hal rval b))"

text \<open>The transfers of a transaction; a buffer that is \<open>NULL\<close> is the empty list.\<close>

definition i2c_transmit ::
  "'w i2c_hal \<Rightarrow> u8 \<Rightarrow> u8 list \<Rightarrow> u32 \<Rightarrow> I2CResponse_t \<Rightarrow> 'w bus \<Rightarrow> bool \<times> I2CResponse_t \<times> 'w bus" where
  "i2c_transmit hal address txBuff timeoutMs rval b =
     (if txBuff \<noteq> []
      then case HAL_I2C_Master_Transmit hal (push_bit 1 (ucast address)) txBuff timeoutMs (hw b) of
        (ok, w) \<Rightarrow> if ok then (True, I2C_OK, b\<lparr>hw := w\<rparr>) else (False, i2c_failed hal (b\<lparr>hw := w\<rparr>))
      else (True, rval, b))"

definition i2c_receive ::
  "'w i2c_hal \<Rightarrow> u8 \<Rightarrow> u8 list \<Rightarrow> u32 \<Rightarrow> I2CResponse_t \<Rightarrow> 'w bus \<Rightarrow> u8 list \<times> I2CResponse_t \<times> 'w bus" where
  "i2c_receive hal address rxBuff timeoutMs rval b =
     (if rxBuff \<noteq> []
      then case HAL_I2C_Master_Receive hal (push_bit 1 (ucast address)) rxBuff timeoutMs (hw b) of
        (ok, rx, w) \<Rightarrow> if ok then (rx, I2C_OK, b\<lparr>hw := w\<rparr>) else (rx, i2c_failed hal (b\<lparr>hw := w\<rparr>))
      else (rxBuff, rval, b))"

definition lpm_enter :: "I2CInterface_t \<Rightarrow> 'w bus \<Rightarrow> 'w bus" where
  "lpm_enter ifc b = (if if_lpm_mask ifc \<noteq> 0 then lpmPeripheralActive (if_lpm_mask ifc) b else b)"

definition lpm_leave :: "I2CInterface_t \<Rightarrow> 'w bus \<Rightarrow> 'w bus" where
  "lpm_leave ifc b = (if if_lpm_mask ifc \<noteq> 0 then lpmPeripheralInactive (if_lpm_mask ifc) b else b)"

text \<open>
  The transaction; \<open>None\<close> is the failing assertion that the interface has a mutex.  In the build
  without \<open>I2C_DEBUG\<close> a mutex that is not free is reported as \<open>I2C_ERR\<close>.
\<close>

definition i2cTxRx ::
  "'w i2c_hal \<Rightarrow> I2CInterface_t \<Rightarrow> u8 \<Rightarrow> u8 list \<Rightarrow> u8 list \<Rightarrow> u32 \<Rightarrow> 'w bus \<Rightarrow>
   (I2CResponse_t \<times> u8 list \<times> 'w bus) option" where
  "i2cTxRx hal ifc address txBuff rxBuff timeoutMs b =
     (if \<not> if_mutex ifc then None
      else case xSemaphoreTake hal timeoutMs (hw b) of
        (False, w) \<Rightarrow> Some (I2C_ERR, rxBuff, b\<lparr>hw := w\<rparr>)
      | (True, w) \<Rightarrow>
          let (go, rval, b) = i2c_transmit hal address txBuff timeoutMs I2C_ERR (lpm_enter ifc (b\<lparr>hw := w\<rparr>));
              (rxBuff, rval, b) = (if go then i2c_receive hal address rxBuff timeoutMs rval b else (rxBuff, rval, b));
              b = lpm_leave ifc b
          in Some (rval, rxBuff, b\<lparr>hw := xSemaphoreGive hal (hw b)\<rparr>))"

definition i2cProbe ::
  "'w i2c_hal \<Rightarrow> I2CInterface_t \<Rightarrow> u8 \<Rightarrow> u32 \<Rightarrow> 'w bus \<Rightarrow> (I2CResponse_t \<times> 'w bus) option" where
  "i2cProbe hal ifc address timeoutMs b =
     (if \<not> if_mutex ifc then None
      else case xSemaphoreTake hal timeoutMs (hw b) of
        (False, w) \<Rightarrow> Some (I2C_MUTEX, b\<lparr>hw := w\<rparr>)
      | (True, w) \<Rightarrow>
          let b = lpm_enter ifc (b\<lparr>hw := w\<rparr>);
              (ok, w) = HAL_I2C_IsDeviceReady hal (push_bit 1 (ucast address)) timeoutMs (hw b);
              b = b\<lparr>hw := w\<rparr>;
              rval = (if ok then I2C_OK else halI2cErrToI2CResponse (ErrorCode hal (hw b)));
              b = (if \<not> ok \<and> rval \<noteq> I2C_NACK \<and> rval \<noteq> I2C_TIMEOUT then i2cWorkaround hal rval b else b);
              b = lpm_leave ifc b
          in Some (rval, b\<lparr>hw := xSemaphoreGive hal (hw b)\<rparr>))"

section \<open>The low power flags\<close>

lemma i2c_failed_flags: "i2c_failed hal b = (r, b') \<Longrightarrow> deepSleepForbiddenFlags b' = deepSleepForbiddenFlags b"
  by (auto simp: i2c_failed_def i2cWorkaround_def Let_def)

lemma i2c_transmit_flags:
  "i2c_transmit hal a tx t r b = (go, r', b') \<Longrightarrow> deepSleepForbiddenFlags b' = deepSleepForbiddenFlags b"
  by (auto simp: i2c_transmit_def split: if_splits prod.splits dest!: i2c_failed_flags)

lemma i2c_receive_flags:
  "i2c_receive hal a rx t r b = (rx', r', b') \<Longrightarrow> deepSleepForbiddenFlags b' = deepSleepForbiddenFlags b"
  by (auto simp: i2c_receive_def split: if_splits prod.splits dest!: i2c_failed_flags)

lemma lpm_flags:
  "deepSleepForbiddenFlags (lpm_enter ifc b) = deepSleepForbiddenFlags b OR if_lpm_mask ifc"
  "deepSleepForbiddenFlags (lpm_leave ifc b) = deepSleepForbiddenFlags b AND NOT (if_lpm_mask ifc)"
  by (simp_all add: lpm_enter_def lpm_leave_def lpmPeripheralActive_def lpmPeripheralInactive_def)

lemma or_and_not: "(x OR m) AND NOT m = x AND NOT (m :: u32)"
  by (rule bit_word_eqI) (auto simp: bit_simps)

text \<open>A transaction holds the bus awake only while it runs, however it ends.\<close>

lemma i2cTxRx_flags:
  assumes "i2cTxRx hal ifc a tx rx t b = Some (r, rx', b')"
  shows "deepSleepForbiddenFlags b' =
     (if fst (xSemaphoreTake hal t (hw b)) then deepSleepForbiddenFlags b AND NOT (if_lpm_mask ifc)
      else deepSleepForbiddenFlags b)"
  using assms
  by (auto simp: i2cTxRx_def lpm_flags or_and_not Let_def split: if_splits prod.splits bool.splits
      dest!: i2c_transmit_flags i2c_receive_flags)

text \<open>Without the mutex nothing is sent.\<close>

lemma i2cTxRx_busy:
  assumes "if_mutex ifc" and "xSemaphoreTake hal t (hw b) = (False, w)"
  shows "i2cTxRx hal ifc a tx rx t b = Some (I2C_ERR, rx, b\<lparr>hw := w\<rparr>)"
  using assms by (simp add: i2cTxRx_def)

end
