(* ===== verification/Pca9535.thy ===== *)
theory Pca9535
  imports Prot_I2c
begin

text \<open>
  The I/O expander (\<open>pca9535.c\<close>): sixteen pins behind the I2C bus, with cached ports and callbacks
  for changing inputs.
\<close>

section \<open>The device\<close>

datatype PCA9535Register =
  INPUT_PORT_0 | INPUT_PORT_1 | OUTPUT_PORT_0 | OUTPUT_PORT_1
| POLARITY_INVERSION_PORT_0 | POLARITY_INVERSION_PORT_1 | CONFIGURATION_PORT_0 | CONFIGURATION_PORT_1

fun register_code :: "PCA9535Register \<Rightarrow> u8" where
  "register_code INPUT_PORT_0 = 0" | "register_code INPUT_PORT_1 = 1"
| "register_code OUTPUT_PORT_0 = 2" | "register_code OUTPUT_PORT_1 = 3"
| "register_code POLARITY_INVERSION_PORT_0 = 4" | "register_code POLARITY_INVERSION_PORT_1 = 5"
| "register_code CONFIGURATION_PORT_0 = 6" | "register_code CONFIGURATION_PORT_1 = 7"

definition PCA9535_NUM_CHANNELS :: nat where "PCA9535_NUM_CHANNELS = 16"
definition PCA9535_TIMEOUT_MS :: u32 where "PCA9535_TIMEOUT_MS = 10"

text \<open>A callback is a value of the type \<open>'c\<close>, \<open>None\<close> the null pointer.\<close>

record 'c PCA9535Device_t =
  i2cDeviceHandle :: I2CInterface_t
  pca_address :: u8
  outputPort :: u16
  inputPort :: u16
  configPort :: u16
  callbacks :: "'c option list"
  pca_enabled :: bool
  pollTimer :: bool

record PCA9535Pin_t =
  pca_pin :: nat
  pca_input_mode :: bool

text \<open>The two bytes of a port, in the order of memory.\<close>

definition port_bytes :: "u16 \<Rightarrow> u8 list" where
  "port_bytes v = [ucast v, ucast (drop_bit 8 v)]"

definition port_of_bytes :: "u8 list \<Rightarrow> u16" where
  "port_of_bytes bs = ucast (bs ! 0) OR push_bit 8 (ucast (bs ! 1))"

section \<open>Register access\<close>

text \<open>\<open>None\<close> is a failing assertion; the buffer is the memory of the value, and may be written also when the read fails.\<close>

definition pca9535ReadReg ::
  "'w i2c_hal \<Rightarrow> 'c PCA9535Device_t \<Rightarrow> PCA9535Register \<Rightarrow> u16 \<Rightarrow> 'w bus \<Rightarrow> (bool \<times> u16 \<times> 'w bus) option" where
  "pca9535ReadReg hal device reg value b = do {
     (result, rx, b) \<leftarrow> i2cTxRx hal (i2cDeviceHandle device) (pca_address device) [register_code reg]
       (port_bytes value) PCA9535_TIMEOUT_MS b;
     Some (result = I2C_OK, port_of_bytes rx, b)
   }"

definition pca9535WriteReg ::
  "'w i2c_hal \<Rightarrow> 'c PCA9535Device_t \<Rightarrow> PCA9535Register \<Rightarrow> u16 \<Rightarrow> 'w bus \<Rightarrow> (bool \<times> 'w bus) option" where
  "pca9535WriteReg hal device reg value b = do {
     (result, _, b) \<leftarrow> i2cTxRx hal (i2cDeviceHandle device) (pca_address device)
       [register_code reg, ucast (value AND 0xFF), ucast (drop_bit 8 value)] [] PCA9535_TIMEOUT_MS b;
     Some (result = I2C_OK, b)
   }"

definition pca9535Init ::
  "'w i2c_hal \<Rightarrow> 'c PCA9535Device_t \<Rightarrow> 'w bus \<Rightarrow> (bool \<times> 'c PCA9535Device_t \<times> 'w bus) option" where
  "pca9535Init hal device b = do {
     (r1, v, b) \<leftarrow> pca9535ReadReg hal device CONFIGURATION_PORT_0 (configPort device) b;
     let device = device\<lparr>configPort := v\<rparr>;
     (r2, b) \<leftarrow> pca9535WriteReg hal device OUTPUT_PORT_0 0 b;
     (r3, v, b) \<leftarrow> pca9535ReadReg hal device OUTPUT_PORT_0 (outputPort device) b;
     let device = device\<lparr>outputPort := v\<rparr>;
     (r4, v, b) \<leftarrow> pca9535ReadReg hal device INPUT_PORT_0 (inputPort device) b;
     let device = device\<lparr>inputPort := v\<rparr>;
     let result = (r1 \<and> r2 \<and> r3 \<and> r4);
     Some (result, if result then device\<lparr>pca_enabled := True\<rparr> else device, b)
   }"

section \<open>Inputs and callbacks\<close>

text \<open>
  \<open>invoke\<close> is what calling a callback with a level does to the device and the bus: a callback is
  code of the application, which may use the driver.
\<close>

definition level :: "u16 \<Rightarrow> nat \<Rightarrow> u8" where "level port pin = of_bool (bit port pin)"

definition pin_callback ::
  "('c \<Rightarrow> u8 \<Rightarrow> 'c PCA9535Device_t \<times> 'w bus \<Rightarrow> 'c PCA9535Device_t \<times> 'w bus) \<Rightarrow> u16 \<Rightarrow> u16 \<Rightarrow> nat \<Rightarrow>
   'c PCA9535Device_t \<times> 'w bus \<Rightarrow> 'c PCA9535Device_t \<times> 'w bus" where
  "pin_callback invoke changes input pin s =
     (if bit changes pin
      then case callbacks (fst s) ! pin of None \<Rightarrow> s | Some c \<Rightarrow> invoke c (level input pin) s
      else s)"

definition pca9535UpdateInputs ::
  "'w i2c_hal \<Rightarrow> ('c \<Rightarrow> u8 \<Rightarrow> 'c PCA9535Device_t \<times> 'w bus \<Rightarrow> 'c PCA9535Device_t \<times> 'w bus) \<Rightarrow> bool \<Rightarrow>
   'c PCA9535Device_t \<times> 'w bus \<Rightarrow> (bool \<times> 'c PCA9535Device_t \<times> 'w bus) option" where
  "pca9535UpdateInputs hal invoke isIRQ s = do {
     let (device, b) = s;
     (result, input, b) \<leftarrow> pca9535ReadReg hal device INPUT_PORT_0 0 b;
     Some (if \<not> result then (result, device, b)
       else let changes = inputPort device XOR input;
                device = device\<lparr>inputPort := input\<rparr>
            in if changes AND configPort device = 0 then (result, device, b)
               else if \<not> isIRQ then (result, device, b)
               else (result, fold (pin_callback invoke changes input) [0..<PCA9535_NUM_CHANNELS] (device, b)))
   }"

text \<open>The pointer to the value is \<open>None\<close> when it is null.\<close>

definition pca9535Read ::
  "'w i2c_hal \<Rightarrow> ('c \<Rightarrow> u8 \<Rightarrow> 'c PCA9535Device_t \<times> 'w bus \<Rightarrow> 'c PCA9535Device_t \<times> 'w bus) \<Rightarrow> PCA9535Pin_t \<Rightarrow>
   u8 option \<Rightarrow> 'c PCA9535Device_t \<times> 'w bus \<Rightarrow> (bool \<times> u8 option \<times> 'c PCA9535Device_t \<times> 'w bus) option" where
  "pca9535Read hal invoke pinHandle val s =
     (if pca_enabled (fst s)
      then do {
        (result, s) \<leftarrow> pca9535UpdateInputs hal invoke False s;
        Some (result,
          if result \<and> val \<noteq> None then Some (level (inputPort (fst s)) (pca_pin pinHandle)) else val, s)
      }
      else Some (False, val, s))"

section \<open>Outputs and configuration\<close>

definition put_bit :: "nat \<Rightarrow> bool \<Rightarrow> u16 \<Rightarrow> u16" where
  "put_bit pin v port = (if v then port OR push_bit pin 1 else port AND NOT (push_bit pin 1))"

text \<open>The value read first is only compared and printed.\<close>

definition pca9535Write ::
  "'w i2c_hal \<Rightarrow> PCA9535Pin_t \<Rightarrow> u8 \<Rightarrow> 'c PCA9535Device_t \<times> 'w bus \<Rightarrow> (bool \<times> 'c PCA9535Device_t \<times> 'w bus) option" where
  "pca9535Write hal pinHandle val s =
     (let (device, b) = s
      in if pca_enabled device
         then do {
           (_, _, b) \<leftarrow> pca9535ReadReg hal device OUTPUT_PORT_0 0 b;
           let device = device\<lparr>outputPort := put_bit (pca_pin pinHandle) (val \<noteq> 0) (outputPort device)\<rparr>;
           (rval, b) \<leftarrow> pca9535WriteReg hal device OUTPUT_PORT_0 (outputPort device) b;
           Some (rval, device, b)
         }
         else Some (False, device, b))"

definition pca9535Configure ::
  "'w i2c_hal \<Rightarrow> ('c \<Rightarrow> u8 \<Rightarrow> 'c PCA9535Device_t \<times> 'w bus \<Rightarrow> 'c PCA9535Device_t \<times> 'w bus) \<Rightarrow> PCA9535Pin_t \<Rightarrow>
   'c PCA9535Device_t \<times> 'w bus \<Rightarrow> (bool \<times> 'c PCA9535Device_t \<times> 'w bus) option" where
  "pca9535Configure hal invoke pinHandle s =
     (let (device, b) = s
      in if pca_enabled device
         then do {
           (_, _, b) \<leftarrow> pca9535ReadReg hal device CONFIGURATION_PORT_0 0 b;
           let device = device\<lparr>configPort := put_bit (pca_pin pinHandle) (pca_input_mode pinHandle) (configPort device)\<rparr>;
           (rval, b) \<leftarrow> pca9535WriteReg hal device CONFIGURATION_PORT_0 (configPort device) b;
           if rval then pca9535UpdateInputs hal invoke False (device, b) else Some (rval, device, b)
         }
         else Some (False, device, b))"

section \<open>Interrupts\<close>

text \<open>
  A callback registered through \<open>gpioISR\<close> is the one given as argument; \<open>isrCallback\<close> is the
  function \<open>gpioISRCallbackFromISR\<close>.
\<close>

definition pca9535RegisterCallback ::
  "'c \<Rightarrow> PCA9535Pin_t \<Rightarrow> 'c option \<Rightarrow> 'c option \<Rightarrow> 'c PCA9535Device_t \<Rightarrow> (bool \<times> 'c PCA9535Device_t) option" where
  "pca9535RegisterCallback isrCallback pinHandle callback args device =
     (if pca_pin pinHandle < PCA9535_NUM_CHANNELS
      then Some (True, device\<lparr>callbacks := (callbacks device)[pca_pin pinHandle :=
        if callback = Some isrCallback then args else callback]\<rparr>)
      else None)"

text \<open>The interrupt task: whether it exists, and the device of its pending notification.\<close>

record 'd irq_task =
  task_created :: bool
  task_value :: "'d option"

definition pca9535IRQHandler :: "bool \<Rightarrow> 'd \<Rightarrow> 'c PCA9535Device_t \<Rightarrow> 'd irq_task \<Rightarrow> bool \<times> 'd irq_task" where
  "pca9535IRQHandler woken dev device t =
     (if task_created t \<and> pca_enabled device then (woken, t\<lparr>task_value := Some dev\<rparr>) else (False, t))"

definition pca9535PollTimerCallback :: "'d \<Rightarrow> 'd irq_task \<Rightarrow> 'd irq_task" where
  "pca9535PollTimerCallback dev t = (if task_created t then t\<lparr>task_value := Some dev\<rparr> else t)"

text \<open>One round of the task's loop: it sleeps until it is notified, and then updates that device.\<close>

definition pca9535IRQTask ::
  "'w i2c_hal \<Rightarrow> ('c \<Rightarrow> u8 \<Rightarrow> 'c PCA9535Device_t \<times> 'w bus \<Rightarrow> 'c PCA9535Device_t \<times> 'w bus) \<Rightarrow>
   'd irq_task \<Rightarrow> ('d \<Rightarrow> 'c PCA9535Device_t) \<Rightarrow> 'w bus \<Rightarrow> ('d irq_task \<times> ('d \<Rightarrow> 'c PCA9535Device_t) \<times> 'w bus) option" where
  "pca9535IRQTask hal invoke t devs b =
     (case task_value t of
        None \<Rightarrow> Some (t, devs, b)
      | Some dev \<Rightarrow> do {
          (_, device, b) \<leftarrow> pca9535UpdateInputs hal invoke True (devs dev, b);
          Some (t\<lparr>task_value := None\<rparr>, devs(dev := device), b)
        })"

definition pca9535StartIRQTask :: "bool \<Rightarrow> 'd irq_task \<Rightarrow> 'd irq_task option" where
  "pca9535StartIRQTask created t = (if created then Some (t\<lparr>task_created := True\<rparr>) else None)"

text \<open>The timer calls of the operating system succeed or the assertions fail.\<close>

definition pca9535StartPollingTimer :: "bool \<Rightarrow> 'c PCA9535Device_t \<Rightarrow> (bool \<times> 'c PCA9535Device_t) option" where
  "pca9535StartPollingTimer timerOk device =
     (if \<not> pollTimer device then if timerOk then Some (True, device\<lparr>pollTimer := True\<rparr>) else None
      else Some (False, device))"

definition pca9535StopPollingTimer :: "bool \<Rightarrow> 'c PCA9535Device_t \<Rightarrow> (bool \<times> 'c PCA9535Device_t) option" where
  "pca9535StopPollingTimer timerOk device =
     (if pollTimer device then if timerOk then Some (True, device\<lparr>pollTimer := False\<rparr>) else None
      else Some (False, device))"

section \<open>What the callbacks learn\<close>

lemma port_bytes_inverse [simp]: "port_of_bytes (port_bytes v) = v"
  unfolding port_of_bytes_def port_bytes_def by (rule bit_word_eqI) (auto simp: bit_simps)

lemma length_port_bytes [simp]: "length (port_bytes v) = 2" by (simp add: port_bytes_def)

lemma pca9535ReadReg_cache [simp]:
  "pca9535ReadReg hal (d\<lparr>inputPort := v\<rparr>) reg x b = pca9535ReadReg hal d reg x b"
  by (simp add: pca9535ReadReg_def)

lemma pca9535RegisterCallback_length:
  "pca9535RegisterCallback isr p c a d = Some (r, d') \<Longrightarrow> length (callbacks d') = length (callbacks d)"
  by (auto simp: pca9535RegisterCallback_def split: if_splits)

text \<open>Whether an input pin differs between two values of the port.\<close>

definition input_changed :: "'c PCA9535Device_t \<Rightarrow> u16 \<Rightarrow> u16 \<Rightarrow> bool" where
  "input_changed d old new \<longleftrightarrow> (\<exists>p < 16. bit (configPort d) p \<and> bit old p \<noteq> bit new p)"

text \<open>
  The callbacks of the pins that differ, inputs and outputs, each with the new level of its pin, in
  the order of the pins.
\<close>

definition changed_call :: "'c PCA9535Device_t \<Rightarrow> u16 \<Rightarrow> u16 \<Rightarrow> nat \<Rightarrow> ('c \<times> u8) list" where
  "changed_call d old new p =
     (if bit old p = bit new p then []
      else case callbacks d ! p of None \<Rightarrow> [] | Some c \<Rightarrow> [(c, if bit new p then 1 else 0)])"

definition changed_calls :: "'c PCA9535Device_t \<Rightarrow> u16 \<Rightarrow> u16 \<Rightarrow> ('c \<times> u8) list" where
  "changed_calls d old new = concat (map (changed_call d old new) [0..<16])"

lemma calls_cache [simp]:
  "input_changed (d\<lparr>inputPort := v\<rparr>) old new = input_changed d old new"
  "changed_calls (d\<lparr>inputPort := v\<rparr>) old new = changed_calls d old new"
  by (simp_all add: input_changed_def changed_calls_def changed_call_def [abs_def] cong: if_cong)

lemma changes_masked: "(old XOR new) AND configPort d = 0 \<longleftrightarrow> \<not> input_changed d old new"
  by (auto simp: input_changed_def bit_eq_iff bit_simps)

text \<open>
  A callback may use the driver, so it may change the device and the bus, but not the table of
  callbacks.
\<close>

lemma pin_callback_call:
  assumes "\<And>c l s. callbacks (fst (invoke c l s)) = callbacks (fst s)" and "callbacks (fst s) = callbacks d"
  shows "pin_callback invoke (old XOR new) new p s = fold (\<lambda>(c, l). invoke c l) (changed_call d old new p) s"
    and "callbacks (fst (pin_callback invoke (old XOR new) new p s)) = callbacks d"
  using assms by (auto simp: pin_callback_def changed_call_def bit_simps level_def split: option.split)

lemma fold_pin_callback:
  assumes "\<And>c l s. callbacks (fst (invoke c l s)) = callbacks (fst s)" and "callbacks (fst s) = callbacks d"
  shows "fold (pin_callback invoke (old XOR new) new) ps s =
     fold (\<lambda>(c, l). invoke c l) (concat (map (changed_call d old new) ps)) s"
  using assms(2)
proof (induction ps arbitrary: s)
  case (Cons p ps)
  note pin = pin_callback_call [OF assms(1) Cons.prems, where p = p]
  show ?case using Cons.IH [OF pin(2)] by (simp only: pin(1) fold_Cons fold_append map_append list.map concat.simps comp_apply)
qed simp

lemma update_reports:
  assumes "pca9535ReadReg hal d INPUT_PORT_0 0 b = Some (True, new, b')"
    and "\<And>c l s. callbacks (fst (invoke c l s)) = callbacks (fst s)"
  shows "pca9535UpdateInputs hal invoke True (d, b) =
     Some (True, fold (\<lambda>(c, l). invoke c l)
       (if input_changed d (inputPort d) new then changed_calls d (inputPort d) new else [])
       (d\<lparr>inputPort := new\<rparr>, b'))"
  using assms(1) fold_pin_callback [OF assms(2), where s = "(d\<lparr>inputPort := new\<rparr>, b')" and d = d and
      old = "inputPort d" and new = new and ps = "[0..<16]"]
  by (simp add: pca9535UpdateInputs_def changes_masked changed_calls_def Let_def PCA9535_NUM_CHANNELS_def del: upt_rec_numeral)

lemma read_reports_nothing:
  assumes "pca9535ReadReg hal d INPUT_PORT_0 0 b = Some (True, new, b')" and "pca_enabled d"
  shows "pca9535Read hal invoke pin (Some x) (d, b) = Some (True, Some (level new (pca_pin pin)), d\<lparr>inputPort := new\<rparr>, b')"
  using assms by (simp add: pca9535Read_def pca9535UpdateInputs_def Let_def)

text \<open>
  C40: an update by the interrupt task that follows a read of any pin calls nothing unless an input
  pin differs from what the read saw; then it calls the callback of every pin that differs, outputs
  included, with its new level and in the order of the pins.  So a change seen first by a read is
  never reported, whatever the cached port was before.  The callbacks may use the driver, but must
  not register callbacks.
\<close>

theorem callbacks_since_last_read:
  assumes "pca_enabled d"
    and "pca9535ReadReg hal d INPUT_PORT_0 0 b = Some (True, seen, b1)"
    and "pca9535ReadReg hal d INPUT_PORT_0 0 b1 = Some (True, new, b2)"
    and "\<And>c l s. callbacks (fst (invoke c l s)) = callbacks (fst s)"
  shows "\<exists>s. pca9535Read hal invoke pin (Some x) (d, b) = Some (True, Some (level seen (pca_pin pin)), s) \<and>
     pca9535UpdateInputs hal invoke True s =
       Some (True, fold (\<lambda>(c, l). invoke c l)
         (if input_changed d seen new then changed_calls d seen new else []) (d\<lparr>inputPort := new\<rparr>, b2))"
proof -
  have "pca9535UpdateInputs hal invoke True (d\<lparr>inputPort := seen\<rparr>, b1) =
       Some (True, fold (\<lambda>(c, l). invoke c l)
         (if input_changed d seen new then changed_calls d seen new else []) (d\<lparr>inputPort := new\<rparr>, b2))"
    using update_reports [of hal "d\<lparr>inputPort := seen\<rparr>" b1 new b2 invoke, OF _ assms(4)] assms(3)
    by simp
  then show ?thesis using read_reports_nothing [OF assms(2,1), of invoke pin x] by simp
qed

text \<open>A bus that answers reads from a list and records the calls of the callbacks.\<close>

definition demo_hal :: "(u16 list \<times> (nat \<times> u8) list) i2c_hal" where
  "demo_hal = \<lparr>xSemaphoreTake = (\<lambda>_ w. (True, w)), xSemaphoreGive = (\<lambda>w. w),
     HAL_I2C_Master_Transmit = (\<lambda>_ _ _ w. (True, w)),
     HAL_I2C_Master_Receive = (\<lambda>_ _ _ w. (True, port_bytes (hd (fst w)), tl (fst w), snd w)),
     HAL_I2C_IsDeviceReady = (\<lambda>_ _ w. (True, w)), ErrorCode = (\<lambda>_. 0), initFn = (\<lambda>w. w)\<rparr>"

definition demo_device :: "nat PCA9535Device_t" where
  "demo_device = \<lparr>i2cDeviceHandle = \<lparr>if_mutex = True, if_lpm_mask = 0\<rparr>, pca_address = 0x20, outputPort = 0, inputPort = 0,
     configPort = 3, callbacks = [Some 7, Some 8, Some 9] @ replicate 13 None, pca_enabled = True, pollTimer = False\<rparr>"

definition demo_note :: "nat \<Rightarrow> u8 \<Rightarrow> (u16 list \<times> (nat \<times> u8) list) bus \<Rightarrow> (u16 list \<times> (nat \<times> u8) list) bus" where
  "demo_note c l b = b\<lparr>hw := (fst (hw b), snd (hw b) @ [(c, l)])\<rparr>"

text \<open>
  Pin 0 rises before the read and is not reported; pin 1 and the output pin 2 are.  Every call reads
  a pin again, which updates the cached port.
\<close>

definition demo_invoke :: "nat \<Rightarrow> u8 \<Rightarrow> nat PCA9535Device_t \<times> (u16 list \<times> (nat \<times> u8) list) bus \<Rightarrow>
    nat PCA9535Device_t \<times> (u16 list \<times> (nat \<times> u8) list) bus" where
  "demo_invoke c l s = ((fst s)\<lparr>inputPort := inputPort (fst s) + 8\<rparr>, demo_note c l (snd s))"

theorem callbacks_since_last_read_witness:
  "\<exists>s d b. pca9535Read demo_hal demo_invoke \<lparr>pca_pin = 0, pca_input_mode = True\<rparr> (Some 5)
       (demo_device, \<lparr>deepSleepForbiddenFlags = 0, hw = ([1, 7], [])\<rparr>) = Some (True, Some 1, s) \<and>
     pca9535UpdateInputs demo_hal demo_invoke True s = Some (True, d, b) \<and> snd (hw b) = [(8, 1), (9, 1)]"
proof -
  let ?b = "\<lambda>w. \<lparr>deepSleepForbiddenFlags = 0, hw = (w, [])\<rparr>"
  have read: "pca9535ReadReg demo_hal demo_device INPUT_PORT_0 0 (?b (v # vs)) = Some (True, v, ?b vs)" for v vs
    by (simp add: pca9535ReadReg_def i2cTxRx_def demo_hal_def demo_device_def lpm_enter_def lpm_leave_def
        i2c_transmit_def i2c_receive_def Let_def port_bytes_def [of 0])
  have en: "pca_enabled demo_device" by (simp add: demo_device_def)
  have input: "input_changed demo_device 1 7"
    unfolding input_changed_def by (intro exI [of _ 1]) (simp add: demo_device_def)
  have calls: "changed_calls demo_device 1 7 = [(8, 1), (9, 1)]"
    by (simp add: changed_calls_def changed_call_def demo_device_def upt_rec numeral_eq_Suc)
  have table: "callbacks (fst (demo_invoke c l s)) = callbacks (fst s)" for c l s by (simp add: demo_invoke_def)
  obtain s where s: "pca9535Read demo_hal demo_invoke \<lparr>pca_pin = 0, pca_input_mode = True\<rparr> (Some 5)
       (demo_device, ?b [1, 7]) = Some (True, Some (level 1 0), s)"
    "pca9535UpdateInputs demo_hal demo_invoke True s =
       Some (True, fold (\<lambda>(c, l). demo_invoke c l) [(8, 1), (9, 1)] (demo_device\<lparr>inputPort := 7\<rparr>, ?b []))"
    using callbacks_since_last_read [where invoke = demo_invoke and pin = "\<lparr>pca_pin = 0, pca_input_mode = True\<rparr>" and x = 5,
        OF en read [of 1 "[7]"] read [of 7 "[]"] table]
    by (auto simp: input calls)
  have "level 1 0 = 1" by (simp add: level_def)
  note s(1) [unfolded this]
  moreover have "\<exists>d b. fold (\<lambda>(c, l). demo_invoke c l) [(8, 1), (9, 1)] (demo_device\<lparr>inputPort := 7\<rparr>, ?b []) = (d, b) \<and>
      snd (hw b) = [(8, 1), (9, 1)]"
    by (simp add: demo_invoke_def demo_note_def)
  ultimately show ?thesis using s(2) by metis
qed

end
