(* ===== verification/Stm32_Rtc.thy ===== *)
theory Stm32_Rtc
  imports Util_Time "HOL-Library.Log_Nat"
begin

text \<open>
  The real time clock (\<open>stm32_rtc.c\<close>) over the calendar registers of the peripheral, and the uptime
  of the system derived from it (\<open>uptime.c\<close>).  The two calls of the vendor driver that write the
  calendar are modelled down to the bits of its registers, as reading a time back depends on them.
\<close>

section \<open>The calendar registers\<close>

text \<open>
  The time, date, sub-second and prescaler registers, the backup register 0, and the control,
  calibration and status registers.
\<close>

record rtc_regs =
  r_TR :: u32
  r_DR :: u32
  r_SSR :: u32
  r_PRER :: u32
  r_BKP0R :: u32
  r_CR :: u32
  r_CALR :: u32
  r_ICSR :: u32

definition CONVERT_BIN2BCD :: "u8 \<Rightarrow> u8" where
  "CONVERT_BIN2BCD v = push_bit 4 (v div 10) OR v mod 10"

definition CONVERT_BCD2BIN :: "u32 \<Rightarrow> u8" where
  "CONVERT_BCD2BIN v = drop_bit 4 (ucast (v AND 0xF0)) * 10 + ucast (v AND 0x0F)"

definition MODIFY_REG :: "u32 \<Rightarrow> u32 \<Rightarrow> u32 \<Rightarrow> u32" where
  "MODIFY_REG reg clearmask setmask = (reg AND NOT clearmask) OR setmask"

text \<open>A BCD number at its place: the tens \<open>t\<close> and the units \<open>u\<close> of a register field.\<close>

definition bcd_place :: "nat \<Rightarrow> nat \<Rightarrow> u32 \<Rightarrow> u32" where
  "bcd_place t u v = push_bit (t - 4) (v AND 0xF0) OR push_bit u (v AND 0x0F)"

definition LL_RTC_TIME_Config :: "u32 \<Rightarrow> u32 \<Rightarrow> u32 \<Rightarrow> u32 \<Rightarrow> rtc_regs \<Rightarrow> rtc_regs" where
  "LL_RTC_TIME_Config format12_24 hours minutes seconds r =
     r\<lparr>r_TR := MODIFY_REG (r_TR r) 0x007F7F7F
        (format12_24 OR bcd_place 20 16 hours OR bcd_place 12 8 minutes OR bcd_place 4 0 seconds)\<rparr>"

definition LL_RTC_DATE_Config :: "u32 \<Rightarrow> u32 \<Rightarrow> u32 \<Rightarrow> u32 \<Rightarrow> rtc_regs \<Rightarrow> rtc_regs" where
  "LL_RTC_DATE_Config weekDay day month year r =
     r\<lparr>r_DR := MODIFY_REG (r_DR r) 0x00FFFF3F
        (push_bit 13 weekDay OR bcd_place 20 16 year OR bcd_place 12 8 month OR bcd_place 4 0 day)\<rparr>"

definition LL_RTC_TIME_GetHour :: "rtc_regs \<Rightarrow> u32" where
  "LL_RTC_TIME_GetHour r = drop_bit 16 (r_TR r AND 0x003F0000)"

definition LL_RTC_TIME_GetMinute :: "rtc_regs \<Rightarrow> u32" where
  "LL_RTC_TIME_GetMinute r = drop_bit 8 (r_TR r AND 0x00007F00)"

definition LL_RTC_TIME_GetSecond :: "rtc_regs \<Rightarrow> u32" where
  "LL_RTC_TIME_GetSecond r = drop_bit 0 (r_TR r AND 0x0000007F)"

definition LL_RTC_TIME_GetSubSecond :: "rtc_regs \<Rightarrow> u32" where
  "LL_RTC_TIME_GetSubSecond r = r_SSR r AND 0xFFFFFFFF"

definition LL_RTC_DATE_GetYear :: "rtc_regs \<Rightarrow> u32" where
  "LL_RTC_DATE_GetYear r = drop_bit 16 (r_DR r AND 0x00FF0000)"

definition LL_RTC_DATE_GetMonth :: "rtc_regs \<Rightarrow> u32" where
  "LL_RTC_DATE_GetMonth r = drop_bit 8 (r_DR r AND 0x00001F00)"

definition LL_RTC_DATE_GetDay :: "rtc_regs \<Rightarrow> u32" where
  "LL_RTC_DATE_GetDay r = drop_bit 0 (r_DR r AND 0x0000003F)"

definition LL_RTC_GetSynchPrescaler :: "rtc_regs \<Rightarrow> u32" where
  "LL_RTC_GetSynchPrescaler r = r_PRER r AND 0x00007FFF"

text \<open>
  How the peripheral answers a call that writes the calendar: whether it enters the initialisation
  mode in time, and whether its shadow registers are synchronised again afterwards.  The calls are
  those with \<open>LL_RTC_FORMAT_BIN\<close>; the format of the day is 24 hours, which is 0 as well.
\<close>

type_synonym rtc_answer = "bool \<times> bool"

definition LL_RTC_TIME_Init :: "rtc_answer \<Rightarrow> u8 \<Rightarrow> u8 \<Rightarrow> u8 \<Rightarrow> rtc_regs \<Rightarrow> bool \<times> rtc_regs" where
  "LL_RTC_TIME_Init a hours minutes seconds r =
     (if fst a
      then (snd a, LL_RTC_TIME_Config 0 (ucast (CONVERT_BIN2BCD hours)) (ucast (CONVERT_BIN2BCD minutes))
                     (ucast (CONVERT_BIN2BCD seconds)) r)
      else (False, r))"

definition LL_RTC_DATE_Init :: "rtc_answer \<Rightarrow> u8 \<Rightarrow> u8 \<Rightarrow> u8 \<Rightarrow> u8 \<Rightarrow> rtc_regs \<Rightarrow> bool \<times> rtc_regs" where
  "LL_RTC_DATE_Init a weekDay month day year r =
     (let month = (if month AND 0x10 = 0x10 then (month AND NOT 0x10) + 0x0A else month)
      in if fst a
         then (snd a, LL_RTC_DATE_Config (ucast weekDay) (ucast (CONVERT_BIN2BCD day)) (ucast (CONVERT_BIN2BCD month))
                        (ucast (CONVERT_BIN2BCD year)) r)
         else (False, r))"

text \<open>The prescalers and the format of the day are set together.\<close>

definition LL_RTC_Init :: "bool \<Rightarrow> u32 \<Rightarrow> u32 \<Rightarrow> u32 \<Rightarrow> rtc_regs \<Rightarrow> bool \<times> rtc_regs" where
  "LL_RTC_Init enters hourFormat asynchPrescaler synchPrescaler r =
     (if enters
      then (True, r\<lparr>r_CR := MODIFY_REG (r_CR r) 0x40 hourFormat,
             r_PRER := MODIFY_REG (MODIFY_REG (r_PRER r) 0x7FFF synchPrescaler) 0x7F0000 (push_bit 16 asynchPrescaler)\<rparr>)
      else (False, r))"

definition LL_RTC_CAL_SetPulse :: "u32 \<Rightarrow> rtc_regs \<Rightarrow> rtc_regs" where
  "LL_RTC_CAL_SetPulse pulse r = r\<lparr>r_CALR := MODIFY_REG (r_CALR r) 0x8000 pulse\<rparr>"

definition LL_RTC_CAL_IsPulseInserted :: "rtc_regs \<Rightarrow> u32" where
  "LL_RTC_CAL_IsPulseInserted r = (if r_CALR r AND 0x8000 = 0x8000 then 1 else 0)"

definition LL_RTC_CAL_SetMinus :: "u32 \<Rightarrow> rtc_regs \<Rightarrow> rtc_regs" where
  "LL_RTC_CAL_SetMinus calibMinus r = r\<lparr>r_CALR := MODIFY_REG (r_CALR r) 0x1FF calibMinus\<rparr>"

definition LL_RTC_CAL_GetMinus :: "rtc_regs \<Rightarrow> u32" where
  "LL_RTC_CAL_GetMinus r = r_CALR r AND 0x1FF"

definition LL_RTC_IsActiveFlag_RECALP :: "rtc_regs \<Rightarrow> u32" where
  "LL_RTC_IsActiveFlag_RECALP r = (if r_ICSR r AND 0x10000 = 0x10000 then 1 else 0)"

section \<open>The driver of the clock\<close>

definition RTC_SET_MAGIC :: u32 where "RTC_SET_MAGIC = 0x836A20DD"

record RTCTimeAndDate_t =
  rt_year :: u16
  rt_month :: u8
  rt_day :: u8
  rt_hour :: u8
  rt_minute :: u8
  rt_second :: u8
  rt_ms :: u16

text \<open>The clock of the peripheral is configured before; a failure of that is an assertion.\<close>

definition rtcInit :: "bool \<Rightarrow> rtc_regs \<Rightarrow> bool \<times> rtc_regs" where
  "rtcInit enters r = LL_RTC_Init enters 0 127 255 r"

definition getCALM :: "rtc_regs \<Rightarrow> u32" where "getCALM r = LL_RTC_CAL_GetMinus r"
definition getCALP :: "rtc_regs \<Rightarrow> u32" where "getCALP r = LL_RTC_CAL_IsPulseInserted r"
definition getRECALP :: "rtc_regs \<Rightarrow> u32" where "getRECALP r = LL_RTC_IsActiveFlag_RECALP r"

definition setCALM :: "u32 \<Rightarrow> rtc_regs \<Rightarrow> u32 \<times> rtc_regs" where
  "setCALM calm r = (0, LL_RTC_CAL_SetMinus calm r)"

definition setCALP :: "u32 \<Rightarrow> rtc_regs \<Rightarrow> u32 \<times> rtc_regs" where
  "setCALP calp r = (0, LL_RTC_CAL_SetPulse (if calp \<noteq> 0 then 0x8000 else 0) r)"

definition isRTCSet :: "rtc_regs \<Rightarrow> bool" where
  "isRTCSet r \<longleftrightarrow> r_BKP0R r = RTC_SET_MAGIC"

text \<open>\<open>None\<close> is \<open>pdFAIL\<close>, with the time and date of the caller untouched.\<close>

definition rtcGet :: "rtc_regs \<Rightarrow> RTCTimeAndDate_t option" where
  "rtcGet r =
     (if isRTCSet r
      then let subSecond = LL_RTC_TIME_GetSubSecond r; prediv = LL_RTC_GetSynchPrescaler r
           in Some \<lparr>rt_year = ucast (CONVERT_BCD2BIN (LL_RTC_DATE_GetYear r)) + 2000,
                rt_month = CONVERT_BCD2BIN (LL_RTC_DATE_GetMonth r),
                rt_day = CONVERT_BCD2BIN (LL_RTC_DATE_GetDay r),
                rt_hour = CONVERT_BCD2BIN (LL_RTC_TIME_GetHour r),
                rt_minute = CONVERT_BCD2BIN (LL_RTC_TIME_GetMinute r),
                rt_second = CONVERT_BCD2BIN (LL_RTC_TIME_GetSecond r),
                rt_ms = (if prediv \<ge> subSecond then ucast ((1000 * (prediv - subSecond)) div (prediv + 1)) else 0)\<rparr>
      else None)"

text \<open>The weekday is always \<open>LL_RTC_WEEKDAY_MONDAY\<close>, 1.\<close>

definition rtcSet :: "rtc_answer \<Rightarrow> rtc_answer \<Rightarrow> RTCTimeAndDate_t \<Rightarrow> rtc_regs \<Rightarrow> bool \<times> rtc_regs" where
  "rtcSet a1 a2 t r =
     (let (ok1, r) = LL_RTC_TIME_Init a1 (rt_hour t) (rt_minute t) (rt_second t) r;
          (ok2, r) = LL_RTC_DATE_Init a2 1 (rt_month t) (rt_day t) (ucast (rt_year t - 2000)) r
      in if ok1 \<and> ok2 then (True, r\<lparr>r_BKP0R := RTC_SET_MAGIC\<rparr>) else (False, r))"

text \<open>
  The product with \<open>1e6\<close> is taken in \<open>double\<close>: a natural number is rounded to 53 significant bits,
  to the even one of two neighbours equally near.
\<close>

definition double_of :: "nat \<Rightarrow> nat" where
  "double_of n =
     (if n < 2 ^ 53 then n
      else let k = floorlog 2 n - 53; q = n div 2 ^ k; m = n mod 2 ^ k
           in if 2 * m < 2 ^ k \<or> 2 * m = 2 ^ k \<and> even q then q * 2 ^ k else (q + 1) * 2 ^ k)"

definition times_1e6 :: "u64 \<Rightarrow> u64" where
  "times_1e6 x = of_nat (double_of (double_of (unat x) * 1000000))"

fun month_seconds :: "int \<Rightarrow> nat list \<Rightarrow> u64 \<Rightarrow> u64 option" where
  "month_seconds year [] seconds = Some seconds"
| "month_seconds year (i # is) seconds =
     (if i = 2 \<and> LEAP_YEAR (year - 1970)
      then month_seconds year is (seconds + ucast (of_nat SECS_PER_DAY * 29 :: u32))
      else if i - 1 < length monthDays
      then month_seconds year is (seconds + ucast (of_nat SECS_PER_DAY * ucast (monthDays ! (i - 1)) :: u32))
      else None)"

text \<open>\<open>None\<close> reads behind the table of the months.\<close>

definition rtcGetMicroSeconds :: "rtc_regs \<Rightarrow> RTCTimeAndDate_t \<Rightarrow> u64 option" where
  "rtcGetMicroSeconds r t =
     (if \<not> isRTCSet r then Some 0
      else do {
        let microseconds = ucast (of_int (uint (rt_year t) - 1970) * (of_nat SECS_PER_DAY * 365) :: u32);
        let microseconds = fold (\<lambda>i us. if LEAP_YEAR (int i - 1970) then us + of_nat SECS_PER_DAY else us)
          [1970..<unat (rt_year t)] microseconds;
        microseconds \<leftarrow> month_seconds (uint (rt_year t)) [1..<unat (rt_month t)] microseconds;
        let microseconds = microseconds + ucast (of_int (uint (rt_day t) - 1) * of_nat SECS_PER_DAY :: u32);
        let microseconds = microseconds + ucast (ucast (rt_hour t) * of_nat SECS_PER_HOUR :: u32);
        let microseconds = microseconds + ucast (ucast (rt_minute t) * of_nat SECS_PER_MIN :: u32);
        let microseconds = microseconds + ucast (rt_second t);
        let microseconds = times_1e6 microseconds;
        Some (microseconds + ucast (rt_ms t) * 1000)
      })"

text \<open>
  The answer and, unless the function returns before it is written, the value of \<open>*deltaS\<close>.  The
  comparison is made in \<open>double\<close> too.
\<close>

definition isRTCValid :: "RTCTimeAndDate_t \<Rightarrow> u32 \<Rightarrow> rtc_regs \<Rightarrow> (bool \<times> u32 option) option" where
  "isRTCValid receivedTimeAndDate driftThesholdS r =
     (if \<not> isRTCSet r then Some (False, None)
      else case rtcGet r of
        None \<Rightarrow> Some (False, None)
      | Some rtcTimeAndDate \<Rightarrow> do {
          rtcTimeMicroSeconds \<leftarrow> rtcGetMicroSeconds r rtcTimeAndDate;
          receivedTimeMicroSeconds \<leftarrow> rtcGetMicroSeconds r receivedTimeAndDate;
          let diff = (if receivedTimeMicroSeconds > rtcTimeMicroSeconds
                      then receivedTimeMicroSeconds - rtcTimeMicroSeconds
                      else rtcTimeMicroSeconds - receivedTimeMicroSeconds);
          Some (double_of (unat diff) \<le> double_of (double_of (unat driftThesholdS) * 1000000), Some (ucast diff))
        })"

section \<open>Times as text\<close>

fun dec_digits :: "nat \<Rightarrow> string" where
  "dec_digits n = (if n < 10 then [char_of (48 + n)] else dec_digits (n div 10) @ [char_of (48 + n mod 10)])"

declare dec_digits.simps [simp del]

definition zero_padded :: "nat \<Rightarrow> nat \<Rightarrow> string" where
  "zero_padded w n = replicate (w - length (dec_digits n)) (CHR ''0'') @ dec_digits n"

text \<open>The number of characters of the whole text, and the string stored when there is room for any.\<close>

definition snprintf :: "nat \<Rightarrow> string \<Rightarrow> nat \<times> string option" where
  "snprintf n s = (length s, if n = 0 then None else Some (take (n - 1) s))"

definition iso_time :: "RTCTimeAndDate_t \<Rightarrow> string" where
  "iso_time t = zero_padded 4 (unat (rt_year t)) @ ''-'' @ zero_padded 2 (unat (rt_month t)) @ ''-'' @
     zero_padded 2 (unat (rt_day t)) @ ''T'' @ zero_padded 2 (unat (rt_hour t)) @ '':'' @
     zero_padded 2 (unat (rt_minute t)) @ '':'' @ zero_padded 2 (unat (rt_second t)) @ ''.'' @
     zero_padded 3 (unat (rt_ms t))"

definition rtcPrint :: "RTCTimeAndDate_t option \<Rightarrow> rtc_regs \<Rightarrow> nat \<times> string" where
  "rtcPrint timeAndDate r =
     (let rtc = (case timeAndDate of Some t \<Rightarrow> t
                 | None \<Rightarrow> (case rtcGet r of Some t \<Rightarrow> t | None \<Rightarrow> \<lparr>rt_year = 0, rt_month = 0, rt_day = 0,
                     rt_hour = 0, rt_minute = 0, rt_second = 0, rt_ms = 0\<rparr>))
      in if rt_year rtc \<noteq> 0 then (length (iso_time rtc), iso_time rtc) else (0, ''0''))"

definition logRtcGetTimeStr :: "u32 \<Rightarrow> nat \<Rightarrow> bool \<Rightarrow> rtc_regs \<Rightarrow> (bool \<times> string option) option" where
  "logRtcGetTimeStr ticks len epoch r = do {
     (numChars, stored) \<leftarrow>
       (case rtcGet r of
          Some t \<Rightarrow>
            if epoch
            then do {
              time \<leftarrow> utcFromDateTime (rt_year t) (rt_month t) (rt_day t) (rt_hour t) (rt_minute t) (rt_second t);
              Some (snprintf len (dec_digits (unat time) @ ''.'' @ zero_padded 3 (unat (rt_ms t))))
            }
            else Some (snprintf len (iso_time t @ ''Z''))
        | None \<Rightarrow> Some (snprintf len (dec_digits (unat ticks) @ ''t'')));
     Some (numChars \<le> len, stored)
   }"

section \<open>The uptime\<close>

record uptime =
  uptimeFromRTC :: bool
  startTime :: u64

text \<open>
  \<open>None\<close> is a failed assertion, or a read behind the table of the months; \<open>ticks_ms\<close> is the tick
  counter in milliseconds.
\<close>

definition rtc_now :: "rtc_regs \<Rightarrow> u64 option" where
  "rtc_now r = do { t \<leftarrow> rtcGet r; rtcGetMicroSeconds r t }"

definition uptimeGetMicroSeconds :: "rtc_regs \<Rightarrow> u32 \<Rightarrow> uptime \<Rightarrow> u64 option" where
  "uptimeGetMicroSeconds r ticks_ms u =
     (if uptimeFromRTC u
      then if isRTCSet r then do { epoch \<leftarrow> rtc_now r; Some (epoch - startTime u) } else None
      else Some (ucast ticks_ms * 1000))"

definition uptimeGetMs :: "rtc_regs \<Rightarrow> u32 \<Rightarrow> uptime \<Rightarrow> u64 option" where
  "uptimeGetMs r ticks_ms u = do { us \<leftarrow> uptimeGetMicroSeconds r ticks_ms u; Some (us div 1000) }"

definition uptimeGetStartTime :: "uptime \<Rightarrow> u64" where
  "uptimeGetStartTime u = startTime u"

definition uptimeInit :: "rtc_regs \<Rightarrow> uptime \<Rightarrow> uptime option" where
  "uptimeInit r u =
     (if isRTCSet r
      then do { t \<leftarrow> rtc_now r; Some (u\<lparr>startTime := t, uptimeFromRTC := True\<rparr>) }
      else Some (u\<lparr>startTime := 0\<rparr>))"

definition uptimeUpdate :: "rtc_regs \<Rightarrow> u64 \<Rightarrow> uptime \<Rightarrow> uptime option" where
  "uptimeUpdate r prevUptimeUS u =
     (if isRTCSet r
      then do { currentTime \<leftarrow> rtc_now r; Some (u\<lparr>startTime := currentTime - prevUptimeUS, uptimeFromRTC := True\<rparr>) }
      else None)"

section \<open>Setting and reading the clock\<close>


lemma bcd_table:
  "\<forall>n \<in> set [0..<100]. CONVERT_BCD2BIN (ucast (CONVERT_BIN2BCD (word_of_nat n))) = word_of_nat n \<and>
     CONVERT_BIN2BCD (word_of_nat n) < 0xA0 \<and>
     (n < 80 \<longrightarrow> CONVERT_BIN2BCD (word_of_nat n) < 0x80) \<and>
     (n < 40 \<longrightarrow> CONVERT_BIN2BCD (word_of_nat n) < 0x40) \<and>
     (n < 20 \<longrightarrow> CONVERT_BIN2BCD (word_of_nat n) < 0x20)"
  by code_simp


lemma word_bits_below:
  assumes "unat (w :: u32) < 2 ^ n" and "n \<le> k"
  shows "\<not> bit w k"
proof -
  have "unat w < 2 ^ k" using assms by (meson less_le_trans one_le_numeral power_increasing)
  then have "\<not> bit (unat w) k" by (simp add: bit_iff_odd)
  then show ?thesis by (simp add: bit_unsigned_iff)
qed

text \<open>A word of 32 bits is its 32 bits, one case each.\<close>

lemma word32_eqI: "(\<And>n. n \<in> set [0..<32] \<Longrightarrow> bit (a :: u32) n \<longleftrightarrow> bit b n) \<Longrightarrow> a = b"
  by (rule bit_word_eqI) simp

lemmas TIME_Get_defs = LL_RTC_TIME_GetHour_def LL_RTC_TIME_GetMinute_def LL_RTC_TIME_GetSecond_def
lemmas DATE_Get_defs = LL_RTC_DATE_GetYear_def LL_RTC_DATE_GetMonth_def LL_RTC_DATE_GetDay_def
lemmas Config_defs = LL_RTC_TIME_Config_def LL_RTC_DATE_Config_def MODIFY_REG_def bcd_place_def

lemma TIME_fields:
  fixes r :: rtc_regs
  assumes "\<And>k. 6 \<le> k \<Longrightarrow> \<not> bit h k" "\<And>k. 7 \<le> k \<Longrightarrow> \<not> bit m k" "\<And>k. 7 \<le> k \<Longrightarrow> \<not> bit s k"
  defines "r' \<equiv> LL_RTC_TIME_Config 0 h m s r"
  shows "LL_RTC_TIME_GetHour r' = h" "LL_RTC_TIME_GetMinute r' = m" "LL_RTC_TIME_GetSecond r' = s"
  unfolding r'_def TIME_Get_defs Config_defs
  by (rule word32_eqI, simp add: upt_rec, elim disjE; simp add: assms(1-3) bit_simps; (simp add: numeral_eq_Suc)?)+

lemma DATE_fields:
  fixes r :: rtc_regs
  assumes "\<And>k. 8 \<le> k \<Longrightarrow> \<not> bit y k" "\<And>k. 5 \<le> k \<Longrightarrow> \<not> bit m k" "\<And>k. 6 \<le> k \<Longrightarrow> \<not> bit d k"
    "\<And>k. 3 \<le> k \<Longrightarrow> \<not> bit w k"
  defines "r' \<equiv> LL_RTC_DATE_Config w d m y r"
  shows "LL_RTC_DATE_GetYear r' = y" "LL_RTC_DATE_GetMonth r' = m" "LL_RTC_DATE_GetDay r' = d"
  unfolding r'_def DATE_Get_defs Config_defs
  by (rule word32_eqI, simp add: upt_rec, elim disjE; simp add: assms(1-4) bit_simps; (simp add: numeral_eq_Suc)?)+

text \<open>A time and date of the calendar, as the driver represents it.\<close>

definition valid_rtc :: "RTCTimeAndDate_t \<Rightarrow> bool" where
  "valid_rtc t \<longleftrightarrow> 1 \<le> unat (rt_month t) \<and> unat (rt_month t) \<le> 12 \<and>
     1 \<le> unat (rt_day t) \<and> unat (rt_day t) \<le> month_lens (unat (rt_year t)) ! (unat (rt_month t) - 1) \<and>
     unat (rt_hour t) < 24 \<and> unat (rt_minute t) < 60 \<and> unat (rt_second t) < 60 \<and> unat (rt_ms t) < 1000"

lemma month_len_le: "1 \<le> m \<Longrightarrow> m \<le> 12 \<Longrightarrow> month_lens y ! (m - 1) \<le> 31"
  using month_lens_sum [of y] by (simp add: nth_mem)

lemma unat_ucast_8_32: "unat (ucast (b :: u8) :: u32) = unat b"
  by (simp add: unsigned_ucast_eq take_bit_nat_eq_self unsigned_less [THEN less_le_trans])

lemma bcd_roundtrip:
  assumes "unat v < 100"
  shows "CONVERT_BCD2BIN (ucast (CONVERT_BIN2BCD v)) = v"
    and "unat v < 80 \<Longrightarrow> unat (CONVERT_BIN2BCD v) < 0x80"
    and "unat v < 40 \<Longrightarrow> unat (CONVERT_BIN2BCD v) < 0x40"
    and "unat v < 20 \<Longrightarrow> unat (CONVERT_BIN2BCD v) < 0x20"
  using bspec [OF bcd_table, of "unat v"] assms by (simp_all add: word_less_nat_alt)

lemma bcd_bits:
  "unat v < 80 \<Longrightarrow> 7 \<le> k \<Longrightarrow> \<not> bit (ucast (CONVERT_BIN2BCD v) :: u32) k"
  "unat v < 40 \<Longrightarrow> 6 \<le> k \<Longrightarrow> \<not> bit (ucast (CONVERT_BIN2BCD v) :: u32) k"
  "unat v < 20 \<Longrightarrow> 5 \<le> k \<Longrightarrow> \<not> bit (ucast (CONVERT_BIN2BCD v) :: u32) k"
  "8 \<le> k \<Longrightarrow> \<not> bit (ucast (b :: u8) :: u32) k"
proof -
  let ?c = "\<lambda>v. ucast (CONVERT_BIN2BCD v) :: u32"
  show "7 \<le> k \<Longrightarrow> \<not> bit (?c v) k" if "unat v < 80"
    by (rule word_bits_below) (use that bcd_roundtrip [of v] in \<open>simp_all add: unat_ucast_8_32\<close>)
  show "6 \<le> k \<Longrightarrow> \<not> bit (?c v) k" if "unat v < 40"
    by (rule word_bits_below) (use that bcd_roundtrip [of v] in \<open>simp_all add: unat_ucast_8_32\<close>)
  show "5 \<le> k \<Longrightarrow> \<not> bit (?c v) k" if "unat v < 20"
    by (rule word_bits_below) (use that bcd_roundtrip [of v] in \<open>simp_all add: unat_ucast_8_32\<close>)
  show "8 \<le> k \<Longrightarrow> \<not> bit (ucast b :: u32) k"
    by (rule word_bits_below) (use unsigned_less [of b] in \<open>simp_all add: unat_ucast_8_32\<close>)
qed


lemma month_no_flag: "unat (m :: u8) \<le> 12 \<Longrightarrow> m AND 0x10 \<noteq> 0x10"
proof -
  have "\<forall>n \<in> set [0..<13]. (word_of_nat n :: u8) AND 0x10 \<noteq> 0x10" by code_simp
  moreover assume "unat m \<le> 12"
  ultimately show ?thesis by (auto dest!: bspec [of _ _ "unat m"])
qed

lemma two_digit_year:
  assumes "2000 \<le> unat (y :: u16)" and "unat y < 2100"
  shows "unat (ucast (y - 2000) :: u8) = unat y - 2000" and "ucast (ucast (y - 2000) :: u8) + 2000 = y"
proof -
  have d: "unat (y - 2000) = unat y - 2000" using assms(1) by (simp add: unat_sub word_le_nat_alt)
  then show b: "unat (ucast (y - 2000) :: u8) = unat y - 2000"
    using assms by (simp add: unsigned_ucast_eq unsigned_take_bit_eq take_bit_nat_eq_self)
  have "unat (ucast (ucast (y - 2000) :: u8) :: u16) = unat (ucast (y - 2000) :: u8)"
    by (simp add: unsigned_ucast_eq unsigned_take_bit_eq)
  also have "\<dots> = unat (y - 2000)" using b d by simp
  finally have u: "unat (ucast (ucast (y - 2000) :: u8) :: u16) = unat y - 2000" using d by simp
  have "unat (ucast (ucast (y - 2000) :: u8) + 2000 :: u16) = unat y"
    unfolding unat_word_ariths(1) u using assms by simp
  then show "ucast (ucast (y - 2000) :: u8) + 2000 = y" by (rule word_unat_eq_iff [THEN iffD2])
qed

lemma rtcSet_reads_back:
  assumes "valid_rtc t" and "2000 \<le> unat (rt_year t)" and "unat (rt_year t) < 2100"
  shows "\<exists>r'. rtcSet (True, True) (True, True) t r = (True, r') \<and>
     CONVERT_BCD2BIN (LL_RTC_TIME_GetHour r') = rt_hour t \<and> CONVERT_BCD2BIN (LL_RTC_TIME_GetMinute r') = rt_minute t \<and>
     CONVERT_BCD2BIN (LL_RTC_TIME_GetSecond r') = rt_second t \<and>
     ucast (CONVERT_BCD2BIN (LL_RTC_DATE_GetYear r')) + 2000 = rt_year t \<and>
     CONVERT_BCD2BIN (LL_RTC_DATE_GetMonth r') = rt_month t \<and> CONVERT_BCD2BIN (LL_RTC_DATE_GetDay r') = rt_day t \<and>
     r_SSR r' = r_SSR r \<and> r_PRER r' = r_PRER r \<and> isRTCSet r'"
proof -
  have v: "unat (rt_month t) < 20" "unat (rt_day t) < 40" "unat (rt_hour t) < 40" "unat (rt_minute t) < 80" "unat (rt_second t) < 80"
    "unat (ucast (rt_year t - 2000) :: u8) < 100" "unat (rt_month t) \<le> 12"
    using assms month_len_le [of "unat (rt_month t)" "unat (rt_year t)"] two_digit_year(1) [OF assms(2,3)]
    by (auto simp: valid_rtc_def)
  note b = bcd_bits(1) [OF v(4)] bcd_bits(1) [OF v(5)] bcd_bits(2) [OF v(3)] bcd_bits(2) [OF v(2)] bcd_bits(3) [OF v(1)]
  let ?c = "\<lambda>x. ucast (CONVERT_BIN2BCD x) :: u32"
  define r1 where "r1 = LL_RTC_TIME_Config 0 (?c (rt_hour t)) (?c (rt_minute t)) (?c (rt_second t)) r"
  define r2 where "r2 = LL_RTC_DATE_Config 1 (?c (rt_day t)) (?c (rt_month t)) (?c (ucast (rt_year t - 2000))) r1"
  define r3 where "r3 = r2\<lparr>r_BKP0R := RTC_SET_MAGIC\<rparr>"
  have set: "rtcSet (True, True) (True, True) t r = (True, r3)"
    by (simp add: rtcSet_def LL_RTC_TIME_Init_def LL_RTC_DATE_Init_def month_no_flag v(7) r1_def r2_def r3_def Let_def)
  have w: "\<not> bit (1 :: u32) k" if "3 \<le> k" for k using that by (simp add: bit_simps)
  have t1: "LL_RTC_TIME_GetHour r1 = ?c (rt_hour t)" "LL_RTC_TIME_GetMinute r1 = ?c (rt_minute t)"
    "LL_RTC_TIME_GetSecond r1 = ?c (rt_second t)"
    unfolding r1_def by (intro TIME_fields b; assumption)+
  have d2: "LL_RTC_DATE_GetYear r2 = ?c (ucast (rt_year t - 2000))" "LL_RTC_DATE_GetMonth r2 = ?c (rt_month t)"
    "LL_RTC_DATE_GetDay r2 = ?c (rt_day t)"
    unfolding r2_def by (intro DATE_fields b bcd_bits(4) w; assumption)+
  have keep: "LL_RTC_TIME_GetHour r3 = LL_RTC_TIME_GetHour r1" "LL_RTC_TIME_GetMinute r3 = LL_RTC_TIME_GetMinute r1"
    "LL_RTC_TIME_GetSecond r3 = LL_RTC_TIME_GetSecond r1" "LL_RTC_DATE_GetYear r3 = LL_RTC_DATE_GetYear r2"
    "LL_RTC_DATE_GetMonth r3 = LL_RTC_DATE_GetMonth r2" "LL_RTC_DATE_GetDay r3 = LL_RTC_DATE_GetDay r2"
    "r_SSR r3 = r_SSR r" "r_PRER r3 = r_PRER r" "isRTCSet r3"
    by (simp_all add: r1_def r2_def r3_def TIME_Get_defs DATE_Get_defs Config_defs isRTCSet_def)
  show ?thesis
    unfolding set by (rule exI [of _ r3]) (use v in \<open>simp add: keep t1 d2 bcd_roundtrip(1) two_digit_year(2) assms(2,3)\<close>)
qed

text \<open>
  A time that the peripheral does not take is reported, and a clock that was not set stays so; one
  that was set stays set, even when only the time of the day has been changed.
\<close>

lemma rtcSet_outcome:
  "fst (rtcSet a1 a2 t r) \<longleftrightarrow> fst a1 \<and> snd a1 \<and> fst a2 \<and> snd a2"
  "\<not> fst (rtcSet a1 a2 t r) \<Longrightarrow> isRTCSet (snd (rtcSet a1 a2 t r)) = isRTCSet r"
  by (auto simp: rtcSet_def LL_RTC_TIME_Init_def LL_RTC_DATE_Init_def Config_defs isRTCSet_def Let_def split: prod.splits)

text \<open>The sub-second counter gives milliseconds below 1000, whatever the prescaler.\<close>

lemma ms_below_1000:
  fixes p s :: u32
  assumes "s \<le> p" and "unat p < 2 ^ 15"
  shows "unat (ucast ((1000 * (p - s)) div (p + 1)) :: u16) = 1000 * (unat p - unat s) div (unat p + 1)"
    and "1000 * (unat p - unat s) div (unat p + 1) < 1000"
proof -
  have d: "unat (p - s) = unat p - unat s" using assms(1) by (simp add: unat_sub word_le_nat_alt)
  have "unat (1000 * (p - s)) = 1000 * (unat p - unat s)"
    using assms(2) by (subst unat_mult_lem [THEN iffD1]) (simp_all add: d)
  moreover have "unat (p + 1) = unat p + 1" using assms(2) by (simp add: unat_word_ariths)
  ultimately have q: "unat ((1000 * (p - s)) div (p + 1)) = 1000 * (unat p - unat s) div (unat p + 1)"
    by (simp add: unat_div_distrib)
  show b: "1000 * (unat p - unat s) div (unat p + 1) < 1000"
    by (rule less_mult_imp_div_less) simp
  show "unat (ucast ((1000 * (p - s)) div (p + 1)) :: u16) = 1000 * (unat p - unat s) div (unat p + 1)"
    using q b by (simp add: unsigned_ucast_eq unsigned_take_bit_eq take_bit_nat_eq_self)
qed

lemma prescaler_15_bits: "unat (LL_RTC_GetSynchPrescaler r) < 2 ^ 15"
proof -
  have "LL_RTC_GetSynchPrescaler r = take_bit 15 (r_PRER r)"
    by (simp add: LL_RTC_GetSynchPrescaler_def take_bit_eq_mask mask_eq_exp_minus_1)
  then show ?thesis using take_bit_nat_less_exp [of 15 "unat (r_PRER r)"] by (simp add: unsigned_take_bit_eq)
qed

lemma rtcGet_ms:
  assumes "rtcGet r = Some t"
  shows "unat (rt_ms t) < 1000"
proof (cases "LL_RTC_TIME_GetSubSecond r \<le> LL_RTC_GetSynchPrescaler r")
  case True
  then show ?thesis using ms_below_1000 [OF True prescaler_15_bits] assms by (auto simp: rtcGet_def Let_def split: if_splits)
next
  case False
  then show ?thesis using assms by (auto simp: rtcGet_def Let_def split: if_splits)
qed

text \<open>
  C28: a time of the years 2000 to 2099 that the peripheral accepts is read back as it was set, with
  the milliseconds of the sub-second counter, which are below 1000; the clock then counts as set.
\<close>

theorem rtc_set_get_roundtrip:
  assumes "valid_rtc t" and "2000 \<le> unat (rt_year t)" and "unat (rt_year t) < 2100"
  shows "\<exists>r' ms. rtcSet (True, True) (True, True) t r = (True, r') \<and> isRTCSet r' \<and>
     rtcGet r' = Some (t\<lparr>rt_ms := ms\<rparr>) \<and> valid_rtc (t\<lparr>rt_ms := ms\<rparr>) \<and>
     unat ms = (if r_SSR r \<le> LL_RTC_GetSynchPrescaler r
       then 1000 * (unat (LL_RTC_GetSynchPrescaler r) - unat (r_SSR r)) div (unat (LL_RTC_GetSynchPrescaler r) + 1)
       else 0)"
proof -
  obtain r' where r': "rtcSet (True, True) (True, True) t r = (True, r')" "isRTCSet r'"
    and f: "CONVERT_BCD2BIN (LL_RTC_TIME_GetHour r') = rt_hour t" "CONVERT_BCD2BIN (LL_RTC_TIME_GetMinute r') = rt_minute t"
      "CONVERT_BCD2BIN (LL_RTC_TIME_GetSecond r') = rt_second t"
      "ucast (CONVERT_BCD2BIN (LL_RTC_DATE_GetYear r')) + 2000 = rt_year t"
      "CONVERT_BCD2BIN (LL_RTC_DATE_GetMonth r') = rt_month t" "CONVERT_BCD2BIN (LL_RTC_DATE_GetDay r') = rt_day t"
    and k: "r_SSR r' = r_SSR r" "r_PRER r' = r_PRER r"
    using rtcSet_reads_back [OF assms, of r] by blast
  let ?s = "r_SSR r" and ?p = "LL_RTC_GetSynchPrescaler r"
  have "(0xFFFFFFFF :: u32) = - 1" by simp
  then have p: "LL_RTC_TIME_GetSubSecond r' = ?s"
    unfolding LL_RTC_TIME_GetSubSecond_def k by (metis and.right_neutral)
  have "LL_RTC_GetSynchPrescaler r' = ?p" by (simp add: LL_RTC_GetSynchPrescaler_def k)
  note p = p this
  define ms :: u16 where "ms = (if ?p \<ge> ?s then ucast ((1000 * (?p - ?s)) div (?p + 1)) else 0)"
  have g: "rtcGet r' = Some (t\<lparr>rt_ms := ms\<rparr>)"
    by (simp add: rtcGet_def r' f p Let_def ms_def)
  have "unat ms = (if ?s \<le> ?p then 1000 * (unat ?p - unat ?s) div (unat ?p + 1) else 0)"
    using ms_below_1000(1) [OF _ prescaler_15_bits, of ?s r] by (simp add: ms_def)
  moreover have "valid_rtc (t\<lparr>rt_ms := ms\<rparr>)" using assms(1) rtcGet_ms [OF g] by (simp add: valid_rtc_def)
  ultimately show ?thesis using r' g by blast
qed

theorem rtc_set_get_roundtrip_witness:
  "\<exists>r' ms. rtcSet (True, True) (True, True) \<lparr>rt_year = 2024, rt_month = 2, rt_day = 29, rt_hour = 23, rt_minute = 59,
       rt_second = 58, rt_ms = 0\<rparr> \<lparr>r_TR = 0, r_DR = 0x2101, r_SSR = 127, r_PRER = 0x007F00FF, r_BKP0R = 0, r_CR = 0, r_CALR = 0, r_ICSR = 0\<rparr> = (True, r') \<and>
     isRTCSet r' \<and> rtcGet r' = Some \<lparr>rt_year = 2024, rt_month = 2, rt_day = 29, rt_hour = 23, rt_minute = 59,
       rt_second = 58, rt_ms = ms\<rparr> \<and> unat ms = 500"
proof -
  let ?t = "\<lparr>rt_year = 2024, rt_month = 2, rt_day = 29, rt_hour = 23, rt_minute = 59, rt_second = 58, rt_ms = 0\<rparr>"
  have "valid_rtc ?t" by (simp add: valid_rtc_def month_lens_def gregorian_leap_def)
  from rtc_set_get_roundtrip [OF this, of "\<lparr>r_TR = 0, r_DR = 0x2101, r_SSR = 127, r_PRER = 0x007F00FF, r_BKP0R = 0, r_CR = 0, r_CALR = 0, r_ICSR = 0\<rparr>"]
  show ?thesis by (auto simp: LL_RTC_GetSynchPrescaler_def)
qed

text \<open>
  The prescalers that \<open>rtcInit\<close> sets, and the calibration: both fields are read back as they were
  set and leave each other alone, as long as the number of masked pulses has at most 9 bits.
\<close>

lemma rtcInit_prescaler: "LL_RTC_GetSynchPrescaler (snd (rtcInit True r)) = 255"
  unfolding rtcInit_def LL_RTC_Init_def LL_RTC_GetSynchPrescaler_def MODIFY_REG_def
  by (rule word32_eqI, simp add: upt_rec, elim disjE; simp add: bit_simps)

lemma calm_roundtrip:
  assumes "\<And>k. 9 \<le> k \<Longrightarrow> \<not> bit calm k"
  shows "getCALM (snd (setCALM calm r)) = calm" and "getCALP (snd (setCALM calm r)) = getCALP r"
proof -
  show "getCALM (snd (setCALM calm r)) = calm"
    unfolding getCALM_def setCALM_def LL_RTC_CAL_GetMinus_def LL_RTC_CAL_SetMinus_def MODIFY_REG_def
    by (rule word32_eqI, simp add: upt_rec, elim disjE; simp add: assms bit_simps; (simp add: numeral_eq_Suc)?)
  have "((r_CALR r AND NOT 0x1FF) OR calm) AND 0x8000 = r_CALR r AND 0x8000"
    by (rule word32_eqI, simp add: upt_rec, elim disjE; simp add: assms bit_simps)
  then show "getCALP (snd (setCALM calm r)) = getCALP r"
    by (simp add: getCALP_def setCALM_def LL_RTC_CAL_IsPulseInserted_def LL_RTC_CAL_SetMinus_def MODIFY_REG_def)
qed

lemma calp_roundtrip:
  "getCALP (snd (setCALP calp r)) = (if calp \<noteq> 0 then 1 else 0)" "getCALM (snd (setCALP calp r)) = getCALM r"
proof -
  have "((r_CALR r AND NOT 0x8000) OR 0x8000) AND 0x8000 = 0x8000"
    by (rule bit_word_eqI) (auto simp: bit_simps)
  moreover have "((r_CALR r AND NOT 0x8000) OR 0) AND 0x8000 = 0"
    by (rule bit_word_eqI) (auto simp: bit_simps)
  ultimately show "getCALP (snd (setCALP calp r)) = (if calp \<noteq> 0 then 1 else 0)"
    by (simp add: getCALP_def setCALP_def LL_RTC_CAL_IsPulseInserted_def LL_RTC_CAL_SetPulse_def MODIFY_REG_def)
  have "((r_CALR r AND NOT 0x8000) OR x) AND 0x1FF = r_CALR r AND 0x1FF" if "x = 0 \<or> x = 0x8000" for x
    using that
  proof
    show "x = 0 \<Longrightarrow> ?thesis"
      by (rule word32_eqI, simp add: upt_rec, elim disjE; simp add: bit_simps)
    show "x = 0x8000 \<Longrightarrow> ?thesis"
      by (rule word32_eqI, simp add: upt_rec, elim disjE; simp add: bit_simps)
  qed
  then show "getCALM (snd (setCALP calp r)) = getCALM r"
    by (simp add: getCALM_def setCALP_def LL_RTC_CAL_GetMinus_def LL_RTC_CAL_SetPulse_def MODIFY_REG_def)
qed

section \<open>The time in microseconds\<close>

definition rtc_secs :: "RTCTimeAndDate_t \<Rightarrow> nat" where
  "rtc_secs t = 86400 * date_days (unat (rt_year t)) (unat (rt_month t)) (unat (rt_day t)) +
     3600 * unat (rt_hour t) + 60 * unat (rt_minute t) + unat (rt_second t)"

definition rtc_micros :: "RTCTimeAndDate_t \<Rightarrow> nat" where
  "rtc_micros t = 1000000 * rtc_secs t + 1000 * unat (rt_ms t)"

lemma fold_leap_days:
  "fold (\<lambda>i us. if LEAP_YEAR (int i - 1970) then us + of_nat SECS_PER_DAY else us) is (s :: u64) =
     s + of_nat (SECS_PER_DAY * length (filter gregorian_leap is))"
  by (induction "is" arbitrary: s) (simp_all add: leap_simps algebra_simps)

lemma month_seconds_days:
  assumes "1 \<le> m" and "m \<le> 12"
  shows "month_seconds (int y) [1..<m] s = Some (s + of_nat (SECS_PER_DAY * sum_list (take (m - 1) (month_lens y))))"
proof -
  have "m = 1 \<or> m = 2 \<or> m = 3 \<or> m = 4 \<or> m = 5 \<or> m = 6 \<or> m = 7 \<or> m = 8 \<or> m = 9 \<or> m = 10 \<or> m = 11 \<or> m = 12"
    using assms by arith
  then show ?thesis
    by (elim disjE) (simp_all add: month_lens_def monthDays_def leap_simps upt_rec SECS_PER_DAY_def SECS_PER_HOUR_def)
qed

lemma byte_less: "unat (b :: u8) < 256"
proof -
  have "unat b < 2 ^ LENGTH(8)" by (rule unsigned_less)
  then show ?thesis by simp
qed

text \<open>Products that fit into 32 bits keep their value when they are widened.\<close>

lemma ucast_of_nat: "n < 2 ^ 32 \<Longrightarrow> (ucast (of_nat n :: u32) :: u64) = of_nat n"
  by (simp add: word_unat_eq_iff unsigned_ucast_eq unsigned_take_bit_eq unat_of_nat take_bit_nat_eq_self)

lemma year_widened:
  assumes "1970 \<le> y" and "y \<le> 2106"
  shows "(ucast (of_int (int y - 1970) * (of_nat SECS_PER_DAY * 365) :: u32) :: u64) = of_nat (SECS_PER_DAY * (365 * (y - 1970)))"
proof -
  have "of_int (int y - 1970) = (of_nat (y - 1970) :: u32)" using assms(1) by (simp add: of_nat_diff)
  then have "of_int (int y - 1970) * (of_nat SECS_PER_DAY * 365) = (of_nat (SECS_PER_DAY * (365 * (y - 1970))) :: u32)"
    by (simp only: of_nat_mult) (simp add: algebra_simps)
  then show ?thesis
    using assms(2) by (simp only:) (rule ucast_of_nat, simp add: SECS_PER_DAY_def SECS_PER_HOUR_def)
qed

lemma field_widened:
  assumes "c \<le> 86400"
  shows "(ucast (ucast (b :: u8) * of_nat c :: u32) :: u64) = of_nat (c * unat b)"
proof -
  have "ucast b * of_nat c = (of_nat (c * unat b) :: u32)" by simp
  moreover have "c * unat b < 2 ^ 32" using mult_le_mono [OF assms less_imp_le [OF unsigned_less [of b]]] by simp
  ultimately show ?thesis by (simp only: ucast_of_nat)
qed

lemma day_widened:
  assumes "1 \<le> unat (d :: u8)"
  shows "(ucast (of_int (uint d - 1) * of_nat SECS_PER_DAY :: u32) :: u64) = of_nat (SECS_PER_DAY * (unat d - 1))"
proof -
  have "of_int (uint d - 1) * of_nat SECS_PER_DAY = (of_nat (SECS_PER_DAY * (unat d - 1)) :: u32)"
    using assms by (simp add: of_nat_diff)
  moreover have "SECS_PER_DAY * (unat d - 1) < 2 ^ 32"
    using byte_less [of d] by (simp add: SECS_PER_DAY_def SECS_PER_HOUR_def)
  ultimately show ?thesis by (simp only: ucast_of_nat)
qed

lemma rtc_secs_bound:
  assumes "valid_rtc t" and "1970 \<le> unat (rt_year t)" and "unat (rt_year t) \<le> 2106"
  shows "rtc_secs t < 5000000000"
proof -
  let ?y = "unat (rt_year t)" and ?m = "unat (rt_month t)" and ?d = "unat (rt_day t)"
  have "leaps_before ?y \<le> ?y - 1970"
    unfolding leaps_before_def by (rule order_trans [OF length_filter_le]) simp
  then have "days_before ?y \<le> 50000" using assms(2,3) by (simp add: days_before_leaps)
  moreover have "sum_list (take (?m - 1) (month_lens ?y)) \<le> sum_list (month_lens ?y)"
    using sum_list_append [of "take (?m - 1) (month_lens ?y)" "drop (?m - 1) (month_lens ?y)"] by simp
  moreover have "year_len ?y \<le> 366" by (simp add: year_len_def)
  ultimately have "date_days ?y ?m ?d \<le> 50000 + 366 + 255"
    using byte_less [of "rt_day t"] by (simp add: date_days_def month_lens_sum)
  then show ?thesis using assms(1) by (simp add: rtc_secs_def valid_rtc_def)
qed

lemma times_1e6_exact: "unat x < 9000000000 \<Longrightarrow> times_1e6 x = x * 1000000"
  by (simp add: times_1e6_def double_of_def)

lemma rtcGetMicroSeconds_valid:
  assumes "isRTCSet r" and "valid_rtc t" and "1970 \<le> unat (rt_year t)" and "unat (rt_year t) \<le> 2106"
  shows "rtcGetMicroSeconds r t = Some (of_nat (rtc_micros t))" and "rtc_micros t < 2 ^ 63"
proof -
  let ?y = "unat (rt_year t)" and ?m = "unat (rt_month t)"
  have v: "1 \<le> ?m" "?m \<le> 12" "1 \<le> unat (rt_day t)" "unat (rt_ms t) < 1000" using assms(2) by (simp_all add: valid_rtc_def)
  have b: "rtc_secs t < 5000000000" by (rule rtc_secs_bound [OF assms(2-4)])
  then show "rtc_micros t < 2 ^ 63" using v(4) by (simp add: rtc_micros_def)
  have c: "SECS_PER_DAY = 86400" "SECS_PER_HOUR = 3600" "SECS_PER_MIN = 60"
    by (simp_all add: SECS_PER_DAY_def SECS_PER_HOUR_def SECS_PER_MIN_def)
  have x: "times_1e6 (of_nat (rtc_secs t)) = of_nat (1000000 * rtc_secs t)"
    using b by (subst times_1e6_exact) (simp_all add: unat_of_nat take_bit_nat_eq_self)
  have secs: "of_nat (SECS_PER_DAY * (365 * (?y - 1970))) + of_nat (SECS_PER_DAY * length (filter gregorian_leap [1970..<?y])) +
      of_nat (SECS_PER_DAY * sum_list (take (?m - 1) (month_lens ?y))) + of_nat (SECS_PER_DAY * (unat (rt_day t) - 1)) +
      of_nat (SECS_PER_HOUR * unat (rt_hour t)) + of_nat (SECS_PER_MIN * unat (rt_minute t)) + of_nat (unat (rt_second t)) =
      (of_nat (rtc_secs t) :: u64)"
    unfolding rtc_secs_def date_days_def days_before_leaps [OF assms(3)] leaps_before_def c
    by (simp only: of_nat_add [symmetric] add_mult_distrib2 add.assoc)
  have s: "(ucast (rt_second t) :: u64) = of_nat (unat (rt_second t))" by simp
  have ms: "(ucast (rt_ms t) :: u64) * 1000 = of_nat (1000 * unat (rt_ms t))" by simp
  have y: "uint (rt_year t) = int ?y" by simp
  show "rtcGetMicroSeconds r t = Some (of_nat (rtc_micros t))"
    unfolding rtcGetMicroSeconds_def Let_def y year_widened [OF assms(3,4)] fold_leap_days month_seconds_days [OF v(1,2)]
      day_widened [OF v(3)] Option.bind.bind_lunit
    using assms(1) c
    by (simp only: field_widened s ms secs not_True_eq_False if_False x rtc_micros_def of_nat_add)
qed

lemma rtc_secs_2105:
  assumes "valid_rtc t" and "1970 \<le> unat (rt_year t)" and "unat (rt_year t) \<le> 2105"
  shows "rtc_secs t < 2 ^ 32"
proof -
  let ?y = "unat (rt_year t)"
  define dt where "dt = \<lparr>dt_year = rt_year t, dt_month = rt_month t, dt_day = rt_day t, dt_hour = rt_hour t,
    dt_min = rt_minute t, dt_sec = rt_second t, dt_usec = 0\<rparr>"
  have "valid_date dt" using assms(1) by (simp add: dt_def valid_date_def valid_rtc_def)
  then have "date_days ?y (unat (rt_month t)) (unat (rt_day t)) < days_before ?y + year_len ?y"
    using valid_place(1) [of dt] assms(2) by (simp add: dt_def date_days_def)
  also have "\<dots> \<le> days_before 2106" by (rule days_before_mono) (use assms(2,3) in simp_all)
  finally have "date_days ?y (unat (rt_month t)) (unat (rt_day t)) \<le> 49672" by (simp add: days_before_2106)
  then show ?thesis using assms(1) by (simp add: rtc_secs_def valid_rtc_def)
qed

text \<open>
  C29: for every valid date of the years 1970 to 2105 the clock driver and the calendar of the
  utilities agree: the microseconds of the one are the seconds of the other and the milliseconds of
  the clock, and the product taken in floating point is exact.
\<close>

theorem rtc_microseconds_are_utc:
  assumes "isRTCSet r" and "valid_rtc t" and "1970 \<le> unat (rt_year t)" and "unat (rt_year t) \<le> 2105"
  shows "\<exists>secs us. utcFromDateTime (rt_year t) (rt_month t) (rt_day t) (rt_hour t) (rt_minute t) (rt_second t) = Some secs \<and>
     rtcGetMicroSeconds r t = Some us \<and> unat us = 1000000 * unat secs + 1000 * unat (rt_ms t)"
proof -
  have v: "1 \<le> unat (rt_month t)" "unat (rt_month t) \<le> 12" "1 \<le> unat (rt_day t)" using assms(2) by (simp_all add: valid_rtc_def)
  have "utcFromDateTime (rt_year t) (rt_month t) (rt_day t) (rt_hour t) (rt_minute t) (rt_second t) = Some (of_nat (rtc_secs t))"
    unfolding utc_of_date [OF assms(3) v] by (simp add: rtc_secs_def SECS_PER_DAY_def SECS_PER_HOUR_def SECS_PER_MIN_def)
  moreover have "unat (of_nat (rtc_secs t) :: u32) = rtc_secs t"
    using rtc_secs_2105 [OF assms(2-4)] by (simp add: unat_of_nat take_bit_nat_eq_self)
  moreover have "rtcGetMicroSeconds r t = Some (of_nat (rtc_micros t))" "unat (of_nat (rtc_micros t) :: u64) = rtc_micros t"
    using rtcGetMicroSeconds_valid [OF assms(1-3)] assms(4) by (simp_all add: unat_of_nat take_bit_nat_eq_self)
  ultimately show ?thesis by (auto simp: rtc_micros_def)
qed

lemma valid_rtc_example: "valid_rtc \<lparr>rt_year = 2024, rt_month = 2, rt_day = 29, rt_hour = 23, rt_minute = 59, rt_second = 58, rt_ms = 500\<rparr>"
  by (simp add: valid_rtc_def month_lens_def gregorian_leap_def)

theorem rtc_microseconds_are_utc_witness:
  "\<exists>secs us. utcFromDateTime 2024 2 29 23 59 58 = Some secs \<and>
     rtcGetMicroSeconds \<lparr>r_TR = 0, r_DR = 0, r_SSR = 0, r_PRER = 0, r_BKP0R = RTC_SET_MAGIC, r_CR = 0, r_CALR = 0, r_ICSR = 0\<rparr>
       \<lparr>rt_year = 2024, rt_month = 2, rt_day = 29, rt_hour = 23, rt_minute = 59, rt_second = 58, rt_ms = 500\<rparr> = Some us \<and>
     unat us = 1000000 * unat secs + 500000"
  using rtc_microseconds_are_utc [OF _ valid_rtc_example, of "\<lparr>r_TR = 0, r_DR = 0, r_SSR = 0, r_PRER = 0, r_BKP0R = RTC_SET_MAGIC, r_CR = 0, r_CALR = 0, r_ICSR = 0\<rparr>"]
  by (simp add: isRTCSet_def)

lemma double_of_le:
  assumes "b < 2 ^ 53"
  shows "double_of a \<le> b \<longleftrightarrow> a \<le> b"
proof (cases "a < 2 ^ 53")
  case False
  define k where "k = floorlog 2 a - 53"
  have "2 ^ (floorlog 2 a - 1) \<le> a" "a < 2 ^ floorlog 2 a" 
    using floorlog_bounds [of a 2] False by (auto simp: not_less)
  have l: "53 < floorlog 2 a"
  proof (rule ccontr)
    assume "\<not> 53 < floorlog 2 a"
    then have "(2 :: nat) ^ floorlog 2 a \<le> 2 ^ 53" by (intro power_increasing) simp_all
    then show False using False \<open>a < 2 ^ floorlog 2 a\<close> by linarith
  qed
  then have "floorlog 2 a - 1 = 52 + k" by (simp add: k_def)
  then have "2 ^ 52 * 2 ^ k \<le> a" using \<open>2 ^ (floorlog 2 a - 1) \<le> a\<close> by (simp add: power_add)
  then have "2 ^ 52 \<le> a div 2 ^ k" by (simp add: less_eq_div_iff_mult_less_eq)
  moreover have "2 \<le> (2 :: nat) ^ k" using l by (simp add: k_def self_le_power)
  ultimately have "2 ^ 52 * 2 \<le> a div 2 ^ k * 2 ^ k" by (rule mult_le_mono)
  then have "2 ^ 53 \<le> double_of a"
    using False by (auto simp: double_of_def Let_def k_def [symmetric] add_mult_distrib intro: trans_le_add2)
  then show ?thesis using False assms by linarith
qed (simp add: double_of_def)

text \<open>
  C30: the check of a received time compares it with the clock to the microsecond, and accepts it if
  and only if the two differ by at most the threshold in seconds; the difference it hands out
  is in microseconds, and only its low 32 bits.
\<close>

theorem rtc_drift_check:
  assumes "rtcGet r = Some now" and "valid_rtc now" and "2000 \<le> unat (rt_year now)" and "unat (rt_year now) < 2100"
    and "valid_rtc t" and "1970 \<le> unat (rt_year t)" and "unat (rt_year t) \<le> 2106"
  defines "diff \<equiv> nat \<bar>int (rtc_micros t) - int (rtc_micros now)\<bar>"
  shows "isRTCValid t drift r = Some (diff \<le> 1000000 * unat drift, Some (of_nat diff))"
proof -
  have set: "isRTCSet r" using assms(1) by (simp add: rtcGet_def split: if_splits)
  have m: "rtcGetMicroSeconds r t = Some (of_nat (rtc_micros t))" "rtc_micros t < 2 ^ 63"
    by (rule rtcGetMicroSeconds_valid [OF set assms(5-7)])+
  have n: "rtcGetMicroSeconds r now = Some (of_nat (rtc_micros now))" "rtc_micros now < 2 ^ 63"
    by (rule rtcGetMicroSeconds_valid [OF set assms(2)]; use assms(3,4) in simp)+
  have u: "unat (of_nat (rtc_micros t) :: u64) = rtc_micros t" "unat (of_nat (rtc_micros now) :: u64) = rtc_micros now"
    using m(2) n(2) by (simp_all add: unat_of_nat take_bit_nat_eq_self)
  define d :: u64 where "d = (if of_nat (rtc_micros t) > (of_nat (rtc_micros now) :: u64)
    then of_nat (rtc_micros t) - of_nat (rtc_micros now) else of_nat (rtc_micros now) - of_nat (rtc_micros t))"
  have d: "unat d = diff"
  proof (cases "rtc_micros now < rtc_micros t")
    case True
    then show ?thesis by (simp add: d_def word_less_nat_alt u unat_sub word_le_nat_alt diff_def)
  next
    case False
    then show ?thesis by (simp add: d_def word_less_nat_alt u unat_sub word_le_nat_alt diff_def)
  qed
  have "unat drift < 2 ^ LENGTH(32)" by (rule unsigned_less)
  then have drift: "unat drift < 2 ^ 32" by simp
  then have "double_of (unat drift) = unat drift" "double_of (unat drift * 1000000) = unat drift * 1000000"
    by (simp_all add: double_of_def)
  then have "double_of (unat d) \<le> double_of (double_of (unat drift) * 1000000) \<longleftrightarrow> diff \<le> 1000000 * unat drift"
    using double_of_le [of "unat drift * 1000000" "unat d"] drift by (simp add: d mult.commute)
  moreover have "(ucast d :: u32) = of_nat diff"
    unfolding d [symmetric] by simp
  ultimately show ?thesis
    by (simp add: isRTCValid_def set assms(1) m n d_def [symmetric] Let_def)
qed

theorem rtc_drift_check_witness:
  "\<exists>r. rtcGet r = Some \<lparr>rt_year = 2024, rt_month = 2, rt_day = 29, rt_hour = 23, rt_minute = 59, rt_second = 58, rt_ms = 500\<rparr> \<and>
     isRTCValid \<lparr>rt_year = 2024, rt_month = 3, rt_day = 1, rt_hour = 0, rt_minute = 0, rt_second = 2, rt_ms = 0\<rparr> 3 r = Some (False, Some 3500000) \<and>
     isRTCValid \<lparr>rt_year = 2024, rt_month = 3, rt_day = 1, rt_hour = 0, rt_minute = 0, rt_second = 2, rt_ms = 0\<rparr> 4 r = Some (True, Some 3500000)"
proof -
  let ?now = "\<lparr>rt_year = 2024, rt_month = 2, rt_day = 29, rt_hour = 23, rt_minute = 59, rt_second = 58, rt_ms = 500\<rparr>"
  let ?t = "\<lparr>rt_year = 2024, rt_month = 3, rt_day = 1, rt_hour = 0, rt_minute = 0, rt_second = 2, rt_ms = 0\<rparr>"
  let ?r = "\<lparr>r_TR = 0x00235958, r_DR = 0x00242229, r_SSR = 127, r_PRER = 0x007F00FF, r_BKP0R = RTC_SET_MAGIC, r_CR = 0, r_CALR = 0, r_ICSR = 0\<rparr>"
  have g: "rtcGet ?r = Some ?now" by code_simp
  have v: "valid_rtc ?t" by (simp add: valid_rtc_def month_lens_def gregorian_leap_def)
  have "nat \<bar>int (rtc_micros ?t) - int (rtc_micros ?now)\<bar> = 3500000"
    by (simp add: rtc_micros_def rtc_secs_def date_days_def month_lens_def gregorian_leap_def)
  then show ?thesis
    using rtc_drift_check [OF g valid_rtc_example _ _ v, of 3] rtc_drift_check [OF g valid_rtc_example _ _ v, of 4] g
    by (intro exI [of _ ?r]) simp
qed

section \<open>The uptime follows the clock\<close>

text \<open>
  C31: once it has been told the uptime so far, the uptime counts on from it with the clock: at every
  later time of the clock it is the uptime so far and the microseconds that the clock has advanced,
  whatever the tick counter; started with a clock that is set, it counts from 0.
\<close>

theorem uptime_follows_clock:
  assumes "rtcGet r = Some t" and "valid_rtc t" and "2000 \<le> unat (rt_year t)" and "unat (rt_year t) < 2100"
    and "rtcGet r' = Some t'" and "valid_rtc t'" and "2000 \<le> unat (rt_year t')" and "unat (rt_year t') < 2100"
    and "rtc_micros t \<le> rtc_micros t'" and "unat prev < 2 ^ 62"
  defines "advance \<equiv> rtc_micros t' - rtc_micros t"
  shows "(\<exists>u' us. uptimeUpdate r prev u = Some u' \<and> uptimeGetMicroSeconds r' ticks u' = Some us \<and>
       unat us = unat prev + advance \<and> uptimeGetMs r' ticks u' = Some (of_nat ((unat prev + advance) div 1000))) \<and>
     (\<exists>u' us. uptimeInit r u = Some u' \<and> uptimeGetMicroSeconds r' ticks u' = Some us \<and> unat us = advance)"
proof -
  let ?n = "of_nat (rtc_micros t) :: u64" and ?n' = "of_nat (rtc_micros t') :: u64"
  have set: "isRTCSet r" "isRTCSet r'" using assms(1,5) by (simp_all add: rtcGet_def split: if_splits)
  have now: "rtc_now r = Some ?n" "rtc_now r' = Some ?n'"
    using rtcGetMicroSeconds_valid(1) [OF set(1) assms(2)] rtcGetMicroSeconds_valid(1) [OF set(2) assms(6)] assms(1,3,4,5,7,8)
    by (simp_all add: rtc_now_def)
  have small: "advance < 2 ^ 63"
    using rtcGetMicroSeconds_valid(2) [OF set(2) assms(6)] assms(7,8) by (simp add: advance_def)
  have diff: "?n' - ?n = of_nat advance" using assms(9) by (simp add: advance_def of_nat_diff)
  have e: "?n' - (?n - prev) = prev + of_nat advance" using diff by (simp add: algebra_simps)
  have u: "unat (of_nat (unat prev + advance) :: u64) = unat prev + advance" "unat (of_nat advance :: u64) = advance"
    unfolding unat_of_nat using small assms(10) by (simp_all del: of_nat_add add: take_bit_nat_eq_self)
  moreover have "unat ((of_nat (unat prev + advance) :: u64) div 1000) = unat (of_nat ((unat prev + advance) div 1000) :: u64)"
    unfolding unat_div_distrib u(1) unat_of_nat using small assms(10) by (simp del: of_nat_add add: take_bit_nat_eq_self)
  then have "(of_nat (unat prev + advance) :: u64) div 1000 = of_nat ((unat prev + advance) div 1000)"
    by (rule word_unat_eq_iff [THEN iffD2])
  then show ?thesis
    using u by (simp add: uptimeUpdate_def uptimeInit_def uptimeGetMicroSeconds_def uptimeGetMs_def set now diff e)
qed

theorem uptime_follows_clock_witness:
  "\<exists>r r' u' us. uptimeUpdate r 7000000 \<lparr>uptimeFromRTC = False, startTime = 0\<rparr> = Some u' \<and>
     uptimeGetMicroSeconds r' 0 u' = Some us \<and> unat us = 10500000"
proof -
  let ?t = "\<lparr>rt_year = 2024, rt_month = 2, rt_day = 29, rt_hour = 23, rt_minute = 59, rt_second = 58, rt_ms = 500\<rparr>"
  let ?t' = "\<lparr>rt_year = 2024, rt_month = 3, rt_day = 1, rt_hour = 0, rt_minute = 0, rt_second = 2, rt_ms = 0\<rparr>"
  let ?r = "\<lparr>r_TR = 0x00235958, r_DR = 0x00242229, r_SSR = 127, r_PRER = 0x007F00FF, r_BKP0R = RTC_SET_MAGIC, r_CR = 0, r_CALR = 0, r_ICSR = 0\<rparr>"
  let ?r' = "\<lparr>r_TR = 0x00000002, r_DR = 0x00242301, r_SSR = 255, r_PRER = 0x007F00FF, r_BKP0R = RTC_SET_MAGIC, r_CR = 0, r_CALR = 0, r_ICSR = 0\<rparr>"
  have g: "rtcGet ?r = Some ?t" "rtcGet ?r' = Some ?t'" by code_simp+
  have v: "valid_rtc ?t'" by (simp add: valid_rtc_def month_lens_def gregorian_leap_def)
  have d: "rtc_micros ?t \<le> rtc_micros ?t'" "rtc_micros ?t' - rtc_micros ?t = 3500000"
    by (simp_all add: rtc_micros_def rtc_secs_def date_days_def month_lens_def gregorian_leap_def)
  show ?thesis
    using uptime_follows_clock [OF g(1) valid_rtc_example _ _ g(2) v _ _ d(1), of 7000000 "\<lparr>uptimeFromRTC = False, startTime = 0\<rparr>" 0]
    by (simp add: d(2)) blast
qed

section \<open>The time as text\<close>

lemma dec_digits_length: "n < 10 ^ Suc k \<Longrightarrow> length (dec_digits n) \<le> Suc k"
proof (induction k arbitrary: n)
  case 0
  then show ?case by (simp add: dec_digits.simps)
next
  case (Suc k)
  then have "n div 10 < 10 ^ Suc k" by (simp add: less_mult_imp_div_less)
  from Suc.IH [OF this] show ?case by (simp add: dec_digits.simps [of n])
qed

lemma zero_padded_length: "n < 10 ^ Suc k \<Longrightarrow> length (zero_padded (Suc k) n) = Suc k"
  using dec_digits_length [of n k] by (simp add: zero_padded_def)

lemma iso_time_length:
  assumes "valid_rtc t" and "unat (rt_year t) < 10000"
  shows "length (iso_time t) = 23"
proof -
  have v: "unat (rt_month t) < 100" "unat (rt_day t) < 100" "unat (rt_hour t) < 100" "unat (rt_minute t) < 100"
    "unat (rt_second t) < 100" "unat (rt_ms t) < 1000"
    using assms(1) month_len_le [of "unat (rt_month t)" "unat (rt_year t)"] by (auto simp: valid_rtc_def)
  have two: "length (zero_padded 2 n) = 2" if "n < 100" for n using zero_padded_length [of n 1] that by (simp add: numeral_2_eq_2)
  have three: "length (zero_padded 3 n) = 3" if "n < 1000" for n using zero_padded_length [of n 2] that by simp
  have four: "length (zero_padded 4 n) = 4" if "n < 10000" for n using zero_padded_length [of n 3] that by simp
  show ?thesis by (simp add: iso_time_def two three four v assms(2))
qed

lemma rtcGet_year: "rtcGet r = Some t \<Longrightarrow> unat (rt_year t) < 10000"
proof -
  assume "rtcGet r = Some t"
  then have "rt_year t = ucast (CONVERT_BCD2BIN (LL_RTC_DATE_GetYear r)) + 2000"
    by (auto simp: rtcGet_def Let_def split: if_splits)
  then show ?thesis using byte_less [of "CONVERT_BCD2BIN (LL_RTC_DATE_GetYear r)"]
    by (simp add: unat_word_ariths unsigned_ucast_eq unsigned_take_bit_eq take_bit_nat_eq_self)
qed

text \<open>
  With a clock that is set the text of a time has 24 characters.  Told that its buffer has 24
  bytes, \<open>logRtcGetTimeStr\<close> reports that the text fits, although the last character is lost to
  the terminating zero; with 25 or more it is complete, and with less the function reports it.
\<close>

theorem time_string_length:
  assumes "rtcGet r = Some t" and "valid_rtc t"
  shows "length (iso_time t @ ''Z'') = 24 \<and>
     logRtcGetTimeStr ticks len False r =
       Some (24 \<le> len, if len = 0 then None else Some (take (len - 1) (iso_time t @ ''Z'')))"
  using iso_time_length [OF assms(2) rtcGet_year [OF assms(1)]]
  by (simp add: logRtcGetTimeStr_def assms(1) snprintf_def)

theorem time_string_length_witness:
  "\<exists>r. logRtcGetTimeStr 0 24 False r = Some (True, Some ''2024-02-29T23:59:58.500'') \<and>
     logRtcGetTimeStr 0 25 False r = Some (True, Some ''2024-02-29T23:59:58.500Z'')"
proof -
  let ?t = "\<lparr>rt_year = 2024, rt_month = 2, rt_day = 29, rt_hour = 23, rt_minute = 59, rt_second = 58, rt_ms = 500\<rparr>"
  let ?r = "\<lparr>r_TR = 0x00235958, r_DR = 0x00242229, r_SSR = 127, r_PRER = 0x007F00FF, r_BKP0R = RTC_SET_MAGIC, r_CR = 0, r_CALR = 0, r_ICSR = 0\<rparr>"
  have g: "rtcGet ?r = Some ?t" by code_simp
  have i: "iso_time ?t = ''2024-02-29T23:59:58.500''" by code_simp
  show ?thesis
    using time_string_length [OF g valid_rtc_example, of 0 24] time_string_length [OF g valid_rtc_example, of 0 25]
    by (intro exI [of _ ?r]) (simp add: i)
qed

end
