(* ===== verification/Stm32_Flash.thy ===== *)
theory Stm32_Flash
  imports Bm_Prelude
begin

text \<open>
  The internal flash: erasing pages over the two banks and programming quad-words
  (\<open>stm32_flash_u5.c\<close>), and on top of them the flash areas of the boot loader (\<open>port_flash.c\<close>), with
  the contract of the vendor driver that they rely on.
\<close>

section \<open>The vendor driver\<close>

datatype flash_bank = FLASH_BANK_1 | FLASH_BANK_2

text \<open>
  The vendor driver over a world \<open>'w\<close>: unlocking and locking the control register, erasing pages of a
  bank and programming 16 bytes (\<open>True\<close> is \<open>HAL_OK\<close>), waiting for the last operation, the memory as it
  is read through pointers, and whether the control register is locked.
\<close>

record 'w flash_hal =
  FLASH_SIZE :: u32
  HAL_FLASH_Unlock :: "'w \<Rightarrow> 'w"
  HAL_FLASH_Lock :: "'w \<Rightarrow> 'w"
  HAL_FLASHEx_Erase :: "flash_bank \<Rightarrow> u32 \<Rightarrow> u32 \<Rightarrow> 'w \<Rightarrow> bool \<times> 'w"
  HAL_FLASH_Program :: "u32 \<Rightarrow> u8 list \<Rightarrow> 'w \<Rightarrow> bool \<times> 'w"
  FLASH_WaitForLastOperation :: "'w \<Rightarrow> 'w"
  flash_mem :: "'w \<Rightarrow> u32 \<Rightarrow> u8"
  flash_locked :: "'w \<Rightarrow> bool"

definition FLASH_BASE :: u32 where "FLASH_BASE = 0x08000000"
definition FLASH_PAGE_SIZE :: u32 where "FLASH_PAGE_SIZE = 0x2000"

definition FLASH_BANK_SIZE :: "'w flash_hal \<Rightarrow> u32" where
  "FLASH_BANK_SIZE hal = drop_bit 1 (FLASH_SIZE hal)"

section \<open>Erasing and programming\<close>

definition erase_pages :: "u32 \<Rightarrow> u32" where
  "erase_pages n = (if n mod FLASH_PAGE_SIZE \<noteq> 0 then n div FLASH_PAGE_SIZE + 1 else n div FLASH_PAGE_SIZE)"

text \<open>One call of the vendor driver; the control register stays unlocked when it fails.\<close>

definition erase_bank :: "'w flash_hal \<Rightarrow> flash_bank \<Rightarrow> u32 \<Rightarrow> u32 \<Rightarrow> 'w \<Rightarrow> bool \<times> 'w" where
  "erase_bank hal bank page numPages w =
     (case HAL_FLASHEx_Erase hal bank page numPages (HAL_FLASH_Unlock hal w) of
        (True, w) \<Rightarrow> (True, HAL_FLASH_Lock hal w)
      | (False, w) \<Rightarrow> (False, w))"

definition erase_second_bank :: "'w flash_hal \<Rightarrow> u32 \<Rightarrow> u32 \<Rightarrow> u32 \<Rightarrow> bool \<Rightarrow> 'w \<Rightarrow> bool \<times> 'w" where
  "erase_second_bank hal addr len startAddr next_bank w =
     (let endAddr = addr + len;
          page = (if next_bank then 0 else (startAddr - FLASH_BASE) div FLASH_PAGE_SIZE)
      in erase_bank hal FLASH_BANK_2 page (erase_pages (endAddr - startAddr)) w)"

definition erase_banks :: "'w flash_hal \<Rightarrow> u32 \<Rightarrow> u32 \<Rightarrow> 'w \<Rightarrow> bool \<times> 'w" where
  "erase_banks hal addr len w =
     (if addr < FLASH_BASE \<or> addr + len > FLASH_BASE + FLASH_SIZE hal \<or>
         addr mod FLASH_PAGE_SIZE \<noteq> 0 \<or> len mod FLASH_PAGE_SIZE \<noteq> 0
      then (False, w)
      else if addr < FLASH_BASE + FLASH_BANK_SIZE hal
      then let endAddr = min (addr + len) (FLASH_BASE + FLASH_BANK_SIZE hal);
               page = (addr - FLASH_BASE) div FLASH_PAGE_SIZE
           in case erase_bank hal FLASH_BANK_1 page (erase_pages (endAddr - addr)) w of
                (False, w) \<Rightarrow> (False, w)
              | (True, w) \<Rightarrow> if endAddr = addr + len then (True, w)
                  else erase_second_bank hal addr len endAddr True w
      else erase_second_bank hal addr len addr False w)"

text \<open>Whatever fails, the control register is locked at the end.\<close>

definition flashErase :: "'w flash_hal \<Rightarrow> u32 \<Rightarrow> u32 \<Rightarrow> 'w \<Rightarrow> bool \<times> 'w" where
  "flashErase hal addr len w =
     (case erase_banks hal addr len w of (rval, w) \<Rightarrow> (rval, if rval then w else HAL_FLASH_Lock hal w))"

text \<open>
  The loop of \<open>flashWrite\<close>, from the list of its offsets: every turn copies 16 bytes of the data, and
  \<open>None\<close> reads behind them.  A quad-word that cannot be programmed ends the loop.
\<close>

fun program_quadwords :: "'w flash_hal \<Rightarrow> u32 \<Rightarrow> u8 list \<Rightarrow> nat list \<Rightarrow> 'w \<Rightarrow> 'w option" where
  "program_quadwords hal addr data [] w = Some w"
| "program_quadwords hal addr data (offset # offsets) w =
     (case mem_read data offset 16 of
        None \<Rightarrow> None
      | Some cache \<Rightarrow> (case HAL_FLASH_Program hal (addr + of_nat offset) cache w of
            (True, w) \<Rightarrow> program_quadwords hal addr data offsets w
          | (False, w) \<Rightarrow> Some w))"

definition quadword_offsets :: "nat \<Rightarrow> nat list" where
  "quadword_offsets len = map (\<lambda>i. 16 * i) [0..<(len + 15) div 16]"

definition flashWrite :: "'w flash_hal \<Rightarrow> u32 \<Rightarrow> u8 list \<Rightarrow> u32 \<Rightarrow> 'w \<Rightarrow> (bool \<times> 'w) option" where
  "flashWrite hal addr data len w =
     (case program_quadwords hal addr data (quadword_offsets (unat len)) (HAL_FLASH_Unlock hal w) of
        None \<Rightarrow> None
      | Some w \<Rightarrow> Some (True, HAL_FLASH_Lock hal (FLASH_WaitForLastOperation hal w)))"

section \<open>The flash areas\<close>

record flash_area =
  fa_id :: u8
  fa_device_id :: u8
  fa_off :: u32
  fa_size :: u32

record flash_sector =
  fs_off :: u32
  fs_size :: u32

definition FLASH_DEVICE_INTERNAL_FLASH :: u8 where "FLASH_DEVICE_INTERNAL_FLASH = 0"
definition FLASH_AREA_BOOTLOADER :: u8 where "FLASH_AREA_BOOTLOADER = 0"
definition FLASH_AREA_IMAGE_PRIMARY :: u8 where "FLASH_AREA_IMAGE_PRIMARY = 1"
definition FLASH_AREA_IMAGE_SECONDARY :: u8 where "FLASH_AREA_IMAGE_SECONDARY = 2"
definition FLASH_AREA_IMAGE_SCRATCH :: u8 where "FLASH_AREA_IMAGE_SCRATCH = 3"

text \<open>The sizes are those that the build gives an image under the boot loader.\<close>

definition BOOTLOADER_SIZE :: u32 where "BOOTLOADER_SIZE = 0xC000"
definition APP_SIZE :: u32 where "APP_SIZE = 0xF2000"
definition SCRATCH_SIZE :: u32 where "SCRATCH_SIZE = 0x10000"

definition BOOTLOADER_START_ADDRESS :: u32 where
  "BOOTLOADER_START_ADDRESS = 0"
definition APPLICATION_PRIMARY_START_ADDRESS :: u32 where
  "APPLICATION_PRIMARY_START_ADDRESS = BOOTLOADER_START_ADDRESS + BOOTLOADER_SIZE"
definition APPLICATION_SECONDARY_START_ADDRESS :: u32 where
  "APPLICATION_SECONDARY_START_ADDRESS = APPLICATION_PRIMARY_START_ADDRESS + APP_SIZE"
definition SCRATCH_START_ADDRESS :: u32 where
  "SCRATCH_START_ADDRESS = APPLICATION_SECONDARY_START_ADDRESS + APP_SIZE"

definition bootloader :: flash_area where
  "bootloader = \<lparr>fa_id = FLASH_AREA_BOOTLOADER, fa_device_id = FLASH_DEVICE_INTERNAL_FLASH,
     fa_off = BOOTLOADER_START_ADDRESS, fa_size = BOOTLOADER_SIZE\<rparr>"

definition primary_img0 :: flash_area where
  "primary_img0 = \<lparr>fa_id = FLASH_AREA_IMAGE_PRIMARY, fa_device_id = FLASH_DEVICE_INTERNAL_FLASH,
     fa_off = APPLICATION_PRIMARY_START_ADDRESS, fa_size = APP_SIZE\<rparr>"

definition secondary_img0 :: flash_area where
  "secondary_img0 = \<lparr>fa_id = FLASH_AREA_IMAGE_SECONDARY, fa_device_id = FLASH_DEVICE_INTERNAL_FLASH,
     fa_off = APPLICATION_SECONDARY_START_ADDRESS, fa_size = APP_SIZE\<rparr>"

definition scratch_area :: flash_area where
  "scratch_area = \<lparr>fa_id = FLASH_AREA_IMAGE_SCRATCH, fa_device_id = FLASH_DEVICE_INTERNAL_FLASH,
     fa_off = SCRATCH_START_ADDRESS, fa_size = SCRATCH_SIZE\<rparr>"

definition s_flash_areas :: "flash_area list" where
  "s_flash_areas = [bootloader, primary_img0, secondary_img0, scratch_area]"

definition prv_lookup_flash_area :: "u8 \<Rightarrow> flash_area option" where
  "prv_lookup_flash_area ident = find (\<lambda>area. ident = fa_id area) s_flash_areas"

definition flash_area_open :: "u8 \<Rightarrow> int \<times> flash_area option" where
  "flash_area_open ident =
     (let area = prv_lookup_flash_area ident in (if area \<noteq> None then 0 else -1, area))"

definition FLASH_OFFSET :: u32 where "FLASH_OFFSET = 0x8000000"

text \<open>The answer, and the bytes copied out of the memory-mapped flash when it is 0.\<close>

definition mem_bytes :: "(u32 \<Rightarrow> u8) \<Rightarrow> u32 \<Rightarrow> nat \<Rightarrow> u8 list" where
  "mem_bytes m addr n = map (\<lambda>i. m (addr + of_nat i)) [0..<n]"

definition flash_area_read :: "'w flash_hal \<Rightarrow> flash_area \<Rightarrow> u32 \<Rightarrow> u32 \<Rightarrow> 'w \<Rightarrow> int \<times> u8 list" where
  "flash_area_read hal area off len w =
     (if fa_device_id area \<noteq> FLASH_DEVICE_INTERNAL_FLASH then (-1, [])
      else if off + len > fa_size area then (-1, [])
      else (0, mem_bytes (flash_mem hal w) (FLASH_OFFSET + fa_off area + off) (unat len)))"

text \<open>\<open>None\<close> reads behind the data; the bytes compared are those just programmed.\<close>

definition flash_area_write ::
  "'w flash_hal \<Rightarrow> flash_area \<Rightarrow> u32 \<Rightarrow> u8 list \<Rightarrow> u32 \<Rightarrow> 'w \<Rightarrow> (int \<times> 'w) option" where
  "flash_area_write hal area off src len w =
     (if fa_device_id area \<noteq> FLASH_DEVICE_INTERNAL_FLASH then Some (-1, w)
      else if off + len > fa_size area then Some (-1, w)
      else do {
        let addr = FLASH_OFFSET + fa_off area + off;
        (ok, w) \<leftarrow> flashWrite hal addr src len w;
        if \<not> ok then Some (-1, w)
        else do {
          written \<leftarrow> mem_read src 0 (unat len);
          if mem_bytes (flash_mem hal w) addr (unat len) \<noteq> written then Some (-1, w) else Some (0, w)
        }
      })"

definition flash_area_erased_val :: "flash_area \<Rightarrow> u8" where
  "flash_area_erased_val area = 0xFF"

definition flash_area_erase :: "'w flash_hal \<Rightarrow> flash_area \<Rightarrow> u32 \<Rightarrow> u32 \<Rightarrow> 'w \<Rightarrow> int \<times> 'w" where
  "flash_area_erase hal area off len w =
     (if fa_device_id area \<noteq> FLASH_DEVICE_INTERNAL_FLASH then (-1, w)
      else if len mod FLASH_PAGE_SIZE \<noteq> 0 \<or> off mod FLASH_PAGE_SIZE \<noteq> 0 then (-1, w)
      else let start_addr = FLASH_OFFSET + fa_off area + off
           in case flashErase hal start_addr len w of (ok, w) \<Rightarrow>
             if \<not> ok then (-1, w)
             else if list_all (\<lambda>val. val = flash_area_erased_val area) (mem_bytes (flash_mem hal w) start_addr (unat len))
             then (0, w) else (-1, w))"

definition MCUBOOT_BOOT_MAX_ALIGN :: nat where "MCUBOOT_BOOT_MAX_ALIGN = 16"

definition flash_area_align :: "flash_area \<Rightarrow> nat" where
  "flash_area_align area = MCUBOOT_BOOT_MAX_ALIGN"

text \<open>
  The sectors of an area, from the offsets of the loop; \<open>None\<close> follows the pointer \<open>NULL\<close> that an
  unknown area gives.
\<close>

definition flash_area_get_sectors :: "int \<Rightarrow> (int \<times> flash_sector list) option" where
  "flash_area_get_sectors ident = do {
     area \<leftarrow> prv_lookup_flash_area (of_int ident);
     if fa_device_id area \<noteq> FLASH_DEVICE_INTERNAL_FLASH then Some (-1, [])
     else Some (0, map (\<lambda>i. \<lparr>fs_off = of_nat i * FLASH_PAGE_SIZE, fs_size = FLASH_PAGE_SIZE\<rparr>)
            [0..<(unat (fa_size area) + unat FLASH_PAGE_SIZE - 1) div unat FLASH_PAGE_SIZE])
   }"

definition flash_area_id_from_multi_image_slot :: "int \<Rightarrow> int \<Rightarrow> int" where
  "flash_area_id_from_multi_image_slot image_index slot =
     (if slot = 0 then uint FLASH_AREA_IMAGE_PRIMARY
      else if slot = 1 then uint FLASH_AREA_IMAGE_SECONDARY else -1)"

definition flash_area_id_to_multi_image_slot :: "int \<Rightarrow> int \<Rightarrow> int" where
  "flash_area_id_to_multi_image_slot image_index area_id =
     (if area_id = uint FLASH_AREA_IMAGE_PRIMARY then 0
      else if area_id = uint FLASH_AREA_IMAGE_SECONDARY then 1 else -1)"

definition flash_area_id_from_image_slot :: "int \<Rightarrow> int" where
  "flash_area_id_from_image_slot slot = flash_area_id_from_multi_image_slot 0 slot"

definition flash_area_get_device_id :: "flash_area \<Rightarrow> u8" where
  "flash_area_get_device_id fa = 0"

section \<open>The contract of the vendor driver\<close>

text \<open>The addresses of pages of a bank of 1 megabyte.\<close>

definition in_pages :: "flash_bank \<Rightarrow> u32 \<Rightarrow> u32 \<Rightarrow> u32 \<Rightarrow> bool" where
  "in_pages bank page n a \<longleftrightarrow> (\<exists>p \<in> {unat page..<unat page + unat n}.
     let start = (case bank of FLASH_BANK_1 \<Rightarrow> 0x8000000 | FLASH_BANK_2 \<Rightarrow> 0x8100000) + 0x2000 * p
     in start \<le> unat a \<and> unat a < start + 0x2000)"

text \<open>An address is one of the \<open>n\<close> from \<open>addr\<close> on, or lies outside of them.\<close>

definition in_range :: "u32 \<Rightarrow> nat \<Rightarrow> u32 \<Rightarrow> bool" where
  "in_range addr n a \<longleftrightarrow> unat addr \<le> unat a \<and> unat a < unat addr + n"

text \<open>
  The driver of a part with 2 megabytes, as its documentation has it: for page numbers within a
  bank, 0 to 127, erasing touches only the pages it is given; programming touches only its
  quad-word; both leave there what they should when they report success, and need the control
  register unlocked; the register itself is locked and unlocked by the two calls for it.
\<close>

locale flash_device =
  fixes hal :: "'w flash_hal"
  assumes size: "FLASH_SIZE hal = 0x200000"
    and unlock: "flash_mem hal (HAL_FLASH_Unlock hal w) = flash_mem hal w" "\<not> flash_locked hal (HAL_FLASH_Unlock hal w)"
    and lock: "flash_mem hal (HAL_FLASH_Lock hal w) = flash_mem hal w" "flash_locked hal (HAL_FLASH_Lock hal w)"
    and erase: "\<lbrakk>HAL_FLASHEx_Erase hal bank page n w = (ok, w'); \<not> flash_locked hal w;
        unat page + unat n \<le> 128\<rbrakk> \<Longrightarrow>
      (ok \<longrightarrow> in_pages bank page n a \<longrightarrow> flash_mem hal w' a = 0xFF) \<and>
      (\<not> in_pages bank page n a \<longrightarrow> flash_mem hal w' a = flash_mem hal w a)"
    and program: "\<lbrakk>HAL_FLASH_Program hal addr qw w = (ok, w'); \<not> flash_locked hal w; length qw = 16\<rbrakk> \<Longrightarrow>
      (ok \<longrightarrow> in_range addr 16 a \<longrightarrow> flash_mem hal w' a = qw ! (unat a - unat addr)) \<and>
      (\<not> in_range addr 16 a \<longrightarrow> flash_mem hal w' a = flash_mem hal w a) \<and> \<not> flash_locked hal w'"
    and wait: "flash_mem hal (FLASH_WaitForLastOperation hal w) = flash_mem hal w"

text \<open>A driver without faults succeeds where the reference manual says that it can.\<close>

definition erase_works :: "'w flash_hal \<Rightarrow> bool" where
  "erase_works hal \<longleftrightarrow> (\<forall>bank page n w. \<not> flash_locked hal w \<and> unat page + unat n \<le> 128 \<longrightarrow>
     fst (HAL_FLASHEx_Erase hal bank page n w))"

definition program_works :: "'w flash_hal \<Rightarrow> bool" where
  "program_works hal \<longleftrightarrow> (\<forall>addr qw w. \<not> flash_locked hal w \<and> 16 dvd unat addr \<and> length qw = 16 \<and>
     (\<forall>i<16. flash_mem hal w (addr + of_nat i) = 0xFF) \<longrightarrow> fst (HAL_FLASH_Program hal addr qw w))"

text \<open>
  What the code relies on beyond that documentation, and only for ranges that start in the second
  bank: it then counts their pages from the start of the flash, 128 and more, and expects the driver
  to take them as the pages of the bank.  The driver masks nothing; what makes it work is that the
  page number goes into a field of seven bits of the control register (\<open>FLASH_NSCR_PNB\<close>), the bit
  above it is reserved, and the driver's check of the number is compiled out.
\<close>

definition page_field :: "'w flash_hal \<Rightarrow> bool" where
  "page_field hal \<longleftrightarrow> (\<forall>bank page n w. 128 \<le> unat page \<and> unat page + unat n \<le> 256 \<longrightarrow>
     HAL_FLASHEx_Erase hal bank page n w = HAL_FLASHEx_Erase hal bank (page - 128) n w)"

text \<open>Pages one after the other are a range of addresses.\<close>

lemma in_pages_range:
  "in_pages bank page n a \<longleftrightarrow>
    (let start = (case bank of FLASH_BANK_1 \<Rightarrow> 0x8000000 | FLASH_BANK_2 \<Rightarrow> 0x8100000) + 0x2000 * unat page
     in start \<le> unat a \<and> unat a < start + 0x2000 * unat n)"
proof -
  define base :: nat where "base = (case bank of FLASH_BANK_1 \<Rightarrow> 0x8000000 | FLASH_BANK_2 \<Rightarrow> 0x8100000)"
  have "(\<exists>p \<in> {unat page..<unat page + unat n}. base + 0x2000 * p \<le> unat a \<and> unat a < base + 0x2000 * p + 0x2000)"
    if "base + 0x2000 * unat page \<le> unat a" "unat a < base + 0x2000 * unat page + 0x2000 * unat n"
  proof -
    let ?p = "(unat a - base) div 0x2000"
    have "unat page \<le> ?p" "?p < unat page + unat n" "base \<le> unat a"
      using that by (simp_all add: less_eq_div_iff_mult_less_eq div_less_iff_less_mult)
    moreover from this have "base + 0x2000 * ?p \<le> unat a" "unat a < base + 0x2000 * ?p + 0x2000" by linarith+
    ultimately show ?thesis by (intro bexI [of _ ?p]) auto
  qed
  then show ?thesis unfolding in_pages_def Let_def base_def [symmetric] by (auto simp: algebra_simps)
qed

text \<open>The arithmetic of pages in natural numbers.\<close>

lemma page_arith:
  assumes "unat (x :: u32) = 0x2000 * k"
  shows "unat (erase_pages x) = k" and "unat (x div FLASH_PAGE_SIZE) = k"
proof -
  show "unat (x div FLASH_PAGE_SIZE) = k" using assms by (simp add: unat_div_distrib FLASH_PAGE_SIZE_def)
  moreover have "x mod FLASH_PAGE_SIZE = 0" using assms by (simp add: word_unat_eq_iff unat_mod_distrib FLASH_PAGE_SIZE_def)
  ultimately show "unat (erase_pages x) = k" by (simp add: erase_pages_def)
qed

text \<open>
  What erasing a region comes to: nothing else is touched, and when it succeeds the region is erased
  and the control register locked.
\<close>

definition erases :: "'w flash_hal \<Rightarrow> (u32 \<Rightarrow> bool) \<Rightarrow> bool \<Rightarrow> 'w \<Rightarrow> 'w \<Rightarrow> bool" where
  "erases hal region ok w w' \<longleftrightarrow>
     (\<forall>a. \<not> region a \<longrightarrow> flash_mem hal w' a = flash_mem hal w a) \<and>
     (ok \<longrightarrow> flash_locked hal w' \<and> (\<forall>a. region a \<longrightarrow> flash_mem hal w' a = 0xFF))"

lemma erases_both:
  "\<lbrakk>erases hal R1 True w w1; erases hal R2 ok w1 w2; \<And>a. R a \<longleftrightarrow> R1 a \<or> R2 a\<rbrakk> \<Longrightarrow> erases hal R ok w w2"
  unfolding erases_def by metis

lemma erases_part:
  "\<lbrakk>erases hal R1 False w w'; \<And>a. R1 a \<Longrightarrow> R a\<rbrakk> \<Longrightarrow> erases hal R False w w'"
  unfolding erases_def by blast

text \<open>The guards of the code, in natural numbers.\<close>

definition erase_args :: "u32 \<Rightarrow> u32 \<Rightarrow> bool" where
  "erase_args addr len \<longleftrightarrow> 0x8000000 \<le> unat addr \<and> unat addr + unat len \<le> 0x8200000 \<and>
     0x2000 dvd unat addr \<and> 0x2000 dvd unat len"

lemma page_aligned: "x mod FLASH_PAGE_SIZE = 0 \<longleftrightarrow> 0x2000 dvd unat x"
  by (simp add: word_unat_eq_iff unat_mod_distrib FLASH_PAGE_SIZE_def dvd_eq_mod_eq_0)

context flash_device begin

lemma erase_bank_erases:
  assumes "erase_bank hal bank page n w = (ok, w')" and n: "unat page + unat n \<le> 128"
  shows "erases hal (in_pages bank page n) ok w w'" and "erase_works hal \<Longrightarrow> ok"
proof -
  obtain ok1 w1 where e: "HAL_FLASHEx_Erase hal bank page n (HAL_FLASH_Unlock hal w) = (ok1, w1)" by (rule prod.exhaust)
  then have "ok = ok1" "w' = (if ok then HAL_FLASH_Lock hal w1 else w1)" using assms by (auto simp: erase_bank_def split: bool.splits)
  then show "erases hal (in_pages bank page n) ok w w'"
    using erase [OF e unlock(2) n] by (auto simp: erases_def unlock lock)
  assume "erase_works hal"
  then have "fst (HAL_FLASHEx_Erase hal bank page n (HAL_FLASH_Unlock hal w))" using unlock(2) n unfolding erase_works_def by blast
  then show ok using e \<open>ok = ok1\<close> by simp
qed

lemma sizes: "unat (FLASH_BASE + FLASH_SIZE hal) = 0x8200000" "unat (FLASH_BASE + FLASH_BANK_SIZE hal) = 0x8100000"
    "unat FLASH_BASE = 0x8000000"
  by (simp_all add: FLASH_BASE_def FLASH_BANK_SIZE_def size)

lemma erase_guard:
  assumes "unat addr + unat len < 2 ^ 32"
  shows "\<not> (addr < FLASH_BASE \<or> addr + len > FLASH_BASE + FLASH_SIZE hal \<or>
         addr mod FLASH_PAGE_SIZE \<noteq> 0 \<or> len mod FLASH_PAGE_SIZE \<noteq> 0) \<longleftrightarrow> erase_args addr len"
proof -
  have "unat (addr + len) = unat addr + unat len" using assms by (simp add: unat_word_ariths)
  then show ?thesis
    unfolding word_less_nat_alt sizes page_aligned erase_args_def by (simp only:) auto
qed

text \<open>The two calls of the driver: in each bank the pages that lie in it.\<close>

lemma first_bank:
  assumes "unat addr = 0x8000000 + 0x2000 * p" and "unat endAddr = 0x8000000 + 0x2000 * q" and "p \<le> q" and "q \<le> 128" and "p < 128"
    and "erase_bank hal FLASH_BANK_1 ((addr - FLASH_BASE) div FLASH_PAGE_SIZE) (erase_pages (endAddr - addr)) w = (ok, w')"
  shows "erases hal (\<lambda>a. 0x8000000 + 0x2000 * p \<le> unat a \<and> unat a < 0x8000000 + 0x2000 * q) ok w w'"
    and "erase_works hal \<Longrightarrow> ok"
proof -
  have "unat (addr - FLASH_BASE) = 0x2000 * p" "unat (endAddr - addr) = 0x2000 * (q - p)"
    using assms(1-3) by (simp_all add: unat_sub word_le_nat_alt sizes diff_mult_distrib2)
  note u = page_arith(2) [OF this(1)] page_arith(1) [OF this(2)]
  have r: "in_pages FLASH_BANK_1 ((addr - FLASH_BASE) div FLASH_PAGE_SIZE) (erase_pages (endAddr - addr)) =
    (\<lambda>a. 0x8000000 + 0x2000 * p \<le> unat a \<and> unat a < 0x8000000 + 0x2000 * q)"
    by (rule ext, subst in_pages_range) (use assms(3-5) in \<open>auto simp: u Let_def\<close>)
  have n: "unat ((addr - FLASH_BASE) div FLASH_PAGE_SIZE) + unat (erase_pages (endAddr - addr)) \<le> 128"
    using assms(3,4) by (simp add: u)
  show "erases hal (\<lambda>a. 0x8000000 + 0x2000 * p \<le> unat a \<and> unat a < 0x8000000 + 0x2000 * q) ok w w'"
    using erase_bank_erases(1) [OF assms(6) n] unfolding r .
  show "erase_works hal \<Longrightarrow> ok" by (rule erase_bank_erases(2) [OF assms(6) n])
qed

lemma second_bank:
  assumes "unat startAddr = 0x8000000 + 0x2000 * p" and "unat (addr + len) = 0x8000000 + 0x2000 * q" and "128 \<le> p"
    and "p \<le> q" and "q \<le> 256" and "if next_bank then p = 128 else page_field hal"
    and "erase_second_bank hal addr len startAddr next_bank w = (ok, w')"
  shows "erases hal (\<lambda>a. 0x8000000 + 0x2000 * p \<le> unat a \<and> unat a < 0x8000000 + 0x2000 * q) ok w w'"
    and "erase_works hal \<Longrightarrow> ok"
proof -
  let ?page = "if next_bank then 0 else (startAddr - FLASH_BASE) div FLASH_PAGE_SIZE - 128"
  let ?n = "erase_pages (addr + len - startAddr)"
  have "unat (startAddr - FLASH_BASE) = 0x2000 * p" "unat (addr + len - startAddr) = 0x2000 * (q - p)"
    using assms(1,2,4) by (simp_all add: unat_sub word_le_nat_alt sizes diff_mult_distrib2)
  note u = page_arith(2) [OF this(1)] page_arith(1) [OF this(2)]
  have e: "erase_bank hal FLASH_BANK_2 ?page ?n w = (ok, w')"
  proof (cases next_bank)
    case True
    then show ?thesis using assms(7) by (simp add: erase_second_bank_def)
  next
    case False
    let ?p = "(startAddr - FLASH_BASE) div FLASH_PAGE_SIZE"
    have "erase_bank hal FLASH_BANK_2 ?p ?n w = (ok, w')" using False assms(7) by (simp add: erase_second_bank_def)
    moreover have "128 \<le> unat ?p \<and> unat ?p + unat ?n \<le> 256" unfolding u using assms(3-5) by simp
    then have "HAL_FLASHEx_Erase hal FLASH_BANK_2 ?p ?n v = HAL_FLASHEx_Erase hal FLASH_BANK_2 (?p - 128) ?n v" for v
      using assms(6) False unfolding page_field_def by (simp only: if_False)
    ultimately show ?thesis using False by (simp only: erase_bank_def if_False)
  qed
  have page: "unat ?page = p - 128" using assms(3,6) by (auto simp: unat_sub word_le_nat_alt u)
  have r: "in_pages FLASH_BANK_2 ?page ?n = (\<lambda>a. 0x8000000 + 0x2000 * p \<le> unat a \<and> unat a < 0x8000000 + 0x2000 * q)"
    by (rule ext, subst in_pages_range) (use assms(3-5) in \<open>auto simp: u page Let_def simp del: if_split\<close>)
  have n: "unat ?page + unat ?n \<le> 128" unfolding page u using assms(3-5) by simp
  show "erases hal (\<lambda>a. 0x8000000 + 0x2000 * p \<le> unat a \<and> unat a < 0x8000000 + 0x2000 * q) ok w w'"
    using erase_bank_erases(1) [OF e n] unfolding r .
  show "erase_works hal \<Longrightarrow> ok" by (rule erase_bank_erases(2) [OF e n])
qed

text \<open>
  Erasing touches nothing but the given range, leaves it erased when it reports success, and
  succeeds for whole pages inside the flash when the driver does.
\<close>

lemma erase_banks_erases:
  assumes "erase_banks hal addr len w = (ok, w')" and "unat addr + unat len < 2 ^ 32"
    and bank2: "erase_args addr len \<Longrightarrow> 0x8100000 \<le> unat addr \<Longrightarrow> page_field hal"
  shows "erases hal (in_range addr (unat len)) ok w w' \<and> (ok \<longrightarrow> erase_args addr len) \<and>
    (erase_works hal \<longrightarrow> erase_args addr len \<longrightarrow> ok)"
proof (cases "erase_args addr len")
  case False
  then have "ok = False" "w' = w" using assms(1) erase_guard [OF assms(2)] by (simp_all add: erase_banks_def)
  then show ?thesis using False by (simp add: erases_def)
next
  case True
  then obtain p n where a: "unat addr = 0x8000000 + 0x2000 * p" and l: "unat len = 0x2000 * n" and pn: "p + n \<le> 256"
  proof -
    have b: "0x8000000 \<le> unat addr" "unat addr + unat len \<le> 0x8200000" using True by (simp_all add: erase_args_def)
    have "0x2000 dvd unat addr - 0x8000000" using True by (simp add: erase_args_def dvd_diff_nat)
    then obtain p where "unat addr - 0x8000000 = 0x2000 * p" by (rule dvdE)
    moreover obtain n where "unat len = 0x2000 * n" using True by (auto simp: erase_args_def elim: dvdE)
    ultimately show thesis using b by (intro that [of p n]) linarith+
  qed
  have endl: "unat (addr + len) = 0x8000000 + 0x2000 * (p + n)" using assms(2) a l by (simp add: unat_word_ariths)
  have R: "in_range addr (unat len) = (\<lambda>a. 0x8000000 + 0x2000 * p \<le> unat a \<and> unat a < 0x8000000 + 0x2000 * (p + n))"
    by (rule ext) (simp add: in_range_def a l algebra_simps)
  have guard: "\<not> (addr < FLASH_BASE \<or> addr + len > FLASH_BASE + FLASH_SIZE hal \<or>
         addr mod FLASH_PAGE_SIZE \<noteq> 0 \<or> len mod FLASH_PAGE_SIZE \<noteq> 0)"
    using True erase_guard [OF assms(2)] by blast
  have "erases hal (in_range addr (unat len)) ok w w' \<and> (erase_works hal \<longrightarrow> ok)"
  proof (cases "p < 128")
    case False
    then have "\<not> addr < FLASH_BASE + FLASH_BANK_SIZE hal" by (simp add: word_less_nat_alt sizes a)
    then have "erase_second_bank hal addr len addr False w = (ok, w')" using assms(1) guard by (simp add: erase_banks_def)
    from second_bank [OF a endl _ _ pn _ this] show ?thesis using False bank2 [OF True] by (simp add: R a)
  next
    case True
    define endAddr where "endAddr = min (addr + len) (FLASH_BASE + FLASH_BANK_SIZE hal)"
    have e: "unat endAddr = 0x8000000 + 0x2000 * min (p + n) 128"
      by (simp add: endAddr_def min_def word_le_nat_alt sizes endl)
    have "addr < FLASH_BASE + FLASH_BANK_SIZE hal" using True by (simp add: word_less_nat_alt sizes a)
    moreover obtain ok1 w1 where
      b: "erase_bank hal FLASH_BANK_1 ((addr - FLASH_BASE) div FLASH_PAGE_SIZE) (erase_pages (endAddr - addr)) w = (ok1, w1)"
      by (rule prod.exhaust)
    ultimately have eb: "(ok, w') = (if \<not> ok1 then (False, w1) else if endAddr = addr + len then (True, w1)
        else erase_second_bank hal addr len endAddr True w1)"
      using assms(1) guard by (simp add: erase_banks_def Let_def endAddr_def [symmetric] split: bool.splits if_splits)
    note f = first_bank [OF a e _ _ True b]
    have part: "0x8000000 + 0x2000 * min (p + n) 128 \<le> 0x8000000 + 0x2000 * (p + n)" by (auto simp: min_def)
    show ?thesis
    proof (cases "ok1 \<and> 128 < p + n")
      case True
      then have "endAddr \<noteq> addr + len" using e endl by auto
      with True eb have "erase_second_bank hal addr len endAddr True w1 = (ok, w')" by simp
      moreover have "unat endAddr = 0x8000000 + 0x2000 * 128" using e True by simp
      ultimately have g: "erases hal (\<lambda>a. 0x8000000 + 0x2000 * 128 \<le> unat a \<and> unat a < 0x8000000 + 0x2000 * (p + n)) ok w1 w'"
          "erase_works hal \<longrightarrow> ok"
        using second_bank [of endAddr 128 addr len "p + n" True w1 ok w'] endl pn True by simp_all
      have f1: "erases hal (\<lambda>a. 0x8000000 + 0x2000 * p \<le> unat a \<and> unat a < 0x8000000 + 0x2000 * 128) True w w1"
        using f(1) True \<open>p < 128\<close> by simp
      have cov: "in_range addr (unat len) a \<longleftrightarrow> 0x8000000 + 0x2000 * p \<le> unat a \<and> unat a < 0x8000000 + 0x2000 * 128 \<or>
          0x8000000 + 0x2000 * 128 \<le> unat a \<and> unat a < 0x8000000 + 0x2000 * (p + n)" for a
        unfolding R using \<open>p < 128\<close> True by auto
      show ?thesis by (intro conjI erases_both [OF f1 g(1) cov] g(2))
    next
      case False
      then have "(ok, w') = (ok1, w1)" using eb e endl by (cases ok1) (auto simp: word_unat_eq_iff min_def split: if_splits)
      then have k: "ok = ok1" "w' = w1" by simp_all
      show ?thesis
      proof (cases ok1)
        case True
        then show ?thesis using f False k by (simp add: R min_def)
      next
        case False
        then have "erases hal (\<lambda>a. 0x8000000 + 0x2000 * p \<le> unat a \<and> unat a < 0x8000000 + 0x2000 * min (p + n) 128) False w w'"
          using f(1) k \<open>p < 128\<close> by simp
        then have "erases hal (in_range addr (unat len)) False w w'"
          by (rule erases_part) (use part in \<open>auto simp: R\<close>)
        then show ?thesis using f(2) k False \<open>p < 128\<close> by auto
      qed
    qed
  qed
  then show ?thesis using True by blast
qed

lemma flashErase_erases:
  assumes "flashErase hal addr len w = (ok, w')" and "unat addr + unat len < 2 ^ 32"
    and bank2: "erase_args addr len \<Longrightarrow> 0x8100000 \<le> unat addr \<Longrightarrow> page_field hal"
  shows "erases hal (in_range addr (unat len)) ok w w' \<and> flash_locked hal w' \<and> (ok \<longrightarrow> erase_args addr len) \<and>
    (erase_works hal \<longrightarrow> erase_args addr len \<longrightarrow> ok)"
proof -
  obtain w1 where b: "erase_banks hal addr len w = (ok, w1)" and w': "w' = (if ok then w1 else HAL_FLASH_Lock hal w1)"
    using assms(1) by (auto simp: flashErase_def split: prod.splits)
  from erase_banks_erases [OF b assms(2) bank2] show ?thesis by (auto simp: w' erases_def lock)
qed

text \<open>The loop over the quad-words writes nothing else, and programs what is erased.\<close>

lemma program_step:
  "\<lbrakk>HAL_FLASH_Program hal (addr + of_nat i) (take 16 (drop i data)) w = (ok, w1); i + 16 \<le> length data\<rbrakk> \<Longrightarrow>
   program_quadwords hal addr data (i # os) w = (if ok then program_quadwords hal addr data os w1 else Some w1)"
  by (simp add: mem_read_ok)

lemma program_frame:
  assumes "\<not> flash_locked hal w" and "\<forall>o' \<in> set os. o' + 16 \<le> length data \<and> unat addr + o' + 16 \<le> 2 ^ 32"
  shows "\<exists>w'. program_quadwords hal addr data os w = Some w' \<and> \<not> flash_locked hal w' \<and>
    (\<forall>a. (\<forall>o' \<in> set os. \<not> in_range (addr + of_nat o') 16 a) \<longrightarrow> flash_mem hal w' a = flash_mem hal w a)"
  using assms
proof (induction os arbitrary: w)
  case (Cons i os)
  then have i: "i + 16 \<le> length data" and r: "length (take 16 (drop i data)) = 16" by auto
  obtain ok w1 where p: "HAL_FLASH_Program hal (addr + of_nat i) (take 16 (drop i data)) w = (ok, w1)" by (rule prod.exhaust)
  note f = program [OF p Cons.prems(1) r]
  show ?case
  proof (cases ok)
    case False
    then show ?thesis using program_step [OF p i] f by (auto intro!: exI [of _ w1])
  next
    case True
    have "\<not> flash_locked hal w1" using f [of 0] by simp
    from Cons.IH [OF this] obtain w' where "program_quadwords hal addr data os w1 = Some w'" "\<not> flash_locked hal w'"
      "\<forall>a. (\<forall>o' \<in> set os. \<not> in_range (addr + of_nat o') 16 a) \<longrightarrow> flash_mem hal w' a = flash_mem hal w1 a"
      using Cons.prems(2) by auto
    then show ?thesis using True program_step [OF p i] f by (auto intro!: exI [of _ w'])
  qed
qed simp

lemma program_writes:
  assumes "\<not> flash_locked hal w" and "\<forall>o' \<in> set os. o' + 16 \<le> length data \<and> unat addr + o' + 16 \<le> 2 ^ 32 \<and> 16 dvd o'"
    and "distinct os" and "16 dvd unat addr" and "program_works hal"
    and "\<forall>o' \<in> set os. \<forall>j<16. flash_mem hal w (addr + of_nat (o' + j)) = 0xFF"
  shows "\<exists>w'. program_quadwords hal addr data os w = Some w' \<and>
    (\<forall>o' \<in> set os. \<forall>j<16. flash_mem hal w' (addr + of_nat (o' + j)) = data ! (o' + j))"
  using assms
proof (induction os arbitrary: w)
  case (Cons i os)
  have at: "unat (addr + of_nat n) = unat addr + n" if "unat addr + n < 2 ^ 32" for n
    using that by (simp add: unat_word_ariths unat_of_nat take_bit_nat_eq_self)
  then have r: "length (take 16 (drop i data)) = 16"
    and i: "i + 16 \<le> length data" "unat addr + i + 16 \<le> 2 ^ 32" "16 dvd i" using Cons.prems(2) by auto
  obtain ok w1 where p: "HAL_FLASH_Program hal (addr + of_nat i) (take 16 (drop i data)) w = (ok, w1)" by (rule prod.exhaust)
  note f = program [OF p Cons.prems(1) r]
  have "16 dvd unat (addr + of_nat i)" using i Cons.prems(4) by (simp add: at)
  moreover have "\<forall>j<16. flash_mem hal w (addr + of_nat i + of_nat j) = 0xFF" using Cons.prems(6) by (simp add: add.assoc)
  ultimately have ok: ok using Cons.prems(1,5) p r unfolding program_works_def by (metis fst_conv)
  have written: "flash_mem hal w1 (addr + of_nat (i + j)) = data ! (i + j)" if "j < 16" for j
  proof -
    have "in_range (addr + of_nat i) 16 (addr + of_nat (i + j))" "unat (addr + of_nat (i + j)) - unat (addr + of_nat i) = j"
      using at [of i] at [of "i + j"] i that by (simp_all add: in_range_def)
    then show ?thesis using f ok that i(1) by simp
  qed
  have other: "\<not> in_range (addr + of_nat o') 16 (addr + of_nat (o'' + j))"
    if "o' \<noteq> o''" "16 dvd o'" "16 dvd o''" "j < 16" "unat addr + o' + 16 \<le> 2 ^ 32" "unat addr + o'' + 16 \<le> 2 ^ 32" for o' o'' j
  proof -
    note d = that
    obtain m n where "o' = 16 * m" "o'' = 16 * n" using d(2,3) by (auto elim!: dvdE)
    then show ?thesis using d at [of o'] at [of "o'' + j"] by (auto simp: in_range_def)
  qed
  have w1: "\<not> flash_locked hal w1" using f [of 0] by simp
  have same: "flash_mem hal w1 (addr + of_nat (o' + j)) = flash_mem hal w (addr + of_nat (o' + j))"
    if "o' \<in> set os" "j < 16" for o' j
    using f other [of i o' j] that Cons.prems(2,3) i by auto
  have "\<forall>o' \<in> set os. \<forall>j<16. flash_mem hal w1 (addr + of_nat (o' + j)) = 0xFF" using same Cons.prems(6) by simp
  then obtain w' where w': "program_quadwords hal addr data os w1 = Some w'"
    "\<forall>o' \<in> set os. \<forall>j<16. flash_mem hal w' (addr + of_nat (o' + j)) = data ! (o' + j)"
    using Cons.IH [OF w1] Cons.prems(2-5) by auto
  have "\<forall>o' \<in> set os. \<not> in_range (addr + of_nat o') 16 (addr + of_nat (i + j))" if "j < 16" for j
  proof
    fix o' assume "o' \<in> set os"
    then show "\<not> in_range (addr + of_nat o') 16 (addr + of_nat (i + j))"
      using Cons.prems(2,3) i that by (intro other) auto
  qed
  then have "flash_mem hal w' (addr + of_nat (i + j)) = data ! (i + j)" if "j < 16" for j
    using program_frame [OF w1, of os data addr] w'(1) written that Cons.prems(2) by auto
  then show ?case using program_step [OF p i(1)] ok w' by auto
qed simp

lemma quadword_bound: "o' \<in> set (quadword_offsets len) \<longleftrightarrow> 16 dvd o' \<and> o' < len"
  by (auto simp: quadword_offsets_def dvd_def less_eq_div_iff_mult_less_eq)

lemma quadwords_cover:
  assumes "unat addr + 16 * ((len + 15) div 16) \<le> 2 ^ 32" and "o' \<in> set (quadword_offsets len)" and "in_range (addr + of_nat o') 16 a"
  shows "in_range addr (16 * ((len + 15) div 16)) a"
proof -
  obtain k where k: "o' = 16 * k" "k < (len + 15) div 16" using assms(2) by (auto simp: quadword_offsets_def)
  then have "unat (addr + of_nat o') = unat addr + o'" using assms(1) by (simp add: unat_word_ariths unat_of_nat take_bit_nat_eq_self)
  then show ?thesis using assms(3) k by (auto simp: in_range_def)
qed

text \<open>Writing touches nothing but the quad-words that the data lie in, and programs them when they are erased.\<close>

lemma flashWrite_facts:
  fixes len :: u32
  defines "n \<equiv> 16 * ((unat len + 15) div 16)"
  assumes "n \<le> length data" and "unat addr + n \<le> 2 ^ 32"
  shows "\<exists>w'. flashWrite hal addr data len w = Some (True, w') \<and> flash_locked hal w' \<and>
    (\<forall>a. \<not> in_range addr n a \<longrightarrow> flash_mem hal w' a = flash_mem hal w a) \<and>
    (program_works hal \<longrightarrow> 16 dvd unat addr \<longrightarrow> (\<forall>i<n. flash_mem hal w (addr + of_nat i) = 0xFF) \<longrightarrow>
      (\<forall>i<n. flash_mem hal w' (addr + of_nat i) = data ! i))"
proof -
  let ?os = "quadword_offsets (unat len)"
  have os: "\<forall>o' \<in> set ?os. o' + 16 \<le> n" by (auto simp: quadword_offsets_def n_def)
  have b: "\<forall>o' \<in> set ?os. o' + 16 \<le> length data \<and> unat addr + o' + 16 \<le> 2 ^ 32"
    using os assms(2,3) by fastforce
  obtain w1 where w1: "program_quadwords hal addr data ?os (HAL_FLASH_Unlock hal w) = Some w1" "\<not> flash_locked hal w1"
    "\<forall>a. (\<forall>o' \<in> set ?os. \<not> in_range (addr + of_nat o') 16 a) \<longrightarrow> flash_mem hal w1 a = flash_mem hal w a"
    using program_frame [OF unlock(2) [of w] b] unlock(1) [of w] by auto
  let ?w = "HAL_FLASH_Lock hal (FLASH_WaitForLastOperation hal w1)"
  have m: "flash_mem hal ?w = flash_mem hal w1" by (simp add: lock wait)
  have frame: "flash_mem hal ?w a = flash_mem hal w a" if "\<not> in_range addr n a" for a
    using w1(3) quadwords_cover [of addr "unat len"] that assms(3) by (auto simp: m n_def)
  have writes: "flash_mem hal ?w (addr + of_nat i) = data ! i"
    if "program_works hal" "16 dvd unat addr" "\<forall>i<n. flash_mem hal w (addr + of_nat i) = 0xFF" "i < n" for i
  proof -
    have "\<forall>o' \<in> set ?os. o' + 16 \<le> length data \<and> unat addr + o' + 16 \<le> 2 ^ 32 \<and> 16 dvd o'"
      using b by (auto simp: quadword_offsets_def)
    moreover have "distinct ?os" by (simp add: quadword_offsets_def distinct_map inj_on_def)
    moreover have "\<forall>o' \<in> set ?os. \<forall>j<16. flash_mem hal (HAL_FLASH_Unlock hal w) (addr + of_nat (o' + j)) = 0xFF"
      using os that(3) unlock(1) by (metis add_less_mono1 less_le_trans nat_add_left_cancel_less)
    ultimately have all: "\<forall>o' \<in> set ?os. \<forall>j<16. flash_mem hal w1 (addr + of_nat (o' + j)) = data ! (o' + j)"
      using program_writes [OF unlock(2) [of w] _ _ that(2,1), of ?os data] w1(1) by auto
    have "16 * (i div 16) \<in> set ?os" using that(4) by (auto simp: quadword_offsets_def n_def)
    from all [rule_format, OF this, of "i mod 16"] show ?thesis by (simp add: m)
  qed
  show ?thesis using w1(1) frame writes by (auto simp: flashWrite_def lock)
qed

end

section \<open>A part without faults\<close>

record nor =
  nor_mem :: "u32 \<Rightarrow> u8"
  nor_locked :: bool

definition nor_hal :: "nor flash_hal" where
  "nor_hal = \<lparr>FLASH_SIZE = 0x200000,
     HAL_FLASH_Unlock = (\<lambda>w. w\<lparr>nor_locked := False\<rparr>),
     HAL_FLASH_Lock = (\<lambda>w. w\<lparr>nor_locked := True\<rparr>),
     HAL_FLASHEx_Erase = (\<lambda>bank page n w. if nor_locked w then (False, w)
       else (True, w\<lparr>nor_mem := \<lambda>a. if in_pages bank (page mod 128) n a then 0xFF else nor_mem w a\<rparr>)),
     HAL_FLASH_Program = (\<lambda>addr qw w.
       if nor_locked w \<or> unat addr mod 16 \<noteq> 0 \<or> length qw \<noteq> 16 \<or> (\<exists>i\<in>{0..<16}. nor_mem w (addr + of_nat i) \<noteq> 0xFF)
       then (False, w)
       else (True, w\<lparr>nor_mem := \<lambda>a. if in_range addr 16 a then qw ! (unat a - unat addr) else nor_mem w a\<rparr>)),
     FLASH_WaitForLastOperation = (\<lambda>w. w), flash_mem = nor_mem, flash_locked = nor_locked\<rparr>"

lemma in_pages_field: "unat page + unat n \<le> 128 \<Longrightarrow> in_pages bank (page mod 128) n a = in_pages bank page n a"
  by (cases "n = 0") (auto simp: in_pages_def unat_mod_distrib word_unat_eq_iff)

interpretation nor: flash_device nor_hal
  by unfold_locales (auto simp: nor_hal_def in_pages_field split: if_splits)

lemma nor_sel: "flash_mem nor_hal = nor_mem" "flash_locked nor_hal = nor_locked"
  by (simp_all add: nor_hal_def)

lemma nor_works: "erase_works nor_hal" "program_works nor_hal"
  by (auto simp: nor_hal_def erase_works_def program_works_def)

lemma nor_page_field: "page_field nor_hal"
proof -
  have "(page - 128) mod 128 = page mod 128" if "128 \<le> unat page" for page :: u32
    using that by (simp add: word_unat_eq_iff unat_mod_distrib unat_sub word_le_nat_alt le_mod_geq)
  then show ?thesis by (simp add: page_field_def nor_hal_def)
qed

section \<open>The areas\<close>

lemma area_cases: "area \<in> set s_flash_areas \<longleftrightarrow> area = bootloader \<or> area = primary_img0 \<or> area = secondary_img0 \<or> area = scratch_area"
  by (auto simp: s_flash_areas_def)

lemmas area_defs = bootloader_def primary_img0_def secondary_img0_def scratch_area_def SCRATCH_START_ADDRESS_def
  APPLICATION_SECONDARY_START_ADDRESS_def APPLICATION_PRIMARY_START_ADDRESS_def BOOTLOADER_START_ADDRESS_def
  BOOTLOADER_SIZE_def APP_SIZE_def SCRATCH_SIZE_def

lemma area_facts:
  assumes "area \<in> set s_flash_areas"
  shows "fa_device_id area = FLASH_DEVICE_INTERNAL_FLASH" "unat (fa_off area) + unat (fa_size area) \<le> 0x200000"
    "0x2000 dvd unat (fa_off area)" "0x2000 dvd unat (fa_size area)" "prv_lookup_flash_area (fa_id area) = Some area"
  using assms unfolding area_cases
  by (auto simp: area_defs prv_lookup_flash_area_def s_flash_areas_def FLASH_AREA_BOOTLOADER_def
      FLASH_AREA_IMAGE_PRIMARY_def FLASH_AREA_IMAGE_SECONDARY_def FLASH_AREA_IMAGE_SCRATCH_def)

text \<open>
  The areas lie one behind the other and fill the flash, and the sectors of an area fill the area.
\<close>

lemma areas_fill_flash:
  "map fa_off s_flash_areas = [0, 0xC000, 0xFE000, 0x1F0000]"
  "map (\<lambda>area. unat (fa_off area) + unat (fa_size area)) s_flash_areas = [0xC000, 0xFE000, 0x1F0000, 0x200000]"
  by (simp_all add: s_flash_areas_def area_defs)

lemma sectors_fill_area:
  assumes "area \<in> set s_flash_areas"
  shows "\<exists>sectors. flash_area_get_sectors (uint (fa_id area)) = Some (0, sectors) \<and>
     (\<forall>i < length sectors. unat (fs_off (sectors ! i)) = 0x2000 * i \<and> fs_size (sectors ! i) = 0x2000) \<and>
     0x2000 * length sectors = unat (fa_size area)"
proof -
  obtain k where k: "unat (fa_size area) = 0x2000 * k" using area_facts(4) [OF assms] by (rule dvdE)
  then have le: "k \<le> 256" using area_facts(2) [OF assms] by simp
  have n: "(unat (fa_size area) + unat FLASH_PAGE_SIZE - 1) div unat FLASH_PAGE_SIZE = k"
    by (simp add: k FLASH_PAGE_SIZE_def)
  have "unat (of_nat i * FLASH_PAGE_SIZE) = 0x2000 * i" if "i < k" for i
    using that le by (simp add: FLASH_PAGE_SIZE_def unat_word_ariths unat_of_nat take_bit_nat_eq_self)
  moreover have "prv_lookup_flash_area (of_int (uint (fa_id area))) = Some area" using area_facts(5) [OF assms] by simp
  ultimately show ?thesis
    by (simp add: flash_area_get_sectors_def area_facts(1) [OF assms] n k) (simp add: FLASH_PAGE_SIZE_def)
qed

text \<open>An area in the address space: the code's arithmetic of addresses does not wrap.\<close>

lemma area_address:
  assumes "area \<in> set s_flash_areas" and "unat off + unat (fa_off area) < 2 ^ 31"
  shows "unat (FLASH_OFFSET + fa_off area + off) = 0x8000000 + unat (fa_off area) + unat off"
  using assms(2) area_facts(2) [OF assms(1)] by (simp add: FLASH_OFFSET_def unat_word_ariths)

lemma mem_bytes_eq: "mem_bytes m addr n = take n src \<longleftrightarrow> (\<forall>i<n. m (addr + of_nat i) = src ! i)" if "n \<le> length src"
  using that by (auto simp: mem_bytes_def list_eq_iff_nth_eq)

section \<open>What the flash promises\<close>

text \<open>
  C32: for a range that does not wrap around the 32-bit address space, erasing touches nothing but
  the pages it is asked for, on either side of the boundary of the two banks and across it, reports
  success only when all of them are erased, refuses ranges that are not whole pages inside the
  flash, succeeds otherwise unless the driver fails, and always leaves the control register locked.
  A range that starts in the second bank needs a driver that takes its page numbers modulo 128.
  What happens to a range that wraps around is \<open>wrapping_range_accepted\<close> below.
\<close>

theorem flash_erase_exact:
  assumes "flash_device hal" and "flashErase hal addr len w = (ok, w')" and "unat addr + unat len < 2 ^ 32"
    and "\<lbrakk>erase_args addr len; 0x8100000 \<le> unat addr\<rbrakk> \<Longrightarrow> page_field hal"
  shows "flash_locked hal w' \<and>
     (\<forall>a. \<not> in_range addr (unat len) a \<longrightarrow> flash_mem hal w' a = flash_mem hal w a) \<and>
     (ok \<longrightarrow> erase_args addr len \<and> (\<forall>a. in_range addr (unat len) a \<longrightarrow> flash_mem hal w' a = 0xFF)) \<and>
     (erase_works hal \<longrightarrow> (ok \<longleftrightarrow> erase_args addr len))"
  using flash_device.flashErase_erases [OF assms(1-4)] by (auto simp: erases_def)

theorem flash_erase_exact_witness:
  "\<exists>w'. flashErase nor_hal 0x80FE000 0x4000 \<lparr>nor_mem = \<lambda>_. 7, nor_locked = True\<rparr> = (True, w') \<and> nor_locked w' \<and>
     nor_mem w' 0x80FE000 = 0xFF \<and> nor_mem w' 0x8101FFF = 0xFF \<and> nor_mem w' 0x80FDFFF = 7 \<and> nor_mem w' 0x8102000 = 7"
proof -
  let ?w = "\<lparr>nor_mem = \<lambda>_. 7, nor_locked = True\<rparr>"
  obtain ok w' where e: "flashErase nor_hal 0x80FE000 0x4000 ?w = (ok, w')" by (rule prod.exhaust)
  have "erase_args 0x80FE000 0x4000" by (simp add: erase_args_def)
  with flash_erase_exact [OF nor.flash_device_axioms e _ nor_page_field] nor_works(1) show ?thesis
    by (intro exI [of _ w']) (simp add: e in_range_def nor_sel)
qed

text \<open>
  C33: a write to an area, of a range that does not wrap around and from a buffer that can be read
  up to the next multiple of 16 bytes, answers 0 only when the range lies inside the area and the
  data can be read back from it, touches nothing but the quad-words the data lie in, and answers 0
  when they are erased, aligned and the driver works; a range that reaches beyond the area is
  refused and nothing changes.  (A range that does wrap around can be accepted, see
  \<open>area_read_wraps\<close> and \<open>area_write_wraps\<close> below.)
\<close>

theorem area_write_verified:
  assumes "flash_device hal" and "area \<in> set s_flash_areas" and "unat off + unat len < 2 ^ 32"
    and "16 * ((unat len + 15) div 16) \<le> length src"
  defines "start \<equiv> FLASH_OFFSET + fa_off area + off" and "n \<equiv> 16 * ((unat len + 15) div 16)"
  shows "\<exists>rc w'. flash_area_write hal area off src len w = Some (rc, w') \<and>
     (rc = 0 \<longrightarrow> unat off + unat len \<le> unat (fa_size area) \<and> flash_area_read hal area off len w' = (0, take (unat len) src)) \<and>
     (\<forall>a. \<not> in_range start n a \<longrightarrow> flash_mem hal w' a = flash_mem hal w a) \<and>
     (unat (fa_size area) < unat off + unat len \<longrightarrow> rc = -1 \<and> w' = w) \<and>
     (unat off + unat len \<le> unat (fa_size area) \<and> 16 dvd unat off \<and> program_works hal \<and>
       (\<forall>i<n. flash_mem hal w (start + of_nat i) = 0xFF) \<longrightarrow> rc = 0)"
proof -
  have dev: "fa_device_id area = FLASH_DEVICE_INTERNAL_FLASH" and bound: "unat (fa_off area) + unat (fa_size area) \<le> 0x200000"
    and al: "16 dvd unat (fa_off area)"
    using area_facts [OF assms(2)] by (auto intro: dvd_trans [rotated])
  have sum: "unat (off + len) = unat off + unat len" using assms(3) by (simp add: unat_word_ariths)
  show ?thesis
  proof (cases "unat off + unat len \<le> unat (fa_size area)")
    case False
    then show ?thesis by (simp add: flash_area_write_def dev word_less_nat_alt sum)
  next
    case True
    have a: "unat start = 0x8000000 + unat (fa_off area) + unat off"
      unfolding start_def by (rule area_address [OF assms(2)]) (use True bound in simp)
    have nlen: "unat len \<le> n" "n \<le> unat len + 15" unfolding n_def by simp_all
    then have b: "unat start + n \<le> 2 ^ 32" using a True bound by simp
    from flash_device.flashWrite_facts [OF assms(1) assms(4) b [unfolded n_def], of w] obtain w' where
      w': "flashWrite hal start src len w = Some (True, w')" "\<forall>a. \<not> in_range start n a \<longrightarrow> flash_mem hal w' a = flash_mem hal w a"
      "program_works hal \<longrightarrow> 16 dvd unat start \<longrightarrow> (\<forall>i<n. flash_mem hal w (start + of_nat i) = 0xFF) \<longrightarrow>
        (\<forall>i<n. flash_mem hal w' (start + of_nat i) = src ! i)" unfolding n_def by blast
    let ?same = "mem_bytes (flash_mem hal w') start (unat len) = take (unat len) src"
    have len: "unat len \<le> length src" using assms(4) nlen(1) by (simp add: n_def)
    have wr: "flash_area_write hal area off src len w = Some (if ?same then 0 else -1, w')"
      using True len by (simp add: flash_area_write_def dev word_less_nat_alt sum w'(1) mem_read_def start_def [symmetric])
    have rd: "flash_area_read hal area off len w' = (0, mem_bytes (flash_mem hal w') start (unat len))"
      using True by (simp add: flash_area_read_def dev word_less_nat_alt sum start_def)
    have "16 dvd unat off \<Longrightarrow> 16 dvd unat start" using al a by simp
    then have "?same" if "16 dvd unat off" "program_works hal" "\<forall>i<n. flash_mem hal w (start + of_nat i) = 0xFF"
      using w'(3) that nlen(1) by (subst mem_bytes_eq [OF len]) auto
    then show ?thesis using wr rd w'(2) True by auto
  qed
qed

theorem area_write_verified_witness:
  "\<exists>w'. flash_area_write nor_hal secondary_img0 0x20 [1, 2, 3, 4, 5, 6, 7, 8, 9, 10, 11, 12, 13, 14, 15, 16] 16
       \<lparr>nor_mem = \<lambda>_. 0xFF, nor_locked = True\<rparr> = Some (0, w') \<and>
     flash_area_read nor_hal secondary_img0 0x20 16 w' = (0, [1, 2, 3, 4, 5, 6, 7, 8, 9, 10, 11, 12, 13, 14, 15, 16])"
proof -
  have "secondary_img0 \<in> set s_flash_areas" by (simp add: area_cases)
  moreover have "unat (fa_size secondary_img0) = 0xF2000" by (simp add: area_defs)
  ultimately show ?thesis
    using area_write_verified [OF nor.flash_device_axioms, where area = secondary_img0 and off = "0x20" and len = 16 and
      src = "[1, 2, 3, 4, 5, 6, 7, 8, 9, 10, 11, 12, 13, 14, 15, 16]" and w = "\<lparr>nor_mem = \<lambda>_. 0xFF, nor_locked = True\<rparr>"] nor_works(2)
    by (fastforce simp: nor_sel)
qed

text \<open>
  C34: the erase entry of the areas checks the alignment of the range but not that it lies in the
  area: every range of whole pages inside the flash is erased, also beyond the end of the area, where
  the next area begins.  A range that starts in the second bank needs a driver that takes its page
  numbers modulo 128.
\<close>

theorem area_erase_unbounded:
  assumes "flash_device hal" and "erase_works hal" and "area \<in> set s_flash_areas"
    and "0x2000 dvd unat off" and "0x2000 dvd unat len" and "unat (fa_off area) + unat off + unat len \<le> 0x200000"
    and "0x100000 \<le> unat (fa_off area) + unat off \<Longrightarrow> page_field hal"
  defines "start \<equiv> FLASH_OFFSET + fa_off area + off"
  shows "\<exists>w'. flash_area_erase hal area off len w = (0, w') \<and>
     (\<forall>a. flash_mem hal w' a = (if in_range start (unat len) a then 0xFF else flash_mem hal w a))"
proof -
  obtain ok w' where e: "flashErase hal start len w = (ok, w')" by (rule prod.exhaust)
  have a: "unat start = 0x8000000 + unat (fa_off area) + unat off"
    unfolding start_def by (rule area_address [OF assms(3)]) (use assms(6) in simp)
  have "unat start + unat len < 2 ^ 32" using a assms(6) by simp
  moreover have "page_field hal" if "0x8100000 \<le> unat start" using that assms(7) by (simp add: a)
  ultimately have f: "erases hal (in_range start (unat len)) ok w w' \<and> flash_locked hal w' \<and>
      (ok \<longrightarrow> erase_args start len) \<and> (erase_works hal \<longrightarrow> erase_args start len \<longrightarrow> ok)"
    using flash_device.flashErase_erases [OF assms(1) e] by blast
  have "0x2000 dvd unat start" unfolding a using assms(4) area_facts(3) [OF assms(3)] by (intro dvd_add) simp_all
  then have "erase_args start len" using a assms(5,6) by (simp add: erase_args_def)
  then have ok: ok and r: "erases hal (in_range start (unat len)) True w w'" using f assms(2) by auto
  have "unat (start + of_nat i) = unat start + i" if "i < unat len" for i
    using that a assms(6) by (simp add: unat_word_ariths unat_of_nat take_bit_nat_eq_self)
  then have "list_all (\<lambda>val. val = flash_area_erased_val area) (mem_bytes (flash_mem hal w') start (unat len))"
    using r by (auto simp: mem_bytes_def list_all_iff erases_def in_range_def flash_area_erased_val_def)
  moreover have "len mod FLASH_PAGE_SIZE = 0" "off mod FLASH_PAGE_SIZE = 0" using assms(4,5) by (simp_all add: page_aligned)
  ultimately have "flash_area_erase hal area off len w = (0, w')"
    using e ok by (simp add: flash_area_erase_def area_facts(1) [OF assms(3)] Let_def start_def [symmetric])
  then show ?thesis using r by (auto simp: erases_def)
qed

theorem area_erase_unbounded_witness:
  "\<exists>w'. flash_area_erase nor_hal primary_img0 0xF2000 0x2000 \<lparr>nor_mem = \<lambda>_. 7, nor_locked = True\<rparr> = (0, w') \<and>
     flash_area_read nor_hal secondary_img0 0 1 w' = (0, [0xFF])"
proof -
  have p: "primary_img0 \<in> set s_flash_areas" by (simp add: area_cases)
  have o: "unat (fa_off primary_img0) = 0xC000" "FLASH_OFFSET + fa_off primary_img0 + 0xF2000 = 0x80FE000"
    "FLASH_OFFSET + fa_off secondary_img0 = 0x80FE000" "fa_size secondary_img0 = 0xF2000" "fa_device_id secondary_img0 = 0"
    by (simp_all add: area_defs FLASH_OFFSET_def FLASH_DEVICE_INTERNAL_FLASH_def)
  obtain w' where "flash_area_erase nor_hal primary_img0 0xF2000 0x2000 \<lparr>nor_mem = \<lambda>_. 7, nor_locked = True\<rparr> = (0, w')"
    "nor_mem w' 0x80FE000 = 0xFF"
    using area_erase_unbounded [OF nor.flash_device_axioms nor_works(1) p _ _ _ nor_page_field, where off = "0xF2000" and len = "0x2000" and
      w = "\<lparr>nor_mem = \<lambda>_. 7, nor_locked = True\<rparr>"]
    by (auto simp: o nor_sel in_range_def)
  then show ?thesis
    by (auto simp: flash_area_read_def o mem_bytes_def nor_sel FLASH_DEVICE_INTERNAL_FLASH_def)
qed

section \<open>Where the guards fall short\<close>

text \<open>
  The end of a range is computed modulo \<open>2 ^ 32\<close>: a range that wraps is accepted although it starts
  beyond the area.
\<close>

lemma area_read_wraps:
  assumes "area \<in> set s_flash_areas" and "2 ^ 32 \<le> unat off + unat len" and "unat off + unat len - 2 ^ 32 \<le> unat (fa_size area)"
  shows "fst (flash_area_read hal area off len w) = 0 \<and> unat (fa_size area) < unat off + unat len"
proof -
  have "unat off < 2 ^ LENGTH(32)" "unat len < 2 ^ LENGTH(32)" by (rule unsigned_less)+
  then have "unat off + unat len - 2 ^ 32 < 2 ^ 32" by simp
  then have "unat (off + len) = unat off + unat len - 2 ^ 32"
    using assms(2) by (simp add: unat_word_ariths le_mod_geq)
  then show ?thesis
    using assms area_facts(1,2) [OF assms(1)] by (simp add: flash_area_read_def word_less_nat_alt)
qed

text \<open>
  A write of such a range gets past the check as well: it is programmed at an address beyond the
  area, and answers 0 when it can be read back from there.
\<close>

lemma area_write_wraps:
  assumes "area \<in> set s_flash_areas" and "2 ^ 32 \<le> unat off + unat len" and "unat off + unat len - 2 ^ 32 \<le> unat (fa_size area)"
    and "flashWrite hal (FLASH_OFFSET + fa_off area + off) src len w = Some (True, w')"
    and "mem_read src 0 (unat len) = Some (mem_bytes (flash_mem hal w') (FLASH_OFFSET + fa_off area + off) (unat len))"
  shows "flash_area_write hal area off src len w = Some (0, w')"
  using area_read_wraps [OF assms(1-3), of hal w] assms(4,5) area_facts(1) [OF assms(1)]
  by (auto simp: flash_area_read_def flash_area_write_def simp del: mem_read_Some split: if_splits)

text \<open>
  An erase of a range that wraps around gets past the check of the end of the flash, when it starts
  in the first bank on the boundary of a page: the driver is asked for more pages than a bank has,
  and the answer is the driver's.
\<close>

lemma wrapping_range_accepted:
  assumes "FLASH_SIZE hal = 0x200000" and "0x8000000 \<le> unat addr" and "unat addr < 0x8100000"
    and "0x2000 dvd unat addr" and "0x2000 dvd unat len" and wrap: "2 ^ 32 \<le> unat addr + unat len"
  shows "flashErase hal addr len w =
      (case HAL_FLASHEx_Erase hal FLASH_BANK_1 ((addr - FLASH_BASE) div FLASH_PAGE_SIZE)
              (len div FLASH_PAGE_SIZE) (HAL_FLASH_Unlock hal w) of (ok, w) \<Rightarrow> (ok, HAL_FLASH_Lock hal w))
    \<and> 128 < unat (len div FLASH_PAGE_SIZE)"
proof -
  have len: "unat len < 2 ^ 32" using unsigned_less [of len] by simp
  then have e: "unat (addr + len) = unat addr + unat len - 2 ^ 32"
    using assms(3) wrap by (simp add: unat_word_ariths le_mod_geq)
  have s: "unat (FLASH_BASE + FLASH_SIZE hal) = 0x8200000" "unat (FLASH_BASE + FLASH_BANK_SIZE hal) = 0x8100000"
    "unat FLASH_BASE = 0x8000000" by (simp_all add: FLASH_BASE_def FLASH_BANK_SIZE_def assms(1))
  have guard: "\<not> (addr < FLASH_BASE \<or> addr + len > FLASH_BASE + FLASH_SIZE hal \<or>
         addr mod FLASH_PAGE_SIZE \<noteq> 0 \<or> len mod FLASH_PAGE_SIZE \<noteq> 0)"
    using assms len unfolding word_less_nat_alt s page_aligned e by simp
  have m: "min (addr + len) (FLASH_BASE + FLASH_BANK_SIZE hal) = addr + len"
  proof -
    have "unat addr + unat len - 2 ^ 32 \<le> 0x8100000" using assms(3) len by linarith
    then show ?thesis by (simp add: min_def word_le_nat_alt s e)
  qed
  have bank1: "addr < FLASH_BASE + FLASH_BANK_SIZE hal" using assms(3) by (simp add: word_less_nat_alt s)
  have n: "erase_pages len = len div FLASH_PAGE_SIZE" using assms(5) by (simp add: erase_pages_def page_aligned)
  have "unat (len div FLASH_PAGE_SIZE) = unat len div 0x2000" by (simp add: unat_div_distrib FLASH_PAGE_SIZE_def)
  moreover have "0x2000 * 129 \<le> unat len" using assms(3) wrap by simp
  ultimately have "128 < unat (len div FLASH_PAGE_SIZE)" by simp
  moreover have "flashErase hal addr len w =
      (case HAL_FLASHEx_Erase hal FLASH_BANK_1 ((addr - FLASH_BASE) div FLASH_PAGE_SIZE)
              (len div FLASH_PAGE_SIZE) (HAL_FLASH_Unlock hal w) of (ok, w) \<Rightarrow> (ok, HAL_FLASH_Lock hal w))"
    using guard bank1
    by (simp add: flashErase_def erase_banks_def erase_bank_def Let_def m n split: prod.splits bool.splits)
  ultimately show ?thesis by blast
qed

text \<open>The last quad-word is always copied whole: data of its own length must be a multiple of 16 bytes.\<close>

lemma short_write_over_reads: "\<lbrakk>0 < unat len; length data < 16\<rbrakk> \<Longrightarrow> flashWrite hal addr data len w = None"
  by (simp add: flashWrite_def quadword_offsets_def upt_rec mem_read_def)

end
