(* ===== verification/Spec2Isabelle.thy ===== *)
theory Spec2Isabelle
  imports Bm_Prelude Mac_Queue Oa_Codec Mac_Types Oa_Protocol Adi_Hal Oa_Tx Oa_Rx Oa_Rx_Loop
    Adin_Regs Oa_Machine Oa_Run Mac_Regs
    Mac_Api Mac_Config Mac_Time Phy Phy_Diag Dyn_Table Adin2111 Adin2111_Ctl
    Oa_Device Adin_Chip Mac_Client Mac_Props Mac_Setup Adin_Client Adin_Flood Mac_Mdio Phy_Client Phy_Bringup Adin_Phys Adin_Ports Adin_Init Mac_Total Mac_Waits Oa_Link Mac_Link Util_Time Util_Str Prot_I2c Pca9535 Stm32_Rtc Stm32_Flash
begin

text \<open>
  Bristlemouth nodes are connected by 10BASE-T1L Ethernet through an ADIN2111 switch, which the
  firmware drives over SPI.  This development models the C code of that driver
  (\<open>src/src/lib/drivers/adin2111\<close>) from the composition of the SPI transactions up to the entries the
  network stack calls, and beside it the I/O expander with the I2C bus below it, the real time clock
  with the uptime, the internal flash with the areas of the boot loader, and the common utilities
  (\<open>src/src/lib/drivers\<close>, \<open>src/src/lib/mcuboot\<close>, \<open>src/src/lib/common\<close>).  Definitions carry the names of the C
  functions and follow them branch by branch; paths below are relative to these directories.

  \<^bold>\<open>The program and its theories.\<close>

  \<^item> \<open>Bm_Prelude\<close>: byte buffers whose checked copies are \<open>None\<close> outside their bounds, and the monad
    \<open>io\<close> of the register drivers: a state and a world go in, and \<open>None\<close> (undefined behaviour or no
    return), or an error of \<open>adi_eth_Result_e\<close> or a value with the new state and world come out.
  \<^item> Frames wait in rings (\<open>Mac_Queue\<close>: \<open>adi_mac_Queue_t\<close> of \<open>adi_mac.h\<close>).  \<open>Mac_Types\<close> is the state
    of the MAC driver, \<open>adi_mac_Device_t\<close>, with the frame buffers by number (\<open>mac_state\<close>); an
    application callback is an event in the log \<open>m_events\<close>, in the order of the calls.
  \<^item> \<open>Oa_Codec\<close> has the bit layouts of \<open>adi_spi_oa.h\<close> and the protected control transactions of
    \<open>adi_spi_oa.c\<close>; \<open>Oa_Tx\<close> composes a data transaction (\<open>oaSpiProcess\<close>, \<open>oaCreateNextChunk\<close>),
    \<open>Oa_Rx\<close> and \<open>Oa_Rx_Loop\<close> take the received chunks apart, and \<open>Oa_Machine\<close> is \<open>oaStateMachine\<close>, state
    by state; \<open>Oa_Run\<close> is about its runs.  \<open>Oa_Protocol\<close> is the reference, a decoder of the OPEN
    Alliance data chunks that shares no definition with the driver.
  \<^item> \<open>Adi_Hal\<close> is what lies below: the frame check sequence and the cut of a transaction into DMA
    transfers (\<open>adi_hal.c\<close>, \<open>adi_bsp.c\<close>).
  \<^item> \<open>Adin_Regs\<close> has the constants of the register headers; \<open>Mac_Regs\<close> register access, the MDIO bridge and the
    waiting loops; \<open>Mac_Api\<close>, \<open>Mac_Config\<close> and \<open>Mac_Time\<close> the entries of \<open>adi_mac.c\<close>.
  \<^item> \<open>Phy\<close> and \<open>Phy_Diag\<close> are \<open>adi_phy.c\<close>, over the two functions for register access it is given.
  \<^item> \<open>Dyn_Table\<close>, \<open>Adin2111\<close> and \<open>Adin2111_Ctl\<close> are \<open>adin2111.c\<close>: the forwarding table, and the switch with one
    MAC driver and two PHY drivers that reach their registers through its MDIO bridge.
  \<^item> \<open>Util_Time\<close> and \<open>Util_Str\<close> are \<open>util.c\<close>, \<open>tokenize.c\<close> and \<open>enumToStr.c\<close>; \<open>Prot_I2c\<close> is
    \<open>protected_i2c.c\<close> with the flags of \<open>lpm_u5.c\<close>, and \<open>Pca9535\<close> the I/O expander \<open>pca9535.c\<close> on top of it.
  \<^item> \<open>Stm32_Rtc\<close> is the clock driver \<open>stm32_rtc.c\<close> over the bits of the calendar registers (\<open>rtc_regs\<close>), with
    the vendor functions that write and read them, and \<open>uptime.c\<close>; \<open>Stm32_Flash\<close> is \<open>stm32_flash_u5.c\<close> and the
    flash areas of \<open>port_flash.c\<close>, with the sizes that \<open>CMakeLists.txt\<close> gives them.

  \<^bold>\<open>Contracts.\<close>  The device is a parameter: the world \<open>'e\<close> and the functions of \<open>adi_hal\<close>.  What the
  drivers rely on are locales, each extending the one before and each with an interpretation on the
  model's own functions or on a concrete device.

  \<^item> \<open>fifo\<close> is a bounded queue; the ring of the driver satisfies it (\<open>ring\<close>).
  \<^item> \<open>oa_device\<close> answers protected control transactions, with arbitrary effects of reading and writing
    (in \<open>Oa_Device\<close>, where \<open>mac_call\<close> is the total-correctness triple of routines over it);
    \<open>oa_regfile\<close> has registers that hold what is written, \<open>oa_bringup\<close> identifies itself and reports its
    reset, and \<open>clock_regfile\<close> has a clock that runs unless its rate is 0 and can be loaded only while it stands
    still.  \<open>oa_mdio\<close> carries out MDIO commands; \<open>oa_waking\<close> has two PHYs behind them, whose laws hold once they
    are out of reset, and \<open>oa_phys\<close> is that contract for a switch that is up.  \<open>adin_device\<close> is the whole switch:
    after a reset its PHYs are asleep for a while, PHY 2 last, and PHY 2 reads as 0 until then.  \<open>Adin_Chip\<close> is a device
    for the first of these (\<open>chip\<close>), \<open>tick\<close> in \<open>Mac_Setup\<close> adds the clock, \<open>late\<close> in \<open>Adin_Init\<close> PHYs that wake late, and \<open>zero\<close>
    in \<open>Mac_Waits\<close> answers every read with zero.
  \<^item> \<open>phy_registers\<close>, \<open>phy_regfile\<close> and \<open>phy_bringup\<close> are the contract of the functions the PHY driver is
    given, with laws from the end of the reset of the PHY on; a sublocale shows that the MAC driver provides them on
    \<open>oa_waking\<close>.
  \<^item> \<open>flash_device\<close> is the contract of the vendor driver of the flash, for page numbers within a bank as its
    documentation asks; \<open>nor_hal\<close> is a part without faults.

  Some properties rest on more, in hypotheses of their own.

  \<^item> Receive buffers: \<open>link_conforms\<close> is the protocol, and \<open>link_buffered\<close> says that a transaction brings no more
    frames than receive buffers are queued.  The second is a matter of timing that the protocol does not promise;
    \<open>link_keeps_frames\<close>, \<open>link_drains\<close> and \<open>receive_delivers_decoded_frames\<close> hold under it.  Without it the driver
    follows the descriptor of a queue slot that is not in use, a null pointer when the slot was never filled:
    \<open>link_progress\<close> has both cases.
  \<^item> Transfers: \<open>spi_counted\<close> is a peripheral that moves up to 1023 bytes in a transfer, one byte after the other;
    nothing is said about longer ones.
  \<^item> Pages of the second bank: the driver counts them from the start of the flash and so passes 128 and more
    to a vendor function documented for 0 to 127.  Erasing that starts in the second bank is shown for a part
    that uses the number modulo 128 (\<open>page_field\<close>), which the width of the register field suggests.
  \<^item> Ranges of the flash that wrap around the 32-bit address space are outside \<open>flash_erase_exact\<close> and
    \<open>area_write_verified\<close>: the code accepts some of them (\<open>wrapping_range_accepted\<close>, \<open>area_read_wraps\<close>, \<open>area_write_wraps\<close>).
    A write also needs a source buffer that can be read up to the next multiple of 16 bytes.

  \<^bold>\<open>What is shown.\<close>

  \<^item> Data path: a composed transaction decodes to the queued frames and respects the credits of the
    device, and the receive loop hands on exactly the frames the decoder finds (\<open>Oa_Tx\<close>, \<open>Oa_Rx_Loop\<close>); a frame
    that starts inside a chunk loses its port.  The rings are first-in first-out queues.
  \<^item> Data path, both directions together: \<open>Oa_Link\<close> has a step relation \<open>link_step\<close> with a rule for every kind of
    step of the application, the interrupt, the state machine and the device, in any order.  In every
    reachable state what the device has decoded and what is still queued are the frames submitted, what the
    application was handed are the frames the device sent, and the driver is not stuck, while frames do not
    outnumber the receive buffers; with a device that grants credits everything submitted arrives.  \<open>Mac_Link\<close> runs
    \<open>MAC_SubmitTxBuffer\<close> against a device that grants a credit in every answer and has nothing to say itself.
  \<^item> Coding: headers, parity, protected transactions and their detection of changed bytes, the
    equality of the table-driven check sequence with the division of IEEE 802.3, and
    that cutting a transaction into transfers is invisible.
  \<^item> Control path: \<open>Mac_Props\<close>, \<open>Mac_Setup\<close>, \<open>Adin_Client\<close> and \<open>Adin_Ports\<close> show what the configuration entries
    leave in the registers and read back; \<open>Mac_Client\<close>, \<open>Phy_Bringup\<close> and \<open>Adin_Init\<close> that MAC, PHY and switch
    come up, with the wait for PHY 2 on the way; \<open>Mac_Total\<close> and \<open>Mac_Waits\<close> that every wait is bounded whatever the device answers, and what it decides.
    \<open>Adin_Flood\<close> is about frames for both ports.
  \<^item> Forwarding table: over any history of learning, ageing and clearing a lookup answers as a table
    of the last port heard would, while there are no more addresses than entries (\<open>Dyn_Table\<close>).
  \<^item> Utilities: conversions of dates are inverse to each other, remaining time is right across a
    wrap-around, the tokenizer yields the pieces of its line and returns for lines its index can
    count only, and an interrupt of the I/O expander that finds a changed input reports all pins changed since the last read.
  \<^item> Clock and flash: the clock reads back what it was set to, its microseconds are the times of the
    utilities, its drift check compares to the microsecond, and the uptime follows it.  Erasing and writing touch nothing but their
    range, unless it wraps around, and report success only when it is done; erasing does not stop at the end of an area.

  \<^bold>\<open>Bounds and fuel.\<close>  Machine integers are words of their width.  Loops of the code with a counter
  recurse on that counter: 25000 reads for the device identity and for its reset, 200 for the
  PHY, eleven for an MDIO command.  The loops without such a bound, that of the state machine and that of the tokenizer, are
  partial functions whose value is \<open>None\<close> when they do not return; \<open>Mac_Total\<close> shows that the machine
  returns from control accesses whatever the device answers.  The sum over the
  transmit queue in \<open>Oa_Tx\<close> has as fuel the number of slots, which is enough on well-formed queues.

  \<^bold>\<open>Not modelled.\<close>  The configuration is the one compiled in: OPEN Alliance protocol with protection.
  Interrupt handlers run between the calls of an entry, not inside them (in \<open>Oa_Link\<close>: between two passes of
  the state machine, and there with check sequences appended by the device and footers without errors), and the registration of
  HAL callbacks and the reset pins are left out.  The clock does not tick during a call that reads it.  Null handles, which the code asserts against, do not occur.
  Floating point operations are parameters (timestamps, \<open>bStrtof\<close>), \<open>degToRad\<close> is left out.  FreeRTOS
  and the vendor HAL are parameters or left out, as are the C++ parts (the BCMP protocol stack and the applications),
  consoles, USB and debugging, whose C code only passes calls on to them, and the register constants that no
  modelled code names.
\<close>

end
